(* ===== verification/Prelude.thy ===== *)
theory Prelude
  imports
    Main
    "HOL-Library.Char_ord"
    "HOL-Library.List_Lexorder"
    "HOL-Library.Multiset"
    "HOL-Library.Product_Lexorder"
    "HOL-Library.Word"
begin

text \<open>
  Shared vocabulary of the development.

  The program is TypeScript over a PostgreSQL database.  Every asynchronous function becomes an
  \<open>op\<close>: a function from the state to an outcome (\<open>Inl\<close> of the thrown error, \<open>Inr\<close> of the result)
  together with the state it leaves behind.  A pure function that may throw returns a plain sum.
  This theory holds the combinators (sequencing, guards, loops, \<open>try/catch\<close>, transactions), the
  rules that run them symbolically (collection \<open>run\<close>), the rules that push an invariant through
  them (collection \<open>pres\<close>), and generic facts on lists, sorting and keyed tables.
\<close>

type_synonym byte = "8 word"
type_synonym id = string
type_synonym ('e, 's, 'a) op = "'s \<Rightarrow> ('e + 'a) \<times> 's"

named_theorems run \<open>symbolic execution of the operation combinators\<close>
named_theorems pres \<open>introduction rules: an operation preserves a predicate\<close>

subsection \<open>Fallible pure code\<close>

definition bindS :: "'e + 'a \<Rightarrow> ('a \<Rightarrow> 'e + 'b) \<Rightarrow> 'e + 'b" where
  "bindS r f = (case r of Inl e \<Rightarrow> Inl e | Inr x \<Rightarrow> f x)"

primrec mapS :: "('a \<Rightarrow> 'e + 'b) \<Rightarrow> 'a list \<Rightarrow> 'e + 'b list" where
  "mapS f [] = Inr []"
| "mapS f (x # xs) = bindS (f x) (\<lambda>y. bindS (mapS f xs) (\<lambda>ys. Inr (y # ys)))"

definition assertS :: "bool \<Rightarrow> 'e \<Rightarrow> 'e + unit" where
  "assertS b e = (if b then Inr () else Inl e)"

lemma assertS_simps [simp]: "assertS True e = Inr ()" "assertS False e = Inl e"
  by (simp_all add: assertS_def)

lemma bindS_simps [simp]: "bindS (Inl e) f = Inl e" "bindS (Inr x) f = f x"
  by (simp_all add: bindS_def)

lemma bindS_eq_Inr [simp]: "bindS r f = Inr y \<longleftrightarrow> (\<exists>x. r = Inr x \<and> f x = Inr y)"
  by (cases r) auto

lemma bindS_cong [fundef_cong]:
  "r = r' \<Longrightarrow> (\<And>x. r' = Inr x \<Longrightarrow> f x = g x) \<Longrightarrow> bindS r f = bindS r' g"
  by (cases r') simp_all

lemma bindS_eq_Inl: "bindS r f = Inl e \<longleftrightarrow> r = Inl e \<or> (\<exists>x. r = Inr x \<and> f x = Inl e)"
  by (cases r) auto

lemma assertS_eq [simp]:
  "assertS b e = Inr u \<longleftrightarrow> b" "assertS b e = Inl e' \<longleftrightarrow> \<not> b \<and> e' = e"
  by (auto simp: assertS_def)

lemma mapS_Inr_map: "(\<And>x. x \<in> set xs \<Longrightarrow> f x = Inr (g x)) \<Longrightarrow> mapS f xs = Inr (map g xs)"
  by (induction xs) auto

lemma mapS_Inr_iff: "mapS f xs = Inr ys \<longleftrightarrow> list_all2 (\<lambda>x y. f x = Inr y) xs ys"
  by (induction xs arbitrary: ys) (auto simp: list_all2_Cons1)

lemma mapS_Inl_ex: "mapS f xs = Inl e \<Longrightarrow> \<exists>x\<in>set xs. f x = Inl e"
  by (induction xs) (auto simp: bindS_eq_Inl)

lemma mapS_InrD: "mapS f xs = Inr ys \<Longrightarrow> x \<in> set xs \<Longrightarrow> \<exists>y. f x = Inr y"
  by (induction xs arbitrary: ys) auto

lemma mapS_length: "mapS f xs = Inr ys \<Longrightarrow> length ys = length xs"
  by (auto simp: mapS_Inr_iff dest: list_all2_lengthD)

subsection \<open>Stateful operations\<close>

definition ret :: "'a \<Rightarrow> ('e, 's, 'a) op" where
  "ret x s = (Inr x, s)"

definition throw :: "'e \<Rightarrow> ('e, 's, 'a) op" where
  "throw e s = (Inl e, s)"

definition bindE :: "('e, 's, 'a) op \<Rightarrow> ('a \<Rightarrow> ('e, 's, 'b) op) \<Rightarrow> ('e, 's, 'b) op" where
  "bindE m f s = (case m s of (Inl e, t) \<Rightarrow> (Inl e, t) | (Inr x, t) \<Rightarrow> f x t)"

definition getsE :: "('s \<Rightarrow> 'a) \<Rightarrow> ('e, 's, 'a) op" where
  "getsE f s = (Inr (f s), s)"

definition modifyE :: "('s \<Rightarrow> 's) \<Rightarrow> ('e, 's, unit) op" where
  "modifyE f s = (Inr (), f s)"

definition liftE :: "'e + 'a \<Rightarrow> ('e, 's, 'a) op" where
  "liftE r s = (r, s)"

text \<open>\<open>if (!c) throw e\<close>.\<close>

definition requireE :: "bool \<Rightarrow> 'e \<Rightarrow> ('e, 's, unit) op" where
  "requireE c e s = (if c then Inr () else Inl e, s)"

text \<open>\<open>const row = rows[0]; if (!row) throw e\<close>.\<close>

definition expectE :: "'a option \<Rightarrow> 'e \<Rightarrow> ('e, 's, 'a) op" where
  "expectE r e s = (case r of None \<Rightarrow> Inl e | Some x \<Rightarrow> Inr x, s)"

text \<open>\<open>if (c) await m\<close>.\<close>

definition whenE :: "bool \<Rightarrow> ('e, 's, unit) op \<Rightarrow> ('e, 's, unit) op" where
  "whenE c m = (if c then m else ret ())"

text \<open>\<open>try { m } catch (err) { h err }\<close>; the state of the failed block is kept.\<close>

definition catchE :: "('e, 's, 'a) op \<Rightarrow> ('e \<Rightarrow> ('e, 's, 'a) op) \<Rightarrow> ('e, 's, 'a) op" where
  "catchE m h s = (case m s of (Inl e, t) \<Rightarrow> h e t | (Inr x, t) \<Rightarrow> (Inr x, t))"

primrec mapE :: "('a \<Rightarrow> ('e, 's, 'b) op) \<Rightarrow> 'a list \<Rightarrow> ('e, 's, 'b list) op" where
  "mapE f [] = ret []"
| "mapE f (x # xs) = bindE (f x) (\<lambda>y. bindE (mapE f xs) (\<lambda>ys. ret (y # ys)))"

text \<open>\<open>for (const x of xs) await f x\<close>.\<close>

primrec forE :: "('a \<Rightarrow> ('e, 's, unit) op) \<Rightarrow> 'a list \<Rightarrow> ('e, 's, unit) op" where
  "forE f [] = ret ()"
| "forE f (x # xs) = bindE (f x) (\<lambda>_. forE f xs)"

text \<open>
  \<open>BEGIN ... COMMIT\<close>, with \<open>ROLLBACK\<close> and rethrow when the body throws.  \<open>restore old new\<close> is the
  state after the rollback: the tables of \<open>old\<close>, whatever is outside the database from \<open>new\<close>.
\<close>

definition txnE :: "('s \<Rightarrow> 's \<Rightarrow> 's) \<Rightarrow> ('e, 's, 'a) op \<Rightarrow> ('e, 's, 'a) op" where
  "txnE restore m s =
     (case m s of (Inl e, t) \<Rightarrow> (Inl e, restore s t) | (Inr x, t) \<Rightarrow> (Inr x, t))"

lemma run_basic [run]:
  "ret x s = (Inr x, s)"
  "throw e s = (Inl e, s)"
  "getsE f s = (Inr (f s), s)"
  "modifyE g s = (Inr (), g s)"
  "liftE r s = (r, s)"
  "requireE c e s = (if c then Inr () else Inl e, s)"
  "expectE (Some y) e s = (Inr y, s)"
  "expectE None e s = (Inl e, s)"
  by (simp_all add: ret_def throw_def getsE_def modifyE_def liftE_def requireE_def expectE_def)

lemma run_bindE [run]:
  "bindE m f s = (case m s of (Inl e, t) \<Rightarrow> (Inl e, t) | (Inr x, t) \<Rightarrow> f x t)"
  by (simp add: bindE_def)

lemma run_whenE [run]: "whenE c m s = (if c then m s else (Inr (), s))"
  by (simp add: whenE_def ret_def)

lemma run_catchE [run]:
  "catchE m h s = (case m s of (Inl e, t) \<Rightarrow> h e t | (Inr x, t) \<Rightarrow> (Inr x, t))"
  by (simp add: catchE_def)

lemma run_txnE [run]:
  "txnE restore m s =
     (case m s of (Inl e, t) \<Rightarrow> (Inl e, restore s t) | (Inr x, t) \<Rightarrow> (Inr x, t))"
  by (simp add: txnE_def)

text \<open>Running a sequence one step at a time, each step given as an equation.\<close>

lemma bindE_step: "m s = (Inr x, u) \<Longrightarrow> f x u = r \<Longrightarrow> bindE m f s = r"
  by (simp add: bindE_def)

lemma bindE_run: "m s = (Inr x, u) \<Longrightarrow> bindE m f s = f x u"
  by (simp add: bindE_def)

lemma liftE_step: "r = Inr x \<Longrightarrow> liftE r s = (Inr x, s)"
  by (simp add: liftE_def)

lemma expectE_step: "q = Some x \<Longrightarrow> expectE q e s = (Inr x, s)"
  by (simp add: expectE_def)

lemma requireE_step: "c \<Longrightarrow> requireE c e s = (Inr (), s)"
  by (simp add: requireE_def)

text \<open>Inversion of a successful or a failed run.\<close>

lemma bindE_Inr: "bindE m f s = (Inr y, t) \<longleftrightarrow> (\<exists>x u. m s = (Inr x, u) \<and> f x u = (Inr y, t))"
  by (auto simp: bindE_def split: prod.splits sum.splits)

lemma bindE_Inl:
  "bindE m f s = (Inl e, t) \<longleftrightarrow>
     m s = (Inl e, t) \<or> (\<exists>x u. m s = (Inr x, u) \<and> f x u = (Inl e, t))"
  by (auto simp: bindE_def split: prod.splits sum.splits)

lemma basic_Inr:
  "ret x s = (Inr y, t) \<longleftrightarrow> y = x \<and> t = s"
  "throw e s = (Inr y, t) \<longleftrightarrow> False"
  "getsE f s = (Inr z, t) \<longleftrightarrow> z = f s \<and> t = s"
  "modifyE g s = (Inr v, t) \<longleftrightarrow> t = g s"
  "liftE r s = (Inr y, t) \<longleftrightarrow> r = Inr y \<and> t = s"
  "requireE c e s = (Inr v, t) \<longleftrightarrow> c \<and> t = s"
  "expectE q e s = (Inr y, t) \<longleftrightarrow> q = Some y \<and> t = s"
  "whenE c m s = (Inr v, t) \<longleftrightarrow> (if c then m s = (Inr (), t) else t = s)"
  by (auto simp: ret_def throw_def getsE_def modifyE_def liftE_def requireE_def expectE_def
      whenE_def split: option.splits)

lemma txnE_Inr: "txnE r m s = (Inr y, t) \<longleftrightarrow> m s = (Inr y, t)"
  by (auto simp: txnE_def split: prod.splits sum.splits)

lemma txnE_Inl: "txnE r m s = (Inl e, t) \<longleftrightarrow> (\<exists>u. m s = (Inl e, u) \<and> t = r s u)"
  by (auto simp: txnE_def split: prod.splits sum.splits)

lemma basic_Inl:
  "ret x s = (Inl e, t) \<longleftrightarrow> False"
  "throw e' s = (Inl e, t) \<longleftrightarrow> e = e' \<and> t = s"
  "getsE f s = (Inl e, t) \<longleftrightarrow> False"
  "modifyE g s = (Inl e, t) \<longleftrightarrow> False"
  "liftE r s = (Inl e, t) \<longleftrightarrow> r = Inl e \<and> t = s"
  "requireE c e' s = (Inl e, t) \<longleftrightarrow> \<not> c \<and> e = e' \<and> t = s"
  "expectE q e' s = (Inl e, t) \<longleftrightarrow> q = None \<and> e = e' \<and> t = s"
  "whenE c m s = (Inl e, t) \<longleftrightarrow> c \<and> m s = (Inl e, t)"
  by (auto simp: ret_def throw_def getsE_def modifyE_def liftE_def requireE_def expectE_def
      whenE_def split: option.splits)

lemmas inr_iffs = bindE_Inr basic_Inr txnE_Inr
lemmas inl_iffs = bindE_Inl basic_Inl txnE_Inl

subsection \<open>Invariants of operations\<close>

text \<open>\<open>preserves P m\<close>: whatever \<open>m\<close> returns or throws, \<open>P\<close> is kept.\<close>

definition preserves :: "('s \<Rightarrow> bool) \<Rightarrow> ('e, 's, 'a) op \<Rightarrow> bool" where
  "preserves P m \<longleftrightarrow> (\<forall>s. P s \<longrightarrow> P (snd (m s)))"

text \<open>\<open>commits P m\<close>: \<open>m\<close> keeps \<open>P\<close> whenever it succeeds (what a transaction body must do).\<close>

definition commits :: "('s \<Rightarrow> bool) \<Rightarrow> ('e, 's, 'a) op \<Rightarrow> bool" where
  "commits P m \<longleftrightarrow> (\<forall>s x t. P s \<longrightarrow> m s = (Inr x, t) \<longrightarrow> P t)"

lemma preservesI: "(\<And>s. P s \<Longrightarrow> P (snd (m s))) \<Longrightarrow> preserves P m"
  by (simp add: preserves_def)

lemma preservesD: "preserves P m \<Longrightarrow> m s = (r, t) \<Longrightarrow> P s \<Longrightarrow> P t"
  by (auto simp: preserves_def dest: spec [of _ s])

lemma preserves_commits: "preserves P m \<Longrightarrow> commits P m"
  by (auto simp: commits_def dest: preservesD)

lemma pres_ret [pres]: "preserves P (ret x)"
  by (simp add: preserves_def ret_def)

lemma pres_throw [pres]: "preserves P (throw e)"
  by (simp add: preserves_def throw_def)

lemma pres_gets [pres]: "preserves P (getsE f)"
  by (simp add: preserves_def getsE_def)

lemma pres_lift [pres]: "preserves P (liftE r)"
  by (simp add: preserves_def liftE_def)

lemma pres_require [pres]: "preserves P (requireE c e)"
  by (simp add: preserves_def requireE_def)

lemma pres_expect [pres]: "preserves P (expectE q e)"
  by (simp add: preserves_def expectE_def)

lemma pres_modify [pres]: "(\<And>s. P s \<Longrightarrow> P (g s)) \<Longrightarrow> preserves P (modifyE g)"
  by (simp add: preserves_def modifyE_def)

lemma pres_bind [pres]:
  "preserves P m \<Longrightarrow> (\<And>x. preserves P (f x)) \<Longrightarrow> preserves P (bindE m f)"
  by (fastforce simp: preserves_def bindE_def split: prod.splits sum.splits)

lemma pres_when [pres]: "(c \<Longrightarrow> preserves P m) \<Longrightarrow> preserves P (whenE c m)"
  by (simp add: whenE_def pres_ret)

lemma pres_if [pres]:
  "(c \<Longrightarrow> preserves P m) \<Longrightarrow> (\<not> c \<Longrightarrow> preserves P m') \<Longrightarrow> preserves P (if c then m else m')"
  by simp

lemma pres_option [pres]:
  "(q = None \<Longrightarrow> preserves P m) \<Longrightarrow> (\<And>x. q = Some x \<Longrightarrow> preserves P (f x)) \<Longrightarrow>
   preserves P (case q of None \<Rightarrow> m | Some x \<Rightarrow> f x)"
  by (cases q) auto

lemma pres_catch [pres]:
  "preserves P m \<Longrightarrow> (\<And>e. preserves P (h e)) \<Longrightarrow> preserves P (catchE m h)"
  by (fastforce simp: preserves_def catchE_def split: prod.splits sum.splits)

lemma pres_mapE [pres]: "(\<And>x. preserves P (f x)) \<Longrightarrow> preserves P (mapE f xs)"
  by (induction xs) (auto intro!: pres_ret pres_bind)

lemma pres_forE [pres]: "(\<And>x. preserves P (f x)) \<Longrightarrow> preserves P (forE f xs)"
  by (induction xs) (auto intro!: pres_ret pres_bind)

lemma preserves_txnE:
  assumes "commits P m" and "\<And>s t. P s \<Longrightarrow> P (r s t)"
  shows "preserves P (txnE r m)"
  using assms by (fastforce simp: preserves_def commits_def txnE_def split: prod.splits sum.splits)

lemma commits_bind:
  "commits P m \<Longrightarrow> (\<And>x. commits P (f x)) \<Longrightarrow> commits P (bindE m f)"
  unfolding commits_def bindE_Inr by blast

subsection \<open>Lists, lookups and sorting\<close>

text \<open>\<open>result.rows[0] ?? null\<close>.\<close>

definition first_row :: "'a list \<Rightarrow> 'a option" where
  "first_row xs = (case xs of [] \<Rightarrow> None | x # _ \<Rightarrow> Some x)"

text \<open>\<open>xs.at(-1)\<close>.\<close>

definition last_row :: "'a list \<Rightarrow> 'a option" where
  "last_row xs = (if xs = [] then None else Some (last xs))"

lemma first_row_simps [simp]: "first_row [] = None" "first_row (x # xs) = Some x"
  by (simp_all add: first_row_def)

lemma first_row_filter: "first_row (filter p xs) = find p xs"
  by (induction xs) auto

lemma first_row_SomeD: "first_row xs = Some x \<Longrightarrow> x \<in> set xs"
  by (cases xs) auto

lemma first_row_None [simp]: "first_row xs = None \<longleftrightarrow> xs = []"
  by (cases xs) auto

lemma last_row_SomeD: "last_row xs = Some x \<Longrightarrow> x \<in> set xs"
  by (auto simp: last_row_def split: if_splits)

lemma last_row_snoc [simp]: "last_row (xs @ [x]) = Some x" "last_row [] = None"
  by (simp_all add: last_row_def)

lemma find_by_key:
  assumes "distinct (map key xs)"
  shows "find (\<lambda>r. key r = k) xs = Some x \<longleftrightarrow> x \<in> set xs \<and> key x = k"
  using assms by (induction xs) (auto simp: image_iff)

lemma find_SomeD: "find p xs = Some x \<Longrightarrow> x \<in> set xs \<and> p x"
  by (induction xs) (auto split: if_splits)

lemma find_append:
  "find p (xs @ ys) = (case find p xs of None \<Rightarrow> find p ys | Some x \<Rightarrow> Some x)"
  by (induction xs) auto

lemma sort_key_id: "sorted (map f xs) \<Longrightarrow> sort_key f xs = xs"
  by (induction xs) (auto simp: insort_is_Cons)

lemma sorted_wrt_snoc: "sorted_wrt r (xs @ [y]) \<longleftrightarrow> sorted_wrt r xs \<and> (\<forall>x\<in>set xs. r x y)"
  by (auto simp: sorted_wrt_append)

text \<open>Two enumerations of the same rows sort to the same list when the sort key tells rows apart.\<close>

lemma sort_key_perm:
  assumes "mset xs = mset ys" and "inj_on f (set xs)"
  shows "sort_key f xs = sort_key f ys"
proof (rule map_inj_on [of f])
  have "map f (sort_key f xs) = sort (map f xs)"
    by (rule properties_for_sort [symmetric]) simp_all
  moreover have "map f (sort_key f ys) = sort (map f ys)"
    by (rule properties_for_sort [symmetric]) simp_all
  moreover have "sort (map f xs) = sort (map f ys)"
    using assms(1) by (simp add: properties_for_sort)
  ultimately show "map f (sort_key f xs) = map f (sort_key f ys)" by simp
next
  have "set xs = set ys" using assms(1) by (metis set_mset_mset)
  then show "inj_on f (set (sort_key f xs) \<union> set (sort_key f ys))"
    using assms(2) by simp
qed

subsection \<open>Tables with a key\<close>

text \<open>
  A table is the list of its rows in insertion order.  An \<open>UPDATE ... WHERE key = k\<close> maps over the
  rows and must leave the key alone.
\<close>

definition update_where :: "('r \<Rightarrow> bool) \<Rightarrow> ('r \<Rightarrow> 'r) \<Rightarrow> 'r list \<Rightarrow> 'r list" where
  "update_where p u rows = map (\<lambda>r. if p r then u r else r) rows"

definition count_where :: "('r \<Rightarrow> bool) \<Rightarrow> 'r list \<Rightarrow> nat" where
  "count_where p rows = length (filter p rows)"

locale keyed_table =
  fixes key :: "'r \<Rightarrow> 'k" and upd :: "'a \<Rightarrow> 'r \<Rightarrow> 'r"
  assumes key_upd: "key (upd a r) = key r"
begin

lemma keys_update: "map key (update_where p (upd a) rows) = map key rows"
  by (simp add: update_where_def key_upd)

lemma update_other:
  assumes "\<not> p r" "r \<in> set rows"
  shows "r \<in> set (update_where p (upd a) rows)"
  using assms by (force simp: update_where_def)

lemma find_update:
  "find (\<lambda>r. key r = k) (update_where (\<lambda>r. key r = k) (upd a) rows) =
   map_option (upd a) (find (\<lambda>r. key r = k) rows)"
  by (induction rows) (auto simp: update_where_def key_upd)

lemma find_update_other:
  assumes "\<And>r. p r \<Longrightarrow> key r \<noteq> k"
  shows "find (\<lambda>r. key r = k) (update_where p (upd a) rows) = find (\<lambda>r. key r = k) rows"
  using assms by (induction rows) (auto simp: update_where_def key_upd)

lemma distinct_update: "distinct (map key rows) \<Longrightarrow> distinct (map key (update_where p (upd a) rows))"
  by (simp add: keys_update)

end

lemma count_where_pos: "count_where p rows \<noteq> 0 \<longleftrightarrow> (\<exists>r\<in>set rows. p r)"
  by (auto simp: count_where_def filter_empty_conv)

lemma filter_key_unique:
  "distinct (map key rows) \<Longrightarrow> r \<in> set rows \<Longrightarrow> filter (\<lambda>x. key x = key r) rows = [r]"
proof (induction rows)
  case (Cons x xs)
  show ?case
  proof (cases "x = r")
    case True
    have "filter (\<lambda>y. key y = key x) xs = []"
      using Cons.prems(1) by (simp add: filter_empty_conv) (metis image_eqI)
    with True show ?thesis by simp
  next
    case False
    with Cons.prems have r: "r \<in> set xs" by simp
    with Cons.prems(1) have "key x \<noteq> key r" by auto
    with Cons r show ?thesis by simp
  qed
qed simp

lemma find_key_unique:
  "distinct (map key rows) \<Longrightarrow> r \<in> set rows \<Longrightarrow> find (\<lambda>x. key x = key r) rows = Some r"
  by (simp add: filter_key_unique flip: first_row_filter)

end
