(* ===== verification/Contracts.thy ===== *)
theory Contracts
  imports Prelude
begin

text \<open>
  The shared vocabulary of the monorepo: \<open>packages/contracts/src/index.ts\<close>.  Union types of string
  literals are datatypes with one constructor per literal and a \<open>*_str\<close> function that gives the
  literal back where the string itself is stored or hashed.  \<open>CLASSIFICATION_RANK\<close> and \<open>RISK_RANK\<close>
  are kept as numeric tables; the datatypes are also instances of \<open>linorder\<close> along those ranks, so
  that a ceiling check is the order of the type.  The error classes thrown across the code base are
  one datatype, \<open>err\<close>: each constructor keeps the fields that program logic reads (code, HTTP status,
  ambiguity flag), the human-readable message is dropped.
\<close>

subsection \<open>Enumerations\<close>

datatype risk_tier = Low | Medium | High

datatype data_classification = Public | Internal | Confidential | Restricted

datatype ledger_entry_type =
  RequestOpened | ApprovalRequested | ActionCompleted | FinalEntry | FailureEntry

datatype execution_status =
  Created | Running | WaitingApproval | Completed | Failed | Blocked | Cancelled

datatype policy_decision_value = Allow | Deny | NeedsApproval

datatype knowledge_mode = Strict | Grounded | General

datatype deployment_type = Local | Private | Cloud

datatype model_provider = MockProvider | Anthropic | OpenAI | OpenAICompatible

fun risk_str :: "risk_tier \<Rightarrow> string" where
  "risk_str Low = ''low''"
| "risk_str Medium = ''medium''"
| "risk_str High = ''high''"

fun classification_str :: "data_classification \<Rightarrow> string" where
  "classification_str Public = ''public''"
| "classification_str Internal = ''internal''"
| "classification_str Confidential = ''confidential''"
| "classification_str Restricted = ''restricted''"

fun entry_type_str :: "ledger_entry_type \<Rightarrow> string" where
  "entry_type_str RequestOpened = ''request_opened''"
| "entry_type_str ApprovalRequested = ''approval_requested''"
| "entry_type_str ActionCompleted = ''action_completed''"
| "entry_type_str FinalEntry = ''final''"
| "entry_type_str FailureEntry = ''failure''"

fun status_str :: "execution_status \<Rightarrow> string" where
  "status_str Created = ''created''"
| "status_str Running = ''running''"
| "status_str WaitingApproval = ''waiting_approval''"
| "status_str Completed = ''completed''"
| "status_str Failed = ''failed''"
| "status_str Blocked = ''blocked''"
| "status_str Cancelled = ''cancelled''"

fun mode_str :: "knowledge_mode \<Rightarrow> string" where
  "mode_str Strict = ''strict''"
| "mode_str Grounded = ''grounded''"
| "mode_str General = ''general''"

fun deployment_str :: "deployment_type \<Rightarrow> string" where
  "deployment_str Local = ''local''"
| "deployment_str Private = ''private''"
| "deployment_str Cloud = ''cloud''"

fun provider_str :: "model_provider \<Rightarrow> string" where
  "provider_str MockProvider = ''mock''"
| "provider_str Anthropic = ''anthropic''"
| "provider_str OpenAI = ''openai''"
| "provider_str OpenAICompatible = ''openai-compatible''"

lemma entry_type_str_inj [simp]: "entry_type_str a = entry_type_str b \<longleftrightarrow> a = b"
  by (cases a; cases b) simp_all

lemma status_str_inj [simp]: "status_str a = status_str b \<longleftrightarrow> a = b"
  by (cases a; cases b) simp_all

subsection \<open>Permissions and event types\<close>

definition PERMISSIONS :: "string list" where
  "PERMISSIONS =
    [''organization.manage'', ''users.manage'', ''roles.manage'', ''nova.use'', ''social.draft'',
     ''knowledge.read'', ''knowledge.manage'', ''knowledge.approve'', ''models.read'',
     ''models.manage'', ''policies.read'', ''policies.manage'', ''approvals.read'',
     ''approvals.decide'', ''audit.read'', ''audit.export'', ''connectors.manage'']"

definition EXECUTION_GRAPH_SCHEMA_VERSION :: string where
  "EXECUTION_GRAPH_SCHEMA_VERSION = ''2''"

definition EXECUTION_EVENT_TYPES :: "string list" where
  "EXECUTION_EVENT_TYPES =
    [''execution.created'', ''identity.authenticated'', ''authorization.started'',
     ''authorization.allowed'', ''authorization.denied'', ''risk.classified'',
     ''knowledge.retrieval.started'', ''knowledge.retrieval.completed'',
     ''knowledge.retrieval.insufficient'', ''model.routing.started'', ''model.selected'',
     ''model.routing.failed'', ''model.execution.started'', ''model.execution.completed'',
     ''model.execution.failed'', ''nova.skill.started'', ''nova.skill.completed'',
     ''nova.skill.failed'', ''validation.started'', ''validation.passed'', ''validation.failed'',
     ''approval.requested'', ''approval.approved'', ''approval.rejected'', ''approval.expired'',
     ''tool.requested'', ''tool.authorized'', ''tool.denied'', ''tool.completed'', ''tool.failed'',
     ''release.started'', ''release.completed'', ''release.blocked'', ''execution.failed'',
     ''execution.blocked'', ''execution.completed'', ''audit.checkpoint.sealed'']"

subsection \<open>Ranks\<close>

fun CLASSIFICATION_RANK :: "data_classification \<Rightarrow> nat" where
  "CLASSIFICATION_RANK Public = 0"
| "CLASSIFICATION_RANK Internal = 1"
| "CLASSIFICATION_RANK Confidential = 2"
| "CLASSIFICATION_RANK Restricted = 3"

fun RISK_RANK :: "risk_tier \<Rightarrow> nat" where
  "RISK_RANK Low = 0"
| "RISK_RANK Medium = 1"
| "RISK_RANK High = 2"

text \<open>
  What a ceiling check relies on: a table of ranks that tells the levels apart.  The check
  \<open>RANK[requested] > RANK[ceiling]\<close> then denies exactly what is strictly above the ceiling.
\<close>

locale ranked =
  fixes rank :: "'a \<Rightarrow> nat"
  assumes rank_inj: "rank a = rank b \<Longrightarrow> a = b"
begin

lemma not_above_antisym: "\<not> rank a > rank b \<Longrightarrow> \<not> rank b > rank a \<Longrightarrow> a = b"
  using rank_inj by simp

lemma lower_ceiling_denies_more:
  "rank c' \<le> rank c \<Longrightarrow> rank x > rank c \<Longrightarrow> rank x > rank c'"
  by simp

lemma lower_request_allowed: "rank x' \<le> rank x \<Longrightarrow> \<not> rank x > rank c \<Longrightarrow> \<not> rank x' > rank c"
  by simp

end

interpretation classification: ranked CLASSIFICATION_RANK
proof unfold_locales
  fix a b show "CLASSIFICATION_RANK a = CLASSIFICATION_RANK b \<Longrightarrow> a = b"
    by (cases a; cases b) simp_all
qed

interpretation risk: ranked RISK_RANK
proof unfold_locales
  fix a b show "RISK_RANK a = RISK_RANK b \<Longrightarrow> a = b"
    by (cases a; cases b) simp_all
qed

instantiation data_classification :: linorder
begin

definition less_eq_data_classification :: "data_classification \<Rightarrow> data_classification \<Rightarrow> bool" where
  "a \<le> b \<longleftrightarrow> CLASSIFICATION_RANK a \<le> CLASSIFICATION_RANK b"

definition less_data_classification :: "data_classification \<Rightarrow> data_classification \<Rightarrow> bool" where
  "a < b \<longleftrightarrow> CLASSIFICATION_RANK a < CLASSIFICATION_RANK b"

instance
  by standard
    (auto simp: less_eq_data_classification_def less_data_classification_def
      intro: classification.rank_inj)

end

instantiation risk_tier :: linorder
begin

definition less_eq_risk_tier :: "risk_tier \<Rightarrow> risk_tier \<Rightarrow> bool" where
  "a \<le> b \<longleftrightarrow> RISK_RANK a \<le> RISK_RANK b"

definition less_risk_tier :: "risk_tier \<Rightarrow> risk_tier \<Rightarrow> bool" where
  "a < b \<longleftrightarrow> RISK_RANK a < RISK_RANK b"

instance
  by standard (auto simp: less_eq_risk_tier_def less_risk_tier_def intro: risk.rank_inj)

end

lemma rank_le_iff [simp]:
  "CLASSIFICATION_RANK a \<le> CLASSIFICATION_RANK b \<longleftrightarrow> a \<le> b"
  "CLASSIFICATION_RANK a < CLASSIFICATION_RANK b \<longleftrightarrow> a < b"
  "RISK_RANK r \<le> RISK_RANK t \<longleftrightarrow> r \<le> t"
  "RISK_RANK r < RISK_RANK t \<longleftrightarrow> r < t"
  by (simp_all add: less_eq_data_classification_def less_data_classification_def
      less_eq_risk_tier_def less_risk_tier_def)

subsection \<open>Errors\<close>

datatype err =
    PlainError string
  | EvidenceError string
  | TransitionError execution_status execution_status
  | EventError string
  | UnresolvedParents "id list"
  | AuthError string nat
  | KnowledgeError string nat
  | ExecutionError string nat
  | ApiError nat string
  | ConnectorError string "string option" bool
  | ConfigError string
  | SqlError string

end
