(* ===== verification/Json.thy ===== *)
theory Json
  imports Contracts
begin

text \<open>
  JSON values, \<open>JSON.stringify\<close>, and the canonical form VCHF-2 of
  \<open>packages/audit-kernel/src/hashing/canonicalize.ts\<close>.

  A JavaScript string is a list of code units; the model covers the code units below 256 (type
  \<open>char\<close>), which contains every identifier, hash and time stamp the kernel hashes.  A number that is
  an integer is \<open>JNum\<close>; any other number is \<open>JFrac\<close> with the text \<open>JSON.stringify\<close> prints for it
  (\<open>''null''\<close> for NaN and the infinities); \<open>JUndef\<close> stands for undefined, functions, symbols and
  bigints.  An object is the list of its properties in enumeration order.

  The main result is that the canonical form determines the value: two values with the same text
  are equal up to the order of object keys (\<open>canonicalize_determines\<close>).  It is proved by unique
  decodability of a printer \<open>pr\<close> for key-sorted values.
\<close>

datatype json =
    JNull
  | JBool bool
  | JNum int
  | JFrac string
  | JUndef
  | JStr string
  | JArr "json list"
  | JObj "(string \<times> json) list"

subsection \<open>Numbers and strings as text\<close>

definition digit_char :: "nat \<Rightarrow> char" where
  "digit_char d = char_of (48 + d)"

fun show_nat :: "nat \<Rightarrow> string" where
  "show_nat n = (if n < 10 then [digit_char n] else show_nat (n div 10) @ [digit_char (n mod 10)])"

declare show_nat.simps [simp del]

definition show_int :: "int \<Rightarrow> string" where
  "show_int i = (if i < 0 then CHR ''-'' # show_nat (nat (- i)) else show_nat (nat i))"

definition isSafeInteger :: "int \<Rightarrow> bool" where
  "isSafeInteger i \<longleftrightarrow> \<bar>i\<bar> \<le> 9007199254740991"

definition hex_digit :: "nat \<Rightarrow> char" where
  "hex_digit d = (if d < 10 then char_of (48 + d) else char_of (87 + d))"

text \<open>The escapes of \<open>JSON.stringify\<close> on one code unit.\<close>

definition json_escape :: "char \<Rightarrow> string" where
  "json_escape c =
     (let n = of_char c :: nat in
      if n = 8 then [CHR 0x5C, CHR ''b'']
      else if n = 9 then [CHR 0x5C, CHR ''t'']
      else if n = 10 then [CHR 0x5C, CHR ''n'']
      else if n = 12 then [CHR 0x5C, CHR ''f'']
      else if n = 13 then [CHR 0x5C, CHR ''r'']
      else if n = 34 then [CHR 0x5C, CHR 0x22]
      else if n = 92 then [CHR 0x5C, CHR 0x5C]
      else if n < 32 then
        [CHR 0x5C, CHR ''u'', CHR ''0'', CHR ''0'', hex_digit (n div 16), hex_digit (n mod 16)]
      else [c])"

definition quote :: "string \<Rightarrow> string" where
  "quote s = CHR 0x22 # concat (map json_escape s) @ [CHR 0x22]"

fun join :: "string \<Rightarrow> string list \<Rightarrow> string" where
  "join sep [] = []"
| "join sep [x] = x"
| "join sep (x # y # ys) = x @ sep @ join sep (y # ys)"

text \<open>\<open>JSON.stringify\<close>: properties in enumeration order, undefined ones left out.\<close>

fun stringify :: "json \<Rightarrow> string" where
  "stringify JNull = ''null''"
| "stringify (JBool b) = (if b then ''true'' else ''false'')"
| "stringify (JNum i) = show_int i"
| "stringify (JFrac t) = t"
| "stringify JUndef = ''null''"
| "stringify (JStr s) = quote s"
| "stringify (JArr xs) = ''['' @ join '','' (map stringify xs) @ '']''"
| "stringify (JObj kvs) =
     ''{'' @ join '',''
       (map (\<lambda>kv. quote (fst kv) @ '':'' @ stringify (snd kv)) (filter (\<lambda>kv. snd kv \<noteq> JUndef) kvs)) @
     ''}''"

subsection \<open>The canonical form\<close>

lemma mapS_cong [fundef_cong]:
  "xs = ys \<Longrightarrow> (\<And>x. x \<in> set ys \<Longrightarrow> f x = g x) \<Longrightarrow> mapS f xs = mapS g ys"
  by (induction ys arbitrary: xs) auto

definition not_safe_integer :: err where
  "not_safe_integer = PlainError ''VCHF-2 only accepts finite safe integers''"

definition unsupported_type :: err where
  "unsupported_type = PlainError ''unsupported VCHF-2 type''"

function (sequential) encode :: "json \<Rightarrow> err + string" where
  "encode JNull = Inr ''null''"
| "encode (JBool b) = Inr (if b then ''true'' else ''false'')"
| "encode (JNum i) = (if isSafeInteger i then Inr (show_int i) else Inl not_safe_integer)"
| "encode (JFrac t) = Inl not_safe_integer"
| "encode (JStr s) = Inr (quote s)"
| "encode (JArr xs) = bindS (mapS encode xs) (\<lambda>ps. Inr (''['' @ join '','' ps @ '']''))"
| "encode (JObj kvs) =
     bindS
       (mapS (\<lambda>kv. bindS (encode (snd kv)) (\<lambda>b. Inr (quote (fst kv) @ '':'' @ b)))
         (sort_key fst kvs))
       (\<lambda>ps. Inr (''{'' @ join '','' ps @ ''}''))"
| "encode JUndef = Inl unsupported_type"
  by pat_completeness auto
termination
proof (relation "measure size")
  fix xs :: "json list" and x assume "x \<in> set xs"
  then show "(x, JArr xs) \<in> measure size" by (induction xs) auto
next
  fix kvs :: "(string \<times> json) list" and x assume "x \<in> set (sort_key fst kvs)"
  then have "x \<in> set kvs" by simp
  then show "(snd x, JObj kvs) \<in> measure size" by (induction kvs) (auto simp: size_prod_simp)
qed simp

definition canonicalize :: "json \<Rightarrow> err + string" where
  "canonicalize v = encode v"

subsection \<open>Unique decodability\<close>

lemma digit_char_inj: "a < 10 \<Longrightarrow> b < 10 \<Longrightarrow> digit_char a = digit_char b \<Longrightarrow> a = b"
proof -
  assume "a < 10" "b < 10" "digit_char a = digit_char b"
  then have "(of_char (digit_char a) :: nat) = of_char (digit_char b)" by simp
  with \<open>a < 10\<close> \<open>b < 10\<close> show "a = b" by (simp add: digit_char_def take_bit_eq_mod)
qed

definition is_digit :: "char \<Rightarrow> bool" where
  "is_digit c \<longleftrightarrow> 48 \<le> (of_char c :: nat) \<and> (of_char c :: nat) \<le> 57"

lemma is_digit_digit_char [simp]: "d < 10 \<Longrightarrow> is_digit (digit_char d)"
  by (simp add: digit_char_def is_digit_def take_bit_eq_mod)

text \<open>The value of a run of digits.\<close>

definition digit_val :: "char \<Rightarrow> nat" where
  "digit_val c = of_char c - 48"

lemma digit_val_digit_char [simp]: "d < 10 \<Longrightarrow> digit_val (digit_char d) = d"
  by (simp add: digit_char_def digit_val_def take_bit_eq_mod)

definition digits_val :: "string \<Rightarrow> nat" where
  "digits_val s = foldl (\<lambda>a c. 10 * a + digit_val c) 0 s"

lemma show_nat_digits: "list_all is_digit (show_nat n)"
proof (induction n rule: show_nat.induct)
  case (1 n)
  then show ?case by (subst show_nat.simps) auto
qed

lemma show_nat_val: "digits_val (show_nat n) = n"
proof (induction n rule: show_nat.induct)
  case (1 n)
  then show ?case by (subst show_nat.simps) (auto simp: digits_val_def)
qed

lemma show_nat_nonempty: "show_nat n \<noteq> []"
  by (subst show_nat.simps) simp

lemma show_nat_inj [simp]: "show_nat a = show_nat b \<longleftrightarrow> a = b"
  by (metis show_nat_val)

text \<open>Text that follows a value inside a canonical form.\<close>

definition ends_value :: "string \<Rightarrow> bool" where
  "ends_value r \<longleftrightarrow> r = [] \<or> hd r \<in> {CHR '','', CHR '']'', CHR ''}''}"

lemma ends_value_not_digit: "ends_value (c # r) \<Longrightarrow> \<not> is_digit c"
  by (auto simp: ends_value_def is_digit_def)

lemma digits_split:
  assumes "list_all is_digit a" "list_all is_digit b" "ends_value r" "ends_value r'"
    and "a @ r = b @ r'"
  shows "a = b \<and> r = r'"
  using assms
proof (induction a arbitrary: b)
  case Nil
  then show ?case
    by (cases b) (auto simp: ends_value_def is_digit_def)
next
  case (Cons x a)
  have "b \<noteq> []"
    using Cons.prems by (auto simp: ends_value_def is_digit_def)
  then obtain y ys where b: "b = y # ys" by (cases b) auto
  have "x = y" "a @ r = ys @ r'" using Cons.prems(5) by (simp_all add: b)
  moreover have "a = ys \<and> r = r'"
    using Cons.prems \<open>a @ r = ys @ r'\<close> by (intro Cons.IH) (simp_all add: b)
  ultimately show ?case by (simp add: b)
qed

lemma show_nat_hd: "is_digit (hd (show_nat n))"
  using show_nat_digits [of n] show_nat_nonempty [of n] by (cases "show_nat n") auto

lemma show_nat_no_minus: "show_nat n @ s \<noteq> CHR ''-'' # t"
proof
  assume "show_nat n @ s = CHR ''-'' # t"
  then have "hd (show_nat n) = CHR ''-''"
    using show_nat_nonempty [of n] by (metis hd_append2 list.sel(1))
  with show_nat_hd [of n] show False by (simp add: is_digit_def)
qed

lemma show_int_split:
  assumes "show_int i @ r = show_int j @ r'" "ends_value r" "ends_value r'"
  shows "i = j \<and> r = r'"
proof -
  note split = digits_split [OF show_nat_digits show_nat_digits assms(2,3)]
  show ?thesis
  proof (cases "i < 0"; cases "j < 0")
    assume "i < 0" "j < 0"
    then show ?thesis using assms(1) split [of "nat (- i)" "nat (- j)"]
      by (simp add: show_int_def eq_nat_nat_iff)
  next
    assume "i < 0" "\<not> j < 0"
    then show ?thesis
      using assms(1) show_nat_no_minus [of "nat j" r'] by (metis append_Cons show_int_def)
  next
    assume "\<not> i < 0" "j < 0"
    then show ?thesis
      using assms(1) show_nat_no_minus [of "nat i" r] by (metis append_Cons show_int_def)
  next
    assume "\<not> i < 0" "\<not> j < 0"
    then show ?thesis using assms(1) split [of "nat i" "nat j"]
      by (simp add: show_int_def eq_nat_nat_iff)
  qed
qed

text \<open>Reading back one escaped code unit.\<close>

definition hex_val :: "char \<Rightarrow> nat" where
  "hex_val c = (let n = of_char c in if n < 58 then n - 48 else n - 87)"

fun unescape :: "string \<Rightarrow> (char \<times> string) option" where
  "unescape (c # r) =
     (if c = CHR 0x5C then
        (case r of
           d # r' \<Rightarrow>
             (if d = CHR ''b'' then Some (char_of (8::nat), r')
              else if d = CHR ''t'' then Some (char_of (9::nat), r')
              else if d = CHR ''n'' then Some (char_of (10::nat), r')
              else if d = CHR ''f'' then Some (char_of (12::nat), r')
              else if d = CHR ''r'' then Some (char_of (13::nat), r')
              else if d = CHR ''u'' then
                (case r' of
                   _ # _ # h # l # t \<Rightarrow> Some (char_of (16 * hex_val h + hex_val l), t)
                 | _ \<Rightarrow> None)
              else Some (d, r'))
         | [] \<Rightarrow> None)
      else Some (c, r))"
| "unescape [] = None"

lemma hex_val_hex_digit [simp]: "d < 16 \<Longrightarrow> hex_val (hex_digit d) = d"
  by (simp add: hex_val_def hex_digit_def take_bit_eq_mod Let_def)

lemma unescape_escape: "unescape (json_escape c @ r) = Some (c, r)"
proof -
  define n where "n = (of_char c :: nat)"
  have c: "c = char_of n" by (simp add: n_def)
  have n: "n < 256" by (simp add: n_def)
  have cn: "(of_char (char_of n :: char) :: nat) = n" using n by (simp add: take_bit_eq_mod)
  have chars: "char_of (34::nat) = CHR 0x22" "char_of (92::nat) = CHR 0x5C"
    using char_of_char [of "CHR 0x22"] char_of_char [of "CHR 0x5C"] by simp_all
  consider "n = 8" | "n = 9" | "n = 10" | "n = 12" | "n = 13" | "n = 34" | "n = 92"
    | "n < 32" "n \<notin> {8, 9, 10, 12, 13}" | "32 \<le> n" "n \<noteq> 34" "n \<noteq> 92"
    by force
  then show ?thesis
  proof cases
    case 8
    then have "16 * hex_val (hex_digit (n div 16)) + hex_val (hex_digit (n mod 16)) = n"
      by (simp add: hex_val_hex_digit)
    with 8 show ?thesis by (simp add: c json_escape_def cn Let_def)
  next
    case 9
    have "c \<noteq> CHR 0x5C"
    proof
      assume "c = CHR 0x5C"
      then have "n = 92" unfolding n_def by simp
      with 9 show False by simp
    qed
    with 9 show ?thesis by (simp add: json_escape_def flip: n_def)
  qed (simp_all add: c json_escape_def chars)
qed

lemma json_escape_split:
  "json_escape c @ r = json_escape d @ r' \<Longrightarrow> c = d \<and> r = r'"
  by (metis Pair_inject option.inject unescape_escape)

lemma json_escape_hd: "hd (json_escape c @ r) \<noteq> CHR 0x22"
proof -
  have "c \<noteq> CHR 0x22" if "(of_char c :: nat) \<noteq> 34" using that by auto
  then show ?thesis by (simp add: json_escape_def Let_def)
qed

lemma json_escape_nonempty: "json_escape c \<noteq> []"
  by (simp add: json_escape_def Let_def)

lemma quote_split: "quote s @ r = quote s' @ r' \<Longrightarrow> s = s' \<and> r = r'"
proof (induction s arbitrary: s')
  case Nil
  then show ?case
    using json_escape_hd by (cases s') (auto simp: quote_def, metis list.sel(1))
next
  case (Cons c s)
  have "s' \<noteq> []"
    using Cons.prems json_escape_hd [of c "concat (map json_escape s) @ [CHR 0x22] @ r"]
    by (auto simp: quote_def)
  then obtain d t where s': "s' = d # t" by (cases s') auto
  have "json_escape c @ (concat (map json_escape s) @ CHR 0x22 # r) =
        json_escape d @ (concat (map json_escape t) @ CHR 0x22 # r')"
    using Cons.prems by (simp add: quote_def s')
  from json_escape_split [OF this] show ?case
    using Cons.IH [of t] by (auto simp: quote_def s')
qed

text \<open>
  The printer without sorting, on values whose objects are already sorted; \<open>sorted_json\<close> sorts.
\<close>

fun in_domain :: "json \<Rightarrow> bool" where
  "in_domain (JNum i) = isSafeInteger i"
| "in_domain (JFrac _) = False"
| "in_domain JUndef = False"
| "in_domain (JArr xs) = list_all in_domain xs"
| "in_domain (JObj kvs) = list_all (\<lambda>kv. in_domain (snd kv)) kvs"
| "in_domain _ = True"

fun sorted_json :: "json \<Rightarrow> json" where
  "sorted_json (JArr xs) = JArr (map sorted_json xs)"
| "sorted_json (JObj kvs) = JObj (sort_key fst (map (\<lambda>kv. (fst kv, sorted_json (snd kv))) kvs))"
| "sorted_json v = v"

fun pr :: "json \<Rightarrow> string" where
  "pr (JArr xs) = ''['' @ join '','' (map pr xs) @ '']''"
| "pr (JObj kvs) = ''{'' @ join '','' (map (\<lambda>kv. quote (fst kv) @ '':'' @ pr (snd kv)) kvs) @ ''}''"
| "pr (JStr s) = quote s"
| "pr (JNum i) = show_int i"
| "pr (JBool b) = (if b then ''true'' else ''false'')"
| "pr _ = ''null''"

lemma insort_key_props:
  "insort_key fst (fst kv, h (snd kv)) (map (\<lambda>kv. (fst kv, h (snd kv))) xs) =
   map (\<lambda>kv. (fst kv, h (snd kv))) (insort_key fst kv xs)"
  by (induction xs) auto

lemma encode_total: "in_domain v \<Longrightarrow> encode v = Inr (pr (sorted_json v))"
proof (induction v rule: in_domain.induct)
  case (4 xs)
  then have "mapS encode xs = Inr (map (\<lambda>v. pr (sorted_json v)) xs)"
    by (intro mapS_Inr_map) (auto simp: list_all_iff)
  then show ?case by (simp add: comp_def)
next
  case (5 kvs)
  have "mapS (\<lambda>kv. bindS (encode (snd kv)) (\<lambda>b. Inr (quote (fst kv) @ '':'' @ b))) (sort_key fst kvs) =
        Inr (map (\<lambda>kv. quote (fst kv) @ '':'' @ pr (sorted_json (snd kv))) (sort_key fst kvs))"
    using 5 by (intro mapS_Inr_map) (auto simp: list_all_iff)
  moreover have "sort_key fst (map (\<lambda>kv. (fst kv, sorted_json (snd kv))) kvs) =
     map (\<lambda>kv. (fst kv, sorted_json (snd kv))) (sort_key fst kvs)"
    by (induction kvs) (auto simp: insort_key_props)
  ultimately show ?case by (simp add: comp_def)
qed simp_all


lemma join_Cons2: "xs \<noteq> [] \<Longrightarrow> join sep (x # xs) = x @ sep @ join sep xs"
  by (cases xs) auto

text \<open>A bracketed, comma-separated list is uniquely decodable when its elements are.\<close>

lemma join_split:
  assumes elem: "\<And>x y r r'. x \<in> set xs \<Longrightarrow> y \<in> set ys \<Longrightarrow> ends_value r \<Longrightarrow> ends_value r' \<Longrightarrow>
      f x @ r = f y @ r' \<Longrightarrow> x = y \<and> r = r'"
    and hd_f: "\<And>x r. hd (f x @ r) \<noteq> c"
    and c: "c \<in> {CHR '']'', CHR ''}''}"
    and eq: "join '','' (map f xs) @ c # r = join '','' (map f ys) @ c # r'"
  shows "xs = ys \<and> r = r'"
  using elem eq
proof (induction xs arbitrary: ys)
  case Nil
  show ?case
  proof (cases ys)
    case Nil
    with Nil.prems show ?thesis by simp
  next
    case (Cons y zs)
    have "\<exists>t. join '','' (map f ys) @ c # r' = f y @ t"
      using Cons by (cases zs) auto
    with Nil.prems(2) hd_f [of y] show ?thesis by (metis list.sel(1) self_append_conv2 map_is_Nil_conv join.simps(1) list.simps(8) append_Nil)
  qed
next
  case (Cons x xs)
  have ends: "ends_value (c # s)" "ends_value (CHR '','' # s)" for s
    using c by (auto simp: ends_value_def)
  have comma: "c \<noteq> CHR '',''" using c by auto
  have fst_part: "\<exists>t. join '','' (map f (z # zs)) @ c # s = f z @ t \<and> ends_value t \<and>
      (zs = [] \<longrightarrow> t = c # s) \<and> (zs \<noteq> [] \<longrightarrow> t = CHR '','' # join '','' (map f zs) @ c # s)"
    for z zs s
    using ends by (cases zs) auto
  obtain y zs where ys: "ys = y # zs"
  proof (cases ys)
    case Nil
    with Cons.prems(2) fst_part [of x xs r] hd_f [of x] have False
      by (metis append_Nil join.simps(1) list.sel(1) list.simps(8))
    then show ?thesis ..
  qed
  obtain t where t: "join '','' (map f (x # xs)) @ c # r = f x @ t" "ends_value t"
      "xs = [] \<longrightarrow> t = c # r" "xs \<noteq> [] \<longrightarrow> t = CHR '','' # join '','' (map f xs) @ c # r"
    using fst_part [of x xs r] by blast
  obtain u where u: "join '','' (map f ys) @ c # r' = f y @ u" "ends_value u"
      "zs = [] \<longrightarrow> u = c # r'" "zs \<noteq> [] \<longrightarrow> u = CHR '','' # join '','' (map f zs) @ c # r'"
    using fst_part [of y zs r'] ys by blast
  have xy: "x = y" "t = u"
    using Cons.prems(1) [of x y t u] Cons.prems(2) t u by (simp_all add: ys)
  have "xs = zs \<and> r = r'"
  proof (cases "xs = []"; cases "zs = []")
    assume "xs \<noteq> []" "zs \<noteq> []"
    then have "join '','' (map f xs) @ c # r = join '','' (map f zs) @ c # r'"
      using xy t u by simp
    moreover have "x' = y' \<and> s = s'"
      if "x' \<in> set xs" "y' \<in> set zs" "ends_value s" "ends_value s'" "f x' @ s = f y' @ s'"
      for x' y' s s'
      using Cons.prems(1) [of x' y' s s'] that ys by simp
    ultimately show ?thesis by (intro Cons.IH) blast+
  qed (use xy t u comma in auto)
  then show ?case by (simp add: ys xy)
qed

lemma quote_hd: "quote s @ r = CHR 0x22 # concat (map json_escape s) @ CHR 0x22 # r"
  by (simp add: quote_def)

lemma show_int_hd: "hd (show_int i @ r) = CHR ''-'' \<or> is_digit (hd (show_int i @ r))"
  using show_nat_hd show_nat_nonempty by (auto simp: show_int_def)

lemma show_int_not_hd [simp]:
  "hd (show_int i @ r) \<noteq> CHR ''[''" "hd (show_int i @ r) \<noteq> CHR ''{''"
  "hd (show_int i @ r) \<noteq> CHR 0x22" "hd (show_int i @ r) \<noteq> CHR ''n''"
  "hd (show_int i @ r) \<noteq> CHR ''t''" "hd (show_int i @ r) \<noteq> CHR ''f''"
  "hd (show_int i @ r) \<noteq> CHR '']''" "hd (show_int i @ r) \<noteq> CHR ''}''"
  using show_int_hd [of i r] by (auto simp: is_digit_def)

lemma pr_hd: "hd (pr v @ r) \<noteq> CHR '']''" "hd (pr v @ r) \<noteq> CHR ''}''"
  by (cases v; simp add: quote_hd)+

text \<open>The first character tells the constructor.\<close>

lemma pr_hd_arr: "in_domain v \<Longrightarrow> hd (pr v @ r) = CHR ''['' \<Longrightarrow> \<exists>xs. v = JArr xs"
  by (cases v) (auto simp: quote_hd split: if_splits)

lemma pr_hd_obj: "in_domain v \<Longrightarrow> hd (pr v @ r) = CHR ''{'' \<Longrightarrow> \<exists>kvs. v = JObj kvs"
  by (cases v) (auto simp: quote_hd split: if_splits)

lemma pr_hd_str: "in_domain v \<Longrightarrow> hd (pr v @ r) = CHR 0x22 \<Longrightarrow> \<exists>s. v = JStr s"
  by (cases v) (auto simp: quote_hd split: if_splits)

lemma pr_hd_word:
  "in_domain v \<Longrightarrow> hd (pr v @ r) = CHR ''n'' \<Longrightarrow> v = JNull"
  "in_domain v \<Longrightarrow> hd (pr v @ r) = CHR ''t'' \<Longrightarrow> v = JBool True"
  "in_domain v \<Longrightarrow> hd (pr v @ r) = CHR ''f'' \<Longrightarrow> v = JBool False"
  by (cases v; auto simp: quote_hd split: if_splits)+

lemma pr_hd_num: "in_domain v \<Longrightarrow> hd (pr v @ r) = hd (show_int i @ r') \<Longrightarrow> \<exists>j. v = JNum j"
  using show_int_not_hd [of i r', THEN not_sym]
  by (cases v) (auto simp: quote_hd split: if_splits)

lemma pr_split:
  "in_domain v \<Longrightarrow> in_domain w \<Longrightarrow> ends_value r \<Longrightarrow> ends_value r' \<Longrightarrow> pr v @ r = pr w @ r' \<Longrightarrow>
   v = w \<and> r = r'"
proof (induction v arbitrary: w r r')
  case JNull
  have "hd (pr w @ r') = hd (pr JNull @ r)" by (simp only: JNull.prems(5))
  then have "w = JNull" using pr_hd_word(1) [of w r'] JNull.prems(2) by simp
  with JNull.prems show ?case by simp
next
  case (JBool b)
  have "hd (pr w @ r') = hd (pr (JBool b) @ r)" by (simp only: JBool.prems(5))
  then have "w = JBool b" using pr_hd_word(2,3) [of w r'] JBool.prems(2) by (cases b) simp_all
  with JBool.prems show ?case by (cases b) simp_all
next
  case (JNum i)
  have "hd (pr w @ r') = hd (pr (JNum i) @ r)" by (simp only: JNum.prems(5))
  then obtain j where "w = JNum j" using pr_hd_num [of w r' i r] JNum.prems(2) by auto
  with JNum.prems show ?case using show_int_split [of i r j r'] by simp
next
  case (JStr s)
  have "hd (pr w @ r') = hd (pr (JStr s) @ r)" by (simp only: JStr.prems(5))
  then obtain t where "w = JStr t"
    using pr_hd_str [of w r'] JStr.prems(2) by (auto simp: quote_hd)
  with JStr.prems show ?case using quote_split [of s r t r'] by simp
next
  case (JArr xs)
  have "hd (pr w @ r') = hd (pr (JArr xs) @ r)" by (simp only: JArr.prems(5))
  then obtain ys where w: "w = JArr ys" using pr_hd_arr [of w r'] JArr.prems(2) by auto
  have "xs = ys \<and> r = r'"
  proof (rule join_split [where f = pr and c = "CHR '']''"])
    fix x y s s' assume "x \<in> set xs" "y \<in> set ys" "ends_value s" "ends_value s'" "pr x @ s = pr y @ s'"
    then show "x = y \<and> s = s'"
      using JArr.IH [of x y s s'] JArr.prems(1,2) w by (auto simp: list_all_iff)
  next
    show "join '','' (map pr xs) @ CHR '']'' # r = join '','' (map pr ys) @ CHR '']'' # r'"
      using JArr.prems(5) w by simp
  qed (use pr_hd in auto)
  with w show ?case by simp
next
  case (JObj kvs)
  let ?f = "\<lambda>kv. quote (fst kv) @ '':'' @ pr (snd kv)"
  have "hd (pr w @ r') = hd (pr (JObj kvs) @ r)" by (simp only: JObj.prems(5))
  then obtain ys where w: "w = JObj ys" using pr_hd_obj [of w r'] JObj.prems(2) by auto
  have "kvs = ys \<and> r = r'"
  proof (rule join_split [where f = ?f and c = "CHR ''}''"])
    fix x y s s' assume xy: "x \<in> set kvs" "y \<in> set ys" "ends_value s" "ends_value s'" "?f x @ s = ?f y @ s'"
    then have "quote (fst x) @ CHR '':'' # pr (snd x) @ s = quote (fst y) @ CHR '':'' # pr (snd y) @ s'"
      by simp
    from quote_split [OF this] have k: "fst x = fst y" "pr (snd x) @ s = pr (snd y) @ s'" by simp_all
    have "snd x \<in> Basic_BNFs.snds x" by (cases x) simp
    then have "snd x = snd y \<and> s = s'"
      using JObj.IH [OF xy(1), of "snd x" "snd y" s s'] JObj.prems(1,2) w xy k by (auto simp: list_all_iff)
    with k show "x = y \<and> s = s'" by (simp add: prod_eq_iff)
  next
    show "join '','' (map ?f kvs) @ CHR ''}'' # r = join '','' (map ?f ys) @ CHR ''}'' # r'"
      using JObj.prems(5) w by simp
  qed (auto simp: quote_hd)
  with w show ?case by simp
qed auto

lemma sorted_json_domain: "in_domain v \<Longrightarrow> in_domain (sorted_json v)"
  by (induction v rule: in_domain.induct) (auto simp: list_all_iff)

lemma encode_domain: "encode v = Inr s \<Longrightarrow> in_domain v"
proof (induction v arbitrary: s rule: encode.induct)
  case (6 xs)
  then show ?case by (auto simp: list_all_iff dest: mapS_InrD)
next
  case (7 kvs)
  then show ?case by (fastforce simp: list_all_iff dest: mapS_InrD)
qed (auto split: if_splits)

lemma encode_Inr_iff: "encode v = Inr s \<longleftrightarrow> in_domain v \<and> s = pr (sorted_json v)"
  using encode_domain encode_total by fastforce

subsection \<open>Properties of the canonical form\<close>

text \<open>\<open>canonicalize\<close> accepts exactly the VCHF-2 domain (null, booleans, safe integers, strings,
  and arrays and objects of these) and rejects everything else, at any depth.\<close>

theorem canonicalize_accepts_domain: "(\<exists>s. canonicalize v = Inr s) \<longleftrightarrow> in_domain v"
  by (simp add: canonicalize_def encode_Inr_iff)

text \<open>C2: The canonical form determines the value: two accepted values have the same canonical text
  exactly when they are equal up to the order in which object keys are enumerated.\<close>

theorem canonicalize_determines:
  assumes "in_domain v" and "in_domain w"
  shows "canonicalize v = canonicalize w \<longleftrightarrow> sorted_json v = sorted_json w"
proof
  assume "canonicalize v = canonicalize w"
  then have "pr (sorted_json v) @ [] = pr (sorted_json w) @ []"
    using assms by (simp add: canonicalize_def encode_total)
  then show "sorted_json v = sorted_json w"
    using assms pr_split [of "sorted_json v" "sorted_json w" "[]" "[]"]
    by (simp add: sorted_json_domain ends_value_def)
next
  assume "sorted_json v = sorted_json w"
  then show "canonicalize v = canonicalize w"
    using assms by (simp add: canonicalize_def encode_total)
qed

theorem canonicalize_determines_witness:
  "canonicalize (JObj [(''b'', JNum 1), (''a'', JNull)]) =
     canonicalize (JObj [(''a'', JNull), (''b'', JNum 1)]) \<and>
   canonicalize (JArr [JNum 1, JNum 2]) \<noteq> canonicalize (JArr [JNum 12])"
  using canonicalize_determines
      [of "JObj [(''b'', JNum 1), (''a'', JNull)]" "JObj [(''a'', JNull), (''b'', JNum 1)]"]
    canonicalize_determines [of "JArr [JNum 1, JNum 2]" "JArr [JNum 12]"]
  by (simp add: isSafeInteger_def)

lemma canonicalize_key_order:
  assumes "mset kvs = mset kvs'" and "distinct (map fst kvs)"
  shows "canonicalize (JObj kvs) = canonicalize (JObj kvs')"
proof -
  have "sort_key fst kvs = sort_key fst kvs'"
    using assms by (intro sort_key_perm) (simp_all add: distinct_map)
  then show ?thesis by (simp add: canonicalize_def)
qed

end
