(* ===== verification/JsDate.thy ===== *)
theory JsDate
  imports Json
begin

text \<open>
  The part of the JavaScript \<open>Date\<close> object the kernel uses: \<open>toISOString\<close> of a time value in
  milliseconds, and \<open>new Date(s)\<close> on strings of the form \<open>YYYY-MM-DDTHH:mm:ss.sssZ\<close>.  The definitions
  follow the ECMAScript abstract operations \<open>DayFromYear\<close>, \<open>YearFromTime\<close> (the largest year that does
  not start after the time) and \<open>MonthFromTime\<close>; \<open>parseInt\<close> is here too.  Main result: reading back a printed time gives the
  time (\<open>parse_iso\<close>), for the years 0000 to 9999 that print with four digits.
\<close>

definition day_from_year :: "int \<Rightarrow> int" where
  "day_from_year y =
     365 * (y - 1970) + (y - 1969) div 4 - (y - 1901) div 100 + (y - 1601) div 400"

definition leap_year :: "int \<Rightarrow> bool" where
  "leap_year y \<longleftrightarrow> y mod 4 = 0 \<and> (y mod 100 \<noteq> 0 \<or> y mod 400 = 0)"

definition month_lengths :: "int \<Rightarrow> int list" where
  "month_lengths y = [31, if leap_year y then 29 else 28, 31, 30, 31, 30, 31, 31, 30, 31, 30, 31]"

lemma div_Suc_int: "0 < k \<Longrightarrow> (x + 1) div k = x div k + (if k dvd x + 1 then 1 else 0)" for k x :: int
proof -
  assume k: "0 < k"
  show ?thesis
  proof (cases "k dvd x + 1")
    case True
    then obtain m where m: "x + 1 = k * m" by (auto elim: dvdE)
    then have "x = k * (m - 1) + (k - 1)" by (simp add: algebra_simps)
    then have "x div k = m - 1" using k by (simp add: div_pos_pos_trivial)
    with m k True show ?thesis by simp
  next
    case False
    then have "x mod k + 1 \<noteq> k"
      by (metis dvd_eq_mod_eq_0 mod_add_left_eq mod_self)
    then have "x mod k + 1 < k" using pos_mod_bound [OF k, of x] by simp
    moreover have "x + 1 = k * (x div k) + (x mod k + 1)" by simp
    ultimately have "(x + 1) div k = x div k"
      using pos_mod_sign [OF k, of x]
      by (metis div_mult_self4 div_pos_pos_trivial add.right_neutral add_nonneg_nonneg less_irrefl
          add.commute k zero_le_one)
    with False show ?thesis by simp
  qed
qed

lemma leap_year_dvd: "leap_year y \<longleftrightarrow> 4 dvd y \<and> (\<not> 100 dvd y \<or> 400 dvd y)"
  by (simp add: leap_year_def dvd_eq_mod_eq_0)

lemma day_from_year_Suc:
  "day_from_year (y + 1) = day_from_year y + (if leap_year y then 366 else 365)"
proof -
  have shift: "k dvd y - c \<longleftrightarrow> k dvd y" if "k dvd c" for k c :: int
    using that by (metis diff_add_cancel dvd_add_left_iff)
  have 4: "4 dvd y - 1968 \<longleftrightarrow> 4 dvd y" and 100: "100 dvd y - 1900 \<longleftrightarrow> 100 dvd y"
    and 400: "400 dvd y - 1600 \<longleftrightarrow> 400 dvd y" by (simp_all add: shift)
  have d1: "400 dvd y \<longrightarrow> 100 dvd y" using dvd_trans [of 100 400 y] by simp
  have d2: "100 dvd y \<longrightarrow> 4 dvd y" using dvd_trans [of 4 100 y] by simp
  have e4: "(y + 1 - 1969) div 4 = (y - 1969) div 4 + (if 4 dvd y then 1 else 0)"
    using div_Suc_int [of 4 "y - 1969"] by (simp add: 4)
  have e100: "(y + 1 - 1901) div 100 = (y - 1901) div 100 + (if 100 dvd y then 1 else 0)"
    using div_Suc_int [of 100 "y - 1901"] by (simp add: 100)
  have e400: "(y + 1 - 1601) div 400 = (y - 1601) div 400 + (if 400 dvd y then 1 else 0)"
    using div_Suc_int [of 400 "y - 1601"] by (simp add: 400)
  have sum: "365 * (y + 1 - 1970) + (p + (if A then 1 else 0)) - (q + (if B then 1 else 0)) +
      (r + (if C then 1 else 0)) =
      365 * (y - 1970) + p - q + r + (if A \<and> (\<not> B \<or> C) then 366 else 365)"
    if "C \<longrightarrow> B" "B \<longrightarrow> A" for A B C and p q r :: int
    using that by (cases A; cases B; cases C) (simp_all add: algebra_simps)
  show ?thesis unfolding day_from_year_def leap_year_dvd e4 e100 e400 by (rule sum [OF d1 d2])
qed

lemma day_from_year_less: "day_from_year y < day_from_year (y + 1)"
  by (simp add: day_from_year_Suc)

text \<open>\<open>YearFromTime\<close>: step up from a year that is not too late.\<close>

function year_search :: "int \<Rightarrow> int \<Rightarrow> int" where
  "year_search d y = (if day_from_year (y + 1) \<le> d then year_search d (y + 1) else y)"
  by pat_completeness auto
termination
  by (relation "measure (\<lambda>(d, y). nat (d + 1 - day_from_year y))")
    (use day_from_year_less in \<open>auto simp: nat_less_iff intro: less_imp_le less_le_trans\<close>)

declare year_search.simps [simp del]

definition year_of_day :: "int \<Rightarrow> int" where
  "year_of_day d = year_search d (if 0 \<le> d then 1970 + d div 366 else 1969 + d div 365)"

lemma year_search_bounds:
  "day_from_year y \<le> d \<Longrightarrow>
   day_from_year (year_search d y) \<le> d \<and> d < day_from_year (year_search d y + 1)"
proof (induction d y rule: year_search.induct)
  case (1 d y)
  then show ?case
    by (cases "day_from_year (y + 1) \<le> d") (simp_all add: year_search.simps [of d y])
qed

lemma year_of_day_start:
  "day_from_year (if 0 \<le> d then 1970 + d div 366 else 1969 + d div 365) \<le> d"
proof (cases "0 \<le> d")
  case True
  define q where "q = d div 366"
  have q: "366 * q \<le> d" "0 \<le> q" using True by (simp_all add: q_def pos_imp_zdiv_nonneg_iff)
  have "(q + 1) div 4 - (q + 69) div 100 + (q + 369) div 400 \<le> q"
  proof (cases "q < 2")
    case True
    then have "q = 0 \<or> q = 1" using q(2) by linarith
    then show ?thesis by auto
  next
    case False
    have "4 * ((q + 1) div 4) \<le> q + 1" "400 * ((q + 369) div 400) \<le> q + 369" by simp_all
    moreover have "0 \<le> (q + 69) div 100" using q(2) by (simp add: pos_imp_zdiv_nonneg_iff)
    ultimately show ?thesis using False by linarith
  qed
  with True q show ?thesis by (simp add: day_from_year_def algebra_simps flip: q_def)
next
  case False
  define q where "q = d div 365"
  have q: "365 * q \<le> d" by (simp add: q_def)
  have "q < 0" using False by (simp add: q_def neg_imp_zdiv_neg_iff)
  moreover have "4 * (q div 4) \<le> q" "400 * ((q + 368) div 400) \<le> q + 368" by simp_all
  moreover have "q + 68 < 100 * ((q + 68) div 100) + 100"
    using pos_mod_bound [of 100 "q + 68"] minus_mult_div_eq_mod [of "q + 68" 100] by linarith
  ultimately have "q div 4 - (q + 68) div 100 + (q + 368) div 400 \<le> 365" by linarith
  with False q show ?thesis by (simp add: day_from_year_def algebra_simps flip: q_def)
qed

lemma year_of_day_bounds:
  "day_from_year (year_of_day d) \<le> d \<and> d < day_from_year (year_of_day d + 1)"
  unfolding year_of_day_def by (rule year_search_bounds [OF year_of_day_start])

lemma day_from_year_mono: "y \<le> z \<Longrightarrow> day_from_year y \<le> day_from_year z"
proof (induction "nat (z - y)" arbitrary: z)
  case (Suc n)
  then have "day_from_year y \<le> day_from_year (z - 1)" by simp
  also have "\<dots> < day_from_year (z - 1 + 1)" by (rule day_from_year_less)
  finally show ?case by simp
qed simp

lemma year_of_day_unique:
  assumes "day_from_year y \<le> d" "d < day_from_year (y + 1)"
  shows "year_of_day d = y"
proof -
  let ?z = "year_of_day d"
  have z: "day_from_year ?z \<le> d" "d < day_from_year (?z + 1)" using year_of_day_bounds by auto
  have "\<not> ?z < y" using day_from_year_mono [of "?z + 1" y] assms(1) z(2) by linarith
  moreover have "\<not> y < ?z" using day_from_year_mono [of "y + 1" ?z] assms(2) z(1) by linarith
  ultimately show ?thesis by simp
qed

text \<open>The month and the day of the month, from the day within the year.\<close>

fun month_day :: "int list \<Rightarrow> int \<Rightarrow> int \<Rightarrow> int \<times> int" where
  "month_day [] m d = (m, d + 1)"
| "month_day (l # ls) m d = (if d < l then (m, d + 1) else month_day ls (m + 1) (d - l))"

lemma month_day_spec:
  assumes "0 \<le> d" "d < sum_list ls" "month_day ls m d = (m', dd)"
  shows "\<exists>i < length ls. m' = m + int i \<and> 1 \<le> dd \<and> dd \<le> ls ! i \<and> sum_list (take i ls) + dd - 1 = d"
  using assms
proof (induction ls arbitrary: m d)
  case (Cons l ls)
  show ?case
  proof (cases "d < l")
    case True
    with Cons.prems show ?thesis by (intro exI [of _ 0]) auto
  next
    case False
    with Cons.prems have "\<exists>i < length ls. m' = m + 1 + int i \<and> 1 \<le> dd \<and> dd \<le> ls ! i \<and>
        sum_list (take i ls) + dd - 1 = d - l"
      by (intro Cons.IH) auto
    then obtain i where "i < length ls" "m' = m + 1 + int i" "1 \<le> dd" "dd \<le> ls ! i"
        "sum_list (take i ls) + dd - 1 = d - l" by blast
    then show ?thesis by (intro exI [of _ "Suc i"]) auto
  qed
qed simp

subsection \<open>Printing\<close>

definition pad2 :: "int \<Rightarrow> string" where
  "pad2 n = [digit_char (nat (n div 10)), digit_char (nat (n mod 10))]"

definition pad3 :: "int \<Rightarrow> string" where
  "pad3 n = digit_char (nat (n div 100)) # pad2 (n mod 100)"

definition pad4 :: "int \<Rightarrow> string" where
  "pad4 n = pad2 (n div 100) @ pad2 (n mod 100)"

definition iso_year :: "int \<Rightarrow> string" where
  "iso_year y =
     (if 0 \<le> y \<and> y \<le> 9999 then pad4 y
      else (if y < 0 then ''-'' else ''+'') @ pad2 (\<bar>y\<bar> div 10000) @ pad4 (\<bar>y\<bar> mod 10000))"

text \<open>\<open>new Date(t).toISOString()\<close>.\<close>

definition iso_string :: "int \<Rightarrow> string" where
  "iso_string t =
     (let d = t div 86400000; ms = t mod 86400000; y = year_of_day d;
          (m, dd) = month_day (month_lengths y) 1 (d - day_from_year y)
      in iso_year y @ ''-'' @ pad2 m @ ''-'' @ pad2 dd @ ''T'' @ pad2 (ms div 3600000) @ '':'' @
         pad2 (ms div 60000 mod 60) @ '':'' @ pad2 (ms div 1000 mod 60) @ ''.'' @
         pad3 (ms mod 1000) @ ''Z'')"

subsection \<open>Parsing\<close>

definition num_at :: "string \<Rightarrow> nat \<Rightarrow> nat \<Rightarrow> int" where
  "num_at s i n = int (digits_val (take n (drop i s)))"

text \<open>\<open>new Date(s).getTime()\<close> on a string of the fixed shape; \<open>None\<close> is NaN.\<close>

definition date_parse :: "string \<Rightarrow> int option" where
  "date_parse s =
     (let y = num_at s 0 4; m = num_at s 5 2; d = num_at s 8 2; h = num_at s 11 2;
          mi = num_at s 14 2; sec = num_at s 17 2; ms = num_at s 20 3
      in if 1 \<le> m \<and> m \<le> 12 \<and> 1 \<le> d \<and> d \<le> month_lengths y ! nat (m - 1) \<and> mi \<le> 59 \<and> sec \<le> 59 \<and>
            (h \<le> 23 \<or> h = 24 \<and> mi = 0 \<and> sec = 0 \<and> ms = 0)
         then Some ((day_from_year y + sum_list (take (nat (m - 1)) (month_lengths y)) + d - 1) * 86400000 +
                    h * 3600000 + mi * 60000 + sec * 1000 + ms)
         else None)"

lemma digits_val_start: "foldl (\<lambda>a c. 10 * a + digit_val c) a s = a * 10 ^ length s + digits_val s"
proof (induction s arbitrary: a)
  case (Cons c s)
  show ?case
    using Cons [of "10 * a + digit_val c"] Cons [of "digit_val c"]
    by (simp add: digits_val_def algebra_simps)
qed (simp add: digits_val_def)

lemma digits_val_append: "digits_val (s @ t) = digits_val s * 10 ^ length t + digits_val t"
proof -
  have "digits_val (s @ t) = foldl (\<lambda>a c. 10 * a + digit_val c) (digits_val s) t"
    by (simp add: digits_val_def)
  then show ?thesis by (simp only: digits_val_start)
qed

lemma digits_pad2: "0 \<le> n \<Longrightarrow> n < 100 \<Longrightarrow> int (digits_val (pad2 n)) = n"
proof -
  assume "0 \<le> n" "n < 100"
  then have "0 \<le> n div 10" "n div 10 < 10" by (simp_all add: pos_imp_zdiv_nonneg_iff)
  then show ?thesis by (simp add: pad2_def digits_val_def nat_less_iff)
qed

lemma pad_length [simp]: "length (pad2 n) = 2" "length (pad3 n) = 3" "length (pad4 n) = 4"
  by (simp_all add: pad2_def pad3_def pad4_def)

lemma digits_pad3: "0 \<le> n \<Longrightarrow> n < 1000 \<Longrightarrow> int (digits_val (pad3 n)) = n"
proof -
  assume "0 \<le> n" "n < 1000"
  then have "0 \<le> n div 100" "n div 100 < 10" by (simp_all add: pos_imp_zdiv_nonneg_iff)
  then show ?thesis
    using digits_val_append [of "[digit_char (nat (n div 100))]" "pad2 (n mod 100)"]
      digits_pad2 [of "n mod 100"]
    by (simp add: pad3_def digits_val_def [of "[digit_char _]"] nat_less_iff)
qed

lemma digits_pad4: "0 \<le> n \<Longrightarrow> n < 10000 \<Longrightarrow> int (digits_val (pad4 n)) = n"
proof -
  assume "0 \<le> n" "n < 10000"
  then have "0 \<le> n div 100" "n div 100 < 100" by (simp_all add: pos_imp_zdiv_nonneg_iff)
  then show ?thesis
    using digits_pad2 [of "n mod 100"] digits_pad2 [of "n div 100"]
    by (simp add: pad4_def digits_val_append)
qed

text \<open>
  \<open>Number.parseInt(s, 10)\<close>: leading white space, a sign, the longest run of digits; \<open>None\<close> is NaN.
\<close>

definition is_js_space :: "char \<Rightarrow> bool" where
  "is_js_space c \<longleftrightarrow> (of_char c :: nat) \<in> {9, 10, 11, 12, 13, 32, 160}"

definition parse_digits :: "string \<Rightarrow> int option" where
  "parse_digits s =
     (let ds = takeWhile is_digit s in if ds = [] then None else Some (int (digits_val ds)))"

definition parseInt10 :: "string \<Rightarrow> int option" where
  "parseInt10 s =
     (case dropWhile is_js_space s of
        [] \<Rightarrow> None
      | c # r \<Rightarrow>
          if c = CHR ''-'' then map_option uminus (parse_digits r)
          else if c = CHR ''+'' then parse_digits r
          else parse_digits (c # r))"

subsection \<open>Reading back a printed time\<close>

lemma sum_month_lengths: "sum_list (month_lengths y) = day_from_year (y + 1) - day_from_year y"
  by (simp add: day_from_year_Suc month_lengths_def)

lemma month_lengths_length [simp]: "length (month_lengths y) = 12"
  by (simp add: month_lengths_def)

lemma month_lengths_le: "i < 12 \<Longrightarrow> month_lengths y ! i \<le> 31"
  by (simp add: month_lengths_def nth_Cons' split: if_splits)

text \<open>The fields a time is printed from, with their ranges, and how they add up.\<close>

lemma iso_fields:
  fixes t :: int
  defines "y \<equiv> year_of_day (t div 86400000)" and "ms \<equiv> t mod 86400000"
  assumes "0 \<le> y" "y \<le> 9999"
  obtains m dd where
    "iso_string t = pad4 y @ ''-'' @ pad2 m @ ''-'' @ pad2 dd @ ''T'' @ pad2 (ms div 3600000) @ '':'' @
       pad2 (ms div 60000 mod 60) @ '':'' @ pad2 (ms div 1000 mod 60) @ ''.'' @ pad3 (ms mod 1000) @ ''Z''"
    and "1 \<le> m" "m \<le> 12" "1 \<le> dd" "dd \<le> month_lengths y ! nat (m - 1)"
    and "day_from_year y + sum_list (take (nat (m - 1)) (month_lengths y)) + dd - 1 = t div 86400000"
proof -
  let ?d = "t div 86400000"
  obtain m dd where md: "month_day (month_lengths y) 1 (?d - day_from_year y) = (m, dd)"
    by (cases "month_day (month_lengths y) 1 (?d - day_from_year y)")
  have "0 \<le> ?d - day_from_year y" "?d - day_from_year y < sum_list (month_lengths y)"
    using year_of_day_bounds [of ?d] by (simp_all add: y_def sum_month_lengths)
  from month_day_spec [OF this md] obtain i where i: "i < 12" "m = 1 + int i" "1 \<le> dd"
    "dd \<le> month_lengths y ! i" "sum_list (take i (month_lengths y)) + dd - 1 = ?d - day_from_year y"
    by auto
  show ?thesis
  proof (rule that [of m dd])
    show "iso_string t = pad4 y @ ''-'' @ pad2 m @ ''-'' @ pad2 dd @ ''T'' @ pad2 (ms div 3600000) @
       '':'' @ pad2 (ms div 60000 mod 60) @ '':'' @ pad2 (ms div 1000 mod 60) @ ''.'' @
       pad3 (ms mod 1000) @ ''Z''"
      using md assms(3,4) by (simp add: iso_string_def iso_year_def Let_def flip: y_def ms_def)
  qed (use i in auto)
qed

lemma time_of_day:
  fixes ms :: int
  assumes "0 \<le> ms" "ms < 86400000"
  shows "0 \<le> ms div 3600000" "ms div 3600000 \<le> 23"
    "ms div 3600000 * 3600000 + ms div 60000 mod 60 * 60000 + ms div 1000 mod 60 * 1000 + ms mod 1000 = ms"
proof -
  show "0 \<le> ms div 3600000" "ms div 3600000 \<le> 23"
    using assms by (simp_all add: pos_imp_zdiv_nonneg_iff)
  have "ms div 3600000 = ms div 60000 div 60" "ms div 60000 = ms div 1000 div 60"
    by (simp_all flip: zdiv_zmult2_eq)
  then show "ms div 3600000 * 3600000 + ms div 60000 mod 60 * 60000 + ms div 1000 mod 60 * 1000 +
      ms mod 1000 = ms"
    using minus_mult_div_eq_mod [of "ms div 60000" 60] minus_mult_div_eq_mod [of "ms div 1000" 60]
      minus_mult_div_eq_mod [of ms 1000] by linarith
qed

text \<open>Reading the fields of a printed time back at their offsets.\<close>

lemma num_at_fields:
  assumes "0 \<le> y" "y \<le> 9999" "0 \<le> m" "m < 100" "0 \<le> d" "d < 100" "0 \<le> h" "h < 100"
    "0 \<le> mi" "mi < 100" "0 \<le> sec" "sec < 100" "0 \<le> ms" "ms < 1000"
    and "s = pad4 y @ ''-'' @ pad2 m @ ''-'' @ pad2 d @ ''T'' @ pad2 h @ '':'' @ pad2 mi @ '':'' @
       pad2 sec @ ''.'' @ pad3 ms @ ''Z''"
  shows "num_at s 0 4 = y" "num_at s 5 2 = m" "num_at s 8 2 = d" "num_at s 11 2 = h"
    "num_at s 14 2 = mi" "num_at s 17 2 = sec" "num_at s 20 3 = ms"
  using assms
  by (simp_all add: num_at_def digits_pad2 digits_pad3 digits_pad4)

lemma parse_iso:
  assumes "0 \<le> year_of_day (t div 86400000)" "year_of_day (t div 86400000) \<le> 9999"
  shows "date_parse (iso_string t) = Some t"
proof -
  define y where "y = year_of_day (t div 86400000)"
  define ms where "ms = t mod 86400000"
  obtain m dd where iso: "iso_string t = pad4 y @ ''-'' @ pad2 m @ ''-'' @ pad2 dd @ ''T'' @
       pad2 (ms div 3600000) @ '':'' @ pad2 (ms div 60000 mod 60) @ '':'' @ pad2 (ms div 1000 mod 60) @
       ''.'' @ pad3 (ms mod 1000) @ ''Z''"
    and m: "1 \<le> m" "m \<le> 12" and dd: "1 \<le> dd" "dd \<le> month_lengths y ! nat (m - 1)"
    and days: "day_from_year y + sum_list (take (nat (m - 1)) (month_lengths y)) + dd - 1 = t div 86400000"
    using iso_fields [of t] assms by (auto simp: y_def ms_def)
  have ms: "0 \<le> ms" "ms < 86400000" by (simp_all add: ms_def)
  have "nat (m - 1) < 12" using m by linarith
  from month_lengths_le [OF this, of y] dd(2) have dd31: "dd \<le> 31" by linarith
  note tod = time_of_day [OF ms]
  have bounds: "0 \<le> y" "y \<le> 9999" "0 \<le> m" "m < 100" "0 \<le> dd" "dd < 100"
    "0 \<le> ms div 3600000" "ms div 3600000 < 100" "0 \<le> ms div 60000 mod 60" "ms div 60000 mod 60 < 60"
    "0 \<le> ms div 1000 mod 60" "ms div 1000 mod 60 < 60" "0 \<le> ms mod 1000" "ms mod 1000 < 1000"
    using assms m dd(1) dd31 tod(1,2) by (simp_all flip: y_def)
  have lt100: "n < 60 \<Longrightarrow> n < 100" for n :: int by simp
  note fields = num_at_fields [OF bounds(1-9) lt100 [OF bounds(10)] bounds(11)
    lt100 [OF bounds(12)] bounds(13,14) iso]
  have val: "(day_from_year y + sum_list (take (nat (m - 1)) (month_lengths y)) + dd - 1) * 86400000 +
      ms div 3600000 * 3600000 + ms div 60000 mod 60 * 60000 + ms div 1000 mod 60 * 1000 +
      ms mod 1000 = t"
    unfolding days using tod(3) div_mult_mod_eq [of t 86400000] unfolding ms_def by linarith
  have "ms div 60000 mod 60 \<le> 59" "ms div 1000 mod 60 \<le> 59" using bounds(10,12) by simp_all
  with m dd tod(2) show ?thesis
    unfolding date_parse_def Let_def fields val by simp
qed

end
