(* ===== verification/Hashing.thy ===== *)
theory Hashing
  imports Contracts JsDate
begin

text \<open>
  The hashing layer of the audit kernel: \<open>packages/audit-kernel/src/hashing/hash.ts\<close> and
  \<open>hashing/evidence.ts\<close>, and the environment the whole model runs in.

  SHA-256 and the hex codec come from the package \<open>@noble/hashes\<close>; they are fields of the record
  \<open>crypto\<close>, and \<open>crypto_ok\<close> states what their documentation promises (a digest has 32 bytes, hex is
  lower case and decodes back).  No injectivity of SHA-256 is ever assumed: where tampering would
  need two inputs with one digest, the theorem exhibits the two inputs (\<open>collision\<close>).  The record
  \<open>env\<close> adds the sources of non-determinism (random identifiers, random bytes, the clock), each
  indexed by how often the world has been asked, and the process environment.
\<close>

subsection \<open>Bytes and text\<close>

text \<open>\<open>TextEncoder.encode\<close> on strings of code units below 256.\<close>

definition utf8_char :: "char \<Rightarrow> byte list" where
  "utf8_char c =
     (let n = of_char c :: nat in
      if n < 128 then [of_nat n] else [of_nat (192 + n div 64), of_nat (128 + n mod 64)])"

definition utf8 :: "string \<Rightarrow> byte list" where
  "utf8 s = concat (map utf8_char s)"

text \<open>\<open>Buffer.toString("hex")\<close>.\<close>

definition hex_byte :: "byte \<Rightarrow> string" where
  "hex_byte b = [hex_digit (unat b div 16), hex_digit (unat b mod 16)]"

definition lower_hex :: "byte list \<Rightarrow> string" where
  "lower_hex bs = concat (map hex_byte bs)"

definition is_hex_char :: "char \<Rightarrow> bool" where
  "is_hex_char c \<longleftrightarrow> is_digit c \<or> 97 \<le> (of_char c :: nat) \<and> (of_char c :: nat) \<le> 102"

text \<open>\<open>String.prototype.toUpperCase\<close> on ASCII.\<close>

definition upper_char :: "char \<Rightarrow> char" where
  "upper_char c =
     (let n = of_char c :: nat in if 97 \<le> n \<and> n \<le> 122 then char_of (n - 32) else c)"

definition toUpperCase :: "string \<Rightarrow> string" where
  "toUpperCase s = map upper_char s"

lemma char_less_256: "(of_char c :: nat) < 256"
  using nat_of_char_less_256 [of c] by simp

lemma unat_byte_less: "unat (b :: byte) < 256"
  using unsigned_less [of b] by simp

lemma unat_utf8_char:
  "map unat (utf8_char c) =
     (let n = of_char c :: nat in if n < 128 then [n] else [192 + n div 64, 128 + n mod 64])"
proof -
  define n where "n = (of_char c :: nat)"
  have "n < 256" by (simp only: n_def char_less_256)
  then have "192 + n div 64 < 256" "128 + n mod 64 < 256" by (simp_all add: less_mult_imp_div_less)
  then have "unat (of_nat (192 + n div 64) :: byte) = 192 + n div 64"
    "unat (of_nat (128 + n mod 64) :: byte) = 128 + n mod 64"
    by (simp_all only: unat_of_nat take_bit_eq_mod) simp_all
  moreover have "unat (of_nat n :: byte) = n" if "n < 128"
    using that by (simp add: unat_of_nat take_bit_eq_mod)
  ultimately show ?thesis by (simp add: utf8_char_def Let_def del: of_nat_add flip: n_def)
qed

lemma utf8_char_split:
  assumes "utf8_char c @ r = utf8_char c' @ r'"
  shows "c = c' \<and> r = r'"
proof -
  define n m where "n = (of_char c :: nat)" and "m = (of_char c' :: nat)"
  have "map unat (utf8_char c) @ map unat r = map unat (utf8_char c') @ map unat r'"
    using arg_cong [OF assms, of "map unat"] by simp
  moreover have "n < 256" "m < 256" by (simp_all only: n_def m_def char_less_256)
  ultimately have "n = m"
    by (auto simp: unat_utf8_char Let_def split: if_splits simp flip: n_def m_def)
      (metis div_mult_mod_eq)
  then have "c = c'" by (simp add: n_def m_def)
  with assms show ?thesis by simp
qed

lemma utf8_char_nonempty: "utf8_char c \<noteq> []"
  by (simp add: utf8_char_def Let_def)

lemma utf8_inj [simp]: "utf8 s = utf8 t \<longleftrightarrow> s = t"
proof (induction s arbitrary: t)
  case Nil
  then show ?case by (cases t) (auto simp: utf8_def utf8_char_nonempty)
next
  case (Cons c s)
  then show ?case
    by (cases t) (auto simp: utf8_def utf8_char_nonempty dest: utf8_char_split)
qed

lemma is_hex_hex_digit: "d < 16 \<Longrightarrow> is_hex_char (hex_digit d)"
  by (auto simp: hex_digit_def is_hex_char_def is_digit_def take_bit_eq_mod)

lemma lower_hex_chars: "list_all is_hex_char (lower_hex bs)"
proof -
  have "list_all is_hex_char (hex_byte b)" for b :: byte
    using unat_byte_less [of b] by (simp add: hex_byte_def is_hex_hex_digit less_mult_imp_div_less)
  then show ?thesis by (induction bs) (simp_all add: lower_hex_def)
qed

lemma lower_hex_length [simp]: "length (lower_hex bs) = 2 * length bs"
  by (induction bs) (simp_all add: lower_hex_def hex_byte_def)

lemma lower_hex_inj [simp]: "lower_hex a = lower_hex b \<longleftrightarrow> a = b"
proof
  have h: "x = y" if "hex_byte x = hex_byte y" for x y
  proof -
    have lt: "unat x div 16 < 16" "unat y div 16 < 16" "unat x mod 16 < 16" "unat y mod 16 < 16"
      using unat_byte_less [of x] unat_byte_less [of y] by (simp_all add: less_mult_imp_div_less)
    have "unat x div 16 = unat y div 16" "unat x mod 16 = unat y mod 16"
      using that lt hex_val_hex_digit [of "unat x div 16"] hex_val_hex_digit [of "unat y div 16"]
        hex_val_hex_digit [of "unat x mod 16"] hex_val_hex_digit [of "unat y mod 16"]
      unfolding hex_byte_def by (metis list.inject)+
    then have "unat x = unat y" by (metis div_mult_mod_eq)
    then show ?thesis using word_unat_eq_iff by blast
  qed
  have len: "length (hex_byte x) = 2" for x by (simp add: hex_byte_def)
  show "lower_hex a = lower_hex b \<Longrightarrow> a = b"
  proof (induction a arbitrary: b)
    case Nil
    then show ?case by (cases b) (auto simp: lower_hex_def hex_byte_def)
  next
    case (Cons x a)
    then show ?case
      by (cases b) (auto simp: lower_hex_def len dest: h simp flip: length_0_conv)
  qed
qed simp

subsection \<open>The environment\<close>

record crypto =
  sha256 :: "byte list \<Rightarrow> byte list"
  bytesToHex :: "byte list \<Rightarrow> string"
  hexToBytes :: "string \<Rightarrow> byte list option"

record env = crypto +
  randomUUID :: "nat \<Rightarrow> id"
  randomBytes :: "nat \<Rightarrow> nat \<Rightarrow> byte list"
  clock :: "nat \<Rightarrow> int"
  AUDIT_MERKLE_INTERVAL :: "string option"

definition crypto_ok :: "'a crypto_scheme \<Rightarrow> bool" where
  "crypto_ok C \<longleftrightarrow>
     (\<forall>bs. length (sha256 C bs) = 32) \<and>
     (\<forall>bs. bytesToHex C bs = lower_hex bs) \<and>
     (\<forall>bs. hexToBytes C (lower_hex bs) = Some bs)"

text \<open>Two different inputs with one digest.\<close>

definition collision :: "'a crypto_scheme \<Rightarrow> byte list \<Rightarrow> byte list \<Rightarrow> bool" where
  "collision C x y \<longleftrightarrow> x \<noteq> y \<and> sha256 C x = sha256 C y"

text \<open>
  What the world outside the database counts: how many identifiers, random tokens and clock readings
  were drawn so far.  A rolled back transaction does not put them back.
\<close>

record world =
  draws :: nat

definition drawE :: "(nat \<Rightarrow> 'a) \<Rightarrow> ('e, 'w world_scheme, 'a) op" where
  "drawE f w = (Inr (f (draws w)), w\<lparr>draws := Suc (draws w)\<rparr>)"

lemma run_drawE [run]: "drawE f w = (Inr (f (draws w)), w\<lparr>draws := Suc (draws w)\<rparr>)"
  by (simp add: drawE_def)

lemma drawE_Inr: "drawE f w = (Inr x, t) \<longleftrightarrow> x = f (draws w) \<and> t = w\<lparr>draws := Suc (draws w)\<rparr>"
  by (auto simp: drawE_def)

lemma pres_drawE [pres]: "(\<And>w. P w \<Longrightarrow> P (w\<lparr>draws := Suc (draws w)\<rparr>)) \<Longrightarrow> preserves P (drawE f)"
  by (simp add: preserves_def drawE_def)

subsection \<open>Content hashes and the entry payload\<close>

definition HASH_FORMAT_VERSION :: string where
  "HASH_FORMAT_VERSION = ''2''"

definition KERNEL_VERSION :: string where
  "KERNEL_VERSION = ''0.2.0''"

definition sha256Hex :: "'a crypto_scheme \<Rightarrow> string \<Rightarrow> string" where
  "sha256Hex C input = bytesToHex C (sha256 C (utf8 input))"

definition hashContent :: "'a crypto_scheme \<Rightarrow> string \<Rightarrow> string" where
  "hashContent C content = sha256Hex C content"

definition canonicalTimestampNow :: "'a env_scheme \<Rightarrow> (err, 'w world_scheme, string) op" where
  "canonicalTimestampNow E = drawE (\<lambda>n. iso_string (clock E n))"

record hash_field_input =
  hf_organizationId :: id
  hf_ledgerSequence :: int
  hf_executionId :: id
  hf_entryType :: ledger_entry_type
  hf_requestHash :: "string option"
  hf_responseHash :: "string option"
  hf_executionGraphHash :: "string option"
  hf_previousEntryHash :: "string option"
  hf_kernelVersion :: "string option"
  hf_createdAtCanonical :: string

fun json_opt :: "string option \<Rightarrow> json" where
  "json_opt None = JNull"
| "json_opt (Some s) = JStr s"

definition buildHashPayload :: "hash_field_input \<Rightarrow> json" where
  "buildHashPayload input = JObj
     [(''hash_format_version'', JStr HASH_FORMAT_VERSION),
      (''organization_id'', JStr (hf_organizationId input)),
      (''ledger_sequence'', JNum (hf_ledgerSequence input)),
      (''execution_id'', JStr (hf_executionId input)),
      (''entry_type'', JStr (entry_type_str (hf_entryType input))),
      (''request_hash'', json_opt (hf_requestHash input)),
      (''response_hash'', json_opt (hf_responseHash input)),
      (''execution_graph_hash'', json_opt (hf_executionGraphHash input)),
      (''previous_entry_hash'', json_opt (hf_previousEntryHash input)),
      (''kernel_version'',
        JStr (case hf_kernelVersion input of None \<Rightarrow> KERNEL_VERSION | Some v \<Rightarrow> v)),
      (''created_at'', JStr (hf_createdAtCanonical input))]"

definition computeEntryHash :: "'a crypto_scheme \<Rightarrow> json \<Rightarrow> err + string" where
  "computeEntryHash C payload = bindS (canonicalize payload) (\<lambda>text. Inr (sha256Hex C text))"

subsection \<open>Evidence checks\<close>

definition isSha256Hex :: "string \<Rightarrow> bool" where
  "isSha256Hex value \<longleftrightarrow> length value = 64 \<and> list_all is_hex_char value"

definition assertSha256Hex :: "string \<Rightarrow> string option \<Rightarrow> err + unit" where
  "assertSha256Hex field value =
     (case value of None \<Rightarrow> Inr () | Some v \<Rightarrow> assertS (isSha256Hex v) (EvidenceError field))"

text \<open>\<open>CANONICAL_UTC_TIMESTAMP_PATTERN\<close>: a \<open>d\<close> of the pattern stands for a digit.\<close>

definition matches_digits :: "string \<Rightarrow> string \<Rightarrow> bool" where
  "matches_digits pattern s =
     list_all2 (\<lambda>p c. if p = CHR ''d'' then is_digit c else c = p) pattern s"

definition CANONICAL_UTC_TIMESTAMP_PATTERN :: string where
  "CANONICAL_UTC_TIMESTAMP_PATTERN = ''dddd-dd-ddTdd:dd:dd.dddZ''"

definition assertCanonicalUtcTimestamp :: "string \<Rightarrow> string \<Rightarrow> err + unit" where
  "assertCanonicalUtcTimestamp field value =
     bindS (assertS (matches_digits CANONICAL_UTC_TIMESTAMP_PATTERN value) (EvidenceError field))
       (\<lambda>_. case date_parse value of
          None \<Rightarrow> Inl (EvidenceError field)
        | Some t \<Rightarrow> assertS (iso_string t = value) (EvidenceError field))"

definition assertLedgerHashFields ::
    "string option \<Rightarrow> string option \<Rightarrow> string option \<Rightarrow> err + unit" where
  "assertLedgerHashFields reqHash resHash graphHash =
     bindS (assertSha256Hex ''request_hash'' reqHash) (\<lambda>_.
     bindS (assertSha256Hex ''response_hash'' resHash) (\<lambda>_.
     assertSha256Hex ''execution_graph_hash'' graphHash))"

subsection \<open>Facts about hashes\<close>

lemma sha256Hex_ok:
  assumes "crypto_ok C"
  shows "isSha256Hex (sha256Hex C s)"
  using assms by (simp add: crypto_ok_def isSha256Hex_def sha256Hex_def lower_hex_chars)

lemma sha256Hex_eq:
  assumes "crypto_ok C" and "sha256Hex C s = sha256Hex C t"
  shows "s = t \<or> collision C (utf8 s) (utf8 t)"
  using assms by (auto simp: crypto_ok_def sha256Hex_def collision_def)

lemma assertSha256Hex_simps [simp]:
  "assertSha256Hex f None = Inr ()"
  "assertSha256Hex f (Some v) = assertS (isSha256Hex v) (EvidenceError f)"
  by (simp_all add: assertSha256Hex_def)

lemma json_opt_inj [simp]: "json_opt a = json_opt b \<longleftrightarrow> a = b"
  by (cases a; cases b) simp_all

lemma json_opt_domain [simp]: "in_domain (json_opt a)" "sorted_json (json_opt a) = json_opt a"
  by (cases a; simp)+

lemma buildHashPayload_domain: "in_domain (buildHashPayload i) \<longleftrightarrow> isSafeInteger (hf_ledgerSequence i)"
  by (simp add: buildHashPayload_def)

text \<open>The values of an object survive the sorting of its keys.\<close>

lemma map_of_sort_key:
  fixes kvs :: "('a :: linorder \<times> 'b) list"
  assumes "distinct (map fst kvs)"
  shows "map_of (sort_key fst kvs) = map_of kvs"
proof (rule map_of_inject_set [THEN iffD2])
  have "mset (map fst (sort_key fst kvs)) = mset (map fst kvs)" by simp
  then show "distinct (map fst (sort_key fst kvs))"
    using assms by (metis mset_eq_imp_distinct_iff)
qed (use assms in simp_all)

lemma sorted_obj_values:
  assumes "sorted_json (JObj kvs) = sorted_json (JObj kvs')"
    and "distinct (map fst kvs)" "distinct (map fst kvs')"
  shows "map_option sorted_json (map_of kvs k) = map_option sorted_json (map_of kvs' k)"
proof -
  let ?f = "\<lambda>kvs. map (\<lambda>kv. (fst kv, sorted_json (snd kv))) kvs"
  have d: "distinct (map fst (?f kvs))" "distinct (map fst (?f kvs'))"
    using assms(2,3) by (simp_all add: comp_def)
  have "map_of (?f kvs) = map_of (?f kvs')"
    using assms(1) map_of_sort_key [OF d(1)] map_of_sort_key [OF d(2)] by simp
  moreover have "map_of (?f l) k = map_option sorted_json (map_of l k)" for l
    by (induction l) auto
  ultimately show ?thesis by metis
qed

text \<open>The version an entry is hashed with.\<close>

definition hashed_version :: "hash_field_input \<Rightarrow> string" where
  "hashed_version i = (case hf_kernelVersion i of None \<Rightarrow> KERNEL_VERSION | Some v \<Rightarrow> v)"

definition same_hashed_fields :: "hash_field_input \<Rightarrow> hash_field_input \<Rightarrow> bool" where
  "same_hashed_fields i j \<longleftrightarrow>
     hf_organizationId i = hf_organizationId j \<and> hf_ledgerSequence i = hf_ledgerSequence j \<and>
     hf_executionId i = hf_executionId j \<and> hf_entryType i = hf_entryType j \<and>
     hf_requestHash i = hf_requestHash j \<and> hf_responseHash i = hf_responseHash j \<and>
     hf_executionGraphHash i = hf_executionGraphHash j \<and> hf_previousEntryHash i = hf_previousEntryHash j \<and>
     hashed_version i = hashed_version j \<and> hf_createdAtCanonical i = hf_createdAtCanonical j"

lemma payload_determines_fields:
  assumes "sorted_json (buildHashPayload i) = sorted_json (buildHashPayload j)"
  shows "same_hashed_fields i j"
proof -
  note vals = sorted_obj_values [OF assms [unfolded buildHashPayload_def]]
  show ?thesis
    using vals [of "''organization_id''"] vals [of "''ledger_sequence''"]
      vals [of "''execution_id''"] vals [of "''entry_type''"] vals [of "''request_hash''"]
      vals [of "''response_hash''"] vals [of "''execution_graph_hash''"]
      vals [of "''previous_entry_hash''"] vals [of "''kernel_version''"]
      vals [of "''created_at''"]
    by (simp add: same_hashed_fields_def hashed_version_def)
qed

text \<open>The bytes an accepted payload is hashed from.\<close>

definition payload_bytes :: "hash_field_input \<Rightarrow> byte list" where
  "payload_bytes i = utf8 (pr (sorted_json (buildHashPayload i)))"

lemma computeEntryHash_Inr:
  "computeEntryHash C (buildHashPayload i) = Inr h \<longleftrightarrow>
     isSafeInteger (hf_ledgerSequence i) \<and> h = bytesToHex C (sha256 C (payload_bytes i))"
  by (auto simp: computeEntryHash_def canonicalize_def encode_Inr_iff buildHashPayload_domain
      payload_bytes_def sha256Hex_def)

lemma entry_hash_binds_fields:
  assumes "crypto_ok C"
    and "computeEntryHash C (buildHashPayload i) = Inr h"
    and "computeEntryHash C (buildHashPayload j) = Inr h"
  shows "same_hashed_fields i j \<or> collision C (payload_bytes i) (payload_bytes j)"
proof (cases "payload_bytes i = payload_bytes j")
  case True
  then have "pr (sorted_json (buildHashPayload i)) @ [] = pr (sorted_json (buildHashPayload j)) @ []"
    by (simp add: payload_bytes_def)
  moreover have "in_domain (sorted_json (buildHashPayload i))" "in_domain (sorted_json (buildHashPayload j))"
    using assms(2,3) by (simp_all add: sorted_json_domain buildHashPayload_domain computeEntryHash_Inr)
  ultimately have "sorted_json (buildHashPayload i) = sorted_json (buildHashPayload j)"
    using pr_split [of "sorted_json (buildHashPayload i)" "sorted_json (buildHashPayload j)" "[]" "[]"]
    by (simp add: ends_value_def)
  then show ?thesis using payload_determines_fields by blast
next
  case False
  with assms show ?thesis by (auto simp: computeEntryHash_Inr crypto_ok_def collision_def)
qed

subsection \<open>Facts about timestamps\<close>

definition four_digit_year :: "int \<Rightarrow> bool" where
  "four_digit_year t \<longleftrightarrow> 0 \<le> year_of_day (t div 86400000) \<and> year_of_day (t div 86400000) \<le> 9999"

lemma digit_div10: "0 \<le> n \<Longrightarrow> n < 100 \<Longrightarrow> list_all is_digit (pad2 n)"
  by (simp add: pad2_def pos_imp_zdiv_nonneg_iff nat_less_iff)

lemma matches_append:
  "length p = length s \<Longrightarrow>
   matches_digits (p @ q) (s @ t) \<longleftrightarrow> matches_digits p s \<and> matches_digits q t"
  by (simp add: matches_digits_def list_all2_append)

lemma pad_matches:
  "0 \<le> n \<Longrightarrow> n < 100 \<Longrightarrow> matches_digits ''dd'' (pad2 n)"
  "0 \<le> n \<Longrightarrow> n < 1000 \<Longrightarrow> matches_digits ''ddd'' (pad3 n)"
  "0 \<le> n \<Longrightarrow> n \<le> 9999 \<Longrightarrow> matches_digits ''dddd'' (pad4 n)"
proof -
  show two: "matches_digits ''dd'' (pad2 n)" if "0 \<le> n" "n < 100" for n
    using that by (simp add: matches_digits_def pad2_def pos_imp_zdiv_nonneg_iff nat_less_iff)
  show "matches_digits ''ddd'' (pad3 n)" if "0 \<le> n" "n < 1000"
    using that two [of "n mod 100"]
    by (simp add: matches_digits_def pad3_def pos_imp_zdiv_nonneg_iff nat_less_iff)
  show "matches_digits ''dddd'' (pad4 n)" if "0 \<le> n" "n \<le> 9999"
    using that two [of "n mod 100"] two [of "n div 100"]
      matches_append [of "''dd''" "pad2 (n div 100)" "''dd''" "pad2 (n mod 100)"]
    by (simp add: pad4_def pos_imp_zdiv_nonneg_iff)
qed

lemma matches_literal: "c \<noteq> CHR ''d'' \<Longrightarrow> matches_digits (c # p) (c # s) \<longleftrightarrow> matches_digits p s"
  by (simp add: matches_digits_def)

lemma fields_match_pattern:
  assumes "0 \<le> y" "y \<le> 9999" "0 \<le> m" "m < 100" "0 \<le> d" "d < 100" "0 \<le> h" "h < 100"
    "0 \<le> mi" "mi < 100" "0 \<le> sec" "sec < 100" "0 \<le> ms" "ms < 1000"
  shows "matches_digits CANONICAL_UTC_TIMESTAMP_PATTERN
    (pad4 y @ ''-'' @ pad2 m @ ''-'' @ pad2 d @ ''T'' @ pad2 h @ '':'' @ pad2 mi @ '':'' @
     pad2 sec @ ''.'' @ pad3 ms @ ''Z'')"
proof -
  have pats: "CANONICAL_UTC_TIMESTAMP_PATTERN = ''dddd'' @ ''-'' @ ''dd'' @ ''-'' @ ''dd'' @ ''T'' @
      ''dd'' @ '':'' @ ''dd'' @ '':'' @ ''dd'' @ ''.'' @ ''ddd'' @ ''Z''"
    by (simp add: CANONICAL_UTC_TIMESTAMP_PATTERN_def)
  have lit: "matches_digits ([c] @ p) ([c] @ s) \<longleftrightarrow> matches_digits p s" if "c \<noteq> CHR ''d''" for c p s
    using that by (simp add: matches_literal)
  have "matches_digits [c] [c]" if "c \<noteq> CHR ''d''" for c using that by (simp add: matches_digits_def)
  then show ?thesis
    unfolding pats using assms
    by (simp add: matches_append lit pad_matches del: append_Cons append.simps)
qed

lemma iso_matches_pattern:
  assumes "four_digit_year t"
  shows "matches_digits CANONICAL_UTC_TIMESTAMP_PATTERN (iso_string t)"
proof -
  define y ms where "y = year_of_day (t div 86400000)" and "ms = t mod 86400000"
  have y: "0 \<le> y" "y \<le> 9999" using assms by (simp_all add: four_digit_year_def y_def)
  obtain m dd where iso: "iso_string t = pad4 y @ ''-'' @ pad2 m @ ''-'' @ pad2 dd @ ''T'' @
       pad2 (ms div 3600000) @ '':'' @ pad2 (ms div 60000 mod 60) @ '':'' @ pad2 (ms div 1000 mod 60) @
       ''.'' @ pad3 (ms mod 1000) @ ''Z''"
    and m: "1 \<le> m" "m \<le> 12" and dd: "1 \<le> dd" "dd \<le> month_lengths y ! nat (m - 1)"
    by (rule iso_fields [of t]) (use y in \<open>simp_all add: y_def ms_def\<close>)
  have "nat (m - 1) < 12" using m by linarith
  from month_lengths_le [OF this, of y] dd(2) have dd31: "dd \<le> 31" by linarith
  have "0 \<le> ms" "ms < 86400000" by (simp_all add: ms_def)
  note tod = time_of_day [OF this]
  have lt: "k mod 60 < (100 :: int)" for k using pos_mod_bound [of 60 k] by simp
  show ?thesis unfolding iso
    by (rule fields_match_pattern) (use y m dd(1) dd31 tod(1,2) lt in simp_all)
qed

lemma matches_length: "matches_digits p s \<Longrightarrow> length s = length p"
  by (simp add: matches_digits_def list_all2_lengthD)

lemma iso_four_digits:
  assumes "matches_digits CANONICAL_UTC_TIMESTAMP_PATTERN (iso_string t)"
  shows "four_digit_year t"
proof (rule ccontr)
  assume "\<not> four_digit_year t"
  then have "hd (iso_year (year_of_day (t div 86400000))) \<in> {CHR ''-'', CHR ''+''} \<and>
      iso_year (year_of_day (t div 86400000)) \<noteq> []"
    by (auto simp: iso_year_def four_digit_year_def)
  moreover obtain q where "iso_string t = iso_year (year_of_day (t div 86400000)) @ q"
    by (cases "month_day (month_lengths (year_of_day (t div 86400000))) 1
        (t div 86400000 - day_from_year (year_of_day (t div 86400000)))")
      (simp add: iso_string_def Let_def)
  ultimately obtain r where "iso_string t = CHR ''-'' # r \<or> iso_string t = CHR ''+'' # r"
    by (cases "iso_year (year_of_day (t div 86400000))") auto
  with assms show False
    by (auto simp: CANONICAL_UTC_TIMESTAMP_PATTERN_def matches_digits_def is_digit_def)
qed

text \<open>The timestamp check accepts exactly the strings that \<open>Date#toISOString\<close> prints for a time in
  the years 0000 to 9999; every other string (another shape, a day that does not exist, a
  24:00 that prints differently) is rejected before it can be hashed.\<close>

theorem assertCanonicalUtcTimestamp_accepts:
  "assertCanonicalUtcTimestamp field value = Inr () \<longleftrightarrow>
     (\<exists>t. four_digit_year t \<and> value = iso_string t)"
proof
  assume "assertCanonicalUtcTimestamp field value = Inr ()"
  then obtain t where "matches_digits CANONICAL_UTC_TIMESTAMP_PATTERN value" "iso_string t = value"
    by (auto simp: assertCanonicalUtcTimestamp_def split: option.splits)
  then show "\<exists>t. four_digit_year t \<and> value = iso_string t" using iso_four_digits by blast
next
  assume "\<exists>t. four_digit_year t \<and> value = iso_string t"
  then show "assertCanonicalUtcTimestamp field value = Inr ()"
    by (auto simp: assertCanonicalUtcTimestamp_def iso_matches_pattern parse_iso four_digit_year_def
        split: option.splits)
qed

lemma canonical_timestamp_parses:
  "assertCanonicalUtcTimestamp f ts = Inr u \<Longrightarrow> \<exists>t. date_parse ts = Some t \<and> iso_string t = ts"
  by (auto simp: assertCanonicalUtcTimestamp_def split: option.splits)

text \<open>An accepted timestamp and the time value stored beside it carry the same information: the
  parsed time prints back as the very string that was hashed.\<close>

theorem canonical_timestamp_roundtrip:
  assumes "assertCanonicalUtcTimestamp field value = Inr ()"
  shows "\<exists>t. date_parse value = Some t \<and> iso_string t = value"
  using assms by (rule canonical_timestamp_parses)

theorem canonical_timestamp_roundtrip_witness:
  "\<exists>t. date_parse ''2026-02-28T23:59:59.999Z'' = Some t \<and> iso_string t = ''2026-02-28T23:59:59.999Z''"
proof (rule canonical_timestamp_roundtrip [of "''created_at_canonical''"])
  show "assertCanonicalUtcTimestamp ''created_at_canonical'' ''2026-02-28T23:59:59.999Z'' = Inr ()"
    by code_simp
qed

text \<open>An entry hash commits to every field of the ledger entry.  If two entries have the same
  \<open>entry_hash\<close>, then organization, sequence, execution, type, the three content hashes, the previous
  hash, the kernel version and the timestamp all agree, or else the two canonical payloads are an
  explicit SHA-256 collision.\<close>

theorem entry_hash_commits:
  assumes "crypto_ok C"
    and "computeEntryHash C (buildHashPayload i) = Inr h"
    and "computeEntryHash C (buildHashPayload j) = Inr h"
  shows "same_hashed_fields i j \<or> collision C (payload_bytes i) (payload_bytes j)"
  using assms by (rule entry_hash_binds_fields)

subsection \<open>A concrete environment\<close>

text \<open>
  An instance of the parameters on which the hypotheses of the theorems are discharged: a checksum in
  place of the digest, the hex codec computed.
\<close>

definition sample_sha256 :: "byte list \<Rightarrow> byte list" where
  "sample_sha256 bs = replicate 31 (of_nat (length bs)) @ [foldl (\<lambda>a b. 5 * a + b) 7 bs]"

fun sample_hexToBytes :: "string \<Rightarrow> byte list option" where
  "sample_hexToBytes [] = Some []"
| "sample_hexToBytes [_] = None"
| "sample_hexToBytes (a # b # r) =
     (if is_hex_char a \<and> is_hex_char b
      then map_option (\<lambda>bs. of_nat (16 * hex_val a + hex_val b) # bs) (sample_hexToBytes r)
      else None)"

definition sample_crypto :: crypto where
  "sample_crypto = \<lparr>sha256 = sample_sha256, bytesToHex = lower_hex, hexToBytes = sample_hexToBytes\<rparr>"

definition sample_env :: env where
  "sample_env = crypto.extend sample_crypto
     \<lparr>randomUUID = (\<lambda>n. ''uuid-'' @ show_nat n), randomBytes = (\<lambda>n k. replicate k (of_nat n)),
      clock = (\<lambda>n. 1767225600000 + int n), AUDIT_MERKLE_INTERVAL = None\<rparr>"

lemma sample_hex_roundtrip: "sample_hexToBytes (lower_hex bs) = Some bs"
proof (induction bs)
  case (Cons b bs)
  have lt: "unat b div 16 < 16" using unat_byte_less [of b] by (simp add: less_mult_imp_div_less)
  have "of_nat (16 * (unat b div 16) + unat b mod 16) = b"
    by (simp only: mult_div_mod_eq) simp
  with Cons lt show ?case by (simp add: lower_hex_def hex_byte_def is_hex_hex_digit)
qed (simp add: lower_hex_def)

lemma sample_crypto_ok: "crypto_ok sample_crypto" "crypto_ok sample_env"
  by (simp_all add: crypto_ok_def sample_crypto_def sample_env_def crypto.defs sample_hex_roundtrip
      sample_sha256_def)

theorem entry_hash_commits_witness:
  "let i = \<lparr>hf_organizationId = ''org'', hf_ledgerSequence = 1, hf_executionId = ''e'', hf_entryType = RequestOpened,
      hf_requestHash = None, hf_responseHash = None, hf_executionGraphHash = None, hf_previousEntryHash = None,
      hf_kernelVersion = None, hf_createdAtCanonical = ''2026-01-01T00:00:00.000Z''\<rparr>;
      j = i\<lparr>hf_kernelVersion := Some KERNEL_VERSION\<rparr>
   in same_hashed_fields i j \<or> collision sample_crypto (payload_bytes i) (payload_bytes j)"
  unfolding Let_def
  by (rule entry_hash_commits [OF sample_crypto_ok(1)])
    (simp_all add: computeEntryHash_def buildHashPayload_def canonicalize_def encode_total
      isSafeInteger_def)

end
