(* ===== verification/Merkle.thy ===== *)
theory Merkle
  imports Hashing
begin

text \<open>
  \<open>packages/audit-kernel/src/merkle/merkle.ts\<close>: the tree over the entry hashes of a checkpoint, its
  inclusion proofs and their verification.  The tree is built level by level; an odd last node is
  paired with itself.  Hashing a pair decodes hex and may throw, so building and verifying are
  fallible.

  The functions take the pair hash as an argument, and the locale \<open>merkle_hash\<close> states what the
  theorems need of it; the V2 pair hash is an interpretation here, and theory \<open>V1\<close> shows that the
  first version's trees are the same ones.  As SHA-256 is not injective, soundness and binding conclude
  with an alternative that names two pairs hashed on the two sides with one digest.
\<close>

datatype merkle_position = PLeft | PRight | POther

record merkle_proof_step =
  sibling_hash :: string
  step_position :: merkle_position

fun levelUp :: "('n \<Rightarrow> 'n \<Rightarrow> err + 'n) \<Rightarrow> 'n list \<Rightarrow> err + 'n list" where
  "levelUp pair [] = Inr []"
| "levelUp pair [x] = bindS (pair x x) (\<lambda>p. Inr [p])"
| "levelUp pair (x # y # r) = bindS (pair x y) (\<lambda>p. bindS (levelUp pair r) (\<lambda>ps. Inr (p # ps)))"

lemma levelUp_length: "levelUp pair xs = Inr ys \<Longrightarrow> length ys = (length xs + 1) div 2"
  by (induction pair xs arbitrary: ys rule: levelUp.induct) auto

text \<open>The layers from a non-empty level up to the root.\<close>

function merkle_layers :: "('n \<Rightarrow> 'n \<Rightarrow> err + 'n) \<Rightarrow> 'n list \<Rightarrow> err + 'n list list" where
  "merkle_layers pair current =
     (if length current > 1
      then bindS (levelUp pair current) (\<lambda>next.
           bindS (merkle_layers pair next) (\<lambda>layers. Inr (current # layers)))
      else Inr [current])"
  by pat_completeness auto
termination
  by (relation "measure (\<lambda>(pair, xs). length xs)") (auto dest: levelUp_length)

declare merkle_layers.simps [simp del]

definition emptyHash :: "'a crypto_scheme \<Rightarrow> string" where
  "emptyHash C = bytesToHex C (sha256 C (utf8 ''''))"

definition merkle_tree ::
    "'n \<Rightarrow> ('n \<Rightarrow> 'n \<Rightarrow> err + 'n) \<Rightarrow> 'n list \<Rightarrow> err + 'n \<times> 'n list list" where
  "merkle_tree empty_root pair leafHashes =
     (if leafHashes = [] then Inr (empty_root, [[empty_root]])
      else bindS (merkle_layers pair leafHashes) (\<lambda>layers. Inr (hd (last layers), layers)))"

text \<open>\<open>hashPair\<close>: decode both sides, hash the concatenation.\<close>

definition invalid_hex :: err where
  "invalid_hex = PlainError ''hex string expected''"

definition hexToBytesS :: "'a crypto_scheme \<Rightarrow> string \<Rightarrow> err + byte list" where
  "hexToBytesS C s = (case hexToBytes C s of None \<Rightarrow> Inl invalid_hex | Some bs \<Rightarrow> Inr bs)"

definition hashPair :: "'a crypto_scheme \<Rightarrow> string \<Rightarrow> string \<Rightarrow> err + string" where
  "hashPair C leftHex rightHex =
     bindS (hexToBytesS C leftHex) (\<lambda>left.
     bindS (hexToBytesS C rightHex) (\<lambda>right.
     Inr (bytesToHex C (sha256 C (left @ right)))))"

definition buildMerkleTree :: "'a crypto_scheme \<Rightarrow> string list \<Rightarrow> err + string \<times> string list list" where
  "buildMerkleTree C leafHashes = merkle_tree (emptyHash C) (hashPair C) leafHashes"

definition computeMerkleRoot :: "'a crypto_scheme \<Rightarrow> string list \<Rightarrow> err + string" where
  "computeMerkleRoot C leafHashes = bindS (buildMerkleTree C leafHashes) (\<lambda>(root, layers). Inr root)"

text \<open>The loop of \<open>getMerkleProof\<close> over all layers but the last.\<close>

fun proof_steps :: "string list list \<Rightarrow> nat \<Rightarrow> merkle_proof_step list" where
  "proof_steps (layer # next # layers) idx =
     (if idx mod 2 = 0
      then \<lparr>sibling_hash = (if idx + 1 < length layer then layer ! (idx + 1) else layer ! idx),
            step_position = PRight\<rparr>
      else \<lparr>sibling_hash = layer ! (idx - 1), step_position = PLeft\<rparr>) #
     proof_steps (next # layers) (idx div 2)"
| "proof_steps _ idx = []"

definition getMerkleProof ::
    "'a crypto_scheme \<Rightarrow> string list \<Rightarrow> int \<Rightarrow> err + merkle_proof_step list \<times> string" where
  "getMerkleProof C leafHashes leafIndex =
     (if leafIndex < 0 \<or> leafIndex \<ge> int (length leafHashes)
      then Inl (PlainError ''leaf index out of range'')
      else bindS (buildMerkleTree C leafHashes) (\<lambda>(root, layers).
           Inr (proof_steps layers (nat leafIndex), root)))"

text \<open>The loop of \<open>verifyMerkleProof\<close>; \<open>None\<close> is the early \<open>return false\<close>.\<close>

fun climb :: "(string \<Rightarrow> string \<Rightarrow> err + string) \<Rightarrow> string \<Rightarrow> merkle_proof_step list \<Rightarrow> err + string option"
  where
  "climb pair current [] = Inr (Some current)"
| "climb pair current (step # steps) =
     (case step_position step of
        PLeft \<Rightarrow> bindS (pair (sibling_hash step) current) (\<lambda>c. climb pair c steps)
      | PRight \<Rightarrow> bindS (pair current (sibling_hash step)) (\<lambda>c. climb pair c steps)
      | POther \<Rightarrow> Inr None)"

definition verifyMerkleProof ::
    "'a crypto_scheme \<Rightarrow> string \<Rightarrow> merkle_proof_step list \<Rightarrow> string \<Rightarrow> err + bool" where
  "verifyMerkleProof C leafHash steps expectedRoot =
     bindS (climb (hashPair C) leafHash steps) (\<lambda>r. Inr (r = Some expectedRoot))"

definition proofForLeaf ::
    "'a crypto_scheme \<Rightarrow> string list \<Rightarrow> string \<Rightarrow> err + merkle_proof_step list \<times> string" where
  "proofForLeaf C leafHashes leafHash =
     (let index = length (takeWhile (\<lambda>h. h \<noteq> leafHash) leafHashes) in
      if index = length leafHashes then Inl (PlainError ''leaf not present in checkpoint'')
      else getMerkleProof C leafHashes (int index))"

subsection \<open>The pairs that are hashed\<close>

fun level_pairs :: "'n list \<Rightarrow> ('n \<times> 'n) list" where
  "level_pairs [] = []"
| "level_pairs [x] = [(x, x)]"
| "level_pairs (x # y # r) = (x, y) # level_pairs r"

definition tree_pairs :: "'n list list \<Rightarrow> ('n \<times> 'n) list" where
  "tree_pairs layers = concat (map level_pairs (butlast layers))"

fun path_pairs :: "(string \<Rightarrow> string \<Rightarrow> err + string) \<Rightarrow> string \<Rightarrow> merkle_proof_step list \<Rightarrow>
    (string \<times> string) list" where
  "path_pairs pair current [] = []"
| "path_pairs pair current (step # steps) =
     (let p = (case step_position step of
          PLeft \<Rightarrow> (sibling_hash step, current)
        | _ \<Rightarrow> (current, sibling_hash step))
      in p # (case pair (fst p) (snd p) of Inl e \<Rightarrow> [] | Inr c \<Rightarrow> path_pairs pair c steps))"

lemma level_pairs_length: "length (level_pairs xs) = (length xs + 1) div 2"
  by (induction xs rule: level_pairs.induct) auto

lemma level_pairs_nth:
  "i < (length xs + 1) div 2 \<Longrightarrow>
   level_pairs xs ! i = (xs ! (2 * i), if 2 * i + 1 < length xs then xs ! (2 * i + 1) else xs ! (2 * i))"
proof (induction xs arbitrary: i rule: level_pairs.induct)
  case (3 x y r)
  then show ?case by (cases i) auto
qed auto

lemma levelUp_pairs: "levelUp pair xs = Inr ys \<longleftrightarrow> mapS (\<lambda>(a, b). pair a b) (level_pairs xs) = Inr ys"
  by (induction pair xs arbitrary: ys rule: levelUp.induct) auto

lemma levelUp_nth:
  assumes "levelUp pair xs = Inr ys" "i < length ys"
  shows "pair (xs ! (2 * i)) (if 2 * i + 1 < length xs then xs ! (2 * i + 1) else xs ! (2 * i)) =
    Inr (ys ! i)"
proof -
  have "list_all2 (\<lambda>p y. (case p of (a, b) \<Rightarrow> pair a b) = Inr y) (level_pairs xs) ys"
    using assms(1) by (simp only: levelUp_pairs mapS_Inr_iff)
  with assms have "(case level_pairs xs ! i of (a, b) \<Rightarrow> pair a b) = Inr (ys ! i)"
    by (simp add: list_all2_conv_all_nth)
  then show ?thesis
    using levelUp_length [OF assms(1)] assms(2) level_pairs_nth [of i xs] by simp
qed

lemma merkle_layers_cases:
  assumes "merkle_layers pair xs = Inr layers" "xs \<noteq> []"
  obtains (single) x where "xs = [x]" "layers = [[x]]"
  | (step) ys rest where "length xs > 1" "levelUp pair xs = Inr ys" "ys \<noteq> []"
      "merkle_layers pair ys = Inr rest" "layers = xs # rest" "rest \<noteq> []"
proof (cases "length xs > 1")
  case True
  with assms(1) obtain ys rest where *: "levelUp pair xs = Inr ys" "merkle_layers pair ys = Inr rest"
      "layers = xs # rest"
    by (subst (asm) merkle_layers.simps) auto
  moreover have "ys \<noteq> []" using levelUp_length [OF *(1)] True by auto
  moreover have "rest \<noteq> []"
    using *(2) by (subst (asm) merkle_layers.simps) (auto split: if_splits)
  ultimately show ?thesis using step True by blast
next
  case False
  with assms(2) obtain x where "xs = [x]" by (cases xs) (auto simp: Suc_le_eq)
  moreover from this assms(1) have "layers = [[x]]"
    by (subst (asm) merkle_layers.simps) simp
  ultimately show ?thesis by (rule single)
qed

lemma layers_induct [consumes 2, case_names single step]:
  assumes "merkle_layers pair xs = Inr layers" "xs \<noteq> []"
    and "\<And>x. P [x] [[x]]"
    and "\<And>xs ys rest. length xs > 1 \<Longrightarrow> levelUp pair xs = Inr ys \<Longrightarrow> ys \<noteq> [] \<Longrightarrow>
       merkle_layers pair ys = Inr rest \<Longrightarrow> rest \<noteq> [] \<Longrightarrow> P ys rest \<Longrightarrow> P xs (xs # rest)"
  shows "P xs layers"
  using assms(1,2)
proof (induction "length xs" arbitrary: xs layers rule: less_induct)
  case less
  from less.prems show ?case
  proof (cases rule: merkle_layers_cases)
    case (step ys rest)
    from levelUp_length [OF step(2)] step(1) have "length ys < length xs" by auto
    from less.hyps [OF this step(4,3)] step show ?thesis by (simp add: assms(4))
  qed (simp add: assms(3))
qed

lemma layers_hd: "merkle_layers pair xs = Inr layers \<Longrightarrow> xs \<noteq> [] \<Longrightarrow> hd layers = xs \<and> layers \<noteq> []"
  by (erule (1) merkle_layers_cases) auto

subsection \<open>What the pair hash promises\<close>

locale merkle_hash =
  fixes pair :: "string \<Rightarrow> string \<Rightarrow> err + string"
    and valid :: "string \<Rightarrow> bool"
    and coll :: "string \<times> string \<Rightarrow> string \<times> string \<Rightarrow> bool"
  assumes pair_total: "valid a \<Longrightarrow> valid b \<Longrightarrow> \<exists>z. pair a b = Inr z"
    and pair_valid: "valid a \<or> valid b \<Longrightarrow> pair a b = Inr z \<Longrightarrow> valid z"
    and left_bound: "valid a \<Longrightarrow> valid b \<Longrightarrow> valid x \<Longrightarrow> pair a b = Inr z \<Longrightarrow> pair x s = Inr z \<Longrightarrow>
        x = a \<or> coll (a, b) (x, s)"
    and right_bound: "valid a \<Longrightarrow> valid b \<Longrightarrow> valid x \<Longrightarrow> pair a b = Inr z \<Longrightarrow> pair s x = Inr z \<Longrightarrow>
        x = b \<or> coll (a, b) (s, x)"
begin

lemma level_valid:
  "list_all valid xs \<Longrightarrow> \<forall>p\<in>set (level_pairs xs). valid (fst p) \<and> valid (snd p)"
  by (induction xs rule: level_pairs.induct) auto

lemma pair_valid_left: "valid a \<Longrightarrow> pair a b = Inr z \<Longrightarrow> valid z"
  using pair_valid by blast

lemma levelUp_valid:
  "list_all valid xs \<Longrightarrow> levelUp pair xs = Inr ys \<Longrightarrow> list_all valid ys"
proof (induction xs arbitrary: ys rule: level_pairs.induct)
  case (2 x)
  then obtain z where "pair x x = Inr z" "ys = [z]" by auto
  with 2 show ?case using pair_valid_left [of x x z] by simp
next
  case (3 x y r)
  then obtain z zs where "pair x y = Inr z" "levelUp pair r = Inr zs" "ys = z # zs" by auto
  with 3 show ?case using pair_valid_left [of x y z] by simp
qed simp

lemma levelUp_total:
  assumes "list_all valid xs"
  shows "\<exists>ys. levelUp pair xs = Inr ys"
  using assms
proof (induction xs rule: level_pairs.induct)
  case (2 x)
  then show ?case using pair_total [of x x] by auto
next
  case (3 x y r)
  then show ?case using pair_total [of x y] by fastforce
qed simp

lemma layers_total: "list_all valid xs \<Longrightarrow> xs \<noteq> [] \<Longrightarrow> \<exists>layers. merkle_layers pair xs = Inr layers"
proof (induction "length xs" arbitrary: xs rule: less_induct)
  case less
  show ?case
  proof (cases "length xs > 1")
    case True
    obtain ys where ys: "levelUp pair xs = Inr ys" using levelUp_total less.prems by blast
    then have len: "length ys = (length xs + 1) div 2" by (rule levelUp_length)
    with True have "ys \<noteq> []" "length ys < length xs" by auto
    then obtain layers where "merkle_layers pair ys = Inr layers"
      using less.hyps [of ys] levelUp_valid [OF less.prems(1) ys] by blast
    with True ys show ?thesis by (subst merkle_layers.simps) simp
  qed (subst merkle_layers.simps, simp)
qed

lemma proof_climbs:
  assumes "merkle_layers pair xs = Inr layers" "xs \<noteq> []" "i < length xs"
  shows "climb pair (xs ! i) (proof_steps layers i) = Inr (Some (hd (last layers)))"
  using assms
proof (induction arbitrary: i rule: layers_induct)
  case (step xs ys rest)
  have hd: "hd rest = ys" using layers_hd [OF step(4,3)] by simp
  obtain rest' where rest: "rest = ys # rest'" using hd step(5) by (cases rest) auto
  have len: "length ys = (length xs + 1) div 2" using levelUp_length [OF step(2)] .
  then have j: "i div 2 < length ys" using step.prems by linarith
  note up = levelUp_nth [OF step(2) j]
  note IH = step.IH [OF j]
  show ?case
  proof (cases "i mod 2 = 0")
    case True
    then have "2 * (i div 2) = i" by auto
    with True up IH rest show ?thesis by (auto split: if_splits)
  next
    case False
    then have "2 * (i div 2) = i - 1" "2 * (i div 2) + 1 = i" by presburger+
    with False up IH rest step.prems show ?thesis by (auto split: if_splits)
  qed
qed simp

text \<open>
  Soundness: a proof with one step per level that leads to the root starts at a leaf, unless a pair
  hashed in the tree and a pair hashed while climbing collide.
\<close>

lemma climb_sound:
  assumes "merkle_layers pair xs = Inr layers" "xs \<noteq> []" "list_all valid xs" "valid x"
    and "length steps + 1 = length layers"
    and "climb pair x steps = Inr (Some (hd (last layers)))"
  shows "x \<in> set xs \<or> (\<exists>p\<in>set (tree_pairs layers). \<exists>q\<in>set (path_pairs pair x steps). coll p q)"
  using assms
proof (induction arbitrary: x steps rule: layers_induct)
  case (step xs ys rest)
  obtain st steps' where steps: "steps = st # steps'" "length steps' + 1 = length rest"
    using step.prems(3) step(5) by (cases steps; cases rest) auto
  have pairs: "set (tree_pairs (xs # rest)) = set (level_pairs xs) \<union> set (tree_pairs rest)"
    using step(5) by (simp add: tree_pairs_def)
  have lv: "list_all valid ys" using levelUp_valid [OF step.prems(1) step(2)] .
  define q where "q = (case step_position st of PLeft \<Rightarrow> (sibling_hash st, x) | _ \<Rightarrow> (x, sibling_hash st))"
  from step.prems(4) steps obtain z where z: "pair (fst q) (snd q) = Inr z"
    "climb pair z steps' = Inr (Some (hd (last rest)))" "step_position st \<noteq> POther"
    using step(5) by (auto simp: q_def split: merkle_position.splits)
  have path: "path_pairs pair x steps = q # path_pairs pair z steps'"
    using z(1,3) by (simp add: steps(1) q_def Let_def split: merkle_position.splits)
  have "valid z"
    using pair_valid [OF _ z(1)] step.prems(2) by (auto simp: q_def split: merkle_position.splits)
  from step.IH [OF lv this steps(2) z(2)]
  consider "z \<in> set ys"
    | "\<exists>p\<in>set (tree_pairs rest). \<exists>q\<in>set (path_pairs pair z steps'). coll p q" by blast
  then show ?case
  proof cases
    case 1
    then obtain i where i: "i < length ys" "ys ! i = z" by (auto simp: in_set_conv_nth)
    have len: "length ys = (length xs + 1) div 2" using levelUp_length [OF step(2)] .
    define p where "p = level_pairs xs ! i"
    have p: "p \<in> set (level_pairs xs)" "pair (fst p) (snd p) = Inr z"
      "fst p \<in> set xs" "snd p \<in> set xs"
      using i len level_pairs_nth [of i xs] levelUp_nth [OF step(2) i(1)]
      nth_mem [of i "level_pairs xs"] by (auto simp: p_def level_pairs_length)
    have "valid (fst p)" "valid (snd p)" using p(1) level_valid [OF step.prems(1)] by blast+
    then have "x = fst p \<or> x = snd p \<or> coll p q"
      using left_bound [of "fst p" "snd p" x z "snd q"] right_bound [of "fst p" "snd p" x z "fst q"]
        p(2) z(1,3) step.prems(2)
      by (auto simp: q_def split: merkle_position.splits)
    with p path pairs show ?thesis by auto
  next
    case 2
    with path pairs show ?thesis by auto
  qed
qed simp

text \<open>Binding: two trees over equally many leaves with one root have the same leaves, or collide.\<close>

lemma level_pairs_inj:
  "length xs = length xs' \<Longrightarrow> level_pairs xs = level_pairs xs' \<Longrightarrow> xs = xs'"
proof (induction xs arbitrary: xs' rule: level_pairs.induct)
  case (2 x)
  then show ?case by (cases xs') auto
next
  case (3 x y r)
  then show ?case by (cases xs' rule: level_pairs.cases) auto
qed simp

lemma roots_bind:
  assumes "merkle_layers pair xs = Inr layers" "xs \<noteq> []"
    and "merkle_layers pair xs' = Inr layers'" "length xs' = length xs"
    and "list_all valid xs" "list_all valid xs'"
    and "hd (last layers) = hd (last layers')"
  shows "xs = xs' \<or> (\<exists>p\<in>set (tree_pairs layers). \<exists>q\<in>set (tree_pairs layers'). coll p q)"
  using assms
proof (induction arbitrary: xs' layers' rule: layers_induct)
  case (single x)
  then obtain y where "xs' = [y]" by (cases xs') auto
  with single show ?case by (auto simp: merkle_layers.simps)
next
  case (step xs ys rest)
  have "xs' \<noteq> []" "\<not> length xs' \<le> 1" using step.prems(2) step(1) by auto
  with step.prems(1) obtain ys' rest' where up': "levelUp pair xs' = Inr ys'" "ys' \<noteq> []"
      "merkle_layers pair ys' = Inr rest'" "layers' = xs' # rest'" "rest' \<noteq> []"
    by (cases rule: merkle_layers_cases) auto
  have len: "length ys' = length ys"
    using levelUp_length [OF step(2)] levelUp_length [OF up'(1)] step.prems(2) by simp
  have sub: "set (tree_pairs (xs # rest)) = set (level_pairs xs) \<union> set (tree_pairs rest)"
    "set (tree_pairs layers') = set (level_pairs xs') \<union> set (tree_pairs rest')"
    using step(5) up'(4,5) by (simp_all add: tree_pairs_def)
  have "hd (last rest) = hd (last rest')" using step.prems(5) step(5) up'(4,5) by simp
  from step.IH [OF up'(3) len levelUp_valid [OF step.prems(3) step(2)]
      levelUp_valid [OF step.prems(4) up'(1)] this]
  consider (same) "ys = ys'"
    | "\<exists>p\<in>set (tree_pairs rest). \<exists>q\<in>set (tree_pairs rest'). coll p q" by blast
  then show ?case
  proof cases
    case same
    show ?thesis
    proof (cases "level_pairs xs = level_pairs xs'")
      case True
      with level_pairs_inj step.prems(2) show ?thesis by metis
    next
      case False
      have l: "length (level_pairs xs) = length ys" "length (level_pairs xs') = length ys"
        using levelUp_length [OF step(2)] levelUp_length [OF up'(1)] len
        by (simp_all add: level_pairs_length)
      then obtain i where i: "i < length ys" "level_pairs xs ! i \<noteq> level_pairs xs' ! i"
        using False nth_equalityI [of "level_pairs xs" "level_pairs xs'"] by auto
      obtain a b a' b' where ab: "level_pairs xs ! i = (a, b)" "level_pairs xs' ! i = (a', b')"
        by (cases "level_pairs xs ! i"; cases "level_pairs xs' ! i")
      have in_p: "(a, b) \<in> set (level_pairs xs)" "(a', b') \<in> set (level_pairs xs')"
        using ab i(1) l nth_mem [of i "level_pairs xs"] nth_mem [of i "level_pairs xs'"] by auto
      have "pair a b = Inr (ys ! i)" "pair a' b' = Inr (ys ! i)"
        using levelUp_pairs [of pair xs ys] levelUp_pairs [of pair xs' ys'] step(2) up'(1) same i(1) l ab
        by (auto simp: mapS_Inr_iff list_all2_conv_all_nth split: prod.splits)
      moreover have "valid a" "valid b" "valid a'" "valid b'"
        using level_valid [OF step.prems(3)] level_valid [OF step.prems(4)] in_p by fastforce+
      ultimately have "a' = a \<or> coll (a, b) (a', b')" "b' = b \<or> coll (a, b) (a', b')"
        using left_bound [of a b a' "ys ! i" b'] right_bound [of a b b' "ys ! i" a'] by blast+
      with i(2) ab have "coll (a, b) (a', b')" by auto
      with in_p sub show ?thesis by blast
    qed
  qed (use sub in blast)
qed

end

subsection \<open>The V2 pair hash\<close>

definition valid_node :: "'a crypto_scheme \<Rightarrow> string \<Rightarrow> bool" where
  "valid_node C x \<longleftrightarrow> crypto_ok C \<and> isSha256Hex x"

definition pair_input :: "'a crypto_scheme \<Rightarrow> string \<times> string \<Rightarrow> byte list" where
  "pair_input C p =
     (case (hexToBytes C (fst p), hexToBytes C (snd p)) of (Some l, Some r) \<Rightarrow> l @ r | _ \<Rightarrow> [])"

definition pair_collision :: "'a crypto_scheme \<Rightarrow> string \<times> string \<Rightarrow> string \<times> string \<Rightarrow> bool" where
  "pair_collision C p q \<longleftrightarrow> collision C (pair_input C p) (pair_input C q)"

lemma hex_val_less: "is_hex_char c \<Longrightarrow> hex_val c < 16 \<and> hex_digit (hex_val c) = c"
  by (auto simp: is_hex_char_def is_digit_def hex_val_def hex_digit_def)

lemma hex_byte_of_chars:
  assumes "is_hex_char a" "is_hex_char b"
  shows "hex_byte (of_nat (16 * hex_val a + hex_val b)) = [a, b]"
proof -
  have "hex_val a < 16" "hex_val b < 16" using assms hex_val_less by blast+
  then have "16 * hex_val a + hex_val b < 256" by linarith
  then have "unat (of_nat (16 * hex_val a + hex_val b) :: byte) = 16 * hex_val a + hex_val b"
    by (simp only: unat_of_nat take_bit_eq_mod) simp
  with \<open>hex_val b < 16\<close> show ?thesis
    using assms hex_val_less by (simp add: hex_byte_def del: of_nat_add of_nat_mult)
qed

lemma lower_hex_surj:
  "list_all is_hex_char s \<Longrightarrow> even (length s) \<Longrightarrow> \<exists>bs. s = lower_hex bs"
proof (induction s rule: induct_list012)
  case 1
  then show ?case by (auto simp: lower_hex_def intro: exI [of _ "[]"])
next
  case (3 a b r)
  then obtain bs where "r = lower_hex bs" by auto
  with 3 have "a # b # r = lower_hex (of_nat (16 * hex_val a + hex_val b) # bs)"
    by (simp add: lower_hex_def hex_byte_of_chars del: of_nat_add of_nat_mult)
  then show ?case by blast
qed simp

lemma sha256Hex_is_hex: "isSha256Hex x \<Longrightarrow> \<exists>bs. length bs = 32 \<and> x = lower_hex bs"
  using lower_hex_surj [of x] by (auto simp: isSha256Hex_def)

interpretation v2: merkle_hash "hashPair C" "valid_node C" "pair_collision C"
  for C :: "'a crypto_scheme"
proof unfold_locales
  fix a b assume "valid_node C a" "valid_node C b"
  then show "\<exists>z. hashPair C a b = Inr z"
    by (auto simp: valid_node_def crypto_ok_def hashPair_def hexToBytesS_def dest!: sha256Hex_is_hex)
next
  fix a b z assume "valid_node C a \<or> valid_node C b" "hashPair C a b = Inr z"
  then show "valid_node C z"
    by (auto simp: valid_node_def crypto_ok_def hashPair_def isSha256Hex_def lower_hex_chars)
next
  fix a b x z s
  assume v: "valid_node C a" "valid_node C b" "valid_node C x"
    and p: "hashPair C a b = Inr z" "hashPair C x s = Inr z"
  from v obtain as bs xs where hex: "a = lower_hex as" "b = lower_hex bs" "x = lower_hex xs"
    "length as = 32" "length bs = 32" "length xs = 32"
    by (auto simp: valid_node_def dest!: sha256Hex_is_hex)
  with v p show "x = a \<or> pair_collision C (a, b) (x, s)"
    by (auto simp: valid_node_def crypto_ok_def hashPair_def hexToBytesS_def pair_collision_def
        pair_input_def collision_def split: option.splits)
next
  fix a b x z s
  assume v: "valid_node C a" "valid_node C b" "valid_node C x"
    and p: "hashPair C a b = Inr z" "hashPair C s x = Inr z"
  from v obtain as bs xs where hex: "a = lower_hex as" "b = lower_hex bs" "x = lower_hex xs"
    "length as = 32" "length bs = 32" "length xs = 32"
    by (auto simp: valid_node_def dest!: sha256Hex_is_hex)
  with v p show "x = b \<or> pair_collision C (a, b) (s, x)"
    by (auto simp: valid_node_def crypto_ok_def hashPair_def hexToBytesS_def pair_collision_def
        pair_input_def collision_def split: option.splits)
qed

lemma valid_nodes: "crypto_ok C \<Longrightarrow> list_all isSha256Hex xs \<Longrightarrow> list_all (valid_node C) xs"
  by (simp add: list_all_iff valid_node_def)

lemma buildMerkleTree_layers:
  "xs \<noteq> [] \<Longrightarrow> buildMerkleTree C xs = Inr (root, layers) \<longleftrightarrow>
     merkle_layers (hashPair C) xs = Inr layers \<and> root = hd (last layers)"
  by (auto simp: buildMerkleTree_def merkle_tree_def)

lemma computeMerkleRoot_total:
  assumes "crypto_ok C" "list_all isSha256Hex xs"
  shows "\<exists>root. computeMerkleRoot C xs = Inr root \<and> isSha256Hex root"
proof (cases "xs = []")
  case True
  with assms(1) show ?thesis
    by (simp add: computeMerkleRoot_def buildMerkleTree_def merkle_tree_def emptyHash_def
        crypto_ok_def isSha256Hex_def lower_hex_chars)
next
  case False
  obtain layers where l: "merkle_layers (hashPair C) xs = Inr layers"
    using v2.layers_total [OF valid_nodes [OF assms] False] by blast
  have "valid_node C (hd (last layers))"
    using l False valid_nodes [OF assms]
    by (induction rule: layers_induct) (auto dest: v2.levelUp_valid)
  with l False show ?thesis
    by (simp add: computeMerkleRoot_def buildMerkleTree_def merkle_tree_def valid_node_def)
qed

lemma proof_steps_length: "layers \<noteq> [] \<Longrightarrow> length (proof_steps layers i) + 1 = length layers"
  by (induction layers i rule: proof_steps.induct) auto

subsection \<open>Properties of the checkpoint tree\<close>

lemma merkle_proof_complete:
  assumes "crypto_ok C" and "list_all isSha256Hex leaves" and "0 \<le> i" and "i < int (length leaves)"
  shows "\<exists>steps root. getMerkleProof C leaves i = Inr (steps, root) \<and>
    computeMerkleRoot C leaves = Inr root \<and>
    verifyMerkleProof C (leaves ! nat i) steps root = Inr True"
proof -
  have ne: "leaves \<noteq> []" using assms(3,4) by auto
  obtain layers where l: "merkle_layers (hashPair C) leaves = Inr layers"
    using v2.layers_total [OF valid_nodes [OF assms(1,2)] ne] by blast
  have "climb (hashPair C) (leaves ! nat i) (proof_steps layers (nat i)) = Inr (Some (hd (last layers)))"
    using v2.proof_climbs [OF l ne, of "nat i"] assms(3,4) by simp
  with l ne assms(3,4) show ?thesis
    by (simp add: getMerkleProof_def computeMerkleRoot_def buildMerkleTree_def merkle_tree_def
        verifyMerkleProof_def)
qed

text \<open>Inclusion proofs are complete.  For every leaf of every non-empty list of entry hashes, of
  any length (odd levels included), \<open>getMerkleProof\<close> returns the root \<open>computeMerkleRoot\<close> computes and
  a proof that \<open>verifyMerkleProof\<close> accepts against it.\<close>

theorem merkle_proofs_verify:
  assumes "crypto_ok C" and "list_all isSha256Hex leaves" and "0 \<le> i" and "i < int (length leaves)"
  shows "\<exists>steps root. getMerkleProof C leaves i = Inr (steps, root) \<and>
    computeMerkleRoot C leaves = Inr root \<and>
    verifyMerkleProof C (leaves ! nat i) steps root = Inr True"
  using assms by (rule merkle_proof_complete)

definition sample_leaves :: "string list" where
  "sample_leaves = map (\<lambda>n. lower_hex (replicate 32 n)) [1, 2, 3]"

lemma sample_leaves_ok: "list_all isSha256Hex sample_leaves" "length sample_leaves = 3"
  by code_simp+

theorem merkle_proofs_verify_witness:
  "\<exists>steps root. getMerkleProof sample_crypto sample_leaves 2 = Inr (steps, root) \<and>
    computeMerkleRoot sample_crypto sample_leaves = Inr root \<and>
    verifyMerkleProof sample_crypto (sample_leaves ! 2) steps root = Inr True"
  using merkle_proofs_verify [OF sample_crypto_ok(1) sample_leaves_ok(1), of 2]
  by (simp add: sample_leaves_ok(2))

text \<open>C3: Inclusion proofs are sound.  A proof with one step per level that verifies against the root
  of a tree proves that the hash is one of its leaves; otherwise a pair hashed in the tree and a pair
  hashed by the verifier are an explicit SHA-256 collision.  Neither the siblings nor the directions
  of the proof are trusted.\<close>

theorem merkle_proof_sound:
  assumes "crypto_ok C" and "list_all isSha256Hex leaves" and "leaves \<noteq> []"
    and "buildMerkleTree C leaves = Inr (root, layers)"
    and "isSha256Hex leaf" and "length steps + 1 = length layers"
    and "verifyMerkleProof C leaf steps root = Inr True"
  shows "leaf \<in> set leaves \<or>
    (\<exists>p \<in> set (tree_pairs layers). \<exists>q \<in> set (path_pairs (hashPair C) leaf steps). pair_collision C p q)"
proof (rule v2.climb_sound)
  show "merkle_layers (hashPair C) leaves = Inr layers"
    using assms(3,4) by (simp add: buildMerkleTree_layers)
  show "climb (hashPair C) leaf steps = Inr (Some (hd (last layers)))"
    using assms(3,4,7) by (auto simp: buildMerkleTree_layers verifyMerkleProof_def)
qed (use assms valid_nodes in \<open>simp_all add: valid_node_def\<close>)

theorem merkle_proof_sound_witness:
  "\<exists>steps root layers. buildMerkleTree sample_crypto sample_leaves = Inr (root, layers) \<and>
     (sample_leaves ! 2 \<in> set sample_leaves \<or>
      (\<exists>p \<in> set (tree_pairs layers).
         \<exists>q \<in> set (path_pairs (hashPair sample_crypto) (sample_leaves ! 2) steps).
           pair_collision sample_crypto p q))"
proof -
  obtain steps root where g: "getMerkleProof sample_crypto sample_leaves 2 = Inr (steps, root)"
    "verifyMerkleProof sample_crypto (sample_leaves ! 2) steps root = Inr True"
    using merkle_proofs_verify [OF sample_crypto_ok(1) sample_leaves_ok(1), of 2]
    by (auto simp: sample_leaves_ok(2))
  then obtain layers where l: "buildMerkleTree sample_crypto sample_leaves = Inr (root, layers)"
    "steps = proof_steps layers 2"
    by (auto simp: getMerkleProof_def split: if_splits)
  have ne: "sample_leaves \<noteq> []" using sample_leaves_ok(2) by auto
  have "layers \<noteq> []"
    using l(1) layers_hd ne by (auto simp: buildMerkleTree_layers)
  then have "length steps + 1 = length layers" unfolding l(2) by (rule proof_steps_length)
  moreover have "isSha256Hex (sample_leaves ! 2)"
    using sample_leaves_ok by (simp add: list_all_length)
  ultimately show ?thesis
    using merkle_proof_sound [OF sample_crypto_ok(1) sample_leaves_ok(1) ne l(1) _ _ g(2)] l(1) by blast
qed

text \<open>The root commits to the leaves: two checkpoints over equally many entries with the same root
  cover the same entry hashes in the same order, or two pairs hashed in the two trees collide.\<close>

theorem merkle_root_commits:
  assumes "crypto_ok C" and "list_all isSha256Hex xs" and "list_all isSha256Hex ys"
    and "length ys = length xs"
    and "buildMerkleTree C xs = Inr (root, layers)" and "buildMerkleTree C ys = Inr (root, layers')"
  shows "xs = ys \<or> (\<exists>p\<in>set (tree_pairs layers). \<exists>q\<in>set (tree_pairs layers'). pair_collision C p q)"
proof (cases "xs = []")
  case False
  then have "ys \<noteq> []" using assms(4) by auto
  with False show ?thesis
    using assms v2.roots_bind [of C xs layers ys layers'] valid_nodes [of C]
    by (simp add: buildMerkleTree_layers)
qed (use assms(4) in simp)

theorem merkle_root_commits_witness:
  "\<exists>layers. sample_leaves = rev (rev sample_leaves) \<or>
    (\<exists>p\<in>set (tree_pairs layers). \<exists>q\<in>set (tree_pairs layers). pair_collision sample_crypto p q)"
proof -
  obtain root layers where "buildMerkleTree sample_crypto sample_leaves = Inr (root, layers)"
    using merkle_proofs_verify_witness by (auto simp: computeMerkleRoot_def)
  then show ?thesis
    using merkle_root_commits [OF sample_crypto_ok(1) sample_leaves_ok(1), of "rev (rev sample_leaves)" root
        layers layers] sample_leaves_ok(1) by auto
qed

end
