(* ===== verification/AuditStore.thy ===== *)
theory AuditStore
  imports Merkle
begin

text \<open>
  The tables of the PostgreSQL schema \<open>audit\<close> (\<open>db/migrations\<close>) as the code of the audit kernel sees
  them, with the row types of \<open>packages/audit-kernel/src/types.ts\<close> and \<open>execution/events.ts\<close>.  A
  table is the list of its rows in insertion order.  \<open>INSERT\<close> checks the constraints the migrations
  declare and throws \<open>SqlError\<close> with the SQLSTATE: 23505 for a unique or primary key, 23503 for a
  foreign key, 23514 for a check, 22003 for an integer out of range.  The append-only triggers on
  entries, checkpoints and events show in the model as the absence of any update of these tables.
\<close>

record execution_row =
  ex_id :: id
  ex_verity_record_id :: string
  ex_organization_id :: id
  ex_actor_id :: "id option"
  ex_session_id :: "id option"
  ex_skill_id :: "string option"
  ex_status :: execution_status
  ex_risk_tier :: risk_tier
  ex_policy_version :: "string option"
  ex_retention_mode :: "string option"
  ex_started_at :: int
  ex_completed_at :: "int option"
  ex_final_entry_id :: "id option"

record ledger_entry_row =
  le_id :: id
  le_organization_id :: id
  le_organization_sequence :: int
  le_execution_id :: id
  le_entry_type :: ledger_entry_type
  le_request_hash :: "string option"
  le_response_hash :: "string option"
  le_execution_graph_hash :: "string option"
  le_previous_entry_hash :: "string option"
  le_entry_hash :: string
  le_merkle_root :: "string option"
  le_kernel_version :: string
  le_hash_format_version :: string
  le_created_at :: int
  le_created_at_canonical :: string

record merkle_checkpoint_row =
  mc_id :: id
  mc_organization_id :: id
  mc_from_sequence :: int
  mc_through_sequence :: int
  mc_root :: string
  mc_leaf_hashes :: "string list"
  mc_created_at :: int

record event_row =
  ev_id :: id
  ev_organization_id :: id
  ev_execution_id :: id
  ev_event_sequence :: int
  ev_event_type :: string
  ev_status :: string
  ev_parent_event_ids :: "id list"
  ev_input_hash :: "string option"
  ev_output_hash :: "string option"
  ev_metadata :: json
  ev_occurred_at :: int
  ev_occurred_at_canonical :: string

record chain_state_row =
  cs_organization_id :: id
  cs_latest_sequence :: int
  cs_latest_entry_hash :: "string option"

record audit_world = world +
  chain_state :: "chain_state_row list"
  executions :: "execution_row list"
  ledger_entries :: "ledger_entry_row list"
  merkle_checkpoints :: "merkle_checkpoint_row list"
  execution_events :: "event_row list"

text \<open>\<open>ROLLBACK\<close> gives the tables of the start of the transaction back.\<close>

definition restore_audit ::
    "'w audit_world_scheme \<Rightarrow> 'w audit_world_scheme \<Rightarrow> 'w audit_world_scheme" where
  "restore_audit old new = new
     \<lparr>chain_state := chain_state old, executions := executions old,
      ledger_entries := ledger_entries old, merkle_checkpoints := merkle_checkpoints old,
      execution_events := execution_events old\<rparr>"

definition empty_audit :: audit_world where
  "empty_audit = \<lparr>draws = 0, chain_state = [], executions = [], ledger_entries = [],
     merkle_checkpoints = [], execution_events = []\<rparr>"

lemma restore_audit_simps [simp]:
  "chain_state (restore_audit old new) = chain_state old"
  "executions (restore_audit old new) = executions old"
  "ledger_entries (restore_audit old new) = ledger_entries old"
  "merkle_checkpoints (restore_audit old new) = merkle_checkpoints old"
  "execution_events (restore_audit old new) = execution_events old"
  "draws (restore_audit old new) = draws new"
  by (simp_all add: restore_audit_def)

text \<open>Whether an argument is a \<open>pg.Pool\<close> (\<open>instanceof\<close>) or a client inside a transaction.\<close>

datatype db_handle = Pool | PoolClient

definition unique_violation :: err where
  "unique_violation = SqlError ''23505''"

definition foreign_key_violation :: err where
  "foreign_key_violation = SqlError ''23503''"

definition check_violation :: err where
  "check_violation = SqlError ''23514''"

definition numeric_out_of_range :: err where
  "numeric_out_of_range = SqlError ''22003''"

definition invalid_text_representation :: err where
  "invalid_text_representation = SqlError ''22P02''"

definition is_pg_integer :: "int \<Rightarrow> bool" where
  "is_pg_integer i \<longleftrightarrow> - 2147483648 \<le> i \<and> i \<le> 2147483647"

lemma pg_integer_safe: "is_pg_integer i \<Longrightarrow> isSafeInteger i"
  unfolding is_pg_integer_def isSafeInteger_def by linarith

subsection \<open>Inserts with their constraints\<close>

definition insert_execution :: "execution_row \<Rightarrow> (err, 'w audit_world_scheme, execution_row) op" where
  "insert_execution row =
     bindE (getsE executions) (\<lambda>rows.
     bindE (requireE (\<forall>r\<in>set rows. ex_id r \<noteq> ex_id row \<and>
         ex_verity_record_id r \<noteq> ex_verity_record_id row) unique_violation) (\<lambda>_.
     bindE (modifyE (\<lambda>w. w\<lparr>executions := executions w @ [row]\<rparr>)) (\<lambda>_.
     ret row)))"

definition insert_ledger_entry ::
    "ledger_entry_row \<Rightarrow> (err, 'w audit_world_scheme, ledger_entry_row) op" where
  "insert_ledger_entry row =
     bindE (requireE (is_pg_integer (le_organization_sequence row)) numeric_out_of_range) (\<lambda>_.
     bindE (requireE (le_organization_sequence row > 0 \<and> le_hash_format_version row = ''2'')
       check_violation) (\<lambda>_.
     bindE (getsE ledger_entries) (\<lambda>rows.
     bindE (requireE (\<forall>r\<in>set rows. le_id r \<noteq> le_id row \<and> le_entry_hash r \<noteq> le_entry_hash row \<and>
         \<not> (le_organization_id r = le_organization_id row \<and>
            le_organization_sequence r = le_organization_sequence row)) unique_violation) (\<lambda>_.
     bindE (getsE executions) (\<lambda>execs.
     bindE (requireE (\<exists>x\<in>set execs. ex_id x = le_execution_id row) foreign_key_violation) (\<lambda>_.
     bindE (modifyE (\<lambda>w. w\<lparr>ledger_entries := ledger_entries w @ [row]\<rparr>)) (\<lambda>_.
     ret row)))))))"

definition insert_checkpoint :: "merkle_checkpoint_row \<Rightarrow> (err, 'w audit_world_scheme, unit) op" where
  "insert_checkpoint row =
     bindE (getsE merkle_checkpoints) (\<lambda>rows.
     bindE (requireE (\<forall>r\<in>set rows. mc_id r \<noteq> mc_id row \<and>
         \<not> (mc_organization_id r = mc_organization_id row \<and>
            mc_through_sequence r = mc_through_sequence row)) unique_violation) (\<lambda>_.
     modifyE (\<lambda>w. w\<lparr>merkle_checkpoints := merkle_checkpoints w @ [row]\<rparr>)))"

definition insert_event :: "event_row \<Rightarrow> (err, 'w audit_world_scheme, event_row) op" where
  "insert_event row =
     bindE (requireE (is_pg_integer (ev_event_sequence row)) numeric_out_of_range) (\<lambda>_.
     bindE (requireE (ev_event_sequence row > 0 \<and> ev_event_type row \<in> set EXECUTION_EVENT_TYPES)
       check_violation) (\<lambda>_.
     bindE (getsE execution_events) (\<lambda>rows.
     bindE (requireE (\<forall>r\<in>set rows. ev_id r \<noteq> ev_id row \<and>
         \<not> (ev_execution_id r = ev_execution_id row \<and> ev_event_sequence r = ev_event_sequence row))
       unique_violation) (\<lambda>_.
     bindE (getsE executions) (\<lambda>execs.
     bindE (requireE (\<exists>x\<in>set execs. ex_id x = ev_execution_id row \<and>
         ex_organization_id x = ev_organization_id row) foreign_key_violation) (\<lambda>_.
     bindE (modifyE (\<lambda>w. w\<lparr>execution_events := execution_events w @ [row]\<rparr>)) (\<lambda>_.
     ret row)))))))"

text \<open>\<open>INSERT ... ON CONFLICT (organization_id) DO NOTHING\<close> on \<open>audit.chain_state\<close>.\<close>

definition ensure_chain_state :: "id \<Rightarrow> (err, 'w audit_world_scheme, unit) op" where
  "ensure_chain_state org =
     bindE (getsE chain_state) (\<lambda>rows.
     whenE (\<forall>r\<in>set rows. cs_organization_id r \<noteq> org)
       (modifyE (\<lambda>w. w\<lparr>chain_state := chain_state w @
          [\<lparr>cs_organization_id = org, cs_latest_sequence = 0, cs_latest_entry_hash = None\<rparr>]\<rparr>)))"

end
