(* ===== verification/Executions.thy ===== *)
theory Executions
  imports AuditStore
begin

text \<open>
  \<open>packages/audit-kernel/src/execution/executions.ts\<close>: opening an execution, its status machine, and
  the organization-scoped lookups.  The step relation \<open>transition\<close> is the specification of the status
  machine; \<open>status_path\<close> are the histories it allows.
\<close>

definition allocateVerityRecordId :: "'a env_scheme \<Rightarrow> (err, 'w world_scheme, string) op" where
  "allocateVerityRecordId E =
     bindE (drawE (clock E)) (\<lambda>now.
     bindE (drawE (\<lambda>n. randomBytes E n 4)) (\<lambda>bytes.
     ret (''VTY-'' @ show_int (year_of_day (now div 86400000)) @ ''-'' @ toUpperCase (lower_hex bytes))))"

record open_execution_input =
  oe_organizationId :: id
  oe_actorId :: "id option"
  oe_sessionId :: "id option"
  oe_skillId :: "string option"
  oe_riskTier :: "risk_tier option"
  oe_policyVersion :: "string option"
  oe_retentionMode :: "string option"

fun TRANSITIONS :: "execution_status \<Rightarrow> execution_status list" where
  "TRANSITIONS Created = [Running, Blocked, Failed, Cancelled]"
| "TRANSITIONS Running = [WaitingApproval, Completed, Blocked, Failed, Cancelled]"
| "TRANSITIONS WaitingApproval = [Running, Completed, Blocked, Failed, Cancelled]"
| "TRANSITIONS Completed = []"
| "TRANSITIONS Failed = []"
| "TRANSITIONS Blocked = []"
| "TRANSITIONS Cancelled = []"

definition assertExecutionTransition ::
    "execution_status \<Rightarrow> execution_status \<Rightarrow> err + unit" where
  "assertExecutionTransition from to' =
     (if from = to' then Inr ()
      else assertS (to' \<in> set (TRANSITIONS from)) (TransitionError from to'))"

definition openExecution ::
    "'a env_scheme \<Rightarrow> open_execution_input \<Rightarrow> (err, 'w audit_world_scheme, execution_row) op" where
  "openExecution E input =
     bindE (drawE (randomUUID E)) (\<lambda>i.
     bindE (allocateVerityRecordId E) (\<lambda>verityRecordId.
     bindE (drawE (clock E)) (\<lambda>now.
     insert_execution
       \<lparr>ex_id = i, ex_verity_record_id = verityRecordId,
        ex_organization_id = oe_organizationId input, ex_actor_id = oe_actorId input,
        ex_session_id = oe_sessionId input, ex_skill_id = oe_skillId input, ex_status = Created,
        ex_risk_tier = (case oe_riskTier input of None \<Rightarrow> Low | Some r \<Rightarrow> r),
        ex_policy_version = oe_policyVersion input, ex_retention_mode = oe_retentionMode input,
        ex_started_at = now, ex_completed_at = None, ex_final_entry_id = None\<rparr>)))"

definition getExecution :: "id \<Rightarrow> id \<Rightarrow> (err, 'w audit_world_scheme, execution_row option) op" where
  "getExecution organizationId executionId = getsE (\<lambda>w.
     find (\<lambda>r. ex_id r = executionId \<and> ex_organization_id r = organizationId) (executions w))"

definition getExecutionByRecord ::
    "id \<Rightarrow> string \<Rightarrow> (err, 'w audit_world_scheme, execution_row option) op" where
  "getExecutionByRecord organizationId verityRecordId = getsE (\<lambda>w.
     find (\<lambda>r. ex_verity_record_id r = verityRecordId \<and> ex_organization_id r = organizationId)
       (executions w))"

definition getExecutionById :: "id \<Rightarrow> (err, 'w audit_world_scheme, execution_row option) op" where
  "getExecutionById executionId = getsE (\<lambda>w. find (\<lambda>r. ex_id r = executionId) (executions w))"

definition listExecutions :: "id \<Rightarrow> (err, 'w audit_world_scheme, execution_row list) op" where
  "listExecutions organizationId = getsE (\<lambda>w.
     sort_key (\<lambda>r. - ex_started_at r) (filter (\<lambda>r. ex_organization_id r = organizationId) (executions w)))"

text \<open>The \<open>UPDATE\<close>: \<open>COALESCE\<close> keeps the old value when the new one is null.\<close>

definition status_update ::
    "execution_status \<times> id option \<times> int option \<Rightarrow> execution_row \<Rightarrow> execution_row" where
  "status_update a r =
     (case a of (status, finalEntryId, completedAt) \<Rightarrow>
        r\<lparr>ex_status := status,
          ex_final_entry_id := (case finalEntryId of None \<Rightarrow> ex_final_entry_id r | Some i \<Rightarrow> Some i),
          ex_completed_at := (case completedAt of None \<Rightarrow> ex_completed_at r | Some t \<Rightarrow> Some t)\<rparr>)"

definition execution_not_found :: err where
  "execution_not_found = PlainError ''execution not found''"

definition setExecutionStatus ::
    "id \<Rightarrow> execution_status \<Rightarrow> id option \<Rightarrow> id option \<Rightarrow> int option \<Rightarrow>
     (err, 'w audit_world_scheme, unit) op" where
  "setExecutionStatus executionId status organizationId finalEntryId completedAt =
     bindE (case organizationId of
         Some org \<Rightarrow> if org \<noteq> '''' then getExecution org executionId else getExecutionById executionId
       | None \<Rightarrow> getExecutionById executionId) (\<lambda>row.
     bindE (expectE row execution_not_found) (\<lambda>current.
     bindE (liftE (assertExecutionTransition (ex_status current) status)) (\<lambda>_.
     bindE (requireE (organizationId \<noteq> Some '''') invalid_text_representation) (\<lambda>_.
     bindE (getsE ledger_entries) (\<lambda>entries.
     bindE (requireE (case finalEntryId of None \<Rightarrow> True | Some i \<Rightarrow> \<exists>l\<in>set entries. le_id l = i)
       foreign_key_violation) (\<lambda>_.
     bindE (getsE (\<lambda>w. count_where (\<lambda>r. ex_id r = executionId \<and>
         (organizationId = None \<or> Some (ex_organization_id r) = organizationId)) (executions w))) (\<lambda>rowCount.
     bindE (modifyE (\<lambda>w. w\<lparr>executions := update_where (\<lambda>r. ex_id r = executionId \<and>
         (organizationId = None \<or> Some (ex_organization_id r) = organizationId))
         (status_update (status, finalEntryId, completedAt)) (executions w)\<rparr>)) (\<lambda>_.
     requireE (rowCount = 1) execution_not_found))))))))"

subsection \<open>The status machine\<close>

inductive transition :: "execution_status \<Rightarrow> execution_status \<Rightarrow> bool" where
  start: "transition Created Running"
| wait: "transition Running WaitingApproval"
| resume: "transition WaitingApproval Running"
| complete: "s = Running \<or> s = WaitingApproval \<Longrightarrow> transition s Completed"
| stop: "s = Created \<or> s = Running \<or> s = WaitingApproval \<Longrightarrow>
    t = Failed \<or> t = Blocked \<or> t = Cancelled \<Longrightarrow> transition s t"

inductive_simps transition_simps: "transition s t"

definition terminal :: "execution_status \<Rightarrow> bool" where
  "terminal s \<longleftrightarrow> s \<in> {Completed, Failed, Blocked, Cancelled}"

lemma transition_iff: "transition s t \<longleftrightarrow> t \<in> set (TRANSITIONS s)"
  by (cases s; cases t) (simp_all add: transition_simps)

lemma assertExecutionTransition_iff:
  "assertExecutionTransition s t = Inr u \<longleftrightarrow> s = t \<or> transition s t"
  by (auto simp: assertExecutionTransition_def transition_iff)

lemma assertExecutionTransition_error:
  "assertExecutionTransition s t = Inl e \<longleftrightarrow> s \<noteq> t \<and> \<not> transition s t \<and> e = TransitionError s t"
  by (auto simp: assertExecutionTransition_def transition_iff)

lemma transition_terminal: "transition s t \<Longrightarrow> \<not> terminal s"
  by (auto simp: transition_simps terminal_def)

lemma path_from_terminal: "transition\<^sup>*\<^sup>* s t \<Longrightarrow> terminal s \<Longrightarrow> t = s"
  by (erule converse_rtranclpE) (auto dest: transition_terminal)

text \<open>Every execution that has not ended can still be stopped, and an ended one cannot move.\<close>

lemma terminal_iff_stuck: "terminal s \<longleftrightarrow> (\<nexists>t. transition s t)"
  by (cases s) (auto simp: terminal_def transition_simps)

interpretation executions_table: keyed_table ex_id status_update
  by unfold_locales (auto simp: status_update_def split: prod.splits)

lemma status_update_simps [simp]:
  "ex_id (status_update a r) = ex_id r"
  "ex_organization_id (status_update a r) = ex_organization_id r"
  "ex_verity_record_id (status_update a r) = ex_verity_record_id r"
  "ex_status (status_update (st, f, c) r) = st"
  by (simp_all add: status_update_def split: prod.splits)

text \<open>How the executions of a later state relate to those of an earlier one.\<close>

definition executions_evolve :: "'w audit_world_scheme \<Rightarrow> 'w audit_world_scheme \<Rightarrow> bool" where
  "executions_evolve w w' \<longleftrightarrow>
     (\<forall>r\<in>set (executions w). \<exists>r'\<in>set (executions w').
        ex_id r' = ex_id r \<and> ex_organization_id r' = ex_organization_id r \<and>
        ex_verity_record_id r' = ex_verity_record_id r \<and>
        transition\<^sup>*\<^sup>* (ex_status r) (ex_status r'))"

lemma evolve_refl [simp]: "executions_evolve w w"
  by (auto simp: executions_evolve_def)

lemma evolve_trans: "executions_evolve u v \<Longrightarrow> executions_evolve v w \<Longrightarrow> executions_evolve u w"
  unfolding executions_evolve_def by (metis rtranclp_trans)

lemma evolve_same: "executions w' = executions w \<Longrightarrow> executions_evolve w w'"
  by (auto simp: executions_evolve_def)

subsection \<open>Running the operations\<close>

definition executions_ok :: "'w audit_world_scheme \<Rightarrow> bool" where
  "executions_ok w \<longleftrightarrow> distinct (map ex_id (executions w)) \<and>
     distinct (map ex_verity_record_id (executions w))"

lemma insert_execution_Inr:
  "insert_execution row w = (Inr r, w') \<longleftrightarrow>
     r = row \<and> w' = w\<lparr>executions := executions w @ [row]\<rparr> \<and>
     (\<forall>r\<in>set (executions w). ex_id r \<noteq> ex_id row \<and> ex_verity_record_id r \<noteq> ex_verity_record_id row)"
  by (auto simp: insert_execution_def inr_iffs)

lemma openExecution_Inr:
  assumes "openExecution E input w = (Inr r, w')"
  shows "executions w' = executions w @ [r]" "ex_status r = Created"
    "ex_organization_id r = oe_organizationId input" "ex_final_entry_id r = None"
    "\<forall>x\<in>set (executions w). ex_id x \<noteq> ex_id r \<and> ex_verity_record_id x \<noteq> ex_verity_record_id r"
    "chain_state w' = chain_state w" "ledger_entries w' = ledger_entries w"
    "merkle_checkpoints w' = merkle_checkpoints w" "execution_events w' = execution_events w"
  using assms
  by (auto simp: openExecution_def allocateVerityRecordId_def inr_iffs drawE_Inr insert_execution_Inr)

lemma openExecution_Inl:
  assumes "openExecution E input w = (Inl e, w')"
  shows "e = unique_violation \<and> (\<exists>n. w' = w\<lparr>draws := n\<rparr>)"
  using assms
  by (auto simp: openExecution_def allocateVerityRecordId_def insert_execution_def run
      split: if_splits)

lemma setExecutionStatus_run:
  assumes "distinct (map ex_id (executions w))" and "org \<noteq> ''''"
  shows "setExecutionStatus i st (Some org) fin cmpl w =
    (case find (\<lambda>r. ex_id r = i \<and> ex_organization_id r = org) (executions w) of
       None \<Rightarrow> (Inl execution_not_found, w)
     | Some r \<Rightarrow>
         if ex_status r \<noteq> st \<and> \<not> transition (ex_status r) st
         then (Inl (TransitionError (ex_status r) st), w)
         else if \<exists>f. fin = Some f \<and> (\<forall>l\<in>set (ledger_entries w). le_id l \<noteq> f)
         then (Inl foreign_key_violation, w)
         else (Inr (), w\<lparr>executions := update_where (\<lambda>r. ex_id r = i) (status_update (st, fin, cmpl))
                 (executions w)\<rparr>))"
proof (cases "find (\<lambda>r. ex_id r = i \<and> ex_organization_id r = org) (executions w)")
  case None
  then show ?thesis
    using assms(2) by (simp add: setExecutionStatus_def getExecution_def run)
next
  case (Some r)
  then have r: "r \<in> set (executions w)" "ex_id r = i" "ex_organization_id r = org"
    by (auto dest: find_SomeD)
  have one: "filter (\<lambda>x. ex_id x = i) (executions w) = [r]"
    using filter_key_unique [OF assms(1) r(1)] r(2) by simp
  have only: "x = r" if "x \<in> set (executions w)" "ex_id x = i" for x
  proof -
    have "x \<in> set (filter (\<lambda>x. ex_id x = i) (executions w))" using that by simp
    then show ?thesis by (simp add: one)
  qed
  have sel: "filter (\<lambda>x. ex_id x = i \<and> ex_organization_id x = org) (executions w) = [r]"
    unfolding one [symmetric] by (rule filter_cong) (use only r(3) in auto)
  have upd: "update_where (\<lambda>x. ex_id x = i \<and> ex_organization_id x = org) u (executions w) =
      update_where (\<lambda>x. ex_id x = i) u (executions w)" for u
    unfolding update_where_def by (rule map_cong) (use only r(3) in auto)
  have tr: "assertExecutionTransition (ex_status r) st =
      (if ex_status r \<noteq> st \<and> \<not> transition (ex_status r) st
       then Inl (TransitionError (ex_status r) st) else Inr ())"
    by (auto simp: assertExecutionTransition_def transition_iff assertS_def)
  show ?thesis
    using Some assms(2)
    by (auto simp: setExecutionStatus_def getExecution_def run count_where_def sel upd tr
        split: option.splits)
qed

lemma key_only:
  assumes "distinct (map ex_id rows)" "r \<in> set rows" "x \<in> set rows" "ex_id x = ex_id r"
  shows "x = r"
  using assms by (simp add: distinct_map inj_on_def)

text \<open>Either nothing changes and an error is thrown, or one execution makes an allowed move.\<close>

lemma setExecutionStatus_cases:
  assumes "setExecutionStatus i st org fin cmpl w = (res, w')" "executions_ok w"
  obtains e where "res = Inl e" "w' = w"
  | r where "res = Inr ()" "r \<in> set (executions w)" "ex_id r = i"
      "org = None \<or> org = Some (ex_organization_id r)"
      "ex_status r = st \<or> transition (ex_status r) st"
      "w' = w\<lparr>executions := update_where (\<lambda>x. ex_id x = i) (status_update (st, fin, cmpl)) (executions w)\<rparr>"
proof (cases res)
  case (Inr u)
  let ?p = "\<lambda>r. ex_id r = i \<and> (org = None \<or> Some (ex_organization_id r) = org)"
  from assms(1) Inr obtain r where r: "r \<in> set (executions w)" "?p r"
    "ex_status r = st \<or> transition (ex_status r) st"
    "w' = w\<lparr>executions := update_where ?p (status_update (st, fin, cmpl)) (executions w)\<rparr>"
    by (auto simp: setExecutionStatus_def getExecution_def getExecutionById_def inr_iffs
        assertExecutionTransition_iff split: option.splits if_splits dest!: find_SomeD)
  have "update_where ?p u (executions w) = update_where (\<lambda>x. ex_id x = i) u (executions w)" for u
    unfolding update_where_def
    by (rule map_cong) (use assms(2) r key_only in \<open>auto simp: executions_ok_def\<close>)
  with r Inr show ?thesis using that(2) [of r] by auto
next
  case (Inl e)
  let ?p = "\<lambda>r. ex_id r = i \<and> (org = None \<or> Some (ex_organization_id r) = org)"
  have one: "count_where ?p (executions w) = 1" if "r \<in> set (executions w)" "?p r" for r
  proof -
    have "filter ?p (executions w) = filter (\<lambda>x. ex_id x = ex_id r) (executions w)"
      by (rule filter_cong) (use assms(2) that key_only in \<open>auto simp: executions_ok_def\<close>)
    then show ?thesis
      using filter_key_unique [of ex_id "executions w" r] assms(2) that(1)
      by (simp add: executions_ok_def count_where_def)
  qed
  have "w' = w"
    using assms(1) Inl one
    by (auto simp: setExecutionStatus_def getExecution_def getExecutionById_def inr_iffs inl_iffs
        split: option.splits if_splits dest!: find_SomeD)
  with Inl that(1) show ?thesis by blast
qed

lemma setExecutionStatus_keeps:
  assumes "setExecutionStatus i st org fin cmpl w = (res, w')" "executions_ok w"
  shows "executions_ok w'" "executions_evolve w w'" "map ex_id (executions w') = map ex_id (executions w)"
    "map ex_organization_id (executions w') = map ex_organization_id (executions w)"
    "\<exists>xs. w' = w\<lparr>executions := xs\<rparr>"
proof -
  have move: "executions_evolve w (w\<lparr>executions := update_where (\<lambda>x. ex_id x = ex_id r)
        (status_update (st, fin, cmpl)) (executions w)\<rparr>)"
    if r: "r \<in> set (executions w)" "ex_status r = st \<or> transition (ex_status r) st" for r
    unfolding executions_evolve_def
  proof
    fix x assume x: "x \<in> set (executions w)"
    let ?x' = "if ex_id x = ex_id r then status_update (st, fin, cmpl) x else x"
    have "transition\<^sup>*\<^sup>* (ex_status x) (ex_status ?x')"
      using key_only [of "executions w" r x] assms(2) r x by (auto simp: executions_ok_def)
    moreover have "?x' \<in> set (executions (w\<lparr>executions := update_where (\<lambda>x. ex_id x = ex_id r)
        (status_update (st, fin, cmpl)) (executions w)\<rparr>))"
      using x by (auto simp: update_where_def)
    ultimately show "\<exists>r'\<in>set (executions (w\<lparr>executions := update_where (\<lambda>x. ex_id x = ex_id r)
        (status_update (st, fin, cmpl)) (executions w)\<rparr>)).
        ex_id r' = ex_id x \<and> ex_organization_id r' = ex_organization_id x \<and>
        ex_verity_record_id r' = ex_verity_record_id x \<and>
        transition\<^sup>*\<^sup>* (ex_status x) (ex_status r')"
      by (intro bexI [of _ ?x']) auto
  qed
  have maps: "map ex_verity_record_id (update_where p (status_update a) rows) = map ex_verity_record_id rows"
    "map ex_organization_id (update_where p (status_update a) rows) = map ex_organization_id rows"
    for p a rows
    by (simp_all add: update_where_def)
  from assms show "executions_ok w'" "executions_evolve w w'"
    "map ex_id (executions w') = map ex_id (executions w)"
    "map ex_organization_id (executions w') = map ex_organization_id (executions w)"
    "\<exists>xs. w' = w\<lparr>executions := xs\<rparr>"
    using move
    by (auto elim!: setExecutionStatus_cases
        simp: executions_ok_def executions_table.keys_update maps intro: exI [of _ "executions w"])
qed

lemma openExecution_keeps:
  assumes "openExecution E input w = (res, w')" "executions_ok w"
  shows "executions_ok w'" "executions_evolve w w'"
proof -
  show "executions_ok w'"
    using assms openExecution_Inr [of E input w _ w'] openExecution_Inl [of E input w _ w']
    by (cases res) (auto simp: executions_ok_def)
  show "executions_evolve w w'"
    using assms openExecution_Inr [of E input w _ w'] openExecution_Inl [of E input w _ w']
    by (cases res) (auto simp: executions_evolve_def)
qed

subsection \<open>Properties\<close>


definition sample_execution :: execution_row where
  "sample_execution = \<lparr>ex_id = ''e1'', ex_verity_record_id = ''VTY-2026-00000001'',
     ex_organization_id = ''org'', ex_actor_id = None, ex_session_id = None, ex_skill_id = None,
     ex_status = Running, ex_risk_tier = Low, ex_policy_version = None, ex_retention_mode = None,
     ex_started_at = 0, ex_completed_at = None, ex_final_entry_id = None\<rparr>"


text \<open>Ended executions stay ended: no update of an execution's status, with or without an
  organization, moves any execution out of a terminal status, changes its organization or its
  record id, or makes it disappear.\<close>

theorem setExecutionStatus_terminal:
  assumes "setExecutionStatus i st org fin cmpl w = (res, w')" and "executions_ok w"
    and "r \<in> set (executions w)" and "terminal (ex_status r)"
  shows "\<exists>r'\<in>set (executions w'). ex_id r' = ex_id r \<and> ex_status r' = ex_status r \<and>
    ex_organization_id r' = ex_organization_id r \<and> ex_verity_record_id r' = ex_verity_record_id r"
  using setExecutionStatus_keeps(2) [OF assms(1,2)] assms(3,4) path_from_terminal
  unfolding executions_evolve_def by metis

theorem setExecutionStatus_terminal_witness:
  "\<exists>r'\<in>set (executions (snd (setExecutionStatus ''e1'' Running None None None
        (empty_audit\<lparr>executions := [sample_execution\<lparr>ex_status := Blocked\<rparr>]\<rparr>)))).
     ex_id r' = ''e1'' \<and> ex_status r' = Blocked"
  using setExecutionStatus_terminal
      [OF surjective_pairing [of "setExecutionStatus ''e1'' Running None None None
         (empty_audit\<lparr>executions := [sample_execution\<lparr>ex_status := Blocked\<rparr>]\<rparr>)"],
       of "sample_execution\<lparr>ex_status := Blocked\<rparr>"]
  by (auto simp: executions_ok_def sample_execution_def empty_audit_def terminal_def)

end
