(* ===== verification/Ledger.thy ===== *)
theory Ledger
  imports Executions
begin

text \<open>
  \<open>packages/audit-kernel/src/ledger/append.ts\<close>: the append-only, hash-chained ledger of an
  organization with its Merkle checkpoints.  \<open>appendLedgerEntryInTransaction\<close> follows the code
  statement by statement; \<open>appendLedgerEntry\<close> wraps it in a transaction on a pool.  The abstract
  view is \<open>chain_from\<close>: the entries of one organization, in insertion order, number 1, 2, 3, ... and
  each hashes its fields and the hash of the one before.  \<open>ledger_inv\<close> says that every organization's
  part of the database is such a chain, that \<open>chain_state\<close> holds its end, and that every checkpoint
  is the root over the entries it names.
\<close>

record append_ledger_input =
  al_organizationId :: id
  al_executionId :: id
  al_entryType :: ledger_entry_type
  al_requestHash :: "string option"
  al_responseHash :: "string option"
  al_executionGraphHash :: "string option"
  al_merkleSnapshotInterval :: "int option"
  al_createdAtCanonical :: "string option"
  al_kernelVersion :: "string option"
  al_executionStatus :: "execution_status option"

definition DEFAULT_MERKLE_INTERVAL :: "'a env_scheme \<Rightarrow> int option" where
  "DEFAULT_MERKLE_INTERVAL E =
     parseInt10 (case AUDIT_MERKLE_INTERVAL E of None \<Rightarrow> ''10'' | Some s \<Rightarrow> s)"

definition assertIsPool :: "db_handle \<Rightarrow> err + unit" where
  "assertIsPool db = assertS (db = Pool)
     (PlainError ''appendLedgerEntry requires a Pool and always opens its own transaction.'')"

text \<open>The checkpoint that closes at the new entry, if one does: first sequence, leaves and root.\<close>

definition checkpoint_at ::
    "'a env_scheme \<Rightarrow> id \<Rightarrow> int option \<Rightarrow> int \<Rightarrow> string \<Rightarrow>
     (err, 'w audit_world_scheme, (int \<times> string list \<times> string) option) op" where
  "checkpoint_at E org interval nextSequence entryHash =
     (case interval of
        None \<Rightarrow> ret None
      | Some k \<Rightarrow>
          if k > 0 \<and> nextSequence mod k = 0 then
            (let fromSequence = nextSequence - k + 1 in
             bindE (getsE (\<lambda>w. sort_key le_organization_sequence
               (filter (\<lambda>e. le_organization_id e = org \<and> fromSequence \<le> le_organization_sequence e \<and>
                  le_organization_sequence e < nextSequence) (ledger_entries w)))) (\<lambda>prior.
             let checkpointLeaves = map le_entry_hash prior @ [entryHash] in
             bindE (liftE (computeMerkleRoot E checkpointLeaves)) (\<lambda>merkleRoot.
             bindE (liftE (assertSha256Hex ''merkle_root'' (Some merkleRoot))) (\<lambda>_.
             ret (Some (fromSequence, checkpointLeaves, merkleRoot))))))
          else ret None)"

text \<open>The status the entry moves its execution to.\<close>

definition update_execution_for_entry ::
    "append_ledger_input \<Rightarrow> id \<Rightarrow> int \<Rightarrow> (err, 'w audit_world_scheme, unit) op" where
  "update_execution_for_entry input entryId createdAt =
     (let org = Some (al_organizationId input);
          status = (\<lambda>d. case al_executionStatus input of None \<Rightarrow> d | Some s \<Rightarrow> s) in
      case al_entryType input of
        RequestOpened \<Rightarrow> setExecutionStatus (al_executionId input) (status Running) org None None
      | ApprovalRequested \<Rightarrow>
          setExecutionStatus (al_executionId input) (status WaitingApproval) org None None
      | FinalEntry \<Rightarrow> setExecutionStatus (al_executionId input) (status Completed) org
          (Some entryId) (Some createdAt)
      | FailureEntry \<Rightarrow> setExecutionStatus (al_executionId input) (status Failed) org
          (Some entryId) (Some createdAt)
      | ActionCompleted \<Rightarrow> ret ())"

definition advance_chain :: "int \<times> string \<Rightarrow> chain_state_row \<Rightarrow> chain_state_row" where
  "advance_chain a r =
     r\<lparr>cs_latest_sequence := fst a, cs_latest_entry_hash := Some (snd a)\<rparr>"

interpretation chain_state_table: keyed_table cs_organization_id advance_chain
  by unfold_locales (simp add: advance_chain_def)

definition invalid_datetime :: err where
  "invalid_datetime = SqlError ''22007''"

definition appendLedgerEntryInTransaction ::
    "'a env_scheme \<Rightarrow> append_ledger_input \<Rightarrow> (err, 'w audit_world_scheme, ledger_entry_row) op" where
  "appendLedgerEntryInTransaction E input =
     bindE (liftE (assertLedgerHashFields (al_requestHash input) (al_responseHash input)
       (al_executionGraphHash input))) (\<lambda>_.
     bindE (case al_createdAtCanonical input of
         None \<Rightarrow> canonicalTimestampNow E | Some t \<Rightarrow> ret t) (\<lambda>createdAtCanonical.
     bindE (liftE (assertCanonicalUtcTimestamp ''created_at_canonical'' createdAtCanonical)) (\<lambda>_.
     bindE (ensure_chain_state (al_organizationId input)) (\<lambda>_.
     bindE (getsE (\<lambda>w. find (\<lambda>r. cs_organization_id r = al_organizationId input) (chain_state w))) (\<lambda>state.
     bindE (expectE state (PlainError ''chain_state missing'')) (\<lambda>locked.
     let nextSequence = cs_latest_sequence locked + 1;
         previousEntryHash = cs_latest_entry_hash locked;
         kernelVersion = (case al_kernelVersion input of None \<Rightarrow> KERNEL_VERSION | Some v \<Rightarrow> v) in
     bindE (liftE (assertSha256Hex ''previous_entry_hash'' previousEntryHash)) (\<lambda>_.
     bindE (liftE (computeEntryHash E (buildHashPayload
       \<lparr>hf_organizationId = al_organizationId input, hf_ledgerSequence = nextSequence,
        hf_executionId = al_executionId input, hf_entryType = al_entryType input,
        hf_requestHash = al_requestHash input, hf_responseHash = al_responseHash input,
        hf_executionGraphHash = al_executionGraphHash input, hf_previousEntryHash = previousEntryHash,
        hf_kernelVersion = Some kernelVersion, hf_createdAtCanonical = createdAtCanonical\<rparr>))) (\<lambda>entryHash.
     bindE (liftE (assertSha256Hex ''entry_hash'' (Some entryHash))) (\<lambda>_.
     bindE (drawE (randomUUID E)) (\<lambda>i.
     bindE (checkpoint_at E (al_organizationId input)
       (case al_merkleSnapshotInterval input of None \<Rightarrow> DEFAULT_MERKLE_INTERVAL E | Some k \<Rightarrow> Some k)
       nextSequence entryHash) (\<lambda>checkpoint.
     bindE (expectE (date_parse createdAtCanonical) invalid_datetime) (\<lambda>createdAt.
     bindE (insert_ledger_entry
       \<lparr>le_id = i, le_organization_id = al_organizationId input,
        le_organization_sequence = nextSequence, le_execution_id = al_executionId input,
        le_entry_type = al_entryType input, le_request_hash = al_requestHash input,
        le_response_hash = al_responseHash input, le_execution_graph_hash = al_executionGraphHash input,
        le_previous_entry_hash = previousEntryHash, le_entry_hash = entryHash,
        le_merkle_root = map_option (\<lambda>c. snd (snd c)) checkpoint, le_kernel_version = kernelVersion,
        le_hash_format_version = HASH_FORMAT_VERSION, le_created_at = createdAt,
        le_created_at_canonical = createdAtCanonical\<rparr>) (\<lambda>row.
     bindE (modifyE (\<lambda>w. w\<lparr>chain_state := update_where
       (\<lambda>r. cs_organization_id r = al_organizationId input)
       (advance_chain (nextSequence, entryHash)) (chain_state w)\<rparr>)) (\<lambda>_.
     bindE (case checkpoint of
         None \<Rightarrow> ret ()
       | Some (fromSequence, checkpointLeaves, merkleRoot) \<Rightarrow>
           bindE (drawE (randomUUID E)) (\<lambda>checkpointId.
           insert_checkpoint
             \<lparr>mc_id = checkpointId, mc_organization_id = al_organizationId input,
              mc_from_sequence = fromSequence, mc_through_sequence = nextSequence,
              mc_root = merkleRoot, mc_leaf_hashes = checkpointLeaves, mc_created_at = createdAt\<rparr>)) (\<lambda>_.
     bindE (update_execution_for_entry input (le_id row) createdAt) (\<lambda>_.
     ret row))))))))))))))))"

definition appendLedgerEntry ::
    "'a env_scheme \<Rightarrow> db_handle \<Rightarrow> append_ledger_input \<Rightarrow>
     (err, 'w audit_world_scheme, ledger_entry_row) op" where
  "appendLedgerEntry E db input =
     bindE (liftE (assertIsPool db)) (\<lambda>_.
     txnE restore_audit (appendLedgerEntryInTransaction E input))"

definition getLedgerEntries :: "id \<Rightarrow> (err, 'w audit_world_scheme, ledger_entry_row list) op" where
  "getLedgerEntries organizationId = getsE (\<lambda>w. sort_key le_organization_sequence
     (filter (\<lambda>e. le_organization_id e = organizationId) (ledger_entries w)))"

definition getMerkleCheckpoints ::
    "id \<Rightarrow> (err, 'w audit_world_scheme, merkle_checkpoint_row list) op" where
  "getMerkleCheckpoints organizationId = getsE (\<lambda>w. sort_key mc_through_sequence
     (filter (\<lambda>c. mc_organization_id c = organizationId) (merkle_checkpoints w)))"

subsection \<open>The chain of an organization\<close>

text \<open>The hashed fields of a stored entry.\<close>

definition entry_fields :: "ledger_entry_row \<Rightarrow> hash_field_input" where
  "entry_fields e =
     \<lparr>hf_organizationId = le_organization_id e, hf_ledgerSequence = le_organization_sequence e,
      hf_executionId = le_execution_id e, hf_entryType = le_entry_type e,
      hf_requestHash = le_request_hash e, hf_responseHash = le_response_hash e,
      hf_executionGraphHash = le_execution_graph_hash e,
      hf_previousEntryHash = le_previous_entry_hash e, hf_kernelVersion = Some (le_kernel_version e),
      hf_createdAtCanonical = le_created_at_canonical e\<rparr>"

definition entry_ok :: "'a crypto_scheme \<Rightarrow> ledger_entry_row \<Rightarrow> bool" where
  "entry_ok C e \<longleftrightarrow>
     computeEntryHash C (buildHashPayload (entry_fields e)) = Inr (le_entry_hash e) \<and>
     le_hash_format_version e = HASH_FORMAT_VERSION \<and> isSha256Hex (le_entry_hash e) \<and>
     date_parse (le_created_at_canonical e) = Some (le_created_at e) \<and>
     (\<forall>h. le_request_hash e = Some h \<or> le_response_hash e = Some h \<or>
        le_execution_graph_hash e = Some h \<longrightarrow> isSha256Hex h)"

fun chain_from ::
    "'a crypto_scheme \<Rightarrow> id \<Rightarrow> int \<Rightarrow> string option \<Rightarrow> ledger_entry_row list \<Rightarrow> bool" where
  "chain_from C org n prev [] = True"
| "chain_from C org n prev (e # es) \<longleftrightarrow>
     le_organization_id e = org \<and> le_organization_sequence e = n \<and> le_previous_entry_hash e = prev \<and>
     entry_ok C e \<and> chain_from C org (n + 1) (Some (le_entry_hash e)) es"

definition entries_of :: "id \<Rightarrow> 'w audit_world_scheme \<Rightarrow> ledger_entry_row list" where
  "entries_of org w = filter (\<lambda>e. le_organization_id e = org) (ledger_entries w)"

definition chain_end :: "string option \<Rightarrow> ledger_entry_row list \<Rightarrow> string option" where
  "chain_end prev es = (if es = [] then prev else Some (le_entry_hash (last es)))"

lemma chain_end_simps [simp]:
  "chain_end prev [] = prev"
  "chain_end prev (e # es) = chain_end (Some (le_entry_hash e)) es"
  "chain_end prev (es @ [e]) = Some (le_entry_hash e)"
  by (simp_all add: chain_end_def)

lemma chain_from_append:
  "chain_from C org n prev (es @ fs) \<longleftrightarrow>
     chain_from C org n prev es \<and> chain_from C org (n + int (length es)) (chain_end prev es) fs"
  by (induction es arbitrary: n prev) (auto simp: algebra_simps)

lemma chain_from_seq: "chain_from C org n prev es \<Longrightarrow> i < length es \<Longrightarrow>
  le_organization_sequence (es ! i) = n + int i"
proof (induction es arbitrary: n prev i)
  case (Cons e es)
  then show ?case by (cases i) auto
qed simp

lemma chain_from_mem:
  "chain_from C org n prev es \<Longrightarrow> e \<in> set es \<Longrightarrow>
   entry_ok C e \<and> le_organization_id e = org \<and>
   n \<le> le_organization_sequence e \<and> le_organization_sequence e < n + int (length es)"
  by (induction es arbitrary: n prev) fastforce+

lemma chain_from_sorted: "chain_from C org n prev es \<Longrightarrow> sorted (map le_organization_sequence es)"
  by (auto simp: sorted_iff_nth_mono chain_from_seq)

lemma chain_from_distinct: "chain_from C org n prev es \<Longrightarrow> distinct (map le_organization_sequence es)"
  by (auto simp: distinct_conv_nth chain_from_seq)

subsection \<open>What a successful append does\<close>

lemma insert_ledger_entry_Inr:
  "insert_ledger_entry row w = (Inr r, w') \<longleftrightarrow>
     r = row \<and> w' = w\<lparr>ledger_entries := ledger_entries w @ [row]\<rparr> \<and>
     is_pg_integer (le_organization_sequence row) \<and> le_organization_sequence row > 0 \<and>
     le_hash_format_version row = ''2'' \<and>
     (\<forall>r\<in>set (ledger_entries w). le_id r \<noteq> le_id row \<and> le_entry_hash r \<noteq> le_entry_hash row \<and>
        \<not> (le_organization_id r = le_organization_id row \<and>
           le_organization_sequence r = le_organization_sequence row)) \<and>
     (\<exists>x\<in>set (executions w). ex_id x = le_execution_id row)"
  by (auto simp: insert_ledger_entry_def inr_iffs)

lemma insert_checkpoint_Inr:
  "insert_checkpoint row w = (Inr u, w') \<longleftrightarrow>
     w' = w\<lparr>merkle_checkpoints := merkle_checkpoints w @ [row]\<rparr> \<and>
     (\<forall>r\<in>set (merkle_checkpoints w). mc_id r \<noteq> mc_id row \<and>
        \<not> (mc_organization_id r = mc_organization_id row \<and>
           mc_through_sequence r = mc_through_sequence row))"
  by (auto simp: insert_checkpoint_def inr_iffs)

lemma checkpoint_at_Inr:
  assumes "checkpoint_at E org interval n h w = (Inr c, w')"
  shows "w' = w"
    and "c = Some (from, leaves, root) \<Longrightarrow> \<exists>k > 0. interval = Some k \<and> n mod k = 0 \<and> from = n - k + 1 \<and>
      leaves = map le_entry_hash (sort_key le_organization_sequence
        (filter (\<lambda>e. le_organization_id e = org \<and> from \<le> le_organization_sequence e \<and>
           le_organization_sequence e < n) (ledger_entries w))) @ [h] \<and>
      computeMerkleRoot E leaves = Inr root"
  using assms by (auto simp: checkpoint_at_def Let_def inr_iffs split: option.splits if_splits)

text \<open>The end of an organization's chain as \<open>chain_state\<close> records it.\<close>

definition latest_of :: "id \<Rightarrow> 'w audit_world_scheme \<Rightarrow> int \<times> string option" where
  "latest_of org w =
     (case find (\<lambda>r. cs_organization_id r = org) (chain_state w) of
        None \<Rightarrow> (0, None)
      | Some cs \<Rightarrow> (cs_latest_sequence cs, cs_latest_entry_hash cs))"

definition new_chain_state :: "id \<Rightarrow> int \<times> string \<Rightarrow> chain_state_row list \<Rightarrow> chain_state_row list" where
  "new_chain_state org a rows =
     (if \<forall>r\<in>set rows. cs_organization_id r \<noteq> org
      then rows @ [\<lparr>cs_organization_id = org, cs_latest_sequence = fst a,
             cs_latest_entry_hash = Some (snd a)\<rparr>]
      else update_where (\<lambda>r. cs_organization_id r = org) (advance_chain a) rows)"

lemma update_where_none: "(\<And>r. r \<in> set rows \<Longrightarrow> \<not> p r) \<Longrightarrow> update_where p u rows = rows"
  unfolding update_where_def by (rule map_idI) simp

lemma ensure_chain_state_Inr:
  assumes "ensure_chain_state org w = (Inr u, w')"
    and "find (\<lambda>r. cs_organization_id r = org) (chain_state w') = Some cs"
  shows "latest_of org w = (cs_latest_sequence cs, cs_latest_entry_hash cs)"
    "update_where (\<lambda>r. cs_organization_id r = org) (advance_chain a) (chain_state w') =
      new_chain_state org a (chain_state w)"
    "ledger_entries w' = ledger_entries w" "executions w' = executions w"
    "merkle_checkpoints w' = merkle_checkpoints w" "execution_events w' = execution_events w"
proof -
  show "latest_of org w = (cs_latest_sequence cs, cs_latest_entry_hash cs)"
    using assms
    by (auto simp: ensure_chain_state_def inr_iffs latest_of_def find_append find_None_iff2
        split: if_splits option.splits dest: find_SomeD)
  show "update_where (\<lambda>r. cs_organization_id r = org) (advance_chain a) (chain_state w') =
      new_chain_state org a (chain_state w)"
  proof (cases "\<forall>r\<in>set (chain_state w). cs_organization_id r \<noteq> org")
    case True
    with assms(1) have "chain_state w' = chain_state w @
        [\<lparr>cs_organization_id = org, cs_latest_sequence = 0, cs_latest_entry_hash = None\<rparr>]"
      by (auto simp: ensure_chain_state_def inr_iffs)
    with True show ?thesis
      by (simp add: new_chain_state_def update_where_def advance_chain_def map_idI)
  next
    case False
    then show ?thesis using assms(1) by (auto simp: ensure_chain_state_def inr_iffs new_chain_state_def)
  qed
qed (use assms in \<open>auto simp: ensure_chain_state_def inr_iffs split: if_splits\<close>)

lemma update_execution_for_entry_keeps:
  assumes "update_execution_for_entry input i t w = (res, w')" "executions_ok w"
  shows "executions_ok w'" "executions_evolve w w'" "map ex_id (executions w') = map ex_id (executions w)"
    "map ex_organization_id (executions w') = map ex_organization_id (executions w)"
    "\<exists>xs. w' = w\<lparr>executions := xs\<rparr>"
  using assms
  by (auto simp: update_execution_for_entry_def Let_def run split: ledger_entry_type.splits
      dest: setExecutionStatus_keeps intro: exI [of _ "executions w"])

lemma timestamp_choice_Inr:
  assumes "(case o1 of None \<Rightarrow> canonicalTimestampNow E | Some t \<Rightarrow> ret t) w = (Inr ts, w')"
  shows "\<exists>n. w' = w\<lparr>draws := n\<rparr>" "o1 = Some t \<Longrightarrow> ts = t"
  using assms
  by (auto simp: canonicalTimestampNow_def drawE_Inr inr_iffs split: option.splits
      intro: exI [of _ "draws w"])

definition appended ::
    "'a env_scheme \<Rightarrow> append_ledger_input \<Rightarrow> 'w audit_world_scheme \<Rightarrow> ledger_entry_row \<Rightarrow>
     'w audit_world_scheme \<Rightarrow> bool" where
  "appended E input w row w' \<longleftrightarrow>
     le_organization_id row = al_organizationId input \<and>
     le_organization_sequence row = fst (latest_of (al_organizationId input) w) + 1 \<and>
     le_previous_entry_hash row = snd (latest_of (al_organizationId input) w) \<and>
     le_execution_id row = al_executionId input \<and> le_entry_type row = al_entryType input \<and>
     le_request_hash row = al_requestHash input \<and> le_response_hash row = al_responseHash input \<and>
     le_execution_graph_hash row = al_executionGraphHash input \<and>
     (\<forall>t. al_createdAtCanonical input = Some t \<longrightarrow> le_created_at_canonical row = t) \<and>
     entry_ok E row \<and>
     (\<forall>r\<in>set (ledger_entries w). le_id r \<noteq> le_id row \<and> le_entry_hash r \<noteq> le_entry_hash row) \<and>
     (\<exists>x\<in>set (executions w). ex_id x = le_execution_id row) \<and>
     ledger_entries w' = ledger_entries w @ [row] \<and>
     chain_state w' = new_chain_state (al_organizationId input)
       (le_organization_sequence row, le_entry_hash row) (chain_state w) \<and>
     execution_events w' = execution_events w"

definition interval_of :: "'a env_scheme \<Rightarrow> append_ledger_input \<Rightarrow> int option" where
  "interval_of E input =
     (case al_merkleSnapshotInterval input of None \<Rightarrow> DEFAULT_MERKLE_INTERVAL E | Some k \<Rightarrow> Some k)"

definition closes_checkpoint :: "int option \<Rightarrow> int \<Rightarrow> bool" where
  "closes_checkpoint interval n \<longleftrightarrow> (\<exists>k. interval = Some k \<and> k > 0 \<and> n mod k = 0)"

text \<open>The checkpoint row that is written beside an entry, if one is.\<close>

definition checkpointed ::
    "'a env_scheme \<Rightarrow> append_ledger_input \<Rightarrow> 'w audit_world_scheme \<Rightarrow> ledger_entry_row \<Rightarrow>
     'w audit_world_scheme \<Rightarrow> bool" where
  "checkpointed E input w row w' \<longleftrightarrow>
     (if closes_checkpoint (interval_of E input) (le_organization_sequence row) then
        \<exists>c. merkle_checkpoints w' = merkle_checkpoints w @ [c] \<and>
          mc_organization_id c = al_organizationId input \<and>
          mc_through_sequence c = le_organization_sequence row \<and>
          mc_from_sequence c = le_organization_sequence row - the (interval_of E input) + 1 \<and>
          mc_leaf_hashes c = map le_entry_hash (sort_key le_organization_sequence
            (filter (\<lambda>e. le_organization_id e = al_organizationId input \<and>
               mc_from_sequence c \<le> le_organization_sequence e \<and>
               le_organization_sequence e < le_organization_sequence row) (ledger_entries w))) @
            [le_entry_hash row] \<and>
          computeMerkleRoot E (mc_leaf_hashes c) = Inr (mc_root c) \<and>
          le_merkle_root row = Some (mc_root c)
      else merkle_checkpoints w' = merkle_checkpoints w \<and> le_merkle_root row = None)"

lemma append_Inr:
  assumes "appendLedgerEntryInTransaction E input w = (Inr row, w')" and "executions_ok w"
  shows "appended E input w row w'" "checkpointed E input w row w'" "executions_ok w'"
    "executions_evolve w w'" "map ex_id (executions w') = map ex_id (executions w)"
    "map ex_organization_id (executions w') = map ex_organization_id (executions w)"
    "\<exists>v t. executions v = executions w \<and> update_execution_for_entry input (le_id row) t v = (Inr (), w')"
proof -
  let ?org = "al_organizationId input"
  let ?kv = "case al_kernelVersion input of None \<Rightarrow> KERNEL_VERSION | Some v \<Rightarrow> v"
  from assms(1) obtain ts w1 w2 cs h i w3 c t w4 w5 w6 u1 u2 u3 u4 u5 u6 u7 where
    flds: "assertLedgerHashFields (al_requestHash input) (al_responseHash input)
       (al_executionGraphHash input) = Inr u1"
    and ts: "(case al_createdAtCanonical input of None \<Rightarrow> canonicalTimestampNow E | Some t \<Rightarrow> ret t) w =
      (Inr ts, w1)"
    and tsok: "assertCanonicalUtcTimestamp ''created_at_canonical'' ts = Inr u2"
    and ens: "ensure_chain_state ?org w1 = (Inr u3, w2)"
    and cs: "find (\<lambda>r. cs_organization_id r = ?org) (chain_state w2) = Some cs"
    and pok: "assertSha256Hex ''previous_entry_hash'' (cs_latest_entry_hash cs) = Inr u4"
    and hash: "computeEntryHash E (buildHashPayload
       \<lparr>hf_organizationId = ?org, hf_ledgerSequence = cs_latest_sequence cs + 1,
        hf_executionId = al_executionId input, hf_entryType = al_entryType input,
        hf_requestHash = al_requestHash input, hf_responseHash = al_responseHash input,
        hf_executionGraphHash = al_executionGraphHash input,
        hf_previousEntryHash = cs_latest_entry_hash cs,
        hf_kernelVersion = Some ?kv, hf_createdAtCanonical = ts\<rparr>) = Inr h"
    and hok: "assertSha256Hex ''entry_hash'' (Some h) = Inr u5"
    and uuid: "drawE (randomUUID E) w2 = (Inr i :: err + id, w3)"
    and cp: "checkpoint_at E ?org (case al_merkleSnapshotInterval input of
         None \<Rightarrow> DEFAULT_MERKLE_INTERVAL E | Some k \<Rightarrow> Some k) (cs_latest_sequence cs + 1) h w3 = (Inr c, w4)"
    and t: "date_parse ts = Some t"
    and ins: "insert_ledger_entry
       \<lparr>le_id = i, le_organization_id = ?org, le_organization_sequence = cs_latest_sequence cs + 1,
        le_execution_id = al_executionId input, le_entry_type = al_entryType input,
        le_request_hash = al_requestHash input, le_response_hash = al_responseHash input,
        le_execution_graph_hash = al_executionGraphHash input,
        le_previous_entry_hash = cs_latest_entry_hash cs, le_entry_hash = h,
        le_merkle_root = map_option (\<lambda>c. snd (snd c)) c, le_kernel_version = ?kv,
        le_hash_format_version = HASH_FORMAT_VERSION, le_created_at = t,
        le_created_at_canonical = ts\<rparr> w4 = (Inr row, w5)"
    and cpi: "(case c of
         None \<Rightarrow> ret ()
       | Some (fromSequence, checkpointLeaves, merkleRoot) \<Rightarrow>
           bindE (drawE (randomUUID E)) (\<lambda>checkpointId.
           insert_checkpoint
             \<lparr>mc_id = checkpointId, mc_organization_id = ?org,
              mc_from_sequence = fromSequence, mc_through_sequence = cs_latest_sequence cs + 1,
              mc_root = merkleRoot, mc_leaf_hashes = checkpointLeaves, mc_created_at = t\<rparr>))
        (w5\<lparr>chain_state := update_where (\<lambda>r. cs_organization_id r = ?org)
           (advance_chain (cs_latest_sequence cs + 1, h)) (chain_state w5)\<rparr>) = (Inr u6, w6)"
    and upd: "update_execution_for_entry input (le_id row) t w6 = (Inr u7, w')"
    unfolding appendLedgerEntryInTransaction_def Let_def inr_iffs
    by - (clarify, rule that, assumption+)
  note ensured = ensure_chain_state_Inr [OF ens cs]
  obtain n where w1: "w1 = w\<lparr>draws := n\<rparr>" using timestamp_choice_Inr(1) [OF ts] by blast
  have w3: "w3 = w2\<lparr>draws := Suc (draws w2)\<rparr>" using uuid by (simp add: drawE_Inr)
  have w4: "w4 = w3" by (rule checkpoint_at_Inr(1) [OF cp])
  note row = ins [unfolded insert_ledger_entry_Inr]
  have latest: "latest_of ?org w = (cs_latest_sequence cs, cs_latest_entry_hash cs)"
    using ensured(1) by (simp add: w1 latest_of_def)
  obtain cps m where w6: "w6 = w5\<lparr>chain_state := new_chain_state ?org
      (cs_latest_sequence cs + 1, h) (chain_state w), merkle_checkpoints := cps, draws := m\<rparr>"
    and cps: "case c of None \<Rightarrow> cps = merkle_checkpoints w
      | Some (f0, leaves, root) \<Rightarrow> \<exists>k. cps = merkle_checkpoints w @
          [\<lparr>mc_id = k, mc_organization_id = ?org, mc_from_sequence = f0,
            mc_through_sequence = cs_latest_sequence cs + 1, mc_root = root, mc_leaf_hashes = leaves,
            mc_created_at = t\<rparr>]"
  proof -
    have "chain_state w5 = chain_state w2" "merkle_checkpoints w5 = merkle_checkpoints w"
      using row by (simp_all add: w4 w3 w1 ensured(5))
    then show ?thesis
      using cpi that [of "draws w6" "merkle_checkpoints w6"] ensured(2)
      by (auto simp: inr_iffs drawE_Inr insert_checkpoint_Inr w1 split: option.splits)
  qed
  have w5: "w5 = w4\<lparr>ledger_entries := ledger_entries w @ [row]\<rparr>"
    using row by (simp add: w4 w3 w1 ensured(3))
  have ok6: "executions_ok w6" and same6: "executions w6 = executions w"
    using assms(2) by (simp_all add: w6 w5 w4 w3 w1 ensured(4) executions_ok_def)
  note keeps = update_execution_for_entry_keeps [OF upd ok6]
  obtain xs where w': "w' = w6\<lparr>executions := xs\<rparr>" using keeps(5) by blast
  have tables: "ledger_entries w' = ledger_entries w @ [row]" "merkle_checkpoints w' = cps"
    "chain_state w' = new_chain_state ?org (cs_latest_sequence cs + 1, h) (chain_state w)"
    "execution_events w' = execution_events w"
    by (simp_all add: w' w6 w5 w4 w3 w1 ensured(6))
  have fields: "le_organization_id row = ?org" "le_organization_sequence row = cs_latest_sequence cs + 1"
    "le_previous_entry_hash row = cs_latest_entry_hash cs" "le_entry_hash row = h"
    "le_execution_id row = al_executionId input" "le_entry_type row = al_entryType input"
    "le_request_hash row = al_requestHash input" "le_response_hash row = al_responseHash input"
    "le_execution_graph_hash row = al_executionGraphHash input"
    "le_merkle_root row = map_option (\<lambda>c. snd (snd c)) c" "le_created_at_canonical row = ts"
    using row by simp_all
  have "entry_ok E row"
    using row hash hok t flds
    by (auto simp: entry_ok_def entry_fields_def assertLedgerHashFields_def)
  moreover have "\<forall>r\<in>set (ledger_entries w). le_id r \<noteq> le_id row \<and> le_entry_hash r \<noteq> le_entry_hash row"
    "\<exists>x\<in>set (executions w). ex_id x = le_execution_id row"
    using row by (auto simp: w4 w3 w1 ensured(3,4))
  ultimately show "appended E input w row w'"
    using timestamp_choice_Inr(2) [OF ts]
    unfolding appended_def by (simp add: fields latest tables)
  have "checkpoint_at E ?org (interval_of E input) (cs_latest_sequence cs + 1) h w3 = (Inr c, w4)"
    using cp by (simp add: interval_of_def)
  note at = checkpoint_at_Inr(2) [OF this]
  show "checkpointed E input w row w'"
  proof (cases c)
    case None
    have "\<not> closes_checkpoint (interval_of E input) (cs_latest_sequence cs + 1)"
      using cp None by (auto simp: checkpoint_at_def closes_checkpoint_def Let_def inr_iffs interval_of_def
          split: option.splits)
    with None cps show ?thesis by (simp add: checkpointed_def fields tables)
  next
    case (Some a)
    then obtain f0 leaves root where c: "c = Some (f0, leaves, root)" by (cases a) auto
    from at [OF c] obtain k where k: "k > 0" "interval_of E input = Some k"
      "(cs_latest_sequence cs + 1) mod k = 0" "f0 = cs_latest_sequence cs + 1 - k + 1"
      "leaves = map le_entry_hash (sort_key le_organization_sequence
        (filter (\<lambda>e. le_organization_id e = ?org \<and> f0 \<le> le_organization_sequence e \<and>
           le_organization_sequence e < cs_latest_sequence cs + 1) (ledger_entries w))) @ [h]"
      "computeMerkleRoot E leaves = Inr root"
      by (auto simp: w3 w1 ensured(3))
    then have "closes_checkpoint (interval_of E input) (cs_latest_sequence cs + 1)"
      by (simp add: closes_checkpoint_def)
    moreover obtain j where "cps = merkle_checkpoints w @
          [\<lparr>mc_id = j, mc_organization_id = ?org, mc_from_sequence = f0,
            mc_through_sequence = cs_latest_sequence cs + 1, mc_root = root, mc_leaf_hashes = leaves,
            mc_created_at = t\<rparr>]"
      using cps c by auto
    ultimately show ?thesis
      using k c by (simp add: checkpointed_def fields tables)
  qed
  show "executions_ok w'" by (rule keeps(1))
  show "executions_evolve w w'"
    using evolve_trans [OF evolve_same [OF same6] keeps(2)] .
  show "map ex_id (executions w') = map ex_id (executions w)"
    "map ex_organization_id (executions w') = map ex_organization_id (executions w)"
    using keeps(3,4) same6 by simp_all
  show "\<exists>v t. executions v = executions w \<and> update_execution_for_entry input (le_id row) t v = (Inr (), w')"
    using upd same6 by auto
qed

text \<open>A closing entry puts its execution into the final status and links it.\<close>

lemma append_final_status:
  assumes "appendLedgerEntryInTransaction E input w = (Inr row, w')" "executions_ok w"
    and "al_entryType input = FinalEntry \<or> al_entryType input = FailureEntry"
    and "al_executionStatus input = Some st"
  shows "\<exists>x\<in>set (executions w). \<exists>x'\<in>set (executions w'). ex_id x = al_executionId input \<and>
    ex_organization_id x = al_organizationId input \<and> (ex_status x = st \<or> transition (ex_status x) st) \<and>
    ex_id x' = ex_id x \<and> ex_organization_id x' = ex_organization_id x \<and>
    ex_verity_record_id x' = ex_verity_record_id x \<and> ex_status x' = st \<and>
    ex_final_entry_id x' = Some (le_id row)"
proof -
  obtain v t where v: "executions v = executions w"
    "update_execution_for_entry input (le_id row) t v = (Inr (), w')"
    using append_Inr(7) [OF assms(1,2)] by blast
  have "setExecutionStatus (al_executionId input) st (Some (al_organizationId input))
      (Some (le_id row)) (Some t) v = (Inr (), w')"
    using v(2) assms(3,4) by (auto simp: update_execution_for_entry_def Let_def)
  moreover have "executions_ok v" using assms(2) v(1) by (simp add: executions_ok_def)
  ultimately show ?thesis
  proof (cases rule: setExecutionStatus_cases)
    case (2 x)
    then show ?thesis
      using v(1)
      by (intro bexI [of _ x] bexI [of _ "status_update (st, Some (le_id row), Some t) x"])
        (auto simp: update_where_def status_update_def)
  qed simp
qed

subsection \<open>The invariant of the ledger\<close>

definition slice :: "int \<Rightarrow> int \<Rightarrow> 'a list \<Rightarrow> 'a list" where
  "slice a b xs = take (nat (b - a + 1)) (drop (nat (a - 1)) xs)"

definition checkpoint_ok :: "'a crypto_scheme \<Rightarrow> 'w audit_world_scheme \<Rightarrow> merkle_checkpoint_row \<Rightarrow> bool" where
  "checkpoint_ok C w c \<longleftrightarrow>
     1 \<le> mc_from_sequence c \<and> mc_from_sequence c \<le> mc_through_sequence c \<and>
     mc_through_sequence c \<le> int (length (entries_of (mc_organization_id c) w)) \<and>
     mc_leaf_hashes c = map le_entry_hash
       (slice (mc_from_sequence c) (mc_through_sequence c) (entries_of (mc_organization_id c) w)) \<and>
     computeMerkleRoot C (mc_leaf_hashes c) = Inr (mc_root c)"

definition ledger_inv :: "'a crypto_scheme \<Rightarrow> 'w audit_world_scheme \<Rightarrow> bool" where
  "ledger_inv C w \<longleftrightarrow>
     (\<forall>org. chain_from C org 1 None (entries_of org w) \<and>
        latest_of org w = (int (length (entries_of org w)), chain_end None (entries_of org w))) \<and>
     (\<forall>c\<in>set (merkle_checkpoints w). checkpoint_ok C w c) \<and>
     distinct (map le_id (ledger_entries w)) \<and> distinct (map le_entry_hash (ledger_entries w))"

lemma ledger_inv_cong:
  assumes "chain_state w' = chain_state w" "ledger_entries w' = ledger_entries w"
    "merkle_checkpoints w' = merkle_checkpoints w"
  shows "ledger_inv C w' \<longleftrightarrow> ledger_inv C w"
  using assms by (simp add: ledger_inv_def checkpoint_ok_def latest_of_def entries_of_def)

lemma ledger_inv_empty: "ledger_inv C empty_audit"
  by (simp add: ledger_inv_def empty_audit_def latest_of_def entries_of_def)

lemma latest_of_new_chain_state:
  assumes "chain_state w' = new_chain_state org a (chain_state w)"
  shows "latest_of org' w' = (if org' = org then (fst a, Some (snd a)) else latest_of org' w)"
proof (cases "\<forall>r\<in>set (chain_state w). cs_organization_id r \<noteq> org")
  case True
  then have none: "find (\<lambda>r. cs_organization_id r = org) (chain_state w) = None"
    by (auto simp: find_None_iff)
  have new: "chain_state w' = chain_state w @ [\<lparr>cs_organization_id = org, cs_latest_sequence = fst a,
      cs_latest_entry_hash = Some (snd a)\<rparr>]"
    using True by (simp add: assms new_chain_state_def)
  show ?thesis
    using none by (cases "org' = org"; cases "find (\<lambda>r. cs_organization_id r = org') (chain_state w)")
      (simp_all add: latest_of_def new find_append)
next
  case False
  then obtain cs where cs: "find (\<lambda>r. cs_organization_id r = org) (chain_state w) = Some cs"
    by (cases "find (\<lambda>r. cs_organization_id r = org) (chain_state w)") (auto simp: find_None_iff)
  have new: "chain_state w' = update_where (\<lambda>r. cs_organization_id r = org) (advance_chain a) (chain_state w)"
    using False unfolding assms new_chain_state_def by (simp only: if_False)
  show ?thesis
  proof (cases "org' = org")
    case True
    then have "find (\<lambda>r. cs_organization_id r = org') (chain_state w') = Some (advance_chain a cs)"
      unfolding new by (simp only: chain_state_table.find_update cs option.map)
    with True show ?thesis by (simp add: latest_of_def advance_chain_def)
  next
    case other: False
    then have "find (\<lambda>r. cs_organization_id r = org') (chain_state w') =
        find (\<lambda>r. cs_organization_id r = org') (chain_state w)"
      unfolding new by (intro chain_state_table.find_update_other) simp
    with other show ?thesis by (simp add: latest_of_def)
  qed
qed

lemma chain_filter_from:
  "chain_from C org n prev es \<Longrightarrow> filter (\<lambda>e. f \<le> le_organization_sequence e) es = drop (nat (f - n)) es"
proof (induction es arbitrary: n prev)
  case (Cons e es)
  then have IH: "filter (\<lambda>e. f \<le> le_organization_sequence e) es = drop (nat (f - (n + 1))) es"
    and e: "le_organization_sequence e = n" by auto
  show ?case
  proof (cases "f \<le> n")
    case True
    with IH e show ?thesis by simp
  next
    case False
    then have "nat (f - n) = Suc (nat (f - (n + 1)))" by simp
    with False IH e show ?thesis by simp
  qed
qed simp

lemma slice_append: "b \<le> int (length xs) \<Longrightarrow> 1 \<le> a \<Longrightarrow> slice a b (xs @ ys) = slice a b xs"
  by (auto simp: slice_def nat_le_iff)

lemma append_ledger_inv:
  assumes inv: "ledger_inv E w" and app: "appended E input w row w'"
    and cp: "checkpointed E input w row w'"
  shows "ledger_inv E w'"
proof -
  let ?org = "al_organizationId input"
  let ?es = "entries_of ?org w"
  let ?n = "int (length ?es) + 1"
  have chain: "chain_from E org 1 None (entries_of org w)"
    and latest: "latest_of org w = (int (length (entries_of org w)), chain_end None (entries_of org w))" for org
    using inv by (simp_all add: ledger_inv_def)
  have row: "le_organization_id row = ?org" "le_organization_sequence row = ?n"
    "le_previous_entry_hash row = chain_end None ?es" "entry_ok E row"
    and es': "ledger_entries w' = ledger_entries w @ [row]"
    and cs': "chain_state w' = new_chain_state ?org (?n, le_entry_hash row) (chain_state w)"
    using app latest [of ?org] by (simp_all add: appended_def)
  have of': "entries_of org w' = (if org = ?org then ?es @ [row] else entries_of org w)" for org
    by (auto simp: entries_of_def es' row(1))
  have chain': "chain_from E org 1 None (entries_of org w')" for org
    using chain [of org] row by (auto simp: of' chain_from_append)
  have latest': "latest_of org w' = (int (length (entries_of org w')), chain_end None (entries_of org w'))" for org
    using latest [of org] by (auto simp: latest_of_new_chain_state [OF cs'] of')
  have old: "checkpoint_ok E w' c" if "c \<in> set (merkle_checkpoints w)" for c
    using inv that by (auto simp: ledger_inv_def checkpoint_ok_def of' slice_append)
  have "checkpoint_ok E w' c" if "c \<in> set (merkle_checkpoints w')" for c
  proof (cases "c \<in> set (merkle_checkpoints w)")
    case False
    with that cp obtain k where k: "interval_of E input = Some k" "k > 0" "?n mod k = 0"
      and c: "mc_organization_id c = ?org" "mc_through_sequence c = ?n" "mc_from_sequence c = ?n - k + 1"
        "mc_leaf_hashes c = map le_entry_hash (sort_key le_organization_sequence
            (filter (\<lambda>e. le_organization_id e = ?org \<and>
               mc_from_sequence c \<le> le_organization_sequence e \<and>
               le_organization_sequence e < ?n) (ledger_entries w))) @ [le_entry_hash row]"
        "computeMerkleRoot E (mc_leaf_hashes c) = Inr (mc_root c)"
      by (auto simp: checkpointed_def closes_checkpoint_def row(2) split: if_splits)
    have "k \<le> ?n" using k(3) by (intro zdvd_imp_le) (auto simp: dvd_eq_mod_eq_0)
    have "filter (\<lambda>e. le_organization_id e = ?org \<and> mc_from_sequence c \<le> le_organization_sequence e \<and>
        le_organization_sequence e < ?n) (ledger_entries w) =
      filter (\<lambda>e. mc_from_sequence c \<le> le_organization_sequence e) ?es"
      unfolding entries_of_def filter_filter
      by (rule filter_cong) (use chain_from_mem [OF chain [of ?org]] in \<open>fastforce simp: entries_of_def\<close>)+
    also have "\<dots> = drop (nat (mc_from_sequence c - 1)) ?es"
      by (rule chain_filter_from [OF chain])
    finally have "mc_leaf_hashes c =
        map le_entry_hash (drop (nat (mc_from_sequence c - 1)) ?es) @ [le_entry_hash row]"
      using c(4) sort_key_id [of le_organization_sequence "drop (nat (mc_from_sequence c - 1)) ?es"]
        chain_from_sorted [OF chain, of ?org]
      by (simp add: drop_map [symmetric] sorted_wrt_drop)
    with c k \<open>k \<le> ?n\<close> show ?thesis
      by (simp add: checkpoint_ok_def of' slice_def)
  qed (rule old)
  moreover have "distinct (map le_id (ledger_entries w'))" "distinct (map le_entry_hash (ledger_entries w'))"
    using inv app by (auto simp: ledger_inv_def appended_def)
  ultimately show ?thesis using chain' latest' by (auto simp: ledger_inv_def)
qed

subsection \<open>The transaction\<close>

definition tables_equal :: "'w audit_world_scheme \<Rightarrow> 'w audit_world_scheme \<Rightarrow> bool" where
  "tables_equal w w' \<longleftrightarrow> chain_state w' = chain_state w \<and> executions w' = executions w \<and>
     ledger_entries w' = ledger_entries w \<and> merkle_checkpoints w' = merkle_checkpoints w \<and>
     execution_events w' = execution_events w"

lemma tables_equal_restore [simp]: "tables_equal w (restore_audit w u)"
  by (simp add: tables_equal_def)

lemma tables_equal_refl [simp]: "tables_equal w w"
  by (simp add: tables_equal_def)

lemma tables_equal_inv:
  assumes "tables_equal w w'"
  shows "ledger_inv C w' \<longleftrightarrow> ledger_inv C w" "executions_ok w' \<longleftrightarrow> executions_ok w"
    "executions_evolve w w'" "entries_of org w' = entries_of org w"
  using assms ledger_inv_cong [of w' w C]
  by (auto simp: tables_equal_def executions_ok_def entries_of_def intro!: evolve_same)

lemma appendLedgerEntry_cases:
  assumes "appendLedgerEntry E db input w = (res, w')"
  obtains (error) e where "res = Inl e" "tables_equal w w'"
  | (success) row where "res = Inr row" "db = Pool"
      "appendLedgerEntryInTransaction E input w = (Inr row, w')"
proof (cases res)
  case (Inl e)
  with assms have "tables_equal w w'"
    by (auto simp: appendLedgerEntry_def inl_iffs basic_Inr)
  with Inl show ?thesis by (rule error)
next
  case (Inr row)
  with assms success show ?thesis
    by (auto simp: appendLedgerEntry_def inr_iffs assertIsPool_def)
qed

lemma appendLedgerEntry_keeps:
  assumes "appendLedgerEntry E db input w = (res, w')" "ledger_inv E w" "executions_ok w"
  shows "ledger_inv E w'" "executions_ok w'" "executions_evolve w w'"
proof -
  from assms(1) have "ledger_inv E w' \<and> executions_ok w' \<and> executions_evolve w w'"
  proof (cases rule: appendLedgerEntry_cases)
    case (success row)
    note a = append_Inr [OF success(3) assms(3)]
    show ?thesis using append_ledger_inv [OF assms(2) a(1,2)] a(3,4) by blast
  qed (use assms(2,3) tables_equal_inv in blast)
  then show "ledger_inv E w'" "executions_ok w'" "executions_evolve w w'" by auto
qed

lemma getLedgerEntries_run:
  assumes "ledger_inv C w"
  shows "getLedgerEntries org w = (Inr (entries_of org w), w)"
proof -
  have "sorted (map le_organization_sequence (entries_of org w))"
    using assms chain_from_sorted [of C org 1 None] by (auto simp: ledger_inv_def)
  then show ?thesis
    by (simp add: getLedgerEntries_def run sort_key_id flip: entries_of_def)
qed

lemma latest_of_inv:
  "ledger_inv C w \<Longrightarrow> latest_of org w = (int (length (entries_of org w)), chain_end None (entries_of org w))"
  by (simp add: ledger_inv_def)

subsection \<open>When an append succeeds\<close>

definition target_status :: "append_ledger_input \<Rightarrow> execution_status option" where
  "target_status input =
     (let status = (\<lambda>d. case al_executionStatus input of None \<Rightarrow> d | Some s \<Rightarrow> s) in
      case al_entryType input of
        RequestOpened \<Rightarrow> Some (status Running)
      | ApprovalRequested \<Rightarrow> Some (status WaitingApproval)
      | FinalEntry \<Rightarrow> Some (status Completed)
      | FailureEntry \<Rightarrow> Some (status Failed)
      | ActionCompleted \<Rightarrow> None)"

definition append_time :: "'a env_scheme \<Rightarrow> append_ledger_input \<Rightarrow> 'w world_scheme \<Rightarrow> string" where
  "append_time E input w =
     (case al_createdAtCanonical input of None \<Rightarrow> iso_string (clock E (draws w)) | Some t \<Rightarrow> t)"

definition new_fields ::
    "'a env_scheme \<Rightarrow> append_ledger_input \<Rightarrow> 'w audit_world_scheme \<Rightarrow> hash_field_input" where
  "new_fields E input w =
     \<lparr>hf_organizationId = al_organizationId input,
      hf_ledgerSequence = fst (latest_of (al_organizationId input) w) + 1,
      hf_executionId = al_executionId input, hf_entryType = al_entryType input,
      hf_requestHash = al_requestHash input, hf_responseHash = al_responseHash input,
      hf_executionGraphHash = al_executionGraphHash input,
      hf_previousEntryHash = snd (latest_of (al_organizationId input) w),
      hf_kernelVersion =
        Some (case al_kernelVersion input of None \<Rightarrow> KERNEL_VERSION | Some v \<Rightarrow> v),
      hf_createdAtCanonical = append_time E input w\<rparr>"

text \<open>What the caller has to provide, and what must not happen by chance: a repeated random identifier
  or a SHA-256 collision with an entry already stored.\<close>

definition append_ready ::
    "'a env_scheme \<Rightarrow> append_ledger_input \<Rightarrow> 'w audit_world_scheme \<Rightarrow> bool" where
  "append_ready E input w \<longleftrightarrow>
     (\<forall>h. al_requestHash input = Some h \<or> al_responseHash input = Some h \<or>
        al_executionGraphHash input = Some h \<longrightarrow> isSha256Hex h) \<and>
     (\<exists>t. four_digit_year t \<and> append_time E input w = iso_string t) \<and>
     al_organizationId input \<noteq> '''' \<and>
     (\<exists>r\<in>set (executions w). ex_id r = al_executionId input \<and>
        (\<forall>st. target_status input = Some st \<longrightarrow>
           ex_organization_id r = al_organizationId input \<and> (ex_status r = st \<or> transition (ex_status r) st))) \<and>
     fst (latest_of (al_organizationId input) w) < 2147483647 \<and>
     (\<forall>n. \<forall>e\<in>set (ledger_entries w). le_id e \<noteq> randomUUID E (draws w + n)) \<and>
     (\<forall>n. \<forall>c\<in>set (merkle_checkpoints w). mc_id c \<noteq> randomUUID E (draws w + n)) \<and>
     (\<forall>e\<in>set (ledger_entries w).
        \<not> collision E (payload_bytes (entry_fields e)) (payload_bytes (new_fields E input w)))"

lemma update_execution_for_entry_run:
  assumes "distinct (map ex_id (executions w))" "al_organizationId input \<noteq> ''''"
    and "r \<in> set (executions w)" "ex_id r = al_executionId input"
    and "\<forall>st. target_status input = Some st \<longrightarrow>
      ex_organization_id r = al_organizationId input \<and> (ex_status r = st \<or> transition (ex_status r) st)"
    and "l \<in> set (ledger_entries w)"
  shows "\<exists>w'. update_execution_for_entry input (le_id l) t w = (Inr (), w')"
proof (cases "target_status input = None")
  case True
  then show ?thesis
    by (cases "al_entryType input")
      (auto simp: update_execution_for_entry_def target_status_def Let_def run)
next
  case False
  then have org: "ex_organization_id r = al_organizationId input" using assms(5) by auto
  have found: "find (\<lambda>x. ex_id x = al_executionId input \<and>
      ex_organization_id x = al_organizationId input) (executions w) = Some r"
  proof -
    obtain y where y: "find (\<lambda>x. ex_id x = al_executionId input \<and>
        ex_organization_id x = al_organizationId input) (executions w) = Some y"
      using assms(3,4) org by (cases "find (\<lambda>x. ex_id x = al_executionId input \<and>
        ex_organization_id x = al_organizationId input) (executions w)") (auto simp: find_None_iff)
    then have "y \<in> set (executions w)" "ex_id y = ex_id r" using assms(4) by (auto dest: find_SomeD)
    then have "y = r" using key_only assms(1,3) by blast
    with y show ?thesis by simp
  qed
  show ?thesis
    using assms(5,6) assms(1,2) found
    by (cases "al_entryType input")
      (auto simp: update_execution_for_entry_def target_status_def Let_def run setExecutionStatus_run)
qed

lemma checkpoint_at_run:
  assumes "crypto_ok E" "list_all isSha256Hex (map le_entry_hash (ledger_entries w))" "isSha256Hex h"
  shows "\<exists>c. checkpoint_at E org interval n h w = (Inr c, w)"
proof -
  have "list_all isSha256Hex (map le_entry_hash (sort_key le_organization_sequence
      (filter p (ledger_entries w))) @ [h])" for p
    using assms(2,3) by (auto simp: list_all_iff)
  note total = computeMerkleRoot_total [OF assms(1) this]
  show ?thesis
  proof (cases interval)
    case (Some k)
    obtain root where "computeMerkleRoot E (map le_entry_hash (sort_key le_organization_sequence
        (filter (\<lambda>e. le_organization_id e = org \<and> n - k + 1 \<le> le_organization_sequence e \<and>
           le_organization_sequence e < n) (ledger_entries w))) @ [h]) = Inr root" "isSha256Hex root"
      using total by blast
    with Some show ?thesis by (simp add: checkpoint_at_def Let_def run)
  qed (simp add: checkpoint_at_def run)
qed

lemma assertLedgerHashFields_ok:
  "\<forall>h. a = Some h \<or> b = Some h \<or> c = Some h \<longrightarrow> isSha256Hex h \<Longrightarrow>
   assertLedgerHashFields a b c = Inr ()"
  by (cases a; cases b; cases c) (simp_all add: assertLedgerHashFields_def assertS_def)

lemma timestamp_choice_run:
  "\<exists>n. (case al_createdAtCanonical input of None \<Rightarrow> canonicalTimestampNow E | Some t \<Rightarrow> ret t) w =
     (Inr (append_time E input w), w\<lparr>draws := draws w + n\<rparr>)"
  by (auto simp: append_time_def canonicalTimestampNow_def run split: option.splits
      intro: exI [of _ 0] exI [of _ 1])

lemma ensure_chain_state_run: "\<exists>w'. ensure_chain_state org w = (Inr (), w')"
  by (cases "\<forall>r\<in>set (chain_state w). cs_organization_id r \<noteq> org")
    (simp_all add: ensure_chain_state_def run)

lemma append_succeeds:
  assumes ok: "crypto_ok E" and inv: "ledger_inv E w" and exs: "executions_ok w"
    and ready: "append_ready E input w"
  shows "\<exists>row w'. appendLedgerEntryInTransaction E input w = (Inr row, w')"
proof -
  let ?org = "al_organizationId input"
  let ?f = "new_fields E input w"
  let ?n = "fst (latest_of ?org w) + 1" and ?prev = "snd (latest_of ?org w)"
  have r: "\<forall>h. al_requestHash input = Some h \<or> al_responseHash input = Some h \<or>
      al_executionGraphHash input = Some h \<longrightarrow> isSha256Hex h"
    "?org \<noteq> ''''" "fst (latest_of ?org w) < 2147483647"
    and fresh: "\<And>n e. e \<in> set (ledger_entries w) \<Longrightarrow> le_id e \<noteq> randomUUID E (draws w + n)"
      "\<And>n c. c \<in> set (merkle_checkpoints w) \<Longrightarrow> mc_id c \<noteq> randomUUID E (draws w + n)"
    and nocoll: "\<And>e. e \<in> set (ledger_entries w) \<Longrightarrow>
        \<not> collision E (payload_bytes (entry_fields e)) (payload_bytes ?f)"
    using ready by (auto simp: append_ready_def)
  obtain t where t: "four_digit_year t" "append_time E input w = iso_string t"
    using ready by (auto simp: append_ready_def)
  obtain x where x: "x \<in> set (executions w)" "ex_id x = al_executionId input"
      "\<forall>st. target_status input = Some st \<longrightarrow>
         ex_organization_id x = ?org \<and> (ex_status x = st \<or> transition (ex_status x) st)"
    using ready by (auto simp: append_ready_def)
  let ?es = "entries_of ?org w"
  note latest = latest_of_inv [OF inv, of ?org]
  have chain: "chain_from E o' 1 None (entries_of o' w)" for o'
    using inv by (simp add: ledger_inv_def)
  have each: "entry_ok E e" if "e \<in> set (ledger_entries w)" for e
    using chain_from_mem [OF chain [of "le_organization_id e"], of e] that by (simp add: entries_of_def)
  have seq: "le_organization_sequence e \<noteq> ?n" if "e \<in> set (ledger_entries w)" "le_organization_id e = ?org" for e
    using chain_from_mem [OF chain [of ?org], of e] that latest by (simp add: entries_of_def)
  obtain k where w1: "(case al_createdAtCanonical input of None \<Rightarrow> canonicalTimestampNow E | Some t \<Rightarrow> ret t) w =
      (Inr (iso_string t), w\<lparr>draws := draws w + k\<rparr>)"
    using timestamp_choice_run [of E input w] t(2) by auto
  let ?w1 = "w\<lparr>draws := draws w + k\<rparr>"
  have tsok: "assertCanonicalUtcTimestamp ''created_at_canonical'' (iso_string t) = Inr ()"
    using assertCanonicalUtcTimestamp_accepts t(1) by blast
  obtain w2 where w2: "ensure_chain_state ?org ?w1 = (Inr (), w2)"
    using ensure_chain_state_run by blast
  obtain cs where cs: "find (\<lambda>r. cs_organization_id r = ?org) (chain_state w2) = Some cs"
    using w2 by (cases "find (\<lambda>r. cs_organization_id r = ?org) (chain_state w2)")
      (auto simp: ensure_chain_state_def inr_iffs find_None_iff split: if_splits)
  note ens = ensure_chain_state_Inr [OF w2 cs]
  have csn: "cs_latest_sequence cs + 1 = ?n" "cs_latest_entry_hash cs = ?prev"
    using ens(1) by (simp_all add: latest_of_def)
  have drw: "draws w2 = draws w + k"
    using w2 by (auto simp: ensure_chain_state_def inr_iffs split: if_splits)
  have prevok: "assertSha256Hex ''previous_entry_hash'' ?prev = Inr ()"
  proof (cases "?es = []")
    case False
    then have "last ?es \<in> set (ledger_entries w)" using last_in_set [OF False] by (simp add: entries_of_def)
    with False each latest show ?thesis by (simp add: chain_end_def entry_ok_def assertS_def)
  qed (use latest in simp)
  define h where "h = bytesToHex E (sha256 E (payload_bytes ?f))"
  have "0 \<le> fst (latest_of ?org w)" using latest by simp
  then have "isSafeInteger ?n" using r(3) by (simp add: isSafeInteger_def)
  then have hash: "computeEntryHash E (buildHashPayload ?f) = Inr h"
    by (simp add: computeEntryHash_Inr h_def) (simp add: new_fields_def)
  have f: "?f = \<lparr>hf_organizationId = ?org, hf_ledgerSequence = ?n,
        hf_executionId = al_executionId input, hf_entryType = al_entryType input,
        hf_requestHash = al_requestHash input, hf_responseHash = al_responseHash input,
        hf_executionGraphHash = al_executionGraphHash input, hf_previousEntryHash = ?prev,
        hf_kernelVersion = Some (case al_kernelVersion input of None \<Rightarrow> KERNEL_VERSION | Some v \<Rightarrow> v),
        hf_createdAtCanonical = iso_string t\<rparr>"
    by (simp add: new_fields_def t(2))
  have hok: "isSha256Hex h" using ok by (simp add: h_def crypto_ok_def isSha256Hex_def lower_hex_chars)
  have eok: "assertSha256Hex ''entry_hash'' (Some h) = Inr ()" using hok by simp
  let ?w3 = "w2\<lparr>draws := Suc (draws w2)\<rparr>"
  have "list_all isSha256Hex (map le_entry_hash (ledger_entries ?w3))"
    using each by (auto simp: ens(3) list_all_iff entry_ok_def)
  from checkpoint_at_run [OF ok this hok, of ?org _ ?n]
  obtain c where cp: "checkpoint_at E ?org (case al_merkleSnapshotInterval input of
      None \<Rightarrow> DEFAULT_MERKLE_INTERVAL E | Some k \<Rightarrow> Some k) ?n h ?w3 = (Inr c, ?w3)" by blast
  have dp: "date_parse (iso_string t) = Some t" using t(1) parse_iso by (simp add: four_digit_year_def)
  have newhash: "le_entry_hash e \<noteq> h" if e: "e \<in> set (ledger_entries w)" for e
  proof
    assume "le_entry_hash e = h"
    then have "computeEntryHash E (buildHashPayload (entry_fields e)) = Inr h"
      using each [OF e] by (simp add: entry_ok_def)
    from entry_hash_binds_fields [OF ok this hash] nocoll [OF e]
    have "same_hashed_fields (entry_fields e) ?f" by blast
    then show False using seq [OF e] by (simp add: same_hashed_fields_def entry_fields_def new_fields_def)
  qed
  define row where "row = \<lparr>le_id = randomUUID E (draws w2), le_organization_id = ?org,
        le_organization_sequence = ?n, le_execution_id = al_executionId input,
        le_entry_type = al_entryType input, le_request_hash = al_requestHash input,
        le_response_hash = al_responseHash input, le_execution_graph_hash = al_executionGraphHash input,
        le_previous_entry_hash = ?prev, le_entry_hash = h,
        le_merkle_root = map_option (\<lambda>c. snd (snd c)) c,
        le_kernel_version = (case al_kernelVersion input of None \<Rightarrow> KERNEL_VERSION | Some v \<Rightarrow> v),
        le_hash_format_version = HASH_FORMAT_VERSION, le_created_at = t,
        le_created_at_canonical = iso_string t\<rparr>"
  let ?w5 = "?w3\<lparr>ledger_entries := ledger_entries w @ [row]\<rparr>"
  have ins: "insert_ledger_entry row ?w3 = (Inr row, ?w5)"
    using fresh(1) [of _ k] newhash seq x(1,2) r(3) \<open>0 \<le> fst (latest_of ?org w)\<close>
    by (auto simp: insert_ledger_entry_Inr row_def ens(3,4) drw is_pg_integer_def HASH_FORMAT_VERSION_def)
  let ?w6 = "?w5\<lparr>chain_state := update_where (\<lambda>r. cs_organization_id r = ?org)
      (advance_chain (?n, h)) (chain_state ?w5)\<rparr>"
  have through: "mc_through_sequence d < ?n" if "d \<in> set (merkle_checkpoints w)" "mc_organization_id d = ?org" for d
    using inv that latest by (auto simp: ledger_inv_def checkpoint_ok_def)
  obtain w7 where cpi: "(case c of
         None \<Rightarrow> ret ()
       | Some (fromSequence, checkpointLeaves, merkleRoot) \<Rightarrow>
           bindE (drawE (randomUUID E)) (\<lambda>checkpointId.
           insert_checkpoint
             \<lparr>mc_id = checkpointId, mc_organization_id = ?org,
              mc_from_sequence = fromSequence, mc_through_sequence = ?n,
              mc_root = merkleRoot, mc_leaf_hashes = checkpointLeaves, mc_created_at = t\<rparr>)) ?w6 = (Inr (), w7)"
    and w7: "executions w7 = executions w" "ledger_entries w7 = ledger_entries w @ [row]"
  proof (cases c)
    case None
    with that [of ?w6] show ?thesis by (simp add: run ens(4))
  next
    case (Some a)
    obtain f0 leaves root where a: "a = (f0, leaves, root)" by (cases a)
    let ?c = "\<lparr>mc_id = randomUUID E (draws ?w6), mc_organization_id = ?org, mc_from_sequence = f0,
        mc_through_sequence = ?n, mc_root = root, mc_leaf_hashes = leaves, mc_created_at = t\<rparr>"
    let ?v = "?w6\<lparr>draws := Suc (draws ?w6)\<rparr>"
    have "mc_id d \<noteq> mc_id ?c \<and> \<not> (mc_organization_id d = ?org \<and> mc_through_sequence d = ?n)"
      if "d \<in> set (merkle_checkpoints ?v)" for d
      using that fresh(2) [of d "Suc k"] through [of d] by (auto simp: ens(5) drw)
    then have "insert_checkpoint ?c ?v = (Inr (), ?v\<lparr>merkle_checkpoints := merkle_checkpoints ?v @ [?c]\<rparr>)"
      by (simp add: insert_checkpoint_Inr)
    then show ?thesis
      by (intro that [of "?v\<lparr>merkle_checkpoints := merkle_checkpoints ?v @ [?c]\<rparr>"])
        (simp_all add: Some a run ens(4))
  qed
  have "\<exists>w8. update_execution_for_entry input (le_id row) t w7 = (Inr (), w8)"
    using exs x r(2) w7 by (intro update_execution_for_entry_run) (auto simp: executions_ok_def)
  then obtain w8 where upd: "update_execution_for_entry input (le_id row) t w7 = (Inr (), w8)" by blast
  have "appendLedgerEntryInTransaction E input w = (Inr row, w8)"
    unfolding appendLedgerEntryInTransaction_def Let_def
    by - (rule bindE_step, rule liftE_step, rule assertLedgerHashFields_ok, rule r(1),
      rule bindE_step, rule w1, rule bindE_step, rule liftE_step, rule tsok, rule bindE_step, rule w2,
      rule bindE_step, rule run_basic(3), rule bindE_step, rule expectE_step, rule cs,
      rule bindE_step, rule liftE_step, rule prevok [folded csn],
      rule bindE_step, rule liftE_step, rule hash [unfolded f, folded csn],
      rule bindE_step, rule liftE_step, rule eok, rule bindE_step, rule run_drawE,
      rule bindE_step, rule cp [folded csn], rule bindE_step, rule expectE_step, rule dp,
      rule bindE_step, rule ins [unfolded row_def, folded csn],
      rule bindE_step, rule run_basic(4), rule bindE_step, rule cpi [unfolded row_def, folded csn],
      rule bindE_step, rule upd [unfolded row_def, folded csn],
      simp add: run row_def csn)
  then show ?thesis by blast
qed

subsection \<open>Properties of the ledger\<close>

text \<open>C1: A successful append.  The organization's ledger, as \<open>getLedgerEntries\<close> reads it, grows by
  exactly the returned row at its end; the row has the next sequence number, names the hash of the
  entry before it, carries the fields of the input and their hash, and no other organization's
  ledger changes.\<close>

theorem appendLedgerEntry_extends:
  assumes "appendLedgerEntry E db input w = (Inr row, w')"
    and "ledger_inv E w" and "executions_ok w" and "org = al_organizationId input"
  shows "fst (getLedgerEntries org w') = Inr (entries_of org w @ [row]) \<and>
    le_organization_sequence row = int (length (entries_of org w)) + 1 \<and>
    le_previous_entry_hash row = chain_end None (entries_of org w) \<and>
    le_execution_id row = al_executionId input \<and> le_entry_type row = al_entryType input \<and>
    le_request_hash row = al_requestHash input \<and> le_response_hash row = al_responseHash input \<and>
    le_execution_graph_hash row = al_executionGraphHash input \<and> entry_ok E row \<and>
    (\<forall>other. other \<noteq> org \<longrightarrow> fst (getLedgerEntries other w') = fst (getLedgerEntries other w))"
proof -
  from assms(1) have tx: "appendLedgerEntryInTransaction E input w = (Inr row, w')"
    by (cases rule: appendLedgerEntry_cases) auto
  note a = append_Inr [OF tx assms(3)]
  have inv': "ledger_inv E w'" by (rule append_ledger_inv [OF assms(2) a(1,2)])
  have of': "entries_of o' w' = (if o' = org then entries_of org w @ [row] else entries_of o' w)" for o'
    using a(1) assms(4) by (auto simp: appended_def entries_of_def)
  show ?thesis
    using a(1) assms(4) latest_of_inv [OF assms(2), of org]
    by (simp add: getLedgerEntries_run [OF inv'] getLedgerEntries_run [OF assms(2)] of' appended_def)
qed

text \<open>A failed append changes nothing.  Whatever makes the append throw (a bad hash or timestamp,
  a missing execution, a forbidden status change, a constraint, a client instead of a pool), every
  table of the audit schema is as before.\<close>

theorem appendLedgerEntry_atomic:
  assumes "appendLedgerEntry E db input w = (Inl e, w')"
  shows "chain_state w' = chain_state w \<and> executions w' = executions w \<and>
    ledger_entries w' = ledger_entries w \<and> merkle_checkpoints w' = merkle_checkpoints w \<and>
    execution_events w' = execution_events w"
  using assms by (cases rule: appendLedgerEntry_cases) (auto simp: tables_equal_def)

text \<open>The append keeps the ledger invariant, also across organizations: every organization's entries
  form one gap-free hash chain from sequence 1, \<open>chain_state\<close> holds its end, and every checkpoint
  holds exactly the entry hashes of its range and their Merkle root.\<close>

theorem appendLedgerEntry_invariant:
  assumes "appendLedgerEntry E db input w = (res, w')" and "ledger_inv E w" and "executions_ok w"
  shows "ledger_inv E w' \<and> executions_ok w' \<and> executions_evolve w w'"
  using appendLedgerEntry_keeps [OF assms] by blast

definition sample_append :: append_ledger_input where
  "sample_append = \<lparr>al_organizationId = ''org'', al_executionId = ''e1'', al_entryType = FinalEntry,
     al_requestHash = None, al_responseHash = Some (lower_hex (replicate 32 1)),
     al_executionGraphHash = None, al_merkleSnapshotInterval = Some 1,
     al_createdAtCanonical = Some ''2026-01-01T00:00:00.000Z'', al_kernelVersion = None,
     al_executionStatus = None\<rparr>"

definition sample_world :: audit_world where
  "sample_world = empty_audit\<lparr>executions := [sample_execution]\<rparr>"

lemma sample_world_ok: "ledger_inv C sample_world" "executions_ok sample_world"
  using ledger_inv_empty [of C] ledger_inv_cong [of sample_world empty_audit C]
  by (simp_all add: sample_world_def executions_ok_def)

lemma sample_append_ready: "append_ready sample_env sample_append sample_world"
proof -
  have t: "four_digit_year 1767225600000" "''2026-01-01T00:00:00.000Z'' = iso_string 1767225600000"
    by code_simp+
  have "append_time sample_env sample_append sample_world = iso_string 1767225600000"
    unfolding t(2) [symmetric] by (simp add: append_time_def sample_append_def)
  with t(1) have time: "\<exists>t. four_digit_year t \<and> append_time sample_env sample_append sample_world = iso_string t"
    by blast
  have "isSha256Hex (lower_hex (replicate 32 1))"
    by (simp add: isSha256Hex_def lower_hex_chars)
  then show ?thesis
    using time
    by (simp add: append_ready_def sample_append_def sample_world_def empty_audit_def sample_execution_def
        target_status_def transition_simps latest_of_def)
qed

lemma sample_append_succeeds:
  "\<exists>row w'. appendLedgerEntry sample_env Pool sample_append sample_world = (Inr row, w')"
  using append_succeeds [OF sample_crypto_ok(2) sample_world_ok sample_append_ready]
  by (auto simp: appendLedgerEntry_def inr_iffs assertIsPool_def)

text \<open>An append does succeed when it should.  Given valid hashes, a clock or timestamp in the years
  0000 to 9999, an execution of the same organization whose status allows the move, a sequence
  number below 2147483647 and no repeated random identifier or hash collision, \<open>appendLedgerEntry\<close> on a
  pool commits and returns a row, whatever checkpoint interval is in force.\<close>

theorem appendLedgerEntry_succeeds:
  assumes "crypto_ok E" and "ledger_inv E w" and "executions_ok w" and "append_ready E input w"
  shows "\<exists>row w'. appendLedgerEntry E Pool input w = (Inr row, w')"
  using append_succeeds [OF assms]
  by (auto simp: appendLedgerEntry_def inr_iffs assertIsPool_def)

theorem appendLedgerEntry_succeeds_witness:
  "\<exists>row w'. appendLedgerEntry sample_env Pool sample_append sample_world = (Inr row, w')"
  by (rule appendLedgerEntry_succeeds [OF sample_crypto_ok(2) sample_world_ok sample_append_ready])

theorem appendLedgerEntry_extends_witness:
  "\<exists>row (w' :: audit_world). fst (getLedgerEntries ''org'' w') = Inr [row] \<and> le_organization_sequence row = 1 \<and>
     le_previous_entry_hash row = None \<and> le_entry_type row = FinalEntry"
proof -
  obtain row w' where "appendLedgerEntry sample_env Pool sample_append sample_world = (Inr row, w')"
    using sample_append_succeeds by blast
  from appendLedgerEntry_extends [OF this sample_world_ok refl] show ?thesis
    by (intro exI [of _ row] exI [of _ w'] conjI)
      (simp_all add: sample_append_def sample_world_def entries_of_def empty_audit_def)
qed

theorem appendLedgerEntry_atomic_witness:
  "\<exists>e w'. appendLedgerEntry sample_env PoolClient sample_append sample_world = (Inl e, w') \<and>
     executions w' = executions sample_world"
proof -
  obtain e w' where "appendLedgerEntry sample_env PoolClient sample_append sample_world = (Inl e, w')"
    by (simp add: appendLedgerEntry_def assertIsPool_def run)
  with appendLedgerEntry_atomic [OF this] show ?thesis by blast
qed

theorem appendLedgerEntry_invariant_witness:
  "let w' = snd (appendLedgerEntry sample_env Pool sample_append sample_world)
   in ledger_inv sample_env w' \<and> executions_ok w' \<and> executions_evolve sample_world w'"
  unfolding Let_def
  by (rule appendLedgerEntry_invariant [OF surjective_pairing sample_world_ok])

text \<open>The ledger does not tie an \<open>action_completed\<close> entry to its organization: an append for one
  organization that names an execution of another one is accepted, because only the entry types that
  move the execution look it up by organization and the foreign key is on the execution id alone.\<close>

theorem appendLedgerEntry_action_crosses_organizations:
  "\<exists>(E :: env) (w :: audit_world) input row w'. executions_ok w \<and> ledger_inv E w \<and>
     appendLedgerEntry E Pool input w = (Inr row, w') \<and> le_organization_id row = ''other'' \<and>
     (\<exists>x\<in>set (executions w'). ex_id x = le_execution_id row \<and> ex_organization_id x = ''org'')"
proof -
  let ?input = "sample_append\<lparr>al_organizationId := ''other'', al_entryType := ActionCompleted\<rparr>"
  have "append_time sample_env ?input sample_world = append_time sample_env sample_append sample_world"
    by (simp add: append_time_def)
  then have "append_ready sample_env ?input sample_world"
    using sample_append_ready
    by (simp add: append_ready_def target_status_def sample_append_def sample_world_def empty_audit_def latest_of_def)
  from append_succeeds [OF sample_crypto_ok(2) sample_world_ok this] obtain row w' where
    tx: "appendLedgerEntryInTransaction sample_env ?input sample_world = (Inr row, w')" by blast
  have run: "appendLedgerEntry sample_env Pool ?input sample_world = (Inr row, w')"
    using tx by (simp add: appendLedgerEntry_def inr_iffs assertIsPool_def)
  note a = append_Inr [OF tx sample_world_ok(2)]
  have "le_organization_id row = ''other''" using a(1) by (simp add: appended_def)
  moreover have "map ex_id (executions w') = [''e1'']" "map ex_organization_id (executions w') = [''org'']"
    using a(5,6) by (simp_all add: sample_world_def sample_execution_def)
  then have "\<exists>x\<in>set (executions w'). ex_id x = le_execution_id row \<and> ex_organization_id x = ''org''"
    using a(1) by (auto simp: appended_def sample_append_def)
  ultimately show ?thesis using run sample_world_ok by blast
qed

end
