(* ===== verification/Events.thy ===== *)
theory Events
  imports Ledger
begin

text \<open>
  \<open>packages/audit-kernel/src/execution/events.ts\<close>: the append-only event store of Execution Graph V2.
  \<open>events_from\<close> is the abstract view of the events of one execution, in insertion order: sequences
  1, 2, 3, ..., and parents only among the events before.  \<open>events_inv\<close> says that every execution's
  events are such a sequence.
\<close>

record append_event_input =
  ae_organizationId :: id
  ae_executionId :: id
  ae_eventType :: string
  ae_status :: string
  ae_parentEventIds :: "id list"
  ae_inputHash :: "string option"
  ae_outputHash :: "string option"
  ae_metadata :: "json option"
  ae_occurredAtCanonical :: "string option"

definition assertEventsPool :: "db_handle \<Rightarrow> err + unit" where
  "assertEventsPool db = assertS (db = Pool)
     (PlainError ''appendExecutionEvent requires a Pool and always opens its own transaction.'')"

text \<open>\<open>[...new Set(ids)].sort(...)\<close> by code units.\<close>

definition uniqueSortedIds :: "id list \<Rightarrow> id list" where
  "uniqueSortedIds ids = sort (remdups ids)"

text \<open>\<open>input.metadata ?? {}\<close>.\<close>

definition event_metadata :: "append_event_input \<Rightarrow> json" where
  "event_metadata input =
     (case ae_metadata input of
        None \<Rightarrow> JObj []
      | Some m \<Rightarrow> if m = JNull \<or> m = JUndef then JObj [] else m)"

fun is_obj :: "json \<Rightarrow> bool" where
  "is_obj (JObj _) = True"
| "is_obj _ = False"

definition assertEventEvidence :: "append_event_input \<Rightarrow> err + unit" where
  "assertEventEvidence input =
     bindS (assertS (ae_eventType input \<in> set EXECUTION_EVENT_TYPES) (EventError ''UNKNOWN_EVENT_TYPE'')) (\<lambda>_.
     bindS (assertSha256Hex ''input_hash'' (ae_inputHash input)) (\<lambda>_.
     bindS (assertSha256Hex ''output_hash'' (ae_outputHash input)) (\<lambda>_.
     bindS (assertS (is_obj (event_metadata input)) (EvidenceError ''metadata'')) (\<lambda>_.
     case canonicalize (event_metadata input) of
       Inl e \<Rightarrow> Inl (EvidenceError ''metadata'')
     | Inr text \<Rightarrow> Inr ()))))"

text \<open>One turn of the loop over the parents.\<close>

definition check_parent :: "id \<Rightarrow> id \<Rightarrow> int \<Rightarrow> event_row list \<Rightarrow> id \<Rightarrow> err + unit" where
  "check_parent org exec nextSequence parents parentId =
     (case find (\<lambda>r. ev_id r = parentId) parents of
        None \<Rightarrow> Inl (EventError ''PARENT_NOT_FOUND'')
      | Some parent \<Rightarrow>
          if ev_organization_id parent \<noteq> org then Inl (EventError ''PARENT_CROSS_ORGANIZATION'')
          else if ev_execution_id parent \<noteq> exec then Inl (EventError ''PARENT_CROSS_EXECUTION'')
          else if ev_event_sequence parent \<ge> nextSequence then Inl (EventError ''PARENT_SEQUENCE'')
          else Inr ())"

definition max_sequence :: "event_row list \<Rightarrow> int" where
  "max_sequence rows = foldr max (map ev_event_sequence rows) 0"

definition normalizeEvent :: "event_row \<Rightarrow> event_row" where
  "normalizeEvent row = row\<lparr>ev_metadata :=
     (case ev_metadata row of JObj kvs \<Rightarrow> JObj kvs | JArr xs \<Rightarrow> JArr xs | _ \<Rightarrow> JObj [])\<rparr>"

definition appendExecutionEventInTransaction ::
    "'a env_scheme \<Rightarrow> append_event_input \<Rightarrow> (err, 'w audit_world_scheme, event_row) op" where
  "appendExecutionEventInTransaction E input =
     bindE (liftE (assertEventEvidence input)) (\<lambda>_.
     bindE (case ae_occurredAtCanonical input of
         None \<Rightarrow> canonicalTimestampNow E | Some t \<Rightarrow> ret t) (\<lambda>occurredAtCanonical.
     bindE (liftE (assertCanonicalUtcTimestamp ''occurred_at_canonical'' occurredAtCanonical)) (\<lambda>_.
     bindE (drawE (randomUUID E)) (\<lambda>i.
     let parentEventIds = uniqueSortedIds (ae_parentEventIds input) in
     bindE (getExecution (ae_organizationId input) (ae_executionId input)) (\<lambda>locked.
     bindE (expectE locked execution_not_found) (\<lambda>_.
     bindE (getsE (\<lambda>w. max_sequence (filter (\<lambda>r. ev_organization_id r = ae_organizationId input \<and>
         ev_execution_id r = ae_executionId input) (execution_events w)))) (\<lambda>n.
     let nextSequence = n + 1 in
     bindE (getsE (\<lambda>w. filter (\<lambda>r. ev_id r \<in> set parentEventIds) (execution_events w))) (\<lambda>parents.
     bindE (liftE (mapS (check_parent (ae_organizationId input) (ae_executionId input) nextSequence parents)
       parentEventIds)) (\<lambda>_.
     bindE (expectE (date_parse occurredAtCanonical) invalid_datetime) (\<lambda>occurredAt.
     bindE (insert_event
       \<lparr>ev_id = i, ev_organization_id = ae_organizationId input,
        ev_execution_id = ae_executionId input, ev_event_sequence = nextSequence,
        ev_event_type = ae_eventType input, ev_status = ae_status input,
        ev_parent_event_ids = parentEventIds, ev_input_hash = ae_inputHash input,
        ev_output_hash = ae_outputHash input, ev_metadata = event_metadata input,
        ev_occurred_at = occurredAt, ev_occurred_at_canonical = occurredAtCanonical\<rparr>) (\<lambda>row.
     ret (normalizeEvent row))))))))))))"

definition appendExecutionEvent ::
    "'a env_scheme \<Rightarrow> db_handle \<Rightarrow> append_event_input \<Rightarrow> (err, 'w audit_world_scheme, event_row) op" where
  "appendExecutionEvent E db input =
     bindE (liftE (assertEventsPool db)) (\<lambda>_.
     txnE restore_audit (appendExecutionEventInTransaction E input))"

definition listExecutionEvents :: "id \<Rightarrow> id \<Rightarrow> (err, 'w audit_world_scheme, event_row list) op" where
  "listExecutionEvents organizationId executionId = getsE (\<lambda>w.
     map normalizeEvent (sort_key ev_event_sequence
       (filter (\<lambda>r. ev_organization_id r = organizationId \<and> ev_execution_id r = executionId)
          (execution_events w))))"

subsection \<open>The events of an execution\<close>

definition event_ok :: "event_row \<Rightarrow> bool" where
  "event_ok e \<longleftrightarrow>
     ev_event_type e \<in> set EXECUTION_EVENT_TYPES \<and>
     is_obj (ev_metadata e) \<and> in_domain (ev_metadata e) \<and>
     date_parse (ev_occurred_at_canonical e) = Some (ev_occurred_at e) \<and>
     is_pg_integer (ev_event_sequence e) \<and>
     (\<forall>h. ev_input_hash e = Some h \<or> ev_output_hash e = Some h \<longrightarrow> isSha256Hex h)"

fun events_from :: "id \<Rightarrow> int \<Rightarrow> id set \<Rightarrow> event_row list \<Rightarrow> bool" where
  "events_from org n seen [] = True"
| "events_from org n seen (e # es) \<longleftrightarrow>
     ev_organization_id e = org \<and> ev_event_sequence e = n \<and> set (ev_parent_event_ids e) \<subseteq> seen \<and>
     sorted (ev_parent_event_ids e) \<and> distinct (ev_parent_event_ids e) \<and> event_ok e \<and>
     events_from org (n + 1) (insert (ev_id e) seen) es"

definition events_of :: "id \<Rightarrow> 'w audit_world_scheme \<Rightarrow> event_row list" where
  "events_of exec w = filter (\<lambda>r. ev_execution_id r = exec) (execution_events w)"

definition events_inv :: "'w audit_world_scheme \<Rightarrow> bool" where
  "events_inv w \<longleftrightarrow>
     (\<forall>x\<in>set (executions w). events_from (ex_organization_id x) 1 {} (events_of (ex_id x) w)) \<and>
     (\<forall>e\<in>set (execution_events w). \<exists>x\<in>set (executions w). ex_id x = ev_execution_id e) \<and>
     distinct (map ev_id (execution_events w))"

lemma events_from_append:
  "events_from org n seen (es @ fs) \<longleftrightarrow>
     events_from org n seen es \<and> events_from org (n + int (length es)) (seen \<union> ev_id ` set es) fs"
  by (induction es arbitrary: n seen) (auto simp: algebra_simps Un_insert_left Un_insert_right)

lemma events_from_mem:
  "events_from org n seen es \<Longrightarrow> e \<in> set es \<Longrightarrow>
   ev_organization_id e = org \<and> event_ok e \<and> sorted (ev_parent_event_ids e) \<and> distinct (ev_parent_event_ids e) \<and>
   n \<le> ev_event_sequence e \<and> ev_event_sequence e < n + int (length es) \<and>
   set (ev_parent_event_ids e) \<subseteq> seen \<union> ev_id ` set es"
  by (induction es arbitrary: n seen) fastforce+

lemma events_from_seq: "events_from org n seen es \<Longrightarrow> i < length es \<Longrightarrow>
  ev_event_sequence (es ! i) = n + int i"
proof (induction es arbitrary: n seen i)
  case (Cons e es)
  then show ?case by (cases i) auto
qed simp

lemma events_from_sorted: "events_from org n seen es \<Longrightarrow> sorted (map ev_event_sequence es)"
  by (auto simp: sorted_iff_nth_mono events_from_seq)

lemma events_from_distinct: "events_from org n seen es \<Longrightarrow> distinct (map ev_event_sequence es)"
  by (auto simp: distinct_conv_nth events_from_seq)

lemma max_sequence_from:
  assumes "events_from org n seen es" "0 \<le> n"
  shows "max_sequence es = (if es = [] then 0 else n + int (length es) - 1)"
  using assms
proof (induction es arbitrary: n seen)
  case (Cons e es)
  have "max_sequence es = (if es = [] then 0 else n + 1 + int (length es) - 1)"
    using Cons.prems by (intro Cons.IH [of _ "insert (ev_id e) seen"]) auto
  with Cons.prems show ?case by (auto simp: max_sequence_def)
qed (simp add: max_sequence_def)

subsection \<open>What a successful append does\<close>

lemma insert_event_Inr:
  "insert_event row w = (Inr r, w') \<longleftrightarrow>
     r = row \<and> w' = w\<lparr>execution_events := execution_events w @ [row]\<rparr> \<and>
     is_pg_integer (ev_event_sequence row) \<and> ev_event_sequence row > 0 \<and>
     ev_event_type row \<in> set EXECUTION_EVENT_TYPES \<and>
     (\<forall>r\<in>set (execution_events w). ev_id r \<noteq> ev_id row \<and>
        \<not> (ev_execution_id r = ev_execution_id row \<and> ev_event_sequence r = ev_event_sequence row)) \<and>
     (\<exists>x\<in>set (executions w). ex_id x = ev_execution_id row \<and>
        ex_organization_id x = ev_organization_id row)"
  by (auto simp: insert_event_def inr_iffs)

lemma normalizeEvent_obj [simp]: "is_obj (ev_metadata e) \<Longrightarrow> normalizeEvent e = e"
  by (cases "ev_metadata e") (simp_all add: normalizeEvent_def)

lemma assertEventEvidence_Inr:
  assumes "assertEventEvidence input = Inr u"
  shows "ae_eventType input \<in> set EXECUTION_EVENT_TYPES" "is_obj (event_metadata input)"
    "in_domain (event_metadata input)"
    "\<forall>h. ae_inputHash input = Some h \<or> ae_outputHash input = Some h \<longrightarrow> isSha256Hex h"
  using assms
  by (auto simp: assertEventEvidence_def canonicalize_def encode_Inr_iff split: sum.splits)

lemma uniqueSortedIds_simps [simp]:
  "set (uniqueSortedIds ids) = set ids" "sorted (uniqueSortedIds ids)" "distinct (uniqueSortedIds ids)"
  by (simp_all add: uniqueSortedIds_def)

lemma check_parent_Inr:
  "check_parent org exec n rows p = Inr u \<longleftrightarrow>
     (\<exists>r. find (\<lambda>r. ev_id r = p) rows = Some r \<and> ev_organization_id r = org \<and>
        ev_execution_id r = exec \<and> ev_event_sequence r < n)"
  by (auto simp: check_parent_def split: option.splits if_splits)

text \<open>How the state after the append relates to the one before.\<close>

definition event_appended ::
    "append_event_input \<Rightarrow> 'w audit_world_scheme \<Rightarrow> event_row \<Rightarrow> 'w audit_world_scheme \<Rightarrow> bool" where
  "event_appended input w row w' \<longleftrightarrow>
     ev_organization_id row = ae_organizationId input \<and> ev_execution_id row = ae_executionId input \<and>
     ev_event_type row = ae_eventType input \<and> ev_status row = ae_status input \<and>
     ev_input_hash row = ae_inputHash input \<and> ev_output_hash row = ae_outputHash input \<and>
     ev_metadata row = event_metadata input \<and>
     ev_parent_event_ids row = uniqueSortedIds (ae_parentEventIds input) \<and>
     ev_event_sequence row = max_sequence (filter (\<lambda>r. ev_organization_id r = ae_organizationId input \<and>
         ev_execution_id r = ae_executionId input) (execution_events w)) + 1 \<and>
     (\<forall>p\<in>set (ae_parentEventIds input). \<exists>r\<in>set (execution_events w). ev_id r = p \<and>
        ev_organization_id r = ae_organizationId input \<and> ev_execution_id r = ae_executionId input \<and>
        ev_event_sequence r < ev_event_sequence row) \<and>
     event_ok row \<and> (\<forall>r\<in>set (execution_events w). ev_id r \<noteq> ev_id row) \<and>
     (\<exists>x\<in>set (executions w). ex_id x = ae_executionId input \<and>
        ex_organization_id x = ae_organizationId input) \<and>
     (\<exists>n. w' = w\<lparr>execution_events := execution_events w @ [row], draws := n\<rparr>)"

lemma mapS_check_Inr: "mapS f xs = Inr (us :: unit list) \<longleftrightarrow> (\<forall>x\<in>set xs. f x = Inr ()) \<and> length us = length xs"
proof (induction xs arbitrary: us)
  case (Cons x xs)
  then show ?case by (cases us) auto
qed auto

lemma append_event_Inr:
  assumes "appendExecutionEventInTransaction E input w = (Inr row, w')"
  shows "event_appended input w row w'"
proof -
  let ?org = "ae_organizationId input" and ?exec = "ae_executionId input"
  let ?ps = "uniqueSortedIds (ae_parentEventIds input)"
  let ?n = "max_sequence (filter (\<lambda>r. ev_organization_id r = ?org \<and> ev_execution_id r = ?exec)
      (execution_events w)) + 1"
  from assms obtain u1 ts w1 i x us t r where
    ev: "assertEventEvidence input = Inr u1"
    and ts: "(case ae_occurredAtCanonical input of
         None \<Rightarrow> canonicalTimestampNow E | Some t \<Rightarrow> ret t) w = (Inr ts, w1)"
    and x: "find (\<lambda>r. ex_id r = ?exec \<and> ex_organization_id r = ?org) (executions w1) = Some x"
    and par: "mapS (check_parent ?org ?exec (max_sequence (filter (\<lambda>r. ev_organization_id r = ?org \<and>
         ev_execution_id r = ?exec) (execution_events w1)) + 1)
       (filter (\<lambda>r. ev_id r \<in> set ?ps) (execution_events w1))) ?ps = Inr us"
    and t: "date_parse ts = Some t"
    and ins: "insert_event
       \<lparr>ev_id = i, ev_organization_id = ?org, ev_execution_id = ?exec,
        ev_event_sequence = max_sequence (filter (\<lambda>r. ev_organization_id r = ?org \<and>
         ev_execution_id r = ?exec) (execution_events w1)) + 1,
        ev_event_type = ae_eventType input, ev_status = ae_status input,
        ev_parent_event_ids = ?ps, ev_input_hash = ae_inputHash input,
        ev_output_hash = ae_outputHash input, ev_metadata = event_metadata input,
        ev_occurred_at = t, ev_occurred_at_canonical = ts\<rparr> (w1\<lparr>draws := Suc (draws w1)\<rparr>) = (Inr r, w')"
    and row: "row = normalizeEvent r"
    unfolding appendExecutionEventInTransaction_def Let_def inr_iffs drawE_Inr getExecution_def
    by auto
  obtain m where w1: "w1 = w\<lparr>draws := m\<rparr>"
    using ts by (auto simp: canonicalTimestampNow_def drawE_Inr inr_iffs split: option.splits intro: that [of "draws w"])
  note evd = assertEventEvidence_Inr [OF ev]
  note r = ins [unfolded insert_event_Inr w1, simplified]
  have "row = r" using row r evd(2) by simp
  moreover have "\<forall>p\<in>set (ae_parentEventIds input). \<exists>e\<in>set (execution_events w). ev_id e = p \<and>
      ev_organization_id e = ?org \<and> ev_execution_id e = ?exec \<and> ev_event_sequence e < ?n"
    using par by (fastforce simp: mapS_check_Inr check_parent_Inr w1 dest!: find_SomeD)
  moreover have "event_ok r" using r evd t by (auto simp: event_ok_def)
  moreover have "w' = w\<lparr>execution_events := execution_events w @ [r], draws := Suc m\<rparr>" using r by simp
  ultimately show ?thesis using r unfolding event_appended_def by (intro conjI exI [of _ "Suc m"]) auto
qed

subsection \<open>The invariant of the event store\<close>

lemma events_inv_cong:
  assumes "map ex_id (executions w') = map ex_id (executions w)"
    "map ex_organization_id (executions w') = map ex_organization_id (executions w)"
    "execution_events w' = execution_events w"
  shows "events_inv w' \<longleftrightarrow> events_inv w"
proof -
  have pairs: "map (\<lambda>x. (ex_id x, ex_organization_id x)) (executions w') =
      map (\<lambda>x. (ex_id x, ex_organization_id x)) (executions w)"
    using assms(1,2) by (simp add: list_eq_iff_nth_eq)
  have set_eq: "(\<lambda>x. (ex_id x, ex_organization_id x)) ` set (executions w') =
      (\<lambda>x. (ex_id x, ex_organization_id x)) ` set (executions w)"
    using arg_cong [OF pairs, of set] by simp
  have all: "(\<forall>x\<in>set (executions v). P (ex_id x) (ex_organization_id x)) \<longleftrightarrow>
      (\<forall>p\<in>(\<lambda>x. (ex_id x, ex_organization_id x)) ` set (executions v). P (fst p) (snd p))"
    and ex: "(\<exists>x\<in>set (executions v). ex_id x = i) \<longleftrightarrow>
      (\<exists>p\<in>(\<lambda>x. (ex_id x, ex_organization_id x)) ` set (executions v). fst p = i)"
    for P v i by auto
  show ?thesis
    unfolding events_inv_def events_of_def assms(3) ex
      all [of _ "\<lambda>i org. events_from org 1 {} (filter (\<lambda>r. ev_execution_id r = i) (execution_events w))"]
      set_eq ..
qed

lemma events_of_org:
  assumes "events_inv w" "x \<in> set (executions w)"
  shows "filter (\<lambda>r. ev_organization_id r = org \<and> ev_execution_id r = ex_id x) (execution_events w) =
    (if org = ex_organization_id x then events_of (ex_id x) w else [])"
proof -
  have "events_from (ex_organization_id x) 1 {} (events_of (ex_id x) w)"
    using assms by (simp add: events_inv_def)
  then have "ev_organization_id e = ex_organization_id x" if "e \<in> set (execution_events w)" "ev_execution_id e = ex_id x" for e
    using events_from_mem [of "ex_organization_id x" 1 "{}" "events_of (ex_id x) w" e] that
    by (simp add: events_of_def)
  then show ?thesis by (auto simp: events_of_def filter_empty_conv intro!: filter_cong)
qed

lemma max_sequence_events:
  "events_from org 1 {} es \<Longrightarrow> max_sequence es = int (length es)"
  using max_sequence_from [of org 1 "{}" es] by simp

lemma append_event_inv:
  assumes inv: "events_inv w" and ok: "executions_ok w" and app: "event_appended input w row w'"
  shows "events_inv w'" "ev_event_sequence row = int (length (events_of (ae_executionId input) w)) + 1"
proof -
  obtain x where x: "x \<in> set (executions w)" "ex_id x = ae_executionId input"
      "ex_organization_id x = ae_organizationId input"
    using app by (auto simp: event_appended_def)
  let ?es = "events_of (ae_executionId input) w"
  have es: "events_from (ae_organizationId input) 1 {} ?es"
    using inv x by (auto simp: events_inv_def)
  have sel: "filter (\<lambda>r. ev_organization_id r = ae_organizationId input \<and>
      ev_execution_id r = ae_executionId input) (execution_events w) = ?es"
    using events_of_org [OF inv x(1), of "ae_organizationId input"] x(2,3) by simp
  show seq: "ev_event_sequence row = int (length ?es) + 1"
    using app sel max_sequence_events [OF es] by (simp add: event_appended_def)
  have w': "execution_events w' = execution_events w @ [row]" "executions w' = executions w"
    and row: "ev_execution_id row = ae_executionId input" "ev_organization_id row = ae_organizationId input"
      "ev_parent_event_ids row = uniqueSortedIds (ae_parentEventIds input)" "event_ok row"
    using app by (auto simp: event_appended_def)
  have "set (ae_parentEventIds input) \<subseteq> ev_id ` set ?es"
    using app by (auto simp: event_appended_def events_of_def)
  then have new: "events_from (ae_organizationId input) 1 {} (?es @ [row])"
    using es row seq by (simp add: events_from_append)
  have "events_from (ex_organization_id y) 1 {} (events_of (ex_id y) w')" if y: "y \<in> set (executions w)" for y
  proof (cases "ex_id y = ae_executionId input")
    case True
    then have "y = x" using key_only [of "executions w" x y] ok x y by (simp add: executions_ok_def)
    then show ?thesis using new x row(1) by (simp add: events_of_def w')
  next
    case False
    then show ?thesis using inv y row(1) by (auto simp: events_of_def w' events_inv_def)
  qed
  then show "events_inv w'"
    using inv app x by (auto simp: events_inv_def w' event_appended_def)
qed

lemma open_events_inv:
  assumes "executions w' = executions w @ [r]" "execution_events w' = execution_events w"
    and "\<forall>x\<in>set (executions w). ex_id x \<noteq> ex_id r" and "events_inv w"
  shows "events_inv w'"
proof -
  have "events_of (ex_id r) w' = []"
    using assms by (fastforce simp: events_of_def events_inv_def filter_empty_conv)
  moreover have "events_of i w' = events_of i w" for i by (simp add: events_of_def assms(2))
  ultimately show ?thesis using assms(4) by (auto simp: events_inv_def assms(1,2))
qed

lemma listExecutionEvents_run:
  assumes "events_inv w" "x \<in> set (executions w)"
  shows "listExecutionEvents org (ex_id x) w =
    (Inr (if org = ex_organization_id x then events_of (ex_id x) w else []), w)"
proof -
  have ev: "events_from (ex_organization_id x) 1 {} (events_of (ex_id x) w)"
    using assms by (simp add: events_inv_def)
  have "sort_key ev_event_sequence (events_of (ex_id x) w) = events_of (ex_id x) w"
    using events_from_sorted [OF ev] by (rule sort_key_id)
  moreover have "map normalizeEvent (events_of (ex_id x) w) = events_of (ex_id x) w"
    using events_from_mem [OF ev] by (intro map_idI) (auto simp: event_ok_def)
  ultimately show ?thesis
    using events_of_org [OF assms, of org] by (simp add: listExecutionEvents_def run)
qed

text \<open>Everything the audit kernel keeps true of its tables.\<close>

definition audit_inv :: "'a crypto_scheme \<Rightarrow> 'w audit_world_scheme \<Rightarrow> bool" where
  "audit_inv C w \<longleftrightarrow> executions_ok w \<and> ledger_inv C w \<and> events_inv w"

lemma audit_inv_empty: "audit_inv C empty_audit"
  using ledger_inv_empty [of C]
  by (simp add: audit_inv_def executions_ok_def events_inv_def empty_audit_def)

lemma audit_inv_tables:
  assumes "tables_equal w w'"
  shows "audit_inv C w' \<longleftrightarrow> audit_inv C w"
  using assms tables_equal_inv(1) [OF assms, of C] tables_equal_inv(2) [OF assms] events_inv_cong [of w' w]
  by (simp add: audit_inv_def tables_equal_def)

lemma audit_inv_open:
  assumes "openExecution E input w = (res, w')" "audit_inv C w"
  shows "audit_inv C w'" "executions_evolve w w'"
proof -
  show "executions_evolve w w'" using openExecution_keeps [OF assms(1)] assms(2) by (simp add: audit_inv_def)
  show "audit_inv C w'"
  proof (cases res)
    case (Inl e)
    with assms(1) have "tables_equal w w'" using openExecution_Inl [of E input w e w'] by (auto simp: tables_equal_def)
    with assms(2) show ?thesis by (simp add: audit_inv_tables)
  next
    case (Inr r)
    with assms(1) have run: "openExecution E input w = (Inr r, w')" by simp
    note o = openExecution_Inr [OF run]
    have "ledger_inv C w'" using assms(2) o ledger_inv_cong [of w' w C] by (simp add: audit_inv_def)
    moreover have "events_inv w'"
      using open_events_inv [OF o(1) o(9)] o(5) assms(2) by (simp add: audit_inv_def)
    ultimately show ?thesis
      using openExecution_keeps(1) [OF assms(1)] assms(2) by (simp add: audit_inv_def)
  qed
qed

lemma audit_inv_setStatus:
  assumes "setExecutionStatus i st org fin cmpl w = (res, w')" "audit_inv C w"
  shows "audit_inv C w'" "executions_evolve w w'"
proof -
  have ok: "executions_ok w" using assms(2) by (simp add: audit_inv_def)
  note k = setExecutionStatus_keeps [OF assms(1) ok]
  obtain xs where "w' = w\<lparr>executions := xs\<rparr>" using k(5) by blast
  then show "audit_inv C w'"
    using k(1,3,4) assms(2) ledger_inv_cong [of w' w C] events_inv_cong [of w' w]
    by (simp add: audit_inv_def)
  show "executions_evolve w w'" by (rule k(2))
qed

lemma audit_inv_append:
  assumes "appendLedgerEntryInTransaction E input w = (Inr row, w')" "audit_inv E w"
  shows "audit_inv E w'" "executions_evolve w w'"
proof -
  have ok: "executions_ok w" "ledger_inv E w" "events_inv w" using assms(2) by (simp_all add: audit_inv_def)
  note a = append_Inr [OF assms(1) ok(1)]
  show "audit_inv E w'"
    using append_ledger_inv [OF ok(2) a(1,2)] a(1,3,5,6) ok(3) events_inv_cong [of w' w]
    by (simp add: audit_inv_def appended_def)
  show "executions_evolve w w'" by (rule a(4))
qed

lemma audit_inv_append_event:
  assumes "appendExecutionEventInTransaction E input w = (Inr row, w')" "audit_inv C w"
  shows "audit_inv C w'" "executions_evolve w w'"
proof -
  note app = append_event_Inr [OF assms(1)]
  then have same: "executions w' = executions w" "chain_state w' = chain_state w"
    "ledger_entries w' = ledger_entries w" "merkle_checkpoints w' = merkle_checkpoints w"
    by (auto simp: event_appended_def)
  then show "audit_inv C w'"
    using append_event_inv(1) [OF _ _ app] assms(2) ledger_inv_cong [of w' w C]
    by (simp add: audit_inv_def executions_ok_def)
  show "executions_evolve w w'" by (rule evolve_same [OF same(1)])
qed

lemma appendExecutionEvent_cases:
  assumes "appendExecutionEvent E db input w = (res, w')"
  obtains (error) e where "res = Inl e" "tables_equal w w'"
  | (success) row where "res = Inr row" "db = Pool"
      "appendExecutionEventInTransaction E input w = (Inr row, w')"
proof (cases res)
  case (Inl e)
  with assms have "tables_equal w w'"
    by (auto simp: appendExecutionEvent_def inl_iffs basic_Inr)
  with Inl show ?thesis by (rule error)
next
  case (Inr row)
  with assms success show ?thesis
    by (auto simp: appendExecutionEvent_def inr_iffs assertEventsPool_def)
qed

subsection \<open>When an append succeeds\<close>

definition event_time :: "'a env_scheme \<Rightarrow> append_event_input \<Rightarrow> 'w world_scheme \<Rightarrow> string" where
  "event_time E input w =
     (case ae_occurredAtCanonical input of None \<Rightarrow> iso_string (clock E (draws w)) | Some t \<Rightarrow> t)"

definition event_ready :: "'a env_scheme \<Rightarrow> append_event_input \<Rightarrow> 'w audit_world_scheme \<Rightarrow> bool" where
  "event_ready E input w \<longleftrightarrow>
     assertEventEvidence input = Inr () \<and>
     (\<exists>t. four_digit_year t \<and> event_time E input w = iso_string t) \<and>
     (\<exists>x\<in>set (executions w). ex_id x = ae_executionId input \<and>
        ex_organization_id x = ae_organizationId input) \<and>
     set (ae_parentEventIds input) \<subseteq> ev_id ` set (events_of (ae_executionId input) w) \<and>
     int (length (events_of (ae_executionId input) w)) < 2147483647 \<and>
     (\<forall>n. \<forall>e\<in>set (execution_events w). ev_id e \<noteq> randomUUID E (draws w + n))"

lemma append_event_succeeds:
  assumes inv: "events_inv w" and ok: "executions_ok w" and ready: "event_ready E input w"
  shows "\<exists>row w'. appendExecutionEventInTransaction E input w = (Inr row, w')"
proof -
  let ?org = "ae_organizationId input" and ?exec = "ae_executionId input"
  let ?ps = "uniqueSortedIds (ae_parentEventIds input)"
  let ?es = "events_of ?exec w"
  obtain x where x: "x \<in> set (executions w)" "ex_id x = ?exec" "ex_organization_id x = ?org"
    using ready by (auto simp: event_ready_def)
  obtain t where t: "four_digit_year t" "event_time E input w = iso_string t"
    using ready by (auto simp: event_ready_def)
  have es: "events_from ?org 1 {} ?es" using inv x by (auto simp: events_inv_def)
  have sel: "filter (\<lambda>r. ev_organization_id r = ?org \<and> ev_execution_id r = ?exec) (execution_events w) = ?es"
    using events_of_org [OF inv x(1), of ?org] x(2,3) by simp
  obtain k where w1: "(case ae_occurredAtCanonical input of None \<Rightarrow> canonicalTimestampNow E | Some t \<Rightarrow> ret t) w =
      (Inr (iso_string t), w\<lparr>draws := draws w + k\<rparr>)"
    using t(2) by (auto simp: event_time_def canonicalTimestampNow_def run split: option.splits
        intro: that [of 0] that [of 1])
  let ?w1 = "w\<lparr>draws := draws w + k\<rparr>"
  let ?w2 = "?w1\<lparr>draws := Suc (draws ?w1)\<rparr>"
  have tsok: "assertCanonicalUtcTimestamp ''occurred_at_canonical'' (iso_string t) = Inr ()"
    using assertCanonicalUtcTimestamp_accepts t(1) by blast
  have ev: "assertEventEvidence input = Inr ()" using ready by (simp add: event_ready_def)
  have locked: "\<exists>y. find (\<lambda>r. ex_id r = ?exec \<and> ex_organization_id r = ?org) (executions w) = Some y"
    using x by (cases "find (\<lambda>r. ex_id r = ?exec \<and> ex_organization_id r = ?org) (executions w)")
      (auto simp: find_None_iff)
  then obtain y where y: "getExecution ?org ?exec ?w2 = (Inr (Some y), ?w2)"
    by (auto simp: getExecution_def run)
  have max: "max_sequence ?es = int (length ?es)" by (rule max_sequence_events [OF es])
  have "check_parent ?org ?exec (int (length ?es) + 1)
      (filter (\<lambda>r. ev_id r \<in> set ?ps) (execution_events w)) p = Inr ()" if p: "p \<in> set ?ps" for p
  proof -
    obtain r where r: "r \<in> set ?es" "ev_id r = p"
      using ready p by (auto simp: event_ready_def)
    have mem: "r \<in> set (execution_events w)" "ev_execution_id r = ?exec"
      using r(1) by (simp_all add: events_of_def)
    have "distinct (map ev_id (filter (\<lambda>r. ev_id r \<in> set ?ps) (execution_events w)))"
      using inv by (simp add: events_inv_def distinct_map_filter)
    then have "find (\<lambda>x. ev_id x = p) (filter (\<lambda>r. ev_id r \<in> set ?ps) (execution_events w)) = Some r"
      using find_key_unique [of ev_id _ r] mem r(2) p by simp
    then show ?thesis
      using events_from_mem [OF es r(1)] mem(2) by (simp add: check_parent_Inr)
  qed
  then have par: "mapS (check_parent ?org ?exec (int (length ?es) + 1)
      (filter (\<lambda>r. ev_id r \<in> set ?ps) (execution_events w))) ?ps = Inr (map (\<lambda>_. ()) ?ps)"
    by (intro mapS_Inr_map) auto
  have dp: "date_parse (iso_string t) = Some t" using t(1) parse_iso by (simp add: four_digit_year_def)
  have "\<not> (ev_execution_id r = ?exec \<and> ev_event_sequence r = int (length ?es) + 1)" if "r \<in> set (execution_events w)" for r
    using events_from_mem [OF es, of r] that by (auto simp: events_of_def)
  moreover have "ev_id r \<noteq> randomUUID E (draws w + k)" if "r \<in> set (execution_events w)" for r
    using ready that by (simp add: event_ready_def)
  moreover have "int (length ?es) < 2147483647" using ready by (simp add: event_ready_def)
  ultimately have "\<exists>r w'. insert_event
       \<lparr>ev_id = randomUUID E (draws ?w1), ev_organization_id = ?org, ev_execution_id = ?exec,
        ev_event_sequence = int (length ?es) + 1, ev_event_type = ae_eventType input,
        ev_status = ae_status input, ev_parent_event_ids = ?ps, ev_input_hash = ae_inputHash input,
        ev_output_hash = ae_outputHash input, ev_metadata = event_metadata input,
        ev_occurred_at = t, ev_occurred_at_canonical = iso_string t\<rparr> ?w2 = (Inr r, w')"
    using assertEventEvidence_Inr(1) [OF ev] x
    by (auto simp: insert_event_Inr is_pg_integer_def)
  then obtain r w' where ins: "insert_event
       \<lparr>ev_id = randomUUID E (draws ?w1), ev_organization_id = ?org, ev_execution_id = ?exec,
        ev_event_sequence = int (length ?es) + 1, ev_event_type = ae_eventType input,
        ev_status = ae_status input, ev_parent_event_ids = ?ps, ev_input_hash = ae_inputHash input,
        ev_output_hash = ae_outputHash input, ev_metadata = event_metadata input,
        ev_occurred_at = t, ev_occurred_at_canonical = iso_string t\<rparr> ?w2 = (Inr r, w')" by blast
  have "appendExecutionEventInTransaction E input w = (Inr (normalizeEvent r), w')"
    unfolding appendExecutionEventInTransaction_def Let_def
    by (rule bindE_step, rule liftE_step, rule ev, rule bindE_step, rule w1,
      rule bindE_step, rule liftE_step, rule tsok, rule bindE_step, rule run_drawE,
      rule bindE_step, rule y, rule bindE_step, rule expectE_step, rule refl)
     (use par dp ins in \<open>simp add: run sel max\<close>)
  then show ?thesis by blast
qed

subsection \<open>Properties of the event store\<close>

text \<open>A successful event append.  The execution's events, as \<open>listExecutionEvents\<close> reads them, grow
  by exactly the returned row at their end; its sequence is the next one, its parents are the input's
  without repetition and in order, and every parent is an earlier event of the same execution and
  organization.\<close>

theorem appendExecutionEvent_extends:
  assumes "appendExecutionEvent E db input w = (Inr row, w')" and "audit_inv E w"
  shows "fst (listExecutionEvents (ae_organizationId input) (ae_executionId input) w') =
      Inr (events_of (ae_executionId input) w @ [row]) \<and>
    ev_event_sequence row = int (length (events_of (ae_executionId input) w)) + 1 \<and>
    ev_parent_event_ids row = sort (remdups (ae_parentEventIds input)) \<and>
    set (ev_parent_event_ids row) \<subseteq> ev_id ` set (events_of (ae_executionId input) w) \<and>
    ev_metadata row = event_metadata input \<and> event_ok row \<and>
    audit_inv E w'"
proof -
  from assms(1) have tx: "appendExecutionEventInTransaction E input w = (Inr row, w')"
    by (cases rule: appendExecutionEvent_cases) auto
  note app = append_event_Inr [OF tx]
  note inv' = audit_inv_append_event(1) [OF tx assms(2)]
  obtain x where x: "x \<in> set (executions w')" "ex_id x = ae_executionId input"
      "ex_organization_id x = ae_organizationId input"
    using app by (auto simp: event_appended_def)
  have "events_of (ae_executionId input) w' = events_of (ae_executionId input) w @ [row]"
    using app by (auto simp: event_appended_def events_of_def)
  then have list: "fst (listExecutionEvents (ae_organizationId input) (ae_executionId input) w') =
      Inr (events_of (ae_executionId input) w @ [row])"
    using listExecutionEvents_run [of w' x "ae_organizationId input"] inv' x by (simp add: audit_inv_def)
  have parents: "set (ae_parentEventIds input) \<subseteq> ev_id ` set (events_of (ae_executionId input) w)"
    using app by (auto simp: event_appended_def events_of_def)
  show ?thesis
    using list inv' app parents append_event_inv(2) [OF _ _ app] assms(2)
    by (simp add: event_appended_def audit_inv_def uniqueSortedIds_def)
qed

text \<open>A failed event append changes nothing in the database, whichever check or constraint made it
  throw.\<close>

theorem appendExecutionEvent_atomic:
  assumes "appendExecutionEvent E db input w = (Inl e, w')"
  shows "tables_equal w w'"
  using assms by (cases rule: appendExecutionEvent_cases) auto

text \<open>An event append does succeed when it should: with valid evidence, a time in the years 0000 to
  9999, an execution of the organization, parents among the execution's events and no repeated random
  identifier, the event is recorded, whatever the execution's status is.\<close>

theorem appendExecutionEvent_succeeds:
  assumes "audit_inv C w" and "event_ready E input w"
  shows "\<exists>row w'. appendExecutionEvent E Pool input w = (Inr row, w')"
  using append_event_succeeds [of w E input] assms
  by (auto simp: appendExecutionEvent_def inr_iffs assertEventsPool_def audit_inv_def)

definition sample_event :: append_event_input where
  "sample_event = \<lparr>ae_organizationId = ''org'', ae_executionId = ''e1'',
     ae_eventType = ''execution.created'', ae_status = ''ok'', ae_parentEventIds = [],
     ae_inputHash = None, ae_outputHash = None, ae_metadata = Some (JObj [(''n'', JNum 1)]),
     ae_occurredAtCanonical = Some ''2026-01-01T00:00:00.000Z''\<rparr>"

lemma sample_world_audit_inv: "audit_inv C sample_world"
  using sample_world_ok(1) [of C] sample_world_ok(2)
  by (simp add: audit_inv_def events_inv_def sample_world_def empty_audit_def events_of_def)

lemma sample_event_ready: "event_ready sample_env sample_event sample_world"
proof -
  have t: "four_digit_year 1767225600000" "''2026-01-01T00:00:00.000Z'' = iso_string 1767225600000"
    by code_simp+
  have "event_time sample_env sample_event sample_world = iso_string 1767225600000"
    unfolding t(2) [symmetric] by (simp add: event_time_def sample_event_def)
  moreover have "assertEventEvidence sample_event = Inr ()" by code_simp
  ultimately show ?thesis
    using t(1)
    by (auto simp: event_ready_def sample_world_def empty_audit_def sample_execution_def sample_event_def
        events_of_def)
qed

lemma sample_event_appends:
  "\<exists>row w'. appendExecutionEvent sample_env Pool sample_event sample_world = (Inr row, w')"
  using append_event_succeeds [OF _ _ sample_event_ready] sample_world_audit_inv [of sample_env]
  by (auto simp: appendExecutionEvent_def inr_iffs assertEventsPool_def audit_inv_def)

theorem appendExecutionEvent_extends_witness:
  "\<exists>row (w' :: audit_world). fst (listExecutionEvents ''org'' ''e1'' w') = Inr [row] \<and>
     ev_event_sequence row = 1 \<and> ev_parent_event_ids row = []"
proof -
  obtain row w' where "appendExecutionEvent sample_env Pool sample_event sample_world = (Inr row, w')"
    using sample_event_appends by blast
  from appendExecutionEvent_extends [OF this sample_world_audit_inv] show ?thesis
    by (intro exI [of _ row] exI [of _ w'] conjI)
      (simp_all add: sample_event_def sample_world_def empty_audit_def events_of_def)
qed

theorem appendExecutionEvent_atomic_witness:
  "\<exists>e w'. appendExecutionEvent sample_env PoolClient sample_event sample_world = (Inl e, w') \<and>
     tables_equal sample_world w'"
proof -
  obtain e w' where "appendExecutionEvent sample_env PoolClient sample_event sample_world = (Inl e, w')"
    by (simp add: appendExecutionEvent_def assertEventsPool_def run)
  with appendExecutionEvent_atomic [OF this] show ?thesis by blast
qed

theorem appendExecutionEvent_succeeds_witness:
  "\<exists>row w'. appendExecutionEvent sample_env Pool sample_event sample_world = (Inr row, w')"
  by (rule appendExecutionEvent_succeeds [OF sample_world_audit_inv sample_event_ready])

end
