(* ===== verification/Graph.thy ===== *)
theory Graph
  imports Events
begin

text \<open>
  \<open>packages/audit-kernel/src/execution/graph-v2.ts\<close>: the Execution Graph V2 built from the events of an
  execution, and its hash.  The main facts: the graph does not depend on the order in which the events
  are read, its hash determines it (or exhibits a collision), the graph of stored events always
  resolves, and its edges only lead from earlier to later events.
\<close>

record graph_node =
  gn_event_id :: id
  gn_sequence :: int
  gn_event_type :: string
  gn_status :: string
  gn_occurred_at_canonical :: string
  gn_input_hash :: "string option"
  gn_output_hash :: "string option"
  gn_metadata :: json

type_synonym graph_edge = "id \<times> id"

record execution_graph =
  gr_schema_version :: string
  gr_execution_id :: id
  gr_verity_record_id :: string
  gr_organization_id :: id
  gr_status :: execution_status
  gr_nodes :: "graph_node list"
  gr_edges :: "graph_edge list"

text \<open>The fields of an execution the graph takes.\<close>

record graph_execution =
  ge_id :: id
  ge_verity_record_id :: string
  ge_organization_id :: id
  ge_status :: execution_status

definition GRAPH_SCHEMA_VERSION :: string where
  "GRAPH_SCHEMA_VERSION = EXECUTION_GRAPH_SCHEMA_VERSION"

fun sortMetadata :: "json \<Rightarrow> json" where
  "sortMetadata (JObj kvs) = JObj (sort_key fst kvs)"
| "sortMetadata m = m"

text \<open>\<open>[...new Set(xs)]\<close>: first occurrences, in order.\<close>

definition js_set :: "'a list \<Rightarrow> 'a list" where
  "js_set xs = rev (remdups (rev xs))"

definition graph_node_of :: "event_row \<Rightarrow> graph_node" where
  "graph_node_of event =
     \<lparr>gn_event_id = ev_id event, gn_sequence = ev_event_sequence event,
      gn_event_type = ev_event_type event, gn_status = ev_status event,
      gn_occurred_at_canonical = ev_occurred_at_canonical event,
      gn_input_hash = ev_input_hash event, gn_output_hash = ev_output_hash event,
      gn_metadata = sortMetadata (ev_metadata event)\<rparr>"

definition unresolved_parents :: "event_row list \<Rightarrow> id list" where
  "unresolved_parents ordered =
     concat (map (\<lambda>event. filter (\<lambda>p. p \<notin> ev_id ` set ordered) (ev_parent_event_ids event)) ordered)"

definition graph_edges :: "event_row list \<Rightarrow> graph_edge list" where
  "graph_edges ordered =
     sort (concat (map (\<lambda>event. map (\<lambda>p. (p, ev_id event)) (sort (ev_parent_event_ids event))) ordered))"

definition buildExecutionGraphV2 :: "graph_execution \<Rightarrow> event_row list \<Rightarrow> err + execution_graph" where
  "buildExecutionGraphV2 execution events =
     (let ordered = sort_key ev_event_sequence events; unresolved = unresolved_parents ordered in
      if unresolved \<noteq> [] then Inl (UnresolvedParents (js_set unresolved))
      else Inr
        \<lparr>gr_schema_version = GRAPH_SCHEMA_VERSION, gr_execution_id = ge_id execution,
         gr_verity_record_id = ge_verity_record_id execution,
         gr_organization_id = ge_organization_id execution, gr_status = ge_status execution,
         gr_nodes = map graph_node_of ordered, gr_edges = graph_edges ordered\<rparr>)"

text \<open>The graph as the JSON value that is hashed.\<close>

definition node_json :: "graph_node \<Rightarrow> json" where
  "node_json n = JObj
     [(''event_id'', JStr (gn_event_id n)), (''sequence'', JNum (gn_sequence n)),
      (''event_type'', JStr (gn_event_type n)), (''status'', JStr (gn_status n)),
      (''occurred_at_canonical'', JStr (gn_occurred_at_canonical n)),
      (''input_hash'', json_opt (gn_input_hash n)), (''output_hash'', json_opt (gn_output_hash n)),
      (''metadata'', gn_metadata n)]"

definition edge_json :: "graph_edge \<Rightarrow> json" where
  "edge_json e = JObj [(''from_event_id'', JStr (fst e)), (''to_event_id'', JStr (snd e))]"

definition graph_json :: "execution_graph \<Rightarrow> json" where
  "graph_json g = JObj
     [(''schema_version'', JStr (gr_schema_version g)), (''execution_id'', JStr (gr_execution_id g)),
      (''verity_record_id'', JStr (gr_verity_record_id g)),
      (''organization_id'', JStr (gr_organization_id g)), (''status'', JStr (status_str (gr_status g))),
      (''nodes'', JArr (map node_json (gr_nodes g))), (''edges'', JArr (map edge_json (gr_edges g)))]"

definition graph_payload :: "json \<Rightarrow> json" where
  "graph_payload graph = JObj
     [(''execution_graph_schema_version'', JStr GRAPH_SCHEMA_VERSION), (''graph'', graph)]"

definition computeExecutionGraphHash :: "'a crypto_scheme \<Rightarrow> json \<Rightarrow> err + string" where
  "computeExecutionGraphHash C graph =
     bindS (canonicalize (graph_payload graph)) (\<lambda>text. Inr (sha256Hex C text))"

subsection \<open>Facts about graphs\<close>

lemma js_set_set [simp]: "set (js_set xs) = set xs"
  by (simp add: js_set_def)

lemma unresolved_empty_iff:
  "unresolved_parents es = [] \<longleftrightarrow> (\<forall>e\<in>set es. set (ev_parent_event_ids e) \<subseteq> ev_id ` set es)"
  by (auto simp: unresolved_parents_def filter_empty_conv)

lemma build_Inr:
  "buildExecutionGraphV2 x es = Inr g \<longleftrightarrow>
     (\<forall>e\<in>set es. set (ev_parent_event_ids e) \<subseteq> ev_id ` set es) \<and>
     g = \<lparr>gr_schema_version = GRAPH_SCHEMA_VERSION, gr_execution_id = ge_id x,
         gr_verity_record_id = ge_verity_record_id x, gr_organization_id = ge_organization_id x,
         gr_status = ge_status x, gr_nodes = map graph_node_of (sort_key ev_event_sequence es),
         gr_edges = graph_edges (sort_key ev_event_sequence es)\<rparr>"
  using unresolved_empty_iff [of "sort_key ev_event_sequence es"]
  by (auto simp: buildExecutionGraphV2_def Let_def)

lemma sortMetadata_domain: "in_domain m \<Longrightarrow> in_domain (sortMetadata m)"
  by (cases m) (auto simp: list_all_iff)

lemma node_domain:
  "event_ok e \<Longrightarrow> in_domain (node_json (graph_node_of e))"
  by (auto simp: node_json_def graph_node_of_def event_ok_def sortMetadata_domain pg_integer_safe)

lemma graph_domain:
  assumes "buildExecutionGraphV2 x es = Inr g" "\<forall>e\<in>set es. event_ok e"
  shows "in_domain (graph_payload (graph_json g))"
  using assms
  by (auto simp: build_Inr graph_payload_def graph_json_def list_all_iff node_domain edge_json_def)

lemma graph_hash_total:
  assumes "buildExecutionGraphV2 x es = Inr g" "\<forall>e\<in>set es. event_ok e"
  shows "computeExecutionGraphHash C (graph_json g) =
    Inr (sha256Hex C (pr (sorted_json (graph_payload (graph_json g)))))"
  using encode_total [OF graph_domain [OF assms]]
  by (simp add: computeExecutionGraphHash_def canonicalize_def)

lemma events_from_build:
  assumes "events_from org 1 {} es"
  shows "\<exists>g. buildExecutionGraphV2 x es = Inr g"
  using events_from_mem [OF assms] by (auto simp: build_Inr)

lemma events_from_ok: "events_from org n seen es \<Longrightarrow> \<forall>e\<in>set es. event_ok e"
  using events_from_mem by blast

text \<open>The bytes a graph is hashed from.\<close>

definition graph_bytes :: "json \<Rightarrow> byte list" where
  "graph_bytes graph = utf8 (pr (sorted_json (graph_payload graph)))"

lemma graph_hash_binds:
  assumes "crypto_ok C" "in_domain (graph_payload a)" "in_domain (graph_payload b)"
    and "computeExecutionGraphHash C a = Inr h" "computeExecutionGraphHash C b = Inr h"
  shows "sorted_json a = sorted_json b \<or> collision C (graph_bytes a) (graph_bytes b)"
proof -
  let ?p = "\<lambda>g. pr (sorted_json (graph_payload g))"
  have h: "sha256Hex C (?p a) = h" "sha256Hex C (?p b) = h"
    using assms(2-5) by (simp_all add: computeExecutionGraphHash_def canonicalize_def encode_total)
  then consider "?p a = ?p b" | "collision C (graph_bytes a) (graph_bytes b)"
    using sha256Hex_eq [OF assms(1), of "?p a" "?p b"] by (auto simp: graph_bytes_def)
  then show ?thesis
  proof cases
    case 1
    then have "?p a @ [] = ?p b @ []" by simp
    then have "sorted_json (graph_payload a) = sorted_json (graph_payload b)"
      using pr_split [of "sorted_json (graph_payload a)" "sorted_json (graph_payload b)" "[]" "[]"]
        assms(2,3) by (simp add: sorted_json_domain ends_value_def)
    from sorted_obj_values [OF this [unfolded graph_payload_def], of "''graph''"]
    show ?thesis by simp
  qed simp
qed

definition nodes_agree :: "graph_node \<Rightarrow> graph_node \<Rightarrow> bool" where
  "nodes_agree n m \<longleftrightarrow>
     gn_event_id n = gn_event_id m \<and> gn_sequence n = gn_sequence m \<and> gn_event_type n = gn_event_type m \<and>
     gn_status n = gn_status m \<and> gn_occurred_at_canonical n = gn_occurred_at_canonical m \<and>
     gn_input_hash n = gn_input_hash m \<and> gn_output_hash n = gn_output_hash m \<and>
     sorted_json (gn_metadata n) = sorted_json (gn_metadata m)"

text \<open>Two graphs say the same, up to the order of keys inside metadata.\<close>

definition graphs_agree :: "execution_graph \<Rightarrow> execution_graph \<Rightarrow> bool" where
  "graphs_agree a b \<longleftrightarrow>
     gr_execution_id a = gr_execution_id b \<and> gr_verity_record_id a = gr_verity_record_id b \<and>
     gr_organization_id a = gr_organization_id b \<and> gr_status a = gr_status b \<and>
     list_all2 nodes_agree (gr_nodes a) (gr_nodes b) \<and> gr_edges a = gr_edges b"

lemma node_json_inj:
  assumes "sorted_json (node_json n) = sorted_json (node_json m)"
  shows "nodes_agree n m"
proof -
  note vals = sorted_obj_values [OF assms [unfolded node_json_def]]
  show ?thesis
    using vals [of "''event_id''"] vals [of "''sequence''"] vals [of "''event_type''"]
      vals [of "''status''"] vals [of "''occurred_at_canonical''"] vals [of "''input_hash''"]
      vals [of "''output_hash''"] vals [of "''metadata''"]
    by (simp add: nodes_agree_def)
qed

lemma edge_json_inj:
  assumes "sorted_json (edge_json e) = sorted_json (edge_json f)"
  shows "e = f"
proof -
  note vals = sorted_obj_values [OF assms [unfolded edge_json_def]]
  show ?thesis
    using vals [of "''from_event_id''"] vals [of "''to_event_id''"] by (simp add: prod_eq_iff)
qed

lemma map_eq_list_all2: "map f xs = map g ys \<longleftrightarrow> list_all2 (\<lambda>x y. f x = g y) xs ys"
  by (simp add: list_all2_conv_all_nth list_eq_iff_nth_eq) auto

lemma graph_json_agree:
  assumes "sorted_json (graph_json a) = sorted_json (graph_json b)"
  shows "graphs_agree a b"
proof -
  note vals = sorted_obj_values [OF assms [unfolded graph_json_def]]
  have "map (\<lambda>n. sorted_json (node_json n)) (gr_nodes a) = map (\<lambda>n. sorted_json (node_json n)) (gr_nodes b)"
    using vals [of "''nodes''"] by (simp add: comp_def)
  then have "list_all2 nodes_agree (gr_nodes a) (gr_nodes b)"
    by (auto simp: map_eq_list_all2 elim!: list_all2_mono intro: node_json_inj)
  moreover have "map (\<lambda>n. sorted_json (edge_json n)) (gr_edges a) = map (\<lambda>n. sorted_json (edge_json n)) (gr_edges b)"
    using vals [of "''edges''"] by (simp add: comp_def)
  then have "gr_edges a = gr_edges b"
    by (rule map_injective) (auto intro!: injI edge_json_inj)
  ultimately show ?thesis
    using vals [of "''execution_id''"] vals [of "''verity_record_id''"] vals [of "''organization_id''"]
      vals [of "''status''"]
    by (simp add: graphs_agree_def)
qed

subsection \<open>Properties of the graph\<close>

text \<open>The graph, and so its hash, does not depend on the order in which the events are read: any
  two enumerations of the same events, with distinct sequence numbers, give the same graph or the
  same list of unresolved parents.\<close>

theorem graph_order_independent:
  assumes "mset events = mset events'" and "inj_on ev_event_sequence (set events)"
  shows "buildExecutionGraphV2 execution events = buildExecutionGraphV2 execution events'"
  using sort_key_perm [OF assms] by (simp add: buildExecutionGraphV2_def)

lemma graph_hash_agree:
  assumes "crypto_ok C"
    and "buildExecutionGraphV2 x es = Inr a" and "\<forall>e\<in>set es. event_ok e"
    and "buildExecutionGraphV2 y fs = Inr b" and "\<forall>e\<in>set fs. event_ok e"
    and "computeExecutionGraphHash C (graph_json a) = Inr h"
    and "computeExecutionGraphHash C (graph_json b) = Inr h"
  shows "graphs_agree a b \<or> collision C (graph_bytes (graph_json a)) (graph_bytes (graph_json b))"
  using graph_hash_binds [OF assms(1) graph_domain [OF assms(2,3)] graph_domain [OF assms(4,5)] assms(6,7)]
    graph_json_agree by blast

text \<open>C5: The graph hash commits to the graph.  If the graphs of two executions, built from valid events,
  have the same hash, then execution, record id, organization, status, every node and every edge agree
  (metadata up to the order of keys), or the two canonical payloads are an explicit SHA-256 collision.\<close>

theorem graph_hash_commits:
  assumes "crypto_ok C"
    and "buildExecutionGraphV2 x es = Inr a" and "\<forall>e\<in>set es. event_ok e"
    and "buildExecutionGraphV2 y fs = Inr b" and "\<forall>e\<in>set fs. event_ok e"
    and "computeExecutionGraphHash C (graph_json a) = Inr h"
    and "computeExecutionGraphHash C (graph_json b) = Inr h"
  shows "graphs_agree a b \<or> collision C (graph_bytes (graph_json a)) (graph_bytes (graph_json b))"
  using graph_hash_agree [OF assms] .

text \<open>The graph of recorded events resolves and is acyclic: building it never throws, and every edge
  leads from an event to one with a higher sequence number, both among the nodes.\<close>

theorem graph_edges_forward:
  assumes "events_from org 1 {} events"
  shows "\<exists>g. buildExecutionGraphV2 execution events = Inr g \<and>
    (\<forall>(p, c) \<in> set (gr_edges g). \<exists>n \<in> set (gr_nodes g). \<exists>m \<in> set (gr_nodes g).
       gn_event_id n = p \<and> gn_event_id m = c \<and> gn_sequence n < gn_sequence m)"
proof -
  obtain g where g: "buildExecutionGraphV2 execution events = Inr g"
    using events_from_build [OF assms] by blast
  have ord: "\<exists>f\<in>set es. ev_id f = p \<and> ev_event_sequence f < ev_event_sequence e"
    if ev: "events_from org 1 {} es" "e \<in> set es" "p \<in> set (ev_parent_event_ids e)" for es e p
  proof -
    obtain xs ys where es: "es = xs @ e # ys" using ev(2) by (meson split_list)
    then have x: "events_from org 1 {} xs" "set (ev_parent_event_ids e) \<subseteq> ev_id ` set xs"
      "ev_event_sequence e = 1 + int (length xs)"
      using ev(1) by (simp_all add: events_from_append)
    then obtain f where f: "f \<in> set xs" "ev_id f = p" using ev(3) by auto
    with events_from_mem [OF x(1) f(1)] x(3) es show ?thesis by auto
  qed
  have "\<exists>n \<in> set (gr_nodes g). \<exists>m \<in> set (gr_nodes g).
       gn_event_id n = p \<and> gn_event_id m = c \<and> gn_sequence n < gn_sequence m"
    if edge: "(p, c) \<in> set (gr_edges g)" for p c
  proof -
    from edge g obtain e where e: "e \<in> set events" "c = ev_id e" "p \<in> set (ev_parent_event_ids e)"
      by (auto simp: build_Inr graph_edges_def)
    from ord [OF assms e(1,3)] obtain f where "f \<in> set events" "ev_id f = p"
      "ev_event_sequence f < ev_event_sequence e" by blast
    moreover have "graph_node_of e' \<in> set (gr_nodes g)" if "e' \<in> set events" for e'
      using g that by (auto simp: build_Inr)
    moreover have "gn_event_id (graph_node_of e') = ev_id e'"
      "gn_sequence (graph_node_of e') = ev_event_sequence e'" for e'
      by (simp_all add: graph_node_of_def)
    ultimately show ?thesis using e(1,2) by metis
  qed
  with g show ?thesis by blast
qed

definition sample_event_row :: "id \<Rightarrow> int \<Rightarrow> id list \<Rightarrow> event_row" where
  "sample_event_row i n ps = \<lparr>ev_id = i, ev_organization_id = ''org'', ev_execution_id = ''e1'',
     ev_event_sequence = n, ev_event_type = ''execution.created'', ev_status = ''ok'',
     ev_parent_event_ids = ps, ev_input_hash = None, ev_output_hash = None,
     ev_metadata = JObj [(''b'', JNum n), (''a'', JNull)], ev_occurred_at = 1767225600000,
     ev_occurred_at_canonical = ''2026-01-01T00:00:00.000Z''\<rparr>"

definition sample_events :: "event_row list" where
  "sample_events = [sample_event_row ''a'' 1 [], sample_event_row ''b'' 2 [''a''],
     sample_event_row ''c'' 3 [''a'', ''b'']]"

definition sample_graph_execution :: graph_execution where
  "sample_graph_execution = \<lparr>ge_id = ''e1'', ge_verity_record_id = ''VTY-2026-00000001'',
     ge_organization_id = ''org'', ge_status = Completed\<rparr>"

lemma sample_events_from: "events_from ''org'' 1 {} sample_events"
proof -
  have "date_parse ''2026-01-01T00:00:00.000Z'' = Some 1767225600000" by code_simp
  then have ok: "event_ok (sample_event_row i n ps)" if "n \<in> {1, 2, 3}" for i n ps
    using that
    by (auto simp: event_ok_def sample_event_row_def EXECUTION_EVENT_TYPES_def is_pg_integer_def isSafeInteger_def)
  have "sorted [''a'', ''b'']" by code_simp
  then show ?thesis
    using ok by (simp add: sample_events_def) (simp add: sample_event_row_def)
qed

theorem graph_order_independent_witness:
  "buildExecutionGraphV2 sample_graph_execution (rev sample_events) =
     buildExecutionGraphV2 sample_graph_execution sample_events"
  by (rule graph_order_independent)
    (simp_all add: sample_events_def sample_event_row_def)

theorem graph_hash_commits_witness:
  "\<exists>a. graphs_agree a a \<or> collision sample_crypto (graph_bytes (graph_json a)) (graph_bytes (graph_json a))"
proof -
  obtain a where a: "buildExecutionGraphV2 sample_graph_execution sample_events = Inr a"
    using events_from_build [OF sample_events_from] by blast
  note ok = events_from_ok [OF sample_events_from]
  show ?thesis
    using graph_hash_commits [OF sample_crypto_ok(1) a ok a ok]
      graph_hash_total [OF a ok, of sample_crypto] by blast
qed

theorem graph_edges_forward_witness:
  "\<exists>g. buildExecutionGraphV2 sample_graph_execution sample_events = Inr g \<and>
     (''b'', ''c'') \<in> set (gr_edges g)"
proof -
  obtain g where g: "buildExecutionGraphV2 sample_graph_execution sample_events = Inr g"
    using graph_edges_forward [OF sample_events_from] by blast
  then show ?thesis
    by (auto simp: build_Inr graph_edges_def sample_events_def sample_event_row_def)
qed

end
