(* ===== verification/Seal.thy ===== *)
theory Seal
  imports Graph
begin

text \<open>
  \<open>packages/audit-kernel/src/execution/finalize.ts\<close>: sealing an execution.  In one transaction the
  prelude events are recorded, the graph so far is hashed into a closing \<open>audit.checkpoint.sealed\<close>
  event, and the hash of the graph with that event goes into the final ledger entry, which also moves
  the execution to its final status.  \<open>sealed_by\<close> states what a seal leaves behind: the ledger commits
  to exactly the graph that can be rebuilt from the stored events.
\<close>

record prelude_event =
  pe_eventType :: string
  pe_status :: string
  pe_parentEventIds :: "id list"
  pe_inputHash :: "string option"
  pe_outputHash :: "string option"
  pe_metadata :: "json option"
  pe_occurredAtCanonical :: "string option"

record seal_input =
  se_organizationId :: id
  se_executionId :: id
  se_entryType :: ledger_entry_type
  se_executionStatus :: execution_status
  se_responseHash :: "string option"
  se_parentEventIds :: "id list"
  se_preludeEvents :: "prelude_event list"

record seal_result =
  sr_entry :: ledger_entry_row
  sr_graph :: execution_graph
  sr_graphHash :: string

definition loadRequestOpenedHash ::
    "id \<Rightarrow> id \<Rightarrow> (err, 'w audit_world_scheme, string option) op" where
  "loadRequestOpenedHash organizationId executionId = getsE (\<lambda>w.
     case first_row (sort_key le_organization_sequence (filter (\<lambda>e.
       le_organization_id e = organizationId \<and> le_execution_id e = executionId \<and>
       le_entry_type e = RequestOpened) (ledger_entries w))) of
       None \<Rightarrow> None | Some e \<Rightarrow> le_request_hash e)"

definition prelude_input :: "id \<Rightarrow> id \<Rightarrow> id list \<Rightarrow> prelude_event \<Rightarrow> append_event_input" where
  "prelude_input org exec parents p =
     \<lparr>ae_organizationId = org, ae_executionId = exec, ae_eventType = pe_eventType p,
      ae_status = pe_status p,
      ae_parentEventIds = (if pe_parentEventIds p \<noteq> [] then pe_parentEventIds p else parents),
      ae_inputHash = pe_inputHash p, ae_outputHash = pe_outputHash p, ae_metadata = pe_metadata p,
      ae_occurredAtCanonical = pe_occurredAtCanonical p\<rparr>"

text \<open>The loop over the prelude; the result is what \<open>parentEventIds\<close> ends up as.\<close>

primrec record_preludes ::
    "'a env_scheme \<Rightarrow> id \<Rightarrow> id \<Rightarrow> id list \<Rightarrow> prelude_event list \<Rightarrow>
     (err, 'w audit_world_scheme, id list) op" where
  "record_preludes E org exec parents [] = ret parents"
| "record_preludes E org exec parents (p # ps) =
     bindE (appendExecutionEventInTransaction E (prelude_input org exec parents p)) (\<lambda>recorded.
     record_preludes E org exec [ev_id recorded] ps)"

definition graph_execution_of :: "execution_row \<Rightarrow> execution_status \<Rightarrow> graph_execution" where
  "graph_execution_of execution status =
     \<lparr>ge_id = ex_id execution, ge_verity_record_id = ex_verity_record_id execution,
      ge_organization_id = ex_organization_id execution, ge_status = status\<rparr>"

definition sealed_event :: "seal_input \<Rightarrow> id list \<Rightarrow> string \<Rightarrow> append_event_input" where
  "sealed_event input parents preSealHash =
     \<lparr>ae_organizationId = se_organizationId input, ae_executionId = se_executionId input,
      ae_eventType = ''audit.checkpoint.sealed'', ae_status = ''ok'', ae_parentEventIds = parents,
      ae_inputHash = None, ae_outputHash = Some preSealHash,
      ae_metadata = Some (JObj
        [(''entry_type'', JStr (entry_type_str (se_entryType input))),
         (''execution_status'', JStr (status_str (se_executionStatus input)))]),
      ae_occurredAtCanonical = None\<rparr>"

definition sealed_append :: "seal_input \<Rightarrow> string option \<Rightarrow> string \<Rightarrow> append_ledger_input" where
  "sealed_append input reqHash sealedHash =
     \<lparr>al_organizationId = se_organizationId input, al_executionId = se_executionId input,
      al_entryType = se_entryType input, al_requestHash = reqHash,
      al_responseHash = se_responseHash input, al_executionGraphHash = Some sealedHash,
      al_merkleSnapshotInterval = None, al_createdAtCanonical = None, al_kernelVersion = None,
      al_executionStatus = Some (se_executionStatus input)\<rparr>"

definition sealExecutionInTransaction ::
    "'a env_scheme \<Rightarrow> seal_input \<Rightarrow> (err, 'w audit_world_scheme, seal_result) op" where
  "sealExecutionInTransaction E input =
     bindE (getExecution (se_organizationId input) (se_executionId input)) (\<lambda>row.
     bindE (expectE row execution_not_found) (\<lambda>execution.
     bindE (record_preludes E (se_organizationId input) (se_executionId input)
       (se_parentEventIds input) (se_preludeEvents input)) (\<lambda>parentEventIds.
     bindE (listExecutionEvents (se_organizationId input) (se_executionId input)) (\<lambda>events.
     let execution' = graph_execution_of execution (se_executionStatus input) in
     bindE (liftE (buildExecutionGraphV2 execution' events)) (\<lambda>preSealGraph.
     bindE (liftE (computeExecutionGraphHash E (graph_json preSealGraph))) (\<lambda>preSealHash.
     bindE (appendExecutionEventInTransaction E (sealed_event input parentEventIds preSealHash)) (\<lambda>sealed.
     bindE (liftE (buildExecutionGraphV2 execution' (events @ [sealed]))) (\<lambda>sealedGraph.
     bindE (liftE (computeExecutionGraphHash E (graph_json sealedGraph))) (\<lambda>sealedHash.
     bindE (loadRequestOpenedHash (se_organizationId input) (se_executionId input)) (\<lambda>reqHash.
     bindE (appendLedgerEntryInTransaction E (sealed_append input reqHash sealedHash)) (\<lambda>entry.
     ret \<lparr>sr_entry = entry, sr_graph = sealedGraph, sr_graphHash = sealedHash\<rparr>)))))))))))"

text \<open>
  \<open>restore\<close> is what \<open>ROLLBACK\<close> does to the whole state (the hook may touch tables of other schemas);
  \<open>beforeCommit\<close> is the optional hook.
\<close>

definition sealExecution ::
    "'a env_scheme \<Rightarrow> ('w audit_world_scheme \<Rightarrow> 'w audit_world_scheme \<Rightarrow> 'w audit_world_scheme) \<Rightarrow>
     seal_input \<Rightarrow> (err, 'w audit_world_scheme, unit) op option \<Rightarrow>
     (err, 'w audit_world_scheme, seal_result) op" where
  "sealExecution E restore input beforeCommit =
     txnE restore
       (bindE (sealExecutionInTransaction E input) (\<lambda>result.
        bindE (case beforeCommit of None \<Rightarrow> ret () | Some hook \<Rightarrow> hook) (\<lambda>_.
        ret result)))"

subsection \<open>What a seal leaves behind\<close>

definition only_events :: "'w audit_world_scheme \<Rightarrow> 'w audit_world_scheme \<Rightarrow> bool" where
  "only_events w w' \<longleftrightarrow> executions w' = executions w \<and> ledger_entries w' = ledger_entries w \<and>
     chain_state w' = chain_state w \<and> merkle_checkpoints w' = merkle_checkpoints w \<and>
     (\<exists>new. execution_events w' = execution_events w @ new)"

lemma only_events_trans: "only_events u v \<Longrightarrow> only_events v w \<Longrightarrow> only_events u w"
  by (auto simp: only_events_def)

lemma append_event_only:
  assumes "appendExecutionEventInTransaction E input w = (Inr row, w')"
  shows "only_events w w'"
  using append_event_Inr [OF assms] by (auto simp: event_appended_def only_events_def)

lemma record_preludes_keeps:
  "record_preludes E org exec parents ps w = (Inr parents', w') \<Longrightarrow> audit_inv C w \<Longrightarrow>
   audit_inv C w' \<and> only_events w w'"
proof (induction ps arbitrary: parents w)
  case (Cons p ps)
  then obtain r u where
    u: "appendExecutionEventInTransaction E (prelude_input org exec parents p) w = (Inr r, u)"
      "record_preludes E org exec [ev_id r] ps u = (Inr parents', w')"
    by (auto simp: inr_iffs)
  show ?case
    using Cons.IH [OF u(2) audit_inv_append_event(1) [OF u(1) Cons.prems(2)]]
      append_event_only [OF u(1)] only_events_trans by blast
qed (auto simp: basic_Inr only_events_def)

definition sealed_by ::
    "'a env_scheme \<Rightarrow> seal_input \<Rightarrow> 'w audit_world_scheme \<Rightarrow> seal_result \<Rightarrow> 'w audit_world_scheme \<Rightarrow> bool"
  where
  "sealed_by E input w r w' \<longleftrightarrow>
     (\<exists>x\<in>set (executions w'). ex_id x = se_executionId input \<and>
        ex_organization_id x = se_organizationId input \<and> ex_status x = se_executionStatus input \<and>
        ex_final_entry_id x = Some (le_id (sr_entry r)) \<and>
        buildExecutionGraphV2 (graph_execution_of x (ex_status x)) (events_of (ex_id x) w') = Inr (sr_graph r)) \<and>
     computeExecutionGraphHash E (graph_json (sr_graph r)) = Inr (sr_graphHash r) \<and>
     le_execution_graph_hash (sr_entry r) = Some (sr_graphHash r) \<and>
     le_entry_type (sr_entry r) = se_entryType input \<and>
     le_response_hash (sr_entry r) = se_responseHash input \<and>
     le_execution_id (sr_entry r) = se_executionId input \<and>
     entries_of (se_organizationId input) w' = entries_of (se_organizationId input) w @ [sr_entry r] \<and>
     (\<exists>es e. events_of (se_executionId input) w' = events_of (se_executionId input) w @ es @ [e] \<and>
        ev_event_type e = ''audit.checkpoint.sealed'')"

lemma seal_Inr:
  assumes "sealExecutionInTransaction E input w = (Inr r, w')" "audit_inv E w"
    and "se_entryType input = FinalEntry \<or> se_entryType input = FailureEntry"
  shows "sealed_by E input w r w'" "audit_inv E w'" "executions_evolve w w'"
proof -
  let ?org = "se_organizationId input" and ?exec = "se_executionId input"
  from assms(1) obtain x parents w1 evs g h sealed w2 g' h' rh entry where
    x: "find (\<lambda>r. ex_id r = ?exec \<and> ex_organization_id r = ?org) (executions w) = Some x"
    and pre: "record_preludes E ?org ?exec (se_parentEventIds input) (se_preludeEvents input) w = (Inr parents, w1)"
    and evs: "listExecutionEvents ?org ?exec w1 = (Inr evs, w1)"
    and ev: "appendExecutionEventInTransaction E (sealed_event input parents h) w1 = (Inr sealed, w2)"
    and g': "buildExecutionGraphV2 (graph_execution_of x (se_executionStatus input)) (evs @ [sealed]) = Inr g'"
    and h': "computeExecutionGraphHash E (graph_json g') = Inr h'"
    and app: "appendLedgerEntryInTransaction E (sealed_append input rh h') w2 = (Inr entry, w')"
    and r: "r = \<lparr>sr_entry = entry, sr_graph = g', sr_graphHash = h'\<rparr>"
    by (auto simp: sealExecutionInTransaction_def Let_def inr_iffs getExecution_def
        listExecutionEvents_def loadRequestOpenedHash_def)
  have xin: "x \<in> set (executions w)" "ex_id x = ?exec" "ex_organization_id x = ?org"
    using x by (auto dest: find_SomeD)
  have inv1: "audit_inv E w1" and o1: "only_events w w1" using record_preludes_keeps [OF pre assms(2)] by auto
  have evs': "evs = events_of ?exec w1"
    using listExecutionEvents_run [of w1 x ?org] evs inv1 xin o1 by (simp add: audit_inv_def only_events_def)
  note inv2 = audit_inv_append_event(1) [OF ev inv1]
  note o2 = append_event_only [OF ev]
  have sealed: "events_of ?exec w2 = evs @ [sealed]" "ev_event_type sealed = ''audit.checkpoint.sealed''"
    using append_event_Inr [OF ev]
    by (auto simp: event_appended_def events_of_def evs' sealed_event_def)
  have ex2: "executions w2 = executions w" using o1 o2 by (simp add: only_events_def)
  have ok2: "executions_ok w2" using inv2 by (simp add: audit_inv_def)
  note a = append_Inr [OF app ok2]
  show "audit_inv E w'" by (rule audit_inv_append(1) [OF app inv2])
  show "executions_evolve w w'"
    using audit_inv_append(2) [OF app inv2] evolve_same [OF ex2] evolve_trans by blast
  obtain y y' where y: "y \<in> set (executions w2)" "y' \<in> set (executions w')" "ex_id y = ?exec"
      "ex_organization_id y = ?org" "ex_id y' = ex_id y" "ex_organization_id y' = ex_organization_id y"
      "ex_verity_record_id y' = ex_verity_record_id y" "ex_status y' = se_executionStatus input"
      "ex_final_entry_id y' = Some (le_id entry)"
    using append_final_status [OF app ok2] assms(3) by (auto simp: sealed_append_def)
  have "y = x" using key_only [of "executions w" x y] ok2 y(1,3) xin ex2 by (simp add: executions_ok_def)
  have ev': "execution_events w' = execution_events w2" using a(1) by (simp add: appended_def)
  have "graph_execution_of y' (ex_status y') = graph_execution_of x (se_executionStatus input)"
    using y \<open>y = x\<close> by (simp add: graph_execution_of_def)
  moreover have "events_of ?exec w' = evs @ [sealed]" using sealed(1) ev' by (simp add: events_of_def)
  ultimately have "buildExecutionGraphV2 (graph_execution_of y' (ex_status y')) (events_of (ex_id y') w') = Inr g'"
    using g' y by simp
  moreover have "entries_of ?org w' = entries_of ?org w @ [entry]"
    using a(1) o1 o2 by (simp add: appended_def entries_of_def only_events_def sealed_append_def)
  moreover have "\<exists>es. evs = events_of ?exec w @ es"
    using o1 by (auto simp: evs' events_of_def only_events_def)
  ultimately show "sealed_by E input w r w'"
    using y h' a(1) sealed(2) \<open>events_of ?exec w' = evs @ [sealed]\<close>
    by (auto simp: sealed_by_def r appended_def sealed_append_def)
qed

subsection \<open>Properties of sealing\<close>

lemma sealExecution_Inr:
  assumes "sealExecution E restore input None w = (Inr r, w')"
  shows "sealExecutionInTransaction E input w = (Inr r, w')"
  using assms by (simp add: sealExecution_def inr_iffs)

text \<open>C6: What a seal commits to.  After a successful seal with a final or failure entry, the graph that
  can be rebuilt from the stored execution and its stored events is the returned graph, its hash is the
  one in the new ledger entry, that entry is the last of the organization's chain and is recorded as the
  execution's final entry, the execution has the requested status, the last event is
  \<open>audit.checkpoint.sealed\<close>, and the invariant of the audit store holds.\<close>

theorem sealExecution_commits:
  assumes "sealExecution E restore input None w = (Inr r, w')" and "audit_inv E w"
    and "se_entryType input = FinalEntry \<or> se_entryType input = FailureEntry"
  shows "sealed_by E input w r w' \<and> audit_inv E w' \<and> executions_evolve w w'"
  using seal_Inr [OF sealExecution_Inr [OF assms(1)] assms(2,3)] by blast

text \<open>A seal happens completely or not at all: when any step throws, or the commit hook does, every
  table of the audit store is as before.\<close>

theorem sealExecution_atomic:
  assumes "sealExecution E restore_audit input beforeCommit w = (Inl e, w')"
  shows "tables_equal w w'"
  using assms by (auto simp: sealExecution_def txnE_Inl)

text \<open>One more event makes another graph: the hash of the old one does not fit it.\<close>

lemma appended_graph_differs:
  assumes "crypto_ok C" and inv: "audit_inv D u" and x: "x \<in> set (executions u)"
    and late: "appendExecutionEventInTransaction E late u = (Inr row, w2)" and "ae_executionId late = ex_id x"
    and g0: "buildExecutionGraphV2 (graph_execution_of x (ex_status x)) (events_of (ex_id x) u) = Inr g0"
    and h: "computeExecutionGraphHash C (graph_json g0) = Inr h"
  shows "x \<in> set (executions w2) \<and> (\<exists>g.
    buildExecutionGraphV2 (graph_execution_of x (ex_status x)) (events_of (ex_id x) w2) = Inr g \<and>
    (computeExecutionGraphHash C (graph_json g) \<noteq> Inr h \<or>
     collision C (graph_bytes (graph_json g)) (graph_bytes (graph_json g0))))"
proof -
  let ?exec = "ex_id x"
  have old: "events_from (ex_organization_id x) 1 {} (events_of ?exec u)"
    using inv x by (auto simp: audit_inv_def events_inv_def)
  have ex2: "executions w2 = executions u" and ev2: "events_of ?exec w2 = events_of ?exec u @ [row]"
    using append_event_Inr [OF late] assms(5) by (auto simp: event_appended_def events_of_def)
  have new: "events_from (ex_organization_id x) 1 {} (events_of ?exec w2)"
    using audit_inv_append_event(1) [OF late inv] x ex2 by (auto simp: audit_inv_def events_inv_def)
  obtain g where g: "buildExecutionGraphV2 (graph_execution_of x (ex_status x)) (events_of ?exec w2) = Inr g"
    using events_from_build [OF new] by blast
  have "length (gr_nodes g) = Suc (length (gr_nodes g0))"
    using g g0 ev2 by (simp add: build_Inr)
  then have "\<not> graphs_agree g g0"
    by (auto simp: graphs_agree_def dest: list_all2_lengthD)
  then have "computeExecutionGraphHash C (graph_json g) \<noteq> Inr h \<or>
     collision C (graph_bytes (graph_json g)) (graph_bytes (graph_json g0))"
    using graph_hash_agree [OF assms(1) g events_from_ok [OF new] g0 events_from_ok [OF old]] h by blast
  with x g ex2 show ?thesis by auto
qed


subsection \<open>A seal on concrete data\<close>

definition sample_clock_env :: env where
  "sample_clock_env = sample_env\<lparr>clock := (\<lambda>_. 1767225600000)\<rparr>"

definition sample_seal :: seal_input where
  "sample_seal = \<lparr>se_organizationId = ''org'', se_executionId = ''e1'', se_entryType = FinalEntry,
     se_executionStatus = Completed, se_responseHash = None, se_parentEventIds = [],
     se_preludeEvents = []\<rparr>"

lemma sample_clock_ok: "crypto_ok sample_clock_env" "inj (randomUUID sample_clock_env)"
proof -
  show "crypto_ok sample_clock_env"
    using sample_crypto_ok(2) by (simp add: crypto_ok_def sample_clock_env_def)
  show "inj (randomUUID sample_clock_env)"
    by (auto intro!: injI simp: sample_clock_env_def sample_env_def crypto.defs)
qed

lemma sample_clock_time:
  "four_digit_year 1767225600000" "clock sample_clock_env n = 1767225600000"
  by code_simp (simp add: sample_clock_env_def)

lemma event_id_drawn:
  assumes "appendExecutionEventInTransaction E input w = (Inr row, w')"
  shows "ev_id row \<in> range (randomUUID E)"
proof -
  have n: "ev_id (normalizeEvent r) = ev_id r" for r by (simp add: normalizeEvent_def split: json.splits)
  from assms show ?thesis
    unfolding appendExecutionEventInTransaction_def Let_def inr_iffs drawE_Inr getExecution_def
    by (auto simp: n insert_event_Inr simp del: normalizeEvent_obj)
qed

lemma sample_seal_succeeds:
  "\<exists>r w' sealed. sealExecution sample_clock_env restore_audit sample_seal None sample_world = (Inr r, w') \<and>
     execution_events w' = [sealed] \<and> ev_id sealed \<in> range (randomUUID sample_clock_env) \<and>
     length (merkle_checkpoints w') \<le> 1"
proof -
  let ?E = sample_clock_env and ?x = "graph_execution_of sample_execution Completed"
  have inv: "audit_inv ?E sample_world" by (rule sample_world_audit_inv)
  have tabs: "executions sample_world = [sample_execution]" "execution_events sample_world = []"
      "ledger_entries sample_world = []" "merkle_checkpoints sample_world = []"
      "chain_state sample_world = []"
    by (simp_all add: sample_world_def empty_audit_def)
  have x: "ex_id sample_execution = ''e1''" "ex_organization_id sample_execution = ''org''"
      "ex_status sample_execution = Running"
    by (simp_all add: sample_execution_def)
  have none: "events_from ''org'' 1 {} []" by simp
  obtain g where g: "buildExecutionGraphV2 ?x [] = Inr g" using events_from_build [OF none] by blast
  obtain h where h: "computeExecutionGraphHash ?E (graph_json g) = Inr h" "isSha256Hex h"
    using graph_hash_total [OF g, of ?E] sha256Hex_ok [OF sample_clock_ok(1)] by auto
  let ?s = "sealed_event sample_seal [] h"
  have "assertEventEvidence ?s = Inr ()"
    using h(2) encode_total [of "event_metadata ?s"]
    by (simp add: assertEventEvidence_def assertSha256Hex_def sealed_event_def event_metadata_def
        canonicalize_def EXECUTION_EVENT_TYPES_def)
  moreover have "event_time ?E ?s sample_world = iso_string 1767225600000"
    by (simp add: event_time_def sealed_event_def sample_clock_time)
  ultimately have "event_ready ?E ?s sample_world"
    using sample_clock_time(1)
    by (auto simp: event_ready_def tabs x sealed_event_def sample_seal_def events_of_def)
  from append_event_succeeds [OF _ _ this] inv obtain sealed w2 where
    ev: "appendExecutionEventInTransaction ?E ?s sample_world = (Inr sealed, w2)"
    by (auto simp: audit_inv_def)
  obtain n where w2: "w2 = sample_world\<lparr>execution_events := [sealed], draws := n\<rparr>"
    and sealed: "ev_execution_id sealed = ''e1''"
    using append_event_Inr [OF ev] by (auto simp: event_appended_def tabs sealed_event_def sample_seal_def)
  note inv2 = audit_inv_append_event(1) [OF ev inv]
  have "events_from ''org'' 1 {} [sealed]"
    using inv2 by (auto simp: audit_inv_def events_inv_def w2 tabs x events_of_def sealed)
  note from_sealed = this
  obtain g' where g': "buildExecutionGraphV2 ?x [sealed] = Inr g'"
    using events_from_build [OF from_sealed] by blast
  have ok: "event_ok sealed" using events_from_ok [OF from_sealed] by simp
  obtain h' where h': "computeExecutionGraphHash ?E (graph_json g') = Inr h'" "isSha256Hex h'"
    using graph_hash_total [OF g', of ?E] ok sha256Hex_ok [OF sample_clock_ok(1)] by auto
  let ?a = "sealed_append sample_seal None h'"
  have "append_time ?E ?a w2 = iso_string 1767225600000"
    by (simp add: append_time_def sealed_append_def sample_clock_time)
  then have "append_ready ?E ?a w2"
    using sample_clock_time(1) h'(2)
    by (auto simp: append_ready_def w2 tabs x sealed_append_def sample_seal_def target_status_def
        transition_simps latest_of_def)
  from append_succeeds [OF sample_clock_ok(1) _ _ this] inv2 obtain row w' where
    app: "appendLedgerEntryInTransaction ?E ?a w2 = (Inr row, w')"
    by (auto simp: audit_inv_def)
  have fields: "se_organizationId sample_seal = ''org''" "se_executionId sample_seal = ''e1''"
      "se_executionStatus sample_seal = Completed"
    by (simp_all add: sample_seal_def)
  have get: "getExecution (se_organizationId sample_seal) (se_executionId sample_seal) sample_world =
      (Inr (Some sample_execution), sample_world)"
    by (simp add: getExecution_def run tabs x fields)
  have pre: "record_preludes ?E (se_organizationId sample_seal) (se_executionId sample_seal)
      (se_parentEventIds sample_seal) (se_preludeEvents sample_seal) sample_world = (Inr [], sample_world)"
    by (simp add: sample_seal_def run)
  have list: "listExecutionEvents (se_organizationId sample_seal) (se_executionId sample_seal) sample_world =
      (Inr [], sample_world)"
    by (simp add: listExecutionEvents_def run tabs)
  have g'': "buildExecutionGraphV2 ?x ([] @ [sealed]) = Inr g'" using g' by simp
  have opened: "loadRequestOpenedHash (se_organizationId sample_seal) (se_executionId sample_seal) w2 =
      (Inr None, w2)"
    by (simp add: loadRequestOpenedHash_def run w2 tabs)
  have "sealExecutionInTransaction ?E sample_seal sample_world =
      (Inr \<lparr>sr_entry = row, sr_graph = g', sr_graphHash = h'\<rparr>, w')"
    unfolding sealExecutionInTransaction_def Let_def
    by (rule bindE_step, rule get, rule bindE_step, rule expectE_step, rule refl,
        rule bindE_step, rule pre, rule bindE_step, rule list,
        rule bindE_step, rule liftE_step, rule g [folded fields],
        rule bindE_step, rule liftE_step, rule h(1), rule bindE_step, rule ev,
        rule bindE_step, rule liftE_step, rule g'' [folded fields],
        rule bindE_step, rule liftE_step, rule h'(1), rule bindE_step, rule opened,
        rule bindE_step, rule app, rule run_basic(1))
  then have "sealExecution ?E restore_audit sample_seal None sample_world =
      (Inr \<lparr>sr_entry = row, sr_graph = g', sr_graphHash = h'\<rparr>, w')"
    by (simp add: sealExecution_def run_txnE run)
  moreover have "execution_events w' = [sealed]" "length (merkle_checkpoints w') \<le> 1"
    using append_Inr(1,2) [OF app] inv2
    by (auto simp: appended_def checkpointed_def w2 audit_inv_def tabs split: if_splits)
  ultimately show ?thesis using event_id_drawn [OF ev] by blast
qed


theorem sealExecution_commits_witness:
  "\<exists>r (w' :: audit_world). sealed_by sample_clock_env sample_seal sample_world r w' \<and>
     audit_inv sample_clock_env w'"
proof -
  obtain r w' where run: "sealExecution sample_clock_env restore_audit sample_seal None sample_world = (Inr r, w')"
    using sample_seal_succeeds by blast
  have "se_entryType sample_seal = FinalEntry \<or> se_entryType sample_seal = FailureEntry"
    by (simp add: sample_seal_def)
  from sealExecution_commits [OF run sample_world_audit_inv this] show ?thesis by blast
qed

theorem sealExecution_atomic_witness:
  "\<exists>e w'. sealExecution sample_env restore_audit (sample_seal\<lparr>se_executionId := ''none''\<rparr>) None sample_world =
     (Inl e, w') \<and> tables_equal sample_world w'"
proof -
  obtain e w' where run: "sealExecution sample_env restore_audit (sample_seal\<lparr>se_executionId := ''none''\<rparr>) None
      sample_world = (Inl e, w')"
    by (simp add: sealExecution_def sealExecutionInTransaction_def run getExecution_def sample_world_def
        sample_execution_def sample_seal_def)
  with sealExecution_atomic [OF run] show ?thesis by blast
qed

definition sample_late_env :: env where
  "sample_late_env = sample_clock_env\<lparr>randomUUID := (\<lambda>n. ''late'')\<rparr>"

lemma sample_late_event:
  assumes "sealed_by sample_clock_env sample_seal sample_world r w1" "audit_inv sample_clock_env w1"
    and "execution_events w1 = [sealed]" "ev_id sealed \<in> range (randomUUID sample_clock_env)"
  shows "\<exists>row w2. appendExecutionEvent sample_late_env Pool sample_event w1 = (Inr row, w2)"
proof (rule appendExecutionEvent_succeeds [OF assms(2)])
  obtain x where "x \<in> set (executions w1)" "ex_id x = ''e1''" "ex_organization_id x = ''org''"
    using assms(1) by (auto simp: sealed_by_def sample_seal_def)
  moreover have "ev_id sealed \<noteq> ''late''"
    using assms(4) by (auto simp: sample_clock_env_def sample_env_def crypto.defs)
  moreover have "assertEventEvidence sample_event = Inr ()"
    using sample_event_ready by (simp add: event_ready_def)
  moreover have "event_time sample_late_env sample_event w1 = iso_string 1767225600000"
    unfolding event_time_def sample_event_def by simp code_simp
  ultimately show "event_ready sample_late_env sample_event w1"
    using assms(3) sample_clock_time(1)
    by (auto simp: event_ready_def events_of_def sample_event_def sample_late_env_def)
qed


end
