(* ===== verification/Export.thy ===== *)
theory Export
  imports Seal
begin

text \<open>
  \<open>packages/audit-kernel/src/export/bundle.ts\<close> and the \<open>EvidenceBundle\<close> types of \<open>types.ts\<close>: the
  evidence of one organization, as it leaves the database.  The bundle is what the verifier
  (theory \<open>Verify\<close>) is given; it has no access to the tables.  Time stamps of entries and events leave
  as the canonical strings that were hashed.
\<close>

record bundle_manifest =
  mf_format_version :: string
  mf_hash_format_version :: string
  mf_kernel_version :: string
  mf_organization_id :: id
  mf_exported_at :: string
  mf_entry_count :: int
  mf_includes_plaintext :: bool
  mf_graph_schema_version :: "string option"

record bundle_entry =
  be_id :: id
  be_organization_id :: id
  be_organization_sequence :: int
  be_execution_id :: id
  be_entry_type :: ledger_entry_type
  be_request_hash :: "string option"
  be_response_hash :: "string option"
  be_execution_graph_hash :: "string option"
  be_previous_entry_hash :: "string option"
  be_entry_hash :: string
  be_merkle_root :: "string option"
  be_kernel_version :: string
  be_hash_format_version :: string
  be_created_at_canonical :: string
  be_created_at :: string
  be_merkle_proof :: "merkle_proof_step list option"

record bundle_execution =
  bx_id :: id
  bx_verity_record_id :: string
  bx_organization_id :: id
  bx_actor_id :: "id option"
  bx_session_id :: "id option"
  bx_skill_id :: "string option"
  bx_status :: execution_status
  bx_risk_tier :: risk_tier
  bx_policy_version :: "string option"
  bx_retention_mode :: "string option"
  bx_started_at :: string
  bx_completed_at :: "string option"
  bx_final_entry_id :: "id option"

record bundle_checkpoint =
  bc_id :: id
  bc_organization_id :: id
  bc_from_sequence :: int
  bc_through_sequence :: int
  bc_root :: string
  bc_leaf_hashes :: "string list"
  bc_created_at :: string

record bundle_event =
  bv_id :: id
  bv_organization_id :: id
  bv_execution_id :: id
  bv_event_sequence :: int
  bv_event_type :: string
  bv_status :: string
  bv_parent_event_ids :: "id list"
  bv_input_hash :: "string option"
  bv_output_hash :: "string option"
  bv_metadata :: json
  bv_occurred_at_canonical :: string

record bundle_graph =
  bg_schema_version :: string
  bg_execution_id :: id
  bg_verity_record_id :: string
  bg_organization_id :: id
  bg_status :: string
  bg_graph_hash :: string
  bg_graph :: json

record evidence_bundle =
  eb_manifest :: bundle_manifest
  eb_ledger_entries :: "bundle_entry list"
  eb_executions :: "bundle_execution list"
  eb_merkle_checkpoints :: "bundle_checkpoint list"
  eb_execution_events :: "bundle_event list"
  eb_execution_graphs :: "bundle_graph list"

subsection \<open>Rows as they are exported\<close>

definition ledgerRowToExport :: "ledger_entry_row \<Rightarrow> bundle_entry" where
  "ledgerRowToExport entry =
     \<lparr>be_id = le_id entry, be_organization_id = le_organization_id entry,
      be_organization_sequence = le_organization_sequence entry,
      be_execution_id = le_execution_id entry, be_entry_type = le_entry_type entry,
      be_request_hash = le_request_hash entry, be_response_hash = le_response_hash entry,
      be_execution_graph_hash = le_execution_graph_hash entry,
      be_previous_entry_hash = le_previous_entry_hash entry, be_entry_hash = le_entry_hash entry,
      be_merkle_root = le_merkle_root entry, be_kernel_version = le_kernel_version entry,
      be_hash_format_version = le_hash_format_version entry,
      be_created_at_canonical = le_created_at_canonical entry,
      be_created_at = le_created_at_canonical entry, be_merkle_proof = None\<rparr>"

text \<open>The entry with the proof of the first checkpoint that covers its sequence number.\<close>

definition export_entry ::
    "'a crypto_scheme \<Rightarrow> merkle_checkpoint_row list \<Rightarrow> ledger_entry_row \<Rightarrow> err + bundle_entry" where
  "export_entry C checkpoints entry =
     (let exported = ledgerRowToExport entry in
      case find (\<lambda>c. le_organization_sequence entry \<ge> mc_from_sequence c \<and>
          le_organization_sequence entry \<le> mc_through_sequence c) checkpoints of
        None \<Rightarrow> Inr exported
      | Some checkpoint \<Rightarrow>
          bindS (getMerkleProof C (mc_leaf_hashes checkpoint)
            (le_organization_sequence entry - mc_from_sequence checkpoint)) (\<lambda>(proof_of_leaf, root).
          Inr (exported\<lparr>be_merkle_proof := Some proof_of_leaf\<rparr>)))"

definition export_execution :: "execution_row \<Rightarrow> bundle_execution" where
  "export_execution row =
     \<lparr>bx_id = ex_id row, bx_verity_record_id = ex_verity_record_id row,
      bx_organization_id = ex_organization_id row, bx_actor_id = ex_actor_id row,
      bx_session_id = ex_session_id row, bx_skill_id = ex_skill_id row, bx_status = ex_status row,
      bx_risk_tier = ex_risk_tier row, bx_policy_version = ex_policy_version row,
      bx_retention_mode = ex_retention_mode row, bx_started_at = iso_string (ex_started_at row),
      bx_completed_at = map_option iso_string (ex_completed_at row),
      bx_final_entry_id = ex_final_entry_id row\<rparr>"

definition export_checkpoint :: "merkle_checkpoint_row \<Rightarrow> bundle_checkpoint" where
  "export_checkpoint row =
     \<lparr>bc_id = mc_id row, bc_organization_id = mc_organization_id row,
      bc_from_sequence = mc_from_sequence row, bc_through_sequence = mc_through_sequence row,
      bc_root = mc_root row, bc_leaf_hashes = mc_leaf_hashes row,
      bc_created_at = iso_string (mc_created_at row)\<rparr>"

definition export_event :: "event_row \<Rightarrow> bundle_event" where
  "export_event event =
     \<lparr>bv_id = ev_id event, bv_organization_id = ev_organization_id event,
      bv_execution_id = ev_execution_id event, bv_event_sequence = ev_event_sequence event,
      bv_event_type = ev_event_type event, bv_status = ev_status event,
      bv_parent_event_ids = ev_parent_event_ids event, bv_input_hash = ev_input_hash event,
      bv_output_hash = ev_output_hash event, bv_metadata = ev_metadata event,
      bv_occurred_at_canonical = ev_occurred_at_canonical event\<rparr>"

definition export_graph :: "'a crypto_scheme \<Rightarrow> execution_row \<Rightarrow> event_row list \<Rightarrow> err + bundle_graph" where
  "export_graph C execution events =
     bindS (buildExecutionGraphV2 (graph_execution_of execution (ex_status execution)) events) (\<lambda>graph.
     bindS (computeExecutionGraphHash C (graph_json graph)) (\<lambda>hash.
     Inr \<lparr>bg_schema_version = gr_schema_version graph, bg_execution_id = gr_execution_id graph,
          bg_verity_record_id = gr_verity_record_id graph,
          bg_organization_id = gr_organization_id graph, bg_status = status_str (gr_status graph),
          bg_graph_hash = hash, bg_graph = graph_json graph\<rparr>))"

text \<open>One turn of the loop over the executions: the events and the graph, if there are events.\<close>

definition export_execution_events ::
    "'a env_scheme \<Rightarrow> id \<Rightarrow> execution_row \<Rightarrow>
     (err, 'w audit_world_scheme, event_row list \<times> bundle_graph list) op" where
  "export_execution_events E organizationId execution =
     bindE (listExecutionEvents organizationId (ex_id execution)) (\<lambda>events.
     if events = [] then ret ([], [])
     else bindE (liftE (export_graph E execution events)) (\<lambda>graph. ret (events, [graph])))"

definition exportOrganizationEvidence ::
    "'a env_scheme \<Rightarrow> id \<Rightarrow> (err, 'w audit_world_scheme, evidence_bundle) op" where
  "exportOrganizationEvidence E organizationId =
     bindE (getLedgerEntries organizationId) (\<lambda>entries.
     bindE (getMerkleCheckpoints organizationId) (\<lambda>checkpoints.
     bindE (getsE (\<lambda>w. sort_key ex_started_at
       (filter (\<lambda>x. ex_organization_id x = organizationId) (executions w)))) (\<lambda>rows.
     bindE (mapE (export_execution_events E organizationId) rows) (\<lambda>loaded.
     let eventRows = concat (map fst loaded); graphs = concat (map snd loaded) in
     bindE (canonicalTimestampNow E) (\<lambda>exported_at.
     bindE (liftE (mapS (export_entry E checkpoints) entries)) (\<lambda>exported.
     ret \<lparr>eb_manifest =
            \<lparr>mf_format_version = ''1.0'', mf_hash_format_version = ''2'',
             mf_kernel_version = KERNEL_VERSION, mf_organization_id = organizationId,
             mf_exported_at = exported_at, mf_entry_count = int (length entries),
             mf_includes_plaintext = False,
             mf_graph_schema_version = map_option bg_schema_version (first_row graphs)\<rparr>,
          eb_ledger_entries = exported, eb_executions = map export_execution rows,
          eb_merkle_checkpoints = map export_checkpoint checkpoints,
          eb_execution_events = map export_event eventRows,
          eb_execution_graphs = graphs\<rparr>))))))"

subsection \<open>What an export contains\<close>

lemma ledgerRowToExport_simps [simp]:
  "be_organization_id (ledgerRowToExport e) = le_organization_id e"
  "be_organization_sequence (ledgerRowToExport e) = le_organization_sequence e"
  "be_execution_id (ledgerRowToExport e) = le_execution_id e"
  "be_entry_type (ledgerRowToExport e) = le_entry_type e"
  "be_request_hash (ledgerRowToExport e) = le_request_hash e"
  "be_response_hash (ledgerRowToExport e) = le_response_hash e"
  "be_execution_graph_hash (ledgerRowToExport e) = le_execution_graph_hash e"
  "be_previous_entry_hash (ledgerRowToExport e) = le_previous_entry_hash e"
  "be_entry_hash (ledgerRowToExport e) = le_entry_hash e"
  "be_kernel_version (ledgerRowToExport e) = le_kernel_version e"
  "be_hash_format_version (ledgerRowToExport e) = le_hash_format_version e"
  "be_created_at_canonical (ledgerRowToExport e) = le_created_at_canonical e"
  "be_created_at (ledgerRowToExport e) = le_created_at_canonical e"
  "be_merkle_proof (ledgerRowToExport e) = None"
  by (simp_all add: ledgerRowToExport_def)

lemma export_event_simps [simp]:
  "bv_id (export_event e) = ev_id e" "bv_organization_id (export_event e) = ev_organization_id e"
  "bv_execution_id (export_event e) = ev_execution_id e"
  "bv_event_sequence (export_event e) = ev_event_sequence e"
  "bv_event_type (export_event e) = ev_event_type e" "bv_status (export_event e) = ev_status e"
  "bv_parent_event_ids (export_event e) = ev_parent_event_ids e"
  "bv_input_hash (export_event e) = ev_input_hash e" "bv_output_hash (export_event e) = ev_output_hash e"
  "bv_metadata (export_event e) = ev_metadata e"
  "bv_occurred_at_canonical (export_event e) = ev_occurred_at_canonical e"
  by (simp_all add: export_event_def)

lemma export_execution_simps [simp]:
  "bx_id (export_execution x) = ex_id x" "bx_organization_id (export_execution x) = ex_organization_id x"
  "bx_verity_record_id (export_execution x) = ex_verity_record_id x"
  "bx_status (export_execution x) = ex_status x"
  by (simp_all add: export_execution_def)

lemma export_checkpoint_simps [simp]:
  "bc_from_sequence (export_checkpoint c) = mc_from_sequence c"
  "bc_through_sequence (export_checkpoint c) = mc_through_sequence c"
  "bc_root (export_checkpoint c) = mc_root c" "bc_leaf_hashes (export_checkpoint c) = mc_leaf_hashes c"
  by (simp_all add: export_checkpoint_def)

end
