(* ===== verification/Verify.thy ===== *)
theory Verify
  imports Export
begin

text \<open>
  \<open>packages/audit-kernel/src/verify/verify.ts\<close>: the verifier of an evidence bundle, which works without
  the database.  Every function returns its list of issues, or throws (a sum): the canonical encoder
  and the hex decoder throw on values outside their domain.  The texts of the messages are left out,
  the codes are kept.  The abstract view is \<open>verified_chain\<close>: what a chain without issues is.
\<close>

record verify_issue =
  vi_code :: string
  vi_sequence :: "int option"
  vi_entry_hash :: "string option"

record verify_result =
  vr_valid :: bool
  vr_issues :: "verify_issue list"

definition issue :: "string \<Rightarrow> int option \<Rightarrow> string option \<Rightarrow> verify_issue" where
  "issue code seq_no hash = \<lparr>vi_code = code, vi_sequence = seq_no, vi_entry_hash = hash\<rparr>"

text \<open>\<open>if (c) issues.push(i)\<close>.\<close>

definition push_if :: "bool \<Rightarrow> verify_issue \<Rightarrow> verify_issue list" where
  "push_if c i = (if c then [i] else [])"

definition result_of :: "verify_issue list \<Rightarrow> verify_result" where
  "result_of issues = \<lparr>vr_valid = (issues = []), vr_issues = issues\<rparr>"

definition bundle_fields :: "bundle_entry \<Rightarrow> hash_field_input" where
  "bundle_fields entry =
     \<lparr>hf_organizationId = be_organization_id entry, hf_ledgerSequence = be_organization_sequence entry,
      hf_executionId = be_execution_id entry, hf_entryType = be_entry_type entry,
      hf_requestHash = be_request_hash entry, hf_responseHash = be_response_hash entry,
      hf_executionGraphHash = be_execution_graph_hash entry,
      hf_previousEntryHash = be_previous_entry_hash entry,
      hf_kernelVersion = Some (be_kernel_version entry),
      hf_createdAtCanonical = be_created_at_canonical entry\<rparr>"

definition verifyLedgerEntry ::
    "'a crypto_scheme \<Rightarrow> bundle_entry \<Rightarrow> string option \<Rightarrow> err + verify_issue list" where
  "verifyLedgerEntry C entry previousEntryHash =
     (let at = Some (be_organization_sequence entry) in
      bindS (computeEntryHash C (buildHashPayload (bundle_fields entry))) (\<lambda>recomputed.
      Inr (push_if (recomputed \<noteq> be_entry_hash entry)
             (issue ''ENTRY_HASH_MISMATCH'' at (Some (be_entry_hash entry))) @
           push_if (be_hash_format_version entry \<noteq> HASH_FORMAT_VERSION) (issue ''HASH_FORMAT'' at None) @
           push_if (be_previous_entry_hash entry \<noteq> previousEntryHash)
             (issue ''PREVIOUS_HASH_MISMATCH'' at None) @
           push_if (be_created_at entry \<noteq> be_created_at_canonical entry)
             (issue ''CANONICAL_TIMESTAMP_DRIFT'' at None))))"

text \<open>The loop over the sorted entries; \<open>before\<close> is the entry before the current one, if any.\<close>

primrec verify_entries ::
    "'a crypto_scheme \<Rightarrow> bundle_entry option \<Rightarrow> bundle_entry list \<Rightarrow> err + verify_issue list" where
  "verify_entries C before [] = Inr []"
| "verify_entries C before (entry # rest) =
     (let at = be_organization_sequence entry in
      bindS (verifyLedgerEntry C entry (map_option be_entry_hash before)) (\<lambda>found.
      bindS (verify_entries C (Some entry) rest) (\<lambda>more.
      Inr ((case before of
              Some p \<Rightarrow> push_if (at \<noteq> be_organization_sequence p + 1) (issue ''SEQUENCE_GAP'' (Some at) None)
            | None \<Rightarrow> push_if (at \<noteq> 1) (issue ''SEQUENCE_START'' (Some at) None)) @
           found @ more))))"

definition verifyOrganizationChain ::
    "'a crypto_scheme \<Rightarrow> bundle_entry list \<Rightarrow> err + verify_result" where
  "verifyOrganizationChain C entries =
     (if entries = [] then Inr \<lparr>vr_valid = True, vr_issues = []\<rparr>
      else bindS (verify_entries C None (sort_key be_organization_sequence entries)) (\<lambda>issues.
           Inr (result_of issues)))"

text \<open>\<open>new Map(rows.map(r => [key r, r])).get(k)\<close>: the last row with the key.\<close>

definition map_get :: "('a \<Rightarrow> 'k) \<Rightarrow> 'a list \<Rightarrow> 'k \<Rightarrow> 'a option" where
  "map_get key rows k = find (\<lambda>r. key r = k) (rev rows)"

text \<open>One leaf of a checkpoint.\<close>

definition verify_leaf ::
    "'a crypto_scheme \<Rightarrow> bundle_entry list \<Rightarrow> bundle_checkpoint \<Rightarrow> nat \<times> string \<Rightarrow>
     err + verify_issue list" where
  "verify_leaf C entries checkpoint leaf =
     (let sequence = bc_from_sequence checkpoint + int (fst leaf) in
      case map_get be_organization_sequence entries sequence of
        None \<Rightarrow> Inr [issue ''MERKLE_LEAF_MISSING'' (Some sequence) None]
      | Some entry \<Rightarrow>
          bindS (case be_merkle_proof entry of
              None \<Rightarrow> Inr True
            | Some steps \<Rightarrow> verifyMerkleProof C (be_entry_hash entry) steps (bc_root checkpoint)) (\<lambda>ok.
          Inr (push_if (be_entry_hash entry \<noteq> snd leaf)
                 (issue ''MERKLE_LEAF_MISMATCH'' (Some sequence) None) @
               push_if (\<not> ok)
                 (issue ''MERKLE_PROOF_INVALID'' (Some sequence) (Some (be_entry_hash entry))))))"

definition verify_checkpoint ::
    "'a crypto_scheme \<Rightarrow> bundle_entry list \<Rightarrow> bundle_checkpoint \<Rightarrow> err + verify_issue list" where
  "verify_checkpoint C entries checkpoint =
     bindS (computeMerkleRoot C (bc_leaf_hashes checkpoint)) (\<lambda>recomputed.
     bindS (mapS (verify_leaf C entries checkpoint) (enumerate 0 (bc_leaf_hashes checkpoint))) (\<lambda>found.
     Inr (push_if (recomputed \<noteq> bc_root checkpoint)
            (issue ''MERKLE_ROOT_MISMATCH'' (Some (bc_through_sequence checkpoint)) None) @
          concat found)))"

definition verifyMerkleCheckpoints ::
    "'a crypto_scheme \<Rightarrow> evidence_bundle \<Rightarrow> err + verify_issue list" where
  "verifyMerkleCheckpoints C bundle =
     bindS (mapS (verify_checkpoint C (eb_ledger_entries bundle)) (eb_merkle_checkpoints bundle)) (\<lambda>found.
     Inr (concat found))"

subsection \<open>The execution graphs\<close>

fun json_is_object :: "json \<Rightarrow> bool" where
  "json_is_object (JObj kvs) = True"
| "json_is_object (JArr xs) = True"
| "json_is_object v = False"

text \<open>\<open>new Date(s)\<close> of the row is not read by the graph builder; an invalid date is left at 0.\<close>

definition row_of_event :: "bundle_event \<Rightarrow> event_row" where
  "row_of_event event =
     \<lparr>ev_id = bv_id event, ev_organization_id = bv_organization_id event,
      ev_execution_id = bv_execution_id event, ev_event_sequence = bv_event_sequence event,
      ev_event_type = bv_event_type event, ev_status = bv_status event,
      ev_parent_event_ids = bv_parent_event_ids event, ev_input_hash = bv_input_hash event,
      ev_output_hash = bv_output_hash event, ev_metadata = bv_metadata event,
      ev_occurred_at = (case date_parse (bv_occurred_at_canonical event) of None \<Rightarrow> 0 | Some t \<Rightarrow> t),
      ev_occurred_at_canonical = bv_occurred_at_canonical event\<rparr>"

definition graph_execution_of_bundle :: "bundle_execution \<Rightarrow> graph_execution" where
  "graph_execution_of_bundle x =
     \<lparr>ge_id = bx_id x, ge_verity_record_id = bx_verity_record_id x,
      ge_organization_id = bx_organization_id x, ge_status = bx_status x\<rparr>"

definition compareGraphEvidence ::
    "'a crypto_scheme \<Rightarrow> bundle_execution \<Rightarrow> bundle_event list \<Rightarrow> bundle_graph \<Rightarrow> bundle_entry option \<Rightarrow>
     err + verify_issue list" where
  "compareGraphEvidence C execution related graphExport ledgerEntry =
     (let at = map_option be_organization_sequence ledgerEntry;
          hash = map_option be_entry_hash ledgerEntry in
      case buildExecutionGraphV2 (graph_execution_of_bundle execution) (map row_of_event related) of
        Inl (UnresolvedParents ps) \<Rightarrow> Inr [issue ''GRAPH_PARENT_UNRESOLVED'' at hash]
      | Inl e \<Rightarrow> Inl e
      | Inr reconstructed \<Rightarrow>
          bindS (computeExecutionGraphHash C (graph_json reconstructed)) (\<lambda>recomputed.
          bindS (if json_is_object (bg_graph graphExport) then
              bindS (computeExecutionGraphHash C (bg_graph graphExport)) (\<lambda>embedded.
              Inr (push_if (embedded \<noteq> bg_graph_hash graphExport \<or> embedded \<noteq> recomputed)
                     (issue ''GRAPH_EVIDENCE_MISMATCH'' at None)))
            else Inr []) (\<lambda>embedded_issues.
          Inr (push_if (recomputed \<noteq> bg_graph_hash graphExport) (issue ''GRAPH_HASH_MISMATCH'' at None) @
               embedded_issues @
               (case ledgerEntry of
                  None \<Rightarrow> []
                | Some entry \<Rightarrow>
                    (case be_execution_graph_hash entry of
                       None \<Rightarrow> []
                     | Some expected \<Rightarrow> push_if (expected \<noteq> '''' \<and> expected \<noteq> recomputed)
                         (issue ''GRAPH_LEDGER_MISMATCH'' at hash)))))))"

definition graph_bearing :: "bundle_entry \<Rightarrow> bool" where
  "graph_bearing entry \<longleftrightarrow>
     (be_entry_type entry = FinalEntry \<or> be_entry_type entry = FailureEntry) \<and>
     be_execution_graph_hash entry \<noteq> None"

definition belongs :: "evidence_bundle \<Rightarrow> bundle_execution option \<Rightarrow> bool" where
  "belongs bundle execution =
     (case execution of None \<Rightarrow> False
      | Some x \<Rightarrow> bx_organization_id x = mf_organization_id (eb_manifest bundle))"

text \<open>One turn of the loop over the graph-bearing entries.\<close>

definition verify_graph_entry ::
    "'a crypto_scheme \<Rightarrow> evidence_bundle \<Rightarrow> bundle_entry \<Rightarrow> err + verify_issue list" where
  "verify_graph_entry C bundle entry =
     (let at = Some (be_organization_sequence entry); hash = Some (be_entry_hash entry);
          execution = map_get bx_id (eb_executions bundle) (be_execution_id entry);
          exported = filter (\<lambda>g. bg_execution_id g = be_execution_id entry) (eb_execution_graphs bundle);
          related = filter (\<lambda>e. bv_execution_id e = be_execution_id entry) (eb_execution_events bundle) in
      bindS (case (execution, exported, related) of
          (Some x, [g], _ # _) \<Rightarrow> compareGraphEvidence C x related g (Some entry)
        | _ \<Rightarrow> Inr []) (\<lambda>compared.
      Inr (push_if (\<not> belongs bundle execution) (issue ''GRAPH_EVIDENCE_MISSING'' at hash) @
           push_if (exported = []) (issue ''GRAPH_EVIDENCE_MISSING'' at hash) @
           push_if (length exported > 1) (issue ''GRAPH_DUPLICATE'' at hash) @
           push_if (related = []) (issue ''GRAPH_EVENTS_MISSING'' at hash) @ compared)))"

text \<open>One turn of the loop over the exported graphs that no entry covered.\<close>

definition verify_graph_export ::
    "'a crypto_scheme \<Rightarrow> evidence_bundle \<Rightarrow> bundle_graph \<Rightarrow> err + verify_issue list" where
  "verify_graph_export C bundle graphExport =
     (let execution = map_get bx_id (eb_executions bundle) (bg_execution_id graphExport);
          related = filter (\<lambda>e. bv_execution_id e = bg_execution_id graphExport)
            (eb_execution_events bundle) in
      case execution of
        None \<Rightarrow> Inr [issue ''GRAPH_ORG_MISMATCH'' None None]
      | Some x \<Rightarrow>
          if \<not> belongs bundle execution then Inr [issue ''GRAPH_ORG_MISMATCH'' None None]
          else if related = [] then Inr [issue ''GRAPH_EVENTS_MISSING'' None None]
          else compareGraphEvidence C x related graphExport None)"

definition verifyExecutionGraphs ::
    "'a crypto_scheme \<Rightarrow> evidence_bundle \<Rightarrow> err + verify_issue list" where
  "verifyExecutionGraphs C bundle =
     (let graphBearing = filter graph_bearing (eb_ledger_entries bundle);
          checked = map be_execution_id graphBearing in
      bindS (mapS (verify_graph_entry C bundle) graphBearing) (\<lambda>found.
      bindS (mapS (verify_graph_export C bundle)
        (filter (\<lambda>g. bg_execution_id g \<notin> set checked) (eb_execution_graphs bundle))) (\<lambda>others.
      Inr (concat found @ concat others))))"

definition verifyEvidenceBundle :: "'a crypto_scheme \<Rightarrow> evidence_bundle \<Rightarrow> err + verify_result" where
  "verifyEvidenceBundle C bundle =
     (let org = mf_organization_id (eb_manifest bundle);
          plain = push_if (mf_includes_plaintext (eb_manifest bundle)) (issue ''PLAINTEXT_EXPORT'' None None);
          foreign = (if org = '''' then [] else
            concat (map (\<lambda>entry. push_if (be_organization_id entry \<noteq> org)
              (issue ''ORG_MISMATCH'' (Some (be_organization_sequence entry)) None))
              (eb_ledger_entries bundle))) in
      bindS (verifyOrganizationChain C (eb_ledger_entries bundle)) (\<lambda>chain.
      bindS (verifyMerkleCheckpoints C bundle) (\<lambda>checkpoints.
      bindS (verifyExecutionGraphs C bundle) (\<lambda>graphs.
      Inr (result_of (plain @ foreign @ vr_issues chain @ checkpoints @ graphs))))))"

text \<open>
  \<open>cli.ts\<close>: \<open>verity-verify export <bundlePath> [--entry-hash h]\<close> on the parsed bundle; \<open>Inr\<close> is the
  exit code, \<open>Inl\<close> an exception.  The entry given by hash is compared with the one before it in the
  file, whatever the sequence numbers say.
\<close>

definition entry_exit :: "'a crypto_scheme \<Rightarrow> bundle_entry list \<Rightarrow> string \<Rightarrow> err + nat" where
  "entry_exit C entries hash =
     (let index = length (takeWhile (\<lambda>e. be_entry_hash e \<noteq> hash) entries) in
      if index = length entries then Inr 1
      else bindS (verifyLedgerEntry C (entries ! index)
             (if index > 0 then Some (be_entry_hash (entries ! (index - 1))) else None)) (\<lambda>issues.
           Inr (if issues = [] then 0 else 1)))"

definition verify_cli :: "'a crypto_scheme \<Rightarrow> evidence_bundle \<Rightarrow> string option \<Rightarrow> err + nat" where
  "verify_cli C bundle entryHash =
     bindS (verifyEvidenceBundle C bundle) (\<lambda>result.
     bindS (case entryHash of
         Some h \<Rightarrow> if h = '''' then Inr 0 else entry_exit C (eb_ledger_entries bundle) h
       | None \<Rightarrow> Inr 0) (\<lambda>code.
     Inr (if code \<noteq> 0 then code else if vr_valid result then 0 else 1)))"

end
