(* ===== verification/Evidence.thy ===== *)
theory Evidence
  imports Verify
begin

text \<open>
  What the verifier establishes and what it accepts.  \<open>verified_from\<close> is the reference definition of a
  chain without issues; the verifier decides it (an equivalence), the hash of the last entry commits to
  the whole verified chain, a verified bundle's graph-bearing entries commit to the exported events,
  and the export of a database that satisfies the kernel's invariant verifies.
\<close>

subsection \<open>The reference definition of a valid chain\<close>

fun verified_from ::
    "'a crypto_scheme \<Rightarrow> bundle_entry option \<Rightarrow> bundle_entry list \<Rightarrow> bool" where
  "verified_from C before [] = True"
| "verified_from C before (e # es) \<longleftrightarrow>
     be_organization_sequence e = (case before of None \<Rightarrow> 1 | Some p \<Rightarrow> be_organization_sequence p + 1) \<and>
     be_previous_entry_hash e = map_option be_entry_hash before \<and>
     computeEntryHash C (buildHashPayload (bundle_fields e)) = Inr (be_entry_hash e) \<and>
     be_hash_format_version e = HASH_FORMAT_VERSION \<and>
     be_created_at e = be_created_at_canonical e \<and> verified_from C (Some e) es"

lemma push_if_empty [simp]: "push_if c i = [] \<longleftrightarrow> \<not> c"
  by (simp add: push_if_def)

lemma result_valid [simp]: "vr_valid (result_of issues) \<longleftrightarrow> issues = []"
  by (simp add: result_of_def)

lemma verify_entry_clean:
  "verifyLedgerEntry C e prev = Inr [] \<longleftrightarrow>
     be_previous_entry_hash e = prev \<and>
     computeEntryHash C (buildHashPayload (bundle_fields e)) = Inr (be_entry_hash e) \<and>
     be_hash_format_version e = HASH_FORMAT_VERSION \<and> be_created_at e = be_created_at_canonical e"
  by (auto simp: verifyLedgerEntry_def Let_def)

lemma verify_entries_clean: "verify_entries C before es = Inr [] \<longleftrightarrow> verified_from C before es"
proof (induction es arbitrary: before)
  case (Cons e es)
  then show ?case by (auto simp: Let_def verify_entry_clean split: option.splits)
qed simp

lemma verify_chain_clean:
  "(\<exists>r. verifyOrganizationChain C es = Inr r \<and> vr_valid r) \<longleftrightarrow>
     verified_from C None (sort_key be_organization_sequence es)"
  unfolding verify_entries_clean [symmetric]
  by (cases "verify_entries C None (sort_key be_organization_sequence es)")
    (auto simp: verifyOrganizationChain_def)

lemma verified_from_append:
  "verified_from C before (es @ fs) \<longleftrightarrow>
     verified_from C before es \<and> verified_from C (if es = [] then before else Some (last es)) fs"
  by (induction es arbitrary: before) auto

lemma verified_sequence:
  "verified_from C None es \<Longrightarrow> es \<noteq> [] \<Longrightarrow> be_organization_sequence (last es) = int (length es)"
proof (induction es rule: rev_induct)
  case (snoc e es)
  then show ?case by (auto simp: verified_from_append)
qed simp

text \<open>The last hash determines the chain.\<close>

lemma head_commits:
  assumes "crypto_ok C" "verified_from C None es" "verified_from C None fs"
    and "es \<noteq> []" "fs \<noteq> []" "be_entry_hash (last es) = be_entry_hash (last fs)"
  shows "list_all2 (\<lambda>e f. same_hashed_fields (bundle_fields e) (bundle_fields f) \<and>
      be_entry_hash e = be_entry_hash f) es fs \<or>
    (\<exists>e\<in>set es. \<exists>f\<in>set fs. collision C (payload_bytes (bundle_fields e)) (payload_bytes (bundle_fields f)))"
  using assms(2-)
proof (induction es arbitrary: fs rule: rev_induct)
  case (snoc e es)
  obtain fs' f where fs: "fs = fs' @ [f]" using snoc.prems(4) by (metis append_butlast_last_id)
  note ve = snoc.prems(1) [unfolded verified_from_append]
  note vf = snoc.prems(2) [unfolded fs verified_from_append]
  have eq: "be_entry_hash e = be_entry_hash f" using snoc.prems(5) fs by simp
  have he: "computeEntryHash C (buildHashPayload (bundle_fields e)) = Inr (be_entry_hash f)"
    "computeEntryHash C (buildHashPayload (bundle_fields f)) = Inr (be_entry_hash f)"
    using ve vf eq by simp_all
  show ?case
  proof (cases "collision C (payload_bytes (bundle_fields e)) (payload_bytes (bundle_fields f))")
    case False
    then have same: "same_hashed_fields (bundle_fields e) (bundle_fields f)"
      using entry_hash_binds_fields [OF assms(1) he] by blast
    then have flds: "be_organization_sequence e = be_organization_sequence f"
        "be_previous_entry_hash e = be_previous_entry_hash f"
      by (simp_all add: same_hashed_fields_def bundle_fields_def)
    have len: "length es = length fs'"
      using verified_sequence [OF snoc.prems(1)] verified_sequence [OF snoc.prems(2)] flds fs by simp
    show ?thesis
    proof (cases "es = []")
      case True
      with same eq len fs show ?thesis by simp
    next
      case ne: False
      then have ne': "fs' \<noteq> []" using len by auto
      have "be_entry_hash (last es) = be_entry_hash (last fs')"
        using ve vf flds(2) ne ne' by simp
      from snoc.IH [OF _ _ ne ne' this] ve vf show ?thesis
        using same eq fs by (auto simp: list_all2_appendI)
    qed
  qed (auto simp: fs)
qed simp

subsection \<open>Lookups in the bundle\<close>

lemma map_get_SomeD: "map_get key rows k = Some r \<Longrightarrow> r \<in> set rows \<and> key r = k"
  by (auto simp: map_get_def dest: find_SomeD)

lemma map_get_unique:
  assumes "distinct (map key rows)" "r \<in> set rows"
  shows "map_get key rows (key r) = Some r"
proof -
  obtain xs ys where rows: "rows = xs @ r # ys" using assms(2) by (meson split_list)
  then have "\<forall>y\<in>set ys. key y \<noteq> key r" using assms(1) by (force simp: image_iff)
  then have "find (\<lambda>y. key y = key r) (rev ys) = None" by (auto simp: find_None_iff)
  then show ?thesis by (simp add: map_get_def rows find_append)
qed

subsection \<open>Graph evidence\<close>

lemma compare_clean_entry:
  assumes "compareGraphEvidence C x related g (Some entry) = Inr []"
    and "be_execution_graph_hash entry = Some h" "h \<noteq> ''''"
  shows "\<exists>graph. buildExecutionGraphV2 (graph_execution_of_bundle x) (map row_of_event related) = Inr graph \<and>
    computeExecutionGraphHash C (graph_json graph) = Inr h"
  using assms by (auto simp: compareGraphEvidence_def Let_def split: sum.splits err.splits if_splits)

lemma graph_entry_clean:
  assumes "verify_graph_entry C bundle entry = Inr []"
    and "be_execution_graph_hash entry = Some h" "h \<noteq> ''''"
  shows "\<exists>x graph. map_get bx_id (eb_executions bundle) (be_execution_id entry) = Some x \<and>
    bx_organization_id x = mf_organization_id (eb_manifest bundle) \<and>
    buildExecutionGraphV2 (graph_execution_of_bundle x) (map row_of_event
      (filter (\<lambda>e. bv_execution_id e = be_execution_id entry) (eb_execution_events bundle))) = Inr graph \<and>
    computeExecutionGraphHash C (graph_json graph) = Inr h"
proof -
  let ?x = "map_get bx_id (eb_executions bundle) (be_execution_id entry)"
  let ?gs = "filter (\<lambda>g. bg_execution_id g = be_execution_id entry) (eb_execution_graphs bundle)"
  let ?es = "filter (\<lambda>e. bv_execution_id e = be_execution_id entry) (eb_execution_events bundle)"
  from assms(1) have c: "belongs bundle ?x" "?gs \<noteq> []" "\<not> length ?gs > 1" "?es \<noteq> []"
    and cmp: "(case (?x, ?gs, ?es) of
          (Some x, [g], _ # _) \<Rightarrow> compareGraphEvidence C x ?es g (Some entry)
        | _ \<Rightarrow> Inr []) = Inr []"
    by (auto simp: verify_graph_entry_def Let_def)
  obtain x where x: "?x = Some x" "bx_organization_id x = mf_organization_id (eb_manifest bundle)"
    using c(1) by (auto simp: belongs_def split: option.splits)
  obtain g where g: "?gs = [g]" using c(2,3) by (cases ?gs) (auto simp: Suc_lessI)
  obtain v vs where v: "?es = v # vs" using c(4) by (cases ?es) auto
  from cmp have "compareGraphEvidence C x ?es g (Some entry) = Inr []"
    unfolding x g by (simp add: v)
  from compare_clean_entry [OF this assms(2,3)] x show ?thesis by auto
qed

lemma mapS_concat_clean:
  "mapS f xs = Inr yss \<Longrightarrow> concat yss = [] \<longleftrightarrow> (\<forall>x\<in>set xs. f x = Inr [])"
  by (induction xs arbitrary: yss) auto

lemma mapS_all_clean: "\<forall>x\<in>set xs. f x = Inr [] \<Longrightarrow> \<exists>yss. mapS f xs = Inr yss \<and> concat yss = []"
  by (induction xs) auto

lemma bundle_clean:
  assumes "verifyEvidenceBundle C bundle = Inr r" "vr_valid r"
  shows "\<not> mf_includes_plaintext (eb_manifest bundle)"
    "verified_from C None (sort_key be_organization_sequence (eb_ledger_entries bundle))"
    "verifyMerkleCheckpoints C bundle = Inr []"
    "verifyExecutionGraphs C bundle = Inr []"
    "mf_organization_id (eb_manifest bundle) = '''' \<or>
     (\<forall>e\<in>set (eb_ledger_entries bundle). be_organization_id e = mf_organization_id (eb_manifest bundle))"
proof -
  let ?org = "mf_organization_id (eb_manifest bundle)"
  obtain chain cps gs where v: "verifyOrganizationChain C (eb_ledger_entries bundle) = Inr chain"
      "verifyMerkleCheckpoints C bundle = Inr cps" "verifyExecutionGraphs C bundle = Inr gs"
      "r = result_of (push_if (mf_includes_plaintext (eb_manifest bundle)) (issue ''PLAINTEXT_EXPORT'' None None) @
        (if ?org = '''' then [] else concat (map (\<lambda>entry. push_if (be_organization_id entry \<noteq> ?org)
              (issue ''ORG_MISMATCH'' (Some (be_organization_sequence entry)) None))
              (eb_ledger_entries bundle))) @ vr_issues chain @ cps @ gs)"
    using assms(1) by (auto simp: verifyEvidenceBundle_def Let_def)
  then have empty: "\<not> mf_includes_plaintext (eb_manifest bundle)" "vr_issues chain = []" "cps = []" "gs = []"
      "?org = '''' \<or> (\<forall>e\<in>set (eb_ledger_entries bundle). be_organization_id e = ?org)"
    using assms(2) by (auto split: if_splits)
  have "vr_valid chain"
    using v(1) empty(2) by (auto simp: verifyOrganizationChain_def result_of_def split: if_splits)
  then show "verified_from C None (sort_key be_organization_sequence (eb_ledger_entries bundle))"
    using v(1) verify_chain_clean by blast
  show "\<not> mf_includes_plaintext (eb_manifest bundle)" "verifyMerkleCheckpoints C bundle = Inr []"
    "verifyExecutionGraphs C bundle = Inr []"
    "?org = '''' \<or> (\<forall>e\<in>set (eb_ledger_entries bundle). be_organization_id e = ?org)"
    using v empty by simp_all
qed

subsection \<open>The export of a sound database\<close>

definition current_graph_hash ::
    "'a crypto_scheme \<Rightarrow> 'w audit_world_scheme \<Rightarrow> execution_row \<Rightarrow> err + string" where
  "current_graph_hash C w x =
     bindS (buildExecutionGraphV2 (graph_execution_of x (ex_status x)) (events_of (ex_id x) w)) (\<lambda>g.
     computeExecutionGraphHash C (graph_json g))"

text \<open>Every sealed entry of the organization still matches the stored events of its execution.\<close>

definition seals_current :: "'a crypto_scheme \<Rightarrow> id \<Rightarrow> 'w audit_world_scheme \<Rightarrow> bool" where
  "seals_current C org w \<longleftrightarrow>
     (\<forall>e\<in>set (entries_of org w). \<forall>h.
        (le_entry_type e = FinalEntry \<or> le_entry_type e = FailureEntry) \<and>
        le_execution_graph_hash e = Some h \<longrightarrow>
        (\<exists>x\<in>set (executions w). ex_id x = le_execution_id e \<and> ex_organization_id x = org \<and>
           events_of (ex_id x) w \<noteq> [] \<and> current_graph_hash C w x = Inr h))"

text \<open>No sequence number is covered by two checkpoints (what a fixed interval gives).\<close>

definition checkpoints_disjoint :: "id \<Rightarrow> 'w audit_world_scheme \<Rightarrow> bool" where
  "checkpoints_disjoint org w \<longleftrightarrow>
     (\<forall>c\<in>set (merkle_checkpoints w). \<forall>d\<in>set (merkle_checkpoints w).
        mc_organization_id c = org \<longrightarrow> mc_organization_id d = org \<longrightarrow>
        mc_from_sequence c \<le> mc_through_sequence d \<longrightarrow> mc_from_sequence d \<le> mc_through_sequence c \<longrightarrow> c = d)"

definition exported_graph :: "'a crypto_scheme \<Rightarrow> 'w audit_world_scheme \<Rightarrow> execution_row \<Rightarrow> bundle_graph list" where
  "exported_graph C w x =
     (if events_of (ex_id x) w = [] then [] else
      case export_graph C x (events_of (ex_id x) w) of Inl e \<Rightarrow> [] | Inr g \<Rightarrow> [g])"

lemma row_of_exported: "event_ok e \<Longrightarrow> row_of_event (export_event e) = e"
  by (simp add: row_of_event_def event_ok_def)

lemma graph_execution_exported [simp]:
  "graph_execution_of_bundle (export_execution x) = graph_execution_of x (ex_status x)"
  by (simp add: graph_execution_of_bundle_def graph_execution_of_def)

lemma audit_inv_events:
  assumes "audit_inv C w" "x \<in> set (executions w)"
  shows "events_from (ex_organization_id x) 1 {} (events_of (ex_id x) w)"
    "\<forall>e\<in>set (events_of (ex_id x) w). event_ok e"
    "map (row_of_event \<circ> export_event) (events_of (ex_id x) w) = events_of (ex_id x) w"
proof -
  show f: "events_from (ex_organization_id x) 1 {} (events_of (ex_id x) w)"
    using assms by (simp add: audit_inv_def events_inv_def)
  show ok: "\<forall>e\<in>set (events_of (ex_id x) w). event_ok e" using events_from_ok [OF f] by simp
  show "map (row_of_event \<circ> export_event) (events_of (ex_id x) w) = events_of (ex_id x) w"
    using ok by (simp add: map_idI row_of_exported)
qed

lemma current_graph:
  assumes "audit_inv C w" "x \<in> set (executions w)"
  obtains g h where
    "buildExecutionGraphV2 (graph_execution_of x (ex_status x)) (events_of (ex_id x) w) = Inr g"
    "computeExecutionGraphHash C' (graph_json g) = Inr h" "current_graph_hash C' w x = Inr h"
proof -
  obtain g where g: "buildExecutionGraphV2 (graph_execution_of x (ex_status x)) (events_of (ex_id x) w) = Inr g"
    using events_from_build [OF audit_inv_events(1) [OF assms]] by blast
  from graph_hash_total [OF this audit_inv_events(2) [OF assms], of C'] that [OF g] g show ?thesis
    by (auto simp: current_graph_hash_def)
qed

lemma export_events_run:
  assumes "audit_inv E w" "x \<in> set (executions w)" "ex_organization_id x = org"
  shows "export_execution_events E org x w = (Inr (events_of (ex_id x) w, exported_graph E w x), w)"
proof -
  have l: "listExecutionEvents org (ex_id x) w = (Inr (events_of (ex_id x) w), w)"
    using listExecutionEvents_run [of w x org] assms by (simp add: audit_inv_def)
  obtain g h where "buildExecutionGraphV2 (graph_execution_of x (ex_status x)) (events_of (ex_id x) w) = Inr g"
    "computeExecutionGraphHash E (graph_json g) = Inr h" by (rule current_graph [OF assms(1,2)])
  then show ?thesis
    unfolding export_execution_events_def bindE_run [of "listExecutionEvents org (ex_id x)", OF l]
    by (simp add: run exported_graph_def export_graph_def)
qed

lemma mapE_run: "(\<And>x. x \<in> set xs \<Longrightarrow> f x s = (Inr (g x), s)) \<Longrightarrow> mapE f xs s = (Inr (map g xs), s)"
  by (induction xs) (simp_all add: run)

lemma exported_graph_only:
  assumes "audit_inv E w" "x \<in> set (executions w)"
  shows "\<exists>g. exported_graph E w x = (if events_of (ex_id x) w = [] then [] else [g]) \<and>
     bg_execution_id g = ex_id x \<and> json_is_object (bg_graph g) \<and>
     computeExecutionGraphHash E (bg_graph g) = current_graph_hash E w x \<and>
     current_graph_hash E w x = Inr (bg_graph_hash g)"
proof -
  obtain g h where "buildExecutionGraphV2 (graph_execution_of x (ex_status x)) (events_of (ex_id x) w) = Inr g"
    "computeExecutionGraphHash E (graph_json g) = Inr h" "current_graph_hash E w x = Inr h"
    by (rule current_graph [OF assms])
  moreover from this(1) have "gr_execution_id g = ex_id x"
    by (simp add: build_Inr graph_execution_of_def)
  ultimately show ?thesis
    by (intro exI [of _ "\<lparr>bg_schema_version = gr_schema_version g, bg_execution_id = gr_execution_id g,
          bg_verity_record_id = gr_verity_record_id g, bg_organization_id = gr_organization_id g,
          bg_status = status_str (gr_status g), bg_graph_hash = h, bg_graph = graph_json g\<rparr>"])
      (simp add: exported_graph_def export_graph_def graph_json_def)
qed

text \<open>Selecting the part of one execution out of a concatenation over executions.\<close>

lemma filter_concat_key:
  assumes "distinct (map key xs)" "x \<in> set xs" "\<And>y e. y \<in> set xs \<Longrightarrow> e \<in> set (part y) \<Longrightarrow> owner e = key y"
  shows "filter (\<lambda>e. owner e = key x) (concat (map part xs)) = part x"
  using assms
proof (induction xs)
  case (Cons y ys)
  have own: "\<And>z e. z \<in> set ys \<Longrightarrow> e \<in> set (part z) \<Longrightarrow> owner e = key z" using Cons.prems(3) by simp
  show ?case
  proof (cases "x = y")
    case True
    have "filter (\<lambda>e. owner e = key y) (concat (map part ys)) = []"
      using Cons.prems(1) own by (fastforce simp: filter_empty_conv image_iff)
    moreover have "filter (\<lambda>e. owner e = key y) (part y) = part y"
      using Cons.prems(3) [of y] by (simp add: filter_id_conv)
    ultimately show ?thesis using True by simp
  next
    case False
    then have x: "x \<in> set ys" using Cons.prems(2) by simp
    then have "key x \<in> set (map key ys)" by simp
    then have "key x \<noteq> key y" using Cons.prems(1) by (metis distinct.simps(2) list.simps(9))
    then have "filter (\<lambda>e. owner e = key x) (part y) = []"
      using Cons.prems(3) [of y] by (auto simp: filter_empty_conv)
    then show ?thesis using Cons.IH [OF _ x own] Cons.prems(1) by simp
  qed
qed simp

lemma compare_exported:
  assumes "audit_inv E w" "x \<in> set (executions w)"
    and g: "current_graph_hash E w x = Inr (bg_graph_hash g)"
      "computeExecutionGraphHash E (bg_graph g) = current_graph_hash E w x"
    and "\<And>e h. entry = Some e \<Longrightarrow> be_execution_graph_hash e = Some h \<Longrightarrow> h = bg_graph_hash g"
  shows "compareGraphEvidence E (export_execution x) (map export_event (events_of (ex_id x) w)) g entry = Inr []"
proof -
  obtain gr h where "buildExecutionGraphV2 (graph_execution_of x (ex_status x)) (events_of (ex_id x) w) = Inr gr"
    "computeExecutionGraphHash E (graph_json gr) = Inr h" "current_graph_hash E w x = Inr h"
    by (rule current_graph [OF assms(1,2)])
  then show ?thesis
    using g assms(5) audit_inv_events(3) [OF assms(1,2)]
    by (auto simp: compareGraphEvidence_def Let_def push_if_def split: option.splits)
qed

subsection \<open>The chain and the checkpoints of an export\<close>

lemma entry_exported:
  assumes "entry_ok C e" "export_entry C cps e = Inr b"
  shows "b = (ledgerRowToExport e)\<lparr>be_merkle_proof := be_merkle_proof b\<rparr>"
    "bundle_fields b = entry_fields e"
    "computeEntryHash C (buildHashPayload (bundle_fields b)) = Inr (be_entry_hash b)"
    "be_hash_format_version b = HASH_FORMAT_VERSION" "be_created_at b = be_created_at_canonical b"
proof -
  show b: "b = (ledgerRowToExport e)\<lparr>be_merkle_proof := be_merkle_proof b\<rparr>"
    using assms(2) by (auto simp: export_entry_def Let_def split: option.splits)
  show f: "bundle_fields b = entry_fields e"
    by (subst b) (simp add: bundle_fields_def entry_fields_def)
  show "computeEntryHash C (buildHashPayload (bundle_fields b)) = Inr (be_entry_hash b)"
    "be_hash_format_version b = HASH_FORMAT_VERSION" "be_created_at b = be_created_at_canonical b"
    unfolding f using assms(1) by (subst b, simp add: entry_ok_def)+
qed

lemma exported_entry_simps:
  assumes "export_entry C cps e = Inr b"
  shows "be_organization_sequence b = le_organization_sequence e"
    "be_previous_entry_hash b = le_previous_entry_hash e" "be_entry_hash b = le_entry_hash e"
    "be_organization_id b = le_organization_id e" "be_execution_id b = le_execution_id e"
    "be_entry_type b = le_entry_type e" "be_execution_graph_hash b = le_execution_graph_hash e"
  using assms by (auto simp: export_entry_def Let_def split: option.splits)

lemma chain_exported:
  assumes "chain_from C org n prev es" "list_all2 (\<lambda>e b. export_entry C cps e = Inr b) es bs"
    and "n = (case before of None \<Rightarrow> 1 | Some p \<Rightarrow> be_organization_sequence p + 1)"
    and "prev = map_option be_entry_hash before"
  shows "verified_from C before bs"
  using assms(2,1,3,4)
proof (induction arbitrary: n prev before rule: list_all2_induct)
  case (Cons e es b bs)
  then have ok: "entry_ok C e" and rest: "chain_from C org (n + 1) (Some (le_entry_hash e)) es" by simp_all
  note s = exported_entry_simps [OF Cons.hyps(1)]
  show ?case
    using Cons.IH [OF rest, of "Some b"] Cons.prems s entry_exported(3-5) [OF ok Cons.hyps(1)] by simp
qed simp

lemma slice_nth: "1 \<le> a \<Longrightarrow> b \<le> int (length xs) \<Longrightarrow> i < length (slice a b xs) \<Longrightarrow>
  slice a b xs ! i = xs ! (nat (a - 1) + i)"
  by (simp add: slice_def)

lemma slice_length: "1 \<le> a \<Longrightarrow> a \<le> b \<Longrightarrow> b \<le> int (length xs) \<Longrightarrow> length (slice a b xs) = nat (b - a + 1)"
  by (simp add: slice_def)

text \<open>The leaf of a sequence number inside a checkpoint.\<close>

lemma checkpoint_leaf:
  assumes "checkpoint_ok C w c" "mc_organization_id c = org"
    "mc_from_sequence c \<le> s" "s \<le> mc_through_sequence c"
  shows "nat (s - mc_from_sequence c) < length (mc_leaf_hashes c)"
    "mc_leaf_hashes c ! nat (s - mc_from_sequence c) = le_entry_hash (entries_of org w ! nat (s - 1))"
    "nat (s - 1) < length (entries_of org w)"
proof -
  let ?a = "mc_from_sequence c" and ?b = "mc_through_sequence c" and ?es = "entries_of org w"
  have ok: "1 \<le> ?a" "?a \<le> ?b" "?b \<le> int (length ?es)"
    "mc_leaf_hashes c = map le_entry_hash (slice ?a ?b ?es)"
    using assms(1,2) by (simp_all add: checkpoint_ok_def)
  note len = slice_length [OF ok(1-3)]
  show i: "nat (s - ?a) < length (mc_leaf_hashes c)" using ok(4) len assms(3,4) by simp
  have "nat (?a - 1) + nat (s - ?a) = nat (s - 1)" using ok(1) assms(3) by simp
  then show "mc_leaf_hashes c ! nat (s - ?a) = le_entry_hash (?es ! nat (s - 1))"
    using slice_nth [OF ok(1,3), of "nat (s - ?a)"] i ok(4) by simp
  show "nat (s - 1) < length ?es" using ok assms(3,4) by linarith
qed

lemma checkpoint_leaves_hex:
  assumes "ledger_inv C w" "c \<in> set (merkle_checkpoints w)"
  shows "list_all isSha256Hex (mc_leaf_hashes c)"
proof -
  have ok: "checkpoint_ok C w c" using assms by (simp add: ledger_inv_def)
  have "chain_from C (mc_organization_id c) 1 None (entries_of (mc_organization_id c) w)"
    using assms by (simp add: ledger_inv_def)
  then have "\<forall>e\<in>set (entries_of (mc_organization_id c) w). isSha256Hex (le_entry_hash e)"
    using chain_from_mem by (fastforce simp: entry_ok_def)
  then show ?thesis
    using ok by (auto simp: checkpoint_ok_def list_all_iff slice_def dest!: in_set_takeD in_set_dropD)
qed

text \<open>An exported entry carries a proof that leads to the root of every checkpoint that covers it.\<close>

lemma entry_proof:
  assumes C: "crypto_ok C" and inv: "ledger_inv C w" and dis: "checkpoints_disjoint org w"
    and cps: "set cps = {c \<in> set (merkle_checkpoints w). mc_organization_id c = org}"
    and e: "e = entries_of org w ! i" "i < length (entries_of org w)"
  shows "\<exists>b. export_entry C cps e = Inr b \<and>
    (\<forall>c\<in>set cps. mc_from_sequence c \<le> int i + 1 \<longrightarrow> int i + 1 \<le> mc_through_sequence c \<longrightarrow>
       (\<exists>steps. be_merkle_proof b = Some steps \<and>
          verifyMerkleProof C (be_entry_hash b) steps (mc_root c) = Inr True))"
proof -
  have seq: "le_organization_sequence e = int i + 1"
    using inv e chain_from_seq [of C org 1 None "entries_of org w" i] by (simp add: ledger_inv_def)
  let ?p = "\<lambda>c. le_organization_sequence e \<ge> mc_from_sequence c \<and>
      le_organization_sequence e \<le> mc_through_sequence c"
  show ?thesis
  proof (cases "find ?p cps")
    case None
    then have "\<forall>c\<in>set cps. \<not> ?p c" by (simp add: find_None_iff)
    with None seq show ?thesis by (auto simp: export_entry_def)
  next
    case (Some c)
    then have c: "c \<in> set cps" "mc_from_sequence c \<le> int i + 1" "int i + 1 \<le> mc_through_sequence c"
      using find_SomeD [OF Some] seq by auto
    have cw: "c \<in> set (merkle_checkpoints w)" "mc_organization_id c = org" using c(1) cps by auto
    have ok: "checkpoint_ok C w c" using inv cw by (simp add: ledger_inv_def)
    note leaf = checkpoint_leaf [OF ok cw(2) c(2,3)]
    have i: "0 \<le> int i + 1 - mc_from_sequence c" "int i + 1 - mc_from_sequence c < int (length (mc_leaf_hashes c))"
      using c(2) leaf(1) by linarith+
    obtain steps root where p: "getMerkleProof C (mc_leaf_hashes c) (int i + 1 - mc_from_sequence c) = Inr (steps, root)"
      "computeMerkleRoot C (mc_leaf_hashes c) = Inr root"
      "verifyMerkleProof C (mc_leaf_hashes c ! nat (int i + 1 - mc_from_sequence c)) steps root = Inr True"
      using merkle_proof_complete [OF C checkpoint_leaves_hex [OF inv cw(1)] i] by blast
    have root: "root = mc_root c" using p(2) ok by (simp add: checkpoint_ok_def)
    have hash: "mc_leaf_hashes c ! nat (int i + 1 - mc_from_sequence c) = le_entry_hash e"
      using leaf(2) e(1) by simp
    have "c' = c" if "c' \<in> set cps" "mc_from_sequence c' \<le> int i + 1" "int i + 1 \<le> mc_through_sequence c'" for c'
      using dis that c cps cw unfolding checkpoints_disjoint_def by fastforce
    then show ?thesis
      using Some seq p root hash by (auto simp: export_entry_def)
  qed
qed

lemma leaf_verified:
  assumes C: "crypto_ok C" and inv: "ledger_inv C w" and dis: "checkpoints_disjoint org w"
    and cps: "set cps = {c \<in> set (merkle_checkpoints w). mc_organization_id c = org}"
    and bs: "list_all2 (\<lambda>e b. export_entry C cps e = Inr b) (entries_of org w) bs"
    and c: "c \<in> set cps" and i: "i < length (mc_leaf_hashes c)"
  shows "verify_leaf C bs (export_checkpoint c) (i, mc_leaf_hashes c ! i) = Inr []"
proof -
  let ?es = "entries_of org w" and ?s = "mc_from_sequence c + int i"
  have cw: "c \<in> set (merkle_checkpoints w)" "mc_organization_id c = org" using c cps by auto
  have ok: "checkpoint_ok C w c" using inv cw by (simp add: ledger_inv_def)
  have rng: "1 \<le> mc_from_sequence c" "mc_from_sequence c \<le> ?s" "?s \<le> mc_through_sequence c"
    using ok i slice_length [of "mc_from_sequence c" "mc_through_sequence c" ?es] cw(2)
    by (simp_all add: checkpoint_ok_def)
  note leaf = checkpoint_leaf [OF ok cw(2) rng(2,3)]
  define k where "k = nat (?s - 1)"
  have k: "k < length ?es" "?s = int k + 1" using leaf(3) rng(1) by (simp_all add: k_def)
  have chain: "chain_from C org 1 None ?es" using inv by (simp add: ledger_inv_def)
  have b: "export_entry C cps (?es ! k) = Inr (bs ! k)" "length bs = length ?es"
    using bs k(1) by (auto simp: list_all2_conv_all_nth)
  have seqs: "map be_organization_sequence bs = map le_organization_sequence ?es"
    using bs by (induction rule: list_all2_induct) (auto dest: exported_entry_simps(1))
  have dist: "distinct (map be_organization_sequence bs)"
    unfolding seqs by (rule chain_from_distinct [OF chain])
  have "be_organization_sequence (bs ! k) = ?s"
    using exported_entry_simps(1) [OF b(1)] chain_from_seq [OF chain k(1)] k(2) by simp
  then have get: "map_get be_organization_sequence bs ?s = Some (bs ! k)"
    using map_get_unique [OF dist, of "bs ! k"] k(1) b(2) by simp
  have hash: "be_entry_hash (bs ! k) = mc_leaf_hashes c ! i"
    using leaf(2) exported_entry_simps(3) [OF b(1)] by (simp add: k_def)
  obtain steps where "be_merkle_proof (bs ! k) = Some steps"
    "verifyMerkleProof C (be_entry_hash (bs ! k)) steps (mc_root c) = Inr True"
    using entry_proof [OF C inv dis cps refl k(1)] b(1) c rng k(2) by auto
  with get hash show ?thesis by (simp add: verify_leaf_def push_if_def)
qed

lemma checkpoint_verified:
  assumes C: "crypto_ok C" and inv: "ledger_inv C w" and dis: "checkpoints_disjoint org w"
    and cps: "set cps = {c \<in> set (merkle_checkpoints w). mc_organization_id c = org}"
    and bs: "list_all2 (\<lambda>e b. export_entry C cps e = Inr b) (entries_of org w) bs"
    and c: "c \<in> set cps"
  shows "verify_checkpoint C bs (export_checkpoint c) = Inr []"
proof -
  have "verify_leaf C bs (export_checkpoint c) l = Inr []" if "l \<in> set (enumerate 0 (mc_leaf_hashes c))" for l
    using leaf_verified [OF C inv dis cps bs c, of "fst l"] that
    by (auto simp: in_set_enumerate_eq)
  then have "\<forall>x\<in>set (enumerate 0 (mc_leaf_hashes c)). verify_leaf C bs (export_checkpoint c) x = Inr []" by simp
  from mapS_all_clean [OF this] obtain yss where
    "mapS (verify_leaf C bs (export_checkpoint c)) (enumerate 0 (mc_leaf_hashes c)) = Inr yss" "concat yss = []"
    by blast
  moreover have "checkpoint_ok C w c" using inv c cps by (auto simp: ledger_inv_def)
  ultimately show ?thesis by (auto simp: verify_checkpoint_def checkpoint_ok_def push_if_def)
qed

subsection \<open>The graphs of an export\<close>

text \<open>The parts of the bundle the graph check reads, for the executions \<open>xs\<close> of the organization.\<close>

definition exports_graphs ::
    "'a env_scheme \<Rightarrow> id \<Rightarrow> 'w audit_world_scheme \<Rightarrow> execution_row list \<Rightarrow> evidence_bundle \<Rightarrow> bool" where
  "exports_graphs E org w xs b \<longleftrightarrow>
     mf_organization_id (eb_manifest b) = org \<and>
     eb_executions b = map export_execution xs \<and>
     eb_execution_events b = map export_event (concat (map (\<lambda>x. events_of (ex_id x) w) xs)) \<and>
     eb_execution_graphs b = concat (map (exported_graph E w) xs) \<and>
     distinct (map ex_id xs) \<and> set xs = {x \<in> set (executions w). ex_organization_id x = org}"

lemma exports_graphs_parts:
  assumes "audit_inv E w" "exports_graphs E org w xs b" "x \<in> set xs"
  shows "map_get bx_id (eb_executions b) (ex_id x) = Some (export_execution x)"
    "filter (\<lambda>e. bv_execution_id e = ex_id x) (eb_execution_events b) = map export_event (events_of (ex_id x) w)"
    "filter (\<lambda>g. bg_execution_id g = ex_id x) (eb_execution_graphs b) = exported_graph E w x"
    "belongs b (Some (export_execution x))"
proof -
  note d = assms(2) [unfolded exports_graphs_def]
  have "distinct (map bx_id (map export_execution xs))" using d by (simp add: comp_def)
  from map_get_unique [OF this, of "export_execution x"] show
    "map_get bx_id (eb_executions b) (ex_id x) = Some (export_execution x)"
    using d assms(3) by simp
  have "filter (\<lambda>e. ev_execution_id e = ex_id x) (concat (map (\<lambda>x. events_of (ex_id x) w) xs)) =
      events_of (ex_id x) w"
    using d assms(3) by (intro filter_concat_key) (auto simp: events_of_def)
  then show "filter (\<lambda>e. bv_execution_id e = ex_id x) (eb_execution_events b) =
      map export_event (events_of (ex_id x) w)"
    using d by (simp add: filter_map comp_def)
  have own: "bg_execution_id g = ex_id y" if "y \<in> set xs" "g \<in> set (exported_graph E w y)" for y g
    using exported_graph_only [OF assms(1), of y] d that by (auto split: if_splits)
  have "filter (\<lambda>g. bg_execution_id g = ex_id x) (concat (map (exported_graph E w) xs)) = exported_graph E w x"
    by (rule filter_concat_key) (use d assms(3) own in auto)
  then show "filter (\<lambda>g. bg_execution_id g = ex_id x) (eb_execution_graphs b) = exported_graph E w x"
    using d by simp
  show "belongs b (Some (export_execution x))" using d assms(3) by (simp add: belongs_def)
qed

lemma graph_entry_verified:
  assumes inv: "audit_inv E w" and ex: "exports_graphs E org w xs b"
    and e: "graph_bearing entry" "be_execution_graph_hash entry = Some h"
    and x: "x \<in> set (executions w)" "ex_id x = be_execution_id entry" "ex_organization_id x = org"
    and ev: "events_of (ex_id x) w \<noteq> []" and h: "current_graph_hash E w x = Inr h"
  shows "verify_graph_entry E b entry = Inr []"
proof -
  have xin: "x \<in> set xs" using ex x by (auto simp: exports_graphs_def)
  note p = exports_graphs_parts [OF inv ex xin]
  obtain g where g: "exported_graph E w x = [g]" "computeExecutionGraphHash E (bg_graph g) = current_graph_hash E w x"
      "current_graph_hash E w x = Inr (bg_graph_hash g)"
    using exported_graph_only [OF inv x(1)] ev by auto
  have "compareGraphEvidence E (export_execution x) (map export_event (events_of (ex_id x) w)) g (Some entry) = Inr []"
    by (rule compare_exported [OF inv x(1) g(3,2)]) (use e(2) h g(3) in auto)
  moreover obtain v vs where "events_of (ex_id x) w = v # vs" using ev by (cases "events_of (ex_id x) w") auto
  ultimately show ?thesis
    using p g(1) by (simp add: verify_graph_entry_def x(2) [symmetric] push_if_def)
qed

lemma graph_export_verified:
  assumes inv: "audit_inv E w" and ex: "exports_graphs E org w xs b"
    and g: "g \<in> set (eb_execution_graphs b)"
  shows "verify_graph_export E b g = Inr []"
proof -
  obtain x where x: "x \<in> set xs" "g \<in> set (exported_graph E w x)"
    using g ex by (auto simp: exports_graphs_def)
  have xw: "x \<in> set (executions w)" using x(1) ex by (auto simp: exports_graphs_def)
  note p = exports_graphs_parts [OF inv ex x(1)]
  have g': "events_of (ex_id x) w \<noteq> []" "bg_execution_id g = ex_id x"
      "computeExecutionGraphHash E (bg_graph g) = current_graph_hash E w x"
      "current_graph_hash E w x = Inr (bg_graph_hash g)"
    using exported_graph_only [OF inv xw] x(2) by (auto split: if_splits)
  have "compareGraphEvidence E (export_execution x) (map export_event (events_of (ex_id x) w)) g None = Inr []"
    using compare_exported [OF inv xw g'(4,3), of None] by simp
  then show ?thesis using p g'(1,2) by (simp add: verify_graph_export_def)
qed

lemma list_all2_mem: "list_all2 P xs ys \<Longrightarrow> y \<in> set ys \<Longrightarrow> \<exists>x\<in>set xs. P x y"
  by (induction rule: list_all2_induct) auto

lemma graphs_verified:
  assumes inv: "audit_inv E w" and ex: "exports_graphs E org w xs b" and seals: "seals_current E org w"
    and bs: "list_all2 (\<lambda>e b. export_entry E cps e = Inr b) (entries_of org w) (eb_ledger_entries b)"
  shows "verifyExecutionGraphs E b = Inr []"
proof -
  have "verify_graph_entry E b entry = Inr []"
    if "entry \<in> set (filter graph_bearing (eb_ledger_entries b))" for entry
  proof -
    have entry: "entry \<in> set (eb_ledger_entries b)" "graph_bearing entry" using that by auto
    then obtain e where e: "e \<in> set (entries_of org w)" "export_entry E cps e = Inr entry"
      using list_all2_mem [OF bs] by blast
    note s = exported_entry_simps [OF e(2)]
    obtain h where h: "le_execution_graph_hash e = Some h" "le_entry_type e = FinalEntry \<or> le_entry_type e = FailureEntry"
      using entry(2) s by (auto simp: graph_bearing_def)
    from seals [unfolded seals_current_def, rule_format, OF e(1) conjI, OF h(2,1)] obtain x where
      x: "x \<in> set (executions w)" "ex_id x = le_execution_id e" "ex_organization_id x = org"
      "events_of (ex_id x) w \<noteq> []" "current_graph_hash E w x = Inr h" by (elim bexE conjE)
    show ?thesis
      by (rule graph_entry_verified [OF inv ex entry(2) _ x(1) _ x(3-5)]) (simp_all add: s x(2) h(1))
  qed
  then have "\<forall>x\<in>set (filter graph_bearing (eb_ledger_entries b)). verify_graph_entry E b x = Inr []" by simp
  from mapS_all_clean [OF this] obtain ys where
    ys: "mapS (verify_graph_entry E b) (filter graph_bearing (eb_ledger_entries b)) = Inr ys" "concat ys = []"
    by (elim exE conjE)
  let ?rest = "filter (\<lambda>g. bg_execution_id g \<notin>
      set (map be_execution_id (filter graph_bearing (eb_ledger_entries b)))) (eb_execution_graphs b)"
  have "verify_graph_export E b g = Inr []" if "g \<in> set ?rest" for g
    using graph_export_verified [OF inv ex] that by simp
  then have "\<forall>x\<in>set ?rest. verify_graph_export E b x = Inr []" by simp
  from mapS_all_clean [OF this] obtain zs where
    zs: "mapS (verify_graph_export E b) ?rest = Inr zs" "concat zs = []" by (elim exE conjE)
  show ?thesis unfolding verifyExecutionGraphs_def Let_def ys(1) zs(1) by (simp add: ys(2) zs(2))
qed

lemma mapS_exists: "(\<And>x. x \<in> set xs \<Longrightarrow> \<exists>y. f x = Inr y) \<Longrightarrow> \<exists>ys. mapS f xs = Inr ys"
  by (induction xs) fastforce+

lemma export_run:
  assumes C: "crypto_ok E" and inv: "audit_inv E w" and dis: "checkpoints_disjoint org w"
  shows "\<exists>b cps xs. exportOrganizationEvidence E org w = (Inr b, w\<lparr>draws := Suc (draws w)\<rparr>) \<and>
    set cps = {c \<in> set (merkle_checkpoints w). mc_organization_id c = org} \<and>
    eb_merkle_checkpoints b = map export_checkpoint cps \<and>
    list_all2 (\<lambda>e b. export_entry E cps e = Inr b) (entries_of org w) (eb_ledger_entries b) \<and>
    exports_graphs E org w xs b \<and> \<not> mf_includes_plaintext (eb_manifest b) \<and>
    mf_entry_count (eb_manifest b) = int (length (entries_of org w))"
proof -
  have l: "ledger_inv E w" using inv by (simp add: audit_inv_def)
  define cps where "cps = sort_key mc_through_sequence (filter (\<lambda>c. mc_organization_id c = org) (merkle_checkpoints w))"
  define xs where "xs = sort_key ex_started_at (filter (\<lambda>x. ex_organization_id x = org) (executions w))"
  have cps: "set cps = {c \<in> set (merkle_checkpoints w). mc_organization_id c = org}" by (auto simp: cps_def)
  have xs: "set xs = {x \<in> set (executions w). ex_organization_id x = org}" by (auto simp: xs_def)
  have "distinct (map ex_id (executions w))" using inv by (simp add: audit_inv_def executions_ok_def)
  then have "distinct (map ex_id xs)"
    unfolding xs_def by (simp add: distinct_map inj_on_def)
  have "\<exists>b. export_entry E cps e = Inr b" if "e \<in> set (entries_of org w)" for e
    using entry_proof [OF C l dis cps] that by (metis in_set_conv_nth)
  from mapS_exists [where f = "export_entry E cps", OF this] obtain bs where
    bs: "mapS (export_entry E cps) (entries_of org w) = Inr bs" by blast
  have loop: "mapE (export_execution_events E org) xs w =
      (Inr (map (\<lambda>x. (events_of (ex_id x) w, exported_graph E w x)) xs), w)"
    by (rule mapE_run) (use export_events_run [OF inv] xs in auto)
  have get: "getLedgerEntries org w = (Inr (entries_of org w), w)" by (rule getLedgerEntries_run [OF l])
  have "\<exists>b. exportOrganizationEvidence E org w = (Inr b, w\<lparr>draws := Suc (draws w)\<rparr>) \<and>
      eb_merkle_checkpoints b = map export_checkpoint cps \<and> eb_ledger_entries b = bs \<and>
      mf_organization_id (eb_manifest b) = org \<and> eb_executions b = map export_execution xs \<and>
      eb_execution_events b = map export_event (concat (map (\<lambda>x. events_of (ex_id x) w) xs)) \<and>
      eb_execution_graphs b = concat (map (exported_graph E w) xs) \<and>
      \<not> mf_includes_plaintext (eb_manifest b) \<and>
      mf_entry_count (eb_manifest b) = int (length (entries_of org w))"
    unfolding exportOrganizationEvidence_def bindE_run [of "getLedgerEntries org", OF get]
    by (simp add: getMerkleCheckpoints_def run loop bs canonicalTimestampNow_def run_drawE comp_def Let_def
        flip: cps_def xs_def)
  then show ?thesis
    using cps xs bs \<open>distinct (map ex_id xs)\<close>
    by (auto simp: exports_graphs_def mapS_Inr_iff intro!: exI [of _ cps] exI [of _ xs])
qed

lemma export_verified:
  assumes C: "crypto_ok E" and inv: "audit_inv E w" and dis: "checkpoints_disjoint org w"
    and seals: "seals_current E org w"
  shows "\<exists>b. exportOrganizationEvidence E org w = (Inr b, w\<lparr>draws := Suc (draws w)\<rparr>) \<and>
    verifyEvidenceBundle E b = Inr \<lparr>vr_valid = True, vr_issues = []\<rparr> \<and>
    mf_entry_count (eb_manifest b) = int (length (entries_of org w))"
proof -
  obtain b cps xs where x: "exportOrganizationEvidence E org w = (Inr b, w\<lparr>draws := Suc (draws w)\<rparr>)"
    and cps: "set cps = {c \<in> set (merkle_checkpoints w). mc_organization_id c = org}"
      "eb_merkle_checkpoints b = map export_checkpoint cps"
    and bs: "list_all2 (\<lambda>e b. export_entry E cps e = Inr b) (entries_of org w) (eb_ledger_entries b)"
    and gr: "exports_graphs E org w xs b" and plain: "\<not> mf_includes_plaintext (eb_manifest b)"
    and count: "mf_entry_count (eb_manifest b) = int (length (entries_of org w))"
    using export_run [OF C inv dis] by (elim exE conjE)
  have l: "ledger_inv E w" using inv by (simp add: audit_inv_def)
  then have chain: "chain_from E org 1 None (entries_of org w)" by (simp add: ledger_inv_def)
  have seqs: "map be_organization_sequence (eb_ledger_entries b) = map le_organization_sequence (entries_of org w)"
    using bs by (induction rule: list_all2_induct) (auto dest: exported_entry_simps(1))
  have "verified_from E None (eb_ledger_entries b)"
    by (rule chain_exported [OF chain bs]) simp_all
  then have "verified_from E None (sort_key be_organization_sequence (eb_ledger_entries b))"
    using chain_from_sorted [OF chain] by (simp add: sort_key_id seqs)
  then obtain r where r: "verifyOrganizationChain E (eb_ledger_entries b) = Inr r" "vr_valid r"
    unfolding verify_chain_clean [symmetric] by (elim exE conjE)
  then have r': "vr_issues r = []"
    by (auto simp: verifyOrganizationChain_def result_of_def split: if_splits)
  have "verify_checkpoint E (eb_ledger_entries b) k = Inr []" if "k \<in> set (eb_merkle_checkpoints b)" for k
    using checkpoint_verified [OF C l dis cps(1) bs] that cps(2) by auto
  then have "\<forall>x\<in>set (eb_merkle_checkpoints b). verify_checkpoint E (eb_ledger_entries b) x = Inr []" by simp
  from mapS_all_clean [OF this] obtain ks where
    "mapS (verify_checkpoint E (eb_ledger_entries b)) (eb_merkle_checkpoints b) = Inr ks" "concat ks = []"
    by (elim exE conjE)
  then have m: "verifyMerkleCheckpoints E b = Inr []" by (simp add: verifyMerkleCheckpoints_def)
  have org: "be_organization_id y = org" if y: "y \<in> set (eb_ledger_entries b)" for y
  proof -
    obtain e where "e \<in> set (entries_of org w)" "export_entry E cps e = Inr y"
      using list_all2_mem [OF bs y] by blast
    then show ?thesis using exported_entry_simps(4) [of E cps e y] by (simp add: entries_of_def)
  qed
  then have no: "concat (map (\<lambda>entry. push_if (be_organization_id entry \<noteq> org)
      (issue ''ORG_MISMATCH'' (Some (be_organization_sequence entry)) None)) (eb_ledger_entries b)) = []"
    by simp
  have o: "mf_organization_id (eb_manifest b) = org" using gr by (simp add: exports_graphs_def)
  have "verifyEvidenceBundle E b = Inr \<lparr>vr_valid = True, vr_issues = []\<rparr>"
    unfolding verifyEvidenceBundle_def Let_def o r(1) m graphs_verified [OF inv gr seals bs] bindS_simps no
    using plain by (simp add: result_of_def push_if_def r')
  with x count show ?thesis by (intro exI conjI)
qed

subsection \<open>Properties of the verifier\<close>

text \<open>C8: The chain check decides the reference definition.  \<open>verifyOrganizationChain\<close> returns a valid
  result exactly when the entries, sorted by sequence number, count 1, 2, 3, ..., each names the hash of
  the one before, carries the hash of its own fields, format 2 and the hashed timestamp; in every other
  case it reports issues or throws.\<close>

theorem verifyOrganizationChain_decides:
  "(\<exists>r. verifyOrganizationChain C entries = Inr r \<and> vr_valid r) \<longleftrightarrow>
     verified_from C None (sort_key be_organization_sequence entries)"
  by (rule verify_chain_clean)

text \<open>C9: The hash of the last entry commits to the whole ledger.  If two exports pass the chain check and
  their last entries carry the same hash, they have the same number of entries and agree, entry by
  entry, on every hashed field and every hash; or two of their entries are an explicit SHA-256
  collision.\<close>

theorem chain_head_commits:
  assumes "crypto_ok C"
    and "verifyOrganizationChain C entries = Inr r" and "vr_valid r"
    and "verifyOrganizationChain C others = Inr s" and "vr_valid s"
    and "entries \<noteq> []" and "others \<noteq> []"
    and "be_entry_hash (last (sort_key be_organization_sequence entries)) =
         be_entry_hash (last (sort_key be_organization_sequence others))"
  shows "list_all2 (\<lambda>e f. same_hashed_fields (bundle_fields e) (bundle_fields f) \<and>
      be_entry_hash e = be_entry_hash f)
      (sort_key be_organization_sequence entries) (sort_key be_organization_sequence others) \<or>
    (\<exists>e\<in>set entries. \<exists>f\<in>set others. collision C (payload_bytes (bundle_fields e)) (payload_bytes (bundle_fields f)))"
proof -
  have "verified_from C None (sort_key be_organization_sequence entries)"
    "verified_from C None (sort_key be_organization_sequence others)"
    using assms(2-5) verify_chain_clean by blast+
  moreover have "sort_key be_organization_sequence entries \<noteq> []" "sort_key be_organization_sequence others \<noteq> []"
    using assms(6,7) by (metis set_empty set_sort)+
  ultimately show ?thesis using head_commits [OF assms(1) _ _ _ _ assms(8)] by simp
qed

text \<open>C12: A verified bundle ties every sealed entry to the exported events.  For every final or failure
  entry that carries a graph hash, the bundle holds the execution, of the manifest's organization, and
  the graph rebuilt from the exported events of the execution has exactly the hash in the entry.\<close>

theorem verified_bundle_commits_events:
  assumes "verifyEvidenceBundle C bundle = Inr r" and "vr_valid r"
    and "entry \<in> set (eb_ledger_entries bundle)"
    and "be_entry_type entry = FinalEntry \<or> be_entry_type entry = FailureEntry"
    and "be_execution_graph_hash entry = Some h" and "h \<noteq> ''''"
  shows "\<exists>x\<in>set (eb_executions bundle). bx_id x = be_execution_id entry \<and>
    bx_organization_id x = mf_organization_id (eb_manifest bundle) \<and>
    (\<exists>g. buildExecutionGraphV2 (graph_execution_of_bundle x) (map row_of_event
        (filter (\<lambda>e. bv_execution_id e = be_execution_id entry) (eb_execution_events bundle))) = Inr g \<and>
      computeExecutionGraphHash C (graph_json g) = Inr h)"
proof -
  have "verifyExecutionGraphs C bundle = Inr []" using bundle_clean(4) [OF assms(1,2)] .
  then obtain yss where "mapS (verify_graph_entry C bundle) (filter graph_bearing (eb_ledger_entries bundle)) = Inr yss"
      "concat yss = []"
    by (auto simp: verifyExecutionGraphs_def Let_def)
  then have "verify_graph_entry C bundle entry = Inr []"
    using mapS_concat_clean [of "verify_graph_entry C bundle"] assms(3-5) by (auto simp: graph_bearing_def)
  from graph_entry_clean [OF this assms(5,6)] obtain x g where
    x: "map_get bx_id (eb_executions bundle) (be_execution_id entry) = Some x"
      "bx_organization_id x = mf_organization_id (eb_manifest bundle)"
      "buildExecutionGraphV2 (graph_execution_of_bundle x) (map row_of_event
        (filter (\<lambda>e. bv_execution_id e = be_execution_id entry) (eb_execution_events bundle))) = Inr g"
      "computeExecutionGraphHash C (graph_json g) = Inr h"
    by (elim exE conjE)
  show ?thesis
    using map_get_SomeD [OF x(1)] x(2-4) by (intro bexI [of _ x] conjI exI [of _ g]) simp_all
qed

text \<open>C13: What the kernel keeps, the verifier accepts.  For a database that satisfies the kernel's
  invariant, whose seals still match the stored events and whose checkpoints do not overlap, the export
  of an organization succeeds, changes no table, counts its entries, and verifies without any issue.\<close>

theorem export_of_sound_database_verifies:
  assumes "crypto_ok E" and "audit_inv E w" and "checkpoints_disjoint org w" and "seals_current E org w"
  shows "\<exists>b. exportOrganizationEvidence E org w = (Inr b, w\<lparr>draws := Suc (draws w)\<rparr>) \<and>
    verifyEvidenceBundle E b = Inr \<lparr>vr_valid = True, vr_issues = []\<rparr> \<and>
    mf_entry_count (eb_manifest b) = int (length (entries_of org w))"
  by (rule export_verified [OF assms])

subsection \<open>Concrete evidence\<close>

lemma sample_sealed_database:
  obtains r w' where "sealed_by sample_clock_env sample_seal sample_world r w'"
    "audit_inv sample_clock_env w'" "checkpoints_disjoint ''org'' w'" "seals_current sample_clock_env ''org'' w'"
    "entries_of ''org'' w' = [sr_entry r]"
proof -
  obtain r w' where run: "sealExecution sample_clock_env restore_audit sample_seal None sample_world = (Inr r, w')"
    and cps: "length (merkle_checkpoints w') \<le> 1"
    using sample_seal_succeeds by blast
  have final: "se_entryType sample_seal = FinalEntry \<or> se_entryType sample_seal = FailureEntry"
    by (simp add: sample_seal_def)
  note s = seal_Inr [OF sealExecution_Inr [OF run] sample_world_audit_inv final]
  have dis: "checkpoints_disjoint ''org'' w'"
    using cps by (cases "merkle_checkpoints w'") (auto simp: checkpoints_disjoint_def)
  have entries: "entries_of ''org'' w' = [sr_entry r]"
    using s(1) by (simp add: sealed_by_def sample_seal_def entries_of_def sample_world_def empty_audit_def)
  obtain x where x: "x \<in> set (executions w')" "ex_id x = ''e1''" "ex_organization_id x = ''org''"
      "buildExecutionGraphV2 (graph_execution_of x (ex_status x)) (events_of (ex_id x) w') = Inr (sr_graph r)"
      "computeExecutionGraphHash sample_clock_env (graph_json (sr_graph r)) = Inr (sr_graphHash r)"
      "le_execution_graph_hash (sr_entry r) = Some (sr_graphHash r)"
      "events_of ''e1'' w' \<noteq> []"
    using s(1) by (auto simp: sealed_by_def sample_seal_def)
  have "le_execution_id (sr_entry r) = ''e1''" using s(1) by (simp add: sealed_by_def sample_seal_def)
  then have "seals_current sample_clock_env ''org'' w'"
    using x entries by (auto simp: seals_current_def current_graph_hash_def intro!: bexI [of _ x])
  with that [OF s(1,2) dis] entries show ?thesis by blast
qed

theorem export_of_sound_database_verifies_witness:
  "\<exists>w (b :: evidence_bundle). fst (exportOrganizationEvidence sample_clock_env ''org'' (w :: audit_world)) = Inr b \<and>
     verifyEvidenceBundle sample_clock_env b = Inr \<lparr>vr_valid = True, vr_issues = []\<rparr> \<and>
     mf_entry_count (eb_manifest b) = 1"
proof -
  obtain r :: seal_result and w :: audit_world where s: "audit_inv sample_clock_env w" "checkpoints_disjoint ''org'' w"
      "seals_current sample_clock_env ''org'' w" "entries_of ''org'' w = [sr_entry r]"
    by (rule sample_sealed_database)
  from export_of_sound_database_verifies [OF sample_clock_ok(1) s(1-3)] s(4) show ?thesis
    by (elim exE conjE) (intro exI [of _ w] exI conjI, simp_all)
qed

lemma sample_verified_bundle:
  obtains b r entry h where "verifyEvidenceBundle sample_clock_env b = Inr r" "vr_valid r"
    "eb_ledger_entries b = [entry]" "be_entry_type entry = FinalEntry"
    "be_execution_graph_hash entry = Some h" "h \<noteq> ''''"
proof -
  obtain r w where s: "sealed_by sample_clock_env sample_seal sample_world r w" "audit_inv sample_clock_env w"
      "checkpoints_disjoint ''org'' w" "seals_current sample_clock_env ''org'' w"
      "entries_of ''org'' w = [sr_entry r]"
    by (rule sample_sealed_database)
  obtain b cps where b: "exportOrganizationEvidence sample_clock_env ''org'' w = (Inr b, w\<lparr>draws := Suc (draws w)\<rparr>)"
    "list_all2 (\<lambda>e b. export_entry sample_clock_env cps e = Inr b) (entries_of ''org'' w) (eb_ledger_entries b)"
    using export_run [OF sample_clock_ok(1) s(2,3)] by (elim exE conjE)
  obtain entry where entry: "eb_ledger_entries b = [entry]" "export_entry sample_clock_env cps (sr_entry r) = Inr entry"
    using b(2) s(5) by (auto simp: list_all2_Cons1)
  have "verifyEvidenceBundle sample_clock_env b = Inr \<lparr>vr_valid = True, vr_issues = []\<rparr>"
    using export_verified [OF sample_clock_ok(1) s(2-4)] b(1) by auto
  moreover have "computeExecutionGraphHash sample_clock_env (graph_json (sr_graph r)) = Inr (sr_graphHash r)"
    using s(1) by (simp add: sealed_by_def)
  then have "isSha256Hex (sr_graphHash r)"
    by (clarsimp simp: computeExecutionGraphHash_def) (metis sha256Hex_ok [OF sample_clock_ok(1)])
  then have "sr_graphHash r \<noteq> ''''" by (auto simp: isSha256Hex_def)
  ultimately show ?thesis
    using that [of b "\<lparr>vr_valid = True, vr_issues = []\<rparr>" entry "sr_graphHash r"] entry(1)
      exported_entry_simps [OF entry(2)] s(1) by (simp add: sealed_by_def sample_seal_def)
qed

theorem verified_bundle_commits_events_witness:
  "\<exists>b x g h. x \<in> set (eb_executions (b :: evidence_bundle)) \<and>
     buildExecutionGraphV2 (graph_execution_of_bundle x) (map row_of_event
       (filter (\<lambda>e. bv_execution_id e = bx_id x) (eb_execution_events b))) = Inr g \<and>
     computeExecutionGraphHash sample_clock_env (graph_json g) = Inr h"
proof -
  obtain b r entry h where s: "verifyEvidenceBundle sample_clock_env b = Inr r" "vr_valid r"
    "eb_ledger_entries b = [entry]" "be_entry_type entry = FinalEntry"
    "be_execution_graph_hash entry = Some h" "h \<noteq> ''''"
    by (rule sample_verified_bundle)
  have "entry \<in> set (eb_ledger_entries b)" using s(3) by simp
  from verified_bundle_commits_events [OF s(1,2) this disjI1 [OF s(4)] s(5,6)] show ?thesis by metis
qed

theorem chain_head_commits_witness:
  "\<exists>es. es \<noteq> [] \<and> (list_all2 (\<lambda>e f. same_hashed_fields (bundle_fields e) (bundle_fields f) \<and>
      be_entry_hash e = be_entry_hash f)
      (sort_key be_organization_sequence es) (sort_key be_organization_sequence es) \<or>
    (\<exists>e\<in>set es. \<exists>f\<in>set es. collision sample_clock_env (payload_bytes (bundle_fields e)) (payload_bytes (bundle_fields f))))"
proof -
  obtain b r entry where s: "verifyEvidenceBundle sample_clock_env b = Inr r" "vr_valid r"
    "eb_ledger_entries b = [entry]"
    by (rule sample_verified_bundle)
  obtain c where c: "verifyOrganizationChain sample_clock_env (eb_ledger_entries b) = Inr c" "vr_valid c"
    using bundle_clean(2) [OF s(1,2)] verify_chain_clean by blast
  have ne: "eb_ledger_entries b \<noteq> []" using s(3) by simp
  from chain_head_commits [OF sample_clock_ok(1) c c ne ne refl] ne show ?thesis by blast
qed

end
