(* ===== verification/JsText.thy ===== *)
theory JsText
  imports Hashing
begin

text \<open>
  The string functions of JavaScript's standard library the services use, on strings of code units
  below 256, and the encodings of Node's \<open>Buffer\<close>.
\<close>

text \<open>\<open>String.prototype.toLowerCase\<close>: ASCII and Latin-1 letters.\<close>

definition lower_char :: "char \<Rightarrow> char" where
  "lower_char c =
     (let n = of_char c :: nat in
      if (65 \<le> n \<and> n \<le> 90) \<or> (192 \<le> n \<and> n \<le> 222 \<and> n \<noteq> 215) then char_of (n + 32) else c)"

definition toLowerCase :: "string \<Rightarrow> string" where
  "toLowerCase s = map lower_char s"

definition trim_start :: "string \<Rightarrow> string" where
  "trim_start s = dropWhile is_js_space s"

definition trim_end :: "string \<Rightarrow> string" where
  "trim_end s = rev (dropWhile is_js_space (rev s))"

definition trim :: "string \<Rightarrow> string" where
  "trim s = trim_end (trim_start s)"

text \<open>\<open>s.slice(a, b)\<close> for \<open>0 \<le> a \<le> b\<close>.\<close>

definition slice_text :: "nat \<Rightarrow> nat \<Rightarrow> string \<Rightarrow> string" where
  "slice_text a b s = take (b - a) (drop a s)"

text \<open>\<open>s.split(c)\<close> on a single character.\<close>

fun split_on :: "char \<Rightarrow> string \<Rightarrow> string list" where
  "split_on d [] = [[]]"
| "split_on d (c # cs) =
     (if c = d then [] # split_on d cs
      else case split_on d cs of [] \<Rightarrow> [[c]] | part # parts \<Rightarrow> (c # part) # parts)"

text \<open>\<open>s.startsWith(p)\<close>, \<open>s.endsWith(p)\<close>, \<open>s.includes(p)\<close>.\<close>

definition starts_with :: "string \<Rightarrow> string \<Rightarrow> bool" where
  "starts_with s p \<longleftrightarrow> take (length p) s = p"

definition ends_with :: "string \<Rightarrow> string \<Rightarrow> bool" where
  "ends_with s p \<longleftrightarrow> length p \<le> length s \<and> drop (length s - length p) s = p"

fun includes_text :: "string \<Rightarrow> string \<Rightarrow> bool" where
  "includes_text [] p \<longleftrightarrow> p = []"
| "includes_text (c # cs) p \<longleftrightarrow> starts_with (c # cs) p \<or> includes_text cs p"

text \<open>\<open>Number(s)\<close> where the code reads a decimal integer; anything else is \<open>None\<close>.\<close>

definition number_of_text :: "string \<Rightarrow> int option" where
  "number_of_text s =
     (let t = trim s in
      if t = [] then Some 0 else if list_all is_digit t then Some (int (digits_val t)) else None)"

text \<open>\<open>Buffer.from(s, "hex")\<close>: the pairs up to the first that is not two hex digits.\<close>

definition is_any_hex :: "char \<Rightarrow> bool" where
  "is_any_hex c \<longleftrightarrow> is_hex_char (lower_char c)"

fun buffer_from_hex :: "string \<Rightarrow> byte list" where
  "buffer_from_hex (a # b # s) =
     (if is_any_hex a \<and> is_any_hex b
      then of_nat (16 * hex_val (lower_char a) + hex_val (lower_char b)) # buffer_from_hex s else [])"
| "buffer_from_hex s = []"

text \<open>\<open>Buffer.toString("base64url")\<close>: no padding.\<close>

definition base64url_char :: "nat \<Rightarrow> char" where
  "base64url_char n =
     (if n < 26 then char_of (65 + n) else if n < 52 then char_of (97 + (n - 26))
      else if n < 62 then char_of (48 + (n - 52)) else if n = 62 then CHR ''-'' else CHR ''_'')"

fun base64url :: "byte list \<Rightarrow> string" where
  "base64url [] = []"
| "base64url [a] = (let n = unat a * 16 in map base64url_char [n div 64, n mod 64])"
| "base64url [a, b] =
     (let n = (unat a * 256 + unat b) * 4 in map base64url_char [n div 4096, n div 64 mod 64, n mod 64])"
| "base64url (a # b # c # bs) =
     (let n = (unat a * 256 + unat b) * 256 + unat c in
      map base64url_char [n div 262144, n div 4096 mod 64, n div 64 mod 64, n mod 64] @ base64url bs)"

lemma lower_char_idem: "lower_char (lower_char c) = lower_char c"
proof -
  have "(of_char c :: nat) < 256" by (rule char_less_256)
  then show ?thesis by (auto simp: lower_char_def Let_def)
qed

lemma toLowerCase_idem [simp]: "toLowerCase (toLowerCase s) = toLowerCase s"
  by (simp add: toLowerCase_def lower_char_idem)

lemma is_space_lower: "is_js_space (lower_char c) \<longleftrightarrow> is_js_space c"
proof -
  have "(of_char c :: nat) < 256" by (rule char_less_256)
  then show ?thesis by (auto simp: lower_char_def is_js_space_def Let_def)
qed

lemma toLowerCase_dropWhile: "toLowerCase (dropWhile is_js_space s) = dropWhile is_js_space (toLowerCase s)"
  by (induction s) (auto simp: toLowerCase_def is_space_lower)

lemma toLowerCase_trim: "toLowerCase (trim s) = trim (toLowerCase s)"
  by (simp add: trim_def trim_start_def trim_end_def toLowerCase_dropWhile)
    (simp add: toLowerCase_def rev_map flip: toLowerCase_dropWhile [unfolded toLowerCase_def])

lemma toLowerCase_trim_lower [simp]: "toLowerCase (trim (toLowerCase s)) = trim (toLowerCase s)"
  by (simp add: toLowerCase_trim)

lemma split_on_nonempty: "split_on d s \<noteq> []"
  by (cases s) (auto split: list.splits)

lemma split_on_append:
  "d \<notin> set s \<Longrightarrow> split_on d (s @ d # t) = s # split_on d t"
  by (induction s) auto

lemma split_on_last: "d \<notin> set s \<Longrightarrow> split_on d s = [s]"
  by (induction s) auto

lemma hex_char_lower: "is_hex_char c \<Longrightarrow> lower_char c = c"
  by (auto simp: is_hex_char_def is_digit_def lower_char_def Let_def)

lemma buffer_from_lower_hex: "buffer_from_hex (lower_hex bs) = bs"
proof (induction bs)
  case (Cons b bs)
  have lt: "unat b div 16 < 16" "unat b mod 16 < 16"
    using unat_byte_less [of b] by (simp_all add: less_mult_imp_div_less)
  have "of_nat (16 * (unat b div 16) + unat b mod 16) = b"
    by (simp only: mult_div_mod_eq) simp
  with Cons lt show ?case
    by (simp add: lower_hex_def hex_byte_def is_any_hex_def hex_char_lower is_hex_hex_digit)
qed (simp add: lower_hex_def)

end
