(* ===== verification/AuthStore.thy ===== *)
theory AuthStore
  imports AuditStore JsText
begin

text \<open>
  The tables of the schema \<open>auth\<close> with the constraints of \<open>db/migrations\<close> (the composite tenant keys
  of the second identity migration included), as inserts that throw \<open>SqlError\<close>.  Columns no code reads
  (\<open>created_at\<close> except on memberships) are left out.
\<close>

record organization_row =
  or_id :: id
  or_name :: string
  or_slug :: string

record user_row =
  us_id :: id
  us_email :: string
  us_password_hash :: string
  us_display_name :: string
  us_disabled_at :: "int option"

record role_row =
  ro_id :: id
  ro_organization_id :: id
  ro_name :: string

record role_permission_row =
  rp_role_id :: id
  rp_permission_key :: string

record membership_row =
  mb_id :: id
  mb_organization_id :: id
  mb_user_id :: id
  mb_role_id :: id
  mb_created_at :: int

record session_row =
  sn_id :: id
  sn_user_id :: id
  sn_organization_id :: id
  sn_token_hash :: string
  sn_expires_at :: int
  sn_ip :: "string option"
  sn_user_agent :: "string option"

record credential_row =
  sc_id :: id
  sc_name :: string
  sc_organization_id :: "id option"
  sc_secret_hash :: string
  sc_scopes :: "string list"
  sc_revoked_at :: "int option"

record auth_world = audit_world +
  organizations :: "organization_row list"
  users :: "user_row list"
  roles :: "role_row list"
  role_permissions :: "role_permission_row list"
  memberships :: "membership_row list"
  sessions :: "session_row list"
  service_credentials :: "credential_row list"

definition empty_auth :: auth_world where
  "empty_auth = audit_world.extend empty_audit
     \<lparr>organizations = [], users = [], roles = [], role_permissions = [], memberships = [],
      sessions = [], service_credentials = []\<rparr>"

definition restore_auth :: "'w auth_world_scheme \<Rightarrow> 'w auth_world_scheme \<Rightarrow> 'w auth_world_scheme" where
  "restore_auth old new = (restore_audit old new)
     \<lparr>organizations := organizations old, users := users old, roles := roles old,
      role_permissions := role_permissions old, memberships := memberships old,
      sessions := sessions old, service_credentials := service_credentials old\<rparr>"

text \<open>The rows of \<open>auth.permissions\<close> after the migrations.\<close>

definition permission_keys :: "string list" where
  "permission_keys =
     [''organization.manage'', ''users.manage'', ''roles.manage'', ''nova.use'', ''knowledge.read'',
      ''knowledge.manage'', ''knowledge.approve'', ''models.read'', ''models.manage'',
      ''policies.read'', ''policies.manage'', ''approvals.read'', ''approvals.decide'',
      ''audit.read'', ''audit.export'', ''connectors.manage'', ''social.draft'']"

subsection \<open>Inserts with their constraints\<close>

definition insert_organization :: "organization_row \<Rightarrow> (err, 'w auth_world_scheme, unit) op" where
  "insert_organization row =
     bindE (getsE organizations) (\<lambda>rows.
     bindE (requireE (\<forall>r\<in>set rows. or_id r \<noteq> or_id row \<and> or_slug r \<noteq> or_slug row) unique_violation) (\<lambda>_.
     modifyE (\<lambda>w. w\<lparr>organizations := organizations w @ [row]\<rparr>)))"

definition insert_user :: "user_row \<Rightarrow> (err, 'w auth_world_scheme, unit) op" where
  "insert_user row =
     bindE (requireE (us_email row = toLowerCase (us_email row)) check_violation) (\<lambda>_.
     bindE (getsE users) (\<lambda>rows.
     bindE (requireE (\<forall>r\<in>set rows. us_id r \<noteq> us_id row \<and> us_email r \<noteq> us_email row) unique_violation) (\<lambda>_.
     modifyE (\<lambda>w. w\<lparr>users := users w @ [row]\<rparr>))))"

definition insert_role :: "role_row \<Rightarrow> (err, 'w auth_world_scheme, unit) op" where
  "insert_role row =
     bindE (getsE roles) (\<lambda>rows.
     bindE (requireE (\<forall>r\<in>set rows. ro_id r \<noteq> ro_id row \<and>
         \<not> (ro_organization_id r = ro_organization_id row \<and> ro_name r = ro_name row)) unique_violation) (\<lambda>_.
     bindE (getsE organizations) (\<lambda>orgs.
     bindE (requireE (\<exists>x\<in>set orgs. or_id x = ro_organization_id row) foreign_key_violation) (\<lambda>_.
     modifyE (\<lambda>w. w\<lparr>roles := roles w @ [row]\<rparr>)))))"

definition insert_role_permission :: "role_permission_row \<Rightarrow> (err, 'w auth_world_scheme, unit) op" where
  "insert_role_permission row =
     bindE (getsE role_permissions) (\<lambda>rows.
     bindE (requireE (\<forall>r\<in>set rows. \<not> (rp_role_id r = rp_role_id row \<and>
         rp_permission_key r = rp_permission_key row)) unique_violation) (\<lambda>_.
     bindE (getsE roles) (\<lambda>rs.
     bindE (requireE ((\<exists>x\<in>set rs. ro_id x = rp_role_id row) \<and>
         rp_permission_key row \<in> set permission_keys) foreign_key_violation) (\<lambda>_.
     modifyE (\<lambda>w. w\<lparr>role_permissions := role_permissions w @ [row]\<rparr>)))))"

definition insert_membership :: "membership_row \<Rightarrow> (err, 'w auth_world_scheme, unit) op" where
  "insert_membership row =
     bindE (getsE memberships) (\<lambda>rows.
     bindE (requireE (\<forall>r\<in>set rows. mb_id r \<noteq> mb_id row \<and>
         \<not> (mb_organization_id r = mb_organization_id row \<and> mb_user_id r = mb_user_id row)) unique_violation) (\<lambda>_.
     bindE (getsE (\<lambda>w. (\<exists>g\<in>set (organizations w). or_id g = mb_organization_id row) \<and>
         (\<exists>u\<in>set (users w). us_id u = mb_user_id row) \<and>
         (\<exists>r\<in>set (roles w). ro_id r = mb_role_id row \<and> ro_organization_id r = mb_organization_id row))) (\<lambda>ok.
     bindE (requireE ok foreign_key_violation) (\<lambda>_.
     modifyE (\<lambda>w. w\<lparr>memberships := memberships w @ [row]\<rparr>)))))"

definition insert_session :: "session_row \<Rightarrow> (err, 'w auth_world_scheme, unit) op" where
  "insert_session row =
     bindE (getsE sessions) (\<lambda>rows.
     bindE (requireE (\<forall>r\<in>set rows. sn_id r \<noteq> sn_id row \<and> sn_token_hash r \<noteq> sn_token_hash row) unique_violation) (\<lambda>_.
     bindE (getsE (\<lambda>w. \<exists>m\<in>set (memberships w). mb_organization_id m = sn_organization_id row \<and>
         mb_user_id m = sn_user_id row)) (\<lambda>ok.
     bindE (requireE ok foreign_key_violation) (\<lambda>_.
     modifyE (\<lambda>w. w\<lparr>sessions := sessions w @ [row]\<rparr>)))))"

definition insert_credential :: "credential_row \<Rightarrow> (err, 'w auth_world_scheme, unit) op" where
  "insert_credential row =
     bindE (getsE service_credentials) (\<lambda>rows.
     bindE (requireE (\<forall>r\<in>set rows. sc_id r \<noteq> sc_id row \<and> sc_secret_hash r \<noteq> sc_secret_hash row) unique_violation) (\<lambda>_.
     bindE (getsE (\<lambda>w. case sc_organization_id row of None \<Rightarrow> True
         | Some i \<Rightarrow> \<exists>x\<in>set (organizations w). or_id x = i)) (\<lambda>ok.
     bindE (requireE ok foreign_key_violation) (\<lambda>_.
     modifyE (\<lambda>w. w\<lparr>service_credentials := service_credentials w @ [row]\<rparr>)))))"

subsection \<open>The invariant of the tables\<close>

text \<open>
  Keys are unique, memberships point to a role of their own organization, sessions to a membership, and
  no credential that belongs to an organization carries the platform scope.
\<close>

definition PLATFORM_CROSS_ORG_SCOPE :: string where
  "PLATFORM_CROSS_ORG_SCOPE = ''platform.cross_org''"

definition auth_inv :: "'w auth_world_scheme \<Rightarrow> bool" where
  "auth_inv w \<longleftrightarrow>
     distinct (map us_id (users w)) \<and> distinct (map us_email (users w)) \<and>
     distinct (map ro_id (roles w)) \<and>
     distinct (map (\<lambda>m. (mb_organization_id m, mb_user_id m)) (memberships w)) \<and>
     distinct (map sn_id (sessions w)) \<and> distinct (map sn_token_hash (sessions w)) \<and>
     (\<forall>m\<in>set (memberships w). (\<exists>u\<in>set (users w). us_id u = mb_user_id m) \<and>
        (\<exists>r\<in>set (roles w). ro_id r = mb_role_id m \<and> ro_organization_id r = mb_organization_id m)) \<and>
     (\<forall>s\<in>set (sessions w). \<exists>m\<in>set (memberships w). mb_organization_id m = sn_organization_id s \<and>
        mb_user_id m = sn_user_id s) \<and>
     (\<forall>c\<in>set (service_credentials w). sc_organization_id c = None \<or>
        PLATFORM_CROSS_ORG_SCOPE \<notin> set (sc_scopes c))"

definition same_auth :: "'w auth_world_scheme \<Rightarrow> 'w auth_world_scheme \<Rightarrow> bool" where
  "same_auth w w' \<longleftrightarrow> organizations w' = organizations w \<and> users w' = users w \<and> roles w' = roles w \<and>
     role_permissions w' = role_permissions w \<and> memberships w' = memberships w \<and>
     sessions w' = sessions w \<and> service_credentials w' = service_credentials w"

lemma auth_inv_same: "same_auth w w' \<Longrightarrow> auth_inv w' \<longleftrightarrow> auth_inv w"
  by (simp add: same_auth_def auth_inv_def)

lemma restore_auth_same [simp]: "same_auth w (restore_auth w u)"
  by (simp add: same_auth_def restore_auth_def)

lemma auth_inv_empty: "auth_inv empty_auth"
  by (simp add: auth_inv_def empty_auth_def audit_world.defs)

lemma auth_inv_draws [simp]: "auth_inv (w\<lparr>draws := n\<rparr>) = auth_inv w"
  by (simp add: auth_inv_def)

lemma pres_draw_auth [pres]: "preserves auth_inv (drawE f)"
  by (simp add: preserves_def drawE_def)

lemma pres_inserts [pres]:
  "preserves auth_inv (insert_organization o')"
  "preserves auth_inv (insert_user u)"
  "preserves auth_inv (insert_role r)"
  "preserves auth_inv (insert_role_permission p)"
  "preserves auth_inv (insert_membership m)"
  "preserves auth_inv (insert_session s)"
  by (auto simp: preserves_def insert_organization_def insert_user_def insert_role_def
      insert_role_permission_def insert_membership_def insert_session_def run auth_inv_def)

lemma pres_insert_credential [pres]:
  "sc_organization_id c = None \<or> PLATFORM_CROSS_ORG_SCOPE \<notin> set (sc_scopes c) \<Longrightarrow>
   preserves auth_inv (insert_credential c)"
  by (auto simp: preserves_def insert_credential_def run auth_inv_def)

end
