(* ===== verification/Identity.thy ===== *)
theory Identity
  imports AuthStore Seal
begin

text \<open>
  \<open>packages/identity/src\<close>: organizations, users, roles, sessions and service credentials.  \<open>scrypt\<close> of
  \<open>node:crypto\<close> is a field of the environment; \<open>scrypt_ok\<close> states what its documentation promises for
  the parameters the code uses.  SQL \<open>now()\<close> reads the clock.  Tables are in insertion order.
\<close>

text \<open>\<open>scrypt password salt keylen N r p\<close>; a parameter that is not a number is \<open>None\<close>.\<close>

record auth_env = env +
  scrypt :: "string \<Rightarrow> byte list \<Rightarrow> nat \<Rightarrow> int option \<Rightarrow> int option \<Rightarrow> int option \<Rightarrow> err + byte list"

definition scrypt_ok :: "'a auth_env_scheme \<Rightarrow> bool" where
  "scrypt_ok E \<longleftrightarrow>
     (\<forall>p s. \<exists>k. scrypt E p s 32 (Some 16384) (Some 8) (Some 1) = Inr k \<and> length k = 32)"

subsection \<open>Passwords (\<open>passwords.ts\<close>)\<close>

definition password_string :: "byte list \<Rightarrow> byte list \<Rightarrow> string" where
  "password_string salt key = ''scrypt$16384$8$1$'' @ lower_hex salt @ ''$'' @ lower_hex key"

definition hashPassword :: "'a auth_env_scheme \<Rightarrow> string \<Rightarrow> (err, 'w world_scheme, string) op" where
  "hashPassword E password =
     bindE (requireE (length password \<ge> 10) (PlainError ''password must be at least 10 characters'')) (\<lambda>_.
     bindE (drawE (\<lambda>n. randomBytes E n 16)) (\<lambda>salt.
     bindE (liftE (scrypt E password salt 32 (Some 16384) (Some 8) (Some 1))) (\<lambda>key.
     ret (password_string salt key))))"

definition verifyPassword :: "'a auth_env_scheme \<Rightarrow> string \<Rightarrow> string \<Rightarrow> err + bool" where
  "verifyPassword E password stored =
     (let parts = split_on (CHR ''$'') stored in
      if length parts \<noteq> 6 \<or> parts ! 0 \<noteq> ''scrypt'' then Inr False
      else
        let salt = buffer_from_hex (parts ! 4); expected = buffer_from_hex (parts ! 5) in
        bindS (scrypt E password salt (length expected) (number_of_text (parts ! 1))
          (number_of_text (parts ! 2)) (number_of_text (parts ! 3))) (\<lambda>actual.
        Inr (if length actual \<noteq> length expected then False else actual = expected)))"

definition hashSecret :: "'a auth_env_scheme \<Rightarrow> string \<Rightarrow> (err, 'w world_scheme, string) op" where
  "hashSecret E secret = hashPassword E (if length secret \<ge> 10 then secret else secret @ ''________'')"

subsection \<open>Contexts and constants\<close>

definition SESSION_TTL_MS :: int where "SESSION_TTL_MS = 12 * 60 * 60 * 1000"

definition SESSION_COOKIE :: string where "SESSION_COOKIE = ''verity_session''"

definition EXECUTIONS_WRITE_SCOPE :: string where "EXECUTIONS_WRITE_SCOPE = ''executions.write''"

record auth_context =
  ac_userId :: id
  ac_organizationId :: id
  ac_roleId :: id
  ac_roleName :: string
  ac_permissions :: "string list"
  ac_sessionId :: id

record service_context =
  vc_credentialId :: id
  vc_organizationId :: "id option"
  vc_scopes :: "string list"

datatype request_context = SessionContext auth_context | CredentialContext service_context

definition unauthenticated :: err where
  "unauthenticated = AuthError ''UNAUTHENTICATED'' 401"

text \<open>The replacements of \<open>slugify\<close>: runs of other characters become one \<open>-\<close>, then one \<open>-\<close> goes at each end.\<close>

definition is_slug_char :: "char \<Rightarrow> bool" where
  "is_slug_char c \<longleftrightarrow> is_digit c \<or> (97 \<le> (of_char c :: nat) \<and> (of_char c :: nat) \<le> 122)"

fun dash_runs :: "bool \<Rightarrow> string \<Rightarrow> string" where
  "dash_runs in_run [] = []"
| "dash_runs in_run (c # cs) =
     (if is_slug_char c then c # dash_runs False cs
      else if in_run then dash_runs True cs else CHR ''-'' # dash_runs True cs)"

definition strip_dashes :: "string \<Rightarrow> string" where
  "strip_dashes s =
     (let t = (if s \<noteq> [] \<and> hd s = CHR ''-'' then tl s else s) in
      if t \<noteq> [] \<and> last t = CHR ''-'' then butlast t else t)"

definition slugify :: "'a env_scheme \<Rightarrow> string \<Rightarrow> (err, 'w world_scheme, string) op" where
  "slugify E name =
     (let base = take 40 (strip_dashes (dash_runs False (toLowerCase name))) in
      bindE (drawE (\<lambda>n. randomBytes E n 3)) (\<lambda>bytes.
      ret ((if base = '''' then ''org'' else base) @ ''-'' @ lower_hex bytes)))"

text \<open>\<open>createHash("sha256").update(token).digest("hex")\<close>.\<close>

definition tokenHash :: "'a crypto_scheme \<Rightarrow> string \<Rightarrow> string" where
  "tokenHash C token = lower_hex (sha256 C (utf8 token))"

definition ADMIN_PERMISSIONS :: "string list" where "ADMIN_PERMISSIONS = PERMISSIONS"

definition MEMBER_PERMISSIONS :: "string list" where
  "MEMBER_PERMISSIONS = [''nova.use'', ''social.draft'', ''knowledge.read'', ''models.read'',
     ''policies.read'', ''approvals.read'', ''audit.read'']"

definition normalize_email :: "string \<Rightarrow> string" where
  "normalize_email s = trim (toLowerCase s)"

subsection \<open>Organizations, users and roles\<close>

record create_organization_input =
  co_name :: string
  co_adminEmail :: string
  co_adminPassword :: string
  co_adminName :: "string option"

record organization_created =
  oc_organizationId :: id
  oc_adminUserId :: id
  oc_adminRoleId :: id
  oc_memberRoleId :: id

definition grant :: "id \<Rightarrow> string list \<Rightarrow> (err, 'w auth_world_scheme, unit) op" where
  "grant roleId keys =
     forE (\<lambda>key. insert_role_permission \<lparr>rp_role_id = roleId, rp_permission_key = key\<rparr>) keys"

definition createOrganization ::
    "'a auth_env_scheme \<Rightarrow> create_organization_input \<Rightarrow>
     (err, 'w auth_world_scheme, organization_created) op" where
  "createOrganization E input =
     bindE (drawE (randomUUID E)) (\<lambda>organizationId.
     bindE (drawE (randomUUID E)) (\<lambda>adminUserId.
     bindE (drawE (randomUUID E)) (\<lambda>adminRoleId.
     bindE (drawE (randomUUID E)) (\<lambda>memberRoleId.
     bindE (hashPassword E (co_adminPassword input)) (\<lambda>passwordHash.
     let email = normalize_email (co_adminEmail input) in
     txnE restore_auth (
       bindE (slugify E (co_name input)) (\<lambda>slug.
       bindE (insert_organization \<lparr>or_id = organizationId, or_name = co_name input, or_slug = slug\<rparr>) (\<lambda>_.
       bindE (insert_user \<lparr>us_id = adminUserId, us_email = email, us_password_hash = passwordHash,
         us_display_name = (case co_adminName input of None \<Rightarrow> ''Admin'' | Some n \<Rightarrow> n),
         us_disabled_at = None\<rparr>) (\<lambda>_.
       bindE (insert_role \<lparr>ro_id = adminRoleId, ro_organization_id = organizationId, ro_name = ''admin''\<rparr>) (\<lambda>_.
       bindE (insert_role \<lparr>ro_id = memberRoleId, ro_organization_id = organizationId, ro_name = ''member''\<rparr>) (\<lambda>_.
       bindE (grant adminRoleId ADMIN_PERMISSIONS) (\<lambda>_.
       bindE (grant memberRoleId MEMBER_PERMISSIONS) (\<lambda>_.
       bindE (drawE (randomUUID E)) (\<lambda>membershipId.
       bindE (drawE (clock E)) (\<lambda>now.
       bindE (insert_membership \<lparr>mb_id = membershipId, mb_organization_id = organizationId,
         mb_user_id = adminUserId, mb_role_id = adminRoleId, mb_created_at = now\<rparr>) (\<lambda>_.
       ret \<lparr>oc_organizationId = organizationId, oc_adminUserId = adminUserId,
            oc_adminRoleId = adminRoleId, oc_memberRoleId = memberRoleId\<rparr>))))))))))))))))"

record create_user_input =
  cu_organizationId :: id
  cu_roleId :: id
  cu_email :: string
  cu_password :: string
  cu_displayName :: string

text \<open>Not a transaction: the user row stays when the membership cannot be inserted.\<close>

definition createUser ::
    "'a auth_env_scheme \<Rightarrow> create_user_input \<Rightarrow> (err, 'w auth_world_scheme, id) op" where
  "createUser E input =
     bindE (getsE (\<lambda>w. find (\<lambda>r. ro_id r = cu_roleId input) (roles w))) (\<lambda>role.
     bindE (requireE (case role of None \<Rightarrow> False | Some r \<Rightarrow> ro_organization_id r = cu_organizationId input)
       (AuthError ''INVALID_ROLE'' 400)) (\<lambda>_.
     bindE (drawE (randomUUID E)) (\<lambda>userId.
     bindE (hashPassword E (cu_password input)) (\<lambda>passwordHash.
     bindE (insert_user \<lparr>us_id = userId, us_email = normalize_email (cu_email input),
       us_password_hash = passwordHash, us_display_name = cu_displayName input,
       us_disabled_at = None\<rparr>) (\<lambda>_.
     bindE (drawE (randomUUID E)) (\<lambda>membershipId.
     bindE (drawE (clock E)) (\<lambda>now.
     bindE (insert_membership \<lparr>mb_id = membershipId, mb_organization_id = cu_organizationId input,
       mb_user_id = userId, mb_role_id = cu_roleId input, mb_created_at = now\<rparr>) (\<lambda>_.
     ret userId))))))))"

definition loadPermissions :: "id \<Rightarrow> (err, 'w auth_world_scheme, string list) op" where
  "loadPermissions roleId = getsE (\<lambda>w.
     map rp_permission_key (filter (\<lambda>r. rp_role_id r = roleId) (role_permissions w)))"

definition createRole ::
    "'a env_scheme \<Rightarrow> id \<Rightarrow> string \<Rightarrow> string list \<Rightarrow> (err, 'w auth_world_scheme, id) op" where
  "createRole E organizationId name perms =
     bindE (drawE (randomUUID E)) (\<lambda>i.
     bindE (insert_role \<lparr>ro_id = i, ro_organization_id = organizationId, ro_name = name\<rparr>) (\<lambda>_.
     bindE (grant i perms) (\<lambda>_.
     ret i)))"

subsection \<open>Sessions\<close>

record create_session_input =
  cs_email :: string
  cs_password :: string
  cs_organizationId :: "id option"
  cs_ip :: "string option"
  cs_userAgent :: "string option"

definition dummy_password :: string where
  "dummy_password = password_string (replicate 16 0) (replicate 32 0)"

text \<open>\<open>memberships JOIN roles\<close> of a user, oldest membership first.\<close>

definition memberships_of :: "id \<Rightarrow> 'w auth_world_scheme \<Rightarrow> (membership_row \<times> role_row) list" where
  "memberships_of userId w =
     sort_key (\<lambda>(m, r). mb_created_at m)
       [(m, r). m \<leftarrow> memberships w, mb_user_id m = userId, r \<leftarrow> roles w, ro_id r = mb_role_id m]"

text \<open>The end of \<open>createSession\<close>: the token and the session row of a chosen membership.\<close>

definition issueSession ::
    "'a env_scheme \<Rightarrow> create_session_input \<Rightarrow> id \<Rightarrow> membership_row \<times> role_row \<Rightarrow>
     (err, 'w auth_world_scheme, string \<times> auth_context) op" where
  "issueSession E input userId chosen =
     (let membership = fst chosen; role = snd chosen in
      bindE (drawE (\<lambda>n. lower_hex (randomBytes E n 32))) (\<lambda>token.
     bindE (drawE (randomUUID E)) (\<lambda>sessionId.
     bindE (drawE (\<lambda>n. clock E n + SESSION_TTL_MS)) (\<lambda>expires.
     bindE (insert_session \<lparr>sn_id = sessionId, sn_user_id = userId,
       sn_organization_id = mb_organization_id membership, sn_token_hash = tokenHash E token,
       sn_expires_at = expires, sn_ip = cs_ip input, sn_user_agent = cs_userAgent input\<rparr>) (\<lambda>_.
     bindE (loadPermissions (mb_role_id membership)) (\<lambda>perms.
     ret (token, \<lparr>ac_userId = userId, ac_organizationId = mb_organization_id membership,
       ac_roleId = mb_role_id membership, ac_roleName = ro_name role, ac_permissions = perms,
       ac_sessionId = sessionId\<rparr>)))))))"

definition createSession ::
    "'a auth_env_scheme \<Rightarrow> create_session_input \<Rightarrow>
     (err, 'w auth_world_scheme, string \<times> auth_context) op" where
  "createSession E input =
     (let email = normalize_email (cs_email input) in
      bindE (getsE (\<lambda>w. find (\<lambda>u. us_email u = email) (users w))) (\<lambda>user.
      bindE (liftE (verifyPassword E (cs_password input)
        (case user of None \<Rightarrow> dummy_password | Some u \<Rightarrow> us_password_hash u))) (\<lambda>ok.
      bindE (expectE (case user of None \<Rightarrow> None
          | Some u \<Rightarrow> if us_disabled_at u \<noteq> None \<or> \<not> ok then None else Some u)
        (AuthError ''INVALID_CREDENTIALS'' 401)) (\<lambda>row.
      bindE (getsE (memberships_of (us_id row))) (\<lambda>rows.
      bindE (requireE (rows \<noteq> []) (AuthError ''NO_MEMBERSHIP'' 403)) (\<lambda>_.
      bindE (expectE (case cs_organizationId input of
            None \<Rightarrow> first_row rows
          | Some org \<Rightarrow> if org = '''' then first_row rows
              else find (\<lambda>(m, r). mb_organization_id m = org) rows)
        (AuthError ''NOT_A_MEMBER'' 403)) (issueSession E input (us_id row))))))))"

definition destroySession :: "'a crypto_scheme \<Rightarrow> string \<Rightarrow> (err, 'w auth_world_scheme, unit) op" where
  "destroySession C token = modifyE (\<lambda>w.
     w\<lparr>sessions := filter (\<lambda>s. sn_token_hash s \<noteq> tokenHash C token) (sessions w)\<rparr>)"

text \<open>The join of \<open>resolveSession\<close>: session, user, membership in the session's organization, role.\<close>

definition session_join ::
    "string \<Rightarrow> 'w auth_world_scheme \<Rightarrow> (session_row \<times> user_row \<times> membership_row \<times> role_row) list" where
  "session_join hash w =
     [(s, u, m, r). s \<leftarrow> sessions w, sn_token_hash s = hash, u \<leftarrow> users w, us_id u = sn_user_id s,
        m \<leftarrow> memberships w, mb_user_id m = sn_user_id s \<and> mb_organization_id m = sn_organization_id s,
        r \<leftarrow> roles w, ro_id r = mb_role_id m]"

definition resolveSession ::
    "'a env_scheme \<Rightarrow> string option \<Rightarrow> (err, 'w auth_world_scheme, auth_context) op" where
  "resolveSession E token =
     bindE (expectE (case token of None \<Rightarrow> None | Some t \<Rightarrow> if t = '''' then None else Some t)
       unauthenticated) (\<lambda>t.
     bindE (getsE (\<lambda>w. first_row (session_join (tokenHash E t) w))) (\<lambda>found.
     bindE (expectE found unauthenticated) (\<lambda>(s, u, m, r).
     bindE (requireE (us_disabled_at u = None) unauthenticated) (\<lambda>_.
     bindE (drawE (clock E)) (\<lambda>now.
     bindE (requireE (\<not> sn_expires_at s \<le> now) unauthenticated) (\<lambda>_.
     bindE (loadPermissions (mb_role_id m)) (\<lambda>perms.
     ret \<lparr>ac_userId = sn_user_id s, ac_organizationId = sn_organization_id s,
       ac_roleId = mb_role_id m, ac_roleName = ro_name r, ac_permissions = perms,
       ac_sessionId = sn_id s\<rparr>)))))))"

text \<open>The update is refused by the foreign key when the session's user is not a member.\<close>

definition selectOrganization :: "id \<Rightarrow> id \<Rightarrow> id \<Rightarrow> (err, 'w auth_world_scheme, unit) op" where
  "selectOrganization userId sessionId organizationId =
     bindE (getsE (\<lambda>w. \<exists>m\<in>set (memberships w). mb_user_id m = userId \<and>
       mb_organization_id m = organizationId)) (\<lambda>ok.
     bindE (requireE ok (AuthError ''NOT_A_MEMBER'' 403)) (\<lambda>_.
     bindE (getsE (\<lambda>w. \<forall>s\<in>set (sessions w). sn_id s = sessionId \<longrightarrow>
       (\<exists>m\<in>set (memberships w). mb_organization_id m = organizationId \<and> mb_user_id m = sn_user_id s))) (\<lambda>fk.
     bindE (requireE fk foreign_key_violation) (\<lambda>_.
     modifyE (\<lambda>w. w\<lparr>sessions := update_where (\<lambda>s. sn_id s = sessionId)
       (\<lambda>s. s\<lparr>sn_organization_id := organizationId\<rparr>) (sessions w)\<rparr>)))))"

definition requirePermission :: "auth_context \<Rightarrow> string \<Rightarrow> err + unit" where
  "requirePermission context permission =
     assertS (permission \<in> set (ac_permissions context)) (AuthError ''FORBIDDEN'' 403)"

definition assertOrganizationScope :: "id \<Rightarrow> id option \<Rightarrow> err + id" where
  "assertOrganizationScope contextOrganizationId requested =
     (case requested of
        None \<Rightarrow> Inr contextOrganizationId
      | Some org \<Rightarrow> if org \<noteq> '''' \<and> org \<noteq> contextOrganizationId
          then Inl (AuthError ''ORG_MISMATCH'' 403) else Inr contextOrganizationId)"

subsection \<open>Service credentials\<close>

definition generateServiceToken :: "'a env_scheme \<Rightarrow> (err, 'w world_scheme, string) op" where
  "generateServiceToken E = drawE (\<lambda>n. ''vsvc_'' @ base64url (randomBytes E n 32))"

definition createServiceCredential ::
    "'a env_scheme \<Rightarrow> string \<Rightarrow> id option \<Rightarrow> string list \<Rightarrow>
     (err, 'w auth_world_scheme, id \<times> string) op" where
  "createServiceCredential E name organizationId scopes =
     bindE (requireE (\<not> ((case organizationId of None \<Rightarrow> False | Some i \<Rightarrow> i \<noteq> '''') \<and>
         PLATFORM_CROSS_ORG_SCOPE \<in> set scopes)) (AuthError ''INVALID_SCOPE'' 400)) (\<lambda>_.
     bindE (drawE (randomUUID E)) (\<lambda>i.
     bindE (generateServiceToken E) (\<lambda>token.
     bindE (requireE (organizationId \<noteq> Some '''') invalid_text_representation) (\<lambda>_.
     bindE (insert_credential \<lparr>sc_id = i, sc_name = name, sc_organization_id = organizationId,
       sc_secret_hash = tokenHash E token, sc_scopes = scopes, sc_revoked_at = None\<rparr>) (\<lambda>_.
     ret (i, token))))))"

definition revokeServiceCredential :: "'a env_scheme \<Rightarrow> id \<Rightarrow> (err, 'w auth_world_scheme, unit) op" where
  "revokeServiceCredential E i =
     bindE (drawE (clock E)) (\<lambda>now.
     bindE (getsE (\<lambda>w. count_where (\<lambda>c. sc_id c = i \<and> sc_revoked_at c = None) (service_credentials w))) (\<lambda>n.
     bindE (modifyE (\<lambda>w. w\<lparr>service_credentials :=
       update_where (\<lambda>c. sc_id c = i \<and> sc_revoked_at c = None)
         (\<lambda>c. c\<lparr>sc_revoked_at := Some now\<rparr>) (service_credentials w)\<rparr>)) (\<lambda>_.
     requireE (n = 1) (AuthError ''NOT_FOUND'' 404))))"

definition resolveServiceToken ::
    "'a crypto_scheme \<Rightarrow> string option \<Rightarrow> (err, 'w auth_world_scheme, service_context) op" where
  "resolveServiceToken C token =
     bindE (expectE (case token of None \<Rightarrow> None | Some t \<Rightarrow> if t = '''' then None else Some t)
       unauthenticated) (\<lambda>t.
     bindE (getsE (\<lambda>w. find (\<lambda>c. sc_secret_hash c = tokenHash C t) (service_credentials w))) (\<lambda>found.
     bindE (expectE (case found of None \<Rightarrow> None
         | Some c \<Rightarrow> if sc_revoked_at c \<noteq> None then None else Some c)
       (AuthError ''INVALID_SERVICE_CREDENTIALS'' 401)) (\<lambda>row.
     ret \<lparr>vc_credentialId = sc_id row, vc_organizationId = sc_organization_id row,
       vc_scopes = sc_scopes row\<rparr>)))"

subsection \<open>Listings\<close>

definition listOrganizationUsers ::
    "id \<Rightarrow> (err, 'w auth_world_scheme, (id \<times> string \<times> string \<times> string) list) op" where
  "listOrganizationUsers organizationId = getsE (\<lambda>w.
     sort_key (\<lambda>(i, email, name, role). email)
       [(us_id u, us_email u, us_display_name u, ro_name r).
          m \<leftarrow> memberships w, mb_organization_id m = organizationId,
          u \<leftarrow> users w, us_id u = mb_user_id m, r \<leftarrow> roles w, ro_id r = mb_role_id m])"

definition listOrganizationRoles :: "id \<Rightarrow> (err, 'w auth_world_scheme, (id \<times> string) list) op" where
  "listOrganizationRoles organizationId = getsE (\<lambda>w.
     sort_key snd (map (\<lambda>r. (ro_id r, ro_name r))
       (filter (\<lambda>r. ro_organization_id r = organizationId) (roles w))))"

subsection \<open>Every operation keeps the invariant\<close>

lemma restore_auth_inv: "auth_inv s \<Longrightarrow> auth_inv (restore_auth s t)"
  using auth_inv_same [OF restore_auth_same] by blast

lemma pres_hashPassword [pres]: "preserves auth_inv (hashPassword E p)"
  unfolding hashPassword_def by (intro pres)

lemma pres_slugify [pres]: "preserves auth_inv (slugify E name)"
  unfolding slugify_def Let_def by (intro pres)

lemma pres_grant [pres]: "preserves auth_inv (grant r keys)"
  unfolding grant_def by (intro pres)

lemma pres_createOrganization [pres]: "preserves auth_inv (createOrganization E input)"
  unfolding createOrganization_def Let_def
  by (intro pres preserves_txnE preserves_commits restore_auth_inv)

lemma pres_createUser [pres]: "preserves auth_inv (createUser E input)"
  unfolding createUser_def Let_def by (intro pres)

lemma pres_createRole [pres]: "preserves auth_inv (createRole E org name perms)"
  unfolding createRole_def by (intro pres)

lemma pres_case_prod [pres]: "(\<And>a b. preserves P (f a b)) \<Longrightarrow> preserves P (case p of (a, b) \<Rightarrow> f a b)"
  by (cases p) simp

lemma pres_loadPermissions [pres]: "preserves P (loadPermissions r)"
  unfolding loadPermissions_def by (intro pres)

lemma pres_issueSession [pres]: "preserves auth_inv (issueSession E input u chosen)"
  unfolding issueSession_def Let_def by (intro pres)

lemma pres_createSession [pres]: "preserves auth_inv (createSession E input)"
  unfolding createSession_def Let_def by (intro pres)

lemma pres_destroySession [pres]: "preserves auth_inv (destroySession C token)"
  unfolding destroySession_def by (intro pres) (auto simp: auth_inv_def distinct_map_filter)

lemma pres_resolveSession [pres]: "preserves auth_inv (resolveSession E token)"
  unfolding resolveSession_def by (intro pres)

interpretation session_ids: keyed_table sn_id "\<lambda>org s. s\<lparr>sn_organization_id := org\<rparr>"
  by unfold_locales simp

interpretation session_tokens: keyed_table sn_token_hash "\<lambda>org s. s\<lparr>sn_organization_id := org\<rparr>"
  by unfold_locales simp

lemma pres_selectOrganization [pres]: "preserves auth_inv (selectOrganization u s org)"
proof (rule preservesI)
  fix w :: "'a auth_world_scheme"
  assume inv: "auth_inv w"
  let ?upd = "update_where (\<lambda>x. sn_id x = s) (\<lambda>x. x\<lparr>sn_organization_id := org\<rparr>) (sessions w)"
  have "auth_inv (w\<lparr>sessions := ?upd\<rparr>)"
    if fk: "\<forall>x\<in>set (sessions w). sn_id x = s \<longrightarrow>
       (\<exists>m\<in>set (memberships w). mb_organization_id m = org \<and> mb_user_id m = sn_user_id x)"
  proof -
    have "\<forall>x\<in>set ?upd. \<exists>m\<in>set (memberships w). mb_organization_id m = sn_organization_id x \<and>
        mb_user_id m = sn_user_id x"
      using fk inv by (auto simp: update_where_def auth_inv_def)
    then show ?thesis
      using inv by (simp add: auth_inv_def session_ids.keys_update session_tokens.keys_update)
  qed
  with inv show "auth_inv (snd (selectOrganization u s org w))"
    by (simp add: selectOrganization_def run)
qed

lemma pres_createServiceCredential [pres]: "preserves auth_inv (createServiceCredential E name org scopes)"
proof (rule preservesI)
  fix w :: "'a auth_world_scheme"
  assume inv: "auth_inv w"
  show "auth_inv (snd (createServiceCredential E name org scopes w))"
    using inv
    by (auto simp: createServiceCredential_def generateServiceToken_def insert_credential_def run
        auth_inv_def split: option.splits)
qed

lemma pres_revokeServiceCredential [pres]: "preserves auth_inv (revokeServiceCredential E i)"
  unfolding revokeServiceCredential_def
  by (intro pres) (auto simp: auth_inv_def update_where_def)

lemma pres_resolveServiceToken [pres]: "preserves auth_inv (resolveServiceToken C token)"
  unfolding resolveServiceToken_def by (intro pres)

text \<open>The operations as calls, so that runs of them are lists.\<close>

datatype auth_call =
    CreateOrganization create_organization_input
  | CreateUser create_user_input
  | CreateRole id string "string list"
  | CreateSession create_session_input
  | DestroySession string
  | SelectOrganization id id id
  | CreateCredential string "id option" "string list"
  | RevokeCredential id

definition as_unit :: "('e, 's, 'a) op \<Rightarrow> 's \<Rightarrow> 's" where
  "as_unit m s = snd (m s)"

fun auth_step :: "'a auth_env_scheme \<Rightarrow> auth_call \<Rightarrow> 'w auth_world_scheme \<Rightarrow> 'w auth_world_scheme" where
  "auth_step E (CreateOrganization i) = as_unit (createOrganization E i)"
| "auth_step E (CreateUser i) = as_unit (createUser E i)"
| "auth_step E (CreateRole org name perms) = as_unit (createRole E org name perms)"
| "auth_step E (CreateSession i) = as_unit (createSession E i)"
| "auth_step E (DestroySession t) = as_unit (destroySession E t)"
| "auth_step E (SelectOrganization u s org) = as_unit (selectOrganization u s org)"
| "auth_step E (CreateCredential name org scopes) = as_unit (createServiceCredential E name org scopes)"
| "auth_step E (RevokeCredential i) = as_unit (revokeServiceCredential E i)"

lemma as_unit_inv: "preserves P m \<Longrightarrow> P s \<Longrightarrow> P (as_unit m s)"
  by (simp add: preserves_def as_unit_def)

lemma auth_step_inv: "auth_inv w \<Longrightarrow> auth_inv (auth_step E c w)"
  by (cases c) (auto intro!: as_unit_inv pres)

lemma auth_run_inv: "auth_inv w \<Longrightarrow> auth_inv (fold (auth_step E) calls w)"
  by (induction calls arbitrary: w) (auto intro: auth_step_inv)

subsection \<open>Sessions\<close>

lemma session_join_mem:
  "(s, u, m, r) \<in> set (session_join h w) \<longleftrightarrow>
     s \<in> set (sessions w) \<and> sn_token_hash s = h \<and> u \<in> set (users w) \<and> us_id u = sn_user_id s \<and>
     m \<in> set (memberships w) \<and> mb_user_id m = sn_user_id s \<and> mb_organization_id m = sn_organization_id s \<and>
     r \<in> set (roles w) \<and> ro_id r = mb_role_id m"
  by (auto simp: session_join_def)

lemma session_join_unique:
  assumes "auth_inv w" "(s, u, m, r) \<in> set (session_join h w)"
  shows "s \<in> set (sessions w)" "sn_token_hash s = h" "us_id u = sn_user_id s" "u \<in> set (users w)"
    "m \<in> set (memberships w)" "mb_user_id m = sn_user_id s" "mb_organization_id m = sn_organization_id s"
    "r \<in> set (roles w)" "ro_id r = mb_role_id m" "ro_organization_id r = mb_organization_id m"
proof -
  show a: "s \<in> set (sessions w)" "sn_token_hash s = h" "us_id u = sn_user_id s" "u \<in> set (users w)"
    "m \<in> set (memberships w)" "mb_user_id m = sn_user_id s" "mb_organization_id m = sn_organization_id s"
    "r \<in> set (roles w)" "ro_id r = mb_role_id m"
    using assms(2) by (simp_all add: session_join_mem)
  obtain r' where "r' \<in> set (roles w)" "ro_id r' = mb_role_id m" "ro_organization_id r' = mb_organization_id m"
    using assms(1) a(5) by (auto simp: auth_inv_def)
  moreover have "r' = r"
    using assms(1) calculation(1,2) a(8,9) by (auto simp: auth_inv_def distinct_map inj_on_def)
  ultimately show "ro_organization_id r = mb_organization_id m" by simp
qed

lemma key_eq: "distinct (map f xs) \<Longrightarrow> x \<in> set xs \<Longrightarrow> y \<in> set xs \<Longrightarrow> f x = f y \<Longrightarrow> x = y"
  by (auto simp: distinct_map inj_on_def)

lemma first_row_only:
  assumes "x \<in> set xs" and only: "\<And>y. y \<in> set xs \<Longrightarrow> y = x"
  shows "first_row xs = Some x"
  using assms(1) only [of "hd xs"] by (cases xs) simp_all

lemma session_join_row:
  assumes inv: "auth_inv w" and s: "s \<in> set (sessions w)" and u: "u \<in> set (users w)" "us_id u = sn_user_id s"
    and m: "m \<in> set (memberships w)" "mb_user_id m = sn_user_id s" "mb_organization_id m = sn_organization_id s"
    and r: "r \<in> set (roles w)" "ro_id r = mb_role_id m"
  shows "first_row (session_join (sn_token_hash s) w) = Some (s, u, m, r)"
proof (rule first_row_only)
  show "(s, u, m, r) \<in> set (session_join (sn_token_hash s) w)"
    using s u m r by (simp add: session_join_mem)
next
  fix y assume y: "y \<in> set (session_join (sn_token_hash s) w)"
  obtain s' u' m' r' where y': "y = (s', u', m', r')" by (cases y)
  note j = session_join_unique [OF inv y [unfolded y']]
  have d: "distinct (map sn_token_hash (sessions w))" "distinct (map us_id (users w))"
    "distinct (map (\<lambda>m. (mb_organization_id m, mb_user_id m)) (memberships w))" "distinct (map ro_id (roles w))"
    using inv by (simp_all add: auth_inv_def)
  have s': "s' = s" by (rule key_eq [OF d(1) j(1) s]) (rule j(2))
  have u': "u' = u" by (rule key_eq [OF d(2) j(4) u(1)]) (simp only: j(3) s' u(2))
  have m': "m' = m" by (rule key_eq [OF d(3) j(5) m(1)]) (simp only: j(6,7) s' m(2,3))
  have "r' = r" by (rule key_eq [OF d(4) j(8) r(1)]) (simp only: j(9) m' r(2))
  with s' u' m' show "y = (s, u, m, r)" by (simp only: y')
qed

subsection \<open>Properties\<close>

lemma split_password:
  "split_on (CHR ''$'') (password_string salt key) =
     [''scrypt'', ''16384'', ''8'', ''1'', lower_hex salt, lower_hex key]"
proof -
  have hex: "CHR ''$'' \<notin> set (lower_hex bs)" for bs
    using lower_hex_chars [of bs] by (auto simp: list_all_iff is_hex_char_def is_digit_def)
  show ?thesis
    by (simp add: password_string_def split_on_append [OF hex] split_on_last [OF hex])
qed

lemma verify_own_string:
  "verifyPassword E q (password_string salt key) =
     bindS (scrypt E q salt (length key) (Some 16384) (Some 8) (Some 1)) (\<lambda>actual.
       Inr (if length actual \<noteq> length key then False else actual = key))"
proof -
  have "number_of_text ''16384'' = Some 16384" "number_of_text ''8'' = Some 8" "number_of_text ''1'' = Some 1"
    by code_simp+
  then show ?thesis
    by (simp add: verifyPassword_def Let_def split_password buffer_from_lower_hex)
qed

text \<open>C19: A stored password verifies.  What \<open>hashPassword\<close> returns is a string from which \<open>verifyPassword\<close>
  recovers salt and key exactly: the password itself verifies, and another password verifies exactly
  when \<open>scrypt\<close> derives the same key from it.\<close>

theorem hashPassword_verifies:
  assumes "scrypt_ok E" and "hashPassword E password w = (Inr stored, w')"
  shows "verifyPassword E password stored = Inr True \<and>
    (\<exists>salt key. scrypt E password salt 32 (Some 16384) (Some 8) (Some 1) = Inr key \<and>
       (verifyPassword E other stored = Inr True \<longleftrightarrow>
        scrypt E other salt 32 (Some 16384) (Some 8) (Some 1) = Inr key))"
proof -
  obtain salt key where k: "scrypt E password salt 32 (Some 16384) (Some 8) (Some 1) = Inr key"
      "stored = password_string salt key"
    using assms(2) by (auto simp: hashPassword_def inr_iffs)
  have len: "length key = 32"
    using assms(1) k(1) unfolding scrypt_ok_def by (metis sum.inject(2))
  obtain ok where ok: "scrypt E other salt 32 (Some 16384) (Some 8) (Some 1) = Inr ok" "length ok = 32"
    using assms(1) unfolding scrypt_ok_def by blast
  have "verifyPassword E password stored = Inr True"
    "verifyPassword E other stored = Inr True \<longleftrightarrow> scrypt E other salt 32 (Some 16384) (Some 8) (Some 1) = Inr key"
    using len ok by (auto simp: k verify_own_string)
  with k(1) show ?thesis by blast
qed


text \<open>A session is good until it expires or is destroyed, and says who was authenticated.  The token
  \<open>createSession\<close> returns resolves, in any later state with the same tables, to exactly the context
  that was returned while the clock is before the expiry, and is rejected from then on; after
  \<open>destroySession\<close> it is rejected in every case.\<close>

theorem createSession_resolves:
  assumes "createSession E input w = (Inr (token, context), w')" and "auth_inv w"
    and "token \<noteq> ''''" and "same_auth w' v"
  shows "\<exists>s\<in>set (sessions w'). sn_id s = ac_sessionId context \<and>
    resolveSession E (Some token) v =
      (if sn_expires_at s \<le> clock E (draws v) then Inl unauthenticated else Inr context,
       v\<lparr>draws := Suc (draws v)\<rparr>) \<and>
    fst (resolveSession E (Some token) (snd (destroySession E token v))) = Inl unauthenticated"
proof -
  have inv: "auth_inv w'" "auth_inv v"
    using preservesD [OF pres_createSession assms(1,2)] auth_inv_same [OF assms(4)] by simp_all
  let ?email = "normalize_email (cs_email input)"
  from assms(1) obtain ok u mr where
    u0: "(case find (\<lambda>u. us_email u = ?email) (users w) of None \<Rightarrow> None
        | Some u \<Rightarrow> if us_disabled_at u \<noteq> None \<or> \<not> ok then None else Some u) = Some u"
    and mr0: "(case cs_organizationId input of
            None \<Rightarrow> first_row (memberships_of (us_id u) w)
          | Some org \<Rightarrow> if org = '''' then first_row (memberships_of (us_id u) w)
              else find (\<lambda>(m, r). mb_organization_id m = org) (memberships_of (us_id u) w)) = Some mr"
    and rest: "issueSession E input (us_id u) mr w = (Inr (token, context), w')"
    unfolding createSession_def Let_def bindE_Inr basic_Inr by (elim exE conjE) blast
  have u: "find (\<lambda>u. us_email u = ?email) (users w) = Some u" "us_disabled_at u = None"
    using u0 by (auto split: option.splits if_splits)
  obtain m r where mr1: "mr = (m, r)" by (cases mr)
  have mr: "(m, r) \<in> set (memberships_of (us_id u) w)"
    using mr0 mr1 by (auto split: option.splits if_splits dest: first_row_SomeD find_SomeD)
  define x where "x = \<lparr>sn_id = randomUUID E (Suc (draws w)), sn_user_id = us_id u,
    sn_organization_id = mb_organization_id m,
    sn_token_hash = tokenHash E (lower_hex (randomBytes E (draws w) 32)),
    sn_expires_at = clock E (Suc (Suc (draws w))) + SESSION_TTL_MS, sn_ip = cs_ip input,
    sn_user_agent = cs_userAgent input\<rparr>"
  have tok: "token = lower_hex (randomBytes E (draws w) 32)"
    and w': "w' = w\<lparr>draws := Suc (Suc (Suc (draws w))), sessions := sessions w @ [x]\<rparr>"
    and ctx: "context = \<lparr>ac_userId = us_id u, ac_organizationId = mb_organization_id m,
        ac_roleId = mb_role_id m, ac_roleName = ro_name r,
        ac_permissions = map rp_permission_key (filter (\<lambda>r. rp_role_id r = mb_role_id m) (role_permissions w)),
        ac_sessionId = sn_id x\<rparr>"
    using rest
    unfolding issueSession_def Let_def mr1 inr_iffs drawE_Inr insert_session_def loadPermissions_def x_def
    by clarsimp+
  have x: "sn_user_id x = us_id u" "sn_organization_id x = mb_organization_id m"
      "sn_token_hash x = tokenHash E token"
    by (simp_all add: x_def tok)
  have uw: "u \<in> set (users w)" using find_SomeD [OF u(1)] by simp
  have mr': "m \<in> set (memberships w)" "mb_user_id m = us_id u" "r \<in> set (roles w)" "ro_id r = mb_role_id m"
    using mr by (auto simp: memberships_of_def)
  have xv: "x \<in> set (sessions v)" "users v = users w" "memberships v = memberships w" "roles v = roles w"
      "role_permissions v = role_permissions w"
    using assms(4) w' by (simp_all add: same_auth_def)
  have row: "first_row (session_join (tokenHash E token) v) = Some (x, u, m, r)"
    using session_join_row [OF inv(2) xv(1), of u m r] uw mr' x xv by simp
  have "resolveSession E (Some token) v =
      (if sn_expires_at x \<le> clock E (draws v) then Inl unauthenticated else Inr context,
       v\<lparr>draws := Suc (draws v)\<rparr>)"
    using assms(3) u(2) by (simp add: resolveSession_def run row loadPermissions_def ctx x xv)
  moreover have "session_join (tokenHash E token) (snd (destroySession E token v)) = []"
    by (auto simp: session_join_def destroySession_def run)
  then have "fst (resolveSession E (Some token) (snd (destroySession E token v))) = Inl unauthenticated"
    using assms(3) by (simp add: resolveSession_def run)
  ultimately show ?thesis using w' ctx by (intro bexI [of _ x]) auto
qed

subsection \<open>Concrete identities\<close>

definition sample_auth_env :: auth_env where
  "sample_auth_env = env.extend sample_clock_env
     \<lparr>scrypt = (\<lambda>p s n a b c. Inr (take n (utf8 p @ s @ replicate n 0)))\<rparr>"

lemma sample_scrypt_ok: "scrypt_ok sample_auth_env"
  by (auto simp: scrypt_ok_def sample_auth_env_def env.defs)

definition sample_auth :: auth_world where
  "sample_auth = empty_auth\<lparr>organizations := [\<lparr>or_id = ''org'', or_name = ''Org'', or_slug = ''org-1''\<rparr>],
     users := [\<lparr>us_id = ''u1'', us_email = ''a@b.c'',
       us_password_hash = password_string (replicate 16 1) (take 32 (utf8 ''correct horse'' @ replicate 16 1 @ replicate 32 0)),
       us_display_name = ''A'', us_disabled_at = None\<rparr>],
     roles := [\<lparr>ro_id = ''r1'', ro_organization_id = ''org'', ro_name = ''admin''\<rparr>],
     role_permissions := [\<lparr>rp_role_id = ''r1'', rp_permission_key = ''audit.read''\<rparr>],
     memberships := [\<lparr>mb_id = ''m1'', mb_organization_id = ''org'', mb_user_id = ''u1'', mb_role_id = ''r1'',
       mb_created_at = 0\<rparr>]\<rparr>"

definition sample_login :: create_session_input where
  "sample_login = \<lparr>cs_email = '' A@B.c'', cs_password = ''correct horse'', cs_organizationId = None,
     cs_ip = None, cs_userAgent = None\<rparr>"

lemma sample_auth_inv: "auth_inv sample_auth"
  by (simp add: auth_inv_def sample_auth_def empty_auth_def audit_world.defs)

lemma sample_login_succeeds:
  "\<exists>token context w'. createSession sample_auth_env sample_login sample_auth = (Inr (token, context), w') \<and>
     token \<noteq> '''' \<and> ac_permissions context = [''audit.read'']"
proof -
  have email: "normalize_email '' A@B.c'' = ''a@b.c''" by code_simp
  let ?u = "hd (users sample_auth)"
  have u: "find (\<lambda>u. us_email u = ''a@b.c'') (users sample_auth) = Some ?u" "us_disabled_at ?u = None"
    by (simp_all add: sample_auth_def)
  define key where "key = take 32 (utf8 ''correct horse'' @ replicate 16 1 @ replicate 32 (0 :: byte))"
  have "length key = 32" "scrypt sample_auth_env ''correct horse'' (replicate 16 1) 32 a b c = Inr key" for a b c
    by (simp_all add: key_def sample_auth_env_def env.defs)
  moreover have "us_password_hash ?u = password_string (replicate 16 1) key"
    by (simp add: sample_auth_def key_def)
  ultimately have "verifyPassword sample_auth_env ''correct horse'' (us_password_hash ?u) = Inr True"
    by (simp add: verify_own_string)
  moreover have "lower_hex (randomBytes sample_auth_env n 32) \<noteq> ''''" for n
    by (simp add: sample_auth_env_def sample_clock_env_def sample_env_def env.defs crypto.defs
        lower_hex_def hex_byte_def)
  moreover have "memberships_of (us_id ?u) sample_auth = [(hd (memberships sample_auth), hd (roles sample_auth))]"
    by (simp add: memberships_of_def sample_auth_def)
  ultimately have start: "createSession sample_auth_env sample_login sample_auth =
      issueSession sample_auth_env sample_login (us_id ?u)
        (hd (memberships sample_auth), hd (roles sample_auth)) sample_auth"
    and tok: "lower_hex (randomBytes sample_auth_env n 32) \<noteq> ''''" for n
    using u by (simp_all add: createSession_def sample_login_def email run)
  have tabs: "sessions sample_auth = []" "role_permissions sample_auth =
      [\<lparr>rp_role_id = ''r1'', rp_permission_key = ''audit.read''\<rparr>]"
      "memberships sample_auth = [\<lparr>mb_id = ''m1'', mb_organization_id = ''org'', mb_user_id = ''u1'',
         mb_role_id = ''r1'', mb_created_at = 0\<rparr>]" "us_id ?u = ''u1''"
    by (simp_all add: sample_auth_def empty_auth_def audit_world.defs)
  show ?thesis
    unfolding start issueSession_def Let_def by (simp add: run insert_session_def loadPermissions_def tabs tok)
qed

theorem hashPassword_verifies_witness:
  "\<exists>stored. verifyPassword sample_auth_env ''correct horse'' stored = Inr True \<and>
     (\<exists>w'. hashPassword sample_auth_env ''correct horse'' sample_auth = (Inr stored, w'))"
proof -
  obtain stored w' where h: "hashPassword sample_auth_env ''correct horse'' sample_auth = (Inr stored, w')"
    by (simp add: hashPassword_def run sample_auth_env_def env.defs)
  from hashPassword_verifies [OF sample_scrypt_ok h] h show ?thesis by blast
qed

theorem createSession_resolves_witness:
  "\<exists>token context w' s. createSession sample_auth_env sample_login sample_auth = (Inr (token, context), w') \<and>
     s \<in> set (sessions w') \<and> ac_permissions context = [''audit.read''] \<and>
     resolveSession sample_auth_env (Some token) w' =
      (if sn_expires_at s \<le> clock sample_auth_env (draws w') then Inl unauthenticated else Inr context,
       w'\<lparr>draws := Suc (draws w')\<rparr>)"
proof -
  obtain token ctx w' where run: "createSession sample_auth_env sample_login sample_auth = (Inr (token, ctx), w')"
    and ok: "token \<noteq> ''''" "ac_permissions ctx = [''audit.read'']"
    using sample_login_succeeds by blast
  have same: "same_auth w' w'" by (simp add: same_auth_def)
  from createSession_resolves [OF run sample_auth_inv ok(1) same] run ok(2) show ?thesis by blast
qed

end
