(* ===== verification/CommandStore.thy ===== *)
theory CommandStore
  imports Identity
begin

text \<open>
  The tables of the schema \<open>command\<close> with the constraints of \<open>db/migrations\<close>, as inserts that throw
  \<open>SqlError\<close>.  \<open>jsonb\<close> columns that hold a list of data classes, capabilities or actions are lists.
\<close>

record policy_rules =
  leave_device :: "data_classification \<Rightarrow> bool"
  cloud_models :: "data_classification \<Rightarrow> bool"

record policy_row =
  po_id :: id
  po_organization_id :: id
  po_name :: string
  po_version :: int
  po_active :: bool
  po_rules :: policy_rules
  po_created_at :: int

record binding_row =
  pb_id :: id
  pb_organization_id :: id
  pb_policy_id :: id
  pb_skill_id :: "string option"

record model_row =
  md_id :: id
  md_organization_id :: id
  md_model_key :: string
  md_provider :: model_provider
  md_deployment_type :: deployment_type
  md_endpoint :: "string option"
  md_capabilities :: "string list"
  md_allowed_data_classes :: "data_classification list"
  md_risk_ceiling :: risk_tier
  md_requires_internet :: bool
  md_enabled :: bool
  md_created_at :: int

record skill_policy_row =
  sp_id :: id
  sp_organization_id :: id
  sp_skill_id :: string
  sp_requires_approval :: bool
  sp_classification_ceiling :: data_classification
  sp_risk_ceiling :: risk_tier

record skill_role_row =
  kr_skill_policy_id :: id
  kr_role_id :: id
  kr_organization_id :: id

record connector_row =
  cn_id :: id
  cn_organization_id :: id
  cn_connector_key :: string
  cn_connector_type :: string
  cn_version :: string
  cn_enabled :: bool
  cn_allowed_data_classes :: "data_classification list"
  cn_secret_ref :: "string option"
  cn_page_config :: json
  cn_capabilities :: "string list"
  cn_requires_approval :: bool
  cn_created_at :: int

record skill_connector_row =
  kc_organization_id :: id
  kc_skill_id :: string
  kc_connector_key :: string
  kc_actions :: "string list"

datatype approval_status = Pending | Approved | Denied

fun approval_str :: "approval_status \<Rightarrow> string" where
  "approval_str Pending = ''pending''"
| "approval_str Approved = ''approved''"
| "approval_str Denied = ''denied''"

record approval_row =
  ap_id :: id
  ap_organization_id :: id
  ap_execution_id :: id
  ap_skill_id :: string
  ap_requested_by :: id
  ap_decided_by :: "id option"
  ap_status :: approval_status
  ap_reason_code :: "string option"
  ap_artifact_hash :: "string option"
  ap_created_at :: int
  ap_decided_at :: "int option"

datatype action_status =
  ActionPending | ActionAuthorized | ActionExecuting | ActionSucceeded | ActionFailed | ActionNeedsReview

record connector_action_row =
  ca_id :: id
  ca_organization_id :: id
  ca_execution_id :: id
  ca_connector_id :: id
  ca_action :: string
  ca_artifact_hash :: string
  ca_idempotency_key :: string
  ca_status :: action_status
  ca_external_action_id :: "string option"
  ca_request_hash :: "string option"
  ca_response_hash :: "string option"
  ca_requested_by :: id
  ca_approved_by :: "id option"
  ca_error_code :: "string option"
  ca_scheduled_for :: "int option"
  ca_created_at :: int
  ca_started_at :: "int option"
  ca_completed_at :: "int option"

record command_world = auth_world +
  policies :: "policy_row list"
  policy_bindings :: "binding_row list"
  models :: "model_row list"
  skill_policies :: "skill_policy_row list"
  skill_policy_roles :: "skill_role_row list"
  connectors :: "connector_row list"
  skill_connectors :: "skill_connector_row list"
  approvals :: "approval_row list"
  connector_actions :: "connector_action_row list"

definition empty_command :: command_world where
  "empty_command = auth_world.extend empty_auth
     \<lparr>policies = [], policy_bindings = [], models = [], skill_policies = [], skill_policy_roles = [],
      connectors = [], skill_connectors = [], approvals = [], connector_actions = []\<rparr>"

definition org_exists :: "id \<Rightarrow> 'w auth_world_scheme \<Rightarrow> bool" where
  "org_exists org w \<longleftrightarrow> (\<exists>x\<in>set (organizations w). or_id x = org)"

definition role_in_org :: "id \<Rightarrow> id \<Rightarrow> 'w auth_world_scheme \<Rightarrow> bool" where
  "role_in_org org role w \<longleftrightarrow> (\<exists>x\<in>set (roles w). ro_id x = role \<and> ro_organization_id x = org)"

definition user_exists :: "id \<Rightarrow> 'w auth_world_scheme \<Rightarrow> bool" where
  "user_exists u w \<longleftrightarrow> (\<exists>x\<in>set (users w). us_id x = u)"

text \<open>A constraint on the current state: \<open>e\<close> is thrown when it does not hold.\<close>

definition constraintE :: "('s \<Rightarrow> bool) \<Rightarrow> err \<Rightarrow> (err, 's, unit) op" where
  "constraintE c e s = (if c s then Inr () else Inl e, s)"

lemma run_constraintE [run]: "constraintE c e s = (if c s then Inr () else Inl e, s)"
  by (simp add: constraintE_def)

lemma constraintE_Inr: "constraintE c e s = (Inr u, t) \<longleftrightarrow> c s \<and> t = s"
  by (auto simp: constraintE_def)

lemma pres_constraintE [pres]: "preserves P (constraintE c e)"
  by (simp add: preserves_def constraintE_def)

definition insert_policy :: "policy_row \<Rightarrow> (err, 'w command_world_scheme, unit) op" where
  "insert_policy row =
     bindE (requireE (po_version row > 0) check_violation) (\<lambda>_.
     bindE (constraintE (\<lambda>w. \<forall>r\<in>set (policies w). po_id r \<noteq> po_id row \<and>
         \<not> (po_organization_id r = po_organization_id row \<and> po_name r = po_name row \<and>
            po_version r = po_version row)) unique_violation) (\<lambda>_.
     bindE (constraintE (org_exists (po_organization_id row)) foreign_key_violation) (\<lambda>_.
     modifyE (\<lambda>w. w\<lparr>policies := policies w @ [row]\<rparr>))))"

text \<open>The unique index is on \<open>(organization_id, COALESCE(skill_id, ''))\<close>.\<close>

definition binding_slot :: "binding_row \<Rightarrow> id \<times> string" where
  "binding_slot b = (pb_organization_id b, case pb_skill_id b of None \<Rightarrow> '''' | Some s \<Rightarrow> s)"

definition insert_binding :: "binding_row \<Rightarrow> (err, 'w command_world_scheme, unit) op" where
  "insert_binding row =
     bindE (constraintE (\<lambda>w. \<forall>r\<in>set (policy_bindings w). pb_id r \<noteq> pb_id row \<and>
         binding_slot r \<noteq> binding_slot row) unique_violation) (\<lambda>_.
     bindE (constraintE (\<lambda>w. \<exists>p\<in>set (policies w). po_id p = pb_policy_id row \<and>
         po_organization_id p = pb_organization_id row) foreign_key_violation) (\<lambda>_.
     modifyE (\<lambda>w. w\<lparr>policy_bindings := policy_bindings w @ [row]\<rparr>)))"

definition insert_model :: "model_row \<Rightarrow> (err, 'w command_world_scheme, unit) op" where
  "insert_model row =
     bindE (constraintE (\<lambda>w. \<forall>r\<in>set (models w). md_id r \<noteq> md_id row \<and>
         \<not> (md_organization_id r = md_organization_id row \<and> md_model_key r = md_model_key row))
       unique_violation) (\<lambda>_.
     bindE (constraintE (org_exists (md_organization_id row)) foreign_key_violation) (\<lambda>_.
     modifyE (\<lambda>w. w\<lparr>models := models w @ [row]\<rparr>)))"

definition insert_skill_policy :: "skill_policy_row \<Rightarrow> (err, 'w command_world_scheme, unit) op" where
  "insert_skill_policy row =
     bindE (constraintE (\<lambda>w. \<forall>r\<in>set (skill_policies w). sp_id r \<noteq> sp_id row \<and>
         \<not> (sp_organization_id r = sp_organization_id row \<and> sp_skill_id r = sp_skill_id row))
       unique_violation) (\<lambda>_.
     bindE (constraintE (org_exists (sp_organization_id row)) foreign_key_violation) (\<lambda>_.
     modifyE (\<lambda>w. w\<lparr>skill_policies := skill_policies w @ [row]\<rparr>)))"

definition insert_skill_role :: "skill_role_row \<Rightarrow> (err, 'w command_world_scheme, unit) op" where
  "insert_skill_role row =
     bindE (constraintE (\<lambda>w. \<forall>r\<in>set (skill_policy_roles w). \<not> (kr_skill_policy_id r = kr_skill_policy_id row \<and>
         kr_role_id r = kr_role_id row)) unique_violation) (\<lambda>_.
     bindE (constraintE (\<lambda>w. (\<exists>s\<in>set (skill_policies w). sp_id s = kr_skill_policy_id row \<and>
         sp_organization_id s = kr_organization_id row) \<and>
         role_in_org (kr_organization_id row) (kr_role_id row) w) foreign_key_violation) (\<lambda>_.
     modifyE (\<lambda>w. w\<lparr>skill_policy_roles := skill_policy_roles w @ [row]\<rparr>)))"

text \<open>\<open>INSERT ... ON CONFLICT (organization_id, connector_key) DO NOTHING\<close>.\<close>

definition insert_connector :: "connector_row \<Rightarrow> (err, 'w command_world_scheme, unit) op" where
  "insert_connector row =
     bindE (getsE (\<lambda>w. \<exists>r\<in>set (connectors w). cn_organization_id r = cn_organization_id row \<and>
       cn_connector_key r = cn_connector_key row)) (\<lambda>conflict.
     whenE (\<not> conflict)
       (bindE (constraintE (\<lambda>w. \<forall>r\<in>set (connectors w). cn_id r \<noteq> cn_id row) unique_violation) (\<lambda>_.
        bindE (constraintE (org_exists (cn_organization_id row)) foreign_key_violation) (\<lambda>_.
        modifyE (\<lambda>w. w\<lparr>connectors := connectors w @ [row]\<rparr>)))))"

definition insert_skill_connector :: "skill_connector_row \<Rightarrow> (err, 'w command_world_scheme, unit) op" where
  "insert_skill_connector row =
     bindE (getsE (\<lambda>w. \<exists>r\<in>set (skill_connectors w). kc_organization_id r = kc_organization_id row \<and>
       kc_skill_id r = kc_skill_id row \<and> kc_connector_key r = kc_connector_key row)) (\<lambda>conflict.
     whenE (\<not> conflict)
       (bindE (constraintE (org_exists (kc_organization_id row)) foreign_key_violation) (\<lambda>_.
        modifyE (\<lambda>w. w\<lparr>skill_connectors := skill_connectors w @ [row]\<rparr>))))"

definition insert_approval :: "approval_row \<Rightarrow> (err, 'w command_world_scheme, unit) op" where
  "insert_approval row =
     bindE (constraintE (\<lambda>w. \<forall>r\<in>set (approvals w). ap_id r \<noteq> ap_id row) unique_violation) (\<lambda>_.
     bindE (constraintE (\<lambda>w. org_exists (ap_organization_id row) w \<and> user_exists (ap_requested_by row) w \<and>
         (case ap_decided_by row of None \<Rightarrow> True | Some u \<Rightarrow> user_exists u w)) foreign_key_violation) (\<lambda>_.
     modifyE (\<lambda>w. w\<lparr>approvals := approvals w @ [row]\<rparr>)))"

text \<open>\<open>now()\<close>.\<close>

definition nowE :: "'a env_scheme \<Rightarrow> (err, 'w world_scheme, int) op" where
  "nowE E = drawE (clock E)"

text \<open>\<open>ROLLBACK\<close> of a transaction that touches the schemas \<open>audit\<close>, \<open>auth\<close> and \<open>command\<close>.\<close>

definition restore_command :: "'w command_world_scheme \<Rightarrow> 'w command_world_scheme \<Rightarrow> 'w command_world_scheme" where
  "restore_command old new = (restore_auth old new)
     \<lparr>policies := policies old, policy_bindings := policy_bindings old, models := models old,
      skill_policies := skill_policies old, skill_policy_roles := skill_policy_roles old,
      connectors := connectors old, skill_connectors := skill_connectors old, approvals := approvals old,
      connector_actions := connector_actions old\<rparr>"

end
