(* ===== verification/Command.thy ===== *)
theory Command
  imports CommandStore
begin

text \<open>
  \<open>packages/command/src\<close>: the policy decision point.  \<open>evaluatePolicy\<close> and \<open>evaluateConnectorAction\<close>
  read the tables and answer with a decision; the answer as a function of the state is the verdict, and
  the operation adds the clock.  Approvals are the one part with a life cycle: a pending approval is
  decided at most once.
\<close>

record policy_ref =
  pr_id :: "id option"
  pr_version :: "string option"

record policy_decision =
  pd_decision :: policy_decision_value
  pd_reason_code :: string
  pd_policy_id :: "id option"
  pd_policy_version :: "string option"
  pd_evaluated_at :: string
  pd_constraints :: json

datatype verdict = Verdict policy_decision_value string policy_ref json

definition decision :: "'a env_scheme \<Rightarrow> verdict \<Rightarrow> (err, 'w world_scheme, policy_decision) op" where
  "decision E v =
     (case v of Verdict value reason policy constraints \<Rightarrow>
        bindE (nowE E) (\<lambda>now.
        ret \<lparr>pd_decision = value, pd_reason_code = reason, pd_policy_id = pr_id policy,
          pd_policy_version = pr_version policy, pd_evaluated_at = iso_string now,
          pd_constraints = constraints\<rparr>))"

fun permitted_up_to_internal :: "data_classification \<Rightarrow> bool" where
  "permitted_up_to_internal Public = True"
| "permitted_up_to_internal Internal = True"
| "permitted_up_to_internal Confidential = False"
| "permitted_up_to_internal Restricted = False"

definition DEFAULT_POLICY_RULES :: policy_rules where
  "DEFAULT_POLICY_RULES = \<lparr>leave_device = permitted_up_to_internal, cloud_models = permitted_up_to_internal\<rparr>"

datatype policy_action =
    SkillUse string data_classification risk_tier
  | KnowledgeRead data_classification
  | ModelProcess data_classification deployment_type risk_tier risk_tier
  | LeaveDevice data_classification
  | ConnectorUse string data_classification
  | ApprovalDecide id

record evaluate_input =
  ei_organizationId :: id
  ei_actorId :: id
  ei_roleId :: id
  ei_action :: policy_action

subsection \<open>The active policy\<close>

text \<open>\<open>ORDER BY b.skill_id NULLS LAST\<close>.\<close>

definition nulls_last :: "string option \<Rightarrow> bool \<times> string" where
  "nulls_last x = (case x of None \<Rightarrow> (True, '''') | Some s \<Rightarrow> (False, s))"

definition active_bindings ::
    "id \<Rightarrow> (string option \<Rightarrow> bool) \<Rightarrow> 'w command_world_scheme \<Rightarrow> (binding_row \<times> policy_row) list" where
  "active_bindings org applies w =
     sort_key (\<lambda>(b, p). nulls_last (pb_skill_id b))
       [(b, p). b \<leftarrow> policy_bindings w, pb_organization_id b = org \<and> applies (pb_skill_id b),
          p \<leftarrow> policies w, po_id p = pb_policy_id b \<and> po_active p]"

definition loadActivePolicy :: "id \<Rightarrow> string option \<Rightarrow> 'w command_world_scheme \<Rightarrow> policy_row option" where
  "loadActivePolicy org skillId w =
     map_option snd (first_row (active_bindings org (\<lambda>s. s = None \<or> (skillId \<noteq> None \<and> s = skillId)) w))"

definition ref_of :: "policy_row option \<Rightarrow> policy_ref" where
  "ref_of policy =
     (case policy of None \<Rightarrow> \<lparr>pr_id = None, pr_version = None\<rparr>
      | Some p \<Rightarrow> \<lparr>pr_id = Some (po_id p), pr_version = Some (show_int (po_version p))\<rparr>)"

text \<open>\<open>skill_policies JOIN skill_policy_roles\<close> for a skill and a role.\<close>

definition skill_grants :: "id \<Rightarrow> string \<Rightarrow> id \<Rightarrow> 'w command_world_scheme \<Rightarrow> skill_policy_row list" where
  "skill_grants org skill role w =
     [s. s \<leftarrow> skill_policies w, sp_organization_id s = org \<and> sp_skill_id s = skill,
         r \<leftarrow> skill_policy_roles w, kr_skill_policy_id r = sp_id s \<and> kr_role_id r = role]"

subsection \<open>The decisions\<close>

fun action_skill :: "policy_action \<Rightarrow> string option" where
  "action_skill (SkillUse skill c r) = Some skill"
| "action_skill (KnowledgeRead c) = Some ''knowledge.retrieve''"
| "action_skill (ModelProcess c d m r) = Some ''models.route''"
| "action_skill (ApprovalDecide i) = Some ''approvals.decide''"
| "action_skill (ConnectorUse k c) = Some (''connector.'' @ k)"
| "action_skill (LeaveDevice c) = None"

definition allowed_code :: string where
  "allowed_code = ''ROLE_AND_CLASSIFICATION_ALLOWED''"

definition connector_verdict ::
    "policy_ref \<Rightarrow> id \<Rightarrow> string \<Rightarrow> data_classification \<Rightarrow> 'w command_world_scheme \<Rightarrow> verdict" where
  "connector_verdict ref org key c w =
     (case find (\<lambda>r. cn_organization_id r = org \<and> cn_connector_key r = key) (connectors w) of
        None \<Rightarrow> Verdict Deny ''CONNECTOR_DISABLED'' ref (JObj [])
      | Some row \<Rightarrow>
          if \<not> cn_enabled row then Verdict Deny ''CONNECTOR_DISABLED'' ref (JObj [])
          else if c \<notin> set (cn_allowed_data_classes row)
          then Verdict Deny ''CLASSIFICATION_BLOCKED'' ref (JObj [])
          else Verdict Allow ''CONNECTOR_ALLOWED'' ref (JObj []))"

definition approval_verdict ::
    "policy_ref \<Rightarrow> id \<Rightarrow> id \<Rightarrow> id \<Rightarrow> id \<Rightarrow> 'w command_world_scheme \<Rightarrow> verdict" where
  "approval_verdict ref org actor role approvalId w =
     (if skill_grants org ''approvals.decide'' role w = []
      then Verdict Deny ''APPROVER_UNAUTHORIZED'' ref (JObj [])
      else case find (\<lambda>a. ap_id a = approvalId) (approvals w) of
        None \<Rightarrow> Verdict Deny ''CROSS_ORGANIZATION_DENIED'' ref (JObj [])
      | Some row \<Rightarrow>
          if ap_organization_id row \<noteq> org
          then Verdict Deny ''CROSS_ORGANIZATION_DENIED'' ref (JObj [])
          else if ap_requested_by row = actor
          then Verdict Deny ''APPROVER_UNAUTHORIZED'' ref (JObj [(''self_approval'', JBool False)])
          else Verdict Allow allowed_code ref (JObj []))"

definition skill_verdict ::
    "policy_ref \<Rightarrow> id \<Rightarrow> id \<Rightarrow> string \<Rightarrow> data_classification \<Rightarrow> risk_tier \<Rightarrow> 'w command_world_scheme \<Rightarrow> verdict"
  where
  "skill_verdict ref org role skillKey classification riskTier w =
     (case skill_grants org skillKey role w of
        [] \<Rightarrow> Verdict Deny ''ROLE_DENIED'' ref (JObj [])
      | allowed # _ \<Rightarrow>
          if CLASSIFICATION_RANK classification > CLASSIFICATION_RANK (sp_classification_ceiling allowed)
          then Verdict Deny ''CLASSIFICATION_DENIED'' ref (JObj [])
          else if RISK_RANK riskTier > RISK_RANK (sp_risk_ceiling allowed)
          then Verdict Deny ''SKILL_DENIED'' ref (JObj [])
          else if sp_requires_approval allowed
          then Verdict NeedsApproval ''APPROVAL_REQUIRED'' ref (JObj [(''skill_id'', JStr skillKey)])
          else Verdict Allow allowed_code ref (JObj []))"

definition policy_verdict :: "evaluate_input \<Rightarrow> 'w command_world_scheme \<Rightarrow> verdict" where
  "policy_verdict input w =
     (let org = ei_organizationId input; found = loadActivePolicy org (action_skill (ei_action input)) w;
          ref = ref_of found in
      case found of
        None \<Rightarrow> Verdict Deny ''DENY_DEFAULT'' ref (JObj [])
      | Some policy \<Rightarrow>
         (case ei_action input of
            LeaveDevice c \<Rightarrow>
              if \<not> leave_device (po_rules policy) c
              then Verdict Deny ''CLASSIFICATION_DENIED'' ref (JObj [(''leave_device'', JBool False)])
              else Verdict Allow allowed_code ref (JObj [])
          | ConnectorUse key c \<Rightarrow> connector_verdict ref org key c w
          | ApprovalDecide i \<Rightarrow> approval_verdict ref org (ei_actorId input) (ei_roleId input) i w
          | ModelProcess c deployment ceiling requested \<Rightarrow>
              if RISK_RANK requested > RISK_RANK ceiling
              then Verdict Deny ''MODEL_DENIED'' ref (JObj [(''reason'', JStr ''MODEL_RISK_CEILING_EXCEEDED'')])
              else if deployment = Cloud \<and> \<not> cloud_models (po_rules policy) c
              then Verdict Deny ''CLASSIFICATION_DENIED'' ref (JObj [(''cloud_models'', JBool False)])
              else Verdict Allow allowed_code ref (JObj [])
          | SkillUse skill c r \<Rightarrow> skill_verdict ref org (ei_roleId input) skill c r w
          | KnowledgeRead c \<Rightarrow>
              skill_verdict ref org (ei_roleId input) ''knowledge.retrieve'' c Low w))"

definition evaluatePolicy ::
    "'a env_scheme \<Rightarrow> evaluate_input \<Rightarrow> (err, 'w command_world_scheme, policy_decision) op" where
  "evaluatePolicy E input = bindE (getsE (policy_verdict input)) (decision E)"

subsection \<open>Connector actions (\<open>connectors.ts\<close>)\<close>

record connector_input =
  ci_organizationId :: id
  ci_actorId :: id
  ci_roleId :: id
  ci_skillId :: string
  ci_connectorKey :: string
  ci_action :: string
  ci_classification :: data_classification
  ci_approvalStatus :: "string option"
  ci_approvalArtifactHash :: "string option"
  ci_requestedArtifactHash :: string

definition getConnector :: "id \<Rightarrow> id \<Rightarrow> (err, 'w command_world_scheme, connector_row option) op" where
  "getConnector org connectorId = getsE (\<lambda>w.
     find (\<lambda>r. cn_organization_id r = org \<and> cn_id r = connectorId) (connectors w))"

definition getConnectorByType :: "id \<Rightarrow> string \<Rightarrow> (err, 'w command_world_scheme, connector_row option) op" where
  "getConnectorByType org connectorType = getsE (\<lambda>w. first_row
     (sort_key (\<lambda>r. - cn_created_at r)
       (filter (\<lambda>r. cn_organization_id r = org \<and> cn_connector_type r = connectorType) (connectors w))))"

text \<open>An optional string that is missing or empty is falsy.\<close>

definition truthy :: "string option \<Rightarrow> bool" where
  "truthy x \<longleftrightarrow> x \<noteq> None \<and> x \<noteq> Some ''''"

definition approval_gate :: "policy_ref \<Rightarrow> connector_input \<Rightarrow> verdict option" where
  "approval_gate ref input =
     (if \<not> truthy (ci_approvalStatus input) then Some (Verdict Deny ''APPROVAL_MISSING'' ref (JObj []))
      else if ci_approvalStatus input \<noteq> Some ''approved''
      then Some (Verdict Deny ''APPROVAL_MISSING'' ref
        (JObj [(''approval_status'', JStr (case ci_approvalStatus input of None \<Rightarrow> '''' | Some s \<Rightarrow> s))]))
      else if \<not> truthy (ci_approvalArtifactHash input) \<or>
          ci_approvalArtifactHash input \<noteq> Some (ci_requestedArtifactHash input)
      then Some (Verdict Deny ''APPROVAL_ARTIFACT_MISMATCH'' ref (JObj []))
      else None)"

definition connector_action_verdict :: "connector_input \<Rightarrow> 'w command_world_scheme \<Rightarrow> verdict" where
  "connector_action_verdict input w =
     (let org = ci_organizationId input;
          ref = ref_of (map_option snd (first_row (active_bindings org (\<lambda>_. True) w))) in
      case find (\<lambda>r. cn_organization_id r = org \<and> cn_connector_key r = ci_connectorKey input) (connectors w) of
        None \<Rightarrow> Verdict Deny ''CONNECTOR_DISABLED'' ref (JObj [])
      | Some row \<Rightarrow>
          let here = JObj [(''connector_id'', JStr (cn_id row))] in
          if \<not> cn_enabled row then Verdict Deny ''CONNECTOR_DISABLED'' ref here
          else if ci_classification input \<notin> set (cn_allowed_data_classes row)
          then Verdict Deny ''CLASSIFICATION_BLOCKED'' ref here
          else if (case find (\<lambda>k. kc_organization_id k = org \<and> kc_skill_id k = ci_skillId input \<and>
                kc_connector_key k = ci_connectorKey input) (skill_connectors w) of
              None \<Rightarrow> True
            | Some k \<Rightarrow> kc_actions k \<noteq> [] \<and> ci_action input \<notin> set (kc_actions k))
          then Verdict Deny ''CONNECTOR_NOT_ALLOWED_FOR_SKILL'' ref (JObj [(''skill_id'', JStr (ci_skillId input))])
          else if skill_grants org (ci_skillId input) (ci_roleId input) w = []
          then Verdict Deny ''ACTOR_NOT_AUTHORIZED'' ref (JObj [])
          else case (if cn_requires_approval row then approval_gate ref input else None) of
              Some denied \<Rightarrow> denied
            | None \<Rightarrow> Verdict Allow ''CONNECTOR_ALLOWED'' ref
                (JObj [(''connector_id'', JStr (cn_id row)), (''action'', JStr (ci_action input))]))"

definition evaluateConnectorAction ::
    "'a env_scheme \<Rightarrow> connector_input \<Rightarrow> (err, 'w command_world_scheme, policy_decision) op" where
  "evaluateConnectorAction E input = bindE (getsE (connector_action_verdict input)) (decision E)"

subsection \<open>Policies and approvals\<close>

definition getPolicy :: "id \<Rightarrow> id \<Rightarrow> (err, 'w command_world_scheme, policy_row option) op" where
  "getPolicy org policyId = getsE (\<lambda>w.
     find (\<lambda>p. po_organization_id p = org \<and> po_id p = policyId) (policies w))"

definition listPolicies :: "id \<Rightarrow> (err, 'w command_world_scheme, policy_row list) op" where
  "listPolicies org = getsE (\<lambda>w. sort_key (\<lambda>p. (po_name p, - po_version p))
     (filter (\<lambda>p. po_organization_id p = org) (policies w)))"

record create_approval_input =
  ka_organizationId :: id
  ka_executionId :: id
  ka_skillId :: string
  ka_requestedBy :: id
  ka_artifactHash :: "string option"

definition createApproval ::
    "'a env_scheme \<Rightarrow> create_approval_input \<Rightarrow> (err, 'w command_world_scheme, id) op" where
  "createApproval E input =
     bindE (drawE (randomUUID E)) (\<lambda>i.
     bindE (nowE E) (\<lambda>now.
     bindE (insert_approval \<lparr>ap_id = i, ap_organization_id = ka_organizationId input,
       ap_execution_id = ka_executionId input, ap_skill_id = ka_skillId input,
       ap_requested_by = ka_requestedBy input, ap_decided_by = None, ap_status = Pending,
       ap_reason_code = None, ap_artifact_hash = ka_artifactHash input, ap_created_at = now,
       ap_decided_at = None\<rparr>) (\<lambda>_.
     ret i)))"

definition getApproval :: "id \<Rightarrow> id \<Rightarrow> (err, 'w command_world_scheme, approval_row option) op" where
  "getApproval org approvalId = getsE (\<lambda>w.
     find (\<lambda>a. ap_id a = approvalId \<and> ap_organization_id a = org) (approvals w))"

text \<open>Despite its name this is the newest approval of the execution, whatever its status.\<close>

definition getPendingApprovalForExecution ::
    "id \<Rightarrow> id \<Rightarrow> (err, 'w command_world_scheme, approval_row option) op" where
  "getPendingApprovalForExecution org executionId = getsE (\<lambda>w. first_row
     (sort_key (\<lambda>a. - ap_created_at a)
       (filter (\<lambda>a. ap_organization_id a = org \<and> ap_execution_id a = executionId) (approvals w))))"

definition approval_not_pending :: err where
  "approval_not_pending = PlainError ''approval not pending''"

definition decided :: "id \<times> bool \<times> int \<Rightarrow> approval_row \<Rightarrow> approval_row" where
  "decided = (\<lambda>(decidedBy, ok, now) a. a\<lparr>ap_status := if ok then Approved else Denied,
     ap_decided_by := Some decidedBy, ap_decided_at := Some now,
     ap_reason_code := Some (if ok then ''APPROVED'' else ''DENIED'')\<rparr>)"

definition decideApproval ::
    "'a env_scheme \<Rightarrow> id \<Rightarrow> id \<Rightarrow> id \<Rightarrow> bool \<Rightarrow> (err, 'w command_world_scheme, unit) op" where
  "decideApproval E org approvalId decidedBy ok =
     (let sel = (\<lambda>a. ap_id a = approvalId \<and> ap_organization_id a = org \<and> ap_status a = Pending) in
      bindE (nowE E) (\<lambda>now.
      bindE (getsE (\<lambda>w. count_where sel (approvals w))) (\<lambda>rowCount.
      bindE (constraintE (\<lambda>w. rowCount > 0 \<longrightarrow> user_exists decidedBy w) foreign_key_violation) (\<lambda>_.
      bindE (modifyE (\<lambda>w. w\<lparr>approvals := update_where sel (decided (decidedBy, ok, now)) (approvals w)\<rparr>)) (\<lambda>_.
      requireE (rowCount = 1) approval_not_pending)))))"

subsection \<open>The defaults of a new organization\<close>

record skill_seed =
  ks_skillId :: string
  ks_approval :: bool
  ks_classification :: data_classification
  ks_risk :: risk_tier
  ks_roles :: "id list"

definition default_skills :: "id \<Rightarrow> id \<Rightarrow> skill_seed list" where
  "default_skills admin member =
     map (\<lambda>(skill, approval, c, r, everyone). \<lparr>ks_skillId = skill, ks_approval = approval,
         ks_classification = c, ks_risk = r, ks_roles = (if everyone then [admin, member] else [admin])\<rparr>)
       [(''knowledge.retrieve'', False, Restricted, High, True),
        (''knowledge.manage'', False, Restricted, High, False),
        (''nova.use'', False, Internal, Medium, True),
        (''nova.social.draft'', True, Internal, Medium, True),
        (''nova.research'', False, Internal, Medium, True),
        (''nova.drafting'', False, Internal, Medium, True),
        (''models.route'', False, Restricted, High, True),
        (''audit.export'', True, Restricted, High, False),
        (''approvals.decide'', False, Restricted, High, False)]"

definition seed_skill :: "'a env_scheme \<Rightarrow> id \<Rightarrow> skill_seed \<Rightarrow> (err, 'w command_world_scheme, unit) op" where
  "seed_skill E org skill =
     bindE (drawE (randomUUID E)) (\<lambda>skillPolicyId.
     bindE (insert_skill_policy \<lparr>sp_id = skillPolicyId, sp_organization_id = org,
       sp_skill_id = ks_skillId skill, sp_requires_approval = ks_approval skill,
       sp_classification_ceiling = ks_classification skill, sp_risk_ceiling = ks_risk skill\<rparr>) (\<lambda>_.
     forE (\<lambda>roleId. insert_skill_role \<lparr>kr_skill_policy_id = skillPolicyId, kr_role_id = roleId,
       kr_organization_id = org\<rparr>) (ks_roles skill)))"

definition seedDefaultCommand ::
    "'a env_scheme \<Rightarrow> id \<Rightarrow> id \<Rightarrow> id \<Rightarrow> (err, 'w command_world_scheme, id) op" where
  "seedDefaultCommand E org admin member =
     bindE (drawE (randomUUID E)) (\<lambda>policyId.
     bindE (nowE E) (\<lambda>now.
     bindE (insert_policy \<lparr>po_id = policyId, po_organization_id = org, po_name = ''default'',
       po_version = 1, po_active = True, po_rules = DEFAULT_POLICY_RULES, po_created_at = now\<rparr>) (\<lambda>_.
     bindE (drawE (randomUUID E)) (\<lambda>bindingId.
     bindE (insert_binding \<lparr>pb_id = bindingId, pb_organization_id = org, pb_policy_id = policyId,
       pb_skill_id = None\<rparr>) (\<lambda>_.
     bindE (forE (seed_skill E org) (default_skills admin member)) (\<lambda>_.
     bindE (drawE (randomUUID E)) (\<lambda>modelId.
     bindE (nowE E) (\<lambda>now2.
     bindE (insert_model \<lparr>md_id = modelId, md_organization_id = org, md_model_key = ''mock-local'',
       md_provider = MockProvider, md_deployment_type = Local, md_endpoint = None,
       md_capabilities = [''chat'', ''retrieve''],
       md_allowed_data_classes = [Public, Internal, Confidential, Restricted],
       md_risk_ceiling = High, md_requires_internet = False, md_enabled = True,
       md_created_at = now2\<rparr>) (\<lambda>_.
     bindE (drawE (randomUUID E)) (\<lambda>connectorId.
     bindE (nowE E) (\<lambda>now3.
     bindE (insert_connector \<lparr>cn_id = connectorId, cn_organization_id = org,
       cn_connector_key = ''meta.facebook'', cn_connector_type = ''meta.facebook'', cn_version = ''1.0.0'',
       cn_enabled = False, cn_allowed_data_classes = [Public, Internal], cn_secret_ref = None,
       cn_page_config = JObj [], cn_capabilities = [''publish_post'', ''schedule_post'', ''health''],
       cn_requires_approval = True, cn_created_at = now3\<rparr>) (\<lambda>_.
     bindE (insert_skill_connector \<lparr>kc_organization_id = org, kc_skill_id = ''nova.social.draft'',
       kc_connector_key = ''meta.facebook'', kc_actions = [''publish_post'', ''schedule_post'']\<rparr>) (\<lambda>_.
     ret policyId)))))))))))))"

subsection \<open>The invariant of the tables\<close>

definition command_inv :: "'w command_world_scheme \<Rightarrow> bool" where
  "command_inv w \<longleftrightarrow>
     distinct (map po_id (policies w)) \<and>
     distinct (map (\<lambda>s. (sp_organization_id s, sp_skill_id s)) (skill_policies w)) \<and>
     distinct (map sp_id (skill_policies w)) \<and>
     distinct (map (\<lambda>r. (kr_skill_policy_id r, kr_role_id r)) (skill_policy_roles w)) \<and>
     distinct (map (\<lambda>r. (cn_organization_id r, cn_connector_key r)) (connectors w)) \<and>
     distinct (map (\<lambda>r. (kc_organization_id r, kc_skill_id r, kc_connector_key r)) (skill_connectors w)) \<and>
     distinct (map ap_id (approvals w)) \<and>
     (\<forall>b\<in>set (policy_bindings w). \<exists>p\<in>set (policies w). po_id p = pb_policy_id b \<and>
        po_organization_id p = pb_organization_id b)"

lemma command_inv_empty: "command_inv empty_command"
  by (simp add: command_inv_def empty_command_def auth_world.defs)

lemma command_inv_draws [simp]: "command_inv (w\<lparr>draws := n\<rparr>) = command_inv w"
  by (simp add: command_inv_def)

lemma pres_draw_command [pres]: "preserves command_inv (drawE f)"
  by (simp add: preserves_def drawE_def)

lemma pres_nowE [pres]: "preserves command_inv (nowE E)"
  unfolding nowE_def by (intro pres)

lemma pres_command_inserts [pres]:
  "preserves command_inv (insert_policy p)"
  "preserves command_inv (insert_binding b)"
  "preserves command_inv (insert_model m)"
  "preserves command_inv (insert_skill_policy s)"
  "preserves command_inv (insert_skill_role r)"
  "preserves command_inv (insert_connector c)"
  "preserves command_inv (insert_skill_connector k)"
  "preserves command_inv (insert_approval a)"
  by (auto simp: preserves_def insert_policy_def insert_binding_def insert_model_def insert_skill_policy_def
      insert_skill_role_def insert_connector_def insert_skill_connector_def insert_approval_def run
      command_inv_def)

interpretation approvals_table: keyed_table ap_id decided
  by unfold_locales (auto simp: decided_def)

lemma pres_createApproval [pres]: "preserves command_inv (createApproval E input)"
  unfolding createApproval_def by (intro pres)

lemma pres_decideApproval [pres]: "preserves command_inv (decideApproval E org i u ok)"
  unfolding decideApproval_def Let_def
  by (intro pres) (simp add: command_inv_def approvals_table.keys_update)

lemma pres_decision [pres]: "preserves command_inv (decision E v)"
  unfolding decision_def by (cases v) (simp, intro pres)

lemma pres_evaluate [pres]:
  "preserves command_inv (evaluatePolicy E i)" "preserves command_inv (evaluateConnectorAction E c)"
  unfolding evaluatePolicy_def evaluateConnectorAction_def by (intro pres)+

lemma pres_seed [pres]: "preserves command_inv (seedDefaultCommand E org admin member)"
  unfolding seedDefaultCommand_def seed_skill_def by (intro pres)

subsection \<open>Verdicts\<close>

lemma decision_run: "decision E (Verdict v reason ref c) w = (Inr \<lparr>pd_decision = v, pd_reason_code = reason,
    pd_policy_id = pr_id ref, pd_policy_version = pr_version ref,
    pd_evaluated_at = iso_string (clock E (draws w)), pd_constraints = c\<rparr>, w\<lparr>draws := Suc (draws w)\<rparr>)"
  by (simp add: decision_def nowE_def run)

fun verdict_value :: "verdict \<Rightarrow> policy_decision_value" where
  "verdict_value (Verdict v reason ref c) = v"

lemma evaluatePolicy_value:
  "\<exists>d. evaluatePolicy E input w = (Inr d, w\<lparr>draws := Suc (draws w)\<rparr>) \<and>
     pd_decision d = verdict_value (policy_verdict input w)"
  by (cases "policy_verdict input w") (simp add: evaluatePolicy_def run decision_run)

lemma evaluateConnectorAction_value:
  "\<exists>d. evaluateConnectorAction E input w = (Inr d, w\<lparr>draws := Suc (draws w)\<rparr>) \<and>
     pd_decision d = verdict_value (connector_action_verdict input w)"
  by (cases "connector_action_verdict input w") (simp add: evaluateConnectorAction_def run decision_run)

text \<open>What a grant of a skill to a role is, as a relation on the tables.\<close>

definition granted :: "id \<Rightarrow> string \<Rightarrow> id \<Rightarrow> 'w command_world_scheme \<Rightarrow> skill_policy_row \<Rightarrow> bool" where
  "granted org skill role w s \<longleftrightarrow> s \<in> set (skill_policies w) \<and> sp_organization_id s = org \<and>
     sp_skill_id s = skill \<and> (\<exists>r\<in>set (skill_policy_roles w). kr_skill_policy_id r = sp_id s \<and> kr_role_id r = role)"

lemma skill_grants_granted: "s \<in> set (skill_grants org skill role w) \<longleftrightarrow> granted org skill role w s"
  by (auto simp: skill_grants_def granted_def)

lemma granted_unique: "command_inv w \<Longrightarrow> granted org skill role w s \<Longrightarrow> granted org skill role w t \<Longrightarrow> s = t"
  unfolding granted_def command_inv_def by (metis (no_types, lifting) key_eq)

lemma grants_cases:
  assumes "command_inv w"
  obtains (none) "skill_grants org skill role w = []" "\<And>s. \<not> granted org skill role w s"
  | (one) s rest where "skill_grants org skill role w = s # rest" "granted org skill role w s"
      "\<And>t. granted org skill role w t \<Longrightarrow> t = s"
proof (cases "skill_grants org skill role w")
  case Nil
  then show ?thesis using none skill_grants_granted [of _ org skill role w] by simp
next
  case (Cons s rest)
  then have "granted org skill role w s" using skill_grants_granted [of s org skill role w] by simp
  then show ?thesis using one [OF Cons] granted_unique [OF assms] by blast
qed

definition policy_applies :: "id \<Rightarrow> string option \<Rightarrow> 'w command_world_scheme \<Rightarrow> bool" where
  "policy_applies org skill w \<longleftrightarrow> (\<exists>b\<in>set (policy_bindings w). pb_organization_id b = org \<and>
     (pb_skill_id b = None \<or> (skill \<noteq> None \<and> pb_skill_id b = skill)) \<and>
     (\<exists>p\<in>set (policies w). po_id p = pb_policy_id b \<and> po_active p))"

lemma first_row_Some_iff: "(\<exists>x. first_row xs = Some x) \<longleftrightarrow> xs \<noteq> []"
  by (cases xs) auto

lemma active_bindings_mem: "(b, p) \<in> set (active_bindings org applies w) \<longleftrightarrow>
    b \<in> set (policy_bindings w) \<and> pb_organization_id b = org \<and> applies (pb_skill_id b) \<and>
    p \<in> set (policies w) \<and> po_id p = pb_policy_id b \<and> po_active p"
  by (auto simp: active_bindings_def)

lemma first_row_snd: "map_option snd (first_row xs) \<noteq> None \<longleftrightarrow> (\<exists>b p. (b, p) \<in> set xs)"
  by (cases xs) auto

lemma loadActivePolicy_applies: "loadActivePolicy org skill w \<noteq> None \<longleftrightarrow> policy_applies org skill w"
  unfolding loadActivePolicy_def first_row_snd active_bindings_mem policy_applies_def Bex_def
  by (simp only: ex_simps conj_assoc)

lemma skill_verdict_allow:
  assumes "command_inv w"
  shows "verdict_value (skill_verdict ref org role skill c r w) = Allow \<longleftrightarrow>
    (\<exists>s. granted org skill role w s \<and> c \<le> sp_classification_ceiling s \<and> r \<le> sp_risk_ceiling s \<and>
       \<not> sp_requires_approval s)"
proof (rule grants_cases [OF assms, of org skill role])
  assume "skill_grants org skill role w = []" "\<And>s. \<not> granted org skill role w s"
  then show ?thesis by (simp add: skill_verdict_def)
next
  fix s rest
  assume g: "skill_grants org skill role w = s # rest" "granted org skill role w s"
    and only: "\<And>t. granted org skill role w t \<Longrightarrow> t = s"
  have "verdict_value (skill_verdict ref org role skill c r w) = Allow \<longleftrightarrow>
      c \<le> sp_classification_ceiling s \<and> r \<le> sp_risk_ceiling s \<and> \<not> sp_requires_approval s"
    by (auto simp: skill_verdict_def g(1) not_less)
  then show ?thesis using g(2) only by blast
qed

subsection \<open>Properties of the decisions\<close>

text \<open>A skill may be used exactly when the tables say so.  The decision on \<open>skill.use\<close> is \<open>allow\<close>
  if and only if an active policy is bound to the organization (for the skill or for all skills), the
  skill is granted to the actor's role, the classification and the risk do not exceed the grant's
  ceilings, and the grant does not require approval.\<close>

theorem evaluatePolicy_skill_allowed:
  assumes "command_inv w"
  shows "(\<exists>d w'. evaluatePolicy E \<lparr>ei_organizationId = org, ei_actorId = actor, ei_roleId = role,
      ei_action = SkillUse skill c r\<rparr> w = (Inr d, w') \<and> pd_decision d = Allow) \<longleftrightarrow>
    policy_applies org (Some skill) w \<and>
    (\<exists>s. granted org skill role w s \<and> c \<le> sp_classification_ceiling s \<and> r \<le> sp_risk_ceiling s \<and>
       \<not> sp_requires_approval s)"
proof -
  let ?i = "\<lparr>ei_organizationId = org, ei_actorId = actor, ei_roleId = role, ei_action = SkillUse skill c r\<rparr>"
  have "(\<exists>d w'. evaluatePolicy E ?i w = (Inr d, w') \<and> pd_decision d = Allow) \<longleftrightarrow>
      verdict_value (policy_verdict ?i w) = Allow"
    using evaluatePolicy_value [of E ?i w] by auto
  also have "\<dots> \<longleftrightarrow> loadActivePolicy org (Some skill) w \<noteq> None \<and>
      verdict_value (skill_verdict (ref_of (loadActivePolicy org (Some skill) w)) org role skill c r w) = Allow"
    by (auto simp: policy_verdict_def Let_def split: option.splits)
  finally show ?thesis
    unfolding skill_verdict_allow [OF assms] loadActivePolicy_applies .
qed

lemma approval_allow_separates:
  assumes "verdict_value (policy_verdict \<lparr>ei_organizationId = org, ei_actorId = actor, ei_roleId = role,
      ei_action = ApprovalDecide i\<rparr> w) = Allow"
  shows "\<exists>a\<in>set (approvals w). ap_id a = i \<and> ap_organization_id a = org \<and> ap_requested_by a \<noteq> actor \<and>
    (\<exists>s. granted org ''approvals.decide'' role w s) \<and> policy_applies org (Some ''approvals.decide'') w"
proof -
  have "loadActivePolicy org (Some ''approvals.decide'') w \<noteq> None"
    and v: "verdict_value (approval_verdict (ref_of (loadActivePolicy org (Some ''approvals.decide'') w))
      org actor role i w) = Allow"
    using assms by (auto simp: policy_verdict_def Let_def split: option.splits)
  moreover obtain a s where "find (\<lambda>a. ap_id a = i) (approvals w) = Some a" "ap_organization_id a = org"
      "ap_requested_by a \<noteq> actor" "s \<in> set (skill_grants org ''approvals.decide'' role w)"
    using v by (cases "skill_grants org ''approvals.decide'' role w")
      (auto simp: approval_verdict_def split: option.splits if_splits)
  ultimately show ?thesis
    using find_SomeD [of "\<lambda>a. ap_id a = i" "approvals w" a] skill_grants_granted
    unfolding loadActivePolicy_applies by blast
qed

text \<open>An approval can be decided only by a third party of the same organization.  When the decision on
  \<open>approval.decide\<close> is \<open>allow\<close>, the approval exists in the actor's organization, was requested by somebody
  else, and the actor's role holds the skill \<open>approvals.decide\<close>.\<close>

theorem evaluatePolicy_approval_separation:
  assumes "evaluatePolicy E \<lparr>ei_organizationId = org, ei_actorId = actor, ei_roleId = role,
      ei_action = ApprovalDecide i\<rparr> w = (Inr d, w')" and "pd_decision d = Allow"
  shows "\<exists>a\<in>set (approvals w). ap_id a = i \<and> ap_organization_id a = org \<and> ap_requested_by a \<noteq> actor \<and>
    (\<exists>s. granted org ''approvals.decide'' role w s) \<and> policy_applies org (Some ''approvals.decide'') w"
  using evaluatePolicy_value [of E "\<lparr>ei_organizationId = org, ei_actorId = actor, ei_roleId = role,
      ei_action = ApprovalDecide i\<rparr>" w] assms by (intro approval_allow_separates) auto

lemma find_by_keys:
  assumes "command_inv w"
  shows "find (\<lambda>r. cn_organization_id r = org \<and> cn_connector_key r = key) (connectors w) = Some k \<longleftrightarrow>
      k \<in> set (connectors w) \<and> cn_organization_id k = org \<and> cn_connector_key k = key"
    "find (\<lambda>k. kc_organization_id k = org \<and> kc_skill_id k = skill \<and> kc_connector_key k = key) (skill_connectors w) = Some b \<longleftrightarrow>
      b \<in> set (skill_connectors w) \<and> kc_organization_id b = org \<and> kc_skill_id b = skill \<and> kc_connector_key b = key"
  using assms find_by_key [of "\<lambda>r. (cn_organization_id r, cn_connector_key r)" "connectors w" "(org, key)" k]
    find_by_key [of "\<lambda>r. (kc_organization_id r, kc_skill_id r, kc_connector_key r)" "skill_connectors w"
      "(org, skill, key)" b]
  by (simp_all add: command_inv_def)

definition artifact_approved :: "connector_input \<Rightarrow> bool" where
  "artifact_approved input \<longleftrightarrow> ci_approvalStatus input = Some ''approved'' \<and>
     ci_requestedArtifactHash input \<noteq> [] \<and>
     ci_approvalArtifactHash input = Some (ci_requestedArtifactHash input)"

lemma approval_gate_cases:
  "approval_gate ref input = None \<longleftrightarrow> artifact_approved input"
  "approval_gate ref input = Some v \<Longrightarrow> verdict_value v = Deny"
  by (auto simp: approval_gate_def truthy_def artifact_approved_def split: if_splits)

lemma gate_allows:
  "verdict_value (case (if c then approval_gate ref input else None) of Some d \<Rightarrow> d
     | None \<Rightarrow> Verdict Allow reason ref j) = Allow \<longleftrightarrow> (c \<longrightarrow> artifact_approved input)"
  using approval_gate_cases [of ref input]
  by (cases "approval_gate ref input") (auto split: if_splits)

lemma connector_action_verdict_allow:
  "verdict_value (connector_action_verdict input w) = Allow \<longleftrightarrow>
    (\<exists>k. find (\<lambda>r. cn_organization_id r = ci_organizationId input \<and> cn_connector_key r = ci_connectorKey input)
         (connectors w) = Some k \<and> cn_enabled k \<and>
       ci_classification input \<in> set (cn_allowed_data_classes k) \<and>
       (cn_requires_approval k \<longrightarrow> artifact_approved input)) \<and>
    (\<exists>b. find (\<lambda>k. kc_organization_id k = ci_organizationId input \<and> kc_skill_id k = ci_skillId input \<and>
         kc_connector_key k = ci_connectorKey input) (skill_connectors w) = Some b \<and>
       (kc_actions b = [] \<or> ci_action input \<in> set (kc_actions b))) \<and>
    skill_grants (ci_organizationId input) (ci_skillId input) (ci_roleId input) w \<noteq> []"
  unfolding connector_action_verdict_def Let_def
  by (cases "find (\<lambda>r. cn_organization_id r = ci_organizationId input \<and> cn_connector_key r = ci_connectorKey input)
         (connectors w)";
      cases "find (\<lambda>k. kc_organization_id k = ci_organizationId input \<and> kc_skill_id k = ci_skillId input \<and>
         kc_connector_key k = ci_connectorKey input) (skill_connectors w)")
    (simp_all add: gate_allows if_distrib [of verdict_value])

text \<open>A connector action passes the gate exactly when every condition holds: the connector of the
  organization is enabled and takes the classification, it is bound to the skill for this action, the
  actor's role holds the skill, and, where the connector requires approval, an approved approval of
  exactly the requested artifact is presented.  No condition is on the organization's policy.\<close>

theorem evaluateConnectorAction_allowed:
  assumes "command_inv w"
  shows "(\<exists>d w'. evaluateConnectorAction E input w = (Inr d, w') \<and> pd_decision d = Allow) \<longleftrightarrow>
    (\<exists>k\<in>set (connectors w). cn_organization_id k = ci_organizationId input \<and>
       cn_connector_key k = ci_connectorKey input \<and> cn_enabled k \<and>
       ci_classification input \<in> set (cn_allowed_data_classes k) \<and>
       (cn_requires_approval k \<longrightarrow> artifact_approved input)) \<and>
    (\<exists>b\<in>set (skill_connectors w). kc_organization_id b = ci_organizationId input \<and>
       kc_skill_id b = ci_skillId input \<and> kc_connector_key b = ci_connectorKey input \<and>
       (kc_actions b = [] \<or> ci_action input \<in> set (kc_actions b))) \<and>
    (\<exists>s. granted (ci_organizationId input) (ci_skillId input) (ci_roleId input) w s)"
proof -
  have "(\<exists>d w'. evaluateConnectorAction E input w = (Inr d, w') \<and> pd_decision d = Allow) \<longleftrightarrow>
      verdict_value (connector_action_verdict input w) = Allow"
    using evaluateConnectorAction_value [of E input w] by auto
  moreover have "skill_grants org skill role w \<noteq> [] \<longleftrightarrow> (\<exists>s. granted org skill role w s)" for org skill role
    unfolding skill_grants_granted [symmetric] by (cases "skill_grants org skill role w") auto
  ultimately show ?thesis
    unfolding connector_action_verdict_allow find_by_keys [OF assms] by blast
qed

subsection \<open>The life of an approval\<close>

datatype approval_call = CreateApproval create_approval_input | DecideApproval id id id bool

fun approval_step :: "'a env_scheme \<Rightarrow> approval_call \<Rightarrow> 'w command_world_scheme \<Rightarrow> 'w command_world_scheme" where
  "approval_step E (CreateApproval i) = as_unit (createApproval E i)"
| "approval_step E (DecideApproval org i u ok) = as_unit (decideApproval E org i u ok)"

lemma decideApproval_run:
  "decideApproval E org i u ok w =
     (let sel = (\<lambda>a. ap_id a = i \<and> ap_organization_id a = org \<and> ap_status a = Pending);
          n = count_where sel (approvals w); now = clock E (draws w); w' = w\<lparr>draws := Suc (draws w)\<rparr> in
      if n > 0 \<and> \<not> user_exists u w then (Inl foreign_key_violation, w')
      else (if n = 1 then Inr () else Inl approval_not_pending,
            w'\<lparr>approvals := update_where sel (decided (u, ok, now)) (approvals w)\<rparr>))"
  by (auto simp: decideApproval_def Let_def run nowE_def user_exists_def)

lemma final_row_kept:
  "a \<in> set (approvals w) \<Longrightarrow> ap_status a \<noteq> Pending \<Longrightarrow> a \<in> set (approvals (approval_step E c w))"
  by (cases c) (auto simp: as_unit_def createApproval_def insert_approval_def nowE_def run decideApproval_run Let_def
      intro!: approvals_table.update_other)

lemma final_rows_kept:
  "a \<in> set (approvals w) \<Longrightarrow> ap_status a \<noteq> Pending \<Longrightarrow> a \<in> set (approvals (fold (approval_step E) cs w))"
  by (induction cs arbitrary: w) (auto intro: final_row_kept)

lemma approval_steps_inv: "command_inv w \<Longrightarrow> command_inv (fold (approval_step E) cs w)"
proof (induction cs arbitrary: w)
  case (Cons c cs)
  then show ?case by (cases c) (auto intro!: Cons.IH as_unit_inv pres)
qed simp

lemma count_where_none: "(\<And>r. r \<in> set rows \<Longrightarrow> \<not> p r) \<Longrightarrow> count_where p rows = 0"
  by (auto simp: count_where_def filter_empty_conv)

text \<open>C21: An approval is decided at most once.  Whatever calls create and decide approvals in between, a
  row that is no longer pending stays as it is, and any later attempt to decide it is refused and
  changes no approval.\<close>

theorem decided_approvals_are_final:
  assumes "command_inv w" and "a \<in> set (approvals w)" and "ap_status a \<noteq> Pending"
    and "v = fold (approval_step E) calls w"
  shows "a \<in> set (approvals v) \<and>
    (\<exists>v'. decideApproval E org (ap_id a) user ok v = (Inl approval_not_pending, v') \<and> approvals v' = approvals v)"
proof -
  have a: "a \<in> set (approvals v)" using final_rows_kept [OF assms(2,3)] assms(4) by simp
  have "command_inv v" using approval_steps_inv [OF assms(1)] assms(4) by simp
  then have "b = a" if "b \<in> set (approvals v)" "ap_id b = ap_id a" for b
    using key_eq [of ap_id "approvals v" b a] that a by (simp add: command_inv_def)
  then have none: "\<not> (ap_id b = ap_id a \<and> ap_organization_id b = org \<and> ap_status b = Pending)"
    if "b \<in> set (approvals v)" for b
    using that assms(3) by blast
  with a show ?thesis
    using count_where_none [of "approvals v", OF none] update_where_none [of "approvals v", OF none]
    by (simp add: decideApproval_run Let_def)
qed

text \<open>An organization without a policy.\<close>

definition open_connector_world :: command_world where
  "open_connector_world = (auth_world.extend sample_auth
     \<lparr>policies = [], policy_bindings = [], models = [],
      skill_policies = [\<lparr>sp_id = ''s1'', sp_organization_id = ''org'', sp_skill_id = ''nova.social.draft'',
        sp_requires_approval = True, sp_classification_ceiling = Internal, sp_risk_ceiling = Medium\<rparr>,
        \<lparr>sp_id = ''s2'', sp_organization_id = ''org'', sp_skill_id = ''approvals.decide'',
        sp_requires_approval = False, sp_classification_ceiling = Restricted, sp_risk_ceiling = High\<rparr>],
      skill_policy_roles = [\<lparr>kr_skill_policy_id = ''s1'', kr_role_id = ''r1'', kr_organization_id = ''org''\<rparr>,
        \<lparr>kr_skill_policy_id = ''s2'', kr_role_id = ''r1'', kr_organization_id = ''org''\<rparr>],
      connectors = [\<lparr>cn_id = ''c1'', cn_organization_id = ''org'', cn_connector_key = ''meta.facebook'',
        cn_connector_type = ''meta.facebook'', cn_version = ''1.0.0'', cn_enabled = True,
        cn_allowed_data_classes = [Public], cn_secret_ref = None, cn_page_config = JObj [],
        cn_capabilities = [''publish_post''], cn_requires_approval = True, cn_created_at = 0\<rparr>],
      skill_connectors = [\<lparr>kc_organization_id = ''org'', kc_skill_id = ''nova.social.draft'',
        kc_connector_key = ''meta.facebook'', kc_actions = [''publish_post'']\<rparr>],
      approvals = [\<lparr>ap_id = ''a1'', ap_organization_id = ''org'', ap_execution_id = ''e1'',
        ap_skill_id = ''nova.social.draft'', ap_requested_by = ''u1'', ap_decided_by = None,
        ap_status = Pending, ap_reason_code = None, ap_artifact_hash = Some ''h'', ap_created_at = 0,
        ap_decided_at = None\<rparr>, \<lparr>ap_id = ''a2'', ap_organization_id = ''org'', ap_execution_id = ''e2'',
        ap_skill_id = ''nova.social.draft'', ap_requested_by = ''u1'', ap_decided_by = Some ''u2'',
        ap_status = Denied, ap_reason_code = Some ''DENIED'', ap_artifact_hash = None, ap_created_at = 0,
        ap_decided_at = Some 1\<rparr>],
      connector_actions = []\<rparr>)"

definition open_connector_input :: connector_input where
  "open_connector_input = \<lparr>ci_organizationId = ''org'', ci_actorId = ''u1'', ci_roleId = ''r1'',
     ci_skillId = ''nova.social.draft'', ci_connectorKey = ''meta.facebook'', ci_action = ''publish_post'',
     ci_classification = Public, ci_approvalStatus = Some ''approved'', ci_approvalArtifactHash = Some ''h'',
     ci_requestedArtifactHash = ''h''\<rparr>"

text \<open>The connector gate does not consult the policy.  There is a state of the tables without any policy
  in which a connector action is allowed, with no policy named in the decision, although every other
  action is denied by default there.\<close>

theorem evaluateConnectorAction_without_policy:
  "\<exists>d w'. evaluateConnectorAction sample_env open_connector_input open_connector_world = (Inr d, w') \<and>
     pd_decision d = Allow \<and> pd_policy_id d = None \<and> policies open_connector_world = []"
  by (simp add: evaluateConnectorAction_def run connector_action_verdict_def open_connector_input_def
      open_connector_world_def auth_world.defs active_bindings_def skill_grants_def ref_of_def
      approval_gate_def truthy_def decision_run)

subsection \<open>Concrete decisions\<close>

definition sample_command :: command_world where
  "sample_command = open_connector_world
     \<lparr>policies := [\<lparr>po_id = ''p1'', po_organization_id = ''org'', po_name = ''default'', po_version = 1,
        po_active = True, po_rules = DEFAULT_POLICY_RULES, po_created_at = 0\<rparr>],
      policy_bindings := [\<lparr>pb_id = ''b1'', pb_organization_id = ''org'', pb_policy_id = ''p1'', pb_skill_id = None\<rparr>]\<rparr>"

lemma sample_command_inv: "command_inv sample_command" "command_inv open_connector_world"
  by (simp_all add: command_inv_def sample_command_def open_connector_world_def auth_world.defs)

lemma sample_command_tables:
  "skill_policies sample_command = skill_policies open_connector_world"
  "granted org skill role sample_command s \<longleftrightarrow> granted org skill role open_connector_world s"
  by (simp_all add: granted_def sample_command_def)

lemma sample_grants:
  "granted ''org'' ''nova.social.draft'' ''r1'' open_connector_world (skill_policies open_connector_world ! 0)"
  "granted ''org'' ''approvals.decide'' ''r1'' open_connector_world (skill_policies open_connector_world ! 1)"
  by (simp_all add: granted_def open_connector_world_def auth_world.defs)

lemma sample_policy_applies: "policy_applies ''org'' skill sample_command"
  by (simp add: policy_applies_def sample_command_def)

theorem evaluatePolicy_skill_allowed_witness:
  "\<not> (\<exists>d w'. evaluatePolicy sample_env \<lparr>ei_organizationId = ''org'', ei_actorId = ''u1'', ei_roleId = ''r1'',
      ei_action = SkillUse ''nova.social.draft'' Public Low\<rparr> sample_command = (Inr d, w') \<and> pd_decision d = Allow) \<and>
   (\<exists>d w'. evaluatePolicy sample_env \<lparr>ei_organizationId = ''org'', ei_actorId = ''u1'', ei_roleId = ''r1'',
      ei_action = SkillUse ''approvals.decide'' Restricted High\<rparr> sample_command = (Inr d, w') \<and> pd_decision d = Allow)"
proof -
  have "sp_requires_approval s" if "granted ''org'' ''nova.social.draft'' ''r1'' sample_command s" for s
    using granted_unique [OF sample_command_inv(2), of "''org''" "''nova.social.draft''" "''r1''" s, OF _ sample_grants(1)]
      that by (auto simp: sample_command_tables open_connector_world_def auth_world.defs)
  moreover have "\<exists>s. granted ''org'' ''approvals.decide'' ''r1'' sample_command s \<and>
      Restricted \<le> sp_classification_ceiling s \<and> High \<le> sp_risk_ceiling s \<and> \<not> sp_requires_approval s"
    using sample_grants(2) unfolding sample_command_tables
    by (intro exI [of _ "skill_policies open_connector_world ! 1"]) (simp add: open_connector_world_def auth_world.defs)
  ultimately show ?thesis
    unfolding evaluatePolicy_skill_allowed [OF sample_command_inv(1)] using sample_policy_applies by blast
qed

lemma sample_approval_allowed:
  "\<exists>d w'. evaluatePolicy sample_env \<lparr>ei_organizationId = ''org'', ei_actorId = ''u2'', ei_roleId = ''r1'',
      ei_action = ApprovalDecide ''a1''\<rparr> sample_command = (Inr d, w') \<and> pd_decision d = Allow"
  by (simp add: evaluatePolicy_def run policy_verdict_def loadActivePolicy_def active_bindings_def
      approval_verdict_def skill_grants_def decision_run sample_command_def open_connector_world_def auth_world.defs)

theorem evaluatePolicy_approval_separation_witness:
  "\<exists>a\<in>set (approvals sample_command). ap_id a = ''a1'' \<and> ap_requested_by a \<noteq> ''u2''"
proof -
  obtain d w' where "evaluatePolicy sample_env \<lparr>ei_organizationId = ''org'', ei_actorId = ''u2'', ei_roleId = ''r1'',
      ei_action = ApprovalDecide ''a1''\<rparr> sample_command = (Inr d, w')" "pd_decision d = Allow"
    using sample_approval_allowed by blast
  from evaluatePolicy_approval_separation [OF this] show ?thesis by blast
qed

theorem evaluateConnectorAction_allowed_witness:
  "(\<exists>d w'. evaluateConnectorAction sample_env open_connector_input sample_command = (Inr d, w') \<and>
     pd_decision d = Allow) \<and>
   \<not> (\<exists>d w'. evaluateConnectorAction sample_env (open_connector_input\<lparr>ci_requestedArtifactHash := ''other''\<rparr>)
     sample_command = (Inr d, w') \<and> pd_decision d = Allow)"
  unfolding evaluateConnectorAction_allowed [OF sample_command_inv(1)] sample_command_tables
  using exI [where P = "granted ''org'' ''nova.social.draft'' ''r1'' open_connector_world", OF sample_grants(1)]
  by (simp add: artifact_approved_def open_connector_input_def sample_command_def)
    (simp add: open_connector_world_def auth_world.defs)

theorem decided_approvals_are_final_witness:
  "\<exists>a v'. ap_status a = Denied \<and> decideApproval sample_env ''org'' ''a2'' ''u1'' True
     (fold (approval_step sample_env) [DecideApproval ''org'' ''a1'' ''u1'' True] sample_command) =
       (Inl approval_not_pending, v') \<and> a \<in> set (approvals v')"
proof -
  let ?a = "approvals sample_command ! 1"
  have a: "?a \<in> set (approvals sample_command)" "ap_status ?a \<noteq> Pending" "ap_id ?a = ''a2''" "ap_status ?a = Denied"
    by (simp_all add: sample_command_def open_connector_world_def auth_world.defs)
  from decided_approvals_are_final [OF sample_command_inv(1) a(1,2) refl, of sample_env
      "[DecideApproval ''org'' ''a1'' ''u1'' True]" "''org''" "''u1''" True]
  show ?thesis unfolding a(3) using a(4) by metis
qed

end
