(* ===== verification/Http.thy ===== *)
theory Http
  imports Command
begin

text \<open>
  What the services reach outside the database: property access on parsed JSON, \<open>String(x)\<close>, the two
  percent encodings of the URL standard, and \<open>fetch\<close>.  A provider is a parameter: a function of the
  number of requests sent so far and of the request.  The requests are recorded in \<open>sent\<close>, which is
  outside the database, so that no rollback removes them.  Parameters too are the platform's collation
  (\<open>localeCompare\<close>), its environment variables, and the two parsers of arbitrary date texts:
  JavaScript's (\<open>js_date\<close>, \<open>None\<close> is an invalid date) and PostgreSQL's cast to \<open>timestamptz\<close>.
\<close>

subsection \<open>JSON values as JavaScript reads them\<close>

definition type_error :: err where
  "type_error = PlainError ''TypeError''"

text \<open>\<open>x.key\<close>: a property of \<open>undefined\<close> or \<open>null\<close> throws, one that is absent is \<open>undefined\<close>.\<close>

fun js_get :: "string \<Rightarrow> json \<Rightarrow> err + json" where
  "js_get key JUndef = Inl type_error"
| "js_get key JNull = Inl type_error"
| "js_get key (JObj kvs) = Inr (case map_of kvs key of None \<Rightarrow> JUndef | Some v \<Rightarrow> v)"
| "js_get key v = Inr JUndef"

text \<open>\<open>x?.key\<close> and \<open>x ?? d\<close>.\<close>

definition nullish :: "json \<Rightarrow> bool" where
  "nullish v \<longleftrightarrow> v = JUndef \<or> v = JNull"

definition js_opt_get :: "string \<Rightarrow> json \<Rightarrow> json" where
  "js_opt_get key v = (case js_get key v of Inl _ \<Rightarrow> JUndef | Inr x \<Rightarrow> x)"

definition or_else :: "json \<Rightarrow> json \<Rightarrow> json" where
  "or_else v d = (if nullish v then d else v)"

text \<open>\<open>x[0]\<close> on a value that is an array, a string or an object.\<close>

fun js_first :: "json \<Rightarrow> err + json" where
  "js_first JUndef = Inl type_error"
| "js_first JNull = Inl type_error"
| "js_first (JArr vs) = Inr (case vs of [] \<Rightarrow> JUndef | v # _ \<Rightarrow> v)"
| "js_first (JStr s) = Inr (case s of [] \<Rightarrow> JUndef | c # _ \<Rightarrow> JStr [c])"
| "js_first (JObj kvs) = Inr (case map_of kvs ''0'' of None \<Rightarrow> JUndef | Some v \<Rightarrow> v)"
| "js_first v = Inr JUndef"

text \<open>\<open>String(x)\<close>; the elements of an array that are \<open>null\<close> or \<open>undefined\<close> are empty.\<close>

fun js_string :: "json \<Rightarrow> string" where
  "js_string JUndef = ''undefined''"
| "js_string JNull = ''null''"
| "js_string (JBool b) = (if b then ''true'' else ''false'')"
| "js_string (JNum i) = show_int i"
| "js_string (JFrac t) = t"
| "js_string (JStr s) = s"
| "js_string (JArr vs) = join '','' (map (\<lambda>v. case v of JUndef \<Rightarrow> '''' | JNull \<Rightarrow> '''' | _ \<Rightarrow> js_string v) vs)"
| "js_string (JObj kvs) = ''[object Object]''"

text \<open>\<open>Boolean(x)\<close>.\<close>

fun js_truthy :: "json \<Rightarrow> bool" where
  "js_truthy JUndef = False"
| "js_truthy JNull = False"
| "js_truthy (JBool b) = b"
| "js_truthy (JNum i) = (i \<noteq> 0)"
| "js_truthy (JFrac t) = (t \<noteq> ''null'')"
| "js_truthy (JStr s) = (s \<noteq> [])"
| "js_truthy (JArr vs) = True"
| "js_truthy (JObj kvs) = True"

subsection \<open>Percent encodings\<close>

definition upper_hex_digit :: "nat \<Rightarrow> char" where
  "upper_hex_digit d = (if d < 10 then char_of (48 + d) else char_of (55 + d))"

definition percent_byte :: "byte \<Rightarrow> string" where
  "percent_byte b = [CHR ''%'', upper_hex_digit (unat b div 16), upper_hex_digit (unat b mod 16)]"

definition percent_char :: "char \<Rightarrow> string" where
  "percent_char c = concat (map percent_byte (utf8_char c))"

definition is_alnum :: "char \<Rightarrow> bool" where
  "is_alnum c \<longleftrightarrow> (let n = of_char c :: nat in
     (48 \<le> n \<and> n \<le> 57) \<or> (65 \<le> n \<and> n \<le> 90) \<or> (97 \<le> n \<and> n \<le> 122))"

definition encodeURIComponent :: "string \<Rightarrow> string" where
  "encodeURIComponent s = concat (map (\<lambda>c.
     if is_alnum c \<or> c \<in> set ''-_.!~*()'' \<or> c = CHR 0x27 then [c] else percent_char c) s)"

text \<open>\<open>new URLSearchParams(pairs).toString()\<close>.\<close>

definition form_char :: "char \<Rightarrow> string" where
  "form_char c = (if c = CHR '' '' then ''+''
     else if is_alnum c \<or> c \<in> set ''*-._'' then [c] else percent_char c)"

definition form_text :: "string \<Rightarrow> string" where
  "form_text s = concat (map form_char s)"

definition form_encode :: "(string \<times> string) list \<Rightarrow> string" where
  "form_encode kvs = join ''&'' (map (\<lambda>(k, v). form_text k @ ''='' @ form_text v) kvs)"

subsection \<open>Requests\<close>

record http_request =
  rq_method :: string
  rq_url :: string
  rq_headers :: "(string \<times> string) list"
  rq_body :: "string option"

text \<open>
  The text of a reply is represented by what the code reads of it: nothing, text that is not JSON, or the
  value \<open>JSON.parse\<close> returns.
\<close>

datatype reply_body = EmptyBody | NotJson | JsonBody json

datatype reply = Reply int reply_body | Aborted | TransportFailed

record net_env = auth_env +
  fetch :: "nat \<Rightarrow> http_request \<Rightarrow> reply"
  localeCompare :: "string \<Rightarrow> string \<Rightarrow> int"
  process_env :: "string \<Rightarrow> string option"
  js_date :: "string \<Rightarrow> int option"
  timestamptz :: "string \<Rightarrow> int option"

record net_world = command_world +
  sent :: "http_request list"

definition empty_net :: net_world where
  "empty_net = command_world.extend empty_command \<lparr>sent = []\<rparr>"

definition fetchE :: "'a net_env_scheme \<Rightarrow> http_request \<Rightarrow> (err, 'w net_world_scheme, reply) op" where
  "fetchE E q w = (Inr (fetch E (length (sent w)) q), w\<lparr>sent := sent w @ [q]\<rparr>)"

lemma run_fetchE [run]:
  "fetchE E q w = (Inr (fetch E (length (sent w)) q), w\<lparr>sent := sent w @ [q]\<rparr>)"
  by (simp add: fetchE_def)

definition reply_ok :: "int \<Rightarrow> bool" where
  "reply_ok status \<longleftrightarrow> 200 \<le> status \<and> status < 300"

subsection \<open>The form encoding is injective\<close>

lemma upper_hex_digit_code: "d < 16 \<Longrightarrow> (of_char (upper_hex_digit d) :: nat) = (if d < 10 then 48 + d else 55 + d)"
  by (auto simp: upper_hex_digit_def)

lemma percent_byte_inj: "percent_byte a @ s = percent_byte b @ t \<longleftrightarrow> a = b \<and> s = t"
proof
  assume e: "percent_byte a @ s = percent_byte b @ t"
  have d: "unat a div 16 < 16" "unat b div 16 < 16" "unat a mod 16 < 16" "unat b mod 16 < 16"
    using unat_byte_less [of a] unat_byte_less [of b] by (simp_all add: less_mult_imp_div_less)
  have "x = y" if "upper_hex_digit x = upper_hex_digit y" "x < 16" "y < 16" for x y
    using arg_cong [OF that(1), of "of_char :: char \<Rightarrow> nat"] that(2,3)
    by (auto simp: upper_hex_digit_code split: if_splits)
  with e d have "unat a div 16 = unat b div 16" "unat a mod 16 = unat b mod 16" "s = t"
    by (auto simp: percent_byte_def)
  then show "a = b \<and> s = t"
    by (metis div_mult_mod_eq unsigned_word_eqI)
qed simp

text \<open>What the encoding of a character starts with, and that it never contains the separators.\<close>

lemma utf8_char_inj_bytes: "map percent_byte (utf8_char c) = map percent_byte (utf8_char d) \<Longrightarrow> c = d"
proof -
  assume e: "map percent_byte (utf8_char c) = map percent_byte (utf8_char d)"
  have "inj percent_byte" using percent_byte_inj [of _ "[]" _ "[]"] by (auto simp: inj_def)
  then have "utf8_char c = utf8_char d" using e by (simp add: inj_map_eq_map)
  then show "c = d" using utf8_inj [of "[c]" "[d]"] by (simp add: utf8_def)
qed

lemma form_char_cases:
  obtains (plain) "form_char c = [c]" "c \<noteq> CHR ''%''" "c \<noteq> CHR ''+''" "c \<noteq> CHR '' ''"
  | (space) "form_char c = ''+''" "c = CHR '' ''"
  | (percent) "form_char c = percent_char c" "c \<noteq> CHR '' ''"
proof (cases "c = CHR '' ''")
  case False
  note sp = this
  show ?thesis
  proof (cases "is_alnum c \<or> c \<in> set ''*-._''")
    case True
    then have "c \<noteq> CHR ''%''" "c \<noteq> CHR ''+''" by (auto simp: is_alnum_def Let_def)
    with True sp show ?thesis using plain by (simp add: form_char_def)
  next
    case False
    with sp show ?thesis using percent by (simp add: form_char_def)
  qed
qed (simp add: form_char_def space)

lemma utf8_char_bytes: "(\<exists>a. utf8_char c = [a] \<and> unat a < 128) \<or> (\<exists>a b. utf8_char c = [a, b] \<and> unat a \<ge> 192)"
  using unat_utf8_char [of c] by (auto simp: utf8_char_def Let_def split: if_splits)

lemma percent_char_split:
  assumes "percent_char c @ s = percent_char d @ t"
  shows "c = d \<and> s = t"
proof -
  have "utf8_char c = utf8_char d \<and> s = t"
    using utf8_char_bytes [of c] utf8_char_bytes [of d] assms
    by (elim disjE exE conjE) (auto simp: percent_char_def percent_byte_inj)
  then show ?thesis using utf8_char_split [of c "[]" d "[]"] by simp
qed

lemma percent_char_hd: "\<exists>s. percent_char c = CHR ''%'' # s"
  using utf8_char_bytes [of c] by (auto simp: percent_char_def percent_byte_def)

lemma form_char_split:
  assumes "form_char c @ s = form_char d @ t"
  shows "c = d \<and> s = t"
  using assms percent_char_hd [of c] percent_char_hd [of d] percent_char_split [of c s d t]
  by (cases rule: form_char_cases [of c]; cases rule: form_char_cases [of d]) auto

lemma form_char_nonempty: "form_char c \<noteq> []"
  using percent_char_hd [of c] by (cases rule: form_char_cases [of c]) auto

lemma form_text_inj: "form_text s = form_text t \<Longrightarrow> s = t"
proof (induction s arbitrary: t)
  case Nil
  then show ?case using form_char_nonempty by (cases t) (auto simp: form_text_def)
next
  case (Cons c s)
  then show ?case
    using form_char_nonempty [of c] form_char_split [of c _ "hd t" "form_text (tl t)"]
    by (cases t) (auto simp: form_text_def)
qed

lemma upper_hex_not: "d < 16 \<Longrightarrow> upper_hex_digit d \<noteq> CHR ''&'' \<and> upper_hex_digit d \<noteq> CHR ''=''"
  using upper_hex_digit_code [of d] by (auto split: if_splits)

lemma percent_char_clean: "CHR ''&'' \<notin> set (percent_char c) \<and> CHR ''='' \<notin> set (percent_char c)"
proof -
  have "CHR ''&'' \<notin> set (percent_byte b) \<and> CHR ''='' \<notin> set (percent_byte b)" for b
    using upper_hex_not [of "unat b div 16"] upper_hex_not [of "unat b mod 16"] unat_byte_less [of b]
    by (auto simp: percent_byte_def less_mult_imp_div_less)
  then show ?thesis by (auto simp: percent_char_def)
qed

lemma form_text_clean: "CHR ''&'' \<notin> set (form_text s) \<and> CHR ''='' \<notin> set (form_text s)"
proof -
  have "CHR ''&'' \<notin> set (form_char c) \<and> CHR ''='' \<notin> set (form_char c)" for c
    using percent_char_clean [of c] by (auto simp: form_char_def is_alnum_def Let_def)
  then show ?thesis by (auto simp: form_text_def)
qed

lemma form_encode_split:
  "kvs \<noteq> [] \<Longrightarrow> split_on (CHR ''&'') (form_encode kvs) = map (\<lambda>(k, v). form_text k @ ''='' @ form_text v) kvs"
proof (induction kvs rule: induct_list012)
  case (2 kv)
  then show ?case using form_text_clean by (cases kv) (simp add: form_encode_def split_on_last)
next
  case (3 kv kv' kvs)
  then show ?case
    using form_text_clean [of "fst kv"] form_text_clean [of "snd kv"]
      split_on_append [of "CHR ''&''" "form_text (fst kv) @ ''='' @ form_text (snd kv)" "form_encode (kv' # kvs)"]
    by (simp add: form_encode_def split_beta)
qed simp

lemma form_pair_inj:
  assumes "form_text k @ ''='' @ form_text v = form_text k' @ ''='' @ form_text v'"
  shows "k = k' \<and> v = v'"
proof -
  have "split_on (CHR ''='') (form_text k @ ''='' @ form_text v) = [form_text k, form_text v]" for k v
    using form_text_clean split_on_append [of "CHR ''=''" "form_text k" "form_text v"] by (simp add: split_on_last)
  then have "[form_text k, form_text v] = [form_text k', form_text v']" using assms by metis
  then show ?thesis using form_text_inj by simp
qed

lemma form_encode_inj:
  assumes "form_encode kvs = form_encode kvs'" and "kvs \<noteq> []" and "kvs' \<noteq> []"
  shows "kvs = kvs'"
proof (rule map_injective [of "\<lambda>(k, v). form_text k @ ''='' @ form_text v"])
  show "map (\<lambda>(k, v). form_text k @ ''='' @ form_text v) kvs =
      map (\<lambda>(k, v). form_text k @ ''='' @ form_text v) kvs'"
    using form_encode_split [OF assms(2)] form_encode_split [OF assms(3)] assms(1) by simp
  show "inj (\<lambda>(k, v). form_text k @ ''='' @ form_text v)"
  proof (rule injI)
    fix x y :: "string \<times> string"
    assume e: "(case x of (k, v) \<Rightarrow> form_text k @ ''='' @ form_text v) =
        (case y of (k, v) \<Rightarrow> form_text k @ ''='' @ form_text v)"
    show "x = y"
      using form_pair_inj [of "fst x" "snd x" "fst y" "snd y"] e unfolding case_prod_beta prod_eq_iff by blast
  qed
qed

text \<open>A provider that accepts everything.\<close>

definition sample_net_env :: net_env where
  "sample_net_env = auth_env.extend sample_auth_env
     \<lparr>fetch = (\<lambda>n q. Reply 200 (JsonBody (JObj [(''id'', JStr ''page_1'')]))),
      localeCompare = (\<lambda>a b. if a < b then - 1 else if a = b then 0 else 1), process_env = (\<lambda>k. None),
      js_date = (\<lambda>s. None), timestamptz = (\<lambda>s. None)\<rparr>"

end
