(* ===== verification/Connectors.thy ===== *)
theory Connectors
  imports Http
begin

text \<open>
  \<open>packages/connectors/src\<close>: request hashes, the registry of connector implementations, the secrets, and
  the Meta (Facebook page) connector.  Errors of a provider are \<open>ConnectorError code class ambiguous\<close>; an
  ambiguous error means that the provider may have carried the action out.
\<close>

subsection \<open>Request hashes (\<open>hash.ts\<close>)\<close>

text \<open>\<open>createHash("sha256").update(value, "utf8").digest("hex")\<close>.\<close>

definition node_sha256Hex :: "'a crypto_scheme \<Rightarrow> string \<Rightarrow> string" where
  "node_sha256Hex C value = lower_hex (sha256 C (utf8 value))"

text \<open>\<open>None\<close> is the result \<open>undefined\<close>; a template prints it as \<open>undefined\<close>, \<open>join\<close> as nothing.\<close>

fun stableStringify :: "json \<Rightarrow> string option" where
  "stableStringify JUndef = None"
| "stableStringify (JArr vs) = Some (''['' @ join '',''
     (map (\<lambda>v. case stableStringify v of None \<Rightarrow> '''' | Some s \<Rightarrow> s) vs) @ '']'')"
| "stableStringify (JObj kvs) = Some (''{'' @ join '',''
     (map (\<lambda>kv. quote (fst kv) @ '':'' @ snd kv) (sort_key fst
       (map (\<lambda>kv. (fst kv, case stableStringify (snd kv) of None \<Rightarrow> ''undefined'' | Some s \<Rightarrow> s)) kvs))) @ ''}'')"
| "stableStringify v = Some (stringify v)"

text \<open>\<open>update(undefined)\<close> throws.\<close>

definition requestHash :: "'a crypto_scheme \<Rightarrow> json \<Rightarrow> err + string" where
  "requestHash C value =
     (case stableStringify value of None \<Rightarrow> Inl type_error | Some s \<Rightarrow> Inr (node_sha256Hex C s))"

subsection \<open>The Meta connector (\<open>meta-facebook.ts\<close>)\<close>

definition graphBase :: "'a net_env_scheme \<Rightarrow> string" where
  "graphBase E = (case process_env E ''META_GRAPH_BASE'' of Some u \<Rightarrow> u | None \<Rightarrow> ''https://graph.facebook.com'')"

definition DEFAULT_VERSION :: string where "DEFAULT_VERSION = ''v23.0''"
definition MIN_SCHEDULE_OFFSET_SEC :: int where "MIN_SCHEDULE_OFFSET_SEC = 10 * 60"
definition MAX_SCHEDULE_OFFSET_SEC :: int where "MAX_SCHEDULE_OFFSET_SEC = 30 * 24 * 60 * 60"

definition httpClass :: "int \<Rightarrow> string" where
  "httpClass status =
     (if status \<ge> 500 then ''5xx'' else if status \<ge> 400 then ''4xx''
      else if status \<ge> 200 then ''2xx'' else ''other'')"

definition connector_error :: "string \<Rightarrow> err" where
  "connector_error code = ConnectorError code None False"

definition ambiguous_outcome :: "string \<Rightarrow> err" where
  "ambiguous_outcome class = ConnectorError ''AMBIGUOUS_PROVIDER_OUTCOME'' (Some class) True"

definition parseScheduleUnix :: "'a net_env_scheme \<Rightarrow> string \<Rightarrow> (err, 'w net_world_scheme, int) op" where
  "parseScheduleUnix E scheduled =
     bindE (nowE E) (\<lambda>now.
     let nowSec = now div 1000; t = trim scheduled;
         normalized = (if ends_with t ''Z'' then butlast t @ ''+00:00'' else t) in
     case js_date E normalized of
       None \<Rightarrow> throw (connector_error ''INVALID_SCHEDULE'')
     | Some time \<Rightarrow>
         let unix = time div 1000 in
         if unix < nowSec + MIN_SCHEDULE_OFFSET_SEC then throw (connector_error ''INVALID_SCHEDULE'')
         else if unix > nowSec + MAX_SCHEDULE_OFFSET_SEC then throw (connector_error ''INVALID_SCHEDULE'')
         else ret unix)"

text \<open>\<open>/token|secret|password|authorization/i\<close>.\<close>

definition blocked_text :: "string \<Rightarrow> bool" where
  "blocked_text s \<longleftrightarrow> list_ex (includes_text (toLowerCase s)) [''token'', ''secret'', ''password'', ''authorization'']"

definition safeMetadata :: "(string \<times> json) list \<Rightarrow> (string \<times> json) list" where
  "safeMetadata extra = filter (\<lambda>(key, value). \<not> blocked_text key \<and>
     \<not> (case value of JStr s \<Rightarrow> blocked_text s \<and> length s > 20 | _ \<Rightarrow> False)) extra"

record meta_connector =
  mt_apiVersion :: string

definition META_TYPE :: string where "META_TYPE = ''meta.facebook''"

definition new_meta_connector :: "'a net_env_scheme \<Rightarrow> string option \<Rightarrow> meta_connector" where
  "new_meta_connector E apiVersion = \<lparr>mt_apiVersion =
     (case apiVersion of Some v \<Rightarrow> v
      | None \<Rightarrow> (case process_env E ''META_API_VERSION'' of Some v \<Rightarrow> v | None \<Rightarrow> DEFAULT_VERSION))\<rparr>"

definition meta_endpoint :: "'a net_env_scheme \<Rightarrow> meta_connector \<Rightarrow> string \<Rightarrow> string \<Rightarrow> string" where
  "meta_endpoint E m pageId edge =
     (let suffix = (if edge = '''' then '''' else
            ''/'' @ (if hd edge = CHR ''/'' then tl edge else edge)) in
      graphBase E @ ''/'' @ mt_apiVersion m @ ''/'' @ pageId @ suffix)"

text \<open>The checks on a reply whose body is \<open>v\<close>; the \<open>TypeError\<close> of \<open>body.error\<close> is caught below.\<close>

definition check_reply :: "int \<Rightarrow> json \<Rightarrow> err + (int \<times> json)" where
  "check_reply status v =
     (if status \<ge> 500 \<or> status = 408 \<or> status = 429 then Inl (ambiguous_outcome (httpClass status))
      else if status = 401 \<or> status = 403
      then Inl (ConnectorError ''PROVIDER_AUTH_FAILED'' (Some (httpClass status)) False)
      else
        bindS (if reply_ok status then js_get ''error'' v else Inr (JBool True)) (\<lambda>error.
        if js_truthy error then Inl (ConnectorError ''PROVIDER_REJECTED'' (Some (httpClass status)) False)
        else Inr (status, v)))"

definition meta_call :: "'a net_env_scheme \<Rightarrow> http_request \<Rightarrow> (err, 'w net_world_scheme, int \<times> json) op" where
  "meta_call E q =
     catchE
       (bindE (fetchE E q) (\<lambda>r.
        case r of
          Reply status content \<Rightarrow>
            (case content of
               NotJson \<Rightarrow> throw (ambiguous_outcome (httpClass status))
             | EmptyBody \<Rightarrow> liftE (check_reply status (JObj []))
             | JsonBody v \<Rightarrow> liftE (check_reply status v))
        | Aborted \<Rightarrow> throw (ambiguous_outcome ''timeout'')
        | TransportFailed \<Rightarrow> throw (PlainError ''fetch failed'')))
       (\<lambda>e. case e of ConnectorError code class amb \<Rightarrow> throw e | _ \<Rightarrow> throw (ambiguous_outcome ''timeout''))"

record connector_health =
  ch_ok :: bool
  ch_connector_id :: id
  ch_connector_type :: string
  ch_page_name :: "string option"
  ch_reason_code :: "string option"

definition meta_health ::
    "'a net_env_scheme \<Rightarrow> meta_connector \<Rightarrow> id \<Rightarrow> string \<Rightarrow> string \<Rightarrow> (err, 'w net_world_scheme, connector_health) op"
  where
  "meta_health E m connectorId pageId secret =
     catchE
       (bindE (meta_call E \<lparr>rq_method = ''GET'',
          rq_url = meta_endpoint E m pageId '''' @ ''?fields=name&access_token='' @ encodeURIComponent secret,
          rq_headers = [], rq_body = None\<rparr>) (\<lambda>(status, body).
        bindE (liftE (js_get ''name'' body)) (\<lambda>name.
        let pageName = (case name of JStr s \<Rightarrow> Some s | _ \<Rightarrow> None) in
        ret \<lparr>ch_ok = truthy pageName, ch_connector_id = connectorId, ch_connector_type = META_TYPE,
          ch_page_name = pageName, ch_reason_code = None\<rparr>)))
       (\<lambda>e. ret \<lparr>ch_ok = False, ch_connector_id = connectorId, ch_connector_type = META_TYPE,
          ch_page_name = None,
          ch_reason_code = Some (case e of ConnectorError code class amb \<Rightarrow> code | _ \<Rightarrow> ''PROVIDER_REJECTED'')\<rparr>)"

record connector_action_input =
  ai_connectorId :: id
  ai_connectorType :: string
  ai_action :: string
  ai_artifactHash :: string
  ai_payload :: json
  ai_secret :: string
  ai_pageId :: string
  ai_scheduledFor :: "string option"

record connector_action_result =
  ao_connector_id :: id
  ao_connector_type :: string
  ao_action :: string
  ao_external_action_id :: "string option"
  ao_occurred_at :: string
  ao_request_hash :: string
  ao_response_hash :: "string option"
  ao_metadata :: "(string \<times> json) list"

text \<open>\<open>String(body.post_id ?? body.id ?? "")\<close>.\<close>

definition external_id :: "json \<Rightarrow> err + string" where
  "external_id body =
     bindS (js_get ''post_id'' body) (\<lambda>post.
     bindS (js_get ''id'' body) (\<lambda>i.
     Inr (js_string (or_else post (or_else i (JStr ''''))))))"

definition feed_request :: "'a net_env_scheme \<Rightarrow> meta_connector \<Rightarrow> string \<Rightarrow> (string \<times> string) list \<Rightarrow> http_request"
  where
  "feed_request E m pageId params = \<lparr>rq_method = ''POST'', rq_url = meta_endpoint E m pageId ''feed'',
     rq_headers = [(''content-type'', ''application/x-www-form-urlencoded'')],
     rq_body = Some (form_encode params)\<rparr>"

text \<open>The request to the feed and the result, which both actions share.\<close>

definition post_feed :: "'a net_env_scheme \<Rightarrow> meta_connector \<Rightarrow> connector_action_input \<Rightarrow> string \<Rightarrow> string \<Rightarrow>
    (string \<times> string) list \<Rightarrow> (string \<times> json) list \<Rightarrow> (err, 'w net_world_scheme, connector_action_result) op" where
  "post_feed E m input occurredAt hashed params extra =
     bindE (meta_call E (feed_request E m (ai_pageId input) params)) (\<lambda>(status, body).
     bindE (liftE (external_id body)) (\<lambda>externalId.
     bindE (requireE (externalId \<noteq> '''') (ambiguous_outcome (httpClass status))) (\<lambda>_.
     ret \<lparr>ao_connector_id = ai_connectorId input, ao_connector_type = META_TYPE, ao_action = ai_action input,
       ao_external_action_id = Some externalId, ao_occurred_at = occurredAt, ao_request_hash = hashed,
       ao_response_hash = Some (node_sha256Hex E (stringify (JObj [(''id'', JStr externalId)]))),
       ao_metadata = safeMetadata ((''http_class'', JStr (httpClass status)) # extra)\<rparr>)))"

definition payload_message :: "json \<Rightarrow> err + string" where
  "payload_message payload =
     bindS (js_get ''message'' payload) (\<lambda>v. Inr (js_string (or_else v (JStr ''''))))"

definition meta_execute :: "'a net_env_scheme \<Rightarrow> meta_connector \<Rightarrow> connector_action_input \<Rightarrow>
    (err, 'w net_world_scheme, connector_action_result) op" where
  "meta_execute E m input =
     bindE (liftE (payload_message (ai_payload input))) (\<lambda>message.
     bindE (nowE E) (\<lambda>now.
     let occurredAt = iso_string now in
     bindE (liftE (requestHash E (JObj
       [(''action'', JStr (ai_action input)), (''artifact_hash'', JStr (ai_artifactHash input)),
        (''message'', JStr message), (''page_id'', JStr (ai_pageId input)),
        (''scheduled_for'', json_opt (ai_scheduledFor input))]))) (\<lambda>hashed.
     if ai_action input = ''publish_post'' then
       post_feed E m input occurredAt hashed
         [(''message'', message), (''access_token'', ai_secret input)] []
     else if ai_action input = ''schedule_post'' then
       (case ai_scheduledFor input of
          None \<Rightarrow> throw (connector_error ''INVALID_SCHEDULE'')
        | Some at \<Rightarrow>
            if at = '''' then throw (connector_error ''INVALID_SCHEDULE'')
            else
              bindE (parseScheduleUnix E at) (\<lambda>unix.
              post_feed E m input occurredAt hashed
                [(''message'', message), (''published'', ''false''),
                 (''scheduled_publish_time'', show_int unix), (''unpublished_content_type'', ''SCHEDULED''),
                 (''access_token'', ai_secret input)]
                [(''scheduled_for'', JStr at)]))
     else throw (connector_error ''UNKNOWN_ACTION''))))"

subsection \<open>The registry and the secrets\<close>

text \<open>\<open>Map\<close> of implementations by type, in insertion order; the Meta connector is the one implementation.\<close>

type_synonym connector_registry = "(string \<times> meta_connector) list"

definition register_connector :: "meta_connector \<Rightarrow> connector_registry \<Rightarrow> connector_registry" where
  "register_connector m reg =
     (if list_ex (\<lambda>kv. fst kv = META_TYPE) reg
      then map (\<lambda>kv. if fst kv = META_TYPE then (META_TYPE, m) else kv) reg else reg @ [(META_TYPE, m)])"

definition resolve_connector :: "string \<Rightarrow> connector_registry \<Rightarrow> err + meta_connector" where
  "resolve_connector connectorType reg =
     (case map_of reg connectorType of Some m \<Rightarrow> Inr m | None \<Rightarrow> Inl (connector_error ''CONNECTOR_TYPE_UNKNOWN''))"

definition listTypes :: "connector_registry \<Rightarrow> string list" where
  "listTypes reg = sort (map fst reg)"

definition envSecretResolver :: "(string \<Rightarrow> string option) \<Rightarrow> string \<Rightarrow> string option" where
  "envSecretResolver source secretRef =
     (case source secretRef of Some v \<Rightarrow> if v \<noteq> '''' \<and> trim v \<noteq> '''' then Some v else None | None \<Rightarrow> None)"

subsection \<open>Request hashes\<close>

lemma insort_map_snd:
  "insort_key fst (fst x, g x) (map (\<lambda>kv. (fst kv, g kv)) kvs) = map (\<lambda>kv. (fst kv, g kv)) (insort_key fst x kvs)"
  by (induction kvs) auto

lemma sort_key_map_snd:
  "sort_key fst (map (\<lambda>kv. (fst kv, g kv)) kvs) = map (\<lambda>kv. (fst kv, g kv)) (sort_key fst kvs)"
  by (induction kvs) (simp_all add: insort_map_snd)

lemma stable_of_encode: "encode v = Inr s \<Longrightarrow> stableStringify v = Some s"
proof (induction v arbitrary: s rule: encode.induct)
  case (6 xs)
  then obtain ps where ps: "list_all2 (\<lambda>x y. encode x = Inr y) xs ps" "s = ''['' @ join '','' ps @ '']''"
    by (auto simp: mapS_Inr_iff)
  then have "list_all2 (\<lambda>x y. stableStringify x = Some y) xs ps"
    using 6 by (auto simp: list_all2_conv_all_nth)
  then have "map (\<lambda>v. case stableStringify v of None \<Rightarrow> '''' | Some s \<Rightarrow> s) xs = ps"
    by (auto simp: list_all2_conv_all_nth intro!: nth_equalityI)
  with ps(2) show ?case by simp
next
  case (7 kvs)
  let ?g = "\<lambda>kv. case stableStringify (snd kv) of None \<Rightarrow> ''undefined'' | Some s \<Rightarrow> s"
  obtain ps where ps: "list_all2 (\<lambda>kv p. \<exists>b. encode (snd kv) = Inr b \<and> quote (fst kv) @ '':'' @ b = p)
      (sort_key fst kvs) ps" "s = ''{'' @ join '','' ps @ ''}''"
    using "7.prems" by (auto simp: mapS_Inr_iff)
  have "map (\<lambda>kv. quote (fst kv) @ '':'' @ ?g kv) (sort_key fst kvs) = ps"
  proof (rule nth_equalityI)
    show "length (map (\<lambda>kv. quote (fst kv) @ '':'' @ ?g kv) (sort_key fst kvs)) = length ps"
      using list_all2_lengthD [OF ps(1)] by simp
  next
    fix i assume "i < length (map (\<lambda>kv. quote (fst kv) @ '':'' @ ?g kv) (sort_key fst kvs))"
    then have i: "i < length (sort_key fst kvs)" by simp
    obtain b where b: "encode (snd (sort_key fst kvs ! i)) = Inr b"
        "quote (fst (sort_key fst kvs ! i)) @ '':'' @ b = ps ! i"
      using list_all2_nthD [OF ps(1) i] by blast
    have "stableStringify (snd (sort_key fst kvs ! i)) = Some b"
      using "7.IH" [OF nth_mem [OF i] b(1)] .
    with b(2) i show "map (\<lambda>kv. quote (fst kv) @ '':'' @ ?g kv) (sort_key fst kvs) ! i = ps ! i" by simp
  qed
  with ps(2) show ?case by (simp add: sort_key_map_snd comp_def)
qed (auto split: if_splits)

text \<open>The two canonical serializers of the repository agree.  Wherever the ledger's \<open>canonicalize\<close>
  accepts a value, \<open>stableStringify\<close> of the connectors prints the same text.\<close>

theorem stableStringify_canonicalizes:
  assumes "canonicalize v = Inr s"
  shows "stableStringify v = Some s"
  using stable_of_encode assms by (simp add: canonicalize_def)

theorem stableStringify_canonicalizes_witness:
  "stableStringify (JObj [(''b'', JArr [JBool True, JNull]), (''a'', JStr ''x'')]) =
     Some ''{\"a\":\"x\",\"b\":[true,null]}''"
  by (rule stableStringify_canonicalizes) (simp add: canonicalize_def quote_def json_escape_def)


lemma requestHash_binds:
  assumes "in_domain v" "in_domain u" "requestHash C v = requestHash C u"
  shows "sorted_json v = sorted_json u \<or>
    (\<exists>s t. canonicalize v = Inr s \<and> canonicalize u = Inr t \<and> collision C (utf8 s) (utf8 t))"
proof -
  obtain s t where st: "canonicalize v = Inr s" "canonicalize u = Inr t"
    using assms(1,2) encode_total by (metis canonicalize_def)
  then have "sha256 C (utf8 s) = sha256 C (utf8 t)"
    using assms(3) stable_of_encode [of v s] stable_of_encode [of u t]
    by (simp add: requestHash_def node_sha256Hex_def canonicalize_def)
  moreover have "sorted_json v = sorted_json u" if "s = t"
    using that st assms(1,2) encode_Inr_iff pr_split [of "sorted_json v" "sorted_json u" "[]" "[]"]
    by (auto simp: canonicalize_def sorted_json_domain ends_value_def)
  ultimately show ?thesis using st utf8_inj unfolding collision_def by metis
qed

subsection \<open>Calls of the provider\<close>

definition call_outcome :: "reply \<Rightarrow> err + (int \<times> json)" where
  "call_outcome r =
     (case r of
        Reply status content \<Rightarrow>
          (case content of
             NotJson \<Rightarrow> Inl (ambiguous_outcome (httpClass status))
           | EmptyBody \<Rightarrow> check_reply status (JObj [])
           | JsonBody v \<Rightarrow> if v = JNull \<or> v = JUndef then
               (case check_reply status v of Inl (ConnectorError c k a) \<Rightarrow> Inl (ConnectorError c k a)
                | _ \<Rightarrow> Inl (ambiguous_outcome ''timeout''))
               else check_reply status v)
      | Aborted \<Rightarrow> Inl (ambiguous_outcome ''timeout'')
      | TransportFailed \<Rightarrow> Inl (ambiguous_outcome ''timeout''))"

lemma js_get_Inl: "js_get k v = Inl e \<longleftrightarrow> (v = JNull \<or> v = JUndef) \<and> e = type_error"
  by (cases v) (auto)

lemma check_reply_Inl:
  "check_reply status v = Inl e \<Longrightarrow> (\<exists>c k a. e = ConnectorError c k a) \<or> (v = JNull \<or> v = JUndef) \<and> e = type_error"
  by (auto simp: check_reply_def bindS_eq_Inl js_get_Inl ambiguous_outcome_def split: if_splits)

lemma check_reply_null: "v = JNull \<or> v = JUndef \<Longrightarrow> check_reply status v \<noteq> Inr x"
  by (auto simp: check_reply_def split: if_splits)

lemma meta_call_run:
  "meta_call E q w = (call_outcome (fetch E (length (sent w)) q), w\<lparr>sent := sent w @ [q]\<rparr>)"
proof (cases "fetch E (length (sent w)) q")
  case (Reply status content)
  show ?thesis
  proof (cases content)
    case EmptyBody
    then show ?thesis
      using check_reply_Inl [of status "JObj []"] Reply
      by (cases "check_reply status (JObj [])") (auto simp: meta_call_def run call_outcome_def)
  next
    case (JsonBody v)
    then show ?thesis
      using check_reply_Inl [of status v] check_reply_null [of v status] Reply
      by (cases "check_reply status v")
        (auto simp: meta_call_def run call_outcome_def type_error_def split: err.splits)
  qed (use Reply in \<open>simp add: meta_call_def run call_outcome_def ambiguous_outcome_def\<close>)
qed (simp_all add: meta_call_def run call_outcome_def ambiguous_outcome_def)

text \<open>What a reply says: the provider took the request, or it refused it.  Any other reply leaves it open.\<close>

definition accepted :: "reply \<Rightarrow> bool" where
  "accepted r \<longleftrightarrow> (\<exists>status content. r = Reply status content \<and> reply_ok status \<and> content \<noteq> NotJson)"

definition refused :: "reply \<Rightarrow> bool" where
  "refused r \<longleftrightarrow> (\<exists>status content. r = Reply status content \<and> status < 500 \<and>
     (reply_ok status \<longrightarrow> (\<exists>v x. content = JsonBody v \<and> js_get ''error'' v = Inr x \<and> js_truthy x)))"

lemma check_reply_cases:
  "check_reply status v = Inr (st, x) \<Longrightarrow> st = status \<and> x = v \<and> reply_ok status \<and> v \<noteq> JNull \<and> v \<noteq> JUndef"
  "check_reply status v = Inl (ConnectorError c k False) \<Longrightarrow>
     status < 500 \<and> (reply_ok status \<longrightarrow> (\<exists>x. js_get ''error'' v = Inr x \<and> js_truthy x))"
  by (auto simp: check_reply_def bindS_eq_Inl js_get_Inl ambiguous_outcome_def type_error_def reply_ok_def
      split: if_splits)

lemma call_outcome_Inr:
  "call_outcome r = Inr (status, v) \<Longrightarrow> accepted r \<and> v \<noteq> JNull \<and> v \<noteq> JUndef"
  by (auto simp: call_outcome_def accepted_def split: reply.splits reply_body.splits if_splits err.splits sum.splits
      dest: check_reply_cases(1))

lemma call_outcome_Inl:
  assumes "call_outcome r = Inl e"
  shows "(\<exists>c k. e = ConnectorError c k True) \<or> (\<exists>c k. e = ConnectorError c k False) \<and> refused r"
proof (cases r)
  case (Reply status content)
  have settle: "(\<exists>c k. e = ConnectorError c k True) \<or> (\<exists>c k. e = ConnectorError c k False) \<and> refused r"
    if c: "check_reply status v = Inl e" and v: "v \<noteq> JNull" "v \<noteq> JUndef"
      and b: "content = JsonBody v \<or> v = JObj []" for v
  proof -
    from check_reply_Inl [OF c] v obtain k1 k2 a where e: "e = ConnectorError k1 k2 a" by blast
    show ?thesis
    proof (cases a)
      case False
      then have "status < 500 \<and> (reply_ok status \<longrightarrow> (\<exists>x. js_get ''error'' v = Inr x \<and> js_truthy x))"
        using check_reply_cases(2) c e by simp
      with b Reply e False show ?thesis by (auto simp: refused_def)
    qed (use e in simp)
  qed
  show ?thesis
  proof (cases content)
    case NotJson
    then show ?thesis using assms Reply by (auto simp: call_outcome_def ambiguous_outcome_def)
  next
    case EmptyBody
    then show ?thesis using assms Reply settle [of "JObj []"] by (simp add: call_outcome_def)
  next
    case (JsonBody v)
    show ?thesis
    proof (cases "v = JNull \<or> v = JUndef")
      case True
      then have "js_get ''error'' v = Inl type_error" by auto
      with True assms Reply JsonBody show ?thesis
        by (auto simp: call_outcome_def ambiguous_outcome_def check_reply_def refused_def type_error_def reply_ok_def
            split: if_splits)
    next
      case False
      then show ?thesis using assms Reply JsonBody settle [of v] by (simp add: call_outcome_def)
    qed
  qed
qed (use assms in \<open>auto simp: call_outcome_def ambiguous_outcome_def\<close>)

definition settled :: "'a net_env_scheme \<Rightarrow> nat \<Rightarrow> http_request \<Rightarrow> err + 'b \<Rightarrow> bool" where
  "settled E n q r \<longleftrightarrow>
     (case r of Inr _ \<Rightarrow> accepted (fetch E n q)
      | Inl e \<Rightarrow> (\<exists>c k. e = ConnectorError c k True) \<or> (\<exists>c k. e = ConnectorError c k False) \<and> refused (fetch E n q))"

lemma external_id_total: "v \<noteq> JNull \<Longrightarrow> v \<noteq> JUndef \<Longrightarrow> \<exists>s. external_id v = Inr s"
  by (cases v) (auto simp: external_id_def)

lemma post_feed_outcome:
  assumes "post_feed E m input at h params extra w = (r, w')"
  shows "w' = w\<lparr>sent := sent w @ [feed_request E m (ai_pageId input) params]\<rparr> \<and>
    settled E (length (sent w)) (feed_request E m (ai_pageId input) params) r"
proof (cases "call_outcome (fetch E (length (sent w)) (feed_request E m (ai_pageId input) params))")
  case (Inl e)
  then show ?thesis
    using assms call_outcome_Inl [OF Inl] by (auto simp: post_feed_def run meta_call_run settled_def)
next
  case (Inr p)
  obtain status v where p: "p = (status, v)" by (cases p)
  obtain s where "external_id v = Inr s" using call_outcome_Inr Inr p external_id_total by blast
  then show ?thesis
    using assms Inr p call_outcome_Inr [of _ status v]
    by (auto simp: post_feed_def run meta_call_run settled_def ambiguous_outcome_def split: if_splits)
qed

definition publish_params :: "string \<Rightarrow> connector_action_input \<Rightarrow> (string \<times> string) list" where
  "publish_params message input = [(''message'', message), (''access_token'', ai_secret input)]"

definition schedule_params :: "string \<Rightarrow> int \<Rightarrow> connector_action_input \<Rightarrow> (string \<times> string) list" where
  "schedule_params message unix input =
     [(''message'', message), (''published'', ''false''), (''scheduled_publish_time'', show_int unix),
      (''unpublished_content_type'', ''SCHEDULED''), (''access_token'', ai_secret input)]"

lemma parseScheduleUnix_cases:
  assumes "parseScheduleUnix E at w = (r, w')"
  obtains e where "r = Inl e" "w' = w\<lparr>draws := Suc (draws w)\<rparr>"
  | unix where "r = Inr unix" "w' = w\<lparr>draws := Suc (draws w)\<rparr>"
      "clock E (draws w) div 1000 + MIN_SCHEDULE_OFFSET_SEC \<le> unix"
      "unix \<le> clock E (draws w) div 1000 + MAX_SCHEDULE_OFFSET_SEC"
  using assms by (auto simp: parseScheduleUnix_def run nowE_def Let_def split: option.splits if_splits)

lemma meta_execute_cases:
  assumes "meta_execute E m input w = (r, w')"
  obtains (unsent) e k where "r = Inl e" "w' = w\<lparr>draws := k\<rparr>"
  | (published) message k where "ai_action input = ''publish_post''" "payload_message (ai_payload input) = Inr message"
      "w' = w\<lparr>draws := k, sent := sent w @ [feed_request E m (ai_pageId input) (publish_params message input)]\<rparr>"
      "settled E (length (sent w)) (feed_request E m (ai_pageId input) (publish_params message input)) r"
  | (scheduled) message unix k where "ai_action input = ''schedule_post''"
      "payload_message (ai_payload input) = Inr message"
      "w' = w\<lparr>draws := k, sent := sent w @ [feed_request E m (ai_pageId input) (schedule_params message unix input)]\<rparr>"
      "settled E (length (sent w)) (feed_request E m (ai_pageId input) (schedule_params message unix input)) r"
      "clock E (Suc (draws w)) div 1000 + MIN_SCHEDULE_OFFSET_SEC \<le> unix"
      "unix \<le> clock E (Suc (draws w)) div 1000 + MAX_SCHEDULE_OFFSET_SEC"
proof (cases "payload_message (ai_payload input)")
  case (Inl e)
  then show ?thesis using assms unsent [of e "draws w"] by (simp add: meta_execute_def run)
next
  case (Inr message)
  define u where "u = w\<lparr>draws := Suc (draws w)\<rparr>"
  define now where "now = clock E (draws w)"
  obtain h where h: "requestHash E (JObj [(''action'', JStr (ai_action input)), (''artifact_hash'', JStr (ai_artifactHash input)),
        (''message'', JStr message), (''page_id'', JStr (ai_pageId input)),
        (''scheduled_for'', json_opt (ai_scheduledFor input))]) = Inr h"
    by (simp add: requestHash_def)
  have ex: "(if ai_action input = ''publish_post'' then
       post_feed E m input (iso_string now) h (publish_params message input) [] u
     else if ai_action input = ''schedule_post'' then
       (case ai_scheduledFor input of
          None \<Rightarrow> throw (connector_error ''INVALID_SCHEDULE'') u
        | Some at \<Rightarrow>
            if at = '''' then throw (connector_error ''INVALID_SCHEDULE'') u
            else bindE (parseScheduleUnix E at) (\<lambda>unix. post_feed E m input (iso_string now) h
              (schedule_params message unix input) [(''scheduled_for'', JStr at)]) u)
     else throw (connector_error ''UNKNOWN_ACTION'') u) = (r, w')"
    using assms Inr h
    by (simp add: meta_execute_def run nowE_def Let_def u_def now_def publish_params_def schedule_params_def
        split: option.splits if_splits)
  consider "ai_action input = ''publish_post''" | "ai_action input = ''schedule_post''"
    | "ai_action input \<noteq> ''publish_post''" "ai_action input \<noteq> ''schedule_post''" by blast
  then show ?thesis
  proof cases
    case 1
    then have "post_feed E m input (iso_string now) h (publish_params message input) [] u = (r, w')" using ex by simp
    from post_feed_outcome [OF this] 1 Inr published show ?thesis by (simp add: u_def)
  next
    case 2
    show ?thesis
    proof (cases "ai_scheduledFor input = None \<or> ai_scheduledFor input = Some ''''")
      case True
      then have "(Inl (connector_error ''INVALID_SCHEDULE''), u) = (r, w')" using ex 2 by (auto simp: run)
      then show ?thesis using unsent [of _ "Suc (draws w)"] by (auto simp: u_def)
    next
      case False
      then obtain at where at: "ai_scheduledFor input = Some at" "at \<noteq> ''''" by auto
      obtain r1 w1 where p: "parseScheduleUnix E at u = (r1, w1)" by (cases "parseScheduleUnix E at u")
      then have b: "(case r1 of Inl e \<Rightarrow> (Inl e, w1) | Inr unix \<Rightarrow> post_feed E m input (iso_string now) h
              (schedule_params message unix input) [(''scheduled_for'', JStr at)] w1) = (r, w')"
        using ex 2 at by (simp add: run split: sum.splits)
      from p show ?thesis
      proof (cases rule: parseScheduleUnix_cases)
        case (1 e)
        then show ?thesis using b unsent [of e "Suc (Suc (draws w))"] by (simp add: u_def)
      next
        case (2 unix)
        then have "post_feed E m input (iso_string now) h (schedule_params message unix input)
            [(''scheduled_for'', JStr at)] w1 = (r, w')" using b by simp
        from post_feed_outcome [OF this] 2 \<open>ai_action input = ''schedule_post''\<close> Inr
          scheduled [of message unix "Suc (Suc (draws w))"] show ?thesis
          by (simp add: u_def)
      qed
    qed
  next
    case 3
    then have "(Inl (connector_error ''UNKNOWN_ACTION''), u) = (r, w')" using ex by (simp add: run)
    then show ?thesis using unsent [of _ "Suc (draws w)"] by (auto simp: u_def)
  qed
qed

text \<open>A post is sent at most once, and its outcome is told apart.  The Meta connector sends at most one
  request; it reports success only when the provider answered with a 2xx status, and an error that is not
  marked ambiguous only when nothing was sent or the provider refused the request.\<close>

theorem meta_execute_settles:
  assumes "meta_execute E m input w = (r, w')"
  shows "sent w' = sent w \<and> (\<exists>e. r = Inl e) \<or>
    (\<exists>q. sent w' = sent w @ [q] \<and>
      (case r of Inr _ \<Rightarrow> accepted (fetch E (length (sent w)) q)
       | Inl e \<Rightarrow> (\<exists>code class. e = ConnectorError code class True) \<or> refused (fetch E (length (sent w)) q)))"
  by (cases rule: meta_execute_cases [OF assms]) (auto simp: settled_def split: sum.splits)

text \<open>A post is scheduled between ten minutes and thirty days ahead.  When \<open>schedule_post\<close> sends a request,
  its form carries the message of the payload and a publish time inside that window, counted from the
  clock; every other time is refused before anything is sent.\<close>

theorem meta_schedule_window:
  assumes "meta_execute E m input w = (r, w')" and "ai_action input = ''schedule_post''" and "sent w' \<noteq> sent w"
  shows "\<exists>message unix q. payload_message (ai_payload input) = Inr message \<and> sent w' = sent w @ [q] \<and>
    rq_body q = Some (form_encode (schedule_params message unix input)) \<and>
    clock E (Suc (draws w)) div 1000 + 600 \<le> unix \<and> unix \<le> clock E (Suc (draws w)) div 1000 + 2592000"
  using assms(2,3)
  by (cases rule: meta_execute_cases [OF assms(1)])
    (auto simp: feed_request_def MIN_SCHEDULE_OFFSET_SEC_def MAX_SCHEDULE_OFFSET_SEC_def)

subsection \<open>Concrete posts\<close>

definition sample_post_env :: net_env where
  "sample_post_env = sample_net_env\<lparr>js_date := (\<lambda>s. Some 1767229200000)\<rparr>"

definition sample_meta :: meta_connector where
  "sample_meta = \<lparr>mt_apiVersion = DEFAULT_VERSION\<rparr>"

definition sample_post :: "string \<Rightarrow> connector_action_input" where
  "sample_post action = \<lparr>ai_connectorId = ''c1'', ai_connectorType = META_TYPE, ai_action = action,
     ai_artifactHash = ''h'', ai_payload = JObj [(''message'', JStr ''hello'')], ai_secret = ''s'',
     ai_pageId = ''42'', ai_scheduledFor = Some ''2026-01-01T01:00:00Z''\<rparr>"

lemma sample_post_env_simps [simp]:
  "fetch sample_post_env n q = Reply 200 (JsonBody (JObj [(''id'', JStr ''page_1'')]))"
  "clock sample_post_env n = 1767225600000" "js_date sample_post_env s = Some 1767229200000"
  by (simp_all add: sample_post_env_def sample_net_env_def sample_auth_env_def sample_clock_env_def
      auth_env.defs env.defs)

lemma sample_post_sends:
  "\<exists>r w' q. meta_execute sample_post_env sample_meta (sample_post ''schedule_post'') empty_net = (Inr r, w') \<and>
     sent w' = sent empty_net @ [q]"
  by (simp add: meta_execute_def sample_post_def payload_message_def or_else_def nullish_def run nowE_def
      requestHash_def parseScheduleUnix_def Let_def MIN_SCHEDULE_OFFSET_SEC_def MAX_SCHEDULE_OFFSET_SEC_def
      post_feed_def meta_call_run call_outcome_def check_reply_def reply_ok_def external_id_def)

theorem meta_execute_settles_witness:
  "\<exists>q. accepted (fetch sample_post_env 0 q)"
proof -
  obtain r w' q where s: "meta_execute sample_post_env sample_meta (sample_post ''schedule_post'') empty_net = (Inr r, w')"
      "sent w' = sent empty_net @ [q]"
    using sample_post_sends by blast
  from meta_execute_settles [OF s(1)] s(2) show ?thesis by (auto simp: empty_net_def command_world.defs)
qed

theorem meta_schedule_window_witness:
  "\<exists>unix. 1767225600 + 600 \<le> unix \<and> unix \<le> 1767225600 + (2592000 :: int)"
proof -
  obtain r w' q where s: "meta_execute sample_post_env sample_meta (sample_post ''schedule_post'') empty_net = (Inr r, w')"
      "sent w' = sent empty_net @ [q]"
    using sample_post_sends by blast
  then have "sent w' \<noteq> sent empty_net" by simp
  from meta_schedule_window [OF s(1) _ this] show ?thesis by (auto simp: sample_post_def)
qed

end
