(* ===== verification/Lifecycle.thy ===== *)
theory Lifecycle
  imports Command
begin

text \<open>
  \<open>apps/core-api/src/execution/lifecycle.ts\<close>: the events of a skill, the request for an approval, which
  puts the execution on hold, and the decision, which lets it run again.
\<close>

subsection \<open>Shared steps\<close>

definition lastEventId :: "id \<Rightarrow> id \<Rightarrow> (err, 'w audit_world_scheme, id option) op" where
  "lastEventId organizationId executionId =
     bindE (listExecutionEvents organizationId executionId) (\<lambda>events.
     ret (map_option ev_id (last_row events)))"

definition assertSha256 :: "string option \<Rightarrow> err + string option" where
  "assertSha256 value =
     (case value of None \<Rightarrow> Inr None
      | Some h \<Rightarrow> if isSha256Hex h then Inr (Some h) else Inl (ExecutionError ''INVALID_INPUT'' 400))"

definition requireScopedOpen :: "id \<Rightarrow> id \<Rightarrow> (err, 'w audit_world_scheme, execution_row) op" where
  "requireScopedOpen organizationId executionId =
     bindE (getExecution organizationId executionId) (\<lambda>row.
     bindE (expectE row (ExecutionError ''NOT_FOUND'' 404)) (\<lambda>execution.
     bindE (requireE (ex_status execution \<notin> {Completed, Failed, Blocked, Cancelled})
       (ExecutionError ''INVALID_EXECUTION_TRANSITION'' 409)) (\<lambda>_.
     ret execution)))"

text \<open>The event every handler appends: no input hash, the time of the clock.\<close>

definition event_of :: "execution_row \<Rightarrow> string \<Rightarrow> string \<Rightarrow> id option \<Rightarrow> string option \<Rightarrow> (string \<times> json) list \<Rightarrow>
    append_event_input" where
  "event_of execution eventType status parent outputHash metadata =
     \<lparr>ae_organizationId = ex_organization_id execution, ae_executionId = ex_id execution,
      ae_eventType = eventType, ae_status = status,
      ae_parentEventIds = (case parent of None \<Rightarrow> [] | Some p \<Rightarrow> if p = '''' then [] else [p]),
      ae_inputHash = None, ae_outputHash = outputHash, ae_metadata = Some (JObj metadata),
      ae_occurredAtCanonical = None\<rparr>"

text \<open>\<open>SELECT role_id FROM auth.memberships\<close>.\<close>

definition role_of_member :: "id \<Rightarrow> id \<Rightarrow> (err, 'w auth_world_scheme, id option) op" where
  "role_of_member userId organizationId = getsE (\<lambda>w. map_option mb_role_id
     (find (\<lambda>m. mb_user_id m = userId \<and> mb_organization_id m = organizationId) (memberships w)))"

subsection \<open>Skill events\<close>

datatype skill_phase = SkillStart | SkillComplete | SkillFail

fun SKILL_EVENT_TYPES :: "skill_phase \<Rightarrow> string" where
  "SKILL_EVENT_TYPES SkillStart = ''nova.skill.started''"
| "SKILL_EVENT_TYPES SkillComplete = ''nova.skill.completed''"
| "SKILL_EVENT_TYPES SkillFail = ''nova.skill.failed''"

record skill_event_input =
  ki_organizationId :: id
  ki_executionId :: id
  ki_phase :: skill_phase
  ki_skillId :: string
  ki_skillVersion :: string
  ki_brandId :: "string option"
  ki_configHash :: "string option"
  ki_resultArtifactHash :: "string option"
  ki_reasonCode :: "string option"

definition optional_field :: "string \<Rightarrow> string option \<Rightarrow> (string \<times> json) list" where
  "optional_field key value = (if truthy value then [(key, json_opt value)] else [])"

definition skill_metadata :: "skill_event_input \<Rightarrow> string option \<Rightarrow> string option \<Rightarrow> (string \<times> json) list" where
  "skill_metadata input configHash artifactHash =
     [(''skill_id'', JStr (ki_skillId input)), (''skill_version'', JStr (ki_skillVersion input))] @
     optional_field ''brand_id'' (ki_brandId input) @ optional_field ''config_hash'' configHash @
     optional_field ''result_artifact_hash'' artifactHash @ optional_field ''reason_code'' (ki_reasonCode input)"

fun phase_status :: "skill_phase \<Rightarrow> string" where
  "phase_status SkillFail = ''failed''"
| "phase_status SkillComplete = ''ok''"
| "phase_status SkillStart = ''started''"

record skill_event_result =
  so_event_id :: id
  so_event_type :: string
  so_execution_id :: id
  so_status :: execution_status

definition recordSkillLifecycleEvent ::
    "'a env_scheme \<Rightarrow> skill_event_input \<Rightarrow> (err, 'w audit_world_scheme, skill_event_result) op" where
  "recordSkillLifecycleEvent E input =
     bindE (requireScopedOpen (ki_organizationId input) (ki_executionId input)) (\<lambda>execution.
     bindE (requireE (ki_skillId input \<in> {''nova.social.draft'', ''nova.research'', ''nova.drafting'', ''nova.use''})
       (ExecutionError ''UNKNOWN_SKILL'' 400)) (\<lambda>_.
     bindE (liftE (assertSha256 (ki_configHash input))) (\<lambda>configHash.
     bindE (liftE (assertSha256 (ki_resultArtifactHash input))) (\<lambda>artifactHash.
     bindE (lastEventId (ex_organization_id execution) (ex_id execution)) (\<lambda>parent.
     bindE (appendExecutionEvent E Pool (event_of execution (SKILL_EVENT_TYPES (ki_phase input))
       (phase_status (ki_phase input)) parent artifactHash (skill_metadata input configHash artifactHash))) (\<lambda>row.
     ret \<lparr>so_event_id = ev_id row, so_event_type = ev_event_type row, so_execution_id = ex_id execution,
       so_status = ex_status execution\<rparr>))))))"

subsection \<open>Requesting an approval\<close>

record approval_request_input =
  qi_organizationId :: id
  qi_executionId :: id
  qi_skillId :: string
  qi_requestedBy :: id
  qi_artifactHash :: string

record approval_result =
  vo_approval_id :: id
  vo_execution_id :: id
  vo_status :: string
  vo_artifact_hash :: string

definition approval_requested_append :: "execution_row \<Rightarrow> string option \<Rightarrow> append_ledger_input" where
  "approval_requested_append execution reqHash =
     \<lparr>al_organizationId = ex_organization_id execution, al_executionId = ex_id execution,
      al_entryType = ApprovalRequested, al_requestHash = reqHash, al_responseHash = None,
      al_executionGraphHash = None, al_merkleSnapshotInterval = None, al_createdAtCanonical = None,
      al_kernelVersion = None, al_executionStatus = Some WaitingApproval\<rparr>"

text \<open>The body of the transaction; its result is the new approval's identifier.\<close>

definition request_approval_body ::
    "'a env_scheme \<Rightarrow> approval_request_input \<Rightarrow> execution_row \<Rightarrow> (err, 'w command_world_scheme, id) op" where
  "request_approval_body E input execution =
     bindE (drawE (randomUUID E)) (\<lambda>approvalId.
     bindE (nowE E) (\<lambda>now.
     bindE (insert_approval \<lparr>ap_id = approvalId, ap_organization_id = ex_organization_id execution,
       ap_execution_id = ex_id execution, ap_skill_id = qi_skillId input,
       ap_requested_by = qi_requestedBy input, ap_decided_by = None, ap_status = Pending,
       ap_reason_code = None, ap_artifact_hash = Some (qi_artifactHash input), ap_created_at = now,
       ap_decided_at = None\<rparr>) (\<lambda>_.
     bindE (lastEventId (ex_organization_id execution) (ex_id execution)) (\<lambda>parent.
     bindE (appendExecutionEventInTransaction E (event_of execution ''approval.requested'' ''started'' parent
       (Some (qi_artifactHash input))
       [(''approval_id'', JStr approvalId), (''skill_id'', JStr (qi_skillId input)),
        (''artifact_hash'', JStr (qi_artifactHash input))])) (\<lambda>_.
     bindE (loadRequestOpenedHash (ex_organization_id execution) (ex_id execution)) (\<lambda>opened.
     bindE (appendLedgerEntryInTransaction E (approval_requested_append execution opened)) (\<lambda>_.
     ret approvalId)))))))"

definition requestExecutionApproval ::
    "'a env_scheme \<Rightarrow> approval_request_input \<Rightarrow> (err, 'w command_world_scheme, approval_result) op" where
  "requestExecutionApproval E input =
     bindE (requireScopedOpen (qi_organizationId input) (qi_executionId input)) (\<lambda>execution.
     bindE (liftE (assertSha256 (Some (qi_artifactHash input)))) (\<lambda>_.
     bindE (getsE (\<lambda>w. user_exists (qi_requestedBy input) w \<and>
         (\<exists>m\<in>set (memberships w). mb_user_id m = qi_requestedBy input \<and>
            mb_organization_id m = ex_organization_id execution))) (\<lambda>member.
     bindE (requireE member (ExecutionError ''NOT_A_MEMBER'' 403)) (\<lambda>_.
     bindE (txnE restore_command (request_approval_body E input execution)) (\<lambda>approvalId.
     ret \<lparr>vo_approval_id = approvalId, vo_execution_id = ex_id execution, vo_status = ''waiting_approval'',
       vo_artifact_hash = qi_artifactHash input\<rparr>)))))"

subsection \<open>Deciding it\<close>

record decide_approval_input =
  di_organizationId :: id
  di_executionId :: id
  di_approvalId :: id
  di_actorId :: id
  di_allow :: bool
  di_artifactHash :: string

definition load_bound_approval :: "decide_approval_input \<Rightarrow> execution_row \<Rightarrow> (err, 'w command_world_scheme, string) op" where
  "load_bound_approval input execution =
     bindE (getApproval (ex_organization_id execution) (di_approvalId input)) (\<lambda>approval.
     bindE (requireE (case approval of None \<Rightarrow> False | Some a \<Rightarrow> ap_execution_id a = ex_id execution)
       (ExecutionError ''NOT_FOUND'' 404)) (\<lambda>_.
     bindE (liftE (assertSha256 (Some (di_artifactHash input)))) (\<lambda>submitted.
     let bound = (case approval of None \<Rightarrow> None | Some a \<Rightarrow> ap_artifact_hash a) in
     bindE (requireE (truthy bound \<and> bound = submitted) (ExecutionError ''ARTIFACT_HASH_MISMATCH'' 409)) (\<lambda>_.
     ret (di_artifactHash input)))))"

text \<open>The three updates at the end are three transactions of their own.\<close>

definition record_decision ::
    "'a env_scheme \<Rightarrow> decide_approval_input \<Rightarrow> execution_row \<Rightarrow> string \<Rightarrow> (err, 'w command_world_scheme, unit) op" where
  "record_decision E input execution artifactHash =
     bindE (decideApproval E (ex_organization_id execution) (di_approvalId input) (di_actorId input)
       (di_allow input)) (\<lambda>_.
     bindE (lastEventId (ex_organization_id execution) (ex_id execution)) (\<lambda>parent.
     bindE (appendExecutionEvent E Pool (event_of execution
       (if di_allow input then ''approval.approved'' else ''approval.rejected'')
       (if di_allow input then ''ok'' else ''denied'') parent (Some artifactHash)
       [(''approval_id'', JStr (di_approvalId input)), (''artifact_hash'', JStr artifactHash),
        (''decided_by'', JStr (di_actorId input))])) (\<lambda>_.
     whenE (di_allow input \<and> ex_status execution = WaitingApproval)
       (setExecutionStatus (ex_id execution) Running (Some (ex_organization_id execution)) None None))))"

definition decideExecutionApproval ::
    "'a env_scheme \<Rightarrow> decide_approval_input \<Rightarrow> (err, 'w command_world_scheme, approval_result) op" where
  "decideExecutionApproval E input =
     bindE (getExecution (di_organizationId input) (di_executionId input)) (\<lambda>found.
     bindE (expectE found (ExecutionError ''NOT_FOUND'' 404)) (\<lambda>execution.
     bindE (load_bound_approval input execution) (\<lambda>artifactHash.
     bindE (role_of_member (di_actorId input) (ex_organization_id execution)) (\<lambda>member.
     bindE (expectE member (ExecutionError ''NOT_A_MEMBER'' 403)) (\<lambda>roleId.
     bindE (evaluatePolicy E \<lparr>ei_organizationId = ex_organization_id execution, ei_actorId = di_actorId input,
       ei_roleId = roleId, ei_action = ApprovalDecide (di_approvalId input)\<rparr>) (\<lambda>policy.
     bindE (requireE (pd_decision policy = Allow) (ExecutionError (pd_reason_code policy) 403)) (\<lambda>_.
     bindE (record_decision E input execution artifactHash) (\<lambda>_.
     ret \<lparr>vo_approval_id = di_approvalId input, vo_execution_id = ex_id execution,
       vo_status = (if di_allow input then ''approved'' else ''rejected''),
       vo_artifact_hash = artifactHash\<rparr>))))))))"

subsection \<open>What the audit operations leave alone\<close>

text \<open>The operations of the audit kernel do not touch the tables of the other schemas.\<close>

definition rest_is :: "'w \<Rightarrow> 'w audit_world_scheme \<Rightarrow> bool" where
  "rest_is m w \<longleftrightarrow> audit_world.more w = m"

lemma rest_update [simp]:
  "rest_is m (w\<lparr>draws := a\<rparr>) = rest_is m w" "rest_is m (w\<lparr>chain_state := b\<rparr>) = rest_is m w"
  "rest_is m (w\<lparr>executions := c\<rparr>) = rest_is m w" "rest_is m (w\<lparr>ledger_entries := d\<rparr>) = rest_is m w"
  "rest_is m (w\<lparr>merkle_checkpoints := e\<rparr>) = rest_is m w" "rest_is m (w\<lparr>execution_events := f\<rparr>) = rest_is m w"
  by (simp_all add: rest_is_def)

lemma rest_setExecutionStatus [pres]: "preserves (rest_is m) (setExecutionStatus i st org fin cmpl)"
  unfolding setExecutionStatus_def getExecution_def getExecutionById_def by (intro pres) simp

lemma rest_drawE [pres]: "preserves (rest_is m) (drawE f)"
  by (intro pres) simp

lemma rest_update_execution [pres]: "preserves (rest_is m) (update_execution_for_entry input i t)"
  by (cases "al_entryType input") (auto simp: update_execution_for_entry_def Let_def intro: pres)

lemma rest_checkpoint_at [pres]: "preserves (rest_is m) (checkpoint_at E org k n h)"
  unfolding checkpoint_at_def Let_def by (cases k) (auto intro!: pres)

lemma pres_option_draw [pres]:
  "preserves P (drawE g :: ('e, 'w world_scheme, 'x) op) \<Longrightarrow>
   preserves P (case t of None \<Rightarrow> (drawE g :: ('e, 'w world_scheme, 'x) op) | Some x \<Rightarrow> ret x)"
  by (cases t) (auto intro: pres_ret)

lemma rest_append [pres]: "preserves (rest_is m) (appendLedgerEntryInTransaction E input)"
  unfolding appendLedgerEntryInTransaction_def Let_def canonicalTimestampNow_def ensure_chain_state_def
    insert_ledger_entry_def insert_checkpoint_def
  by (intro pres; (simp split: option.split prod.split)?; (intro allI impI pres)?; simp?)

lemma rest_append_event [pres]: "preserves (rest_is m) (appendExecutionEventInTransaction E input)"
  unfolding appendExecutionEventInTransaction_def Let_def canonicalTimestampNow_def getExecution_def insert_event_def
  by (intro pres; simp?)

lemma rest_command:
  assumes "rest_is (audit_world.more w) w'"
  shows "approvals w' = approvals w" "memberships w' = memberships w" "users w' = users w"
    "connector_actions w' = connector_actions w" "connectors w' = connectors w"
  using assms unfolding rest_is_def by (cases w; cases w'; simp)+

subsection \<open>Requesting\<close>

lemma requireScopedOpen_Inr:
  "requireScopedOpen org i w = (Inr x, w') \<longleftrightarrow>
     find (\<lambda>r. ex_id r = i \<and> ex_organization_id r = org) (executions w) = Some x \<and> \<not> terminal (ex_status x) \<and> w' = w"
  by (auto simp: requireScopedOpen_def getExecution_def inr_iffs terminal_def)

lemma requireScopedOpen_Inl: "requireScopedOpen org i w = (Inl e, w') \<Longrightarrow> w' = w"
  by (auto simp: requireScopedOpen_def getExecution_def inl_iffs basic_Inr)

lemma lastEventId_run: "\<exists>p. lastEventId org i w = (Inr p, w)"
  by (simp add: lastEventId_def listExecutionEvents_def run)

lemma restore_command_simps [simp]:
  "approvals (restore_command w u) = approvals w" "tables_equal w (restore_command w u)"
  "connector_actions (restore_command w u) = connector_actions w"
  by (simp_all add: restore_command_def tables_equal_def restore_auth_def)

lemma append_event_other:
  assumes "appendExecutionEventInTransaction E input w = (Inr row, w')"
  shows "approvals w' = approvals w" "memberships w' = memberships w" "users w' = users w"
    "connector_actions w' = connector_actions w" "connectors w' = connectors w"
  using append_event_Inr [OF assms] by (auto simp: event_appended_def)

definition new_approval :: "'a env_scheme \<Rightarrow> approval_request_input \<Rightarrow> execution_row \<Rightarrow> nat \<Rightarrow> approval_row" where
  "new_approval E input x n = \<lparr>ap_id = randomUUID E n, ap_organization_id = ex_organization_id x,
     ap_execution_id = ex_id x, ap_skill_id = qi_skillId input, ap_requested_by = qi_requestedBy input,
     ap_decided_by = None, ap_status = Pending, ap_reason_code = None,
     ap_artifact_hash = Some (qi_artifactHash input), ap_created_at = clock E (Suc n), ap_decided_at = None\<rparr>"

lemma request_approval_body_Inr:
  assumes "request_approval_body E input x w = (Inr i, w')"
  shows "i = randomUUID E (draws w) \<and> (\<exists>p meta ev u opened l.
    appendExecutionEventInTransaction E (event_of x ''approval.requested'' ''started'' p (Some (qi_artifactHash input)) meta)
      (w\<lparr>draws := Suc (Suc (draws w)), approvals := approvals w @ [new_approval E input x (draws w)]\<rparr>) = (Inr ev, u) \<and>
    appendLedgerEntryInTransaction E (approval_requested_append x opened) u = (Inr l, w'))"
  using assms unfolding request_approval_body_def nowE_def insert_approval_def lastEventId_def
    listExecutionEvents_def loadRequestOpenedHash_def new_approval_def
  by (simp add: inr_iffs drawE_Inr constraintE_Inr) blast

text \<open>An approval request puts the execution on hold, completely or not at all.  When it succeeds, one
  pending approval of exactly the given artifact is added, \<open>approval.requested\<close> with the artifact's hash
  is the last event of the execution, the organization's chain is extended by one entry, and the
  execution waits for approval; the invariant of the audit store holds.  When it fails, neither the
  audit store nor the approvals have changed.\<close>

theorem requestExecutionApproval_holds:
  assumes "requestExecutionApproval E input w = (res, w')" and "audit_inv E w"
  shows "(case res of
     Inl e \<Rightarrow> tables_equal w w' \<and> approvals w' = approvals w
   | Inr r \<Rightarrow> audit_inv E w' \<and>
       (\<exists>a. approvals w' = approvals w @ [a] \<and> ap_id a = vo_approval_id r \<and> ap_status a = Pending \<and>
          ap_execution_id a = qi_executionId input \<and> ap_organization_id a = qi_organizationId input \<and>
          ap_artifact_hash a = Some (qi_artifactHash input) \<and> ap_requested_by a = qi_requestedBy input) \<and>
       (\<exists>e. events_of (qi_executionId input) w' = events_of (qi_executionId input) w @ [e] \<and>
          ev_event_type e = ''approval.requested'' \<and> ev_output_hash e = Some (qi_artifactHash input)) \<and>
       (\<exists>l. entries_of (qi_organizationId input) w' = entries_of (qi_organizationId input) w @ [l] \<and>
          le_entry_type l = ApprovalRequested) \<and>
       (\<exists>x\<in>set (executions w'). ex_id x = qi_executionId input \<and> ex_status x = WaitingApproval))"
proof (cases res)
  case (Inl e)
  have "tables_equal w w' \<and> approvals w' = approvals w"
    using assms(1) unfolding Inl requestExecutionApproval_def
    by (auto simp: inl_iffs requireScopedOpen_Inr basic_Inr dest: requireScopedOpen_Inl)
  with Inl show ?thesis by simp
next
  case (Inr r)
  from assms(1) Inr obtain x i where
    x: "find (\<lambda>r. ex_id r = qi_executionId input \<and> ex_organization_id r = qi_organizationId input) (executions w) = Some x"
    and body: "request_approval_body E input x w = (Inr i, w')" and r: "vo_approval_id r = i"
    by (auto simp: requestExecutionApproval_def requireScopedOpen_Inr inr_iffs)
  note xin = find_SomeD [OF x]
  define a where "a = new_approval E input x (draws w)"
  define u1 where u1: "u1 = w\<lparr>draws := Suc (Suc (draws w)), approvals := approvals w @ [a]\<rparr>"
  obtain p u2 ev u3 opened l where
    ev: "appendExecutionEventInTransaction E (event_of x ''approval.requested'' ''started'' p
       (Some (qi_artifactHash input)) u2) u1 = (Inr ev, u3)"
    and l: "appendLedgerEntryInTransaction E (approval_requested_append x opened) u3 = (Inr l, w')"
    using request_approval_body_Inr [OF body] unfolding u1 a_def by blast
  have a: "ap_id a = i" "ap_status a = Pending" "ap_execution_id a = ex_id x"
      "ap_organization_id a = ex_organization_id x" "ap_artifact_hash a = Some (qi_artifactHash input)"
      "ap_requested_by a = qi_requestedBy input"
    using request_approval_body_Inr [OF body] by (simp_all add: a_def new_approval_def)
  have te: "tables_equal w u1" by (simp add: u1 tables_equal_def)
  then have inv1: "audit_inv E u1" using audit_inv_tables [of w u1 E] assms(2) by simp
  note inv3 = audit_inv_append_event(1) [OF ev inv1]
  note inv = audit_inv_append(1) [OF l inv3]
  have ok3: "executions_ok u3" using inv3 by (simp add: audit_inv_def)
  note ap = append_Inr [OF l ok3]
  note eva = append_event_Inr [OF ev]
  have "rest_is (audit_world.more u3) w'"
    by (rule preservesD [OF rest_append l]) (simp add: rest_is_def)
  then have "approvals w' = approvals w @ [a]"
    using rest_command(1) [of u3 w'] append_event_other(1) [OF ev] by (simp add: u1)
  moreover have "events_of (qi_executionId input) w' = events_of (qi_executionId input) w @ [ev]"
    "ev_event_type ev = ''approval.requested''" "ev_output_hash ev = Some (qi_artifactHash input)"
    using eva ap(1) xin by (auto simp: event_appended_def appended_def events_of_def event_of_def u1)
  moreover have "entries_of (qi_organizationId input) w' = entries_of (qi_organizationId input) w @ [l]"
    "le_entry_type l = ApprovalRequested"
    using eva ap(1) xin by (auto simp: event_appended_def appended_def entries_of_def approval_requested_append_def u1)
  moreover obtain v t where v: "executions v = executions u3"
      "update_execution_for_entry (approval_requested_append x opened) (le_id l) t v = (Inr (), w')"
    using ap(7) by blast
  moreover have "\<exists>y\<in>set (executions w'). ex_id y = qi_executionId input \<and> ex_status y = WaitingApproval"
  proof -
    have st: "setExecutionStatus (ex_id x) WaitingApproval (Some (ex_organization_id x)) None None v = (Inr (), w')"
      using v(2) by (simp add: update_execution_for_entry_def approval_requested_append_def)
    have "executions_ok v" using ok3 v(1) by (simp add: executions_ok_def)
    from setExecutionStatus_cases [OF st this] obtain y where "y \<in> set (executions v)" "ex_id y = ex_id x"
        "w' = v\<lparr>executions := update_where (\<lambda>r. ex_id r = ex_id x) (status_update (WaitingApproval, None, None)) (executions v)\<rparr>"
      by (metis Inl_Inr_False)
    then show ?thesis using xin
      by (intro bexI [of _ "status_update (WaitingApproval, None, None) y"]) (auto simp: update_where_def)
  qed
  ultimately show ?thesis using Inr inv a r xin by auto
qed

subsection \<open>Deciding\<close>

lemma load_bound_Inr:
  assumes "load_bound_approval input x w = (Inr h, w')"
  shows "w' = w \<and> h = di_artifactHash input \<and>
    (\<exists>a. find (\<lambda>a. ap_id a = di_approvalId input \<and> ap_organization_id a = ex_organization_id x) (approvals w) = Some a \<and>
       ap_execution_id a = ex_id x \<and> ap_artifact_hash a = Some (di_artifactHash input))"
  using assms
  by (auto simp: load_bound_approval_def getApproval_def Let_def inr_iffs assertSha256_def split: option.splits if_splits)

lemma record_decision_Inr:
  assumes "record_decision E input x h w = (Inr (), w')"
  obtains u p meta row v where
    "decideApproval E (ex_organization_id x) (di_approvalId input) (di_actorId input) (di_allow input) w = (Inr (), u)"
    "appendExecutionEvent E Pool (event_of x (if di_allow input then ''approval.approved'' else ''approval.rejected'')
       (if di_allow input then ''ok'' else ''denied'') p (Some h) meta) u = (Inr row, v)"
    "if di_allow input \<and> ex_status x = WaitingApproval
     then setExecutionStatus (ex_id x) Running (Some (ex_organization_id x)) None None v = (Inr (), w') else w' = v"
  using assms unfolding record_decision_def lastEventId_def listExecutionEvents_def bindE_Inr basic_Inr
  by (elim exE conjE, simp only: simp_thms prod.inject sum.inject) (rule that, simp_all)

lemma decide_parts:
  assumes "decideExecutionApproval E input w = (Inr r, w')"
  obtains x roleId policy w1 where
    "find (\<lambda>r. ex_id r = di_executionId input \<and> ex_organization_id r = di_organizationId input) (executions w) = Some x"
    "load_bound_approval input x w = (Inr (di_artifactHash input), w)"
    "role_of_member (di_actorId input) (ex_organization_id x) w = (Inr (Some roleId), w)"
    "evaluatePolicy E \<lparr>ei_organizationId = ex_organization_id x, ei_actorId = di_actorId input,
       ei_roleId = roleId, ei_action = ApprovalDecide (di_approvalId input)\<rparr> w = (Inr policy, w1)" "pd_decision policy = Allow"
    "record_decision E input x (di_artifactHash input) w1 = (Inr (), w')"
    "vo_status r = (if di_allow input then ''approved'' else ''rejected'')"
proof -
  from assms obtain x h w0 roleId policy w1 where
    "find (\<lambda>r. ex_id r = di_executionId input \<and> ex_organization_id r = di_organizationId input) (executions w) = Some x"
    and b: "load_bound_approval input x w = (Inr h, w0)"
    and m: "map_option mb_role_id (find (\<lambda>m. mb_user_id m = di_actorId input \<and>
       mb_organization_id m = ex_organization_id x) (memberships w0)) = Some roleId"
    and "evaluatePolicy E \<lparr>ei_organizationId = ex_organization_id x, ei_actorId = di_actorId input,
       ei_roleId = roleId, ei_action = ApprovalDecide (di_approvalId input)\<rparr> w0 = (Inr policy, w1)" "pd_decision policy = Allow"
    "record_decision E input x h w1 = (Inr (), w')"
    "vo_status r = (if di_allow input then ''approved'' else ''rejected'')"
    unfolding decideExecutionApproval_def getExecution_def role_of_member_def bindE_Inr basic_Inr
    by (elim exE conjE, simp only: simp_thms prod.inject sum.inject option.inject) (rule that, simp_all)
  with load_bound_Inr [OF b] that show ?thesis by (auto simp: role_of_member_def basic_Inr)
qed

lemma decide_Inr:
  assumes "decideExecutionApproval E input w = (Inr r, w')" and "command_inv w"
  obtains x a roleId s now n p meta u row v where
    "x \<in> set (executions w)" "ex_id x = di_executionId input" "ex_organization_id x = di_organizationId input"
    "a \<in> set (approvals w)" "ap_id a = di_approvalId input" "ap_organization_id a = ex_organization_id x"
    "ap_execution_id a = ex_id x" "ap_artifact_hash a = Some (di_artifactHash input)"
    "ap_requested_by a \<noteq> di_actorId input" "ap_status a = Pending"
    "role_of_member (di_actorId input) (ex_organization_id x) w = (Inr (Some roleId), w)"
    "granted (ex_organization_id x) ''approvals.decide'' roleId w s"
    "u = w\<lparr>draws := n, approvals := update_where (\<lambda>b. ap_id b = di_approvalId input)
       (decided (di_actorId input, di_allow input, now)) (approvals w)\<rparr>"
    "appendExecutionEvent E Pool (event_of x (if di_allow input then ''approval.approved'' else ''approval.rejected'')
       (if di_allow input then ''ok'' else ''denied'') p (Some (di_artifactHash input)) meta) u = (Inr row, v)"
    "if di_allow input \<and> ex_status x = WaitingApproval
     then setExecutionStatus (ex_id x) Running (Some (ex_organization_id x)) None None v = (Inr (), w') else w' = v"
    "vo_status r = (if di_allow input then ''approved'' else ''rejected'')"
proof -
  from assms(1) obtain x roleId policy w1 where
    x: "find (\<lambda>r. ex_id r = di_executionId input \<and> ex_organization_id r = di_organizationId input) (executions w) = Some x"
    and bound: "load_bound_approval input x w = (Inr (di_artifactHash input), w)"
    and member: "role_of_member (di_actorId input) (ex_organization_id x) w = (Inr (Some roleId), w)"
    and policy: "evaluatePolicy E \<lparr>ei_organizationId = ex_organization_id x, ei_actorId = di_actorId input,
       ei_roleId = roleId, ei_action = ApprovalDecide (di_approvalId input)\<rparr> w = (Inr policy, w1)" "pd_decision policy = Allow"
    and rec: "record_decision E input x (di_artifactHash input) w1 = (Inr (), w')"
    and st: "vo_status r = (if di_allow input then ''approved'' else ''rejected'')"
    by (rule decide_parts)
  obtain u p meta row v where
    dec: "decideApproval E (ex_organization_id x) (di_approvalId input) (di_actorId input) (di_allow input) w1 = (Inr (), u)"
    and ev: "appendExecutionEvent E Pool (event_of x (if di_allow input then ''approval.approved'' else ''approval.rejected'')
       (if di_allow input then ''ok'' else ''denied'') p (Some (di_artifactHash input)) meta) u = (Inr row, v)"
    and fin: "if di_allow input \<and> ex_status x = WaitingApproval
     then setExecutionStatus (ex_id x) Running (Some (ex_organization_id x)) None None v = (Inr (), w') else w' = v"
    by (rule record_decision_Inr [OF rec])
  from load_bound_Inr [OF bound] obtain a where a: "find (\<lambda>a. ap_id a = di_approvalId input \<and> ap_organization_id a = ex_organization_id x) (approvals w) = Some a"
      "ap_execution_id a = ex_id x" "ap_artifact_hash a = Some (di_artifactHash input)" by blast
  note ain = find_SomeD [OF a(1)]
  have w1: "w1 = w\<lparr>draws := Suc (draws w)\<rparr>" and vd: "verdict_value (policy_verdict \<lparr>ei_organizationId = ex_organization_id x,
       ei_actorId = di_actorId input, ei_roleId = roleId, ei_action = ApprovalDecide (di_approvalId input)\<rparr> w) = Allow"
    using evaluatePolicy_value [of E "\<lparr>ei_organizationId = ex_organization_id x, ei_actorId = di_actorId input,
       ei_roleId = roleId, ei_action = ApprovalDecide (di_approvalId input)\<rparr>" w] policy by auto
  from approval_allow_separates [OF vd] obtain b s where b: "b \<in> set (approvals w)" "ap_id b = di_approvalId input"
      "ap_requested_by b \<noteq> di_actorId input" "granted (ex_organization_id x) ''approvals.decide'' roleId w s" by blast
  have ids: "distinct (map ap_id (approvals w))" using assms(2) by (simp add: command_inv_def)
  have "b = a" using key_eq [OF ids b(1)] ain b(2) by simp
  let ?sel = "\<lambda>c. ap_id c = di_approvalId input \<and> ap_organization_id c = ex_organization_id x \<and> ap_status c = Pending"
  from dec obtain now where d: "count_where ?sel (approvals w) = 1"
      "u = w\<lparr>draws := Suc (Suc (draws w)), approvals := update_where ?sel (decided (di_actorId input, di_allow input, now)) (approvals w)\<rparr>"
    by (auto simp: decideApproval_run Let_def w1 split: if_splits)
  then obtain c where c: "c \<in> set (approvals w)" "?sel c" using count_where_pos [of ?sel "approvals w"] by auto
  have "c = a" using key_eq [OF ids c(1)] ain c(2) by simp
  have sel: "?sel e \<longleftrightarrow> ap_id e = di_approvalId input" if "e \<in> set (approvals w)" for e
    using key_eq [OF ids that c(1)] c(2) by auto
  then have "update_where ?sel f (approvals w) = update_where (\<lambda>b. ap_id b = di_approvalId input) f (approvals w)" for f
    unfolding update_where_def by (intro map_cong) auto
  then show ?thesis
    using that [of x a roleId s u now "Suc (Suc (draws w))" p meta row v] find_SomeD [OF x] ain a b \<open>b = a\<close> \<open>c = a\<close> c d ev fin st member
    by simp
qed

text \<open>The last step: an execution that waits runs again, if the answer is yes.\<close>

lemma resume_execution:
  assumes "if ok \<and> ex_status x = WaitingApproval
     then setExecutionStatus (ex_id x) Running (Some org) None None v = (Inr (), w') else w' = v"
    and "x \<in> set (executions v)" and "audit_inv E v"
  shows "approvals w' = approvals v" "execution_events w' = execution_events v"
    "map ex_status (executions w') = map (\<lambda>y. if ex_id y = ex_id x \<and> ok \<and> ex_status y = WaitingApproval
       then Running else ex_status y) (executions v)"
    "audit_inv E w'"
proof -
  have ok: "executions_ok v" using assms(3) by (simp add: audit_inv_def)
  then have "distinct (map ex_id (executions v))" by (simp add: executions_ok_def)
  from key_eq [OF this _ assms(2)] have only: "y = x" if "y \<in> set (executions v)" "ex_id y = ex_id x" for y
    using that by simp
  have "approvals w' = approvals v \<and> execution_events w' = execution_events v \<and>
      map ex_status (executions w') = map (\<lambda>y. if ex_id y = ex_id x \<and> ok \<and> ex_status y = WaitingApproval
        then Running else ex_status y) (executions v) \<and> audit_inv E w'"
  proof (cases "ok \<and> ex_status x = WaitingApproval")
    case True
    with assms(1) have st: "setExecutionStatus (ex_id x) Running (Some org) None None v = (Inr (), w')" by simp
    from setExecutionStatus_cases [OF st ok] have
        "w' = v\<lparr>executions := update_where (\<lambda>r. ex_id r = ex_id x) (status_update (Running, None, None)) (executions v)\<rparr>"
      by (metis Inl_Inr_False)
    then show ?thesis using audit_inv_setStatus(1) [OF st assms(3)] True only
      by (auto simp: update_where_def status_update_def)
  next
    case False
    with assms(1) have "w' = v" by simp
    with False show ?thesis using assms(3) only by auto
  qed
  then show "approvals w' = approvals v" "execution_events w' = execution_events v"
    "map ex_status (executions w') = map (\<lambda>y. if ex_id y = ex_id x \<and> ok \<and> ex_status y = WaitingApproval
       then Running else ex_status y) (executions v)"
    "audit_inv E w'" by simp_all
qed

text \<open>C22: Only the right person decides an approval, and on the right artifact.  When a decision succeeds, the
  approval was pending, belonged to this execution and organization, was bound to exactly the artifact
  hash the decider submitted, and was requested by somebody else; the decider's membership gives a role
  that a skill grant for \<open>approvals.decide\<close> names.  That approval and no other is updated, the decision is
  the last event of the execution, an execution that waited resumes when the answer is yes and no other
  execution changes its status, and the invariant of the audit store holds.\<close>

theorem decideExecutionApproval_sound:
  assumes "decideExecutionApproval E input w = (Inr r, w')" and "command_inv w" and "audit_inv E w"
  shows "(\<exists>a\<in>set (approvals w). ap_id a = di_approvalId input \<and> ap_status a = Pending \<and>
       ap_execution_id a = di_executionId input \<and> ap_organization_id a = di_organizationId input \<and>
       ap_artifact_hash a = Some (di_artifactHash input) \<and> ap_requested_by a \<noteq> di_actorId input) \<and>
    (\<exists>roleId s. role_of_member (di_actorId input) (di_organizationId input) w = (Inr (Some roleId), w) \<and>
       granted (di_organizationId input) ''approvals.decide'' roleId w s) \<and>
    (\<exists>now. approvals w' = update_where (\<lambda>a. ap_id a = di_approvalId input)
       (decided (di_actorId input, di_allow input, now)) (approvals w)) \<and>
    (\<exists>e. events_of (di_executionId input) w' = events_of (di_executionId input) w @ [e] \<and>
       ev_output_hash e = Some (di_artifactHash input) \<and>
       ev_event_type e = (if di_allow input then ''approval.approved'' else ''approval.rejected'')) \<and>
    map ex_status (executions w') = map (\<lambda>x. if ex_id x = di_executionId input \<and> di_allow input \<and>
       ex_status x = WaitingApproval then Running else ex_status x) (executions w) \<and>
    audit_inv E w'"
proof -
  from assms(1,2) obtain x a roleId s now n p meta u row v where
    x: "x \<in> set (executions w)" "ex_id x = di_executionId input" "ex_organization_id x = di_organizationId input"
    and a: "a \<in> set (approvals w)" "ap_id a = di_approvalId input" "ap_organization_id a = ex_organization_id x"
    "ap_execution_id a = ex_id x" "ap_artifact_hash a = Some (di_artifactHash input)"
    "ap_requested_by a \<noteq> di_actorId input" "ap_status a = Pending"
    and g: "role_of_member (di_actorId input) (ex_organization_id x) w = (Inr (Some roleId), w)"
      "granted (ex_organization_id x) ''approvals.decide'' roleId w s"
    and u: "u = w\<lparr>draws := n, approvals := update_where (\<lambda>b. ap_id b = di_approvalId input)
       (decided (di_actorId input, di_allow input, now)) (approvals w)\<rparr>"
    and ev: "appendExecutionEvent E Pool (event_of x (if di_allow input then ''approval.approved'' else ''approval.rejected'')
       (if di_allow input then ''ok'' else ''denied'') p (Some (di_artifactHash input)) meta) u = (Inr row, v)"
    and fin: "if di_allow input \<and> ex_status x = WaitingApproval
     then setExecutionStatus (ex_id x) Running (Some (ex_organization_id x)) None None v = (Inr (), w') else w' = v"
    by (rule decide_Inr)
  have tx: "appendExecutionEventInTransaction E (event_of x (if di_allow input then ''approval.approved'' else ''approval.rejected'')
       (if di_allow input then ''ok'' else ''denied'') p (Some (di_artifactHash input)) meta) u = (Inr row, v)"
    using ev by (cases rule: appendExecutionEvent_cases) auto
  have "tables_equal w u" by (simp add: u tables_equal_def)
  then have "audit_inv E u" using audit_inv_tables [of w u E] assms(3) by simp
  note inv = audit_inv_append_event(1) [OF tx this]
  note app = append_event_Inr [OF tx]
  have v: "executions v = executions w" "approvals v = approvals u"
      "events_of (di_executionId input) v = events_of (di_executionId input) w @ [row]"
      "ev_output_hash row = Some (di_artifactHash input)"
      "ev_event_type row = (if di_allow input then ''approval.approved'' else ''approval.rejected'')"
    using app x rest_command(1) [of u v] append_event_other(1) [OF tx]
    by (auto simp: event_appended_def events_of_def event_of_def u)
  have "x \<in> set (executions v)" using v(1) x(1) by simp
  from resume_execution [OF fin this inv] show ?thesis
    using x a g v u by (auto simp: events_of_def)
qed

text \<open>Deciding an approval of an execution that has ended puts its evidence out of step.  The decision
  does not look at the status of the execution: an approval still pending when the execution was sealed
  can be decided afterwards, the decision is appended to the events of the sealed execution, and the
  graph rebuilt from the events has a hash that differs from the sealed one, or there is a collision of
  the hash function.\<close>

theorem decision_on_ended_execution:
  assumes "decideExecutionApproval E input w = (Inr r, w')" and "command_inv w" and "audit_inv E w"
    and "crypto_ok C"
    and "x \<in> set (executions w)" and "ex_id x = di_executionId input" and "terminal (ex_status x)"
    and "buildExecutionGraphV2 (graph_execution_of x (ex_status x)) (events_of (ex_id x) w) = Inr sealed"
    and "computeExecutionGraphHash C (graph_json sealed) = Inr h"
  shows "x \<in> set (executions w') \<and> (\<exists>g.
    buildExecutionGraphV2 (graph_execution_of x (ex_status x)) (events_of (ex_id x) w') = Inr g \<and>
    (computeExecutionGraphHash C (graph_json g) \<noteq> Inr h \<or>
     collision C (graph_bytes (graph_json g)) (graph_bytes (graph_json sealed))))"
proof -
  from assms(1,2) obtain y a roleId s now n p meta u row v where
    y: "y \<in> set (executions w)" "ex_id y = di_executionId input"
    and u: "u = w\<lparr>draws := n, approvals := update_where (\<lambda>b. ap_id b = di_approvalId input)
       (decided (di_actorId input, di_allow input, now)) (approvals w)\<rparr>"
    and ev: "appendExecutionEvent E Pool (event_of y (if di_allow input then ''approval.approved'' else ''approval.rejected'')
       (if di_allow input then ''ok'' else ''denied'') p (Some (di_artifactHash input)) meta) u = (Inr row, v)"
    and fin: "if di_allow input \<and> ex_status y = WaitingApproval
     then setExecutionStatus (ex_id y) Running (Some (ex_organization_id y)) None None v = (Inr (), w') else w' = v"
    by (rule decide_Inr)
  have tx: "appendExecutionEventInTransaction E (event_of y (if di_allow input then ''approval.approved'' else ''approval.rejected'')
       (if di_allow input then ''ok'' else ''denied'') p (Some (di_artifactHash input)) meta) u = (Inr row, v)"
    using ev by (cases rule: appendExecutionEvent_cases) auto
  have "tables_equal w u" by (simp add: u tables_equal_def)
  then have inv: "audit_inv E u" using audit_inv_tables [of w u E] assms(3) by simp
  have "distinct (map ex_id (executions w))" using assms(3) by (simp add: audit_inv_def executions_ok_def)
  from key_eq [OF this y(1) assms(5)] have "y = x" using y assms(6) by simp
  then have "w' = v" using fin assms(7) by (auto simp: terminal_def split: if_splits)
  have "events_of (ex_id x) u = events_of (ex_id x) w" by (simp add: u events_of_def)
  with appended_graph_differs [OF assms(4) inv _ tx, of x sealed h] show ?thesis
    using assms(5,6,8,9) by (simp add: u event_of_def \<open>w' = v\<close> \<open>y = x\<close>)
qed

subsection \<open>A concrete case\<close>

definition sample_digest :: string where
  "sample_digest = replicate 64 (CHR ''a'')"

definition lifecycle_world :: "execution_status \<Rightarrow> approval_status \<Rightarrow> command_world" where
  "lifecycle_world st ap = sample_command\<lparr>executions := [sample_execution\<lparr>ex_status := st\<rparr>],
     users := [\<lparr>us_id = ''u1'', us_email = ''a@b.c'', us_password_hash = '''', us_display_name = ''A'', us_disabled_at = None\<rparr>,
       \<lparr>us_id = ''u2'', us_email = ''b@b.c'', us_password_hash = '''', us_display_name = ''B'', us_disabled_at = None\<rparr>],
     memberships := [\<lparr>mb_id = ''m1'', mb_organization_id = ''org'', mb_user_id = ''u1'', mb_role_id = ''r1'', mb_created_at = 0\<rparr>,
       \<lparr>mb_id = ''m2'', mb_organization_id = ''org'', mb_user_id = ''u2'', mb_role_id = ''r1'', mb_created_at = 0\<rparr>],
     approvals := [\<lparr>ap_id = ''a1'', ap_organization_id = ''org'', ap_execution_id = ''e1'',
        ap_skill_id = ''nova.social.draft'', ap_requested_by = ''u1'', ap_decided_by = None,
        ap_status = ap, ap_reason_code = None, ap_artifact_hash = Some sample_digest, ap_created_at = 0,
        ap_decided_at = None\<rparr>]\<rparr>"

definition sample_decision :: decide_approval_input where
  "sample_decision = \<lparr>di_organizationId = ''org'', di_executionId = ''e1'', di_approvalId = ''a1'',
     di_actorId = ''u2'', di_allow = True, di_artifactHash = sample_digest\<rparr>"

lemma lifecycle_world_invs:
  "command_inv (lifecycle_world st ap)" "audit_inv C (lifecycle_world st ap)"
proof -
  show "command_inv (lifecycle_world st ap)"
    using sample_command_inv(1) by (simp add: command_inv_def lifecycle_world_def)
  have "ledger_inv C (lifecycle_world st ap)"
    using ledger_inv_cong [of "lifecycle_world st ap" empty_audit C] ledger_inv_empty [of C]
    by (simp add: lifecycle_world_def sample_command_def open_connector_world_def auth_world.defs sample_auth_def
        empty_auth_def audit_world.defs empty_audit_def)
  then show "audit_inv C (lifecycle_world st ap)"
    by (simp add: audit_inv_def events_inv_def executions_ok_def lifecycle_world_def sample_command_def
        open_connector_world_def auth_world.defs sample_auth_def empty_auth_def audit_world.defs empty_audit_def
        events_of_def)
qed

lemma sample_digest_ok: "isSha256Hex sample_digest"
  by code_simp

lemma sample_decision_policy:
  "\<exists>d. evaluatePolicy sample_clock_env \<lparr>ei_organizationId = ''org'', ei_actorId = ''u2'', ei_roleId = ''r1'',
      ei_action = ApprovalDecide ''a1''\<rparr> (lifecycle_world st Pending) =
     (Inr d, (lifecycle_world st Pending)\<lparr>draws := Suc (draws (lifecycle_world st Pending))\<rparr>) \<and> pd_decision d = Allow"
  by (simp add: evaluatePolicy_def run policy_verdict_def loadActivePolicy_def active_bindings_def
      approval_verdict_def skill_grants_def decision_run lifecycle_world_def sample_command_def open_connector_world_def
      auth_world.defs)

lemma sample_decision_event:
  assumes "tables_equal (lifecycle_world st Pending) w"
  shows "\<exists>row w'. appendExecutionEvent sample_clock_env Pool (event_of (sample_execution\<lparr>ex_status := st\<rparr>)
    ''approval.approved'' ''ok'' None (Some sample_digest)
    [(''approval_id'', JStr ''a1''), (''artifact_hash'', JStr sample_digest), (''decided_by'', JStr ''u2'')]) w =
    (Inr row, w')" (is "\<exists>row w'. appendExecutionEvent _ _ ?e _ = _")
proof -
  have "execution_events w = []" "executions w = [sample_execution\<lparr>ex_status := st\<rparr>]"
    using assms by (simp_all add: tables_equal_def lifecycle_world_def sample_command_def open_connector_world_def
        auth_world.defs sample_auth_def empty_auth_def audit_world.defs empty_audit_def)
  moreover have "assertEventEvidence ?e = Inr ()"
    unfolding event_of_def sample_execution_def by code_simp
  moreover have "event_time sample_clock_env ?e w = iso_string 1767225600000"
    by (simp add: event_time_def event_of_def sample_clock_time)
  ultimately have "event_ready sample_clock_env ?e w"
    using sample_clock_time(1)
    by (auto simp: event_ready_def event_of_def events_of_def sample_execution_def)
  from append_event_succeeds [OF _ _ this] show ?thesis
    using lifecycle_world_invs(2) [of sample_clock_env st Pending] audit_inv_tables [OF assms, of sample_clock_env]
    by (auto simp: appendExecutionEvent_def inr_iffs assertEventsPool_def audit_inv_def)
qed

lemma sample_decision_succeeds:
  assumes "st \<noteq> WaitingApproval"
  shows "\<exists>r w'. decideExecutionApproval sample_clock_env sample_decision (lifecycle_world st Pending) = (Inr r, w')"
proof -
  let ?w = "lifecycle_world st Pending" and ?x = "sample_execution\<lparr>ex_status := st\<rparr>"
  obtain d where d: "evaluatePolicy sample_clock_env \<lparr>ei_organizationId = ''org'', ei_actorId = ''u2'',
      ei_roleId = ''r1'', ei_action = ApprovalDecide ''a1''\<rparr> ?w = (Inr d, ?w\<lparr>draws := Suc (draws ?w)\<rparr>)"
      "pd_decision d = Allow"
    using sample_decision_policy by blast
  obtain w2 where dec: "decideApproval sample_clock_env ''org'' ''a1'' ''u2'' True (?w\<lparr>draws := Suc (draws ?w)\<rparr>) = (Inr (), w2)"
      "tables_equal ?w w2"
    by (simp add: decideApproval_run lifecycle_world_def count_where_def user_exists_def Let_def tables_equal_def)
  obtain row w' where ev: "appendExecutionEvent sample_clock_env Pool (event_of ?x ''approval.approved'' ''ok'' None
      (Some sample_digest) [(''approval_id'', JStr ''a1''), (''artifact_hash'', JStr sample_digest),
      (''decided_by'', JStr ''u2'')]) w2 = (Inr row, w')"
    using sample_decision_event [OF dec(2)] by blast
  have e2: "execution_events w2 = []"
    using dec(2) by (simp add: tables_equal_def lifecycle_world_def sample_command_def open_connector_world_def
        auth_world.defs sample_auth_def empty_auth_def audit_world.defs empty_audit_def)
  have x: "ex_id ?x = ''e1''" "ex_organization_id ?x = ''org''" "ex_status ?x = st"
    by (simp_all add: sample_execution_def)
  have rec: "record_decision sample_clock_env sample_decision ?x sample_digest (?w\<lparr>draws := Suc (draws ?w)\<rparr>) = (Inr (), w')"
    using assms dec(1) ev by (simp add: record_decision_def lastEventId_def listExecutionEvents_def run x e2 sample_decision_def
        last_row_def)
  have get: "getExecution ''org'' ''e1'' ?w = (Inr (Some ?x), ?w)"
    by (simp add: getExecution_def run lifecycle_world_def sample_execution_def)
  have bound: "load_bound_approval sample_decision ?x ?w = (Inr sample_digest, ?w)"
    using sample_digest_ok
    by (simp add: load_bound_approval_def getApproval_def run lifecycle_world_def sample_execution_def sample_decision_def
        assertSha256_def truthy_def sample_digest_def)
  have mem: "role_of_member ''u2'' ''org'' ?w = (Inr (Some ''r1''), ?w)"
    by (simp add: role_of_member_def run lifecycle_world_def)
  show ?thesis
    using d(2) by (simp add: decideExecutionApproval_def sample_decision_def run get x bound [unfolded sample_decision_def]
        mem d(1) rec [unfolded sample_decision_def])
qed

theorem decideExecutionApproval_sound_witness:
  "\<exists>w' a. approvals w' = [a] \<and> ap_status a = Approved \<and> ap_decided_by a = Some ''u2'' \<and>
     fst (decideExecutionApproval sample_clock_env sample_decision (lifecycle_world Running Pending)) \<noteq> Inl approval_not_pending \<and>
     snd (decideExecutionApproval sample_clock_env sample_decision (lifecycle_world Running Pending)) = w'"
proof -
  obtain r w' where run: "decideExecutionApproval sample_clock_env sample_decision (lifecycle_world Running Pending) = (Inr r, w')"
    using sample_decision_succeeds by blast
  from decideExecutionApproval_sound [OF run lifecycle_world_invs] obtain now where
    "approvals w' = update_where (\<lambda>a. ap_id a = ''a1'') (decided (''u2'', True, now)) (approvals (lifecycle_world Running Pending))"
    by (auto simp: sample_decision_def)
  then show ?thesis using run by (simp add: update_where_def lifecycle_world_def decided_def)
qed

theorem decision_on_ended_execution_witness:
  "\<exists>w' g g0 h. snd (decideExecutionApproval sample_clock_env sample_decision (lifecycle_world Completed Pending)) = w' \<and>
     computeExecutionGraphHash sample_clock_env (graph_json g0) = Inr h \<and>
     (computeExecutionGraphHash sample_clock_env (graph_json g) \<noteq> Inr h \<or>
      collision sample_clock_env (graph_bytes (graph_json g)) (graph_bytes (graph_json g0))) \<and>
     buildExecutionGraphV2 (graph_execution_of (sample_execution\<lparr>ex_status := Completed\<rparr>) Completed) (events_of ''e1'' w') = Inr g"
proof -
  let ?w = "lifecycle_world Completed Pending" and ?x = "sample_execution\<lparr>ex_status := Completed\<rparr>"
  obtain r w' where run: "decideExecutionApproval sample_clock_env sample_decision ?w = (Inr r, w')"
    using sample_decision_succeeds by blast
  have es: "events_of ''e1'' ?w = []"
    by (simp add: events_of_def lifecycle_world_def sample_command_def open_connector_world_def
        auth_world.defs sample_auth_def empty_auth_def audit_world.defs empty_audit_def)
  obtain g0 where g0: "buildExecutionGraphV2 (graph_execution_of ?x Completed) [] = Inr g0"
    using events_from_build [of "''org''" "[]"] by auto
  obtain h where h: "computeExecutionGraphHash sample_clock_env (graph_json g0) = Inr h"
    using graph_hash_total [OF g0] by auto
  have x: "?x \<in> set (executions ?w)" "ex_id ?x = di_executionId sample_decision" "terminal (ex_status ?x)"
    by (simp_all add: lifecycle_world_def sample_execution_def sample_decision_def terminal_def)
  from decision_on_ended_execution [OF run lifecycle_world_invs sample_clock_ok(1) x _ h] g0 es show ?thesis
    using run h by (auto simp: sample_execution_def)
qed

lemma lifecycle_world_tables:
  "executions (lifecycle_world st ap) = [sample_execution\<lparr>ex_status := st\<rparr>]"
  "execution_events (lifecycle_world st ap) = []" "ledger_entries (lifecycle_world st ap) = []"
  "merkle_checkpoints (lifecycle_world st ap) = []" "chain_state (lifecycle_world st ap) = []"
  by (simp_all add: lifecycle_world_def sample_command_def open_connector_world_def auth_world.defs sample_auth_def
        empty_auth_def audit_world.defs empty_audit_def)

definition sample_request :: approval_request_input where
  "sample_request = \<lparr>qi_organizationId = ''org'', qi_executionId = ''e1'', qi_skillId = ''nova.social.draft'',
     qi_requestedBy = ''u1'', qi_artifactHash = sample_digest\<rparr>"

lemma sample_request_succeeds:
  "\<exists>r w'. requestExecutionApproval sample_clock_env sample_request
     ((lifecycle_world Running Pending)\<lparr>approvals := []\<rparr>) = (Inr r, w')"
proof -
  let ?E = sample_clock_env and ?w = "(lifecycle_world Running Pending)\<lparr>approvals := []\<rparr>"
  let ?x = "sample_execution\<lparr>ex_status := Running\<rparr>"
  let ?a = "new_approval ?E sample_request ?x (draws ?w)"
  let ?u = "?w\<lparr>draws := Suc (Suc (draws ?w)), approvals := [?a]\<rparr>"
  let ?e = "event_of ?x ''approval.requested'' ''started'' None (Some sample_digest)
    [(''approval_id'', JStr (ap_id ?a)), (''skill_id'', JStr ''nova.social.draft''), (''artifact_hash'', JStr sample_digest)]"
  note tabs = lifecycle_world_tables
  have x: "ex_id ?x = ''e1''" "ex_organization_id ?x = ''org''" "ex_status ?x = Running"
    by (simp_all add: sample_execution_def)
  have inv: "audit_inv ?E ?u"
    using lifecycle_world_invs(2) [of ?E Running Pending]
      audit_inv_tables [of "lifecycle_world Running Pending" ?u ?E] by (simp add: tables_equal_def)
  have "assertEventEvidence ?e = Inr ()"
    using sample_digest_ok encode_total [of "event_metadata ?e"]
    by (simp add: assertEventEvidence_def assertSha256Hex_def event_of_def event_metadata_def
        canonicalize_def EXECUTION_EVENT_TYPES_def)
  moreover have "event_time ?E ?e ?u = iso_string 1767225600000"
    by (simp add: event_time_def event_of_def sample_clock_time)
  ultimately have "event_ready ?E ?e ?u"
    using sample_clock_time(1) by (auto simp: event_ready_def event_of_def events_of_def tabs x)
  from append_event_succeeds [OF _ _ this] inv obtain row w2 where
    ev: "appendExecutionEventInTransaction ?E ?e ?u = (Inr row, w2)" by (auto simp: audit_inv_def)
  have ev_x: "ev_execution_id row = ''e1''"
    and w2: "executions w2 = [?x]" "ledger_entries w2 = []" "merkle_checkpoints w2 = []" "chain_state w2 = []"
    using append_event_Inr [OF ev] tabs x by (auto simp: event_appended_def event_of_def)
  note inv2 = audit_inv_append_event(1) [OF ev inv]
  let ?l = "approval_requested_append ?x None"
  have "append_time ?E ?l w2 = iso_string 1767225600000"
    by (simp add: append_time_def approval_requested_append_def sample_clock_time)
  then have "append_ready ?E ?l w2"
    using sample_clock_time(1)
    by (auto simp: append_ready_def w2 x approval_requested_append_def target_status_def transition_simps latest_of_def)
  from append_succeeds [OF sample_clock_ok(1) _ _ this] inv2 obtain l w' where
    app: "appendLedgerEntryInTransaction ?E ?l w2 = (Inr l, w')" by (auto simp: audit_inv_def)
  have "org_exists (ex_organization_id sample_execution) ?u" "user_exists ''u1'' ?u"
    by (simp_all add: org_exists_def user_exists_def lifecycle_world_def sample_command_def open_connector_world_def
        auth_world.defs sample_auth_def sample_execution_def)
  then have "request_approval_body ?E sample_request ?x ?w = (Inr (ap_id ?a), w')"
    using ev app 
    by (simp add: org_exists_def user_exists_def request_approval_body_def nowE_def drawE_def insert_approval_def lastEventId_def
        listExecutionEvents_def loadRequestOpenedHash_def run new_approval_def sample_request_def tabs w2)
  moreover have "find (\<lambda>r. ex_id r = ''e1'' \<and> ex_organization_id r = ''org'') (executions ?w) = Some ?x"
    using x by (simp add: tabs)
  moreover have "user_exists ''u1'' ?w" by (simp add: user_exists_def lifecycle_world_def)
  moreover have "\<exists>m\<in>set (memberships ?w). mb_user_id m = ''u1'' \<and> mb_organization_id m = ''org''"
    by (simp add: lifecycle_world_def)
  ultimately show ?thesis using sample_digest_ok x
    by (simp add: requestExecutionApproval_def requireScopedOpen_def getExecution_def run run_txnE assertSha256_def
        sample_request_def sample_execution_def)
qed

theorem requestExecutionApproval_holds_witness:
  "\<exists>a w'. snd (requestExecutionApproval sample_clock_env sample_request
       ((lifecycle_world Running Pending)\<lparr>approvals := []\<rparr>)) = w' \<and>
     approvals w' = [a] \<and> ap_status a = Pending \<and> ap_artifact_hash a = Some sample_digest \<and>
     (\<exists>x\<in>set (executions w'). ex_id x = ''e1'' \<and> ex_status x = WaitingApproval)"
proof -
  let ?w = "(lifecycle_world Running Pending)\<lparr>approvals := []\<rparr>"
  obtain r w' where run: "requestExecutionApproval sample_clock_env sample_request ?w = (Inr r, w')"
    using sample_request_succeeds by blast
  have "audit_inv sample_clock_env ?w"
    using lifecycle_world_invs(2) [of sample_clock_env Running Pending]
      audit_inv_tables [of "lifecycle_world Running Pending" ?w sample_clock_env] by (simp add: tables_equal_def)
  from requestExecutionApproval_holds [OF run this] show ?thesis
    using run by (auto simp: sample_request_def)
qed

end
