(* ===== verification/SocialStore.thy ===== *)
theory SocialStore
  imports Connectors Lifecycle
begin

text \<open>
  The table \<open>social.content_items\<close>, as far as the services read and write it, with the columns of
  migrations 4 and 6 of \<open>db/migrations\<close>.
\<close>

datatype item_status =
  ItemPendingApproval | ItemApproved | ItemRejected | ItemPublishing | ItemScheduling | ItemPosted
  | ItemScheduled | ItemNeedsReview | ItemError

record content_item_row =
  it_id :: id
  it_organization_id :: id
  it_brand_id :: string
  it_platform :: string
  it_draft_text :: string
  it_status :: item_status
  it_execution_id :: "id option"
  it_verity_record_id :: "string option"
  it_artifact_hash :: string
  it_approval_id :: "id option"
  it_created_at :: int
  it_approved_at :: "int option"
  it_rejected_at :: "int option"
  it_connector_action_id :: "id option"
  it_scheduled_for :: "int option"
  it_external_action_id :: "string option"

record social_world = net_world +
  content_items :: "content_item_row list"

text \<open>The foreign key of \<open>connector_action_id\<close>, for an update that writes it into the rows of \<open>sel\<close>.\<close>

definition action_fk :: "(content_item_row \<Rightarrow> bool) \<Rightarrow> id \<Rightarrow> 'w social_world_scheme \<Rightarrow> bool" where
  "action_fk sel actionId w \<longleftrightarrow>
     (\<exists>i\<in>set (content_items w). sel i) \<longrightarrow> (\<exists>a\<in>set (connector_actions w). ca_id a = actionId)"

definition update_items ::
    "(content_item_row \<Rightarrow> bool) \<Rightarrow> id \<Rightarrow> (content_item_row \<Rightarrow> content_item_row) \<Rightarrow>
     (err, 'w social_world_scheme, unit) op" where
  "update_items sel actionId f =
     bindE (constraintE (action_fk sel actionId) foreign_key_violation) (\<lambda>_.
     modifyE (\<lambda>w. w\<lparr>content_items := update_where sel f (content_items w)\<rparr>))"

text \<open>\<open>$n::timestamptz\<close> of a parameter that may be null.\<close>

definition invalid_datetime :: err where
  "invalid_datetime = SqlError ''22007''"

definition cast_timestamptz :: "'a net_env_scheme \<Rightarrow> string option \<Rightarrow> err + int option" where
  "cast_timestamptz E value =
     (case value of None \<Rightarrow> Inr None
      | Some s \<Rightarrow> (case timestamptz E s of None \<Rightarrow> Inl invalid_datetime | Some t \<Rightarrow> Inr (Some t)))"

text \<open>\<open>COALESCE(a, b)\<close>.\<close>

definition coalesce :: "'a option \<Rightarrow> 'a option \<Rightarrow> 'a option" where
  "coalesce a b = (case a of None \<Rightarrow> b | Some _ \<Rightarrow> a)"

end
