(* ===== verification/Progress.thy ===== *)
theory Progress
  imports Seal
begin

text \<open>
  When the operations of the audit kernel succeed.  The identifiers in the store have been drawn from the
  injective stream of random identifiers before (\<open>ids_drawn\<close>), the clock reads four-digit years and the
  hash has its documented shape (\<open>sound_env\<close>); then an event with valid evidence is recorded, a prelude
  is, and an execution is sealed, unless two different ledger entries have the same SHA-256 hash.
\<close>

definition sound_env :: "'a env_scheme \<Rightarrow> bool" where
  "sound_env E \<longleftrightarrow> crypto_ok E \<and> (\<forall>n. four_digit_year (clock E n)) \<and> inj (randomUUID E)"

definition drawn :: "'a env_scheme \<Rightarrow> 'w world_scheme \<Rightarrow> id \<Rightarrow> bool" where
  "drawn E w i \<longleftrightarrow> (\<exists>n<draws w. i = randomUUID E n)"

definition ids_drawn :: "'a env_scheme \<Rightarrow> 'w audit_world_scheme \<Rightarrow> bool" where
  "ids_drawn E w \<longleftrightarrow>
     (\<forall>e\<in>set (execution_events w). drawn E w (ev_id e)) \<and>
     (\<forall>e\<in>set (ledger_entries w). drawn E w (le_id e)) \<and>
     (\<forall>c\<in>set (merkle_checkpoints w). drawn E w (mc_id c))"

lemma drawn_mono: "drawn E w i \<Longrightarrow> draws w \<le> draws w' \<Longrightarrow> drawn E w' i"
  unfolding drawn_def by (elim exE conjE) (rule exI, rule conjI, erule order_less_le_trans)

lemma drawn_fresh: "sound_env E \<Longrightarrow> drawn E w i \<Longrightarrow> i \<noteq> randomUUID E (draws w + n)"
  by (auto simp: sound_env_def drawn_def dest: injD)

lemma event_id_between:
  assumes "appendExecutionEventInTransaction E input w = (Inr row, w')"
  shows "\<exists>n. ev_id row = randomUUID E n \<and> draws w \<le> n \<and> n < draws w'"
proof -
  have n: "ev_id (normalizeEvent r) = ev_id r" for r by (simp add: normalizeEvent_def split: json.splits)
  from assms show ?thesis
    unfolding appendExecutionEventInTransaction_def Let_def inr_iffs drawE_Inr getExecution_def
    by (auto simp: n insert_event_Inr canonicalTimestampNow_def drawE_Inr basic_Inr bindE_Inr split: option.splits
        simp del: normalizeEvent_obj)
qed

subsection \<open>Events\<close>

text \<open>What adding events to an execution leaves: the rest of the store, and the invariants.\<close>

definition events_added :: "'a env_scheme \<Rightarrow> id \<Rightarrow> nat \<Rightarrow> 'w audit_world_scheme \<Rightarrow> 'w audit_world_scheme \<Rightarrow> bool" where
  "events_added E exec k w w' \<longleftrightarrow> audit_inv E w' \<and> ids_drawn E w' \<and> draws w \<le> draws w' \<and>
     (\<exists>new n. w' = w\<lparr>execution_events := execution_events w @ new, draws := n\<rparr> \<and> length new = k \<and>
        (\<forall>e\<in>set new. ev_execution_id e = exec))"

lemma events_added_trans:
  assumes "events_added E exec k u v" "events_added E exec l v w"
  shows "events_added E exec (k + l) u w"
  using assms by (fastforce simp: events_added_def)

lemma events_added_same:
  assumes "events_added E exec k w w'"
  shows "executions w' = executions w" "ledger_entries w' = ledger_entries w" "chain_state w' = chain_state w"
    "merkle_checkpoints w' = merkle_checkpoints w" "length (events_of exec w') = length (events_of exec w) + k"
    "ev_id ` set (events_of exec w) \<subseteq> ev_id ` set (events_of exec w')" "audit_inv E w'" "ids_drawn E w'"
    "draws w \<le> draws w'"
  using assms by (auto simp: events_added_def events_of_def filter_id_conv)

definition has_execution :: "id \<Rightarrow> id \<Rightarrow> 'w audit_world_scheme \<Rightarrow> bool" where
  "has_execution org exec w \<longleftrightarrow> (\<exists>x\<in>set (executions w). ex_id x = exec \<and> ex_organization_id x = org)"

lemma event_runs:
  assumes "sound_env E" "audit_inv E w" "ids_drawn E w" "assertEventEvidence input = Inr ()"
    "ae_occurredAtCanonical input = None" "has_execution (ae_organizationId input) (ae_executionId input) w"
    "set (ae_parentEventIds input) \<subseteq> ev_id ` set (events_of (ae_executionId input) w)"
    "int (length (events_of (ae_executionId input) w)) < 2147483647"
  obtains row w' where "appendExecutionEventInTransaction E input w = (Inr row, w')"
    "events_added E (ae_executionId input) 1 w w'"
    "events_of (ae_executionId input) w' = events_of (ae_executionId input) w @ [row]"
proof -
  have "ev_id e \<noteq> randomUUID E (draws w + n)" if "e \<in> set (execution_events w)" for e n
    by (rule drawn_fresh [OF assms(1)]) (use assms(3) that in \<open>simp add: ids_drawn_def\<close>)
  moreover have "\<exists>t. four_digit_year t \<and> event_time E input w = iso_string t"
    using assms(1,5) by (auto simp: event_time_def sound_env_def)
  ultimately have "event_ready E input w"
    using assms(4,6-8) by (auto simp: event_ready_def has_execution_def)
  from append_event_succeeds [OF _ _ this] assms(2) obtain row w' where
    ev: "appendExecutionEventInTransaction E input w = (Inr row, w')" by (auto simp: audit_inv_def)
  obtain n where n: "ev_id row = randomUUID E n" "draws w \<le> n" "n < draws w'" using event_id_between [OF ev] by blast
  obtain m where w': "w' = w\<lparr>execution_events := execution_events w @ [row], draws := m\<rparr>"
      "ev_execution_id row = ae_executionId input"
    using append_event_Inr [OF ev] by (auto simp: event_appended_def)
  have le: "draws w \<le> draws w'" using n by simp
  have "drawn E w' (ev_id row)" using n by (auto simp: drawn_def)
  with assms(3) drawn_mono [OF _ le] have "ids_drawn E w'"
    by (auto simp: ids_drawn_def w'(1) simp del: audit_world.update_convs) 
  with audit_inv_append_event(1) [OF ev assms(2)] le w' ev show ?thesis
    by (intro that [of row w']) (auto simp: events_added_def events_of_def intro: exI [of _ "[row]"])
qed

subsection \<open>Preludes\<close>

definition prelude_ok :: "prelude_event \<Rightarrow> bool" where
  "prelude_ok p \<longleftrightarrow> pe_occurredAtCanonical p = None \<and>
     (\<forall>org exec parents. assertEventEvidence (prelude_input org exec parents p) = Inr ())"

lemma preludes_run:
  assumes "sound_env E" "audit_inv E w" "ids_drawn E w" "has_execution org exec w" "list_all prelude_ok ps"
    "\<forall>p\<in>set ps. set (pe_parentEventIds p) \<subseteq> ev_id ` set (events_of exec w)"
    "set parents \<subseteq> ev_id ` set (events_of exec w)"
    "int (length (events_of exec w) + length ps) < 2147483647"
  shows "\<exists>parents' w'. record_preludes E org exec parents ps w = (Inr parents', w') \<and>
    events_added E exec (length ps) w w' \<and> set parents' \<subseteq> ev_id ` set (events_of exec w')"
  using assms(2-)
proof (induction ps arbitrary: w parents)
  case Nil
  then show ?case
    by (auto simp: run events_added_def intro!: exI [of _ "draws w"])
next
  case (Cons p ps)
  let ?i = "prelude_input org exec parents p"
  have i: "ae_executionId ?i = exec" "ae_organizationId ?i = org" "ae_occurredAtCanonical ?i = None"
      "assertEventEvidence ?i = Inr ()" "set (ae_parentEventIds ?i) \<subseteq> ev_id ` set (events_of exec w)"
    using Cons.prems(4-6) by (auto simp: prelude_input_def prelude_ok_def)
  obtain row u where ev: "appendExecutionEventInTransaction E ?i w = (Inr row, u)" "events_added E exec 1 w u"
      "events_of exec u = events_of exec w @ [row]"
    by (rule event_runs [OF assms(1) Cons.prems(1,2) i(4,3), unfolded i(1,2)])
      (use i Cons.prems(3,7) in auto)
  note s = events_added_same [OF ev(2)]
  have "\<exists>parents' w'. record_preludes E org exec [ev_id row] ps u = (Inr parents', w') \<and>
      events_added E exec (length ps) u w' \<and> set parents' \<subseteq> ev_id ` set (events_of exec w')"
    using Cons.prems(3-5,7) s ev(3) by (intro Cons.IH)
      (auto simp: has_execution_def)
  then obtain parents' w' where rest: "record_preludes E org exec [ev_id row] ps u = (Inr parents', w')"
      "events_added E exec (length ps) u w'" "set parents' \<subseteq> ev_id ` set (events_of exec w')" by blast
  have "record_preludes E org exec parents (p # ps) w = (Inr parents', w')"
    using ev(1) rest(1) by (simp add: run)
  with events_added_trans [OF ev(2) rest(2)] rest(3) show ?case by auto
qed

subsection \<open>Seals\<close>

text \<open>A stored entry whose hash is the one of another, next entry of the execution.\<close>

definition entry_collision :: "'a env_scheme \<Rightarrow> id \<Rightarrow> id \<Rightarrow> 'w audit_world_scheme \<Rightarrow> bool" where
  "entry_collision E org exec w \<longleftrightarrow> (\<exists>e\<in>set (ledger_entries w). \<exists>f. hf_organizationId f = org \<and>
     hf_executionId f = exec \<and> hf_ledgerSequence f = fst (latest_of org w) + 1 \<and>
     collision E (payload_bytes (entry_fields e)) (payload_bytes f))"

lemma stored_request_hash:
  assumes "ledger_inv C w" "loadRequestOpenedHash org exec w = (Inr (Some h), w')"
  shows "isSha256Hex h"
proof -
  obtain e where e: "e \<in> set (entries_of org w)" "le_request_hash e = Some h"
    using assms(2) by (auto simp: loadRequestOpenedHash_def run entries_of_def split: option.splits
        dest!: first_row_SomeD)
  have "chain_from C org 1 None (entries_of org w)" using assms(1) by (simp add: ledger_inv_def)
  from chain_from_mem [OF this e(1)] e(2) show ?thesis by (auto simp: entry_ok_def)
qed

lemma sealed_append_ready:
  assumes "sound_env E" "audit_inv E w" "events_added E exec k w u"
    and "input = sealed_append s rh h" "se_organizationId s = org" "se_executionId s = exec" "org \<noteq> ''''"
    and "x \<in> set (executions w)" "ex_id x = exec" "ex_organization_id x = org"
    and "ex_status x = se_executionStatus s \<or> transition (ex_status x) (se_executionStatus s)"
    and "\<And>g. rh = Some g \<Longrightarrow> isSha256Hex g" "\<And>g. se_responseHash s = Some g \<Longrightarrow> isSha256Hex g" "isSha256Hex h"
    and "fst (latest_of org w) < 2147483647" "\<not> entry_collision E org exec w"
    and "se_entryType s = FinalEntry \<or> se_entryType s = FailureEntry"
  shows "append_ready E input u"
proof -
  note same = events_added_same [OF assms(3)]
  have lat: "latest_of org u = latest_of org w" by (simp add: latest_of_def same(3))
  have "le_id e \<noteq> randomUUID E (draws u + n)" if "e \<in> set (ledger_entries u)" for e n
    by (rule drawn_fresh [OF assms(1)]) (use same(8) that in \<open>simp add: ids_drawn_def\<close>)
  moreover have "mc_id c \<noteq> randomUUID E (draws u + n)" if "c \<in> set (merkle_checkpoints u)" for c n
    by (rule drawn_fresh [OF assms(1)]) (use same(8) that in \<open>simp add: ids_drawn_def\<close>)
  moreover have "\<exists>t. four_digit_year t \<and> append_time E input u = iso_string t"
    using assms(1) by (auto simp: append_time_def assms(4) sealed_append_def sound_env_def)
  moreover have "\<not> collision E (payload_bytes (entry_fields e)) (payload_bytes (new_fields E input u))"
    if "e \<in> set (ledger_entries u)" for e
    using assms(16) that unfolding entry_collision_def same(2) [symmetric]
    by (simp add: new_fields_def assms(4-6) sealed_append_def lat)
  moreover have "\<exists>r\<in>set (executions u). ex_id r = exec \<and> ex_organization_id r = org \<and>
      (ex_status r = se_executionStatus s \<or> transition (ex_status r) (se_executionStatus s))"
    unfolding same(1) using assms(8-11) by (intro bexI [of _ x]) simp_all
  ultimately show ?thesis
    using assms(5-7,12-15,17) lat
    by (auto simp: append_ready_def assms(4) sealed_append_def target_status_def)
qed

lemma sealed_event_evidence:
  "isSha256Hex h \<Longrightarrow> assertEventEvidence (sealed_event input parents h) = Inr ()"
  using encode_total [of "event_metadata (sealed_event input parents h)"]
  by (simp add: assertEventEvidence_def assertSha256Hex_def sealed_event_def event_metadata_def
      canonicalize_def EXECUTION_EVENT_TYPES_def)

lemma graph_after:
  assumes "crypto_ok E" "audit_inv E w" "x \<in> set (executions w)" "es = events_of (ex_id x) w"
  obtains g h where "buildExecutionGraphV2 y es = Inr g" "computeExecutionGraphHash E (graph_json g) = Inr h"
    "isSha256Hex h"
proof -
  have from_es: "events_from (ex_organization_id x) 1 {} es"
    using assms(2-4) by (auto simp: audit_inv_def events_inv_def)
  obtain g where g: "buildExecutionGraphV2 y es = Inr g" using events_from_build [OF from_es] by blast
  from graph_hash_total [OF g events_from_ok [OF from_es], of E] g sha256Hex_ok [OF assms(1)] show ?thesis
    by (auto intro: that)
qed

text \<open>An execution that may move to the requested status is sealed, unless there is a SHA-256 collision.\<close>

lemma seal_runs:
  assumes ok: "sound_env E" "audit_inv E w" "ids_drawn E w"
    and s: "se_organizationId s = org" "se_executionId s = exec" "org \<noteq> ''''"
    and x: "x \<in> set (executions w)" "ex_id x = exec" "ex_organization_id x = org"
    and st: "ex_status x = se_executionStatus s \<or> transition (ex_status x) (se_executionStatus s)"
      "se_entryType s = FinalEntry \<or> se_entryType s = FailureEntry"
    and ps: "list_all prelude_ok (se_preludeEvents s)"
      "\<forall>p\<in>set (se_preludeEvents s). set (pe_parentEventIds p) \<subseteq> ev_id ` set (events_of exec w)"
      "set (se_parentEventIds s) \<subseteq> ev_id ` set (events_of exec w)"
    and size: "int (length (events_of exec w) + length (se_preludeEvents s) + 1) < 2147483647"
      "fst (latest_of org w) < 2147483647"
    and resp: "\<And>g. se_responseHash s = Some g \<Longrightarrow> isSha256Hex g"
    and coll: "\<not> entry_collision E org exec w"
  shows "\<exists>r w'. sealExecution E restore s None w = (Inr r, w')"
proof -
  have here: "has_execution org exec w" using x by (auto simp: has_execution_def)
  obtain parents u where u: "record_preludes E org exec (se_parentEventIds s) (se_preludeEvents s) w = (Inr parents, u)"
      "events_added E exec (length (se_preludeEvents s)) w u" "set parents \<subseteq> ev_id ` set (events_of exec u)"
    using preludes_run [OF ok here ps] size(1) by auto
  note same = events_added_same [OF u(2)]
  have crypto: "crypto_ok E" using ok(1) by (simp add: sound_env_def)
  have xu: "x \<in> set (executions u)" using x same(1) by simp
  have list: "listExecutionEvents org exec u = (Inr (events_of exec u), u)"
    using listExecutionEvents_run [of u x org] same(7) xu x by (simp add: audit_inv_def)
  obtain y where get: "find (\<lambda>r. ex_id r = exec \<and> ex_organization_id r = org) (executions w) = Some y"
    using x by (cases "find (\<lambda>r. ex_id r = exec \<and> ex_organization_id r = org) (executions w)")
      (auto simp: find_None_iff)
  let ?y = "graph_execution_of y (se_executionStatus s)"
  obtain g h where g: "buildExecutionGraphV2 ?y (events_of exec u) = Inr g"
      "computeExecutionGraphHash E (graph_json g) = Inr h" "isSha256Hex h"
    using x by (auto intro: graph_after [OF crypto same(7) xu, of "events_of exec u" ?y])
  let ?e = "sealed_event s parents h"
  have e: "ae_executionId ?e = exec" "ae_organizationId ?e = org" by (simp_all add: sealed_event_def s)
  obtain sealed v where v: "appendExecutionEventInTransaction E ?e u = (Inr sealed, v)" "events_added E exec 1 u v"
      "events_of exec v = events_of exec u @ [sealed]"
    by (rule event_runs [OF ok(1) same(7,8) sealed_event_evidence [OF g(3), of s parents], unfolded e])
      (use u(3) same(1,5) size(1) here in \<open>auto simp: sealed_event_def has_execution_def\<close>)
  have wv: "events_added E exec (length (se_preludeEvents s) + 1) w v" by (rule events_added_trans [OF u(2) v(2)])
  note same' = events_added_same [OF wv]
  have xv: "x \<in> set (executions v)" using x same'(1) by simp
  obtain g' h' where g': "buildExecutionGraphV2 ?y (events_of exec u @ [sealed]) = Inr g'"
      "computeExecutionGraphHash E (graph_json g') = Inr h'" "isSha256Hex h'"
    using x v(3) by (auto intro: graph_after [OF crypto same'(7) xv, of "events_of exec v" ?y])
  obtain rh where rh: "loadRequestOpenedHash org exec v = (Inr rh, v)"
    by (simp add: loadRequestOpenedHash_def run)
  have "append_ready E (sealed_append s rh h') v"
    by (rule sealed_append_ready [OF ok(1,2) wv refl s x st(1) _ resp g'(3) size(2) coll st(2)])
      (use rh same'(7) stored_request_hash [of E v org exec] in \<open>auto simp: audit_inv_def\<close>)
  from append_succeeds [OF crypto _ _ this] same'(7) obtain row w' where
    app: "appendLedgerEntryInTransaction E (sealed_append s rh h') v = (Inr row, w')"
    by (auto simp: audit_inv_def)
  have "sealExecutionInTransaction E s w = (Inr \<lparr>sr_entry = row, sr_graph = g', sr_graphHash = h'\<rparr>, w')"
    unfolding sealExecutionInTransaction_def Let_def s(1,2)
    by (simp add: bindE_def getExecution_def run get u(1) list g(1,2) v(1) g'(1,2) rh app)
  then show ?thesis by (auto simp: sealExecution_def run_txnE run)
qed

end
