(* ===== verification/Gateway.thy ===== *)
theory Gateway
  imports SocialStore Progress
begin

text \<open>
  \<open>apps/core-api/src/connectors/gateway.ts\<close>: the one way out of the system.  A connector action is checked
  against the execution, the actor's role, the connector, the approved bytes and the policy; it is then
  written to the action table under an idempotency key, together with its events, before the provider is
  called; the outcome is recorded afterwards.  The three recordings after the call are transactions of
  their own.
\<close>

subsection \<open>Inputs and rows\<close>

record gateway_deps =
  gd_registry :: connector_registry
  gd_secrets :: "string \<Rightarrow> string option"

record action_request =
  rc_organizationId :: id
  rc_executionId :: id
  rc_actorId :: id
  rc_connectorId :: "id option"
  rc_connectorType :: "string option"
  rc_action :: string
  rc_artifactHash :: string
  rc_payload :: json
  rc_classification :: "data_classification option"

fun action_status_str :: "action_status \<Rightarrow> string" where
  "action_status_str ActionPending = ''pending''"
| "action_status_str ActionAuthorized = ''authorized''"
| "action_status_str ActionExecuting = ''executing''"
| "action_status_str ActionSucceeded = ''succeeded''"
| "action_status_str ActionFailed = ''failed''"
| "action_status_str ActionNeedsReview = ''needs_review''"

definition iso_option :: "int option \<Rightarrow> json" where
  "iso_option t = json_opt (map_option iso_string t)"

definition publicAction :: "connector_action_row \<Rightarrow> (string \<times> json) list \<Rightarrow> json" where
  "publicAction row extras = JObj
     ([(''action_id'', JStr (ca_id row)), (''organization_id'', JStr (ca_organization_id row)),
       (''execution_id'', JStr (ca_execution_id row)), (''connector_id'', JStr (ca_connector_id row)),
       (''action'', JStr (ca_action row)), (''artifact_hash'', JStr (ca_artifact_hash row)),
       (''idempotency_key'', JStr (ca_idempotency_key row)),
       (''status'', JStr (action_status_str (ca_status row))),
       (''external_action_id'', json_opt (ca_external_action_id row)),
       (''request_hash'', json_opt (ca_request_hash row)), (''response_hash'', json_opt (ca_response_hash row)),
       (''requested_by'', JStr (ca_requested_by row)), (''approved_by'', json_opt (ca_approved_by row)),
       (''error_code'', json_opt (ca_error_code row)), (''scheduled_for'', iso_option (ca_scheduled_for row)),
       (''created_at'', JStr (iso_string (ca_created_at row))), (''started_at'', iso_option (ca_started_at row)),
       (''completed_at'', iso_option (ca_completed_at row))] @ extras)"

subsection \<open>Tool events\<close>

record tool_event =
  te_organizationId :: id
  te_executionId :: id
  te_eventType :: string
  te_status :: string
  te_artifactHash :: string
  te_metadata :: "(string \<times> json) list"
  te_outputHash :: "string option"

definition tool_payload :: "tool_event \<Rightarrow> id option \<Rightarrow> append_event_input" where
  "tool_payload input parent =
     \<lparr>ae_organizationId = te_organizationId input, ae_executionId = te_executionId input,
      ae_eventType = te_eventType input, ae_status = te_status input,
      ae_parentEventIds = (case parent of None \<Rightarrow> [] | Some p \<Rightarrow> if p = '''' then [] else [p]),
      ae_inputHash = None,
      ae_outputHash = Some (case te_outputHash input of None \<Rightarrow> te_artifactHash input | Some h \<Rightarrow> h),
      ae_metadata = Some (JObj (te_metadata input)), ae_occurredAtCanonical = None\<rparr>"

text \<open>\<open>ORDER BY event_sequence DESC LIMIT 1\<close>.\<close>

definition latest_event_id :: "id \<Rightarrow> id \<Rightarrow> (err, 'w audit_world_scheme, id option) op" where
  "latest_event_id org exec = getsE (\<lambda>w. map_option ev_id (first_row (sort_key (\<lambda>r. - ev_event_sequence r)
     (filter (\<lambda>r. ev_organization_id r = org \<and> ev_execution_id r = exec) (execution_events w)))))"

fun appendToolEvent ::
    "'a env_scheme \<Rightarrow> db_handle \<Rightarrow> tool_event \<Rightarrow> (err, 'w audit_world_scheme, unit) op" where
  "appendToolEvent E Pool input =
     bindE (lastEventId (te_organizationId input) (te_executionId input)) (\<lambda>parent.
     bindE (appendExecutionEvent E Pool (tool_payload input parent)) (\<lambda>_. ret ()))"
| "appendToolEvent E PoolClient input =
     bindE (latest_event_id (te_organizationId input) (te_executionId input)) (\<lambda>parent.
     bindE (appendExecutionEventInTransaction E (tool_payload input parent)) (\<lambda>_. ret ()))"

subsection \<open>Reading and updating actions\<close>

definition loadAction :: "id \<Rightarrow> id \<Rightarrow> (err, 'w command_world_scheme, connector_action_row option) op" where
  "loadAction org actionId = getsE (\<lambda>w.
     find (\<lambda>a. ca_organization_id a = org \<and> ca_id a = actionId) (connector_actions w))"

definition loadActionByKey :: "id \<Rightarrow> string \<Rightarrow> (err, 'w command_world_scheme, connector_action_row option) op" where
  "loadActionByKey org key = getsE (\<lambda>w.
     find (\<lambda>a. ca_organization_id a = org \<and> ca_idempotency_key a = key) (connector_actions w))"

definition insert_action :: "connector_action_row \<Rightarrow> (err, 'w command_world_scheme, unit) op" where
  "insert_action row =
     bindE (constraintE (\<lambda>w. \<forall>r\<in>set (connector_actions w). ca_id r \<noteq> ca_id row \<and>
         \<not> (ca_organization_id r = ca_organization_id row \<and> ca_idempotency_key r = ca_idempotency_key row))
       unique_violation) (\<lambda>_.
     bindE (constraintE (\<lambda>w. org_exists (ca_organization_id row) w \<and> user_exists (ca_requested_by row) w \<and>
         (case ca_approved_by row of None \<Rightarrow> True | Some u \<Rightarrow> user_exists u w) \<and>
         (\<exists>x\<in>set (executions w). ex_organization_id x = ca_organization_id row \<and> ex_id x = ca_execution_id row) \<and>
         (\<exists>c\<in>set (connectors w). cn_organization_id c = ca_organization_id row \<and> cn_id c = ca_connector_id row))
       foreign_key_violation) (\<lambda>_.
     modifyE (\<lambda>w. w\<lparr>connector_actions := connector_actions w @ [row]\<rparr>)))"

definition update_action ::
    "id \<Rightarrow> id \<Rightarrow> (connector_action_row \<Rightarrow> connector_action_row) \<Rightarrow> (err, 'w command_world_scheme, unit) op" where
  "update_action org actionId f = modifyE (\<lambda>w. w\<lparr>connector_actions :=
     update_where (\<lambda>a. ca_id a = actionId \<and> ca_organization_id a = org) f (connector_actions w)\<rparr>)"

definition updateSocialItem :: "'a net_env_scheme \<Rightarrow> id \<Rightarrow> id \<Rightarrow> item_status \<Rightarrow> id \<Rightarrow> string option \<Rightarrow> string option \<Rightarrow>
    (err, 'w social_world_scheme, unit) op" where
  "updateSocialItem E org exec status actionId external scheduledFor =
     bindE (liftE (cast_timestamptz E scheduledFor)) (\<lambda>at.
     update_items (\<lambda>i. it_organization_id i = org \<and> it_execution_id i = Some exec) actionId
       (\<lambda>i. i\<lparr>it_status := status, it_connector_action_id := Some actionId,
          it_external_action_id := coalesce external (it_external_action_id i),
          it_scheduled_for := coalesce at (it_scheduled_for i)\<rparr>))"

record finish_input =
  fi_organizationId :: id
  fi_executionId :: id
  fi_actionId :: id
  fi_status :: action_status
  fi_errorCode :: "string option"
  fi_artifactHash :: string
  fi_metadata :: "(string \<times> json) list"
  fi_externalActionId :: "string option"
  fi_requestHash :: "string option"
  fi_responseHash :: "string option"
  fi_socialStatus :: item_status
  fi_scheduledFor :: "string option"
  fi_eventType :: string

text \<open>The columns the final update sets.\<close>

definition finished :: "finish_input \<Rightarrow> int \<Rightarrow> connector_action_row \<Rightarrow> connector_action_row" where
  "finished input now a = a\<lparr>ca_status := fi_status input, ca_error_code := fi_errorCode input,
     ca_external_action_id := coalesce (fi_externalActionId input) (ca_external_action_id a),
     ca_request_hash := coalesce (fi_requestHash input) (ca_request_hash a),
     ca_response_hash := coalesce (fi_responseHash input) (ca_response_hash a),
     ca_completed_at := Some now\<rparr>"

definition finish_event :: "finish_input \<Rightarrow> tool_event" where
  "finish_event input =
     \<lparr>te_organizationId = fi_organizationId input, te_executionId = fi_executionId input,
      te_eventType = fi_eventType input,
      te_status = (if fi_status input = ActionSucceeded then ''ok'' else ''failed''),
      te_artifactHash = fi_artifactHash input,
      te_metadata = fi_metadata input @ [(''external_action_id'', json_opt (fi_externalActionId input)),
        (''error_code'', json_opt (fi_errorCode input))],
      te_outputHash = Some (case fi_responseHash input of None \<Rightarrow> fi_artifactHash input | Some h \<Rightarrow> h)\<rparr>"

definition finishAction :: "'a net_env_scheme \<Rightarrow> finish_input \<Rightarrow> (err, 'w social_world_scheme, unit) op" where
  "finishAction E input =
     bindE (nowE E) (\<lambda>now.
     bindE (update_action (fi_organizationId input) (fi_actionId input) (finished input now)) (\<lambda>_.
     bindE (appendToolEvent E Pool (finish_event input)) (\<lambda>_.
     updateSocialItem E (fi_organizationId input) (fi_executionId input) (fi_socialStatus input)
       (fi_actionId input) (fi_externalActionId input) (fi_scheduledFor input))))"

subsection \<open>Health checks and reads\<close>

text \<open>\<open>String(connector.page_config.page_id ?? "")\<close>.\<close>

definition page_id_of :: "connector_row \<Rightarrow> err + string" where
  "page_id_of connector =
     bindS (js_get ''page_id'' (cn_page_config connector)) (\<lambda>v. Inr (js_string (or_else v (JStr ''''))))"

definition secret_of :: "gateway_deps \<Rightarrow> connector_row \<Rightarrow> string option" where
  "secret_of deps connector =
     (if truthy (cn_secret_ref connector)
      then gd_secrets deps (case cn_secret_ref connector of None \<Rightarrow> '''' | Some r \<Rightarrow> r) else None)"

definition unhealthy :: "connector_row \<Rightarrow> string \<Rightarrow> connector_health" where
  "unhealthy connector reason = \<lparr>ch_ok = False, ch_connector_id = cn_id connector,
     ch_connector_type = cn_connector_type connector, ch_page_name = None, ch_reason_code = Some reason\<rparr>"

definition healthCheckConnector ::
    "'a net_env_scheme \<Rightarrow> gateway_deps \<Rightarrow> id \<Rightarrow> id \<Rightarrow> (err, 'w net_world_scheme, connector_health) op" where
  "healthCheckConnector E deps org connectorId =
     bindE (getConnector org connectorId) (\<lambda>found.
     bindE (expectE found (ExecutionError ''NOT_FOUND'' 404)) (\<lambda>connector.
     bindE (requireE (cn_organization_id connector = org) (ExecutionError ''NOT_FOUND'' 404)) (\<lambda>_.
     bindE (liftE (resolve_connector (cn_connector_type connector) (gd_registry deps))) (\<lambda>implementation.
     bindE (liftE (page_id_of connector)) (\<lambda>pageId.
     if \<not> cn_enabled connector then ret (unhealthy connector ''CONNECTOR_DISABLED'')
     else if \<not> truthy (secret_of deps connector) \<or> pageId = ''''
     then ret (unhealthy connector ''CONNECTOR_NOT_CONFIGURED'')
     else meta_health E implementation (cn_id connector) pageId
       (case secret_of deps connector of None \<Rightarrow> '''' | Some s \<Rightarrow> s))))))"

definition getConnectorAction :: "id \<Rightarrow> id \<Rightarrow> id \<Rightarrow> (err, 'w command_world_scheme, json) op" where
  "getConnectorAction org exec actionId =
     bindE (getExecution org exec) (\<lambda>execution.
     bindE (requireE (execution \<noteq> None) (ExecutionError ''NOT_FOUND'' 404)) (\<lambda>_.
     bindE (loadAction org actionId) (\<lambda>found.
     bindE (expectE found (ExecutionError ''NOT_FOUND'' 404)) (\<lambda>row.
     bindE (requireE (ca_execution_id row = exec) (ExecutionError ''NOT_FOUND'' 404)) (\<lambda>_.
     ret (publicAction row []))))))"

subsection \<open>Requesting an action\<close>

text \<open>What the checks before the policy find out.\<close>

record action_context =
  gx_execution :: execution_row
  gx_roleId :: id
  gx_connector :: connector_row
  gx_pageId :: string
  gx_message :: string
  gx_social :: "content_item_row option"
  gx_skillId :: string

definition find_connector :: "action_request \<Rightarrow> id \<Rightarrow> (err, 'w command_world_scheme, connector_row option) op" where
  "find_connector input org =
     (case rc_connectorId input of
        Some i \<Rightarrow> if i \<noteq> '''' then getConnector org i
          else (case rc_connectorType input of
              Some t \<Rightarrow> if t \<noteq> '''' then getConnectorByType org t else ret None
            | None \<Rightarrow> ret None)
      | None \<Rightarrow> (case rc_connectorType input of
              Some t \<Rightarrow> if t \<noteq> '''' then getConnectorByType org t else ret None
            | None \<Rightarrow> ret None))"

definition latest_item :: "id \<Rightarrow> id \<Rightarrow> (err, 'w social_world_scheme, content_item_row option) op" where
  "latest_item org exec = getsE (\<lambda>w. first_row (sort_key (\<lambda>i. - it_created_at i)
     (filter (\<lambda>i. it_organization_id i = org \<and> it_execution_id i = Some exec) (content_items w))))"

definition check_item :: "action_request \<Rightarrow> string \<Rightarrow> content_item_row option \<Rightarrow> err + unit" where
  "check_item input message social =
     (case social of None \<Rightarrow> Inr ()
      | Some item \<Rightarrow>
          if it_artifact_hash item \<noteq> rc_artifactHash input \<or> it_draft_text item \<noteq> message
          then Inl (ExecutionError ''APPROVAL_ARTIFACT_MISMATCH'' 409)
          else if it_status item = ItemPendingApproval then Inl (ExecutionError ''APPROVAL_MISSING'' 409)
          else Inr ())"

definition check_actor :: "action_request \<Rightarrow> (err, 'w auth_world_scheme, execution_row \<times> id) op" where
  "check_actor input =
     bindE (requireE (isSha256Hex (rc_artifactHash input)) (ExecutionError ''INVALID_INPUT'' 400)) (\<lambda>_.
     bindE (getExecution (rc_organizationId input) (rc_executionId input)) (\<lambda>found.
     bindE (expectE found (ExecutionError ''NOT_FOUND'' 404)) (\<lambda>execution.
     bindE (requireE (ex_organization_id execution = rc_organizationId input)
       (ExecutionError ''CROSS_ORGANIZATION_DENIED'' 403)) (\<lambda>_.
     bindE (requireE (ex_status execution \<notin> {Completed, Failed, Blocked, Cancelled})
       (ExecutionError ''INVALID_EXECUTION_TRANSITION'' 409)) (\<lambda>_.
     bindE (requireE (ex_status execution \<noteq> WaitingApproval) (ExecutionError ''APPROVAL_MISSING'' 409)) (\<lambda>_.
     bindE (role_of_member (rc_actorId input) (ex_organization_id execution)) (\<lambda>member.
     bindE (expectE member (ExecutionError ''ACTOR_NOT_AUTHORIZED'' 403)) (\<lambda>roleId.
     ret (execution, roleId)))))))))"

definition check_connector :: "action_request \<Rightarrow> id \<Rightarrow> (err, 'w command_world_scheme, connector_row) op" where
  "check_connector input org =
     bindE (find_connector input org) (\<lambda>candidate.
     bindE (expectE candidate (ExecutionError ''NOT_FOUND'' 404)) (\<lambda>connector.
     bindE (requireE (cn_organization_id connector = org) (ExecutionError ''NOT_FOUND'' 404)) (\<lambda>_.
     ret connector)))"

definition check_artifact ::
    "'a crypto_scheme \<Rightarrow> action_request \<Rightarrow> execution_row \<Rightarrow> id \<Rightarrow> connector_row \<Rightarrow>
     (err, 'w social_world_scheme, action_context) op" where
  "check_artifact C input execution roleId connector =
     bindE (liftE (page_id_of connector)) (\<lambda>pageId.
     bindE (liftE (payload_message (rc_payload input))) (\<lambda>message.
     bindE (requireE (node_sha256Hex C message = rc_artifactHash input)
       (ExecutionError ''APPROVAL_ARTIFACT_MISMATCH'' 409)) (\<lambda>_.
     bindE (latest_item (ex_organization_id execution) (ex_id execution)) (\<lambda>social.
     bindE (liftE (check_item input message social)) (\<lambda>_.
     bindE (expectE (case ex_skill_id execution of Some s \<Rightarrow> if s = '''' then None else Some s | None \<Rightarrow> None)
       (ExecutionError ''CONNECTOR_NOT_ALLOWED_FOR_SKILL'' 403)) (\<lambda>skillId.
     ret \<lparr>gx_execution = execution, gx_roleId = roleId, gx_connector = connector, gx_pageId = pageId,
       gx_message = message, gx_social = social, gx_skillId = skillId\<rparr>))))))"

definition check_request ::
    "'a crypto_scheme \<Rightarrow> action_request \<Rightarrow> (err, 'w social_world_scheme, action_context) op" where
  "check_request C input =
     bindE (check_actor input) (\<lambda>(execution, roleId).
     bindE (check_connector input (ex_organization_id execution)) (\<lambda>connector.
     check_artifact C input execution roleId connector))"

definition action_policy_input :: "action_request \<Rightarrow> action_context \<Rightarrow> approval_row option \<Rightarrow> connector_input" where
  "action_policy_input input x approval =
     \<lparr>ci_organizationId = ex_organization_id (gx_execution x), ci_actorId = rc_actorId input,
      ci_roleId = gx_roleId x, ci_skillId = gx_skillId x, ci_connectorKey = cn_connector_key (gx_connector x),
      ci_action = rc_action input,
      ci_classification = (case rc_classification input of None \<Rightarrow> Internal | Some c \<Rightarrow> c),
      ci_approvalStatus = map_option (approval_str \<circ> ap_status) approval,
      ci_approvalArtifactHash = (case approval of None \<Rightarrow> None | Some a \<Rightarrow> ap_artifact_hash a),
      ci_requestedArtifactHash = rc_artifactHash input\<rparr>"

definition scheduled_for :: "action_request \<Rightarrow> string option" where
  "scheduled_for input =
     (case js_opt_get ''scheduled_for'' (rc_payload input) of JStr s \<Rightarrow> Some s | _ \<Rightarrow> None)"

definition idempotency_json :: "action_request \<Rightarrow> action_context \<Rightarrow> json" where
  "idempotency_json input x = JObj
     [(''organization_id'', JStr (ex_organization_id (gx_execution x))),
      (''execution_id'', JStr (ex_id (gx_execution x))), (''connector_id'', JStr (cn_id (gx_connector x))),
      (''action'', JStr (rc_action input)), (''artifact_hash'', JStr (rc_artifactHash input)),
      (''scheduled_for'', json_opt (scheduled_for input))]"

definition request_json :: "action_request \<Rightarrow> action_context \<Rightarrow> json" where
  "request_json input x = JObj
     [(''action'', JStr (rc_action input)), (''artifact_hash'', JStr (rc_artifactHash input)),
      (''message'', JStr (gx_message x)),
      (''page_id'', if gx_pageId x = '''' then JNull else JStr (gx_pageId x)),
      (''scheduled_for'', json_opt (scheduled_for input))]"

definition tool_meta :: "action_request \<Rightarrow> action_context \<Rightarrow> policy_decision \<Rightarrow> (string \<times> json) list" where
  "tool_meta input x policy =
     [(''connector_id'', JStr (cn_id (gx_connector x))),
      (''connector_type'', JStr (cn_connector_type (gx_connector x))), (''action'', JStr (rc_action input)),
      (''artifact_hash'', JStr (rc_artifactHash input)), (''policy_id'', json_opt (pd_policy_id policy)),
      (''policy_reason_code'', JStr (pd_reason_code policy))]"

definition tool_event_of ::
    "action_request \<Rightarrow> action_context \<Rightarrow> policy_decision \<Rightarrow> string \<Rightarrow> string \<Rightarrow> tool_event" where
  "tool_event_of input x policy eventType status =
     \<lparr>te_organizationId = ex_organization_id (gx_execution x), te_executionId = ex_id (gx_execution x),
      te_eventType = eventType, te_status = status, te_artifactHash = rc_artifactHash input,
      te_metadata = tool_meta input x policy, te_outputHash = None\<rparr>"

definition deny_action ::
    "'a env_scheme \<Rightarrow> action_request \<Rightarrow> action_context \<Rightarrow> policy_decision \<Rightarrow> (err, 'w audit_world_scheme, 'r) op" where
  "deny_action E input x policy =
     bindE (appendToolEvent E Pool (tool_event_of input x policy ''tool.requested'' ''started'')) (\<lambda>_.
     bindE (appendToolEvent E Pool (tool_event_of input x policy ''tool.denied'' ''denied'')) (\<lambda>_.
     throw (ExecutionError (pd_reason_code policy) 403)))"

text \<open>The transaction before the call: the action row and its two events.\<close>

definition new_action :: "action_request \<Rightarrow> action_context \<Rightarrow> id \<Rightarrow> string \<Rightarrow> string \<Rightarrow> id option \<Rightarrow> int option \<Rightarrow> int \<Rightarrow>
    connector_action_row" where
  "new_action input x actionId key hashedRequest approvedBy at now =
     \<lparr>ca_id = actionId, ca_organization_id = ex_organization_id (gx_execution x),
      ca_execution_id = ex_id (gx_execution x), ca_connector_id = cn_id (gx_connector x),
      ca_action = rc_action input, ca_artifact_hash = rc_artifactHash input, ca_idempotency_key = key,
      ca_status = ActionAuthorized, ca_external_action_id = None, ca_request_hash = Some hashedRequest,
      ca_response_hash = None, ca_requested_by = rc_actorId input, ca_approved_by = approvedBy,
      ca_error_code = None, ca_scheduled_for = at, ca_created_at = now, ca_started_at = Some now,
      ca_completed_at = None\<rparr>"

text \<open>\<open>SELECT decided_by FROM command.approvals WHERE id = $1\<close>, for an approval that is approved.\<close>

definition approver_of :: "approval_row option \<Rightarrow> (err, 'w command_world_scheme, id option) op" where
  "approver_of approval = getsE (\<lambda>w.
     case approval of None \<Rightarrow> None
     | Some a \<Rightarrow> if ap_status a = Approved
         then (case find (\<lambda>b. ap_id b = ap_id a) (approvals w) of None \<Rightarrow> None | Some b \<Rightarrow> ap_decided_by b)
         else None)"

definition record_action ::
    "'a env_scheme \<Rightarrow> action_request \<Rightarrow> action_context \<Rightarrow> policy_decision \<Rightarrow> connector_action_row \<Rightarrow>
     (err, 'w command_world_scheme, unit) op" where
  "record_action E input x policy row =
     bindE (insert_action row) (\<lambda>_.
     bindE (appendToolEvent E PoolClient (tool_event_of input x policy ''tool.requested'' ''started'')) (\<lambda>_.
     appendToolEvent E PoolClient (tool_event_of input x policy ''tool.authorized'' ''ok'')))"

definition authorize_body ::
    "'a net_env_scheme \<Rightarrow> action_request \<Rightarrow> action_context \<Rightarrow> policy_decision \<Rightarrow> approval_row option \<Rightarrow>
     id \<Rightarrow> string \<Rightarrow> string \<Rightarrow> (err, 'w social_world_scheme, unit) op" where
  "authorize_body E input x policy approval actionId key hashedRequest =
     bindE (approver_of approval) (\<lambda>approvedBy.
     bindE (liftE (cast_timestamptz E (scheduled_for input))) (\<lambda>at.
     bindE (nowE E) (\<lambda>now.
     record_action E input x policy (new_action input x actionId key hashedRequest approvedBy at now))))"

text \<open>The \<open>catch\<close> of the transaction: a repeated key is a replay (\<open>Some\<close>), any other error is rethrown.\<close>

definition authorize_action ::
    "'a net_env_scheme \<Rightarrow> action_request \<Rightarrow> action_context \<Rightarrow> policy_decision \<Rightarrow> approval_row option \<Rightarrow>
     id \<Rightarrow> string \<Rightarrow> string \<Rightarrow> (err, 'w social_world_scheme, json option) op" where
  "authorize_action E input x policy approval actionId key hashedRequest =
     catchE
       (bindE (txnE restore_command (authorize_body E input x policy approval actionId key hashedRequest))
          (\<lambda>_. ret None))
       (\<lambda>e. if e = unique_violation then
          bindE (loadActionByKey (ex_organization_id (gx_execution x)) key) (\<lambda>replayed.
          case replayed of
            Some row \<Rightarrow> ret (Some (publicAction row [(''replayed'', JBool True)]))
          | None \<Rightarrow> throw e)
        else throw e)"

definition claim_item :: "action_request \<Rightarrow> action_context \<Rightarrow> id \<Rightarrow> (err, 'w social_world_scheme, unit) op" where
  "claim_item input x actionId =
     (case gx_social x of None \<Rightarrow> ret ()
      | Some item \<Rightarrow>
          whenE (it_status item \<in> {ItemApproved, ItemPublishing})
            (update_items (\<lambda>i. it_id i = it_id item \<and> it_organization_id i = ex_organization_id (gx_execution x) \<and>
                it_status i \<in> {ItemApproved, ItemPublishing}) actionId
               (\<lambda>i. i\<lparr>it_status := if rc_action input = ''schedule_post'' then ItemScheduling else ItemPublishing,
                  it_connector_action_id := Some actionId\<rparr>)))"

definition finish_of ::
    "action_request \<Rightarrow> action_context \<Rightarrow> id \<Rightarrow> action_status \<Rightarrow> string option \<Rightarrow> (string \<times> json) list \<Rightarrow> item_status \<Rightarrow>
     finish_input" where
  "finish_of input x actionId status errorCode metadata socialStatus =
     \<lparr>fi_organizationId = ex_organization_id (gx_execution x), fi_executionId = ex_id (gx_execution x),
      fi_actionId = actionId, fi_status = status, fi_errorCode = errorCode,
      fi_artifactHash = rc_artifactHash input, fi_metadata = metadata, fi_externalActionId = None,
      fi_requestHash = None, fi_responseHash = None, fi_socialStatus = socialStatus, fi_scheduledFor = None,
      fi_eventType = ''tool.failed''\<rparr>"

definition reload_action ::
    "action_context \<Rightarrow> id \<Rightarrow> (string \<times> json) list \<Rightarrow> (err, 'w command_world_scheme, json) op" where
  "reload_action x actionId extras =
     bindE (loadAction (ex_organization_id (gx_execution x)) actionId) (\<lambda>found.
     bindE (expectE found type_error) (\<lambda>row.
     ret (publicAction row extras)))"

definition record_failure ::
    "'a net_env_scheme \<Rightarrow> action_request \<Rightarrow> action_context \<Rightarrow> policy_decision \<Rightarrow> id \<Rightarrow> err \<Rightarrow>
     (err, 'w social_world_scheme, json) op" where
  "record_failure E input x policy actionId e =
     (let (code, class, ambiguous) =
            (case e of ConnectorError c k a \<Rightarrow> (c, k, a) | _ \<Rightarrow> (''PROVIDER_REJECTED'', None, False)) in
      bindE (finishAction E (finish_of input x actionId
        (if ambiguous then ActionNeedsReview else ActionFailed) (Some code)
        (tool_meta input x policy @ [(''http_class'', json_opt class)])
        (if ambiguous then ItemNeedsReview else ItemError))) (\<lambda>_.
      reload_action x actionId [(''policy_reason_code'', JStr (pd_reason_code policy))]))"

definition record_success ::
    "'a net_env_scheme \<Rightarrow> action_request \<Rightarrow> action_context \<Rightarrow> policy_decision \<Rightarrow> id \<Rightarrow> connector_action_result \<Rightarrow>
     (err, 'w social_world_scheme, json) op" where
  "record_success E input x policy actionId result =
     bindE (finishAction E ((finish_of input x actionId ActionSucceeded None
        (tool_meta input x policy @ [(''http_class'', or_else
           (js_opt_get ''http_class'' (JObj (ao_metadata result))) (JStr ''2xx''))])
        (if rc_action input = ''schedule_post'' then ItemScheduled else ItemPosted))
        \<lparr>fi_externalActionId := ao_external_action_id result, fi_requestHash := Some (ao_request_hash result),
         fi_responseHash := ao_response_hash result, fi_scheduledFor := scheduled_for input,
         fi_eventType := ''tool.completed''\<rparr>)) (\<lambda>_.
     reload_action x actionId [(''policy_reason_code'', JStr (pd_reason_code policy)),
       (''message_hash'', JStr (node_sha256Hex E (gx_message x)))])"

text \<open>The provider's error is caught; that of an unknown type is not.\<close>

definition execute_input :: "gateway_deps \<Rightarrow> action_request \<Rightarrow> action_context \<Rightarrow> connector_action_input" where
  "execute_input deps input x =
     \<lparr>ai_connectorId = cn_id (gx_connector x), ai_connectorType = cn_connector_type (gx_connector x),
      ai_action = rc_action input, ai_artifactHash = rc_artifactHash input, ai_payload = rc_payload input,
      ai_secret = (case secret_of deps (gx_connector x) of None \<Rightarrow> '''' | Some s \<Rightarrow> s),
      ai_pageId = gx_pageId x, ai_scheduledFor = scheduled_for input\<rparr>"

definition try_execute ::
    "'a net_env_scheme \<Rightarrow> meta_connector \<Rightarrow> connector_action_input \<Rightarrow>
     (err, 'w net_world_scheme, err + connector_action_result) op" where
  "try_execute E implementation input =
     catchE (bindE (meta_execute E implementation input) (\<lambda>result. ret (Inr result))) (\<lambda>e. ret (Inl e))"

definition execute_action ::
    "'a net_env_scheme \<Rightarrow> gateway_deps \<Rightarrow> action_request \<Rightarrow> action_context \<Rightarrow> policy_decision \<Rightarrow> id \<Rightarrow>
     (err, 'w social_world_scheme, json) op" where
  "execute_action E deps input x policy actionId =
     bindE (nowE E) (\<lambda>now.
     bindE (update_action (ex_organization_id (gx_execution x)) actionId
       (\<lambda>a. a\<lparr>ca_status := ActionExecuting, ca_started_at := coalesce (ca_started_at a) (Some now)\<rparr>)) (\<lambda>_.
     bindE (liftE (resolve_connector (cn_connector_type (gx_connector x)) (gd_registry deps))) (\<lambda>implementation.
     bindE (try_execute E implementation (execute_input deps input x)) (\<lambda>outcome.
     case outcome of
       Inl e \<Rightarrow> record_failure E input x policy actionId e
     | Inr result \<Rightarrow> record_success E input x policy actionId result))))"

text \<open>The steps after the commit.\<close>

definition call_provider ::
    "'a net_env_scheme \<Rightarrow> gateway_deps \<Rightarrow> action_request \<Rightarrow> action_context \<Rightarrow> policy_decision \<Rightarrow> id \<Rightarrow>
     (err, 'w social_world_scheme, json) op" where
  "call_provider E deps input x policy actionId =
     bindE (claim_item input x actionId) (\<lambda>_.
     if \<not> truthy (secret_of deps (gx_connector x)) \<or> gx_pageId x = '''' then
       bindE (finishAction E (finish_of input x actionId ActionFailed (Some ''CONNECTOR_NOT_CONFIGURED'')
         (tool_meta input x policy) ItemError)) (\<lambda>_.
       throw (ExecutionError ''CONNECTOR_NOT_CONFIGURED'' 503))
     else execute_action E deps input x policy actionId)"

definition requestConnectorAction ::
    "'a net_env_scheme \<Rightarrow> gateway_deps \<Rightarrow> action_request \<Rightarrow> (err, 'w social_world_scheme, json) op" where
  "requestConnectorAction E deps input =
     bindE (check_request E input) (\<lambda>x.
     bindE (getPendingApprovalForExecution (ex_organization_id (gx_execution x)) (ex_id (gx_execution x)))
       (\<lambda>approval.
     bindE (evaluateConnectorAction E (action_policy_input input x approval)) (\<lambda>policy.
     bindE (liftE (requestHash E (idempotency_json input x))) (\<lambda>key.
     bindE (loadActionByKey (ex_organization_id (gx_execution x)) key) (\<lambda>existing.
     case existing of
       Some row \<Rightarrow> ret (publicAction row
         [(''replayed'', JBool True), (''policy_reason_code'', JStr ''CONNECTOR_ALLOWED'')])
     | None \<Rightarrow>
         if pd_decision policy \<noteq> Allow then deny_action E input x policy
         else
           bindE (drawE (randomUUID E)) (\<lambda>actionId.
           bindE (liftE (requestHash E (request_json input x))) (\<lambda>hashedRequest.
           bindE (authorize_action E input x policy approval actionId key hashedRequest) (\<lambda>replay.
           case replay of
             Some r \<Rightarrow> ret r
           | None \<Rightarrow> call_provider E deps input x policy actionId))))))))"


subsection \<open>What each step leaves alone\<close>

text \<open>The view of the gateway on the state: what was sent, and the rows of the action table.\<close>

definition outside :: "http_request list \<Rightarrow> connector_action_row list \<Rightarrow> 'w net_world_scheme \<Rightarrow> bool" where
  "outside s as w \<longleftrightarrow> sent w = s \<and> connector_actions w = as"

definition action_keys :: "'w command_world_scheme \<Rightarrow> (id \<times> string) list" where
  "action_keys w = map (\<lambda>a. (ca_organization_id a, ca_idempotency_key a)) (connector_actions w)"

lemma outside_more:
  "audit_world.more w' = audit_world.more w \<Longrightarrow> outside s as w' = outside s as w"
  by (cases w; cases w') (simp add: outside_def)

lemma pres_outside:
  fixes f :: "(err, 'w net_world_scheme, 'a) op"
  assumes "\<And>m. preserves (rest_is m) f"
  shows "preserves (outside s as) f"
proof (rule preservesI)
  fix w :: "'w net_world_scheme" assume "outside s as w"
  moreover have "rest_is (audit_world.more w) (snd (f w))"
    by (rule preservesD [OF assms surjective_pairing]) (simp add: rest_is_def)
  ultimately show "outside s as (snd (f w))" using outside_more [of "snd (f w)" w s as] by (simp add: rest_is_def)
qed

lemma preserves_txn_both:
  assumes "preserves P m" and "\<And>s t. P s \<Longrightarrow> P t \<Longrightarrow> P (r s t)"
  shows "preserves P (txnE r m)"
proof (rule preservesI)
  fix s assume "P s"
  moreover have "P (snd (m s))" by (rule preservesD [OF assms(1) surjective_pairing \<open>P s\<close>])
  ultimately show "P (snd (txnE r m s))" using assms(2) by (simp add: run_txnE split: prod.split sum.split) auto
qed

lemma rest_appendExecutionEvent [pres]: "preserves (rest_is m) (appendExecutionEvent E db input)"
  unfolding appendExecutionEvent_def
  by (intro pres preserves_txn_both) (simp_all add: rest_is_def restore_audit_def)

lemma rest_tool_event [pres]: "preserves (rest_is m) (appendToolEvent E db input)"
  by (cases db) (simp_all add: lastEventId_def listExecutionEvents_def latest_event_id_def, (intro pres)+)

lemma outside_tool_event [pres]: "preserves (outside s as) (appendToolEvent E db input)"
  by (rule pres_outside) (rule rest_tool_event)

lemma outside_update [simp]:
  "outside s as (w\<lparr>draws := n\<rparr>) = outside s as w"
  "outside s as (v\<lparr>content_items := cs\<rparr>) = outside s as v"
  by (simp_all add: outside_def)

lemma outside_clock [pres]: "preserves (outside s as) (nowE E)" "preserves (outside s as) (drawE f)"
  by (simp_all add: preserves_def nowE_def drawE_def)

lemma outside_update_items [pres]: "preserves (outside s as) (update_items sel i f)"
  unfolding update_items_def by (intro pres) simp

lemma outside_reload [pres]: "preserves (outside s as) (reload_action x i extras)"
  unfolding reload_action_def loadAction_def by (intro pres)

lemma outside_claim [pres]: "preserves (outside s as) (claim_item input x i)"
  unfolding claim_item_def by (intro pres)

lemma outside_deny [pres]: "preserves (outside s as) (deny_action E input x policy)"
  unfolding deny_action_def by (intro pres)

subsection \<open>What a call does to the row of the action\<close>

text \<open>The row of one action: only the columns that describe its progress change.\<close>

definition same_action :: "connector_action_row \<Rightarrow> connector_action_row \<Rightarrow> bool" where
  "same_action a b \<longleftrightarrow> ca_id a = ca_id b \<and> ca_organization_id a = ca_organization_id b \<and>
     ca_execution_id a = ca_execution_id b \<and> ca_connector_id a = ca_connector_id b \<and> ca_action a = ca_action b \<and>
     ca_artifact_hash a = ca_artifact_hash b \<and> ca_idempotency_key a = ca_idempotency_key b \<and>
     ca_requested_by a = ca_requested_by b \<and> ca_approved_by a = ca_approved_by b \<and> ca_created_at a = ca_created_at b"

lemma same_action_refl [simp]: "same_action a a"
  by (simp add: same_action_def)

lemma same_action_trans: "same_action a b \<Longrightarrow> same_action b c \<Longrightarrow> same_action a c"
  by (simp add: same_action_def)

definition one_action :: "id \<Rightarrow> id \<Rightarrow> (connector_action_row \<Rightarrow> connector_action_row) \<Rightarrow> connector_action_row list \<Rightarrow>
    connector_action_row list" where
  "one_action org i g = update_where (\<lambda>a. ca_id a = i \<and> ca_organization_id a = org) g"

lemma one_action_twice:
  assumes "\<And>a. same_action (f a) a"
  shows "one_action org i g (one_action org i f as) = one_action org i (g \<circ> f) as"
  using assms by (auto simp: one_action_def update_where_def same_action_def)

lemma one_action_id [simp]: "one_action org i (\<lambda>a. a) as = as"
  by (simp add: one_action_def update_where_def)

lemma update_action_run:
  assumes "update_action org i f w = (r, w')" "outside s as w"
  shows "r = Inr ()" "outside s (one_action org i f as) w'"
  using assms by (auto simp: update_action_def run outside_def one_action_def)

lemma finished_simps [simp]:
  "ca_status (finished input now a) = fi_status input" "ca_error_code (finished input now a) = fi_errorCode input"
  "same_action (finished input now a) a"
  by (simp_all add: finished_def same_action_def)

lemma finishAction_outcome:
  assumes "finishAction E input w = (r, w')" "outside s as w"
  shows "\<exists>now. outside s (one_action (fi_organizationId input) (fi_actionId input) (finished input now) as) w'"
proof -
  let ?now = "clock E (draws w)" and ?w1 = "w\<lparr>draws := Suc (draws w)\<rparr>"
  let ?tail = "bindE (appendToolEvent E Pool (finish_event input)) (\<lambda>_.
     updateSocialItem E (fi_organizationId input) (fi_executionId input) (fi_socialStatus input)
       (fi_actionId input) (fi_externalActionId input) (fi_scheduledFor input))"
  have now: "nowE E w = (Inr ?now, ?w1)" by (simp add: nowE_def drawE_def)
  obtain u where u: "update_action (fi_organizationId input) (fi_actionId input) (finished input ?now) ?w1 = (Inr (), u)"
    by (simp add: update_action_def run)
  have o: "outside s (one_action (fi_organizationId input) (fi_actionId input) (finished input ?now) as) u"
    by (rule update_action_run(2) [OF u]) (use assms(2) in simp)
  have t: "?tail u = (r, w')"
    using assms(1) unfolding finishAction_def bindE_run [where m = "nowE E", OF now]
      bindE_run [where m = "update_action o2 i g" for o2 i g, OF u] .
  have "preserves (outside s bs) ?tail" for bs
    unfolding updateSocialItem_def by (intro pres)
  from preservesD [OF this t o] show ?thesis by blast
qed

lemma outside_restore: "outside s as w \<Longrightarrow> sent u = s \<Longrightarrow> outside s as (restore_command w u)"
  by (simp add: outside_def restore_command_def restore_auth_def restore_audit_def)

text \<open>A row that is new in the table: its identifier and its key are not taken.\<close>

definition fresh_action :: "connector_action_row \<Rightarrow> connector_action_row list \<Rightarrow> bool" where
  "fresh_action row as \<longleftrightarrow> (\<forall>a\<in>set as. ca_id a \<noteq> ca_id row \<and>
     \<not> (ca_organization_id a = ca_organization_id row \<and> ca_idempotency_key a = ca_idempotency_key row))"

lemma insert_action_Inr:
  assumes "insert_action row w = (Inr v, w')"
  shows "w' = w\<lparr>connector_actions := connector_actions w @ [row]\<rparr> \<and> fresh_action row (connector_actions w)"
  using assms by (auto simp: insert_action_def inr_iffs constraintE_Inr fresh_action_def)

lemma record_action_Inr:
  assumes "record_action E input x policy row w = (Inr v, w')"
  shows "outside (sent w) (connector_actions w @ [row]) w' \<and> fresh_action row (connector_actions w)"
proof -
  let ?f = "bindE (appendToolEvent E PoolClient (tool_event_of input x policy ''tool.requested'' ''started'')) (\<lambda>_.
      appendToolEvent E PoolClient (tool_event_of input x policy ''tool.authorized'' ''ok''))"
  from assms obtain u where ins: "insert_action row w = (Inr (), u)" and ev: "?f u = (Inr v, w')"
    unfolding record_action_def bindE_Inr [of "insert_action row"] by auto
  have "outside (sent w) (connector_actions w @ [row]) u"
    using insert_action_Inr [OF ins] by (simp add: outside_def)
  moreover have p: "preserves (outside s as) ?f" for s as by (intro pres)
  ultimately show ?thesis using preservesD [OF p ev] insert_action_Inr [OF ins] by blast
qed

lemma authorize_body_Inr:
  assumes "authorize_body E input x policy approval i key h w = (Inr v, w')"
  shows "\<exists>approver tm now. let row = new_action input x i key h approver tm now in
    outside (sent w) (connector_actions w @ [row]) w' \<and> fresh_action row (connector_actions w)"
proof -
  from assms obtain approver tm now where
    "record_action E input x policy (new_action input x i key h approver tm now) (w\<lparr>draws := Suc (draws w)\<rparr>) = (Inr v, w')"
    by (auto simp: authorize_body_def approver_of_def nowE_def bindE_Inr basic_Inr drawE_Inr)
  from record_action_Inr [OF this] show ?thesis by (auto simp: Let_def)
qed

lemma sent_kept [pres]: "preserves (\<lambda>w. sent w = s) (authorize_body E input x policy approval i key h)"
proof -
  have ev: "preserves (\<lambda>w. sent w = s) (appendToolEvent E db t)" for db t
    using outside_tool_event [of s _ E db t] unfolding preserves_def outside_def by blast
  show ?thesis
    unfolding authorize_body_def approver_of_def record_action_def insert_action_def
    by (intro pres ev) (simp_all add: preserves_def nowE_def drawE_def)
qed

lemma authorize_cases:
  assumes "authorize_action E input x policy approval i key h w = (res, w')"
  obtains (authorized) row approver tm now where "res = Inr None" "row = new_action input x i key h approver tm now"
      "outside (sent w) (connector_actions w @ [row]) w'" "fresh_action row (connector_actions w)"
  | (not) "res \<noteq> Inr None" "outside (sent w) (connector_actions w) w'"
proof (cases "authorize_body E input x policy approval i key h w")
  case (Pair r u)
  show ?thesis
  proof (cases r)
    case (Inr v)
    then show ?thesis using assms Pair authorize_body_Inr [of E input x policy approval i key h w v u] authorized
      by (auto simp: authorize_action_def run Let_def)
  next
    case (Inl e)
    have "sent u = sent w" by (rule preservesD [OF sent_kept Pair]) simp
    then have "outside (sent w) (connector_actions w) (restore_command w u)"
      by (intro outside_restore) (simp_all add: outside_def)
    then show ?thesis using assms Pair Inl not
      by (auto simp: authorize_action_def run loadActionByKey_def split: if_splits option.splits)
  qed
qed

text \<open>The request that carries the message of the payload to the page of the connector.\<close>

definition carries :: "'a net_env_scheme \<Rightarrow> gateway_deps \<Rightarrow> action_request \<Rightarrow> action_context \<Rightarrow> http_request \<Rightarrow> bool" where
  "carries E deps input x q \<longleftrightarrow> (\<exists>m message params.
     resolve_connector (cn_connector_type (gx_connector x)) (gd_registry deps) = Inr m \<and>
     payload_message (rc_payload input) = Inr message \<and>
     q = feed_request E m (gx_pageId x) ((''message'', message) # params) \<and>
     rc_action input \<in> {''publish_post'', ''schedule_post''})"

text \<open>What a row may say about a request that was answered with \<open>r\<close>.\<close>

definition recorded :: "reply \<Rightarrow> connector_action_row \<Rightarrow> bool" where
  "recorded r a \<longleftrightarrow>
     (case ca_status a of ActionSucceeded \<Rightarrow> accepted r | ActionFailed \<Rightarrow> refused r
      | ActionNeedsReview \<Rightarrow> True | _ \<Rightarrow> False)"

text \<open>The effect of a part of the call on the outside: at most one request, and an update of the row that
  records its outcome when there was one.\<close>

definition effect :: "'a net_env_scheme \<Rightarrow> gateway_deps \<Rightarrow> action_request \<Rightarrow> action_context \<Rightarrow> id \<Rightarrow>
    'w social_world_scheme \<Rightarrow> 'w social_world_scheme \<Rightarrow> bool" where
  "effect E deps input x i w w' \<longleftrightarrow> (\<exists>qs g.
     outside (sent w @ qs) (one_action (ex_organization_id (gx_execution x)) i g (connector_actions w)) w' \<and>
     (\<forall>a. same_action (g a) a) \<and> length qs \<le> 1 \<and>
     (\<forall>q\<in>set qs. carries E deps input x q \<and> (\<forall>a. recorded (fetch E (length (sent w)) q) (g a))))"

lemma effect_none: "outside (sent w) (connector_actions w) w' \<Longrightarrow> effect E deps input x i w w'"
  unfolding effect_def by (intro exI [of _ "[]"] exI [of _ "\<lambda>a. a"]) simp

lemma effect_update:
  assumes "outside (sent w) (one_action (ex_organization_id (gx_execution x)) i f (connector_actions w)) u"
    and "\<And>a. same_action (f a) a" and "effect E deps input x i u w'"
  shows "effect E deps input x i w w'"
proof -
  from assms(3) obtain qs g where g: "outside (sent u @ qs)
      (one_action (ex_organization_id (gx_execution x)) i g (connector_actions u)) w'"
     "\<forall>a. same_action (g a) a" "length qs \<le> 1"
     "\<forall>q\<in>set qs. carries E deps input x q \<and> (\<forall>a. recorded (fetch E (length (sent u)) q) (g a))"
    unfolding effect_def by blast
  have "sent u = sent w" "connector_actions u = one_action (ex_organization_id (gx_execution x)) i f (connector_actions w)"
    using assms(1) by (simp_all add: outside_def)
  with g assms(2) show ?thesis
    unfolding effect_def
    by (intro exI [of _ qs] exI [of _ "g \<circ> f"]) (auto simp: one_action_twice intro: same_action_trans)
qed

lemma finish_effect:
  assumes "finishAction E fi u = (r, w')" "outside (sent w @ qs) (connector_actions w) u" "length qs \<le> 1"
    and "fi_organizationId fi = ex_organization_id (gx_execution x)" "fi_actionId fi = i"
    and "\<forall>q\<in>set qs. carries D deps input x q \<and> (\<forall>a. ca_status a = fi_status fi \<longrightarrow> recorded (fetch D (length (sent w)) q) a)"
  shows "effect D deps input x i w w'"
proof -
  obtain now where "outside (sent w @ qs) (one_action (ex_organization_id (gx_execution x)) i (finished fi now)
      (connector_actions w)) w'"
    using finishAction_outcome [OF assms(1,2)] assms(4,5) by auto
  with assms(3,6) show ?thesis
    unfolding effect_def by (intro exI [of _ qs] exI [of _ "finished fi now"]) auto
qed

lemma record_effect:
  assumes "bindE (finishAction E fi) (\<lambda>_. reload_action y j extras) u = (r, w')"
    "outside (sent w @ qs) (connector_actions w) u" "length qs \<le> 1"
    and "fi_organizationId fi = ex_organization_id (gx_execution x)" "fi_actionId fi = i"
    and "\<forall>q\<in>set qs. carries D deps input x q \<and> (\<forall>a. ca_status a = fi_status fi \<longrightarrow> recorded (fetch D (length (sent w)) q) a)"
  shows "effect D deps input x i w w'"
proof -
  obtain f v where f: "finishAction E fi u = (f, v)" by (cases "finishAction E fi u")
  have "w' = v" if "f = Inl e" for e using assms(1) f that by (simp add: run_bindE [of "finishAction E fi"])
  moreover have "w' = v" if "f = Inr ()"
  proof -
    have r: "reload_action y j extras v = (r, w')" using assms(1) f that by (simp add: run_bindE [of "finishAction E fi"])
    have "preserves (\<lambda>s. s = v) (reload_action y j extras)"
      unfolding reload_action_def loadAction_def by (intro pres)
    from preservesD [OF this r] show ?thesis by simp
  qed
  ultimately have "w' = v" by (cases f) auto
  with finish_effect [OF f assms(2-6)] show ?thesis by simp
qed

lemma try_execute_outcome:
  assumes "try_execute E m (execute_input deps input x) w = (Inr r, w')"
    "resolve_connector (cn_connector_type (gx_connector x)) (gd_registry deps) = Inr m"
  shows "\<exists>qs. outside (sent w @ qs) (connector_actions w) w' \<and> length qs \<le> 1 \<and>
    (\<forall>q\<in>set qs. carries E deps input x q \<and> settled E (length (sent w)) q r)"
proof -
  let ?in = "execute_input deps input x"
  obtain r0 u where ex: "meta_execute E m ?in w = (r0, u)" by (cases "meta_execute E m ?in w")
  then have r: "r0 = r" "u = w'" using assms(1) by (cases r0; simp add: try_execute_def run)+
  have f: "ai_action ?in = rc_action input" "ai_payload ?in = rc_payload input" "ai_pageId ?in = gx_pageId x"
    by (simp_all add: execute_input_def)
  show ?thesis
  proof (cases rule: meta_execute_cases [OF ex [unfolded r]])
    case (1 e k)
    then show ?thesis by (intro exI [of _ "[]"]) (simp add: outside_def)
  next
    case (2 message k)
    then show ?thesis using assms(2) unfolding f
      by (intro exI [of _ "[feed_request E m (gx_pageId x) (publish_params message ?in)]"])
        (auto simp: outside_def carries_def publish_params_def)
  next
    case (3 message unix k)
    then show ?thesis using assms(2) unfolding f
      by (intro exI [of _ "[feed_request E m (gx_pageId x) (schedule_params message unix ?in)]"])
        (auto simp: outside_def carries_def schedule_params_def)
  qed
qed

lemma try_execute_total: "\<exists>r w'. try_execute E m input w = (Inr r, w')"
proof (cases "meta_execute E m input w")
  case (Pair r u)
  then show ?thesis by (cases r) (simp_all add: try_execute_def run)
qed

lemma record_outcome:
  assumes "(case r of Inl e \<Rightarrow> record_failure E input x policy i e
       | Inr result \<Rightarrow> record_success E input x policy i result) u = (res, w')"
    and "outside (sent w @ qs) (connector_actions w) u" "length qs \<le> 1"
    and "\<forall>q\<in>set qs. carries E deps input x q \<and> settled E (length (sent w)) q r"
  shows "effect E deps input x i w w'"
proof (cases r)
  case (Inr result)
  with assms(1) show ?thesis unfolding record_success_def
    by simp (erule record_effect [OF _ assms(2,3)], use assms(4) Inr in \<open>auto simp: finish_of_def settled_def recorded_def\<close>)
next
  case (Inl e)
  show ?thesis
  proof (cases "\<exists>c k. e = ConnectorError c k True")
    case True
    with assms(1) Inl show ?thesis unfolding record_failure_def Let_def
      by (elim exE) (simp, erule record_effect [OF _ assms(2,3)],
        use assms(4) in \<open>auto simp: finish_of_def recorded_def\<close>)
  next
    case False
    then have "fi_status (finish_of input x i (if (case e of ConnectorError c k a \<Rightarrow> a | _ \<Rightarrow> False)
        then ActionNeedsReview else ActionFailed) c ms so) = ActionFailed" for c ms so
      by (auto simp: finish_of_def split: err.splits)
    moreover have "\<forall>q\<in>set qs. refused (fetch E (length (sent w)) q)"
      using assms(4) Inl False by (auto simp: settled_def)
    ultimately show ?thesis
      using assms(1) Inl False assms(4) unfolding record_failure_def Let_def
      by (cases e) (auto simp: finish_of_def recorded_def elim!: record_effect [OF _ assms(2,3)])
  qed
qed

lemma execute_action_outcome:
  assumes "execute_action E deps input x policy i w = (res, w')"
  shows "effect E deps input x i w w'"
proof -
  let ?org = "ex_organization_id (gx_execution x)"
  obtain n w1 where n: "nowE E w = (Inr n, w1)" by (simp add: nowE_def drawE_def)
  have o1: "outside (sent w) (connector_actions w) w1"
    by (rule preservesD [OF outside_clock(1) n]) (simp add: outside_def)
  let ?f = "\<lambda>a. a\<lparr>ca_status := ActionExecuting, ca_started_at := coalesce (ca_started_at a) (Some n)\<rparr>"
  obtain w2 where u: "update_action ?org i ?f w1 = (Inr (), w2)"
    by (simp add: update_action_def run)
  have o2: "outside (sent w) (one_action ?org i ?f (connector_actions w)) w2"
    by (rule update_action_run(2) [OF u o1])
  have "effect E deps input x i w2 w'"
  proof (cases "resolve_connector (cn_connector_type (gx_connector x)) (gd_registry deps)")
    case (Inl e)
    then have "w' = w2" using assms(1) n u by (simp add: execute_action_def run)
    then show ?thesis by (intro effect_none) (simp add: outside_def)
  next
    case (Inr m)
    obtain r w3 where t: "try_execute E m (execute_input deps input x) w2 = (Inr r, w3)"
      using try_execute_total by blast
    obtain qs where qs: "outside (sent w2 @ qs) (connector_actions w2) w3" "length qs \<le> 1"
        "\<forall>q\<in>set qs. carries E deps input x q \<and> settled E (length (sent w2)) q r"
      using try_execute_outcome [OF t Inr] by blast
    have "(case r of Inl e \<Rightarrow> record_failure E input x policy i e
       | Inr result \<Rightarrow> record_success E input x policy i result) w3 = (res, w')"
      using assms(1) n u Inr t by (simp add: execute_action_def run)
    from record_outcome [OF this qs] show ?thesis .
  qed
  from effect_update [OF o2 _ this] show ?thesis by (simp add: same_action_def)
qed

lemma call_provider_outcome:
  assumes "call_provider E deps input x policy i w = (res, w')"
  shows "effect E deps input x i w w'"
proof -
  obtain c w1 where c: "claim_item input x i w = (c, w1)" by (cases "claim_item input x i w")
  have o1: "outside (sent w) (connector_actions w) w1"
    by (rule preservesD [OF outside_claim c]) (simp add: outside_def)
  have same: "effect E deps input x i w w' \<longleftrightarrow> effect E deps input x i w1 w'"
    using o1 by (simp add: effect_def outside_def)
  let ?fi = "finish_of input x i ActionFailed (Some ''CONNECTOR_NOT_CONFIGURED'') (tool_meta input x policy) ItemError"
  show ?thesis
  proof (cases c)
    case (Inl e)
    then have "w' = w1" using assms(1) c by (simp add: call_provider_def run)
    with o1 show ?thesis by (intro effect_none) simp
  next
    case (Inr v)
    show ?thesis
    proof (cases "\<not> truthy (secret_of deps (gx_connector x)) \<or> gx_pageId x = ''''")
      case True
      then have fr: "bindE (finishAction E ?fi) (\<lambda>_. throw (ExecutionError ''CONNECTOR_NOT_CONFIGURED'' 503)) w1 = (res, w')"
        using assms(1) c Inr by (simp add: call_provider_def run_bindE [of "claim_item input x i"])
      obtain f where f: "finishAction E ?fi w1 = (f, w')"
        using fr by (cases "finishAction E ?fi w1") (auto simp: run_bindE [of "finishAction E ?fi"] run_basic split: sum.splits)
      have "effect E deps input x i w1 w'"
        by (rule finish_effect [OF f, of w1 "[]"]) (simp_all add: outside_def finish_of_def)
      with same show ?thesis by simp
    next
      case False
      then have "execute_action E deps input x policy i w1 = (res, w')"
        using assms(1) c Inr by (simp add: call_provider_def run_bindE [of "claim_item input x i"])
      from execute_action_outcome [OF this] same show ?thesis by simp
    qed
  qed
qed

subsection \<open>A call of the gateway as a whole\<close>

lemma reads_find_connector [pres]: "preserves (\<lambda>s. s = w) (find_connector input org)"
  by (auto simp: find_connector_def getConnector_def getConnectorByType_def preserves_def run split: option.split)

lemma reads_check [pres]:
  "preserves (\<lambda>s. s = w) (check_actor input)" "preserves (\<lambda>s. s = v) (check_connector input org)"
  "preserves (\<lambda>s. s = u) (check_artifact C input e r k)"
  unfolding check_actor_def check_connector_def check_artifact_def getExecution_def role_of_member_def latest_item_def
  by (intro pres)+

lemma check_request_reads:
  assumes "check_request C input w = (r, w')"
  shows "w' = w"
proof -
  have "preserves (\<lambda>s. s = w) (check_request C input)"
    unfolding check_request_def by (auto intro!: pres split: prod.split)
  from preservesD [OF this assms] show ?thesis by simp
qed

definition newest_approval :: "id \<Rightarrow> id \<Rightarrow> 'w command_world_scheme \<Rightarrow> approval_row option" where
  "newest_approval org exec w = first_row (sort_key (\<lambda>a. - ap_created_at a)
     (filter (\<lambda>a. ap_organization_id a = org \<and> ap_execution_id a = exec) (approvals w)))"

text \<open>The state in which a request may go out.\<close>

definition cleared :: "'a net_env_scheme \<Rightarrow> action_request \<Rightarrow> action_context \<Rightarrow> 'w social_world_scheme \<Rightarrow> bool" where
  "cleared E input x w \<longleftrightarrow> check_request E input w = (Inr x, w) \<and>
     verdict_value (connector_action_verdict (action_policy_input input x
       (newest_approval (ex_organization_id (gx_execution x)) (ex_id (gx_execution x)) w)) w) = Allow"

lemma check_actor_Inr:
  assumes "check_actor input w = (Inr (e, role), w')"
  shows "e \<in> set (executions w)" "ex_id e = rc_executionId input" "ex_organization_id e = rc_organizationId input"
    "\<not> terminal (ex_status e)" "ex_status e \<noteq> WaitingApproval"
    "role_of_member (rc_actorId input) (rc_organizationId input) w = (Inr (Some role), w)"
  using assms
  by (auto simp: check_actor_def getExecution_def role_of_member_def inr_iffs terminal_def dest: find_SomeD)

lemma check_connector_Inr:
  assumes "check_connector input org w = (Inr k, w')"
  shows "k \<in> set (connectors w)" "cn_organization_id k = org"
  using assms
  by (auto simp: check_connector_def find_connector_def getConnector_def getConnectorByType_def inr_iffs
      dest!: first_row_SomeD [OF sym] dest: find_SomeD [OF sym] split: option.splits if_splits)

lemma check_artifact_Inr:
  assumes "check_artifact C input e role k w = (Inr x, w')"
  shows "gx_execution x = e" "gx_roleId x = role" "gx_connector x = k" "page_id_of k = Inr (gx_pageId x)"
    "payload_message (rc_payload input) = Inr (gx_message x)"
    "node_sha256Hex C (gx_message x) = rc_artifactHash input"
    "latest_item (ex_organization_id e) (ex_id e) w = (Inr (gx_social x), w)"
    "check_item input (gx_message x) (gx_social x) = Inr ()" "ex_skill_id e = Some (gx_skillId x)"
  using assms
  by (auto simp: check_artifact_def latest_item_def inr_iffs split: option.splits if_splits)

lemma check_request_Inr:
  assumes "check_request C input w = (Inr x, w')"
  shows "check_actor input w = (Inr (gx_execution x, gx_roleId x), w)"
    "check_connector input (ex_organization_id (gx_execution x)) w = (Inr (gx_connector x), w)"
    "check_artifact C input (gx_execution x) (gx_roleId x) (gx_connector x) w = (Inr x, w)"
proof -
  from assms obtain e role w1 k w2 where a: "check_actor input w = (Inr (e, role), w1)"
      and k: "check_connector input (ex_organization_id e) w1 = (Inr k, w2)"
      and x: "check_artifact C input e role k w2 = (Inr x, w')"
    by (auto simp: check_request_def bindE_Inr)
  have "w1 = w" "w2 = w1" "w' = w2"
    using preservesD [OF reads_check(1) a] preservesD [OF reads_check(2) k] preservesD [OF reads_check(3) x] by auto
  then show "check_actor input w = (Inr (gx_execution x, gx_roleId x), w)"
    "check_connector input (ex_organization_id (gx_execution x)) w = (Inr (gx_connector x), w)"
    "check_artifact C input (gx_execution x) (gx_roleId x) (gx_connector x) w = (Inr x, w)"
    using a k x check_artifact_Inr(1-3) [OF x] by simp_all
qed

text \<open>A call of the gateway: nothing outside the database happens and the action table is as before, or one
  fresh row is added, and at most one request goes out, whose outcome the row records.\<close>

definition call_effect ::
    "'a net_env_scheme \<Rightarrow> gateway_deps \<Rightarrow> action_request \<Rightarrow> 'w social_world_scheme \<Rightarrow> 'w social_world_scheme \<Rightarrow> bool" where
  "call_effect E deps input w w' \<longleftrightarrow>
     outside (sent w) (connector_actions w) w' \<or>
     (\<exists>x qs row. outside (sent w @ qs) (connector_actions w @ [row]) w' \<and> check_request E input w = (Inr x, w) \<and>
        cleared E input x w \<and> length qs \<le> 1 \<and> fresh_action row (connector_actions w) \<and>
        ca_organization_id row = rc_organizationId input \<and> ca_execution_id row = rc_executionId input \<and>
        ca_action row = rc_action input \<and> ca_artifact_hash row = rc_artifactHash input \<and>
        ca_requested_by row = rc_actorId input \<and>
        requestHash E (idempotency_json input x) = Inr (ca_idempotency_key row) \<and>
        (\<forall>q\<in>set qs. carries E deps input x q \<and> recorded (fetch E (length (sent w)) q) row))"

lemma one_action_fresh:
  assumes "fresh_action row as"
  shows "one_action (ca_organization_id row) (ca_id row) g (as @ [row]) = as @ [g row]"
  using assms by (auto simp: one_action_def update_where_def fresh_action_def intro!: map_idI)

lemma authorized_effect:
  assumes call: "call_provider E deps input x d i u = (res, w')" and row: "row = new_action input x i key h approver tm now"
    and o: "outside (sent w) (connector_actions w @ [row]) u" and fresh: "fresh_action row (connector_actions w)"
    and x: "check_request E input w = (Inr x, w)" "cleared E input x w" "requestHash E (idempotency_json input x) = Inr key"
  shows "call_effect E deps input w w'"
proof -
  note e = check_actor_Inr [OF check_request_Inr(1) [OF x(1)]]
  have r: "ca_organization_id row = ex_organization_id (gx_execution x)" "ca_id row = i"
    by (simp_all add: row new_action_def)
  have u: "sent u = sent w" "connector_actions u = connector_actions w @ [row]"
    using o by (simp_all add: outside_def)
  from call_provider_outcome [OF call] obtain qs g where
    out: "outside (sent w @ qs) (one_action (ex_organization_id (gx_execution x)) i g (connector_actions w @ [row])) w'"
    and g': "\<forall>a. same_action (g a) a" and qs: "length qs \<le> 1"
      "\<forall>q\<in>set qs. carries E deps input x q \<and> (\<forall>a. recorded (fetch E (length (sent w)) q) (g a))"
    unfolding effect_def u by blast
  have g: "same_action (g row) row" using g' by blast
  have "outside (sent w @ qs) (connector_actions w @ [g row]) w'"
    using out one_action_fresh [OF fresh, of g] r by simp
  moreover have "fresh_action (g row) (connector_actions w)"
    using fresh g by (auto simp: fresh_action_def same_action_def)
  moreover have "ca_organization_id (g row) = rc_organizationId input" "ca_execution_id (g row) = rc_executionId input"
      "ca_action (g row) = rc_action input" "ca_artifact_hash (g row) = rc_artifactHash input"
      "ca_requested_by (g row) = rc_actorId input" "ca_idempotency_key (g row) = key"
    using g e by (simp_all add: same_action_def row new_action_def)
  ultimately show ?thesis
    using x qs unfolding call_effect_def by (intro disjI2 exI [of _ x] exI [of _ qs] exI [of _ "g row"] conjI; simp)
qed

lemma request_outcome:
  assumes "requestConnectorAction E deps input w = (res, w')"
  shows "call_effect E deps input w w'"
proof -
  have here: "outside (sent w) (connector_actions w) w" by (simp add: outside_def)
  have quiet: ?thesis if "outside (sent w) (connector_actions w) w'"
    using that by (simp add: call_effect_def)
  obtain c w0 where c: "check_request E input w = (c, w0)" by (cases "check_request E input w")
  then have w0: "w0 = w" by (rule check_request_reads)
  show ?thesis
  proof (cases c)
    case (Inl e)
    then show ?thesis using assms c w0 here quiet by (simp add: requestConnectorAction_def run)
  next
    case (Inr x)
    let ?a = "newest_approval (ex_organization_id (gx_execution x)) (ex_id (gx_execution x)) w"
    let ?i = "action_policy_input input x ?a" and ?w1 = "w\<lparr>draws := Suc (draws w)\<rparr>"
    obtain d where d: "evaluateConnectorAction E ?i w = (Inr d, ?w1)"
        "pd_decision d = verdict_value (connector_action_verdict ?i w)"
      using evaluateConnectorAction_value by blast
    obtain key h where key: "requestHash E (idempotency_json input x) = Inr key" "requestHash E (request_json input x) = Inr h"
      by (simp add: requestHash_def idempotency_json_def request_json_def)
    have app: "getPendingApprovalForExecution (ex_organization_id (gx_execution x)) (ex_id (gx_execution x)) w = (Inr ?a, w)"
      by (simp add: getPendingApprovalForExecution_def run newest_approval_def)
    have o1: "outside (sent w) (connector_actions w) ?w1" using here by simp
    obtain existing where ex: "loadActionByKey (ex_organization_id (gx_execution x)) key ?w1 = (Inr existing, ?w1)"
      by (simp add: loadActionByKey_def run)
    show ?thesis
    proof (cases "existing \<noteq> None \<or> pd_decision d \<noteq> Allow")
      case True
      have "outside (sent w) (connector_actions w) w'"
        using assms c w0 Inr app d(1) key(1) ex True o1
          preservesD [OF outside_deny, of E input x d ?w1 res w']
        by (auto simp: requestConnectorAction_def run split: option.splits)
      then show ?thesis by (rule quiet)
    next
      case False
      obtain i w3 where i: "drawE (randomUUID E) ?w1 = (Inr i, w3)" by (simp add: drawE_def)
      have o3: "outside (sent w) (connector_actions w) w3" by (rule preservesD [OF outside_clock(2) i o1])
      obtain r w4 where auth: "authorize_action E input x d ?a i key h w3 = (r, w4)"
        by (cases "authorize_action E input x d ?a i key h w3")
      have rest: "(case r of Inl e \<Rightarrow> (Inl e, w4) | Inr None \<Rightarrow> call_provider E deps input x d i w4
          | Inr (Some j) \<Rightarrow> (Inr j, w4)) = (res, w')"
        using assms c w0 Inr app d(1) key ex False i auth
        by (simp add: requestConnectorAction_def run split: sum.splits option.splits)
      from auth show ?thesis
      proof (cases rule: authorize_cases)
        case (authorized row approver tm now)
        have "call_provider E deps input x d i w4 = (res, w')" using rest authorized(1) by simp
        moreover have "cleared E input x w" using c w0 Inr d(2) False by (simp add: cleared_def)
        ultimately show ?thesis
          using authorized_effect [of E deps input x d i w4 res w' row key h approver tm now w] authorized(2-4) o3
            c w0 Inr key(1) by (simp add: outside_def)
      next
        case not
        have "w' = w4" using rest not(1) by (auto split: sum.splits option.splits)
        then show ?thesis using not(2) o3 quiet by (simp add: outside_def)
      qed
    qed
  qed
qed



text \<open>C26: Nothing leaves the system unapproved.  When a call of the gateway sends a request, the execution is
  running (neither ended nor waiting for approval), the actor is a member whose role holds the execution's
  skill, the connector belongs to the organization, is enabled and takes the classification, and, where it
  requires approval, the newest approval of the execution is approved and bound to the artifact hash; and
  the request carries a message whose SHA-256 is exactly that artifact hash, to the page configured for the
  connector.\<close>

theorem gateway_sends_only_approved:
  assumes "requestConnectorAction E deps input w = (res, w')" and "command_inv w" and "sent w' \<noteq> sent w"
  shows "\<exists>x role k message q.
    x \<in> set (executions w) \<and> ex_id x = rc_executionId input \<and> ex_organization_id x = rc_organizationId input \<and>
    \<not> terminal (ex_status x) \<and> ex_status x \<noteq> WaitingApproval \<and>
    role_of_member (rc_actorId input) (rc_organizationId input) w = (Inr (Some role), w) \<and>
    (\<exists>skill s. ex_skill_id x = Some skill \<and> granted (rc_organizationId input) skill role w s) \<and>
    k \<in> set (connectors w) \<and> cn_organization_id k = rc_organizationId input \<and> cn_enabled k \<and>
    (case rc_classification input of None \<Rightarrow> Internal | Some c \<Rightarrow> c) \<in> set (cn_allowed_data_classes k) \<and>
    (cn_requires_approval k \<longrightarrow> (\<exists>a. newest_approval (rc_organizationId input) (ex_id x) w = Some a \<and>
       ap_status a = Approved \<and> ap_artifact_hash a = Some (rc_artifactHash input))) \<and>
    payload_message (rc_payload input) = Inr message \<and> node_sha256Hex E message = rc_artifactHash input \<and>
    sent w' = sent w @ [q] \<and>
    (\<exists>m page params. page_id_of k = Inr page \<and> q = feed_request E m page ((''message'', message) # params))"
proof -
  from request_outcome [OF assms(1)] assms(3) obtain x qs where qs: "sent w' = sent w @ qs" "length qs \<le> 1"
      "cleared E input x w" "\<forall>q\<in>set qs. carries E deps input x q"
    unfolding call_effect_def by (fastforce simp: outside_def)
  with assms(3) obtain q where q: "qs = [q]" by (cases qs) auto
  with qs have x: "cleared E input x w" "carries E deps input x q" by auto
  let ?org = "rc_organizationId input" and ?k = "gx_connector x"
  from x(1) have run: "check_request E input w = (Inr x, w)" by (simp add: cleared_def)
  note c = check_request_Inr [OF this]
  note e = check_actor_Inr [OF c(1)]
  note k = check_connector_Inr [OF c(2)]
  note a = check_artifact_Inr [OF c(3)]
  let ?a = "newest_approval ?org (ex_id (gx_execution x)) w"
  let ?i = "action_policy_input input x ?a"
  have "verdict_value (connector_action_verdict ?i w) = Allow" using x(1) e(3) by (simp add: cleared_def)
  from this [unfolded connector_action_verdict_allow] obtain k' where
    k': "find (\<lambda>r. cn_organization_id r = ?org \<and> cn_connector_key r = cn_connector_key ?k) (connectors w) = Some k'"
      "cn_enabled k'" "ci_classification ?i \<in> set (cn_allowed_data_classes k')"
      "cn_requires_approval k' \<longrightarrow> artifact_approved ?i"
    and "skill_grants ?org (gx_skillId x) (gx_roleId x) w \<noteq> []"
    by (auto simp: action_policy_input_def e(3))
  then obtain s where s: "granted ?org (gx_skillId x) (gx_roleId x) w s"
    using skill_grants_granted by (metis list.set_sel(1))
  have "k' = ?k" using k' k e(3) find_by_keys(1) [OF assms(2), of ?org "cn_connector_key ?k" k']
    find_by_keys(1) [OF assms(2), of ?org "cn_connector_key ?k" ?k] by auto
  moreover have "\<exists>b. ?a = Some b \<and> ap_status b = Approved \<and> ap_artifact_hash b = Some (rc_artifactHash input)"
    if "artifact_approved ?i"
    using that by (cases ?a) (auto simp: artifact_approved_def action_policy_input_def elim: approval_str.elims)
  moreover obtain m message params where "payload_message (rc_payload input) = Inr message"
      "q = feed_request E m (gx_pageId x) ((''message'', message) # params)"
    using x(2) by (auto simp: carries_def)
  ultimately show ?thesis
    using e k k' a s qs(1) q
    by (intro exI [of _ "gx_execution x"] exI [of _ "gx_roleId x"] exI [of _ ?k] exI [of _ message] exI [of _ q])
      (auto simp: action_policy_input_def)
qed

subsection \<open>A concrete publication\<close>

lemma tool_event_runs:
  assumes "audit_inv E w" "isSha256Hex (te_artifactHash t)" "te_outputHash t = None"
    "te_eventType t \<in> set EXECUTION_EVENT_TYPES" "in_domain (JObj (te_metadata t))"
    "\<And>n. \<exists>s. four_digit_year s \<and> clock E n = s"
    "\<exists>x\<in>set (executions w). ex_id x = te_executionId t \<and> ex_organization_id x = te_organizationId t"
    "int (length (events_of (te_executionId t) w)) < 2147483647"
    "\<forall>e\<in>set (execution_events w). \<exists>n<draws w. ev_id e = randomUUID E n"
    "inj (randomUUID E)"
  shows "\<exists>row w'. appendToolEvent E PoolClient t w = (Inr (), w') \<and> audit_inv E w' \<and>
    executions w' = executions w \<and>
    execution_events w' = execution_events w @ [row] \<and> ev_execution_id row = te_executionId t \<and>
    (\<forall>e\<in>set (execution_events w'). \<exists>n<draws w'. ev_id e = randomUUID E n)"
proof -
  obtain p where p: "latest_event_id (te_organizationId t) (te_executionId t) w = (Inr p, w)"
    "p = map_option ev_id (first_row (sort_key (\<lambda>r. - ev_event_sequence r)
     (filter (\<lambda>r. ev_organization_id r = te_organizationId t \<and> ev_execution_id r = te_executionId t) (execution_events w))))"
    by (simp add: latest_event_id_def run)
  let ?i = "tool_payload t p"
  have par: "set (ae_parentEventIds ?i) \<subseteq> ev_id ` set (events_of (te_executionId t) w)"
    by (auto simp: tool_payload_def p(2) events_of_def dest!: first_row_SomeD [OF sym] split: option.splits)
  have "canonicalize (JObj (te_metadata t)) = Inr (pr (sorted_json (JObj (te_metadata t))))"
    using encode_total [OF assms(5)] by (simp only: canonicalize_def)
  then have "assertEventEvidence ?i = Inr ()"
    using assms(2-4) by (simp add: assertEventEvidence_def assertSha256Hex_def tool_payload_def event_metadata_def)
  moreover have "\<exists>s. four_digit_year s \<and> event_time E ?i w = iso_string s"
    using assms(6) [of "draws w"] by (auto simp: event_time_def tool_payload_def)
  moreover have "ev_id e \<noteq> randomUUID E (draws w + n)" if "e \<in> set (execution_events w)" for e n
    using assms(9,10) that by (metis injD not_add_less1)
  ultimately have "event_ready E ?i w"
    using assms(7,8) par by (auto simp: event_ready_def tool_payload_def)
  from append_event_succeeds [OF _ _ this] assms(1) obtain row w' where
    ev: "appendExecutionEventInTransaction E ?i w = (Inr row, w')" by (auto simp: audit_inv_def)
  obtain n where n: "ev_id row = randomUUID E n" "draws w \<le> n" "n < draws w'" using event_id_between [OF ev] by blast
  have "audit_inv E w'" by (rule audit_inv_append_event(1) [OF ev assms(1)])
  moreover have "executions w' = executions w" "execution_events w' = execution_events w @ [row]"
    "ev_execution_id row = te_executionId t"
    using append_event_Inr [OF ev] by (auto simp: event_appended_def tool_payload_def)
  ultimately show ?thesis
    using p(1) ev n assms(9) by (auto simp: run intro!: exI [of _ row] exI [of _ w']) (meson le_less_trans less_imp_le)
qed

definition sample_deps :: gateway_deps where
  "sample_deps = \<lparr>gd_registry = [(META_TYPE, sample_meta)], gd_secrets = (\<lambda>k. Some ''s'')\<rparr>"

definition sample_artifact :: string where
  "sample_artifact = node_sha256Hex sample_post_env ''hello''"

definition sample_connector :: connector_row where
  "sample_connector = \<lparr>cn_id = ''c1'', cn_organization_id = ''org'', cn_connector_key = ''meta.facebook'',
     cn_connector_type = META_TYPE, cn_version = ''1.0.0'', cn_enabled = True,
     cn_allowed_data_classes = [Public], cn_secret_ref = Some ''KEY'',
     cn_page_config = JObj [(''page_id'', JStr ''42'')], cn_capabilities = [''publish_post''],
     cn_requires_approval = True, cn_created_at = 0\<rparr>"

definition running_execution :: execution_row where
  "running_execution = sample_execution\<lparr>ex_skill_id := Some ''nova.social.draft''\<rparr>"

definition sample_approval :: approval_row where
  "sample_approval = \<lparr>ap_id = ''a1'', ap_organization_id = ''org'', ap_execution_id = ''e1'',
     ap_skill_id = ''nova.social.draft'', ap_requested_by = ''u1'', ap_decided_by = Some ''u2'',
     ap_status = Approved, ap_reason_code = Some ''APPROVED'', ap_artifact_hash = Some sample_artifact,
     ap_created_at = 0, ap_decided_at = Some 0\<rparr>"

definition gateway_world :: social_world where
  "gateway_world = net_world.extend (command_world.extend ((lifecycle_world Running Pending)
     \<lparr>executions := [running_execution], connectors := [sample_connector], approvals := [sample_approval]\<rparr>)
     \<lparr>sent = []\<rparr>) \<lparr>content_items = []\<rparr>"

definition sample_publish :: action_request where
  "sample_publish = \<lparr>rc_organizationId = ''org'', rc_executionId = ''e1'', rc_actorId = ''u1'', rc_connectorId = Some ''c1'',
     rc_connectorType = None, rc_action = ''publish_post'', rc_artifactHash = sample_artifact,
     rc_payload = JObj [(''message'', JStr ''hello'')], rc_classification = Some Public\<rparr>"

lemma gateway_world_tables:
  "executions gateway_world = [running_execution]" "execution_events gateway_world = []"
  "connectors gateway_world = [sample_connector]" "approvals gateway_world = [sample_approval]"
  "connector_actions gateway_world = []" "sent gateway_world = []" "content_items gateway_world = []"
  "memberships gateway_world = memberships (lifecycle_world Running Pending)"
  "users gateway_world = users (lifecycle_world Running Pending)"
  "organizations gateway_world = organizations (lifecycle_world Running Pending)"
  "skill_connectors gateway_world = skill_connectors (lifecycle_world Running Pending)"
  "skill_policies gateway_world = skill_policies (lifecycle_world Running Pending)"
  "skill_policy_roles gateway_world = skill_policy_roles (lifecycle_world Running Pending)"
  "policies gateway_world = policies (lifecycle_world Running Pending)"
  "policy_bindings gateway_world = policy_bindings (lifecycle_world Running Pending)"
  by (simp_all add: gateway_world_def net_world.defs command_world.defs lifecycle_world_def sample_command_def
      open_connector_world_def auth_world.defs sample_auth_def empty_auth_def audit_world.defs empty_audit_def)

lemma gateway_world_invs: "command_inv gateway_world" "audit_inv C gateway_world"
proof -
  show "command_inv gateway_world"
    using lifecycle_world_invs(1) [of Running Pending]
    by (simp add: command_inv_def gateway_world_def net_world.defs command_world.defs)
  have "ledger_inv C gateway_world"
    using ledger_inv_cong [of gateway_world empty_audit C] ledger_inv_empty [of C]
    by (simp add: gateway_world_def net_world.defs command_world.defs lifecycle_world_def sample_command_def
        open_connector_world_def auth_world.defs sample_auth_def empty_auth_def audit_world.defs empty_audit_def)
  then show "audit_inv C gateway_world"
    by (simp add: audit_inv_def events_inv_def executions_ok_def gateway_world_tables events_of_def)
qed

lemma gateway_context:
  "check_request sample_post_env sample_publish gateway_world = (Inr \<lparr>gx_execution = running_execution,
     gx_roleId = ''r1'', gx_connector = sample_connector, gx_pageId = ''42'', gx_message = ''hello'',
     gx_social = None, gx_skillId = ''nova.social.draft''\<rparr>, gateway_world)"
proof -
  have "isSha256Hex sample_artifact"
    unfolding sample_artifact_def node_sha256Hex_def isSha256Hex_def
    by (simp add: lower_hex_chars sample_post_env_def sample_net_env_def sample_auth_env_def sample_clock_env_def
        sample_env_def sample_crypto_def sample_sha256_def auth_env.defs env.defs crypto.defs)
  then show ?thesis
    by (simp add: check_request_def check_actor_def check_connector_def check_artifact_def run sample_publish_def
        getExecution_def gateway_world_tables running_execution_def sample_execution_def role_of_member_def
        lifecycle_world_def find_connector_def getConnector_def sample_connector_def page_id_of_def
        payload_message_def or_else_def nullish_def sample_artifact_def latest_item_def check_item_def)
qed

lemma sample_post_env_facts:
  "crypto_ok sample_post_env" "inj (randomUUID sample_post_env)" "isSha256Hex sample_artifact"
  "\<exists>s. four_digit_year s \<and> clock sample_post_env n = s"
proof -
  show "inj (randomUUID sample_post_env)"
    by (simp add: inj_on_def sample_post_env_def sample_net_env_def sample_auth_env_def sample_clock_env_def
        sample_env_def auth_env.defs env.defs crypto.defs)
  show "crypto_ok sample_post_env"
    using sample_crypto_ok(1) by (simp add: crypto_ok_def sample_post_env_def sample_net_env_def sample_auth_env_def
        sample_clock_env_def sample_env_def auth_env.defs env.defs crypto.defs)
  show "isSha256Hex sample_artifact"
    unfolding sample_artifact_def node_sha256Hex_def isSha256Hex_def
    by (simp add: lower_hex_chars sample_post_env_def sample_net_env_def sample_auth_env_def sample_clock_env_def
        sample_env_def sample_crypto_def sample_sha256_def auth_env.defs env.defs crypto.defs)
  show "\<exists>s. four_digit_year s \<and> clock sample_post_env n = s"
    using sample_clock_time(1) by simp
qed

text \<open>The transaction of this publication commits.\<close>

lemma sample_authorize:
  assumes "audit_inv sample_post_env w" "executions w = [running_execution]" "execution_events w = []"
    and "connector_actions w = []" "ca_approved_by row = Some ''u2'' \<or> ca_approved_by row = None"
    and "ca_organization_id row = ''org''" "ca_requested_by row = ''u1''" "ca_execution_id row = ''e1''"
    and "ca_connector_id row = ''c1''" "connectors w = [sample_connector]" "org_exists ''org'' w"
    and "user_exists ''u1'' w" "user_exists ''u2'' w" "gx_execution x = running_execution"
    and "rc_artifactHash input = sample_artifact"
  shows "\<exists>w'. record_action sample_post_env input x d row w = (Inr (), w')"
proof -
  let ?E = sample_post_env
  let ?u = "w\<lparr>connector_actions := [row]\<rparr>"
  have ins: "insert_action row w = (Inr (), ?u)"
    using assms by (auto simp: insert_action_def run running_execution_def sample_execution_def sample_connector_def
        org_exists_def user_exists_def)
  have inv: "audit_inv ?E ?u"
    using audit_inv_tables [of w ?u ?E] assms(1) by (simp add: tables_equal_def)
  have dom: "in_domain (JObj (te_metadata (tool_event_of input x d ty st)))" for ty st
    by (cases "pd_policy_id d") (simp_all add: tool_event_of_def tool_meta_def)
  have t: "te_artifactHash (tool_event_of input x d ty st) = sample_artifact"
      "te_outputHash (tool_event_of input x d ty st) = None" "te_eventType (tool_event_of input x d ty st) = ty"
      "te_executionId (tool_event_of input x d ty st) = ''e1''" "te_organizationId (tool_event_of input x d ty st) = ''org''"
    for ty st
    using assms(14,15) by (simp_all add: tool_event_of_def running_execution_def sample_execution_def)
  have x: "\<exists>x\<in>set (executions v). ex_id x = ''e1'' \<and> ex_organization_id x = ''org''"
    if "executions v = [running_execution]" for v
    using that by (simp add: running_execution_def sample_execution_def)
  have ty: "''tool.requested'' \<in> set EXECUTION_EVENT_TYPES" "''tool.authorized'' \<in> set EXECUTION_EVENT_TYPES"
    by (simp_all add: EXECUTION_EVENT_TYPES_def)
  obtain r1 v where 1: "appendToolEvent ?E PoolClient (tool_event_of input x d ''tool.requested'' ''started'') ?u = (Inr (), v)"
      "audit_inv ?E v" "executions v = executions ?u" "execution_events v = execution_events ?u @ [r1]"
      "\<forall>e\<in>set (execution_events v). \<exists>n<draws v. ev_id e = randomUUID ?E n"
    using tool_event_runs [OF inv, of "tool_event_of input x d ''tool.requested'' ''started''"]
      sample_post_env_facts dom x [of ?u] ty assms(2,3)
    by (auto simp: t events_of_def)
  have len: "int (length (events_of ''e1'' v)) < 2147483647"
    using 1(4) assms(3) by (simp add: events_of_def)
  obtain r2 v2 where "appendToolEvent ?E PoolClient (tool_event_of input x d ''tool.authorized'' ''ok'') v = (Inr (), v2)"
    using tool_event_runs [OF 1(2), of "tool_event_of input x d ''tool.authorized'' ''ok''"]
      sample_post_env_facts dom x [of v] ty assms(2,3) 1(3-5) len
    by (auto simp: t simp del: appendToolEvent.simps)
  with ins 1(1) show ?thesis
    by (simp add: record_action_def run_bindE [of "insert_action row"] run_bindE [of "appendToolEvent E db e" for E db e]
        del: appendToolEvent.simps)
qed

lemma sent_finish [pres]: "preserves (\<lambda>w. sent w = s) (finishAction E fi)"
  by (rule preservesI) (use finishAction_outcome [OF surjective_pairing, where E = E and input = fi] in
      \<open>force simp: outside_def\<close>)

lemma sent_record: "preserves (\<lambda>w. sent w = s) (record_success E input x d i result)"
  unfolding record_success_def reload_action_def loadAction_def by (intro pres)

lemma sample_publish_sends:
  "sent (snd (requestConnectorAction sample_post_env sample_deps sample_publish gateway_world)) \<noteq> sent gateway_world"
proof -
  let ?E = sample_post_env and ?w = gateway_world and ?in = sample_publish
  define x where "x = \<lparr>gx_execution = running_execution,
     gx_roleId = ''r1'', gx_connector = sample_connector, gx_pageId = ''42'', gx_message = ''hello'',
     gx_social = None, gx_skillId = ''nova.social.draft''\<rparr>"
  have x: "ex_organization_id (gx_execution x) = ''org''" "ex_id (gx_execution x) = ''e1''" "gx_social x = None"
      "gx_connector x = sample_connector" "gx_pageId x = ''42''" "gx_execution x = running_execution"
    by (simp_all add: x_def running_execution_def sample_execution_def)
  let ?i = "action_policy_input ?in x (Some sample_approval)" and ?w1 = "?w\<lparr>draws := Suc (draws ?w)\<rparr>"
  have app: "getPendingApprovalForExecution ''org'' ''e1'' ?w = (Inr (Some sample_approval), ?w)"
    by (simp add: getPendingApprovalForExecution_def run gateway_world_tables sample_approval_def)
  have ne: "sample_artifact \<noteq> []" using sample_post_env_facts(3) by (auto simp: isSha256Hex_def)
  have "verdict_value (connector_action_verdict ?i ?w) = Allow"
    unfolding connector_action_verdict_allow
    by (simp add: gateway_world_tables action_policy_input_def x_def sample_publish_def running_execution_def
        sample_execution_def sample_connector_def artifact_approved_def sample_approval_def skill_grants_def
        lifecycle_world_def sample_command_def open_connector_world_def auth_world.defs ne)
  then obtain d where d: "evaluateConnectorAction ?E ?i ?w = (Inr d, ?w1)" "pd_decision d = Allow"
    using evaluateConnectorAction_value [of ?E ?i ?w] by auto
  obtain key h where key: "requestHash ?E (idempotency_json ?in x) = Inr key" "requestHash ?E (request_json ?in x) = Inr h"
    by (simp add: requestHash_def idempotency_json_def request_json_def)
  have ex: "loadActionByKey ''org'' key ?w1 = (Inr None, ?w1)" by (simp add: loadActionByKey_def run gateway_world_tables)
  obtain i w3 where i: "drawE (randomUUID ?E) ?w1 = (Inr i :: err + id, w3)" "w3 = ?w\<lparr>draws := draws w3\<rparr>" by (simp add: drawE_def)
  let ?w4 = "w3\<lparr>draws := Suc (draws w3)\<rparr>"
  have tabs: "tables_equal ?w ?w4" by (subst i(2)) (simp add: tables_equal_def)
  let ?row = "new_action ?in x i key h (Some ''u2'') None (clock ?E (draws w3))"
  have inv4: "audit_inv ?E ?w4" using gateway_world_invs(2) [of ?E] audit_inv_tables [OF tabs, of ?E] by simp
  have w4: "executions ?w4 = [running_execution]" "execution_events ?w4 = []" "connector_actions ?w4 = []"
      "connectors ?w4 = [sample_connector]" "org_exists ''org'' ?w4" "user_exists ''u1'' ?w4" "user_exists ''u2'' ?w4"
    by (subst i(2), simp add: gateway_world_tables org_exists_def user_exists_def lifecycle_world_def sample_command_def
        open_connector_world_def auth_world.defs sample_auth_def)+
  have row: "ca_approved_by ?row = Some ''u2'' \<or> ca_approved_by ?row = None" "ca_organization_id ?row = ''org''"
      "ca_requested_by ?row = ''u1''" "ca_execution_id ?row = ''e1''" "ca_connector_id ?row = ''c1''"
      "rc_artifactHash ?in = sample_artifact"
    by (simp_all add: new_action_def x sample_publish_def sample_connector_def running_execution_def sample_execution_def)
  obtain w5 where rec: "record_action ?E ?in x d ?row ?w4 = (Inr (), w5)"
    using sample_authorize [OF inv4 w4(1-3) row(1-5) w4(4-7) x(6) row(6)] by blast
  have w3: "sent w3 = []" "approvals w3 = [sample_approval]"
    by (subst i(2), simp add: gateway_world_tables)+
  have ap: "approver_of (Some sample_approval) w3 = (Inr (Some ''u2''), w3)"
    by (simp add: approver_of_def run w3 sample_approval_def)
  have cast: "cast_timestamptz ?E (scheduled_for ?in) = Inr None"
    by (simp add: cast_timestamptz_def scheduled_for_def js_opt_get_def sample_publish_def)
  have now: "nowE ?E w3 = (Inr (clock ?E (draws w3)), ?w4)" by (simp add: nowE_def drawE_def)
  have body: "authorize_body ?E ?in x d (Some sample_approval) i key h w3 = (Inr (), w5)"
    unfolding authorize_body_def
    by (rule bindE_step, rule ap, rule bindE_step, rule liftE_step, rule cast, rule bindE_step, rule now, rule rec)
  then have auth: "authorize_action ?E ?in x d (Some sample_approval) i key h w3 = (Inr None, w5)"
    by (simp add: authorize_action_def run_catchE run_bindE [of "txnE r m" for r m] run_txnE run_basic)
  have s5: "sent w5 = []"
    using authorize_body_Inr [OF body] w3(1) by (auto simp: outside_def Let_def)
  let ?f = "\<lambda>a. a\<lparr>ca_status := ActionExecuting, ca_started_at := coalesce (ca_started_at a) (Some (clock ?E (draws w5)))\<rparr>"
  let ?w6 = "w5\<lparr>draws := Suc (draws w5)\<rparr>"
  have now5: "nowE ?E w5 = (Inr (clock ?E (draws w5)), ?w6)" by (simp add: nowE_def drawE_def)
  obtain w7 where w7: "update_action ''org'' i ?f ?w6 = (Inr (), w7)" "sent w7 = []"
    by (simp add: update_action_def run s5)
  obtain result w8 where exe: "try_execute ?E sample_meta (execute_input sample_deps ?in x) w7 = (Inr (Inr result), w8)"
      "sent w8 \<noteq> []"
    by (simp add: try_execute_def meta_execute_def execute_input_def sample_publish_def payload_message_def or_else_def
        nullish_def run nowE_def requestHash_def post_feed_def meta_call_run call_outcome_def check_reply_def reply_ok_def
        external_id_def)
  have res: "resolve_connector (cn_connector_type (gx_connector x)) (gd_registry sample_deps) = Inr sample_meta"
    by (simp add: x sample_connector_def sample_deps_def resolve_connector_def)
  obtain r w' where fin: "record_success ?E ?in x d i result w8 = (r, w')"
    by (cases "record_success ?E ?in x d i result w8")
  have "execute_action ?E sample_deps ?in x d i w5 = (r, w')"
    unfolding execute_action_def x(1)
    by (rule bindE_step, rule now5, rule bindE_step, rule w7(1), rule bindE_step, rule liftE_step, rule res,
        rule bindE_step, rule exe(1)) (simp add: fin)
  then have cp: "call_provider ?E sample_deps ?in x d i w5 = (r, w')"
    by (simp add: call_provider_def claim_item_def x run_bindE [of "ret ()"] run_basic secret_of_def sample_connector_def
        sample_deps_def truthy_def)
  have "requestConnectorAction ?E sample_deps ?in ?w = (r, w')"
    unfolding requestConnectorAction_def
    by (rule bindE_step, rule gateway_context [folded x_def], unfold x(1,2), rule bindE_step, rule app, rule bindE_step,
        rule d(1), rule bindE_step, rule liftE_step, rule key(1), rule bindE_step, rule ex)
      (simp add: d(2) run_bindE [of "drawE g" for g] i(1) run_bindE [of "liftE g" for g] key(2) run_basic
        run_bindE [of "authorize_action D j y e f g k l" for D j y e f g k l] auth cp)
  moreover have "sent w' = sent w8" using preservesD [OF sent_record fin] by simp
  ultimately show ?thesis using exe(2) by (simp add: gateway_world_tables)
qed


theorem gateway_sends_only_approved_witness:
  "\<exists>a. newest_approval ''org'' ''e1'' gateway_world = Some a \<and> ap_status a = Approved \<and>
     ap_artifact_hash a = Some (node_sha256Hex sample_post_env ''hello'')"
proof -
  obtain res w' where run: "requestConnectorAction sample_post_env sample_deps sample_publish gateway_world = (res, w')"
    by (cases "requestConnectorAction sample_post_env sample_deps sample_publish gateway_world")
  then have "sent w' \<noteq> sent gateway_world" using sample_publish_sends by simp
  from gateway_sends_only_approved [OF run gateway_world_invs(1) this] show ?thesis
    by (auto simp: gateway_world_tables sample_publish_def sample_connector_def running_execution_def
        sample_execution_def sample_artifact_def)
qed

end
