(* ===== verification/Chunks.thy ===== *)
theory Chunks
  imports JsText
begin

text \<open>
  Cutting a text into chunks: \<open>chunkText\<close> of \<open>packages/knowledge/src/hashing.ts\<close> and the digests of the
  same file.  Paragraphs are the parts between blank lines; a paragraph longer than the bound is cut at
  the last blank before it, or at the bound itself when that blank is in the first half.  The loop is a
  partial function: \<open>None\<close> is a call that does not return.  The lemmas show when it returns, that no piece
  is empty or longer than the bound, and that nothing but white space is lost.
\<close>

subsection \<open>Digests\<close>

definition sha256Bytes :: "'a crypto_scheme \<Rightarrow> byte list \<Rightarrow> string" where
  "sha256Bytes C bytes = bytesToHex C (sha256 C bytes)"

definition sha256Text :: "'a crypto_scheme \<Rightarrow> string \<Rightarrow> string" where
  "sha256Text C text = sha256Bytes C (utf8 text)"

subsection \<open>The regular expressions\<close>

definition LF :: char where "LF = CHR 0x0A"

text \<open>\<open>text.replace(/\r\n/g, "\n")\<close>.\<close>

fun unix_lines :: "string \<Rightarrow> string" where
  "unix_lines (c # d # s) =
     (if c = CHR 0x0D \<and> d = LF then LF # unix_lines s else c # unix_lines (d # s))"
| "unix_lines s = s"

text \<open>\<open>text.split(/\n{2,}/)\<close>.\<close>

definition blank_line :: "string \<Rightarrow> bool" where
  "blank_line s \<longleftrightarrow> take 2 s = [LF, LF]"

function paragraphs :: "string \<Rightarrow> string list" where
  "paragraphs [] = [[]]"
| "paragraphs (c # s) =
     (if blank_line (c # s) then [] # paragraphs (dropWhile (\<lambda>d. d = LF) s)
      else case paragraphs s of [] \<Rightarrow> [[c]] | p # ps \<Rightarrow> (c # p) # ps)"
  by pat_completeness auto
termination
  by (relation "measure length") (auto simp: le_imp_less_Suc length_dropWhile_le)

text \<open>\<open>text.replace(/\s+/g, " ")\<close>.\<close>

function single_blanks :: "string \<Rightarrow> string" where
  "single_blanks [] = []"
| "single_blanks (c # s) =
     (if is_js_space c then CHR '' '' # single_blanks (dropWhile is_js_space s) else c # single_blanks s)"
  by pat_completeness auto
termination
  by (relation "measure length") (auto simp: le_imp_less_Suc length_dropWhile_le)

text \<open>\<open>text.split(/[...]+/)\<close> on the runs of a class of characters.\<close>

function split_runs :: "(char \<Rightarrow> bool) \<Rightarrow> string \<Rightarrow> string list" where
  "split_runs P [] = [[]]"
| "split_runs P (c # s) =
     (if P c then [] # split_runs P (dropWhile P s)
      else case split_runs P s of [] \<Rightarrow> [[c]] | p # ps \<Rightarrow> (c # p) # ps)"
  by pat_completeness auto
termination
  by (relation "measure (length o snd)") (auto simp: le_imp_less_Suc length_dropWhile_le)

text \<open>\<open>s.lastIndexOf(" ", n)\<close>.\<close>

definition last_blank :: "string \<Rightarrow> nat \<Rightarrow> int" where
  "last_blank s n =
     (case filter (\<lambda>i. s ! i = CHR '' '') (rev [0..<min (Suc n) (length s)]) of
        [] \<Rightarrow> - 1 | i # _ \<Rightarrow> int i)"

subsection \<open>Chunks\<close>

record chunk =
  chunkIndex :: nat
  chunk_text :: string
  textHash :: string
  tokenCount :: nat
  pageNumber :: "int option"
  chunk_section :: "string option"

definition split_at :: "string \<Rightarrow> nat \<Rightarrow> nat" where
  "split_at remaining maxChars =
     (let split = last_blank remaining maxChars in
      if 2 * split < int maxChars then maxChars else nat split)"

partial_function (option) cut :: "nat \<Rightarrow> string \<Rightarrow> string list option" where
  "cut maxChars remaining =
     (if maxChars < length remaining then
        let split = split_at remaining maxChars in
        Option.bind (cut maxChars (trim (drop split remaining))) (\<lambda>ps. Some (trim (take split remaining) # ps))
      else Some (if remaining = [] then [] else [remaining]))"

definition paragraph_pieces :: "nat \<Rightarrow> string \<Rightarrow> string list option" where
  "paragraph_pieces maxChars paragraph =
     (let clean = trim (single_blanks paragraph) in
      if clean = [] then Some []
      else if length clean \<le> maxChars then Some [clean] else cut maxChars clean)"

primrec all_pieces :: "nat \<Rightarrow> string list \<Rightarrow> string list option" where
  "all_pieces maxChars [] = Some []"
| "all_pieces maxChars (p # ps) =
     (case paragraph_pieces maxChars p of None \<Rightarrow> None
      | Some xs \<Rightarrow> map_option (\<lambda>ys. xs @ ys) (all_pieces maxChars ps))"

definition token_count :: "string \<Rightarrow> nat" where
  "token_count piece = length (filter (\<lambda>t. t \<noteq> []) (split_runs is_js_space piece))"

definition chunk_of :: "'a crypto_scheme \<Rightarrow> nat \<times> string \<Rightarrow> chunk" where
  "chunk_of C = (\<lambda>(index, piece).
     \<lparr>chunkIndex = index, chunk_text = piece, textHash = sha256Text C piece,
      tokenCount = token_count piece, pageNumber = None, chunk_section = None\<rparr>)"

definition chunkText :: "'a crypto_scheme \<Rightarrow> string \<Rightarrow> nat \<Rightarrow> chunk list option" where
  "chunkText C text maxChars =
     map_option (\<lambda>pieces. map (chunk_of C) (enumerate 0 pieces))
       (all_pieces maxChars (paragraphs (trim (unix_lines text))))"

definition default_max_chars :: nat where
  "default_max_chars = 500"

subsection \<open>White space\<close>

text \<open>What white space separates: the characters of a text that are none.\<close>

definition ink :: "string \<Rightarrow> string" where
  "ink s = filter (\<lambda>c. \<not> is_js_space c) s"

lemma ink_append [simp]: "ink (s @ t) = ink s @ ink t"
  by (simp add: ink_def)

lemma ink_simps [simp]:
  "ink [] = []" "ink (c # s) = (if is_js_space c then ink s else c # ink s)"
  by (simp_all add: ink_def)

lemma ink_dropWhile [simp]: "ink (dropWhile is_js_space s) = ink s"
  by (induction s) auto

lemma ink_rev [simp]: "ink (rev s) = rev (ink s)"
  by (simp add: ink_def rev_filter)

lemma ink_trim [simp]: "ink (trim s) = ink s"
  by (simp add: trim_def trim_start_def trim_end_def)

lemma is_space_consts [simp]: "is_js_space LF" "is_js_space (CHR 0x0D)" "is_js_space (CHR '' '')"
  by (simp_all add: is_js_space_def LF_def)

lemma ink_unix_lines [simp]: "ink (unix_lines s) = ink s"
  by (induction s rule: unix_lines.induct) auto

lemma ink_dropWhile_LF [simp]: "ink (dropWhile (\<lambda>d. d = LF) s) = ink s"
  by (induction s) auto

lemma blank_line_hd: "blank_line (c # s) \<Longrightarrow> c = LF"
  by (cases s) (auto simp: blank_line_def)

lemma ink_paragraphs: "concat (map ink (paragraphs s)) = ink s"
  by (induction s rule: paragraphs.induct) (auto dest: blank_line_hd split: list.splits)

lemma ink_single_blanks [simp]: "ink (single_blanks s) = ink s"
  by (induction s rule: single_blanks.induct) auto

lemma ink_Nil_iff: "ink s = [] \<longleftrightarrow> (\<forall>c\<in>set s. is_js_space c)"
  by (simp add: ink_def filter_empty_conv)

text \<open>A trimmed text is empty or has no white space at either end.\<close>

definition trimmed :: "string \<Rightarrow> bool" where
  "trimmed s \<longleftrightarrow> s = [] \<or> \<not> is_js_space (hd s) \<and> \<not> is_js_space (last s)"

lemma hd_dropWhile_not: "dropWhile P s \<noteq> [] \<Longrightarrow> \<not> P (hd (dropWhile P s))"
  by (rule hd_dropWhile)

lemma trimmed_trim [simp]: "trimmed (trim s)"
proof -
  define t where "t = dropWhile is_js_space s"
  have h: "t \<noteq> [] \<Longrightarrow> \<not> is_js_space (hd t)" unfolding t_def by (rule hd_dropWhile_not)
  have e: "trim s = rev (dropWhile is_js_space (rev t))"
    by (simp add: trim_def trim_start_def trim_end_def t_def)
  obtain u where u: "rev t = u @ dropWhile is_js_space (rev t)"
    by (metis takeWhile_dropWhile_id)
  show ?thesis
  proof (cases "trim s = []")
    case False
    with e have ne: "dropWhile is_js_space (rev t) \<noteq> []" by simp
    have "t = rev (dropWhile is_js_space (rev t)) @ rev u"
      using arg_cong [OF u, of rev] by simp
    with ne have "hd t = hd (trim s)" "t \<noteq> []" unfolding e by (metis hd_append2 rev_is_Nil_conv, force)
    with h have "\<not> is_js_space (hd (trim s))" by simp
    moreover have "\<not> is_js_space (last (trim s))"
      using ne unfolding e by (simp add: last_rev hd_dropWhile_not)
    ultimately show ?thesis by (simp add: trimmed_def)
  qed (simp add: trimmed_def)
qed

lemma trim_nonempty: "c \<in> set s \<Longrightarrow> \<not> is_js_space c \<Longrightarrow> trim s \<noteq> []"
  by (metis ink_Nil_iff ink_simps(1) ink_trim)

lemma length_trim: "length (trim s) \<le> length s"
  by (metis (no_types) length_dropWhile_le length_rev order_trans trim_def trim_end_def trim_start_def)

subsection \<open>The cutting loop\<close>

lemma last_blank_bounds: "last_blank s n \<le> int n" "- 1 \<le> last_blank s n"
proof -
  have "i \<le> n" if "filter (\<lambda>i. s ! i = CHR '' '') (rev [0..<min (Suc n) (length s)]) = i # is" for i "is"
  proof -
    from that have "i \<in> set (rev [0..<min (Suc n) (length s)])" by (metis filter_is_subset in_mono list.set_intros(1))
    then show ?thesis by simp
  qed
  then show "last_blank s n \<le> int n" "- 1 \<le> last_blank s n"
    by (auto simp: last_blank_def split: list.splits)
qed

lemma split_at_bounds: "0 < n \<Longrightarrow> 0 < split_at s n \<and> split_at s n \<le> n"
  using last_blank_bounds [of s n] by (auto simp: split_at_def Let_def)

lemma split_at_zero: "s \<noteq> [] \<Longrightarrow> \<not> is_js_space (hd s) \<Longrightarrow> split_at s 0 = 0"
  by (cases s) (auto simp: split_at_def last_blank_def)

lemma trim_of_trimmed: "trimmed s \<Longrightarrow> trim s = s"
proof -
  have e: "\<not> P (hd t) \<Longrightarrow> dropWhile P t = t" for P and t :: string by (cases t) auto
  assume "trimmed s"
  then show ?thesis
    by (cases "s = []") (simp_all add: trimmed_def trim_def trim_start_def trim_end_def e hd_rev)
qed

lemma cut_stuck: "trimmed s \<Longrightarrow> s \<noteq> [] \<Longrightarrow> cut 0 s = None"
proof (rule ccontr)
  assume s: "trimmed s" "s \<noteq> []" and "cut 0 s \<noteq> None"
  then obtain ps where "cut 0 s = Some ps" by auto
  moreover have "cut 0 s = Option.bind (cut 0 s) (\<lambda>ps. Some ([] # ps))"
    using s by (subst cut.simps) (auto simp: split_at_zero trimmed_def trim_of_trimmed [OF s(1)] Let_def trim_def [of "[]"] trim_start_def trim_end_def)
  ultimately show False by simp
qed

definition good_pieces :: "nat \<Rightarrow> string \<Rightarrow> string list \<Rightarrow> bool" where
  "good_pieces n s ps \<longleftrightarrow>
     concat (map ink ps) = ink s \<and> list_all (\<lambda>p. p \<noteq> [] \<and> trimmed p \<and> length p \<le> n) ps"

lemma good_pieces_append:
  "good_pieces n s ps \<Longrightarrow> good_pieces n t qs \<Longrightarrow> good_pieces n (s @ t) (ps @ qs)"
  by (simp add: good_pieces_def)

lemma trimmed_parts:
  assumes "trimmed s" and "0 < k" and "k < length s"
  shows "trim (take k s) \<noteq> []" and "trim (drop k s) \<noteq> []"
proof -
  from assms have h: "\<not> is_js_space (hd s)" "\<not> is_js_space (last s)" by (auto simp: trimmed_def)
  have "hd s \<in> set (take k s)" using assms by (cases s; cases k) auto
  then show "trim (take k s) \<noteq> []" using h(1) by (rule trim_nonempty)
  have "last s \<in> set (drop k s)" using assms by (metis drop_eq_Nil last_drop last_in_set not_less)
  then show "trim (drop k s) \<noteq> []" using h(2) by (rule trim_nonempty)
qed

lemma cut_returns:
  assumes "0 < n" and "trimmed s"
  shows "\<exists>ps. cut n s = Some ps \<and> good_pieces n s ps"
  using assms(2)
proof (induction "length s" arbitrary: s rule: less_induct)
  case less
  show ?case
  proof (cases "n < length s")
    case True
    define k where "k = split_at s n"
    have k: "0 < k" "k \<le> n" using split_at_bounds [OF assms(1), of s] by (simp_all add: k_def)
    have "length (trim (drop k s)) < length s"
      using length_trim [of "drop k s"] k True by simp
    from less.hyps [OF this] obtain ps where ps: "cut n (trim (drop k s)) = Some ps"
        "good_pieces n (trim (drop k s)) ps" by auto
    have "cut n s = Some (trim (take k s) # ps)"
      using True ps(1) by (subst cut.simps) (simp add: Let_def flip: k_def)
    moreover have "good_pieces n (take k s @ drop k s) (trim (take k s) # ps)"
      using ps(2) trimmed_parts [OF less.prems k(1)] k True length_trim [of "take k s"]
      by (simp add: good_pieces_def flip: ink_append)
    ultimately show ?thesis by simp
  next
    case False
    then show ?thesis using less.prems by (subst cut.simps) (auto simp: good_pieces_def)
  qed
qed

lemma paragraph_pieces_returns:
  assumes "0 < n \<or> ink p = []"
  shows "\<exists>ps. paragraph_pieces n p = Some ps \<and> good_pieces n p ps"
proof -
  define q where "q = trim (single_blanks p)"
  have q: "trimmed q" "ink q = ink p" by (simp_all add: q_def)
  show ?thesis
  proof (cases "q = []")
    case True
    with q(2) have "ink p = []" by simp
    with True show ?thesis by (simp add: paragraph_pieces_def good_pieces_def flip: q_def)
  next
    case False
    with q have "ink q \<noteq> []" by (cases q) (auto simp: trimmed_def)
    with assms q(2) have n: "0 < n" by simp
    from cut_returns [OF this q(1)] q False show ?thesis
      by (auto simp: paragraph_pieces_def good_pieces_def simp flip: q_def)
  qed
qed

lemma paragraph_pieces_stuck: "ink p \<noteq> [] \<Longrightarrow> paragraph_pieces 0 p = None"
proof -
  define q where "q = trim (single_blanks p)"
  have q: "trimmed q" "ink q = ink p" by (simp_all add: q_def)
  assume "ink p \<noteq> []"
  with q(2) have "q \<noteq> []" by auto
  with q(1) show ?thesis by (simp add: paragraph_pieces_def cut_stuck flip: q_def)
qed

lemma all_pieces_returns:
  "0 < n \<or> concat (map ink ps) = [] \<Longrightarrow> \<exists>qs. all_pieces n ps = Some qs \<and> good_pieces n (concat ps) qs"
proof (induction ps)
  case (Cons p ps)
  then have "0 < n \<or> ink p = []" "0 < n \<or> concat (map ink ps) = []" by auto
  with Cons.IH paragraph_pieces_returns [of n p] show ?case
    by (auto intro: good_pieces_append)
qed (simp add: good_pieces_def)

lemma all_pieces_stuck: "concat (map ink ps) \<noteq> [] \<Longrightarrow> all_pieces 0 ps = None"
  by (induction ps) (auto simp: paragraph_pieces_stuck split: option.splits)

lemma ink_concat: "ink (concat ps) = concat (map ink ps)"
  by (induction ps) auto

lemma chunkText_pieces:
  "chunkText C body n =
     (if 0 < n \<or> ink body = [] then Some (map (chunk_of C) (enumerate 0 (the (all_pieces n (paragraphs (trim (unix_lines body))))))) else None) \<and>
   (0 < n \<or> ink body = [] \<longrightarrow> good_pieces n body (the (all_pieces n (paragraphs (trim (unix_lines body))))))"
proof -
  define ps where "ps = paragraphs (trim (unix_lines body))"
  have i: "concat (map ink ps) = ink body" by (simp add: ps_def ink_paragraphs)
  show ?thesis
  proof (cases "0 < n \<or> ink body = []")
    case True
    with all_pieces_returns [of n ps] i show ?thesis
      by (auto simp: chunkText_def good_pieces_def ink_concat simp flip: ps_def)
  next
    case False
    with all_pieces_stuck [of ps] i show ?thesis by (auto simp: chunkText_def simp flip: ps_def)
  qed
qed

text \<open>C31: \<open>chunkText\<close> returns exactly when the bound is positive or the text is blank: with a bound of 0
  the loop that cuts a paragraph never makes progress, with any other it ends on every text.\<close>

theorem chunkText_returns:
  "(\<exists>chunks. chunkText C body maxChars = Some chunks) \<longleftrightarrow> 0 < maxChars \<or> list_all is_js_space body"
  using chunkText_pieces [of C body maxChars] by (auto simp: ink_Nil_iff list_all_iff split: if_splits)

text \<open>The chunks of a text, for a bound of at least one character: they are numbered from 0, each is a
  non-empty text without white space at its ends, no longer than the bound, with the digest of that text,
  and read in order they hold every character of the text that is not white space, once and in order.\<close>

theorem chunkText_keeps_text:
  "\<exists>chunks. chunkText C body (Suc n) = Some chunks \<and>
     concat (map (\<lambda>c. ink (chunk_text c)) chunks) = ink body \<and>
     map chunkIndex chunks = [0..<length chunks] \<and>
     list_all (\<lambda>c. chunk_text c \<noteq> [] \<and> trimmed (chunk_text c) \<and> length (chunk_text c) \<le> Suc n \<and>
       textHash c = sha256Text C (chunk_text c)) chunks"
proof -
  obtain ps where ps: "chunkText C body (Suc n) = Some (map (chunk_of C) (enumerate 0 ps))"
      "good_pieces (Suc n) body ps"
    using chunkText_pieces [of C body "Suc n"] by auto
  have t: "map (\<lambda>c. ink (chunk_text c)) (map (chunk_of C) (enumerate 0 ps)) = map ink ps"
    by (intro nth_equalityI) (auto simp: chunk_of_def nth_enumerate_eq)
  have "list_all (\<lambda>c. chunk_text c \<noteq> [] \<and> trimmed (chunk_text c) \<and> length (chunk_text c) \<le> Suc n \<and>
       textHash c = sha256Text C (chunk_text c)) (map (chunk_of C) (enumerate 0 ps))"
    using ps(2) by (auto simp: good_pieces_def list_all_iff chunk_of_def in_set_enumerate_eq)
  moreover have "map chunkIndex (map (chunk_of C) (enumerate 0 ps)) = [0..<length ps]"
    by (intro nth_equalityI) (auto simp: chunk_of_def nth_enumerate_eq)
  ultimately show ?thesis using ps t by (auto simp: good_pieces_def simp del: map_map)
qed

end
