(* ===== verification/Doubles.thy ===== *)
theory Doubles
  imports Chunks
begin

text \<open>
  JavaScript's numbers where the knowledge package computes with fractions, and the functions of
  \<open>packages/knowledge/src/hashing.ts\<close> that do: \<open>embedText\<close>, \<open>vectorLiteral\<close> and
  \<open>reciprocalRankFusion\<close>.  A finite double is a mantissa and a binary exponent; every operation is the
  exact one followed by rounding to 53 bits, ties to even.  The values these functions meet lie between
  \<open>10 ^ -40\<close> and \<open>10 ^ 20\<close>, so that the bounds of the exponent play no part.
\<close>

datatype double = Dbl (mantissa: int) (expo: int)

subsection \<open>Arithmetic\<close>

fun bits :: "nat \<Rightarrow> nat" where
  "bits n = (if n = 0 then 0 else Suc (bits (n div 2)))"

declare bits.simps [simp del]

definition round53 :: "int \<Rightarrow> int \<Rightarrow> double" where
  "round53 m e =
     (let a = nat \<bar>m\<bar>; b = bits a in
      if b \<le> 53 then Dbl m e
      else let s = b - 53; q = a div 2 ^ s; r = a mod 2 ^ s; h = 2 ^ (s - 1);
               q' = (if h < r \<or> (r = h \<and> odd q) then q + 1 else q)
           in Dbl (sgn m * int q') (e + int s))"

definition double_of_int :: "int \<Rightarrow> double" where
  "double_of_int n = round53 n 0"

definition align :: "double \<Rightarrow> double \<Rightarrow> int \<times> int \<times> int" where
  "align x y =
     (let e = min (expo x) (expo y) in
      (mantissa x * 2 ^ nat (expo x - e), mantissa y * 2 ^ nat (expo y - e), e))"

definition d_add :: "double \<Rightarrow> double \<Rightarrow> double" where
  "d_add x y = (case align x y of (m, n, e) \<Rightarrow> round53 (m + n) e)"

definition d_mul :: "double \<Rightarrow> double \<Rightarrow> double" where
  "d_mul x y = round53 (mantissa x * mantissa y) (expo x + expo y)"

text \<open>A quotient with at least 55 bits, and a last bit that tells whether something was cut off.\<close>

definition sticky :: "nat \<Rightarrow> bool \<Rightarrow> int" where
  "sticky q cutoff = 2 * int q + (if cutoff then 1 else 0)"

definition d_div :: "double \<Rightarrow> double \<Rightarrow> double" where
  "d_div x y =
     (let n = nat \<bar>mantissa y\<bar>; k = 54 + bits n; a = nat \<bar>mantissa x\<bar> * 2 ^ k in
      round53 (sgn (mantissa x) * sgn (mantissa y) * sticky (a div n) (a mod n \<noteq> 0))
        (expo x - expo y - int k - 1))"

fun isqrt :: "nat \<Rightarrow> nat" where
  "isqrt n = (if n = 0 then 0 else let r = 2 * isqrt (n div 4) in if (r + 1) ^ 2 \<le> n then r + 1 else r)"

declare isqrt.simps [simp del]

definition d_sqrt :: "double \<Rightarrow> double" where
  "d_sqrt x =
     (let s = 110 + nat (expo x mod 2); a = nat (mantissa x) * 2 ^ s; r = isqrt a in
      round53 (sticky r (r * r \<noteq> a)) ((expo x - int s) div 2 - 1))"

definition d_le :: "double \<Rightarrow> double \<Rightarrow> bool" where
  "d_le x y = (case align x y of (m, n, e) \<Rightarrow> m \<le> n)"

definition d_eq :: "double \<Rightarrow> double \<Rightarrow> bool" where
  "d_eq x y \<longleftrightarrow> d_le x y \<and> d_le y x"

definition d_zero :: double where "d_zero = Dbl 0 0"

text \<open>\<open>x.toFixed(8)\<close>: the nearest multiple of \<open>10 ^ -8\<close>, the larger of two.\<close>

definition scaled8 :: "double \<Rightarrow> nat" where
  "scaled8 x =
     (let a = nat \<bar>mantissa x\<bar> * 10 ^ 8; k = nat (- expo x) in
      if 0 \<le> expo x then a * 2 ^ nat (expo x) else (2 * a + 2 ^ k) div 2 ^ (k + 1))"

definition zero_pad8 :: "nat \<Rightarrow> string" where
  "zero_pad8 n = (let t = show_nat n in replicate (8 - length t) (CHR ''0'') @ t)"

definition toFixed8 :: "double \<Rightarrow> string" where
  "toFixed8 x =
     (let n = scaled8 x in
      (if mantissa x < 0 then ''-'' else '''') @ show_nat (n div 10 ^ 8) @ ''.'' @ zero_pad8 (n mod 10 ^ 8))"

subsection \<open>Embeddings\<close>

definition EMBEDDING_DIM :: nat where "EMBEDDING_DIM = 768"

text \<open>\<open>/[^a-z0-9]+/\<close>.\<close>

definition not_token_char :: "char \<Rightarrow> bool" where
  "not_token_char c \<longleftrightarrow>
     (let n = of_char c :: nat in \<not> ((97 \<le> n \<and> n \<le> 122) \<or> (48 \<le> n \<and> n \<le> 57)))"

definition embed_tokens :: "string \<Rightarrow> string list" where
  "embed_tokens body = filter (\<lambda>t. 1 < length t) (split_runs not_token_char (toLowerCase body))"

definition add_token :: "'a crypto_scheme \<Rightarrow> string \<Rightarrow> double list \<Rightarrow> double list" where
  "add_token C token vector =
     (let digest = sha256 C (utf8 token);
          bucket = unat (digest ! 0) mod EMBEDDING_DIM;
          sign = (if even (unat (digest ! 1)) then 1 else - 1);
          v = d_mul (double_of_int sign)
                (d_add (double_of_int 1) (d_div (double_of_int (int (unat (digest ! 2)))) (double_of_int 255)))
      in vector[bucket := d_add (vector ! bucket) v])"

definition embedText :: "'a crypto_scheme \<Rightarrow> string \<Rightarrow> double list" where
  "embedText C body =
     (let vector = fold (add_token C) (embed_tokens body) (replicate EMBEDDING_DIM d_zero);
          norm = d_sqrt (fold (\<lambda>v sum. d_add sum (d_mul v v)) vector d_zero);
          norm' = (if mantissa norm = 0 then double_of_int 1 else norm)
      in map (\<lambda>v. d_div v norm') vector)"

definition vectorLiteral :: "double list \<Rightarrow> string" where
  "vectorLiteral values = ''['' @ join '','' (map toFixed8 values) @ '']''"

subsection \<open>Rank fusion\<close>

text \<open>A JavaScript \<open>Map\<close>: its entries in the order of their first insertion.\<close>

fun map_set :: "'k \<Rightarrow> 'v \<Rightarrow> ('k \<times> 'v) list \<Rightarrow> ('k \<times> 'v) list" where
  "map_set k v [] = [(k, v)]"
| "map_set k v ((k', v') # m) = (if k' = k then (k', v) # m else (k', v') # map_set k v m)"

record ranked_item =
  rk_id :: id
  rk_rank :: nat
  rk_weight :: "double option"

definition fuse_item :: "nat \<Rightarrow> ranked_item \<Rightarrow> (id \<times> double) list \<Rightarrow> (id \<times> double) list" where
  "fuse_item k item scores =
     (let add = d_div (case rk_weight item of None \<Rightarrow> double_of_int 1 | Some w \<Rightarrow> w)
                  (double_of_int (int k + int (rk_rank item)));
          old = (case map_of scores (rk_id item) of None \<Rightarrow> d_zero | Some d \<Rightarrow> d)
      in map_set (rk_id item) (d_add old add) scores)"

definition reciprocalRankFusion :: "ranked_item list list \<Rightarrow> nat \<Rightarrow> (id \<times> double) list" where
  "reciprocalRankFusion rankings k = fold (fuse_item k) (concat rankings) []"

subsection \<open>Facts\<close>

lemma isqrt_spec: "isqrt n ^ 2 \<le> n \<and> n < (isqrt n + 1) ^ 2"
proof (induction n rule: isqrt.induct)
  case (1 n)
  show ?case
  proof (cases "n = 0")
    case True
    then show ?thesis by (simp add: isqrt.simps [of 0])
  next
    case False
    define r where "r = isqrt (n div 4)"
    from 1 [OF False] have "r ^ 2 \<le> n div 4" "n div 4 < (r + 1) ^ 2" by (simp_all add: r_def)
    then have "4 * r ^ 2 \<le> n" "n < 4 * (r + 1) ^ 2" by (simp_all add: less_mult_imp_div_less div_less_iff_less_mult)
    moreover have "isqrt n = (if (2 * r + 1) ^ 2 \<le> n then 2 * r + 1 else 2 * r)"
      using False by (subst isqrt.simps) (simp add: r_def Let_def)
    ultimately show ?thesis by (auto simp: power2_eq_square algebra_simps)
  qed
qed

lemma length_add_token [simp]: "length (add_token C t v) = length v"
  by (simp add: add_token_def Let_def)

lemma length_add_tokens [simp]: "length (fold (add_token C) ts v) = length v"
  by (induction ts arbitrary: v) simp_all

lemma embedText_length [simp]: "length (embedText C body) = EMBEDDING_DIM"
  by (simp add: embedText_def Let_def)

lemma map_set_keys: "fst ` set (map_set k v m) = insert k (fst ` set m)"
  by (induction k v m rule: map_set.induct) auto

lemma map_set_distinct: "distinct (map fst m) \<Longrightarrow> distinct (map fst (map_set k v m))"
proof (induction k v m rule: map_set.induct)
  case (2 k v k' v' m)
  then show ?case using map_set_keys [of k v m] by (auto simp: image_iff)
qed simp

lemma map_set_other: "k' \<noteq> k \<Longrightarrow> map_of (map_set k v m) k' = map_of m k'"
  by (induction k v m rule: map_set.induct) auto

lemma map_set_same [simp]: "map_of (map_set k v m) k = Some v"
  by (induction k v m rule: map_set.induct) auto

lemma fuse_keys:
  "fst ` set (fold (fuse_item k) items m) = rk_id ` set items \<union> fst ` set m"
  by (induction items arbitrary: m) (auto simp: fuse_item_def Let_def map_set_keys)

lemma fuse_distinct: "distinct (map fst m) \<Longrightarrow> distinct (map fst (fold (fuse_item k) items m))"
  by (induction items arbitrary: m) (simp_all add: fuse_item_def Let_def map_set_distinct)

lemma fusion_ids:
  "fst ` set (reciprocalRankFusion rankings k) = rk_id ` set (concat rankings)"
  "distinct (map fst (reciprocalRankFusion rankings k))"
  by (simp_all add: reciprocalRankFusion_def fuse_keys fuse_distinct)

lemma align_spec:
  "align x y = (m, n, e) \<Longrightarrow>
   (m \<le> n \<longleftrightarrow> mantissa x * 2 ^ nat (expo x - e') \<le> mantissa y * 2 ^ nat (expo y - e'))"
  if "e' \<le> expo x" "e' \<le> expo y"
proof -
  assume a: "align x y = (m, n, e)"
  define d where "d = min (expo x) (expo y)"
  have d: "e' \<le> d" "d \<le> expo x" "d \<le> expo y" using that by (simp_all add: d_def)
  have p: "2 ^ nat (i - e') = 2 ^ nat (i - d) * (2 ^ nat (d - e') :: int)" if "d \<le> i" for i
    using that d(1) by (simp flip: power_add nat_add_distrib)
  have "m = mantissa x * 2 ^ nat (expo x - d)" "n = mantissa y * 2 ^ nat (expo y - d)"
    using a by (auto simp: align_def Let_def d_def)
  then show ?thesis by (simp add: p [OF d(2)] p [OF d(3)] flip: mult.assoc)
qed

lemma d_le_iff:
  "e \<le> expo x \<Longrightarrow> e \<le> expo y \<Longrightarrow>
   d_le x y \<longleftrightarrow> mantissa x * 2 ^ nat (expo x - e) \<le> mantissa y * 2 ^ nat (expo y - e)"
  using align_spec [of e x y] by (auto simp: d_le_def simp del: split_paired_All split: prod.split)

lemma d_le_linear: "d_le x y \<or> d_le y x"
proof -
  define e where "e = min (expo x) (expo y)"
  then have "e \<le> expo x" "e \<le> expo y" by simp_all
  then show ?thesis by (simp add: d_le_iff [of e] linear)
qed

lemma d_le_trans: "d_le x y \<Longrightarrow> d_le y z \<Longrightarrow> d_le x z"
proof -
  define e where "e = min (expo x) (min (expo y) (expo z))"
  then have "e \<le> expo x" "e \<le> expo y" "e \<le> expo z" by simp_all
  then show "d_le x y \<Longrightarrow> d_le y z \<Longrightarrow> d_le x z" by (simp add: d_le_iff [of e])
qed

end
