(* ===== verification/RateLimit.thy ===== *)
theory RateLimit
  imports Doubles
begin

text \<open>
  \<open>apps/core-api/src/rate-limit.ts\<close>: the in-memory limiter with a sliding window, and the switch that turns
  the limits off.  The main result is the bound the window is there for: with a clock that does not run
  backwards, no interval of the window's length sees more than the maximum of allowed calls of one key.
\<close>

record rate_limiter =
  windowMs :: int
  max_hits :: nat

type_synonym hit_map = "(string \<times> int list) list"

definition bucket :: "string \<Rightarrow> hit_map \<Rightarrow> int list" where
  "bucket key hits = (case map_of hits key of None \<Rightarrow> [] | Some b \<Rightarrow> b)"

definition allow :: "rate_limiter \<Rightarrow> string \<Rightarrow> int \<Rightarrow> hit_map \<Rightarrow> bool \<times> hit_map" where
  "allow L key now hits =
     (let recent = filter (\<lambda>ts. now - ts < windowMs L) (bucket key hits) in
      if max_hits L \<le> length recent then (False, map_set key recent hits)
      else (True, map_set key (recent @ [now]) hits))"

definition reset_hits :: "hit_map \<Rightarrow> hit_map" where
  "reset_hits hits = []"

text \<open>The switch: on by \<open>VERITY_RATE_LIMIT=1\<close>, off by \<open>0\<close> and in tests.\<close>

definition rate_limit_enabled :: "(string \<Rightarrow> string option) \<Rightarrow> bool" where
  "rate_limit_enabled env \<longleftrightarrow>
     env ''VERITY_RATE_LIMIT'' = Some ''1'' \<or>
     (env ''VERITY_RATE_LIMIT'' \<noteq> Some ''0'' \<and> env ''NODE_ENV'' \<noteq> Some ''test'' \<and> env ''VITEST'' \<noteq> Some ''true'')"

definition rate_limited :: err where
  "rate_limited = ApiError 429 ''RATE_LIMITED''"

definition enforceLimit ::
    "(string \<Rightarrow> string option) \<Rightarrow> rate_limiter \<Rightarrow> string \<Rightarrow> int \<Rightarrow> hit_map \<Rightarrow> (err + unit) \<times> hit_map" where
  "enforceLimit env L key now hits =
     (if \<not> rate_limit_enabled env then (Inr (), hits)
      else case allow L key now hits of (ok, hits') \<Rightarrow> (if ok then Inr () else Inl rate_limited, hits'))"

definition login_limiter :: rate_limiter where "login_limiter = \<lparr>windowMs = 15 * 60000, max_hits = 20\<rparr>"
definition loginFail_limiter :: rate_limiter where "loginFail_limiter = \<lparr>windowMs = 15 * 60000, max_hits = 8\<rparr>"
definition nova_limiter :: rate_limiter where "nova_limiter = \<lparr>windowMs = 60000, max_hits = 30\<rparr>"
definition upload_limiter :: rate_limiter where "upload_limiter = \<lparr>windowMs = 60000, max_hits = 10\<rparr>"
definition approval_limiter :: rate_limiter where "approval_limiter = \<lparr>windowMs = 60000, max_hits = 20\<rparr>"
definition connector_limiter :: rate_limiter where "connector_limiter = \<lparr>windowMs = 60000, max_hits = 10\<rparr>"
definition audit_limiter :: rate_limiter where "audit_limiter = \<lparr>windowMs = 60000, max_hits = 20\<rparr>"

subsection \<open>A run of calls\<close>

text \<open>The calls in order, each with its key and time; \<open>allowed_at\<close> lists the times of a key's allowed calls.\<close>

primrec hits_after :: "rate_limiter \<Rightarrow> (string \<times> int) list \<Rightarrow> hit_map \<Rightarrow> hit_map" where
  "hits_after L [] hits = hits"
| "hits_after L (c # cs) hits = hits_after L cs (snd (allow L (fst c) (snd c) hits))"

primrec allowed_at :: "rate_limiter \<Rightarrow> string \<Rightarrow> (string \<times> int) list \<Rightarrow> hit_map \<Rightarrow> int list" where
  "allowed_at L key [] hits = []"
| "allowed_at L key (c # cs) hits =
     (if fst c = key \<and> fst (allow L (fst c) (snd c) hits) then [snd c] else []) @
     allowed_at L key cs (snd (allow L (fst c) (snd c) hits))"

lemma bucket_map_set [simp]: "bucket k (map_set k' b hits) = (if k = k' then b else bucket k hits)"
  by (simp add: bucket_def map_set_other)

lemma hits_after_append: "hits_after L (xs @ ys) hits = hits_after L ys (hits_after L xs hits)"
  by (induction xs arbitrary: hits) simp_all

lemma allowed_at_append:
  "allowed_at L k (xs @ ys) hits = allowed_at L k xs hits @ allowed_at L k ys (hits_after L xs hits)"
  by (induction xs arbitrary: hits) simp_all

definition in_window :: "int \<Rightarrow> int \<Rightarrow> int list \<Rightarrow> int list" where
  "in_window w t stamps = filter (\<lambda>ts. t - w < ts \<and> ts \<le> t) stamps"

lemma in_window_append [simp]: "in_window w t (xs @ ys) = in_window w t xs @ in_window w t ys"
  by (simp add: in_window_def)

text \<open>From a time on, the bucket and the allowed calls agree on what is recent.\<close>

definition bucket_tracks :: "rate_limiter \<Rightarrow> int \<Rightarrow> int list \<Rightarrow> int list \<Rightarrow> bool" where
  "bucket_tracks L T b stamps \<longleftrightarrow>
     (\<forall>t\<ge>T. filter (\<lambda>ts. t - ts < windowMs L) b = filter (\<lambda>ts. t - ts < windowMs L) stamps) \<and>
     (\<forall>ts\<in>set stamps. ts \<le> T)"

lemma bucket_tracks_mono: "bucket_tracks L T b stamps \<Longrightarrow> T \<le> T' \<Longrightarrow> bucket_tracks L T' b stamps"
  by (auto simp: bucket_tracks_def)

lemma filter_later: "t \<le> t' \<Longrightarrow>
  filter (\<lambda>ts. t' - ts < w) (filter (\<lambda>ts. t - ts < w) xs) = filter (\<lambda>ts. t' - ts < (w :: int)) xs"
  by (auto simp: filter_filter intro!: filter_cong)

lemma tracks_recent:
  assumes "bucket_tracks L T b stamps" and "T \<le> now"
  shows "bucket_tracks L now (filter (\<lambda>ts. now - ts < windowMs L) b) stamps"
  using assms by (auto simp: bucket_tracks_def filter_later simp del: filter_filter)

lemma tracks_push: "bucket_tracks L now b stamps \<Longrightarrow> bucket_tracks L now (b @ [now]) (stamps @ [now])"
  by (auto simp: bucket_tracks_def)

lemma window_le_recent:
  assumes "\<forall>ts\<in>set stamps. ts \<le> now" and "now \<le> t"
  shows "length (in_window w t stamps) \<le> length (filter (\<lambda>ts. now - ts < w) stamps)"
  using assms by (induction stamps) (auto simp: in_window_def)

lemma allow_keeps_tracking:
  assumes "\<And>k. bucket_tracks L T (bucket k hits) (stamps k)" and "T \<le> now"
    and "\<And>k t. length (in_window (windowMs L) t (stamps k)) \<le> max_hits L"
    and "allow L key now hits = (ok, hits')"
  defines "stamps' \<equiv> \<lambda>k. stamps k @ (if key = k \<and> ok then [now] else [])"
  shows "bucket_tracks L now (bucket k hits') (stamps' k)"
    and "length (in_window (windowMs L) t (stamps' k)) \<le> max_hits L"
proof -
  let ?r = "filter (\<lambda>ts. now - ts < windowMs L) (bucket key hits)"
  have r: "bucket_tracks L now ?r (stamps key)" using assms(1,2) by (rule tracks_recent)
  have o: "bucket_tracks L now (bucket k hits) (stamps k)" for k using assms(1,2) by (rule bucket_tracks_mono)
  have a: "ok \<longleftrightarrow> length ?r < max_hits L" "bucket k hits' =
      (if k = key then if ok then ?r @ [now] else ?r else bucket k hits)" for k
    using assms(4) by (auto simp: allow_def Let_def split: if_splits)
  show "bucket_tracks L now (bucket k hits') (stamps' k)"
    using r o [of k] by (simp add: a(2) stamps'_def tracks_push)
  show "length (in_window (windowMs L) t (stamps' k)) \<le> max_hits L"
  proof (cases "key = k \<and> ok \<and> now \<le> t")
    case True
    have "\<forall>ts\<in>set (stamps key). ts \<le> now" using r by (simp add: bucket_tracks_def)
    from window_le_recent [OF this, of t "windowMs L"] True
    have "length (in_window (windowMs L) t (stamps key)) \<le> length (filter (\<lambda>ts. now - ts < windowMs L) (stamps key))"
      by simp
    also have "\<dots> = length ?r" using o [of key] by (auto simp: bucket_tracks_def)
    finally show ?thesis using True a(1) by (auto simp: stamps'_def in_window_def)
  next
    case False
    then have "in_window (windowMs L) t (stamps' k) = in_window (windowMs L) t (stamps k)"
      by (auto simp: stamps'_def in_window_def)
    with assms(3) show ?thesis by simp
  qed
qed

lemma limiter_run:
  assumes "sorted (map snd calls)"
  shows "(\<forall>T k. (\<forall>c\<in>set calls. snd c \<le> T) \<longrightarrow>
      bucket_tracks L T (bucket k (hits_after L calls [])) (allowed_at L k calls [])) \<and>
    (\<forall>k t. length (in_window (windowMs L) t (allowed_at L k calls [])) \<le> max_hits L)"
  using assms
proof (induction calls rule: rev_induct)
  case Nil
  then show ?case by (simp add: bucket_tracks_def bucket_def in_window_def)
next
  case (snoc c cs)
  obtain key now where c: "c = (key, now)" by (cases c)
  let ?h = "hits_after L cs []"
  obtain ok h' where al: "allow L key now ?h = (ok, h')" by (cases "allow L key now ?h")
  from snoc have s: "sorted (map snd cs)" "\<forall>x\<in>set cs. snd x \<le> now" by (auto simp: sorted_append c)
  from snoc.IH [OF s(1)] have ih:
    "\<And>k. bucket_tracks L now (bucket k ?h) (allowed_at L k cs [])"
    "\<And>k t. length (in_window (windowMs L) t (allowed_at L k cs [])) \<le> max_hits L"
    using s(2) by blast+
  have step: "hits_after L (cs @ [c]) [] = h'"
    "allowed_at L k (cs @ [c]) [] = allowed_at L k cs [] @ (if key = k \<and> ok then [now] else [])" for k
    by (simp_all add: hits_after_append allowed_at_append c al)
  note n = allow_keeps_tracking [OF ih(1) order_refl ih(2) al]
  show ?case
  proof (intro conjI allI impI)
    fix T k
    assume "\<forall>x\<in>set (cs @ [c]). snd x \<le> T"
    then have "now \<le> T" by (simp add: c)
    from bucket_tracks_mono [OF n(1) this]
    show "bucket_tracks L T (bucket k (hits_after L (cs @ [c]) [])) (allowed_at L k (cs @ [c]) [])"
      unfolding step .
  next
    fix k t
    show "length (in_window (windowMs L) t (allowed_at L k (cs @ [c]) [])) \<le> max_hits L"
      unfolding step by (rule n(2))
  qed
qed

text \<open>C33: With a clock that does not run backwards, the limiter allows at most its maximum of calls of one key in
  any interval of its window's length, whatever the keys and times of all calls are.\<close>

theorem limiter_bounds_window:
  assumes "sorted (map snd calls)"
  shows "length (filter (\<lambda>ts. t - windowMs L < ts \<and> ts \<le> t) (allowed_at L key calls [])) \<le> max_hits L"
  using limiter_run [OF assms] by (simp add: in_window_def)

text \<open>Three calls in the window of a limiter of two: the third is refused.\<close>

theorem limiter_bounds_window_witness:
  "allowed_at \<lparr>windowMs = 100, max_hits = 2\<rparr> ''k'' [(''k'', 0), (''k'', 10), (''k'', 20)] [] = [0, 10] \<and>
   length (filter (\<lambda>ts. 20 - 100 < ts \<and> ts \<le> (20 :: int))
     (allowed_at \<lparr>windowMs = 100, max_hits = 2\<rparr> ''k'' [(''k'', 0), (''k'', 10), (''k'', 20)] [])) \<le> 2"
proof -
  have s: "sorted (map snd [(''k'', 0), (''k'', 10), (''k'', 20 :: int)])" by simp
  have a: "allowed_at \<lparr>windowMs = 100, max_hits = 2\<rparr> ''k'' [(''k'', 0), (''k'', 10), (''k'', 20)] [] = [0, 10]"
    by (simp add: allow_def bucket_def)
  from limiter_bounds_window [OF s, of 20 "\<lparr>windowMs = 100, max_hits = 2\<rparr>" "''k''"] a show ?thesis by simp
qed

end
