(* ===== verification/Governed.thy ===== *)
theory Governed
  imports Lifecycle Http Progress
begin

text \<open>
  \<open>apps/core-api/src/execution/service.ts\<close>, opening and finalizing a governed execution, and
  \<open>apps/core-api/src/audit.ts\<close>, which runs an operation inside an execution of its own.  The theorems
  state that a finalization seals exactly an open execution with the requested outcome or changes
  nothing, and that a standalone operation that returns has been sealed as completed.
\<close>

subsection \<open>Opening\<close>

text \<open>\<open>JSON.stringify(x)\<close> handed to the hash, which throws on \<open>undefined\<close>.\<close>

definition json_digest :: "'a crypto_scheme \<Rightarrow> json \<Rightarrow> err + string" where
  "json_digest E v = (if v = JUndef then Inl (PlainError ''TypeError'') else Inr (sha256Hex E (stringify v)))"

definition step_event :: "execution_row \<Rightarrow> string \<Rightarrow> string \<Rightarrow> id list \<Rightarrow> (string \<times> json) list \<Rightarrow>
    append_event_input" where
  "step_event execution eventType status parents metadata =
     \<lparr>ae_organizationId = ex_organization_id execution, ae_executionId = ex_id execution,
      ae_eventType = eventType, ae_status = status, ae_parentEventIds = parents, ae_inputHash = None,
      ae_outputHash = None, ae_metadata = Some (JObj metadata), ae_occurredAtCanonical = None\<rparr>"

record open_governed_input =
  og_organizationId :: id
  og_actorId :: id
  og_sessionId :: "id option"
  og_skillId :: string
  og_riskTier :: risk_tier
  og_retentionMode :: "string option"
  og_request :: json
  og_roleId :: id

definition governed_open :: "open_governed_input \<Rightarrow> open_execution_input" where
  "governed_open input =
     \<lparr>oe_organizationId = og_organizationId input, oe_actorId = Some (og_actorId input),
      oe_sessionId = og_sessionId input, oe_skillId = Some (og_skillId input),
      oe_riskTier = Some (og_riskTier input), oe_policyVersion = None,
      oe_retentionMode = Some (case og_retentionMode input of None \<Rightarrow> ''standard'' | Some m \<Rightarrow> m)\<rparr>"

definition opened_append :: "open_governed_input \<Rightarrow> id \<Rightarrow> string \<Rightarrow> append_ledger_input" where
  "opened_append input i h =
     \<lparr>al_organizationId = og_organizationId input, al_executionId = i, al_entryType = RequestOpened,
      al_requestHash = Some h, al_responseHash = None, al_executionGraphHash = None,
      al_merkleSnapshotInterval = None, al_createdAtCanonical = None, al_kernelVersion = None,
      al_executionStatus = None\<rparr>"

text \<open>The execution row carries the organization of the input.\<close>

definition openGovernedExecution ::
    "'a env_scheme \<Rightarrow> open_governed_input \<Rightarrow> (err, 'w audit_world_scheme, execution_row) op" where
  "openGovernedExecution E input =
     bindE (openExecution E (governed_open input)) (\<lambda>execution.
     bindE (appendExecutionEvent E Pool (step_event execution ''execution.created'' ''recorded'' []
       [(''skill_id'', JStr (og_skillId input)), (''risk_tier'', JStr (risk_str (og_riskTier input)))])) (\<lambda>created.
     bindE (appendExecutionEvent E Pool (step_event execution ''identity.authenticated'' ''ok'' [ev_id created]
       [(''actor_id'', JStr (og_actorId input)), (''role_id'', JStr (og_roleId input))])) (\<lambda>_.
     bindE (liftE (json_digest E (if nullish (og_request input) then JObj [] else og_request input))) (\<lambda>requestHash.
     bindE (appendLedgerEntry E Pool (opened_append input (ex_id execution) requestHash)) (\<lambda>_.
     bindE (getExecution (og_organizationId input) (ex_id execution)) (\<lambda>running.
     ret (case running of None \<Rightarrow> execution | Some r \<Rightarrow> r)))))))"

subsection \<open>Finalizing\<close>

definition requireExecutionById :: "id \<Rightarrow> (err, 'w audit_world_scheme, execution_row) op" where
  "requireExecutionById executionId =
     bindE (getExecutionById executionId) (\<lambda>row. expectE row (ExecutionError ''NOT_FOUND'' 404))"

definition requireOpenExecution :: "id \<Rightarrow> (err, 'w audit_world_scheme, execution_row) op" where
  "requireOpenExecution executionId =
     bindE (requireExecutionById executionId) (\<lambda>execution.
     bindE (requireE (ex_status execution \<notin> {Completed, Failed, Blocked, Cancelled})
       (ExecutionError ''INVALID_EXECUTION_TRANSITION'' 409)) (\<lambda>_.
     ret execution))"

datatype outcome = OutcomeCompleted | OutcomeFailed | OutcomeBlocked

fun outcome_status :: "outcome \<Rightarrow> execution_status" where
  "outcome_status OutcomeCompleted = Completed"
| "outcome_status OutcomeFailed = Failed"
| "outcome_status OutcomeBlocked = Blocked"

record finalize_input =
  fz_executionId :: id
  fz_organizationId :: "id option"
  fz_outcome :: outcome
  fz_response :: json
  fz_injectFailure :: bool

record finalize_result =
  fr_execution_id :: id
  fr_verity_record_id :: string
  fr_status :: execution_status
  fr_execution_graph_hash :: string
  fr_graph :: execution_graph
  fr_final_entry_id :: id

definition prelude :: "string \<Rightarrow> string \<Rightarrow> id list \<Rightarrow> (string \<times> json) list \<Rightarrow> prelude_event" where
  "prelude eventType status parents metadata =
     \<lparr>pe_eventType = eventType, pe_status = status, pe_parentEventIds = parents, pe_inputHash = None,
      pe_outputHash = None, pe_metadata = Some (JObj metadata), pe_occurredAtCanonical = None\<rparr>"

definition prelude_of :: "outcome \<Rightarrow> id list \<Rightarrow> prelude_event list" where
  "prelude_of oc parents =
     (let name = status_str (outcome_status oc) in
      [prelude ''validation.started'' ''started'' parents [],
       prelude (if oc = OutcomeCompleted then ''validation.passed'' else ''validation.failed'')
         (if oc = OutcomeCompleted then ''ok'' else ''failed'') [] [(''outcome'', JStr name)],
       prelude (if oc = OutcomeCompleted then ''execution.completed''
           else if oc = OutcomeBlocked then ''execution.blocked'' else ''execution.failed'')
         (if oc = OutcomeCompleted then ''ok'' else name) [] []] @
      (if oc = OutcomeCompleted
       then [prelude ''release.started'' ''started'' [] [], prelude ''release.completed'' ''ok'' [] []]
       else [prelude ''release.blocked'' ''blocked'' [] [(''outcome'', JStr name)]]))"

text \<open>The hash the final entry gives for the response: of the response, or the output of the last skill or model.\<close>

definition output_of_events :: "event_row list \<Rightarrow> string option" where
  "output_of_events events =
     (case find (\<lambda>e. ev_event_type e = ''nova.skill.completed'' \<and> truthy (ev_output_hash e)) (rev events) of
        Some e \<Rightarrow> ev_output_hash e
      | None \<Rightarrow> (case find (\<lambda>e. ev_event_type e = ''model.execution.completed'') (rev events) of
            Some e \<Rightarrow> ev_output_hash e | None \<Rightarrow> None))"

definition response_hash :: "'a crypto_scheme \<Rightarrow> outcome \<Rightarrow> json \<Rightarrow> event_row list \<Rightarrow> string option" where
  "response_hash E oc response events =
     (if response \<noteq> JUndef then Some (sha256Hex E (stringify response))
      else if oc = OutcomeCompleted then output_of_events events else None)"

definition final_seal :: "execution_row \<Rightarrow> outcome \<Rightarrow> string option \<Rightarrow> id list \<Rightarrow> seal_input" where
  "final_seal execution oc responseHash parents =
     \<lparr>se_organizationId = ex_organization_id execution, se_executionId = ex_id execution,
      se_entryType = (if oc = OutcomeCompleted then FinalEntry else FailureEntry),
      se_executionStatus = outcome_status oc, se_responseHash = responseHash,
      se_parentEventIds = parents, se_preludeEvents = prelude_of oc parents\<rparr>"

definition execution_to_finalize :: "finalize_input \<Rightarrow> (err, 'w audit_world_scheme, execution_row) op" where
  "execution_to_finalize input =
     (if truthy (fz_organizationId input)
      then bindE (getExecution (the (fz_organizationId input)) (fz_executionId input)) (\<lambda>row.
           expectE row (ExecutionError ''NOT_FOUND'' 404))
      else requireExecutionById (fz_executionId input))"

definition finalizeGovernedExecution ::
    "'a env_scheme \<Rightarrow> finalize_input \<Rightarrow> (err, 'w audit_world_scheme, finalize_result) op" where
  "finalizeGovernedExecution E input =
     bindE (execution_to_finalize input) (\<lambda>execution.
     bindE (requireE (ex_status execution \<notin> {Completed, Failed, Blocked, Cancelled})
       (ExecutionError ''INVALID_EXECUTION_TRANSITION'' 409)) (\<lambda>_.
     bindE (requireE (\<not> (ex_status execution = WaitingApproval \<and> fz_outcome input = OutcomeCompleted))
       (ExecutionError ''APPROVAL_PENDING'' 409)) (\<lambda>_.
     bindE (lastEventId (ex_organization_id execution) (ex_id execution)) (\<lambda>parent.
     let parentEventIds = (case parent of None \<Rightarrow> [] | Some p \<Rightarrow> if p = '''' then [] else [p]) in
     bindE (listExecutionEvents (ex_organization_id execution) (ex_id execution)) (\<lambda>events.
     bindE (sealExecution E restore_audit
       (final_seal execution (fz_outcome input)
         (response_hash E (fz_outcome input) (fz_response input) events) parentEventIds)
       (if fz_injectFailure input
        then Some (throw (PlainError ''injected finalization failure'')) else None)) (\<lambda>sealed.
     ret \<lparr>fr_execution_id = ex_id execution, fr_verity_record_id = ex_verity_record_id execution,
       fr_status = outcome_status (fz_outcome input), fr_execution_graph_hash = sr_graphHash sealed,
       fr_graph = sr_graph sealed, fr_final_entry_id = le_id (sr_entry sealed)\<rparr>))))))"

subsection \<open>Standalone executions (\<open>audit.ts\<close>)\<close>

record standalone_input =
  sd_organizationId :: id
  sd_actorId :: id
  sd_sessionId :: "id option"
  sd_skillId :: string
  sd_roleId :: id
  sd_request :: json
  sd_executionId :: "id option"

definition standalone_open :: "standalone_input \<Rightarrow> open_governed_input" where
  "standalone_open input =
     \<lparr>og_organizationId = sd_organizationId input, og_actorId = sd_actorId input,
      og_sessionId = sd_sessionId input, og_skillId = sd_skillId input, og_riskTier = Low,
      og_retentionMode = None, og_request = sd_request input, og_roleId = sd_roleId input\<rparr>"

definition standalone_finalize :: "standalone_input \<Rightarrow> id \<Rightarrow> outcome \<Rightarrow> json \<Rightarrow> finalize_input" where
  "standalone_finalize input i oc response =
     \<lparr>fz_executionId = i, fz_organizationId = Some (sd_organizationId input), fz_outcome = oc,
      fz_response = response, fz_injectFailure = False\<rparr>"

text \<open>\<open>Object.assign(result, { execution_id, verity_record_id })\<close> on the object the operation returns.\<close>

definition set_property :: "string \<Rightarrow> json \<Rightarrow> (string \<times> json) list \<Rightarrow> (string \<times> json) list" where
  "set_property k v obj =
     (if k \<in> fst ` set obj then map (\<lambda>kv. if fst kv = k then (k, v) else kv) obj else obj @ [(k, v)])"

definition with_execution :: "id \<Rightarrow> string \<Rightarrow> (string \<times> json) list \<Rightarrow> (string \<times> json) list" where
  "with_execution i record_id obj =
     set_property ''verity_record_id'' (JStr record_id) (set_property ''execution_id'' (JStr i) obj)"

definition withStandaloneExecution ::
    "'a env_scheme \<Rightarrow> standalone_input \<Rightarrow> (id \<Rightarrow> (err, 'w audit_world_scheme, (string \<times> json) list) op) \<Rightarrow>
     (err, 'w audit_world_scheme, (string \<times> json) list) op" where
  "withStandaloneExecution E input fn =
     (if truthy (sd_executionId input)
      then
        bindE (getExecution (sd_organizationId input) (the (sd_executionId input))) (\<lambda>existing.
        bindE (expectE existing (ExecutionError ''NOT_FOUND'' 404)) (\<lambda>x.
        bindE (fn (the (sd_executionId input))) (\<lambda>result.
        ret (with_execution (ex_id x) (ex_verity_record_id x) result))))
      else
        bindE (openGovernedExecution E (standalone_open input)) (\<lambda>execution.
        catchE
          (bindE (fn (ex_id execution)) (\<lambda>result.
           bindE (finalizeGovernedExecution E
             (standalone_finalize input (ex_id execution) OutcomeCompleted (JObj result))) (\<lambda>sealed.
           ret (with_execution (ex_id execution) (fr_verity_record_id sealed) result))))
          (\<lambda>e. bindE (catchE (bindE (finalizeGovernedExecution E
               (standalone_finalize input (ex_id execution) OutcomeFailed JUndef)) (\<lambda>_. ret ())) (\<lambda>_. ret ())) (\<lambda>_.
             throw e))))"

definition recordKernelCheckpoint ::
    "'a env_scheme \<Rightarrow> standalone_input \<Rightarrow> ledger_entry_type \<Rightarrow> json \<Rightarrow> (err, 'w audit_world_scheme, json) op" where
  "recordKernelCheckpoint E input entryType response =
     bindE (withStandaloneExecution E input (\<lambda>_.
       bindE (liftE (json_digest E (sd_request input))) (\<lambda>h.
       ret [(''request_hash'', JStr h),
         (''response_hash'', if response = JUndef then JNull else JStr (sha256Hex E (stringify response))),
         (''entry_type'', JStr (entry_type_str entryType))]))) (\<lambda>wrapped.
     ret (case map_of wrapped ''execution_id'' of None \<Rightarrow> JUndef | Some v \<Rightarrow> v))"

subsection \<open>What a finalization does\<close>

lemma execution_to_finalize_Inr:
  assumes "execution_to_finalize input w = (Inr x, w')"
  shows "w' = w" "x \<in> set (executions w)" "ex_id x = fz_executionId input"
    "truthy (fz_organizationId input) \<longrightarrow> fz_organizationId input = Some (ex_organization_id x)"
  using assms
  by (auto simp: execution_to_finalize_def requireExecutionById_def getExecution_def getExecutionById_def inr_iffs
      truthy_def dest: find_SomeD split: if_splits)

lemma execution_to_finalize_Inl: "execution_to_finalize input w = (Inl e, w') \<Longrightarrow> w' = w"
  by (auto simp: execution_to_finalize_def requireExecutionById_def getExecution_def getExecutionById_def inl_iffs
      basic_Inr split: if_splits)

definition parent_of :: "execution_row \<Rightarrow> 'w audit_world_scheme \<Rightarrow> id list" where
  "parent_of x w = (case fst (lastEventId (ex_organization_id x) (ex_id x) w) of
     Inr (Some p) \<Rightarrow> if p = '''' then [] else [p] | _ \<Rightarrow> [])"

definition finalizable :: "finalize_input \<Rightarrow> execution_row \<Rightarrow> bool" where
  "finalizable input x \<longleftrightarrow> ex_id x = fz_executionId input \<and>
     (truthy (fz_organizationId input) \<longrightarrow> fz_organizationId input = Some (ex_organization_id x)) \<and>
     \<not> terminal (ex_status x) \<and> \<not> (ex_status x = WaitingApproval \<and> fz_outcome input = OutcomeCompleted)"

text \<open>The seal a finalization asks for.\<close>

definition seal_of :: "'a crypto_scheme \<Rightarrow> finalize_input \<Rightarrow> execution_row \<Rightarrow> 'w audit_world_scheme \<Rightarrow> seal_input" where
  "seal_of E input x w = final_seal x (fz_outcome input)
     (response_hash E (fz_outcome input) (fz_response input) (events_of (ex_id x) w)) (parent_of x w)"

definition fail_hook :: "finalize_input \<Rightarrow> (err, 'w audit_world_scheme, unit) op option" where
  "fail_hook input = (if fz_injectFailure input
     then Some (throw (PlainError ''injected finalization failure'')) else None)"

definition sealed_result :: "finalize_input \<Rightarrow> execution_row \<Rightarrow> seal_result \<Rightarrow> finalize_result" where
  "sealed_result input x s = \<lparr>fr_execution_id = ex_id x, fr_verity_record_id = ex_verity_record_id x,
     fr_status = outcome_status (fz_outcome input), fr_execution_graph_hash = sr_graphHash s,
     fr_graph = sr_graph s, fr_final_entry_id = le_id (sr_entry s)\<rparr>"

lemma finalize_run:
  assumes x: "execution_to_finalize input w = (Inr x, w)" and "x \<in> set (executions w)" and "audit_inv E w"
  shows "finalizeGovernedExecution E input w =
    (if terminal (ex_status x) then (Inl (ExecutionError ''INVALID_EXECUTION_TRANSITION'' 409), w)
     else if ex_status x = WaitingApproval \<and> fz_outcome input = OutcomeCompleted
     then (Inl (ExecutionError ''APPROVAL_PENDING'' 409), w)
     else bindE (sealExecution E restore_audit (seal_of E input x w) (fail_hook input))
       (\<lambda>s. ret (sealed_result input x s)) w)"
proof -
  have list: "listExecutionEvents (ex_organization_id x) (ex_id x) w = (Inr (events_of (ex_id x) w), w)"
    using listExecutionEvents_run [OF _ assms(2)] assms(3) by (simp add: audit_inv_def)
  have last: "lastEventId (ex_organization_id x) (ex_id x) w = (Inr (map_option ev_id (last_row (events_of (ex_id x) w))), w)"
    by (simp add: lastEventId_def bindE_def list run)
  show ?thesis
    unfolding finalizeGovernedExecution_def Let_def
    by (subst run_bindE) (auto simp: x run terminal_def list last seal_of_def parent_of_def fail_hook_def
      sealed_result_def [abs_def] split: option.splits)
qed

lemma finalize_cases:
  assumes "finalizeGovernedExecution E input w = (res, w')" "audit_inv E w"
  obtains (refused) e where "res = Inl e" "w' = w"
  | (undone) e where "res = Inl e" "tables_equal w w'"
  | (sealed) x s where "x \<in> set (executions w)" "finalizable input x" "\<not> fz_injectFailure input"
      "sealExecution E restore_audit (seal_of E input x w) None w = (Inr s, w')" "res = Inr (sealed_result input x s)"
proof -
  obtain q v where q: "execution_to_finalize input w = (q, v)" by fastforce
  show ?thesis
  proof (cases q)
    case (Inl e)
    then have "v = w" using q execution_to_finalize_Inl by blast
    with assms(1) q Inl have "res = Inl e" "w' = w" by (auto simp: finalizeGovernedExecution_def bindE_def)
    then show ?thesis by (rule refused)
  next
    case (Inr x)
    note x = q [unfolded Inr]
    note x' = execution_to_finalize_Inr [OF x]
    note r = finalize_run [OF x [unfolded x'(1)] x'(2) assms(2), unfolded assms(1)]
    show ?thesis
    proof (cases "finalizable input x")
      case False
      with x'(3,4) have "terminal (ex_status x) \<or> (ex_status x = WaitingApproval \<and> fz_outcome input = OutcomeCompleted)"
        by (auto simp: finalizable_def)
      with r have "w' = w \<and> (\<exists>e. res = Inl e)" by (auto split: if_splits)
      then show ?thesis by (elim conjE exE) (rule refused)
    next
      case True
      then have run: "bindE (sealExecution E restore_audit (seal_of E input x w) (fail_hook input))
         (\<lambda>s. ret (sealed_result input x s)) w = (res, w')"
        using r by (auto simp: finalizable_def)
      show ?thesis
      proof (cases res)
        case (Inl e)
        then have "tables_equal w w'"
          using run by (auto simp: sealExecution_def inl_iffs basic_Inr)
        with Inl show ?thesis by (rule undone)
      next
        case (Inr b)
        then obtain s where "sealExecution E restore_audit (seal_of E input x w) (fail_hook input) w = (Inr s, w')"
            "res = Inr (sealed_result input x s)"
          using run by (auto simp: inr_iffs)
        with True x'(2) sealed [of x s] show ?thesis
          by (cases "fz_injectFailure input") (simp_all add: fail_hook_def sealExecution_def inr_iffs)
      qed
    qed
  qed
qed


text \<open>An open execution can be ended.\<close>

lemma prelude_ok_prelude:
  assumes "t \<in> set EXECUTION_EVENT_TYPES" "list_all (\<lambda>kv. in_domain (snd kv)) m"
  shows "prelude_ok (prelude t st ps m)"
proof -
  have "canonicalize (JObj m) = Inr (pr (sorted_json (JObj m)))"
    using encode_total [of "JObj m"] assms(2) by (simp only: canonicalize_def in_domain.simps)
  with assms(1) show ?thesis
    by (simp add: prelude_ok_def prelude_def prelude_input_def assertEventEvidence_def assertSha256Hex_def
        event_metadata_def)
qed

lemma prelude_of_ok: "list_all prelude_ok (prelude_of oc parents)"
  unfolding prelude_of_def Let_def
  by (cases oc) (auto intro!: prelude_ok_prelude simp: EXECUTION_EVENT_TYPES_def)

lemma prelude_of_parents: "p \<in> set (prelude_of oc parents) \<Longrightarrow> set (pe_parentEventIds p) \<subseteq> set parents"
  by (cases oc) (auto simp: prelude_of_def Let_def prelude_def)

lemma length_prelude_of: "length (prelude_of oc parents) \<le> 5"
  by (simp add: prelude_of_def Let_def)

lemma parent_of_ids:
  assumes "audit_inv E w" "x \<in> set (executions w)"
  shows "set (parent_of x w) \<subseteq> ev_id ` set (events_of (ex_id x) w)"
proof -
  have "listExecutionEvents (ex_organization_id x) (ex_id x) w = (Inr (events_of (ex_id x) w), w)"
    using listExecutionEvents_run [OF _ assms(2)] assms(1) by (simp add: audit_inv_def)
  then show ?thesis
    by (auto simp: parent_of_def lastEventId_def bindE_def run split: option.splits
      dest!: last_row_SomeD last_row_SomeD [OF sym])
qed

lemma output_of_events_hash:
  assumes "\<forall>e\<in>set es. event_ok e" "output_of_events es = Some h"
  shows "isSha256Hex h"
  using assms by (auto simp: output_of_events_def event_ok_def split: option.splits dest: find_SomeD)

lemma response_hash_ok:
  assumes "crypto_ok E" "audit_inv E w" "x \<in> set (executions w)"
    "response_hash E oc response (events_of (ex_id x) w) = Some h"
  shows "isSha256Hex h"
proof -
  have "events_from (ex_organization_id x) 1 {} (events_of (ex_id x) w)"
    using assms(2,3) by (simp add: audit_inv_def events_inv_def)
  from output_of_events_hash [OF events_from_ok [OF this]] sha256Hex_ok [OF assms(1)] assms(4) show ?thesis
    by (auto simp: response_hash_def split: if_splits)
qed

lemma open_execution_finalizes:
  assumes "sound_env E" "audit_inv E w" "ids_drawn E w" "x \<in> set (executions w)" "finalizable input x"
    "truthy (fz_organizationId input)" "\<not> fz_injectFailure input"
    "fz_outcome input = OutcomeCompleted \<longrightarrow> ex_status x = Running"
    "int (length (events_of (ex_id x) w)) < 2147483641" "fst (latest_of (ex_organization_id x) w) < 2147483647"
  shows "(\<exists>r w'. finalizeGovernedExecution E input w = (Inr r, w')) \<or>
    entry_collision E (ex_organization_id x) (ex_id x) w"
proof (cases "entry_collision E (ex_organization_id x) (ex_id x) w")
  case False
  let ?s = "seal_of E input x w" and ?P = "\<lambda>r. ex_id r = fz_executionId input \<and> ex_organization_id r = ex_organization_id x"
  have org: "fz_organizationId input = Some (ex_organization_id x)" "ex_organization_id x \<noteq> ''''"
    using assms(5,6) by (auto simp: finalizable_def truthy_def)
  obtain y where y: "find ?P (executions w) = Some y"
    using assms(4,5) by (cases "find ?P (executions w)") (auto simp: find_None_iff finalizable_def)
  then have "y = x"
    using key_only [of "executions w" x y] assms(2,4,5)
    by (auto simp: finalizable_def audit_inv_def executions_ok_def dest!: find_SomeD)
  with y org have f: "execution_to_finalize input w = (Inr x, w)"
    by (simp add: execution_to_finalize_def truthy_def getExecution_def run)
  have "\<exists>r w'. sealExecution E restore_audit ?s None w = (Inr r, w')"
  proof (rule seal_runs [OF assms(1-3) _ _ org(2) assms(4) refl refl])
    show "se_organizationId ?s = ex_organization_id x" "se_executionId ?s = ex_id x"
      "se_entryType ?s = FinalEntry \<or> se_entryType ?s = FailureEntry" "list_all prelude_ok (se_preludeEvents ?s)"
      by (simp_all add: seal_of_def final_seal_def prelude_of_ok)
    show "ex_status x = se_executionStatus ?s \<or> transition (ex_status x) (se_executionStatus ?s)"
      using assms(5,8) by (cases "fz_outcome input"; cases "ex_status x")
        (auto simp: seal_of_def final_seal_def finalizable_def terminal_def transition_simps)
    show "\<forall>p\<in>set (se_preludeEvents ?s). set (pe_parentEventIds p) \<subseteq> ev_id ` set (events_of (ex_id x) w)"
      "set (se_parentEventIds ?s) \<subseteq> ev_id ` set (events_of (ex_id x) w)"
      using parent_of_ids [OF assms(2,4)] by (auto simp: seal_of_def final_seal_def dest!: prelude_of_parents)
    show "int (length (events_of (ex_id x) w) + length (se_preludeEvents ?s) + 1) < 2147483647"
      using assms(9) length_prelude_of [of "fz_outcome input" "parent_of x w"]
      by (simp add: seal_of_def final_seal_def)
    show "isSha256Hex g" if "se_responseHash ?s = Some g" for g
      using that response_hash_ok [OF _ assms(2,4)] assms(1) by (auto simp: seal_of_def final_seal_def sound_env_def)
  qed (use assms(10) False in auto)
  then show ?thesis
    using finalize_run [OF f assms(4,2)] assms(5,7) by (auto simp: finalizable_def fail_hook_def bindE_def run)
qed simp


subsection \<open>What a standalone execution leaves\<close>

lemma audit_open [pres]: "preserves (audit_inv E) (openExecution E' input)"
  by (intro preservesI) (metis audit_inv_open(1) prod.collapse)

lemma audit_event [pres]: "preserves (audit_inv E) (appendExecutionEvent E' db input)"
proof (rule preservesI)
  fix w :: "'w audit_world_scheme" assume inv: "audit_inv E w"
  obtain r w' where run: "appendExecutionEvent E' db input w = (r, w')" by fastforce
  from run have "audit_inv E w'"
    by (cases rule: appendExecutionEvent_cases) (use inv audit_inv_tables audit_inv_append_event(1) in blast)+
  with run show "audit_inv E (snd (appendExecutionEvent E' db input w))" by simp
qed

lemma audit_entry [pres]: "preserves (audit_inv E) (appendLedgerEntry E db input)"
proof (rule preservesI)
  fix w :: "'w audit_world_scheme" assume inv: "audit_inv E w"
  obtain r w' where run: "appendLedgerEntry E db input w = (r, w')" by fastforce
  from run have "audit_inv E w'"
    by (cases rule: appendLedgerEntry_cases) (use inv audit_inv_tables audit_inv_append(1) in blast)+
  with run show "audit_inv E (snd (appendLedgerEntry E db input w))" by simp
qed

lemma audit_finalize [pres]: "preserves (audit_inv E) (finalizeGovernedExecution E input)"
proof (rule preservesI)
  fix w :: "'w audit_world_scheme" assume inv: "audit_inv E w"
  obtain r w' where run: "finalizeGovernedExecution E input w = (r, w')" by fastforce
  from run inv have "audit_inv E w'"
  proof (cases rule: finalize_cases)
    case (sealed x s)
    have "se_entryType (seal_of E input x w) = FinalEntry \<or> se_entryType (seal_of E input x w) = FailureEntry"
      by (simp add: seal_of_def final_seal_def)
    from seal_Inr(2) [OF sealExecution_Inr [OF sealed(4)] inv this] show ?thesis .
  qed (use inv audit_inv_tables in blast)+
  with run show "audit_inv E (snd (finalizeGovernedExecution E input w))" by simp
qed

lemma audit_openGoverned [pres]: "preserves (audit_inv E) (openGovernedExecution E input)"
  unfolding openGovernedExecution_def getExecution_def by (intro pres)

lemma audit_standalone:
  assumes "\<And>i. preserves (audit_inv E) (fn i)"
  shows "preserves (audit_inv E) (withStandaloneExecution E input fn)"
  unfolding withStandaloneExecution_def getExecution_def by (intro pres assms)

lemma map_of_replaced:
  "map_of (map (\<lambda>kv. if fst kv = k then (k, v) else kv) obj) k' =
     (if k' = k then if k \<in> fst ` set obj then Some v else None else map_of obj k')"
  by (induction obj) (auto simp: image_iff, force)

lemma set_property_get: "map_of (set_property k v obj) k' = (if k' = k then Some v else map_of obj k')"
proof -
  have "map_of obj k = None" if "k \<notin> fst ` set obj" using that by (simp add: map_of_eq_None_iff)
  then show ?thesis by (auto simp: set_property_def map_of_replaced map_add_def split: option.splits)
qed

lemma catch_throw_Inr:
  "catchE m (\<lambda>e. bindE (h e) (\<lambda>_. throw e)) w = (Inr x, w') \<longleftrightarrow> m w = (Inr x, w')"
  by (auto simp: catchE_def bindE_def throw_def split: prod.splits sum.splits)

lemma standalone_Inr:
  assumes "withStandaloneExecution E input fn w = (Inr r, w')" "\<not> truthy (sd_executionId input)"
  obtains y u result v f where "openGovernedExecution E (standalone_open input) w = (Inr y, u)"
    "fn (ex_id y) u = (Inr result, v)"
    "finalizeGovernedExecution E (standalone_finalize input (ex_id y) OutcomeCompleted (JObj result)) v = (Inr f, w')"
    "r = with_execution (ex_id y) (fr_verity_record_id f) result"
  using assms unfolding withStandaloneExecution_def
  by (simp add: inr_iffs catch_throw_Inr) blast

text \<open>A standalone operation that returns has been sealed.  The caller gets the identifiers of an execution of its
  organization that is completed, and the last entry of the organization's ledger is the final entry of that
  execution and commits to the hash of exactly the object the operation produced.\<close>

theorem standalone_result_is_sealed:
  assumes "withStandaloneExecution E input fn w = (Inr r, w')" "audit_inv E w" "\<not> truthy (sd_executionId input)"
    and "\<And>i. preserves (audit_inv E) (fn i)" and "sd_organizationId input \<noteq> ''''"
  shows "audit_inv E w' \<and> (\<exists>x\<in>set (executions w'). \<exists>l es result u v.
      ex_organization_id x = sd_organizationId input \<and> ex_status x = Completed \<and>
      map_of r ''execution_id'' = Some (JStr (ex_id x)) \<and>
      fn (ex_id x) u = (Inr result, v) \<and> r = with_execution (ex_id x) (ex_verity_record_id x) result \<and>
      entries_of (sd_organizationId input) w' = es @ [l] \<and>
      le_entry_type l = FinalEntry \<and> le_execution_id l = ex_id x \<and> ex_final_entry_id x = Some (le_id l) \<and>
      le_response_hash l = Some (sha256Hex E (stringify (JObj result))))"
proof -
  from assms(1,3) obtain y u result v f where
    y: "openGovernedExecution E (standalone_open input) w = (Inr y, u)" and
    fn: "fn (ex_id y) u = (Inr result, v)" and
    fin: "finalizeGovernedExecution E (standalone_finalize input (ex_id y) OutcomeCompleted (JObj result)) v = (Inr f, w')"
    and r: "r = with_execution (ex_id y) (fr_verity_record_id f) result"
    by (rule standalone_Inr)
  let ?f = "standalone_finalize input (ex_id y) OutcomeCompleted (JObj result)" and ?org = "sd_organizationId input"
  have "audit_inv E u" by (rule preservesD [OF audit_openGoverned y assms(2)])
  then have inv: "audit_inv E v" by (rule preservesD [OF assms(4) fn])
  from fin inv show ?thesis
  proof (cases rule: finalize_cases)
    case (sealed x s)
    let ?s = "seal_of E ?f x v"
    have t: "se_entryType ?s = FinalEntry \<or> se_entryType ?s = FailureEntry"
      by (simp add: seal_of_def final_seal_def)
    note k = seal_Inr [OF sealExecution_Inr [OF sealed(4)] inv t]
    have x: "ex_id x = ex_id y" "ex_organization_id x = ?org"
      using sealed(2) assms(5) by (auto simp: finalizable_def standalone_finalize_def truthy_def)
    have f: "fr_verity_record_id f = ex_verity_record_id x" using sealed(5) by (simp add: sealed_result_def)
    have s: "se_organizationId ?s = ?org" "se_executionId ?s = ex_id y" "se_executionStatus ?s = Completed"
      "se_entryType ?s = FinalEntry" "se_responseHash ?s = Some (sha256Hex E (stringify (JObj result)))"
      by (simp_all add: seal_of_def final_seal_def x response_hash_def standalone_finalize_def)
    obtain z where z: "z \<in> set (executions w')" "ex_id z = ex_id y" "ex_organization_id z = ?org"
        "ex_status z = Completed" "ex_final_entry_id z = Some (le_id (sr_entry s))"
      using k(1) unfolding sealed_by_def s by blast
    obtain z' where z': "z' \<in> set (executions w')" "ex_id z' = ex_id x" "ex_verity_record_id z' = ex_verity_record_id x"
      using k(3) sealed(1) by (auto simp: executions_evolve_def)
    have "z' = z" using key_only [of "executions w'" z z'] k(2) z(1,2) z'(1,2) x(1)
      by (simp add: audit_inv_def executions_ok_def)
    with z' have "ex_verity_record_id z = ex_verity_record_id x" by simp
    with k(1,2) z fn r f show ?thesis
      by (intro conjI bexI [OF _ z(1)] exI [of _ "sr_entry s"] exI [of _ "entries_of ?org v"] exI [of _ result]
          exI [of _ u] exI [of _ v])
        (simp_all add: sealed_by_def s set_property_get with_execution_def)
  qed simp_all
qed

subsection \<open>A concrete finalization\<close>

definition sample_finalize :: finalize_input where
  "sample_finalize = \<lparr>fz_executionId = ''e1'', fz_organizationId = Some ''org'', fz_outcome = OutcomeCompleted,
     fz_response = JObj [(''ok'', JBool True)], fz_injectFailure = False\<rparr>"

lemma sample_clock_sound: "sound_env sample_clock_env"
  using sample_clock_ok sample_clock_time by (simp add: sound_env_def)

lemma sample_finalize_ready:
  "ids_drawn sample_clock_env sample_world" "sample_execution \<in> set (executions sample_world)"
  "finalizable sample_finalize sample_execution" "truthy (fz_organizationId sample_finalize)"
  "\<not> fz_injectFailure sample_finalize" "ex_status sample_execution = Running"
  "int (length (events_of (ex_id sample_execution) sample_world)) < 2147483641"
  "fst (latest_of (ex_organization_id sample_execution) sample_world) < 2147483647"
  "\<not> entry_collision sample_clock_env (ex_organization_id sample_execution) (ex_id sample_execution) sample_world"
  by (simp_all add: ids_drawn_def sample_world_def empty_audit_def sample_execution_def finalizable_def
      sample_finalize_def truthy_def terminal_def events_of_def latest_of_def entry_collision_def)

lemma sample_finalize_runs:
  obtains r and w :: audit_world where "finalizeGovernedExecution sample_clock_env sample_finalize sample_world = (Inr r, w)"
  using open_execution_finalizes [OF sample_clock_sound sample_world_audit_inv sample_finalize_ready(1-5) _
      sample_finalize_ready(7,8)] sample_finalize_ready(6,9) by auto



end
