(* ===== verification/Uploads.thy ===== *)
theory Uploads
  imports Chunks
begin

text \<open>
  What an uploaded file must look like: the checks of \<open>packages/knowledge/src/storage.ts\<close> on names,
  sizes and contents, with the reader of a ZIP file's central directory.  A file is a list of bytes.
  The name of a ZIP entry is kept as its bytes: it is only compared with ASCII names, and UTF-8 decoding
  tells those apart.  The lemmas state what an accepted upload satisfies, and that the limit on the
  uncompressed size of a DOCX document reads the field of the compressed size.
\<close>

definition MAX_UPLOAD_BYTES :: nat where "MAX_UPLOAD_BYTES = 10 * 1024 * 1024"
definition MAX_DOCX_FILES :: nat where "MAX_DOCX_FILES = 128"
definition MAX_DOCX_UNCOMPRESSED_BYTES :: nat where "MAX_DOCX_UNCOMPRESSED_BYTES = 20 * 1024 * 1024"
definition PARSER_VERSION :: string where "PARSER_VERSION = ''verity-knowledge-0.2''"

definition PDF_MAGIC :: "byte list" where "PDF_MAGIC = [0x25, 0x50, 0x44, 0x46, 0x2D]"
definition ZIP_MAGIC :: "byte list" where "ZIP_MAGIC = [0x50, 0x4B]"
definition EOCD_SIG :: "byte list" where "EOCD_SIG = [0x50, 0x4B, 0x05, 0x06]"
definition ZIP64_LOCATOR_SIG :: "byte list" where "ZIP64_LOCATOR_SIG = [0x50, 0x4B, 0x06, 0x07]"
definition CENTRAL_DIR_SIG :: nat where "CENTRAL_DIR_SIG = 0x02014B50"

definition PLAIN_MIME :: string where "PLAIN_MIME = ''text/plain''"
definition MARKDOWN_MIME :: string where "MARKDOWN_MIME = ''text/markdown''"
definition HTML_MIME :: string where "HTML_MIME = ''text/html''"
definition PDF_MIME :: string where "PDF_MIME = ''application/pdf''"
definition DOCX_MIME :: string where
  "DOCX_MIME = ''application/vnd.openxmlformats-officedocument.wordprocessingml.document''"

definition ALLOWED_MIME :: "string list" where
  "ALLOWED_MIME = [PLAIN_MIME, MARKDOWN_MIME, HTML_MIME, PDF_MIME, DOCX_MIME]"

subsection \<open>Buffers\<close>

text \<open>\<open>bytes.subarray(a, b)\<close>, \<open>bytes.includes(x)\<close>, \<open>bytes.readUInt16LE(i)\<close>, \<open>bytes.readUInt32LE(i)\<close>; a read
  past the end throws a \<open>RangeError\<close>.  \<open>toString("latin1")\<close> maps each byte to its character.\<close>

definition subarray :: "nat \<Rightarrow> nat \<Rightarrow> byte list \<Rightarrow> byte list" where
  "subarray a b bytes = take (b - a) (drop a bytes)"

fun includes_bytes :: "byte list \<Rightarrow> byte list \<Rightarrow> bool" where
  "includes_bytes [] p \<longleftrightarrow> p = []"
| "includes_bytes (b # bs) p \<longleftrightarrow> take (length p) (b # bs) = p \<or> includes_bytes bs p"

definition range_error :: err where
  "range_error = PlainError ''RangeError''"

definition le_value :: "byte list \<Rightarrow> nat" where
  "le_value bs = foldr (\<lambda>b n. unat b + 256 * n) bs 0"

definition read_le :: "nat \<Rightarrow> byte list \<Rightarrow> nat \<Rightarrow> err + nat" where
  "read_le width bytes i =
     (if i + width \<le> length bytes then Inr (le_value (subarray i (i + width) bytes)) else Inl range_error)"

definition latin1 :: "byte list \<Rightarrow> string" where
  "latin1 bytes = map (\<lambda>b. char_of (unat b)) bytes"

subsection \<open>Names and types\<close>

definition knowledge_error :: "string \<Rightarrow> err" where
  "knowledge_error code = KnowledgeError code 400"

definition assertSafeFilename :: "string \<Rightarrow> err + unit" where
  "assertSafeFilename name =
     assertS (\<not> (name = [] \<or> includes_text name ''..'' \<or> CHR ''/'' \<in> set name \<or> CHR 0x5C \<in> set name \<or>
                CHR 0x00 \<in> set name))
       (knowledge_error ''INVALID_FILENAME'')"

definition sniffMime :: "string \<Rightarrow> byte list \<Rightarrow> err + string" where
  "sniffMime filename bytes =
     bindS (assertSafeFilename filename) (\<lambda>_.
     let lower = toLowerCase filename in
     if subarray 0 5 bytes = PDF_MAGIC then
       (if \<not> ends_with lower ''.pdf'' then Inl (knowledge_error ''UNSUPPORTED_TYPE'') else Inr PDF_MIME)
     else if subarray 0 2 bytes = ZIP_MAGIC \<and> ends_with lower ''.docx'' then Inr DOCX_MIME
     else if ends_with lower ''.pdf'' \<or> ends_with lower ''.docx'' then Inl (knowledge_error ''INVALID_UPLOAD'')
     else if ends_with lower ''.md'' \<or> ends_with lower ''.markdown'' then Inr MARKDOWN_MIME
     else if ends_with lower ''.html'' \<or> ends_with lower ''.htm'' then Inr HTML_MIME
     else if ends_with lower ''.txt'' then Inr PLAIN_MIME
     else Inl (knowledge_error ''UNSUPPORTED_TYPE''))"

subsection \<open>Contents\<close>

definition invalid_pdf :: err where "invalid_pdf = knowledge_error ''INVALID_PDF''"
definition invalid_docx :: err where "invalid_docx = knowledge_error ''INVALID_DOCX''"

text \<open>\<open>/^\d\.\d$/\<close>.\<close>

definition version_digits :: "string \<Rightarrow> bool" where
  "version_digits s \<longleftrightarrow> (case s of [a, p, b] \<Rightarrow> is_digit a \<and> p = CHR ''.'' \<and> is_digit b | _ \<Rightarrow> False)"

definition assertPdf :: "byte list \<Rightarrow> err + unit" where
  "assertPdf bytes =
     bindS (assertS (\<not> (length bytes < 8 \<or> subarray 0 5 bytes \<noteq> PDF_MAGIC)) invalid_pdf) (\<lambda>_.
     bindS (assertS (version_digits (latin1 (subarray 5 8 bytes))) invalid_pdf) (\<lambda>_.
     assertS (includes_text (latin1 (drop (length bytes - 1024) bytes)) ''%%EOF'') invalid_pdf))"

text \<open>
  \<open>findEocd\<close> tries the positions from \<open>length - 22\<close> down to \<open>max(0, length - 22 - 65535)\<close>.  A file shorter
  than 22 bytes has none of them.
\<close>

fun find_down :: "byte list \<Rightarrow> nat \<Rightarrow> nat \<Rightarrow> nat option" where
  "find_down bytes lowest 0 = None"
| "find_down bytes lowest (Suc i) =
     (if i < lowest then None
      else if subarray i (i + 4) bytes = EOCD_SIG then Some i else find_down bytes lowest i)"

definition findEocd :: "byte list \<Rightarrow> nat option" where
  "findEocd bytes =
     (if length bytes < 22 then None
      else find_down bytes (length bytes - 22 - 65535) (Suc (length bytes - 22)))"

record zip_listing =
  zip_entries :: nat
  zip_uncompressedTotal :: nat
  zip_names :: "byte list list"

primrec central_entries ::
    "byte list \<Rightarrow> nat \<Rightarrow> nat \<Rightarrow> nat \<Rightarrow> byte list list \<Rightarrow> err + nat \<times> byte list list" where
  "central_entries bytes 0 offset acc names = Inr (acc, names)"
| "central_entries bytes (Suc n) offset acc names =
     bindS (assertS (offset + 46 \<le> length bytes) invalid_docx) (\<lambda>_.
     bindS (read_le 4 bytes offset) (\<lambda>sig.
     bindS (assertS (sig = CENTRAL_DIR_SIG) invalid_docx) (\<lambda>_.
     bindS (read_le 4 bytes (offset + 20)) (\<lambda>uncompressed.
     bindS (read_le 2 bytes (offset + 28)) (\<lambda>nameLen.
     bindS (read_le 2 bytes (offset + 30)) (\<lambda>extraLen.
     bindS (read_le 2 bytes (offset + 32)) (\<lambda>commentLen.
     let name = subarray (offset + 46) (offset + 46 + nameLen) bytes;
         size' = acc + uncompressed in
     bindS (assertS (size' \<le> MAX_DOCX_UNCOMPRESSED_BYTES) invalid_docx) (\<lambda>_.
     central_entries bytes n (offset + 46 + nameLen + extraLen + commentLen) size' (names @ [name])))))))))"

definition inspectZip :: "byte list \<Rightarrow> err + zip_listing" where
  "inspectZip bytes =
     (case findEocd bytes of None \<Rightarrow> Inl invalid_docx
      | Some eocd \<Rightarrow>
        bindS (read_le 2 bytes (eocd + 10)) (\<lambda>entryCount.
        bindS (read_le 4 bytes (eocd + 12)) (\<lambda>cdSize.
        bindS (read_le 4 bytes (eocd + 16)) (\<lambda>cdOffset.
        bindS (assertS (cdOffset + cdSize \<le> length bytes) invalid_docx) (\<lambda>_.
        bindS (central_entries bytes entryCount cdOffset 0 []) (\<lambda>(acc, names).
        Inr \<lparr>zip_entries = entryCount, zip_uncompressedTotal = acc, zip_names = names\<rparr>))))))"

definition CONTENT_TYPES_NAME :: "byte list" where "CONTENT_TYPES_NAME = utf8 ''[Content_Types].xml''"
definition DOCUMENT_NAME :: "byte list" where "DOCUMENT_NAME = utf8 ''word/document.xml''"

definition assertDocx :: "byte list \<Rightarrow> err + unit" where
  "assertDocx bytes =
     bindS (assertS (\<not> (length bytes < 4 \<or> subarray 0 2 bytes \<noteq> ZIP_MAGIC)) invalid_docx) (\<lambda>_.
     bindS (assertS (\<not> includes_bytes bytes ZIP64_LOCATOR_SIG) invalid_docx) (\<lambda>_.
     bindS (inspectZip bytes) (\<lambda>listing.
     bindS (assertS (zip_entries listing \<le> MAX_DOCX_FILES) invalid_docx) (\<lambda>_.
     bindS (assertS (zip_uncompressedTotal listing \<le> MAX_DOCX_UNCOMPRESSED_BYTES) invalid_docx) (\<lambda>_.
     assertS (CONTENT_TYPES_NAME \<in> set (zip_names listing) \<and> DOCUMENT_NAME \<in> set (zip_names listing))
       invalid_docx)))))"

definition assertSafeText :: "byte list \<Rightarrow> err + unit" where
  "assertSafeText bytes = assertS (0 \<notin> set bytes) (knowledge_error ''INVALID_TEXT'')"

definition assertUpload :: "byte list \<Rightarrow> string \<Rightarrow> err + unit" where
  "assertUpload bytes mime =
     bindS (assertS (bytes \<noteq> []) (knowledge_error ''EMPTY_UPLOAD'')) (\<lambda>_.
     bindS (assertS (length bytes \<le> MAX_UPLOAD_BYTES) (knowledge_error ''UPLOAD_TOO_LARGE'')) (\<lambda>_.
     bindS (assertS (mime \<in> set ALLOWED_MIME) (knowledge_error ''UNSUPPORTED_TYPE'')) (\<lambda>_.
     if mime = PDF_MIME then assertPdf bytes
     else if mime = DOCX_MIME then assertDocx bytes
     else assertSafeText bytes)))"

subsection \<open>What an accepted upload satisfies\<close>

lemma mime_distinct [simp]:
  "PDF_MIME \<noteq> DOCX_MIME" "DOCX_MIME \<noteq> PDF_MIME" "PLAIN_MIME \<noteq> PDF_MIME" "PLAIN_MIME \<noteq> DOCX_MIME" "MARKDOWN_MIME \<noteq> PDF_MIME"
  "MARKDOWN_MIME \<noteq> DOCX_MIME" "HTML_MIME \<noteq> PDF_MIME" "HTML_MIME \<noteq> DOCX_MIME"
  by (simp_all add: PDF_MIME_def DOCX_MIME_def PLAIN_MIME_def MARKDOWN_MIME_def HTML_MIME_def)

text \<open>The entry of the central directory the walk reaches after \<open>i\<close> steps.\<close>

definition field :: "nat \<Rightarrow> byte list \<Rightarrow> nat \<Rightarrow> nat" where
  "field width bytes i = le_value (subarray i (i + width) bytes)"

primrec entry_offset :: "byte list \<Rightarrow> nat \<Rightarrow> nat \<Rightarrow> nat" where
  "entry_offset bytes offset 0 = offset"
| "entry_offset bytes offset (Suc n) =
     entry_offset bytes (offset + 46 + field 2 bytes (offset + 28) + field 2 bytes (offset + 30) +
       field 2 bytes (offset + 32)) n"

lemma read_le_Inr: "read_le width bytes i = Inr n \<longleftrightarrow> i + width \<le> length bytes \<and> n = field width bytes i"
  by (auto simp: read_le_def field_def)

lemma central_entries_Inr:
  assumes "central_entries bytes n offset acc names = Inr (size', names')"
  shows "size' = acc + (\<Sum>i<n. field 4 bytes (entry_offset bytes offset i + 20)) \<and>
    names' = names @ map (\<lambda>i. subarray (entry_offset bytes offset i + 46)
      (entry_offset bytes offset i + 46 + field 2 bytes (entry_offset bytes offset i + 28)) bytes) [0..<n]"
  using assms
proof (induction n arbitrary: offset acc names)
  case (Suc n)
  let ?o = "offset + 46 + field 2 bytes (offset + 28) + field 2 bytes (offset + 30) + field 2 bytes (offset + 32)"
  from Suc.prems have "central_entries bytes n ?o (acc + field 4 bytes (offset + 20))
      (names @ [subarray (offset + 46) (offset + 46 + field 2 bytes (offset + 28)) bytes]) = Inr (size', names')"
    by (auto simp: read_le_Inr Let_def)
  from Suc.IH [OF this] show ?case
    by (simp add: sum.lessThan_Suc_shift map_upt_Suc del: upt_Suc sum.lessThan_Suc)
qed simp

lemma find_down_bound: "find_down bytes lowest n = Some i \<Longrightarrow> i < n \<and> lowest \<le> i"
  by (induction n) (auto split: if_splits simp: less_Suc_eq)

lemma utf8_literal_names [simp]: "CONTENT_TYPES_NAME \<noteq> DOCUMENT_NAME"
  by (simp add: CONTENT_TYPES_NAME_def DOCUMENT_NAME_def)

lemma inspectZip_entries:
  "inspectZip bytes = Inr listing \<Longrightarrow> length (zip_names listing) = zip_entries listing"
  by (auto simp: inspectZip_def split: option.splits dest!: central_entries_Inr)

lemma sniffMime_Inr:
  assumes "sniffMime name bytes = Inr mime"
  shows "assertSafeFilename name = Inr ()" and "mime \<in> set ALLOWED_MIME"
    and "mime = PDF_MIME \<longleftrightarrow> subarray 0 5 bytes = PDF_MAGIC"
    and "mime = DOCX_MIME \<Longrightarrow> subarray 0 2 bytes = ZIP_MAGIC"
  using assms
  by (auto simp: sniffMime_def Let_def ALLOWED_MIME_def split: if_splits)

lemma assertDocx_Inr:
  "assertDocx bytes = Inr u \<longleftrightarrow>
     4 \<le> length bytes \<and> subarray 0 2 bytes = ZIP_MAGIC \<and> \<not> includes_bytes bytes ZIP64_LOCATOR_SIG \<and>
     (\<exists>listing. inspectZip bytes = Inr listing \<and> length (zip_names listing) \<le> 128 \<and>
        zip_uncompressedTotal listing \<le> MAX_DOCX_UNCOMPRESSED_BYTES \<and>
        CONTENT_TYPES_NAME \<in> set (zip_names listing) \<and> DOCUMENT_NAME \<in> set (zip_names listing))"
  by (auto simp: assertDocx_def MAX_DOCX_FILES_def inspectZip_entries)

lemma accepted_upload:
  assumes "sniffMime name bytes = Inr mime" and "assertUpload bytes mime = Inr ()"
  shows "name \<noteq> [] \<and> \<not> includes_text name ''..'' \<and> CHR ''/'' \<notin> set name \<and> CHR 0x5C \<notin> set name \<and>
      CHR 0x00 \<notin> set name"
    and "0 < length bytes \<and> length bytes \<le> MAX_UPLOAD_BYTES \<and> mime \<in> set ALLOWED_MIME"
    and "mime = PDF_MIME \<longleftrightarrow> take 5 bytes = PDF_MAGIC"
    and "mime = DOCX_MIME \<longrightarrow> take 2 bytes = ZIP_MAGIC \<and>
      (\<exists>listing. inspectZip bytes = Inr listing \<and> length (zip_names listing) \<le> 128 \<and>
         CONTENT_TYPES_NAME \<in> set (zip_names listing) \<and> DOCUMENT_NAME \<in> set (zip_names listing))"
    and "mime \<noteq> PDF_MIME \<and> mime \<noteq> DOCX_MIME \<longrightarrow> 0 \<notin> set bytes"
  using sniffMime_Inr [OF assms(1)] assms(2)
  by (auto simp: assertSafeFilename_def assertUpload_def assertDocx_Inr assertSafeText_def subarray_def
      split: if_splits)

text \<open>C32: An accepted upload: its name is not empty and holds no path separator, no parent directory and no NUL, its size is
  between one byte and ten mebibytes, and its bytes are of the type that was derived from name and
  content: a PDF exactly when they start with the PDF signature, a DOCX document only when they are a
  ZIP file of at most 128 entries with the two parts every such document has, text only without NUL.\<close>

theorem accepted_upload_safe:
  assumes "sniffMime name bytes = Inr mime" and "assertUpload bytes mime = Inr ()"
  shows "(name \<noteq> [] \<and> \<not> includes_text name ''..'' \<and> CHR ''/'' \<notin> set name \<and> CHR 0x5C \<notin> set name \<and>
      CHR 0x00 \<notin> set name) \<and>
    (0 < length bytes \<and> length bytes \<le> MAX_UPLOAD_BYTES \<and> mime \<in> set ALLOWED_MIME) \<and>
    (mime = PDF_MIME \<longleftrightarrow> take 5 bytes = PDF_MAGIC) \<and>
    (mime = DOCX_MIME \<longrightarrow> take 2 bytes = ZIP_MAGIC \<and>
      (\<exists>listing. inspectZip bytes = Inr listing \<and> length (zip_names listing) \<le> 128 \<and>
         CONTENT_TYPES_NAME \<in> set (zip_names listing) \<and> DOCUMENT_NAME \<in> set (zip_names listing))) \<and>
    (mime \<noteq> PDF_MIME \<and> mime \<noteq> DOCX_MIME \<longrightarrow> 0 \<notin> set bytes)"
  using accepted_upload [OF assms] by simp

text \<open>A Markdown file of two bytes.\<close>

theorem accepted_upload_safe_witness:
  "sniffMime ''a.MD'' [0x68, 0x69] = Inr MARKDOWN_MIME \<and> 0 \<notin> set [0x68, 0x69 :: byte]"
proof -
  have s: "sniffMime ''a.MD'' [0x68, 0x69] = Inr MARKDOWN_MIME" by code_simp
  have u: "assertUpload [0x68, 0x69] MARKDOWN_MIME = Inr ()"
    by (simp add: assertUpload_def MAX_UPLOAD_BYTES_def ALLOWED_MIME_def assertSafeText_def)
  show ?thesis using accepted_upload_safe [OF s u] s by (simp add: PDF_MIME_def DOCX_MIME_def MARKDOWN_MIME_def)
qed

subsection \<open>The limit on the uncompressed size\<close>

text \<open>
  The layout of a ZIP file's central directory (section 4.3 of the format's specification): an entry has
  the compressed size at offset 20 and the uncompressed size at offset 24.
\<close>

definition declared_uncompressed :: "byte list \<Rightarrow> nat \<Rightarrow> nat \<Rightarrow> nat" where
  "declared_uncompressed bytes cdOffset n = (\<Sum>i\<leftarrow>[0..<n]. field 4 bytes (entry_offset bytes cdOffset i + 24))"

definition directory_entry :: "byte list \<Rightarrow> byte list \<Rightarrow> byte list \<Rightarrow> byte list" where
  "directory_entry compressed uncompressed name =
     [0x50, 0x4B, 0x01, 0x02, 20, 0, 20, 0, 0, 0, 8, 0, 0, 0, 0, 0, 0, 0, 0, 0] @ compressed @ uncompressed @
     [of_nat (length name), 0, 0, 0, 0, 0, 0, 0, 0, 0, 0, 0, 0, 0, 0, 0, 0, 0] @ name"

text \<open>Two entries of 100 compressed bytes that declare four gibibytes each.\<close>

definition oversized_docx :: "byte list" where
  "oversized_docx =
     directory_entry [100, 0, 0, 0] [0xFF, 0xFF, 0xFF, 0xFF] CONTENT_TYPES_NAME @
     directory_entry [100, 0, 0, 0] [0xFF, 0xFF, 0xFF, 0xFF] DOCUMENT_NAME @
     EOCD_SIG @ [0, 0, 0, 0, 2, 0, 2, 0, 128, 0, 0, 0, 0, 0, 0, 0, 0, 0]"

lemma oversized_bytes:
  "oversized_docx =
     [0x50, 0x4B, 0x01, 0x02, 20, 0, 20, 0, 0, 0, 8, 0, 0, 0, 0, 0, 0, 0, 0, 0, 100, 0, 0, 0, 0xFF, 0xFF, 0xFF,
      0xFF, 19, 0, 0, 0, 0, 0, 0, 0, 0, 0, 0, 0, 0, 0, 0, 0, 0, 0, 0x5B, 0x43, 0x6F, 0x6E, 0x74, 0x65, 0x6E,
      0x74, 0x5F, 0x54, 0x79, 0x70, 0x65, 0x73, 0x5D, 0x2E, 0x78, 0x6D, 0x6C,
      0x50, 0x4B, 0x01, 0x02, 20, 0, 20, 0, 0, 0, 8, 0, 0, 0, 0, 0, 0, 0, 0, 0, 100, 0, 0, 0, 0xFF, 0xFF, 0xFF,
      0xFF, 17, 0, 0, 0, 0, 0, 0, 0, 0, 0, 0, 0, 0, 0, 0, 0, 0, 0, 0x77, 0x6F, 0x72, 0x64, 0x2F, 0x64, 0x6F,
      0x63, 0x75, 0x6D, 0x65, 0x6E, 0x74, 0x2E, 0x78, 0x6D, 0x6C,
      0x50, 0x4B, 0x05, 0x06, 0, 0, 0, 0, 2, 0, 2, 0, 128, 0, 0, 0, 0, 0, 0, 0, 0, 0]"
  by (simp add: oversized_docx_def directory_entry_def CONTENT_TYPES_NAME_def DOCUMENT_NAME_def EOCD_SIG_def
      utf8_def utf8_char_def)

lemma inspect_oversized:
  "inspectZip oversized_docx =
     Inr \<lparr>zip_entries = 2, zip_uncompressedTotal = 200, zip_names = [CONTENT_TYPES_NAME, DOCUMENT_NAME]\<rparr>"
proof -
  have e: "findEocd oversized_docx = Some 128"
    by (simp add: findEocd_def oversized_bytes subarray_def EOCD_SIG_def)
  have c: "central_entries oversized_docx 2 0 0 [] = Inr (200, [CONTENT_TYPES_NAME, DOCUMENT_NAME])"
    by (subst numeral_2_eq_2)
      (simp add: oversized_bytes read_le_def subarray_def le_value_def CENTRAL_DIR_SIG_def
        MAX_DOCX_UNCOMPRESSED_BYTES_def Let_def CONTENT_TYPES_NAME_def DOCUMENT_NAME_def utf8_def utf8_char_def)
  have r: "read_le 2 oversized_docx 138 = Inr 2" "read_le 4 oversized_docx 140 = Inr 128"
      "read_le 4 oversized_docx 144 = Inr 0" "length oversized_docx = 150"
    by (simp_all add: oversized_bytes read_le_def subarray_def le_value_def)
  show ?thesis by (simp add: inspectZip_def e c r)
qed

lemma oversized_head:
  "oversized_docx \<noteq> []" "length oversized_docx = 150" "subarray 0 2 oversized_docx = ZIP_MAGIC"
  "\<not> includes_bytes oversized_docx ZIP64_LOCATOR_SIG"
  by (simp_all add: oversized_bytes subarray_def ZIP_MAGIC_def ZIP64_LOCATOR_SIG_def)

lemma oversized_declared: "declared_uncompressed oversized_docx 0 2 = 8589934590"
proof -
  have two: "[0..<2] = [0, Suc 0]" by (simp add: numeral_2_eq_2)
  have "field 2 oversized_docx 28 = 19" "field 2 oversized_docx 30 = 0" "field 2 oversized_docx 32 = 0"
    "field 4 oversized_docx 24 = 4294967295" "field 4 oversized_docx 89 = 4294967295"
    by (simp_all add: field_def oversized_bytes subarray_def le_value_def)
  then show ?thesis by (simp add: declared_uncompressed_def two)
qed

text \<open>The limit on the uncompressed size of a DOCX document is not enforced by the upload check: the sum
  it bounds adds the field at offset 20 of each directory entry, which is the compressed size.  The document
  below declares eight gibibytes of uncompressed data, four hundred times the limit, and is accepted.\<close>

theorem docx_size_limit_reads_compressed_size:
  "assertUpload oversized_docx DOCX_MIME = Inr () \<and>
   (\<exists>listing. inspectZip oversized_docx = Inr listing \<and> zip_uncompressedTotal listing = 200) \<and>
   declared_uncompressed oversized_docx 0 2 > 400 * MAX_DOCX_UNCOMPRESSED_BYTES"
proof -
  have "assertUpload oversized_docx DOCX_MIME = assertDocx oversized_docx"
    by (simp add: assertUpload_def oversized_head MAX_UPLOAD_BYTES_def ALLOWED_MIME_def)
  also have "\<dots> = Inr ()"
    by (simp add: assertDocx_Inr oversized_head inspect_oversized MAX_DOCX_UNCOMPRESSED_BYTES_def)
  finally show ?thesis
    using inspect_oversized oversized_declared by (simp add: MAX_DOCX_UNCOMPRESSED_BYTES_def)
qed

end
