(* ===== verification/Extract.thy ===== *)
theory Extract
  imports Http Doubles Uploads
begin

text \<open>
  From the bytes of a file to text and vectors: \<open>packages/knowledge/src/extract.ts\<close> and \<open>embed.ts\<close>.
  The libraries that open PDF and ZIP files, Node's UTF-8 decoder and the time a parser takes are fields
  of the record \<open>knowledge_env\<close>, as are the searches PostgreSQL answers with its vector and text indexes
  (used by the theory on retrieval), the database's order of texts, and \<open>Number(s)\<close> (\<open>None\<close> when it is not finite).  A provider of embeddings is the deterministic mock or the HTTP
  interface compatible with OpenAI's; a component of a vector that is no finite number is \<open>None\<close>.
\<close>

record zip_file =
  zf_name :: string
  zf_dir :: bool
  zf_uncompressedSize :: "nat option"
  zf_text :: "err + string"

record knowledge_env = net_env +
  data_root :: string
  disk_error :: "string \<Rightarrow> string option"
  decode_utf8 :: "byte list \<Rightarrow> string"
  parser_slow :: "byte list \<Rightarrow> bool"
  pdf_pages :: "byte list \<Rightarrow> err + nat"
  pdf_page_items :: "byte list \<Rightarrow> nat \<Rightarrow> err + string option list"
  zip_load :: "byte list \<Rightarrow> err + zip_file list"
  number_value :: "string \<Rightarrow> double option"
  vector_search :: "string \<Rightarrow> (id \<times> string) list \<Rightarrow> nat \<Rightarrow> (id \<times> double) list"
  ts_match :: "string \<Rightarrow> string \<Rightarrow> bool"
  ts_rank :: "string \<Rightarrow> string \<Rightarrow> double"
  db_collation :: "string \<Rightarrow> string \<Rightarrow> bool"

subsection \<open>Regular expressions\<close>

text \<open>\<open>s.replace(/literal/g, by)\<close>.\<close>

function replace_all :: "string \<Rightarrow> string \<Rightarrow> string \<Rightarrow> string" where
  "replace_all p by_text [] = []"
| "replace_all p by_text (c # s) =
     (if p \<noteq> [] \<and> starts_with (c # s) p then by_text @ replace_all p by_text (drop (length p - 1) s)
      else c # replace_all p by_text s)"
  by pat_completeness auto
termination by (relation "measure (length o snd o snd)") auto

text \<open>\<open>/<[^>]+>/g\<close>: from a \<open><\<close> to the next \<open>></\<close>, with something between them.\<close>

function replace_tags :: "string \<Rightarrow> string \<Rightarrow> string" where
  "replace_tags by_text [] = []"
| "replace_tags by_text (c # s) =
     (let inside = takeWhile (\<lambda>d. d \<noteq> CHR ''>'') s; rest = dropWhile (\<lambda>d. d \<noteq> CHR ''>'') s in
      if c = CHR ''<'' \<and> inside \<noteq> [] \<and> rest \<noteq> [] then by_text @ replace_tags by_text (tl rest)
      else c # replace_tags by_text s)"
  by pat_completeness auto
termination
proof (relation "measure (length o snd)")
  fix by_text :: string and c s inside rest
  assume "rest = dropWhile (\<lambda>d. d \<noteq> CHR ''>'') s"
  then have "length rest \<le> length s" by (simp add: length_dropWhile_le)
  then show "((by_text, tl rest), by_text, c # s) \<in> measure (length o snd)" by simp
qed auto

text \<open>\<open>/<tag[\s\S]*?<\/tag>/gi\<close>: from an opening to the next closing text, in any case of the letters.\<close>

fun after_text :: "string \<Rightarrow> string \<Rightarrow> string option" where
  "after_text p [] = None"
| "after_text p (c # s) =
     (if starts_with (toLowerCase (c # s)) p then Some (drop (length p) (c # s)) else after_text p s)"

lemma after_text_length: "after_text p s = Some r \<Longrightarrow> length r \<le> length s"
  by (induction s) (auto split: if_splits)

function replace_blocks :: "string \<Rightarrow> string \<Rightarrow> string \<Rightarrow> string" where
  "replace_blocks start stop [] = []"
| "replace_blocks start stop (c # s) =
     (case (if starts_with (toLowerCase (c # s)) start \<and> start \<noteq> []
            then after_text stop (drop (length start - 1) s) else None) of
        Some rest \<Rightarrow> CHR '' '' # replace_blocks start stop rest
      | None \<Rightarrow> c # replace_blocks start stop s)"
  by pat_completeness auto
termination
proof (relation "measure (length o snd o snd)")
  fix start stop :: string and c s rest
  assume "(if starts_with (toLowerCase (c # s)) start \<and> start \<noteq> []
    then after_text stop (drop (length start - 1) s) else None) = Some rest"
  then have "length rest \<le> length s" by (auto dest!: after_text_length split: if_splits)
  then show "((start, stop, rest), start, stop, c # s) \<in> measure (length o snd o snd)" by simp
qed auto

definition stripHtml :: "string \<Rightarrow> string" where
  "stripHtml html =
     (let a = replace_blocks ''<script'' ''</script>'' html;
          b = replace_blocks ''<style'' ''</style>'' a;
          c = replace_tags '' '' b;
          d = replace_all ''&nbsp;'' '' '' c;
          e = replace_all ''&amp;'' ''&'' d;
          f = replace_all ''&lt;'' ''<'' e;
          g = replace_all ''&gt;'' ''>'' f
      in trim (single_blanks g))"

subsection \<open>Extracting text\<close>

definition MAX_PDF_PAGES :: nat where "MAX_PDF_PAGES = 75"

definition native_text_unavailable :: err where
  "native_text_unavailable = knowledge_error ''NATIVE_TEXT_UNAVAILABLE''"

text \<open>\<open>Promise.race\<close> with the timer.\<close>

definition withTimeout :: "'a knowledge_env_scheme \<Rightarrow> byte list \<Rightarrow> err + string \<Rightarrow> err + string" where
  "withTimeout E bytes work =
     (if parser_slow E bytes then Inl (knowledge_error ''PARSER_TIMEOUT'') else work)"

definition page_text :: "'a knowledge_env_scheme \<Rightarrow> byte list \<Rightarrow> nat \<Rightarrow> err + string" where
  "page_text E bytes n =
     bindS (pdf_page_items E bytes n) (\<lambda>items.
     Inr (join '' '' (map (\<lambda>item. case item of None \<Rightarrow> '''' | Some s \<Rightarrow> s) items)))"

definition extractPdf :: "'a knowledge_env_scheme \<Rightarrow> byte list \<Rightarrow> err + string" where
  "extractPdf E bytes =
     bindS (pdf_pages E bytes) (\<lambda>numPages.
     bindS (assertS (numPages \<le> MAX_PDF_PAGES) invalid_pdf) (\<lambda>_.
     bindS (mapS (page_text E bytes) [1..<numPages + 1]) (\<lambda>pages.
     let combined = trim (single_blanks (join [LF] pages)) in
     bindS (assertS (combined \<noteq> []) native_text_unavailable) (\<lambda>_.
     Inr combined))))"

fun check_sizes :: "nat \<Rightarrow> zip_file list \<Rightarrow> err + unit" where
  "check_sizes n [] = Inr ()"
| "check_sizes n (f # fs) =
     (if zf_dir f then check_sizes n fs
      else let n' = n + (case zf_uncompressedSize f of None \<Rightarrow> 0 | Some k \<Rightarrow> k) in
           if n' > MAX_DOCX_UNCOMPRESSED_BYTES then Inl invalid_docx else check_sizes n' fs)"

text \<open>\<open>/<w:p[\s>]/g\<close> and \<open>/\n+/g\<close>.\<close>

function mark_paragraphs :: "string \<Rightarrow> string" where
  "mark_paragraphs [] = []"
| "mark_paragraphs (c # s) =
     (if starts_with (c # s) ''<w:p'' \<and> (case drop 3 s of [] \<Rightarrow> False | d # _ \<Rightarrow> is_js_space d \<or> d = CHR ''>'')
      then LF # ''<w:p '' @ mark_paragraphs (drop 4 s) else c # mark_paragraphs s)"
  by pat_completeness auto
termination by (relation "measure length") auto

function single_newlines :: "string \<Rightarrow> string" where
  "single_newlines [] = []"
| "single_newlines (c # s) =
     (if c = LF then LF # single_newlines (dropWhile (\<lambda>d. d = LF) s) else c # single_newlines s)"
  by pat_completeness auto
termination by (relation "measure length") (auto simp: le_imp_less_Suc length_dropWhile_le)

definition docx_text :: "string \<Rightarrow> string" where
  "docx_text xml =
     (let a = mark_paragraphs xml;
          b = replace_all ''<w:tab/>'' [CHR 0x09] a;
          c = replace_tags '''' b;
          d = replace_all ''&amp;'' ''&'' c;
          e = replace_all ''&lt;'' ''<'' d;
          f = replace_all ''&gt;'' ''>'' e
      in trim (single_newlines f))"

definition extractDocx :: "'a knowledge_env_scheme \<Rightarrow> byte list \<Rightarrow> err + string" where
  "extractDocx E bytes =
     bindS (zip_load E bytes) (\<lambda>zip_files.
     bindS (assertS (length zip_files \<le> MAX_DOCX_FILES) invalid_docx) (\<lambda>_.
     bindS (check_sizes 0 zip_files) (\<lambda>_.
     case find (\<lambda>f. zf_name f = ''word/document.xml'') zip_files of
       None \<Rightarrow> Inl native_text_unavailable
     | Some doc \<Rightarrow>
         bindS (zf_text doc) (\<lambda>xml.
         let body = docx_text xml in
         bindS (assertS (body \<noteq> []) native_text_unavailable) (\<lambda>_. Inr body)))))"

definition extractText :: "'a knowledge_env_scheme \<Rightarrow> string \<Rightarrow> byte list \<Rightarrow> err + string" where
  "extractText E mime bytes =
     (if mime = PLAIN_MIME \<or> mime = MARKDOWN_MIME then Inr (decode_utf8 E bytes)
      else if mime = HTML_MIME then Inr (stripHtml (decode_utf8 E bytes))
      else if mime = PDF_MIME then withTimeout E bytes (extractPdf E bytes)
      else if mime = DOCX_MIME then withTimeout E bytes (extractDocx E bytes)
      else Inl (knowledge_error ''UNSUPPORTED_TYPE''))"

subsection \<open>Embedding providers\<close>

datatype embedding_provider =
    MockEmbeddingProvider
  | OpenAICompatibleEmbeddingProvider string string "string option"

definition PRODUCTION_EMBEDDING_DIMENSIONS :: nat where
  "PRODUCTION_EMBEDDING_DIMENSIONS = EMBEDDING_DIM"

fun provider_key :: "embedding_provider \<Rightarrow> string" where
  "provider_key MockEmbeddingProvider = ''mock''"
| "provider_key (OpenAICompatibleEmbeddingProvider url model apiKey) = ''openai-compatible:'' @ model"

text \<open>The constructor refuses any other number of dimensions, so that every provider has this one.\<close>

fun provider_dimensions :: "embedding_provider \<Rightarrow> nat" where
  "provider_dimensions MockEmbeddingProvider = PRODUCTION_EMBEDDING_DIMENSIONS"
| "provider_dimensions (OpenAICompatibleEmbeddingProvider url model apiKey) = PRODUCTION_EMBEDDING_DIMENSIONS"

definition openai_compatible_provider ::
    "string \<Rightarrow> string \<Rightarrow> double option \<Rightarrow> string option \<Rightarrow> err + embedding_provider" where
  "openai_compatible_provider url model dimensions apiKey =
     (if \<not> (case dimensions of None \<Rightarrow> False
            | Some d \<Rightarrow> d_eq d (double_of_int (int PRODUCTION_EMBEDDING_DIMENSIONS)))
      then Inl (PlainError ''V0.1 pgvector slot is vector(768)'')
      else Inr (OpenAICompatibleEmbeddingProvider url model apiKey))"

text \<open>\<open>row.embedding ?? []\<close> as a vector; the length of a value that is no array or string is undefined.\<close>

definition vector_value :: "'a knowledge_env_scheme \<Rightarrow> json \<Rightarrow> double option" where
  "vector_value E v = (case v of JNum i \<Rightarrow> Some (double_of_int i) | JFrac t \<Rightarrow> number_value E t | _ \<Rightarrow> None)"

definition reply_vector :: "'a knowledge_env_scheme \<Rightarrow> json \<Rightarrow> err + double option list option" where
  "reply_vector E row =
     bindS (js_get ''embedding'' row) (\<lambda>v.
     Inr (case or_else v (JArr []) of
            JArr vs \<Rightarrow> Some (map (vector_value E) vs)
          | JStr s \<Rightarrow> Some (map (\<lambda>_. None) s)
          | _ \<Rightarrow> None))"

definition check_vector :: "nat \<Rightarrow> double option list option \<Rightarrow> err + double option list" where
  "check_vector dimensions v =
     (case v of
        Some xs \<Rightarrow> if length xs = dimensions then Inr xs else Inl (PlainError ''embedding dimension mismatch'')
      | None \<Rightarrow> Inl (PlainError ''embedding dimension mismatch''))"

definition reply_vectors :: "'a knowledge_env_scheme \<Rightarrow> nat \<Rightarrow> nat \<Rightarrow> json \<Rightarrow> err + double option list list" where
  "reply_vectors E dimensions n body =
     bindS (js_get ''data'' body) (\<lambda>d.
     case or_else d (JArr []) of
       JArr rows \<Rightarrow>
         bindS (mapS (reply_vector E) rows) (\<lambda>vectors.
         bindS (assertS (length vectors = n) (PlainError ''embedding provider returned unexpected count'')) (\<lambda>_.
         mapS (check_vector dimensions) vectors))
     | _ \<Rightarrow> Inl type_error)"

definition bearer :: "string option \<Rightarrow> (string \<times> string) list" where
  "bearer apiKey = (case apiKey of
     Some k \<Rightarrow> if k = '''' then [] else [(''authorization'', ''Bearer '' @ k)] | None \<Rightarrow> [])"

definition embed_reply :: "'a knowledge_env_scheme \<Rightarrow> nat \<Rightarrow> reply \<Rightarrow> err + double option list list" where
  "embed_reply E n r =
     (case r of
        Reply status content \<Rightarrow>
          if \<not> reply_ok status then Inl (PlainError ''embedding provider HTTP'')
          else (case content of
              JsonBody v \<Rightarrow> reply_vectors E PRODUCTION_EMBEDDING_DIMENSIONS n v
            | _ \<Rightarrow> Inl (PlainError ''SyntaxError''))
      | Aborted \<Rightarrow> Inl type_error
      | TransportFailed \<Rightarrow> Inl type_error)"

definition embed_request :: "string \<Rightarrow> string \<Rightarrow> string option \<Rightarrow> string list \<Rightarrow> http_request" where
  "embed_request url model apiKey texts =
     \<lparr>rq_method = ''POST'', rq_url = url,
      rq_headers = (''content-type'', ''application/json'') # bearer apiKey,
      rq_body = Some (stringify (JObj [(''model'', JStr model), (''input'', JArr (map JStr texts))]))\<rparr>"

fun embed :: "'a knowledge_env_scheme \<Rightarrow> embedding_provider \<Rightarrow> string list \<Rightarrow>
    (err, 'w net_world_scheme, double option list list) op" where
  "embed E MockEmbeddingProvider texts = ret (map (\<lambda>t. map Some (embedText E t)) texts)"
| "embed E (OpenAICompatibleEmbeddingProvider url model apiKey) texts =
     bindE (fetchE E (embed_request url model apiKey texts)) (\<lambda>r. liftE (embed_reply E (length texts) r))"

definition embeddingProviderFromEnv :: "'a knowledge_env_scheme \<Rightarrow> err + embedding_provider" where
  "embeddingProviderFromEnv E =
     (let var = (\<lambda>k. process_env E k);
          kind = toLowerCase (trim (case var ''VERITY_EMBEDDING_PROVIDER'' of None \<Rightarrow> ''mock'' | Some s \<Rightarrow> s)) in
      if kind = ''mock'' \<or> kind = '''' then Inr MockEmbeddingProvider
      else if kind = ''openai-compatible'' then
        (let url = map_option trim (var ''VERITY_EMBEDDING_URL'');
             model = (case map_option trim (var ''VERITY_EMBEDDING_MODEL'') of
                 None \<Rightarrow> ''nomic-embed-text'' | Some m \<Rightarrow> if m = '''' then ''nomic-embed-text'' else m);
             dimensions = (case var ''VERITY_EMBEDDING_DIMENSIONS'' of
                 None \<Rightarrow> Some (double_of_int (int PRODUCTION_EMBEDDING_DIMENSIONS))
               | Some s \<Rightarrow> number_value E s);
             apiKey = (case var ''VERITY_EMBEDDING_API_KEY'' of
                 Some k \<Rightarrow> Some k | None \<Rightarrow> var ''OPENAI_COMPATIBLE_API_KEY'') in
         case url of
           None \<Rightarrow> Inl (PlainError ''VERITY_EMBEDDING_URL is required for openai-compatible embeddings'')
         | Some u \<Rightarrow>
             if u = '''' then Inl (PlainError ''VERITY_EMBEDDING_URL is required for openai-compatible embeddings'')
             else openai_compatible_provider u model dimensions apiKey)
      else Inl (PlainError ''unknown VERITY_EMBEDDING_PROVIDER''))"

lemma check_vector_Inr: "check_vector n v = Inr xs \<longleftrightarrow> v = Some xs \<and> length xs = n"
  by (auto simp: check_vector_def split: option.splits if_splits)

lemma reply_vectors_Inr:
  assumes "reply_vectors E n k v = Inr vs"
  shows "length vs = k \<and> list_all (\<lambda>v. length v = n) vs"
proof -
  from assms obtain d where d: "(case or_else d (JArr []) of
       JArr rows \<Rightarrow>
         bindS (mapS (reply_vector E) rows) (\<lambda>vectors.
         bindS (assertS (length vectors = k) (PlainError ''embedding provider returned unexpected count'')) (\<lambda>_.
         mapS (check_vector n) vectors))
     | _ \<Rightarrow> Inl type_error) = Inr vs"
    by (auto simp: reply_vectors_def)
  then obtain us where "length us = k" "mapS (check_vector n) us = Inr vs"
    by (cases "or_else d (JArr [])") auto
  then show ?thesis
    by (auto simp: mapS_Inr_iff check_vector_Inr list_all2_conv_all_nth list_all_length)
qed

lemma embed_dimensions:
  assumes "embed E p texts w = (Inr vs, w')"
  shows "length vs = length texts \<and> list_all (\<lambda>v. length v = EMBEDDING_DIM) vs"
proof (cases p)
  case MockEmbeddingProvider
  with assms show ?thesis by (auto simp: run list_all_iff)
next
  case (OpenAICompatibleEmbeddingProvider url model apiKey)
  with assms obtain r where "embed_reply E (length texts) r = Inr vs"
    by (auto simp: bindE_Inr basic_Inr)
  then show ?thesis
    by (auto simp: embed_reply_def PRODUCTION_EMBEDDING_DIMENSIONS_def dest: reply_vectors_Inr
        split: reply.splits reply_body.splits if_splits)
qed

end
