(* ===== verification/KnowledgeStore.thy ===== *)
theory KnowledgeStore
  imports SocialStore Extract
begin

text \<open>
  The tables of the schema \<open>knowledge\<close> with the constraints of \<open>db/migrations\<close> (1750000000001, and the
  tenant keys, flags and embedding columns of 1750000000002), and the files the blobs are kept in, which
  are outside the database.  The generated column \<open>tsv\<close> is a function of \<open>text\<close> and left out.
\<close>

record collection_row =
  co_id :: id
  co_organization_id :: id
  co_name :: string
  co_classification :: data_classification
  co_created_by :: id
  co_created_at :: int

record collection_permission_row =
  cp_id :: id
  cp_collection_id :: id
  cp_organization_id :: id
  cp_role_id :: id
  cp_can_read :: bool
  cp_can_manage :: bool
  cp_can_approve :: bool

record source_row =
  so_id :: id
  so_organization_id :: id
  so_collection_id :: id
  so_title :: string
  so_created_by :: id

record source_version_row =
  sv_id :: id
  sv_organization_id :: id
  sv_source_id :: id
  sv_version_number :: nat
  sv_content_hash :: string
  sv_mime_type :: string
  sv_blob_uri :: string
  sv_original_filename :: string
  sv_parser_version :: string
  sv_effective_at :: int
  sv_uploaded_by :: id
  sv_approved_by :: "id option"
  sv_approved_at :: "int option"

record chunk_row =
  ck_id :: id
  ck_organization_id :: id
  ck_source_version_id :: id
  ck_chunk_index :: nat
  ck_page_number :: "int option"
  ck_section :: "string option"
  ck_text :: string
  ck_text_hash :: string
  ck_token_count :: nat
  ck_embedding :: string
  ck_metadata :: json
  ck_embedding_provider_key :: string
  ck_embedding_dimensions :: nat

record retrieval_run_row =
  rr_id :: id
  rr_organization_id :: id
  rr_execution_id :: "id option"
  rr_actor_id :: id
  rr_query :: string
  rr_query_hash :: string
  rr_mode :: knowledge_mode
  rr_collection_ids :: "id list"
  rr_classification_ceiling :: data_classification
  rr_insufficient_evidence :: bool
  rr_embedding_provider_key :: string
  rr_embedding_dimensions :: nat

record retrieval_hit_row =
  rh_id :: id
  rh_retrieval_run_id :: id
  rh_organization_id :: id
  rh_chunk_id :: id
  rh_source_id :: id
  rh_source_version_id :: id
  rh_collection_id :: id
  rh_content_hash :: string
  rh_rank :: nat
  rh_vector_score :: double
  rh_keyword_score :: double
  rh_rerank_score :: "double option"
  rh_included_in_context :: bool
  rh_retrieved :: bool
  rh_ranked :: bool
  rh_returned_to_caller :: bool

record knowledge_world = social_world +
  collections :: "collection_row list"
  collection_permissions :: "collection_permission_row list"
  sources :: "source_row list"
  source_versions :: "source_version_row list"
  chunks :: "chunk_row list"
  retrieval_runs :: "retrieval_run_row list"
  retrieval_hits :: "retrieval_hit_row list"
  blobs :: "(string \<times> byte list) list"

text \<open>\<open>ROLLBACK\<close>: the tables come back, the files stay.\<close>

definition restore_knowledge ::
    "'w knowledge_world_scheme \<Rightarrow> 'w knowledge_world_scheme \<Rightarrow> 'w knowledge_world_scheme" where
  "restore_knowledge old new = (restore_command old new)
     \<lparr>content_items := content_items old, collections := collections old,
      collection_permissions := collection_permissions old, sources := sources old,
      source_versions := source_versions old, chunks := chunks old,
      retrieval_runs := retrieval_runs old, retrieval_hits := retrieval_hits old\<rparr>"

subsection \<open>Inserts with their constraints\<close>

definition collection_in_org :: "id \<Rightarrow> id \<Rightarrow> 'w knowledge_world_scheme \<Rightarrow> bool" where
  "collection_in_org org c w \<longleftrightarrow> (\<exists>x\<in>set (collections w). co_id x = c \<and> co_organization_id x = org)"

definition source_in_org :: "id \<Rightarrow> id \<Rightarrow> 'w knowledge_world_scheme \<Rightarrow> bool" where
  "source_in_org org s w \<longleftrightarrow> (\<exists>x\<in>set (sources w). so_id x = s \<and> so_organization_id x = org)"

definition version_in_org :: "id \<Rightarrow> id \<Rightarrow> 'w knowledge_world_scheme \<Rightarrow> bool" where
  "version_in_org org v w \<longleftrightarrow> (\<exists>x\<in>set (source_versions w). sv_id x = v \<and> sv_organization_id x = org)"

definition chunk_in_org :: "id \<Rightarrow> id \<Rightarrow> 'w knowledge_world_scheme \<Rightarrow> bool" where
  "chunk_in_org org c w \<longleftrightarrow> (\<exists>x\<in>set (chunks w). ck_id x = c \<and> ck_organization_id x = org)"

definition run_in_org :: "id \<Rightarrow> id \<Rightarrow> 'w knowledge_world_scheme \<Rightarrow> bool" where
  "run_in_org org r w \<longleftrightarrow> (\<exists>x\<in>set (retrieval_runs w). rr_id x = r \<and> rr_organization_id x = org)"

definition insert_collection :: "collection_row \<Rightarrow> (err, 'w knowledge_world_scheme, unit) op" where
  "insert_collection row =
     bindE (constraintE (\<lambda>w. \<forall>r\<in>set (collections w). co_id r \<noteq> co_id row) unique_violation) (\<lambda>_.
     bindE (constraintE (\<lambda>w. org_exists (co_organization_id row) w \<and> user_exists (co_created_by row) w)
       foreign_key_violation) (\<lambda>_.
     modifyE (\<lambda>w. w\<lparr>collections := collections w @ [row]\<rparr>)))"

definition insert_collection_permission ::
    "collection_permission_row \<Rightarrow> (err, 'w knowledge_world_scheme, unit) op" where
  "insert_collection_permission row =
     bindE (constraintE (\<lambda>w. \<forall>r\<in>set (collection_permissions w). cp_id r \<noteq> cp_id row \<and>
         \<not> (cp_collection_id r = cp_collection_id row \<and> cp_role_id r = cp_role_id row)) unique_violation) (\<lambda>_.
     bindE (constraintE (\<lambda>w. collection_in_org (cp_organization_id row) (cp_collection_id row) w \<and>
         role_in_org (cp_organization_id row) (cp_role_id row) w) foreign_key_violation) (\<lambda>_.
     modifyE (\<lambda>w. w\<lparr>collection_permissions := collection_permissions w @ [row]\<rparr>)))"

definition insert_source :: "source_row \<Rightarrow> (err, 'w knowledge_world_scheme, unit) op" where
  "insert_source row =
     bindE (constraintE (\<lambda>w. \<forall>r\<in>set (sources w). so_id r \<noteq> so_id row) unique_violation) (\<lambda>_.
     bindE (constraintE (\<lambda>w. collection_in_org (so_organization_id row) (so_collection_id row) w \<and>
         user_exists (so_created_by row) w) foreign_key_violation) (\<lambda>_.
     modifyE (\<lambda>w. w\<lparr>sources := sources w @ [row]\<rparr>)))"

definition insert_source_version :: "source_version_row \<Rightarrow> (err, 'w knowledge_world_scheme, unit) op" where
  "insert_source_version row =
     bindE (requireE (0 < sv_version_number row) check_violation) (\<lambda>_.
     bindE (constraintE (\<lambda>w. \<forall>r\<in>set (source_versions w). sv_id r \<noteq> sv_id row \<and>
         \<not> (sv_source_id r = sv_source_id row \<and> (sv_version_number r = sv_version_number row \<or>
            sv_content_hash r = sv_content_hash row))) unique_violation) (\<lambda>_.
     bindE (constraintE (\<lambda>w. source_in_org (sv_organization_id row) (sv_source_id row) w \<and>
         user_exists (sv_uploaded_by row) w) foreign_key_violation) (\<lambda>_.
     modifyE (\<lambda>w. w\<lparr>source_versions := source_versions w @ [row]\<rparr>))))"

definition insert_chunk :: "chunk_row \<Rightarrow> (err, 'w knowledge_world_scheme, unit) op" where
  "insert_chunk row =
     bindE (requireE (ck_embedding_dimensions row = 768) check_violation) (\<lambda>_.
     bindE (constraintE (\<lambda>w. \<forall>r\<in>set (chunks w). ck_id r \<noteq> ck_id row \<and>
         \<not> (ck_source_version_id r = ck_source_version_id row \<and> ck_chunk_index r = ck_chunk_index row))
       unique_violation) (\<lambda>_.
     bindE (constraintE (version_in_org (ck_organization_id row) (ck_source_version_id row))
       foreign_key_violation) (\<lambda>_.
     modifyE (\<lambda>w. w\<lparr>chunks := chunks w @ [row]\<rparr>))))"

definition insert_retrieval_run :: "retrieval_run_row \<Rightarrow> (err, 'w knowledge_world_scheme, unit) op" where
  "insert_retrieval_run row =
     bindE (constraintE (\<lambda>w. \<forall>r\<in>set (retrieval_runs w). rr_id r \<noteq> rr_id row) unique_violation) (\<lambda>_.
     bindE (constraintE (\<lambda>w. org_exists (rr_organization_id row) w \<and> user_exists (rr_actor_id row) w)
       foreign_key_violation) (\<lambda>_.
     modifyE (\<lambda>w. w\<lparr>retrieval_runs := retrieval_runs w @ [row]\<rparr>)))"

definition insert_retrieval_hit :: "retrieval_hit_row \<Rightarrow> (err, 'w knowledge_world_scheme, unit) op" where
  "insert_retrieval_hit row =
     bindE (constraintE (\<lambda>w. \<forall>r\<in>set (retrieval_hits w). rh_id r \<noteq> rh_id row) unique_violation) (\<lambda>_.
     bindE (constraintE (\<lambda>w. let org = rh_organization_id row in
         run_in_org org (rh_retrieval_run_id row) w \<and> chunk_in_org org (rh_chunk_id row) w \<and>
         source_in_org org (rh_source_id row) w \<and> version_in_org org (rh_source_version_id row) w \<and>
         collection_in_org org (rh_collection_id row) w) foreign_key_violation) (\<lambda>_.
     modifyE (\<lambda>w. w\<lparr>retrieval_hits := retrieval_hits w @ [row]\<rparr>)))"

text \<open>A chunk a hit points to cannot be deleted.\<close>

definition delete_chunks :: "(chunk_row \<Rightarrow> bool) \<Rightarrow> (err, 'w knowledge_world_scheme, unit) op" where
  "delete_chunks sel =
     bindE (constraintE (\<lambda>w. \<forall>c\<in>set (chunks w). sel c \<longrightarrow>
         (\<forall>h\<in>set (retrieval_hits w). \<not> (rh_chunk_id h = ck_id c \<and> rh_organization_id h = ck_organization_id c)))
       foreign_key_violation) (\<lambda>_.
     modifyE (\<lambda>w. w\<lparr>chunks := filter (\<lambda>c. \<not> sel c) (chunks w)\<rparr>))"

definition delete_hits :: "(retrieval_hit_row \<Rightarrow> bool) \<Rightarrow> (err, 'w knowledge_world_scheme, unit) op" where
  "delete_hits sel = modifyE (\<lambda>w. w\<lparr>retrieval_hits := filter (\<lambda>h. \<not> sel h) (retrieval_hits w)\<rparr>)"

subsection \<open>The invariant of the tables\<close>

text \<open>
  Keys are unique; what refers to another row refers to one of its own organization: a permission to a
  collection, a source to a collection, a version to a source, a chunk to a version, a hit to its run,
  chunk, source, version and collection; every embedding has the dimension of the vector column.
\<close>

definition knowledge_inv :: "'w knowledge_world_scheme \<Rightarrow> bool" where
  "knowledge_inv w \<longleftrightarrow>
     distinct (map co_id (collections w)) \<and> distinct (map so_id (sources w)) \<and>
     distinct (map sv_id (source_versions w)) \<and> distinct (map ck_id (chunks w)) \<and>
     distinct (map rr_id (retrieval_runs w)) \<and>
     distinct (map (\<lambda>p. (cp_collection_id p, cp_role_id p)) (collection_permissions w)) \<and>
     distinct (map (\<lambda>v. (sv_source_id v, sv_version_number v)) (source_versions w)) \<and>
     distinct (map (\<lambda>c. (ck_source_version_id c, ck_chunk_index c)) (chunks w)) \<and>
     (\<forall>p\<in>set (collection_permissions w). collection_in_org (cp_organization_id p) (cp_collection_id p) w) \<and>
     (\<forall>s\<in>set (sources w). collection_in_org (so_organization_id s) (so_collection_id s) w) \<and>
     (\<forall>v\<in>set (source_versions w). source_in_org (sv_organization_id v) (sv_source_id v) w) \<and>
     (\<forall>c\<in>set (chunks w). version_in_org (ck_organization_id c) (ck_source_version_id c) w \<and>
        ck_embedding_dimensions c = 768) \<and>
     (\<forall>h\<in>set (retrieval_hits w). run_in_org (rh_organization_id h) (rh_retrieval_run_id h) w \<and>
        chunk_in_org (rh_organization_id h) (rh_chunk_id h) w \<and>
        source_in_org (rh_organization_id h) (rh_source_id h) w \<and>
        version_in_org (rh_organization_id h) (rh_source_version_id h) w \<and>
        collection_in_org (rh_organization_id h) (rh_collection_id h) w)"

lemmas in_org_defs =
  collection_in_org_def source_in_org_def version_in_org_def chunk_in_org_def run_in_org_def

definition same_knowledge :: "'w knowledge_world_scheme \<Rightarrow> 'w knowledge_world_scheme \<Rightarrow> bool" where
  "same_knowledge w w' \<longleftrightarrow> collections w' = collections w \<and>
     collection_permissions w' = collection_permissions w \<and> sources w' = sources w \<and>
     source_versions w' = source_versions w \<and> chunks w' = chunks w \<and>
     retrieval_runs w' = retrieval_runs w \<and> retrieval_hits w' = retrieval_hits w"

lemma knowledge_inv_same: "same_knowledge w w' \<Longrightarrow> knowledge_inv w' \<longleftrightarrow> knowledge_inv w"
  by (simp add: same_knowledge_def knowledge_inv_def in_org_defs)

lemma restore_knowledge_same [simp]: "same_knowledge w (restore_knowledge w u)"
  by (simp add: same_knowledge_def restore_knowledge_def)

lemma restore_knowledge_inv: "knowledge_inv w \<Longrightarrow> knowledge_inv (restore_knowledge w u)"
  by (simp add: knowledge_inv_same [of w])

lemma knowledge_inv_draws [simp]: "knowledge_inv (w\<lparr>draws := n\<rparr>) = knowledge_inv w"
  by (rule knowledge_inv_same) (simp add: same_knowledge_def)

lemma pres_draw_knowledge [pres]: "preserves knowledge_inv (drawE f)"
  by (simp add: preserves_def drawE_def)

lemma pres_now_knowledge [pres]: "preserves knowledge_inv (nowE E)"
  by (simp add: nowE_def pres_draw_knowledge)

lemma pres_fetch_knowledge [pres]: "preserves knowledge_inv (fetchE E q)"
  by (simp add: preserves_def fetchE_def knowledge_inv_def in_org_defs)

lemma pres_knowledge_inserts [pres]:
  "preserves knowledge_inv (insert_collection c)"
  "preserves knowledge_inv (insert_collection_permission p)"
  "preserves knowledge_inv (insert_source s)"
  "preserves knowledge_inv (insert_source_version v)"
  "preserves knowledge_inv (insert_chunk k)"
  "preserves knowledge_inv (insert_retrieval_run r)"
  "preserves knowledge_inv (insert_retrieval_hit h)"
        apply (auto simp: preserves_def insert_collection_def run knowledge_inv_def in_org_defs) [1]
       apply (auto simp: preserves_def insert_collection_permission_def run knowledge_inv_def in_org_defs) [1]
      apply (auto simp: preserves_def insert_source_def run knowledge_inv_def in_org_defs) [1]
     apply (auto simp: preserves_def insert_source_version_def run knowledge_inv_def in_org_defs) [1]
    apply (auto simp: preserves_def insert_chunk_def run knowledge_inv_def in_org_defs) [1]
   apply (auto simp: preserves_def insert_retrieval_run_def run knowledge_inv_def in_org_defs) [1]
  apply (auto simp: preserves_def insert_retrieval_hit_def run knowledge_inv_def in_org_defs Let_def) [1]
  done

end
