(* ===== verification/ModelRouter.thy ===== *)
theory ModelRouter
  imports Http
begin

text \<open>
  \<open>packages/model-router/src/index.ts\<close>: the registry of models, the routing decision, and the adapters
  that call a provider.  \<open>localeCompare\<close> is a parameter (it is the collation of the platform); the
  results need no property of it.
\<close>

subsection \<open>The registry\<close>

fun DEPLOY_RANK :: "deployment_type \<Rightarrow> nat" where
  "DEPLOY_RANK Local = 0"
| "DEPLOY_RANK Private = 1"
| "DEPLOY_RANK Cloud = 2"

definition listModels :: "id \<Rightarrow> (err, 'w command_world_scheme, model_row list) op" where
  "listModels org = getsE (\<lambda>w.
     sort_key md_model_key (filter (\<lambda>m. md_organization_id m = org) (models w)))"

definition getModel :: "id \<Rightarrow> id \<Rightarrow> (err, 'w command_world_scheme, model_row option) op" where
  "getModel org modelId =
     bindE (listModels org) (\<lambda>rows. ret (find (\<lambda>m. md_id m = modelId) rows))"

text \<open>\<open>input.id ?? randomUUID()\<close>; the identifier of the given row is ignored.\<close>

definition registerModel ::
    "'a env_scheme \<Rightarrow> id option \<Rightarrow> model_row \<Rightarrow> (err, 'w command_world_scheme, id) op" where
  "registerModel E given input =
     bindE (case given of Some i \<Rightarrow> ret i | None \<Rightarrow> drawE (randomUUID E)) (\<lambda>i.
     bindE (nowE E) (\<lambda>now.
     bindE (insert_model (input\<lparr>md_id := i, md_created_at := now\<rparr>)) (\<lambda>_.
     ret i)))"

subsection \<open>Routing\<close>

record model_route_request =
  mq_execution_id :: id
  mq_task :: string
  mq_risk_tier :: risk_tier
  mq_data_classification :: data_classification
  mq_required_capabilities :: "string list"
  mq_prefer_local :: bool

record model_route_result =
  mo_model_id :: "id option"
  mo_provider :: "model_provider option"
  mo_deployment_type :: "deployment_type option"
  mo_policy_version :: "string option"
  mo_selection_reason_code :: string

record route_input =
  ri_organizationId :: id
  ri_actorId :: id
  ri_roleId :: id
  ri_request :: model_route_request

definition route_action :: "route_input \<Rightarrow> policy_action \<Rightarrow> evaluate_input" where
  "route_action input action = \<lparr>ei_organizationId = ri_organizationId input,
     ei_actorId = ri_actorId input, ei_roleId = ri_roleId input, ei_action = action\<rparr>"

definition no_model :: "string option \<Rightarrow> string \<Rightarrow> model_route_result" where
  "no_model version reason = \<lparr>mo_model_id = None, mo_provider = None, mo_deployment_type = None,
     mo_policy_version = version, mo_selection_reason_code = reason\<rparr>"

text \<open>The guards of the loop that need no policy.\<close>

definition model_fits :: "model_route_request \<Rightarrow> bool \<Rightarrow> model_row \<Rightarrow> bool" where
  "model_fits q localRequired model \<longleftrightarrow>
     mq_data_classification q \<in> set (md_allowed_data_classes model) \<and>
     \<not> RISK_RANK (mq_risk_tier q) > RISK_RANK (md_risk_ceiling model) \<and>
     \<not> list_ex (\<lambda>c. c \<notin> set (md_capabilities model)) (mq_required_capabilities q) \<and>
     \<not> (localRequired \<and> md_deployment_type model \<noteq> Local)"

definition cloud_action :: "model_route_request \<Rightarrow> model_row \<Rightarrow> policy_action" where
  "cloud_action q model =
     ModelProcess (mq_data_classification q) Cloud (md_risk_ceiling model) (mq_risk_tier q)"

primrec eligible_models :: "'a env_scheme \<Rightarrow> route_input \<Rightarrow> bool \<Rightarrow> model_row list \<Rightarrow>
    (err, 'w command_world_scheme, model_row list) op" where
  "eligible_models E input localRequired [] = ret []"
| "eligible_models E input localRequired (model # rest) =
     (if \<not> model_fits (ri_request input) localRequired model
      then eligible_models E input localRequired rest
      else
        bindE (if md_deployment_type model = Cloud
               then bindE (evaluatePolicy E (route_action input (cloud_action (ri_request input) model)))
                      (\<lambda>d. ret (pd_decision d \<noteq> Deny))
               else ret True) (\<lambda>ok.
        bindE (eligible_models E input localRequired rest) (\<lambda>more.
        ret (if ok then model # more else more))))"

text \<open>\<open>eligible.sort(...)\<close>: a stable sort by deployment and then by the collation of the keys
  (any stable sort gives the same list when the comparison is a total preorder).\<close>

definition model_before :: "'a net_env_scheme \<Rightarrow> model_row \<Rightarrow> model_row \<Rightarrow> bool" where
  "model_before E a b \<longleftrightarrow>
     (let d = int (DEPLOY_RANK (md_deployment_type a)) - int (DEPLOY_RANK (md_deployment_type b)) in
      if d \<noteq> 0 then d < 0 else localeCompare E (md_model_key a) (md_model_key b) \<le> 0)"

primrec insert_before :: "('b \<Rightarrow> 'b \<Rightarrow> bool) \<Rightarrow> 'b \<Rightarrow> 'b list \<Rightarrow> 'b list" where
  "insert_before le x [] = [x]"
| "insert_before le x (y # ys) = (if le x y then x # y # ys else y # insert_before le x ys)"

definition sort_before :: "('b \<Rightarrow> 'b \<Rightarrow> bool) \<Rightarrow> 'b list \<Rightarrow> 'b list" where
  "sort_before le xs = foldr (insert_before le) xs []"

definition is_local :: "model_row \<Rightarrow> bool" where
  "is_local m \<longleftrightarrow> md_deployment_type m = Local"

text \<open>The last part of \<open>routeModel\<close>: the choice among the eligible models.\<close>

definition choose_model ::
    "string option \<Rightarrow> route_input \<Rightarrow> bool \<Rightarrow> model_row list \<Rightarrow> model_row list \<Rightarrow> model_route_result" where
  "choose_model version input localRequired candidates eligible =
     (case eligible of
        [] \<Rightarrow>
          no_model version
            (if list_ex (\<lambda>m. RISK_RANK (mq_risk_tier (ri_request input)) > RISK_RANK (md_risk_ceiling m)) candidates
                \<and> candidates \<noteq> []
             then ''MODEL_RISK_CEILING_EXCEEDED'' else ''NO_ALLOWED_MODEL'')
      | first # _ \<Rightarrow>
          let local = (case find is_local eligible of Some m \<Rightarrow> m | None \<Rightarrow> first);
              (chosen, reason) =
                (if localRequired then (local, ''LOCAL_REQUIRED_CLASSIFICATION'')
                 else if mq_prefer_local (ri_request input) \<and> list_ex is_local eligible
                 then (local, ''LOCAL_PREFERRED_AVAILABLE'')
                 else if md_deployment_type first = Private then (first, ''PRIVATE_REQUIRED_POLICY'')
                 else if md_deployment_type first = Cloud then (first, ''CLOUD_ALLOWED_FALLBACK'')
                 else (first, ''MODEL_CAPABILITY_MATCH'')) in
          \<lparr>mo_model_id = Some (md_id chosen), mo_provider = Some (md_provider chosen),
           mo_deployment_type = Some (md_deployment_type chosen), mo_policy_version = version,
           mo_selection_reason_code = reason\<rparr>)"

definition routeModel ::
    "'a net_env_scheme \<Rightarrow> route_input \<Rightarrow> (err, 'w command_world_scheme, model_route_result) op" where
  "routeModel E input =
     (let q = ri_request input in
      bindE (evaluatePolicy E (route_action input
        (SkillUse ''models.route'' (mq_data_classification q) (mq_risk_tier q)))) (\<lambda>policy.
      if pd_decision policy = Deny
      then ret (no_model (pd_policy_version policy) (pd_reason_code policy))
      else
        bindE (listModels (ri_organizationId input)) (\<lambda>rows.
        let candidates = filter md_enabled rows in
        bindE (evaluatePolicy E (route_action input (LeaveDevice (mq_data_classification q)))) (\<lambda>leave.
        let localRequired = (pd_decision leave = Deny \<or>
              CLASSIFICATION_RANK (mq_data_classification q) \<ge> CLASSIFICATION_RANK Confidential) in
        bindE (eligible_models E input localRequired candidates) (\<lambda>eligible.
        ret (choose_model (pd_policy_version policy) input localRequired candidates
          (sort_before (model_before E) eligible)))))))"

subsection \<open>Adapters\<close>

record completion_request =
  cq_model :: model_row
  cq_prompt :: string
  cq_executionId :: id

text \<open>The text of a provider is the JSON value it sent; the type \<open>string\<close> is not checked by the code.\<close>

record completion_result =
  cr_text :: json
  cr_provider :: model_provider
  cr_input_tokens :: nat
  cr_output_tokens :: nat

datatype model_adapter =
    MockAdapter
  | OpenAIAdapter string
  | AnthropicAdapter string
  | OpenAICompatibleAdapter "string option"

definition postJson :: "'a net_env_scheme \<Rightarrow> string \<Rightarrow> (string \<times> string) list \<Rightarrow> json \<Rightarrow>
    (err, 'w net_world_scheme, json) op" where
  "postJson E url headers body =
     bindE (fetchE E \<lparr>rq_method = ''POST'', rq_url = url,
       rq_headers = (''content-type'', ''application/json'') # headers, rq_body = Some (stringify body)\<rparr>) (\<lambda>r.
     case r of
       Reply status content \<Rightarrow>
         if \<not> reply_ok status then throw (PlainError (''provider_error:'' @ show_int status))
         else (case content of JsonBody v \<Rightarrow> ret v | _ \<Rightarrow> throw (PlainError ''SyntaxError''))
     | Aborted \<Rightarrow> throw type_error
     | TransportFailed \<Rightarrow> throw type_error)"

definition user_message :: "completion_request \<Rightarrow> json" where
  "user_message q = JArr [JObj [(''role'', JStr ''user''), (''content'', JStr (cq_prompt q))]]"

definition endpoint_or :: "string \<Rightarrow> completion_request \<Rightarrow> string" where
  "endpoint_or url q = (case md_endpoint (cq_model q) of Some e \<Rightarrow> e | None \<Rightarrow> url)"

definition completion :: "model_provider \<Rightarrow> json \<Rightarrow> completion_result" where
  "completion p text = \<lparr>cr_text = text, cr_provider = p, cr_input_tokens = 0, cr_output_tokens = 0\<rparr>"

text \<open>\<open>json.choices[0]?.message.content ?? ""\<close>.\<close>

definition openai_text :: "json \<Rightarrow> err + json" where
  "openai_text v =
     bindS (js_get ''choices'' v) (\<lambda>choices.
     bindS (js_first choices) (\<lambda>choice.
     if nullish choice then Inr (JStr '''')
     else bindS (js_get ''message'' choice) (\<lambda>message.
          bindS (js_get ''content'' message) (\<lambda>content.
          Inr (or_else content (JStr ''''))))))"

text \<open>\<open>json.content.map((c) => c.text ?? "").join("")\<close>.\<close>

definition anthropic_text :: "json \<Rightarrow> err + json" where
  "anthropic_text v =
     bindS (js_get ''content'' v) (\<lambda>content.
     case content of
       JArr cs \<Rightarrow>
         bindS (mapS (\<lambda>c. bindS (js_get ''text'' c) (\<lambda>t. Inr (js_string (or_else t (JStr ''''))))) cs) (\<lambda>ts.
         Inr (JStr (concat ts)))
     | _ \<Rightarrow> Inl type_error)"

text \<open>\<open>json.choices[0]?.message?.content ?? json.choices[0]?.text ?? ""\<close>.\<close>

definition compatible_text :: "json \<Rightarrow> err + json" where
  "compatible_text v =
     bindS (js_get ''choices'' v) (\<lambda>choices.
     bindS (js_first choices) (\<lambda>choice.
     Inr (or_else (js_opt_get ''content'' (js_opt_get ''message'' choice))
       (or_else (js_opt_get ''text'' choice) (JStr '''')))))"

definition mock_text :: "completion_request \<Rightarrow> string" where
  "mock_text q = ''mock:'' @ md_model_key (cq_model q) @ '':'' @ take 80 (cq_prompt q)"

fun complete :: "'a net_env_scheme \<Rightarrow> model_adapter \<Rightarrow> completion_request \<Rightarrow>
    (err, 'w net_world_scheme, completion_result) op" where
  "complete E MockAdapter q =
     ret \<lparr>cr_text = JStr (mock_text q), cr_provider = MockProvider, cr_input_tokens = length (cq_prompt q),
       cr_output_tokens = length (mock_text q)\<rparr>"
| "complete E (OpenAIAdapter apiKey) q =
     bindE (postJson E (endpoint_or ''https://api.openai.com/v1/chat/completions'' q)
       [(''authorization'', ''Bearer '' @ apiKey)]
       (JObj [(''model'', JStr (md_model_key (cq_model q))), (''messages'', user_message q)])) (\<lambda>v.
     bindE (liftE (openai_text v)) (\<lambda>text. ret (completion OpenAI text)))"
| "complete E (AnthropicAdapter apiKey) q =
     bindE (postJson E (endpoint_or ''https://api.anthropic.com/v1/messages'' q)
       [(''x-api-key'', apiKey), (''anthropic-version'', ''2023-06-01'')]
       (JObj [(''model'', JStr (md_model_key (cq_model q))), (''max_tokens'', JNum 256),
         (''messages'', user_message q)])) (\<lambda>v.
     bindE (liftE (anthropic_text v)) (\<lambda>text. ret (completion Anthropic text)))"
| "complete E (OpenAICompatibleAdapter apiKey) q =
     (case md_endpoint (cq_model q) of
        None \<Rightarrow> throw (PlainError ''openai-compatible adapter requires endpoint'')
      | Some endpoint \<Rightarrow>
          if endpoint = '''' then throw (PlainError ''openai-compatible adapter requires endpoint'')
          else
            bindE (postJson E endpoint
              (case apiKey of
                 Some k \<Rightarrow> if k = '''' then [] else [(''authorization'', ''Bearer '' @ k)]
               | None \<Rightarrow> [])
              (JObj [(''model'', JStr (md_model_key (cq_model q))), (''messages'', user_message q)])) (\<lambda>v.
            bindE (liftE (compatible_text v)) (\<lambda>text. ret (completion OpenAICompatible text))))"

record model_secrets =
  ms_openai :: "string option"
  ms_anthropic :: "string option"
  ms_compatible :: "string option"

fun adapterFor :: "model_provider \<Rightarrow> model_secrets \<Rightarrow> err + model_adapter" where
  "adapterFor MockProvider s = Inr MockAdapter"
| "adapterFor OpenAI s =
     (case ms_openai s of
        Some k \<Rightarrow> if k = '''' then Inl (PlainError ''OPENAI_API_KEY is not configured'') else Inr (OpenAIAdapter k)
      | None \<Rightarrow> Inl (PlainError ''OPENAI_API_KEY is not configured''))"
| "adapterFor Anthropic s =
     (case ms_anthropic s of
        Some k \<Rightarrow> if k = '''' then Inl (PlainError ''ANTHROPIC_API_KEY is not configured'') else Inr (AnthropicAdapter k)
      | None \<Rightarrow> Inl (PlainError ''ANTHROPIC_API_KEY is not configured''))"
| "adapterFor OpenAICompatible s = Inr (OpenAICompatibleAdapter (ms_compatible s))"

subsection \<open>What the router selects\<close>

lemma verdicts_draws [simp]:
  "active_bindings org applies (w\<lparr>draws := n\<rparr>) = active_bindings org applies w"
  "skill_grants org skill role (w\<lparr>draws := n\<rparr>) = skill_grants org skill role w"
  "connector_verdict ref org key c (w\<lparr>draws := n\<rparr>) = connector_verdict ref org key c w"
  by (simp_all add: active_bindings_def skill_grants_def connector_verdict_def cong: if_cong)

lemma policy_verdict_draws [simp]: "policy_verdict i (w\<lparr>draws := n\<rparr>) = policy_verdict i w"
proof -
  have "approval_verdict ref org actor role a (w\<lparr>draws := n\<rparr>) = approval_verdict ref org actor role a w"
    "skill_verdict ref org role skill c r (w\<lparr>draws := n\<rparr>) = skill_verdict ref org role skill c r w"
    for ref org actor role a skill c r
    by (simp_all add: approval_verdict_def skill_verdict_def cong: if_cong)
  then show ?thesis
    by (cases "ei_action i")
      (auto simp: policy_verdict_def loadActivePolicy_def Let_def intro!: option.case_cong)
qed

definition decided_value :: "route_input \<Rightarrow> policy_action \<Rightarrow> 'w command_world_scheme \<Rightarrow> policy_decision_value" where
  "decided_value input action w = verdict_value (policy_verdict (route_action input action) w)"

lemma evaluate_run:
  "\<exists>d. evaluatePolicy E (route_action input action) (w\<lparr>draws := n\<rparr>) = (Inr d, w\<lparr>draws := Suc n\<rparr>) \<and>
     pd_decision d = decided_value input action w"
  using evaluatePolicy_value [of E "route_action input action" "w\<lparr>draws := n\<rparr>"]
  by (auto simp: decided_value_def)

definition local_required :: "route_input \<Rightarrow> 'w command_world_scheme \<Rightarrow> bool" where
  "local_required input w \<longleftrightarrow>
     decided_value input (LeaveDevice (mq_data_classification (ri_request input))) w = Deny \<or>
     Confidential \<le> mq_data_classification (ri_request input)"

text \<open>The models the request may run on, from the tables.\<close>

definition routable :: "route_input \<Rightarrow> 'w command_world_scheme \<Rightarrow> model_row \<Rightarrow> bool" where
  "routable input w m \<longleftrightarrow>
     (let q = ri_request input in
      m \<in> set (models w) \<and> md_organization_id m = ri_organizationId input \<and> md_enabled m \<and>
      mq_data_classification q \<in> set (md_allowed_data_classes m) \<and>
      mq_risk_tier q \<le> md_risk_ceiling m \<and>
      set (mq_required_capabilities q) \<subseteq> set (md_capabilities m) \<and>
      (local_required input w \<longrightarrow> md_deployment_type m = Local) \<and>
      (md_deployment_type m = Cloud \<longrightarrow> decided_value input (cloud_action q m) w \<noteq> Deny))"

definition passes :: "route_input \<Rightarrow> bool \<Rightarrow> 'w command_world_scheme \<Rightarrow> model_row \<Rightarrow> bool" where
  "passes input lr w m \<longleftrightarrow> model_fits (ri_request input) lr m \<and>
     (md_deployment_type m = Cloud \<longrightarrow> decided_value input (cloud_action (ri_request input) m) w \<noteq> Deny)"

lemma eligible_models_run:
  "\<exists>k. eligible_models E input lr ms (w\<lparr>draws := n\<rparr>) = (Inr (filter (passes input lr w) ms), w\<lparr>draws := k\<rparr>)"
proof (induction ms arbitrary: n)
  case Nil
  show ?case by (simp add: run) (metis)
next
  case (Cons m ms)
  obtain d where d: "evaluatePolicy E (route_action input (cloud_action (ri_request input) m)) (w\<lparr>draws := n\<rparr>) =
      (Inr d, w\<lparr>draws := Suc n\<rparr>)" "pd_decision d = decided_value input (cloud_action (ri_request input) m) w"
    using evaluate_run by blast
  obtain k j where "eligible_models E input lr ms (w\<lparr>draws := n\<rparr>) = (Inr (filter (passes input lr w) ms), w\<lparr>draws := k\<rparr>)"
    "eligible_models E input lr ms (w\<lparr>draws := Suc n\<rparr>) = (Inr (filter (passes input lr w) ms), w\<lparr>draws := j\<rparr>)"
    using Cons.IH by meson
  with d show ?case by (auto simp: run passes_def [of input lr w m])
qed

lemma set_insert_before [simp]: "set (insert_before le x ys) = insert x (set ys)"
  by (induction ys) auto

lemma set_sort_before [simp]: "set (sort_before le xs) = set xs"
  unfolding sort_before_def by (induction xs) auto

lemma rank_of_before:
  "model_before E a b \<Longrightarrow> DEPLOY_RANK (md_deployment_type a) \<le> DEPLOY_RANK (md_deployment_type b)"
  "\<not> model_before E a b \<Longrightarrow> DEPLOY_RANK (md_deployment_type b) \<le> DEPLOY_RANK (md_deployment_type a)"
  by (auto simp: model_before_def Let_def split: if_splits)

lemma sort_before_hd:
  assumes "m \<in> set xs"
  shows "DEPLOY_RANK (md_deployment_type (hd (sort_before (model_before E) xs))) \<le> DEPLOY_RANK (md_deployment_type m)"
proof -
  let ?r = "\<lambda>m. DEPLOY_RANK (md_deployment_type m)"
  have ins: "\<forall>m\<in>insert x (set ys). ?r (hd (insert_before (model_before E) x ys)) \<le> ?r m"
    if "\<forall>m\<in>set ys. ?r (hd ys) \<le> ?r m" for x ys
    using that rank_of_before [of E x "hd ys"] by (cases ys) (auto intro: order_trans)
  have "\<forall>m\<in>set xs. ?r (hd (sort_before (model_before E) xs)) \<le> ?r m"
    unfolding sort_before_def
  proof (induction xs)
    case (Cons x xs)
    then show ?case using ins [of "foldr (insert_before (model_before E)) xs []" x] set_sort_before [of _ xs]
      by (simp add: sort_before_def)
  qed simp
  with assms show ?thesis by blast
qed

lemma routeModel_run:
  "\<exists>(policy :: policy_decision) k. routeModel E input w =
     (Inr (if decided_value input (SkillUse ''models.route'' (mq_data_classification (ri_request input))
              (mq_risk_tier (ri_request input))) w = Deny
           then no_model (pd_policy_version policy) (pd_reason_code policy)
           else choose_model (pd_policy_version policy) input (local_required input w)
             (filter md_enabled (sort_key md_model_key (filter (\<lambda>m. md_organization_id m = ri_organizationId input) (models w))))
             (sort_before (model_before E) (filter (passes input (local_required input w) w)
               (filter md_enabled (sort_key md_model_key (filter (\<lambda>m. md_organization_id m = ri_organizationId input) (models w))))))),
      w\<lparr>draws := k\<rparr>)"
proof -
  let ?q = "ri_request input"
  let ?c = "filter md_enabled (sort_key md_model_key (filter (\<lambda>m. md_organization_id m = ri_organizationId input) (models w)))"
  obtain p where p: "evaluatePolicy E (route_action input (SkillUse ''models.route'' (mq_data_classification ?q) (mq_risk_tier ?q))) w =
      (Inr p, w\<lparr>draws := Suc (draws w)\<rparr>)"
    "pd_decision p = decided_value input (SkillUse ''models.route'' (mq_data_classification ?q) (mq_risk_tier ?q)) w"
    using evaluate_run [where w = w and n = "draws w" and E = E and input = input] by auto
  obtain l where l: "evaluatePolicy E (route_action input (LeaveDevice (mq_data_classification ?q)))
      (w\<lparr>draws := Suc (draws w)\<rparr>) = (Inr l, w\<lparr>draws := Suc (Suc (draws w))\<rparr>)"
    "pd_decision l = decided_value input (LeaveDevice (mq_data_classification ?q)) w"
    using evaluate_run by blast
  obtain k where k: "eligible_models E input (local_required input w) ?c (w\<lparr>draws := Suc (Suc (draws w))\<rparr>) =
      (Inr (filter (passes input (local_required input w) w) ?c), w\<lparr>draws := k\<rparr>)"
    using eligible_models_run by blast
  have lr: "(pd_decision l = Deny \<or> CLASSIFICATION_RANK Confidential \<le> CLASSIFICATION_RANK (mq_data_classification ?q)) =
      local_required input w"
    by (simp only: local_required_def l(2) rank_le_iff)
  show ?thesis
    using k by (intro exI [of _ p]) (auto simp: routeModel_def Let_def run p l(1) lr [simplified] listModels_def)
qed

lemma chosen_model:
  assumes "eligible \<noteq> []" and "lr \<Longrightarrow> \<forall>m\<in>set eligible. is_local m"
    and first: "\<forall>m\<in>set eligible. DEPLOY_RANK (md_deployment_type (hd eligible)) \<le> DEPLOY_RANK (md_deployment_type m)"
  shows "\<exists>m\<in>set eligible. mo_model_id (choose_model v input lr ms eligible :: model_route_result) = Some (md_id m) \<and>
    mo_provider (choose_model v input lr ms eligible :: model_route_result) = Some (md_provider m) \<and>
    mo_deployment_type (choose_model v input lr ms eligible :: model_route_result) = Some (md_deployment_type m) \<and>
    (\<forall>x\<in>set eligible. DEPLOY_RANK (md_deployment_type m) \<le> DEPLOY_RANK (md_deployment_type x))"
proof -
  obtain f rest where e: "eligible = f # rest" using assms(1) by (cases eligible) auto
  define loc where "loc = (case find is_local eligible of Some m \<Rightarrow> m | None \<Rightarrow> f)"
  have mem1: "f \<in> set eligible" by (simp add: e)
  have "loc \<in> set eligible \<and> (list_ex is_local eligible \<longrightarrow> is_local loc)"
  proof (cases "find is_local eligible")
    case None
    then have "loc = f" by (simp add: loc_def)
    moreover have "\<not> list_ex is_local eligible" using None by (simp add: find_None_iff list_ex_iff)
    ultimately show ?thesis using mem1 by simp
  next
    case (Some a)
    then have "loc = a" by (simp add: loc_def)
    with find_SomeD [OF Some] show ?thesis by blast
  qed
  then have mem: "f \<in> set eligible" "loc \<in> set eligible" and l: "list_ex is_local eligible \<Longrightarrow> is_local loc"
    using mem1 by blast+
  have r: "\<forall>x\<in>set eligible. DEPLOY_RANK (md_deployment_type loc) \<le> DEPLOY_RANK (md_deployment_type x)"
    if "list_ex is_local eligible"
    using l [OF that] by (simp add: is_local_def)
  have lr: "list_ex is_local eligible" if lr using assms(2) [OF that] mem1 by (auto simp: list_ex_iff)
  define ch where "ch = (if lr \<or> mq_prefer_local (ri_request input) \<and> list_ex is_local eligible then loc else f)"
  have "ch \<in> set eligible" using mem by (cases lr) (simp_all add: ch_def)
  moreover have "\<forall>x\<in>set eligible. DEPLOY_RANK (md_deployment_type ch) \<le> DEPLOY_RANK (md_deployment_type x)"
  proof (cases "ch = loc \<and> list_ex is_local eligible")
    case True
    then show ?thesis using r by blast
  next
    case False
    then have "ch = f" using lr unfolding ch_def by argo
    then show ?thesis using first e by simp
  qed
  moreover have "mo_model_id (choose_model v input lr ms eligible :: model_route_result) = Some (md_id ch)"
    "mo_provider (choose_model v input lr ms eligible :: model_route_result) = Some (md_provider ch)"
    "mo_deployment_type (choose_model v input lr ms eligible :: model_route_result) = Some (md_deployment_type ch)"
    by (auto simp: choose_model_def e ch_def loc_def Let_def)
  ultimately show ?thesis by (intro bexI [of _ ch] conjI)
qed

lemma passes_routable:
  "m \<in> set (filter (passes input (local_required input w) w)
     (filter md_enabled (sort_key md_model_key (filter (\<lambda>m. md_organization_id m = ri_organizationId input) (models w))))) \<longleftrightarrow>
   routable input w m"
  by (auto simp: routable_def passes_def model_fits_def Let_def list_ex_iff rank_le_iff not_less)

definition route_denied :: "route_input \<Rightarrow> 'w command_world_scheme \<Rightarrow> bool" where
  "route_denied input w \<longleftrightarrow> decided_value input
     (SkillUse ''models.route'' (mq_data_classification (ri_request input)) (mq_risk_tier (ri_request input))) w = Deny"

lemma routeModel_outcome:
  obtains (denied) policy :: policy_decision and k where "route_denied input w"
      "routeModel E input w = (Inr (no_model (pd_policy_version policy) (pd_reason_code policy)), w\<lparr>draws := k\<rparr>)"
  | (none) v reason k where "\<not> route_denied input w" "\<And>m. \<not> routable input w m"
      "routeModel E input w = (Inr (no_model v reason), w\<lparr>draws := k\<rparr>)"
  | (chosen) r k m where "\<not> route_denied input w" "routable input w m"
      "routeModel E input w = (Inr r, w\<lparr>draws := k\<rparr>)" "mo_model_id r = Some (md_id m)"
      "mo_provider r = Some (md_provider m)" "mo_deployment_type r = Some (md_deployment_type m)"
      "\<And>x. routable input w x \<Longrightarrow> DEPLOY_RANK (md_deployment_type m) \<le> DEPLOY_RANK (md_deployment_type x)"
proof -
  define c where "c = filter md_enabled (sort_key md_model_key
    (filter (\<lambda>m. md_organization_id m = ri_organizationId input) (models w)))"
  define el where "el = filter (passes input (local_required input w) w) c"
  have mem: "m \<in> set el \<longleftrightarrow> routable input w m" for m
    unfolding el_def c_def by (rule passes_routable)
  obtain policy :: policy_decision and k where run:
    "routeModel E input w = (Inr (if route_denied input w
        then no_model (pd_policy_version policy) (pd_reason_code policy)
        else choose_model (pd_policy_version policy) input (local_required input w) c
          (sort_before (model_before E) el)), w\<lparr>draws := k\<rparr>)"
    using routeModel_run [of E input w] unfolding route_denied_def el_def c_def by blast
  show ?thesis
  proof (cases "route_denied input w")
    case True
    then show ?thesis using denied run by simp
  next
    case False
    note nd = this
    show ?thesis
    proof (cases "el = []")
      case True
      then have "sort_before (model_before E) el = []" by (simp add: sort_before_def)
      with nd run have "routeModel E input w = (Inr (no_model (pd_policy_version policy)
        (if list_ex (\<lambda>m. RISK_RANK (mq_risk_tier (ri_request input)) > RISK_RANK (md_risk_ceiling m)) c
                \<and> c \<noteq> [] then ''MODEL_RISK_CEILING_EXCEEDED'' else ''NO_ALLOWED_MODEL'')), w\<lparr>draws := k\<rparr>)"
        by (simp add: choose_model_def)
      moreover have "\<not> routable input w m" for m using mem [of m] True by simp
      ultimately show ?thesis using none nd by blast
    next
      case False
      let ?s = "sort_before (model_before E) el"
      have s: "set ?s = set el" by simp
      with False have ne: "?s \<noteq> []" by (metis set_empty)
      have "is_local m" if "local_required input w" "m \<in> set ?s" for m
        using that mem [of m] by (simp add: routable_def is_local_def Let_def)
      moreover have "\<forall>m\<in>set ?s. DEPLOY_RANK (md_deployment_type (hd ?s)) \<le> DEPLOY_RANK (md_deployment_type m)"
        unfolding s by (rule ballI) (rule sort_before_hd)
      ultimately show ?thesis
        using chosen_model [OF ne, of "local_required input w" "pd_policy_version policy" input c] chosen nd run
        unfolding s mem Ball_def Bex_def by auto
    qed
  qed
qed

text \<open>C23: The router finds a model exactly when there is one it may use.  It always returns a result; a model
  is named in it if and only if the policy does not deny \<open>models.route\<close> and some enabled model of the
  organization takes the classification, the risk and the capabilities, is local where data must not
  leave the device, and is not denied by the policy when it runs in the cloud.\<close>

theorem routeModel_decides:
  "\<exists>r k. routeModel E input w = (Inr r, w\<lparr>draws := k\<rparr>) \<and>
     (mo_model_id r \<noteq> None \<longleftrightarrow> \<not> route_denied input w \<and> (\<exists>m. routable input w m))"
  by (cases rule: routeModel_outcome [of input w E]) (auto simp: no_model_def)

text \<open>The router keeps the request as close as it can.  The model it names is one the request may run on,
  with its provider and deployment, and no model the request may run on is deployed closer (local before
  private before cloud); in particular confidential and restricted data only go to a local model.\<close>

theorem routeModel_most_local:
  assumes "routeModel E input w = (Inr r, w')" and "mo_model_id r = Some i"
  shows "\<exists>m. routable input w m \<and> md_id m = i \<and> mo_provider r = Some (md_provider m) \<and>
    mo_deployment_type r = Some (md_deployment_type m) \<and>
    (Confidential \<le> mq_data_classification (ri_request input) \<longrightarrow> md_deployment_type m = Local) \<and>
    (\<forall>x. routable input w x \<longrightarrow> DEPLOY_RANK (md_deployment_type m) \<le> DEPLOY_RANK (md_deployment_type x))"
proof (cases rule: routeModel_outcome [of input w E])
  case (denied policy k)
  with assms show ?thesis by (auto simp: no_model_def)
next
  case (none v reason k)
  with assms show ?thesis by (auto simp: no_model_def)
next
  case (chosen r' k m)
  from chosen(3) assms(1) have "r' = r" by simp
  with chosen assms(2) show ?thesis
    by (intro exI [of _ m]) (auto simp: routable_def local_required_def Let_def)
qed

subsection \<open>A concrete route\<close>

definition sample_model :: "id \<Rightarrow> deployment_type \<Rightarrow> model_row" where
  "sample_model i d = \<lparr>md_id = i, md_organization_id = ''org'', md_model_key = i, md_provider = MockProvider,
     md_deployment_type = d, md_endpoint = None, md_capabilities = [''chat''],
     md_allowed_data_classes = [Public, Internal, Confidential], md_risk_ceiling = High,
     md_requires_internet = False, md_enabled = True, md_created_at = 0\<rparr>"

definition sample_routing :: command_world where
  "sample_routing = sample_command
     \<lparr>skill_policies := [\<lparr>sp_id = ''s3'', sp_organization_id = ''org'', sp_skill_id = ''models.route'',
        sp_requires_approval = False, sp_classification_ceiling = Restricted, sp_risk_ceiling = High\<rparr>],
      skill_policy_roles := [\<lparr>kr_skill_policy_id = ''s3'', kr_role_id = ''r1'', kr_organization_id = ''org''\<rparr>],
      models := [sample_model ''a-cloud'' Cloud, sample_model ''b-private'' Private]\<rparr>"

definition sample_route :: route_input where
  "sample_route = \<lparr>ri_organizationId = ''org'', ri_actorId = ''u1'', ri_roleId = ''r1'',
     ri_request = \<lparr>mq_execution_id = ''e1'', mq_task = ''chat'', mq_risk_tier = Low,
       mq_data_classification = Internal, mq_required_capabilities = [''chat''], mq_prefer_local = True\<rparr>\<rparr>"

lemma sample_routing_tables:
  "policies sample_routing = policies sample_command" "policy_bindings sample_routing = policy_bindings sample_command"
  by (simp_all add: sample_routing_def)

lemma sample_route_private: "routable sample_route sample_routing (sample_model ''b-private'' Private)"
proof -
  have "decided_value sample_route (LeaveDevice Internal) sample_routing = Allow"
    by (simp add: decided_value_def route_action_def policy_verdict_def Let_def loadActivePolicy_def
        active_bindings_def sample_routing_tables sample_route_def sample_command_def DEFAULT_POLICY_RULES_def)
  then have "\<not> local_required sample_route sample_routing"
    by (simp add: local_required_def sample_route_def less_eq_data_classification_def)
  then show ?thesis
    by (simp add: routable_def Let_def sample_route_def sample_model_def sample_routing_def less_eq_risk_tier_def)
qed

theorem routeModel_most_local_witness:
  "\<exists>r w'. routeModel sample_net_env sample_route sample_routing = (Inr r, w') \<and>
     mo_deployment_type r \<noteq> Some Cloud"
proof -
  have nd: "\<not> route_denied sample_route sample_routing"
    by (simp add: route_denied_def decided_value_def route_action_def policy_verdict_def Let_def
        loadActivePolicy_def active_bindings_def sample_routing_tables sample_route_def sample_command_def
        skill_verdict_def skill_grants_def sample_routing_def)
  then obtain r w' i where r: "routeModel sample_net_env sample_route sample_routing = (Inr r, w')"
      "mo_model_id r = Some i"
    by (cases rule: routeModel_outcome [of sample_route sample_routing sample_net_env])
      (use sample_route_private in auto)
  obtain m :: model_row where "mo_deployment_type r = Some (md_deployment_type m)"
      "DEPLOY_RANK (md_deployment_type m) \<le> DEPLOY_RANK (md_deployment_type (sample_model ''b-private'' Private))"
    using routeModel_most_local [OF r] sample_route_private by blast
  then have "mo_deployment_type r \<noteq> Some Cloud" by (auto simp: sample_model_def)
  with r(1) show ?thesis by blast
qed

end
