(* ===== verification/Ingest.thy ===== *)
theory Ingest
  imports KnowledgeStore ModelRouter
begin

text \<open>
  Access to collections (\<open>packages/knowledge/src/acl.ts\<close>), the context of a model call
  (\<open>context.ts\<close>), the blob files (\<open>storage.ts\<close>) and the way of a document from upload over approval to
  its chunks (\<open>ingest.ts\<close>).  \<open>ingest_step\<close> is the relation of all calls that change these tables; the
  invariant of the tables is kept by each.
\<close>

subsection \<open>Access to collections\<close>

record collection_permission =
  pm_collectionId :: id
  pm_can_read :: bool
  pm_can_manage :: bool
  pm_can_approve :: bool

datatype collection_capability = CanRead | CanManage | CanApprove

fun has_capability :: "collection_permission \<Rightarrow> collection_capability \<Rightarrow> bool" where
  "has_capability p CanRead = pm_can_read p"
| "has_capability p CanManage = pm_can_manage p"
| "has_capability p CanApprove = pm_can_approve p"

definition canRead :: "collection_permission option \<Rightarrow> bool" where
  "canRead permission = (case permission of None \<Rightarrow> False | Some p \<Rightarrow> pm_can_read p)"

definition canManage :: "collection_permission option \<Rightarrow> bool" where
  "canManage permission = (case permission of None \<Rightarrow> False | Some p \<Rightarrow> pm_can_manage p)"

definition canApprove :: "collection_permission option \<Rightarrow> bool" where
  "canApprove permission = (case permission of None \<Rightarrow> False | Some p \<Rightarrow> pm_can_approve p)"

definition permission_of :: "id \<Rightarrow> id \<Rightarrow> id \<Rightarrow> 'w knowledge_world_scheme \<Rightarrow> collection_permission_row option" where
  "permission_of org c role w =
     find (\<lambda>p. cp_collection_id p = c \<and> cp_organization_id p = org \<and> cp_role_id p = role)
       (collection_permissions w)"

definition getCollectionPermission ::
    "id \<Rightarrow> id \<Rightarrow> id \<Rightarrow> (err, 'w knowledge_world_scheme, collection_permission option) op" where
  "getCollectionPermission organizationId collectionId roleId =
     getsE (\<lambda>w.
       case find (\<lambda>c. co_organization_id c = organizationId \<and> co_id c = collectionId) (collections w) of
         None \<Rightarrow> None
       | Some c \<Rightarrow>
           let p = permission_of organizationId (co_id c) roleId w;
               flag = (\<lambda>f. case p of None \<Rightarrow> False | Some r \<Rightarrow> f r) in
           Some \<lparr>pm_collectionId = co_id c, pm_can_read = flag cp_can_read,
             pm_can_manage = flag cp_can_manage, pm_can_approve = flag cp_can_approve\<rparr>)"

definition collection_forbidden :: err where
  "collection_forbidden = KnowledgeError ''COLLECTION_FORBIDDEN'' 404"

definition knowledge_not_found :: err where
  "knowledge_not_found = KnowledgeError ''NOT_FOUND'' 404"

definition requireCollectionPermission ::
    "id \<Rightarrow> id \<Rightarrow> id \<Rightarrow> collection_capability \<Rightarrow> (err, 'w knowledge_world_scheme, collection_permission) op" where
  "requireCollectionPermission organizationId collectionId roleId capability =
     bindE (getCollectionPermission organizationId collectionId roleId) (\<lambda>permission.
     case permission of
       None \<Rightarrow> throw collection_forbidden
     | Some p \<Rightarrow> if has_capability p capability then ret p else throw collection_forbidden)"

definition readable :: "id \<Rightarrow> id \<Rightarrow> collection_row \<Rightarrow> 'w knowledge_world_scheme \<Rightarrow> bool" where
  "readable org role c w \<longleftrightarrow>
     (\<exists>p\<in>set (collection_permissions w). cp_collection_id p = co_id c \<and>
        cp_organization_id p = co_organization_id c \<and> cp_role_id p = role \<and> cp_can_read p) \<and>
     co_organization_id c = org"

definition listReadableCollections ::
    "'a knowledge_env_scheme \<Rightarrow> id \<Rightarrow> id \<Rightarrow> (err, 'w knowledge_world_scheme, collection_row list) op" where
  "listReadableCollections E organizationId roleId =
     getsE (\<lambda>w. sort_before (\<lambda>a b. db_collation E (co_name a) (co_name b))
       (filter (\<lambda>c. readable organizationId roleId c w) (collections w)))"

definition collectionIdForSource :: "id \<Rightarrow> id \<Rightarrow> (err, 'w knowledge_world_scheme, id) op" where
  "collectionIdForSource organizationId sourceId =
     bindE (getsE (\<lambda>w. find (\<lambda>s. so_id s = sourceId \<and> so_organization_id s = organizationId) (sources w))) (\<lambda>s.
     bindE (expectE s knowledge_not_found) (\<lambda>s. ret (so_collection_id s)))"

text \<open>The source of a version, as the joins of the queries find it.\<close>

definition source_of_version :: "source_version_row \<Rightarrow> 'w knowledge_world_scheme \<Rightarrow> source_row option" where
  "source_of_version v w =
     find (\<lambda>s. so_id s = sv_source_id v \<and> so_organization_id s = sv_organization_id v) (sources w)"

definition collectionIdForVersion :: "id \<Rightarrow> id \<Rightarrow> (err, 'w knowledge_world_scheme, id) op" where
  "collectionIdForVersion organizationId versionId =
     bindE (getsE (\<lambda>w. case find (\<lambda>v. sv_id v = versionId \<and> sv_organization_id v = organizationId)
         (source_versions w) of None \<Rightarrow> None | Some v \<Rightarrow> source_of_version v w)) (\<lambda>s.
     bindE (expectE s knowledge_not_found) (\<lambda>s. ret (so_collection_id s)))"

definition loadRetrievalRun :: "id \<Rightarrow> id \<Rightarrow> (err, 'w knowledge_world_scheme, retrieval_run_row) op" where
  "loadRetrievalRun organizationId runId =
     bindE (getsE (\<lambda>w. find (\<lambda>r. rr_id r = runId \<and> rr_organization_id r = organizationId)
       (retrieval_runs w))) (\<lambda>r. expectE r knowledge_not_found)"

definition collectionIdsForRetrievalRun :: "id \<Rightarrow> id \<Rightarrow> (err, 'w knowledge_world_scheme, id list) op" where
  "collectionIdsForRetrievalRun organizationId runId =
     bindE (getsE (\<lambda>w. find (\<lambda>r. rr_id r = runId \<and> rr_organization_id r = organizationId)
       (retrieval_runs w))) (\<lambda>r.
     bindE (expectE r knowledge_not_found) (\<lambda>r. ret (rr_collection_ids r)))"

subsection \<open>Chunks in the context of a model call\<close>

record context_chunk =
  cc_chunk_id :: id
  cc_source_id :: id
  cc_source_version_id :: id
  cc_collection_id :: id
  cc_text :: string
  cc_content_hash :: string
  cc_returned_to_caller :: bool

definition requested_hit :: "id \<Rightarrow> id \<Rightarrow> id list \<Rightarrow> retrieval_hit_row \<Rightarrow> bool" where
  "requested_hit organizationId runId chunkIds h \<longleftrightarrow>
     rh_retrieval_run_id h = runId \<and> rh_organization_id h = organizationId \<and> rh_chunk_id h \<in> set chunkIds"

definition context_chunk_of :: "retrieval_hit_row \<Rightarrow> chunk_row \<Rightarrow> context_chunk" where
  "context_chunk_of h c =
     \<lparr>cc_chunk_id = rh_chunk_id h, cc_source_id = rh_source_id h,
      cc_source_version_id = rh_source_version_id h, cc_collection_id = rh_collection_id h,
      cc_text = ck_text c, cc_content_hash = rh_content_hash h,
      cc_returned_to_caller = rh_returned_to_caller h\<rparr>"

definition loadReturnedChunks ::
    "id \<Rightarrow> id \<Rightarrow> id list \<Rightarrow> (err, 'w knowledge_world_scheme, context_chunk list) op" where
  "loadReturnedChunks organizationId runId chunkIds =
     (if chunkIds = [] then ret []
      else getsE (\<lambda>w.
        concat (map (\<lambda>h. map (context_chunk_of h)
            (filter (\<lambda>c. ck_id c = rh_chunk_id h \<and> ck_organization_id c = rh_organization_id h) (chunks w)))
          (sort_key rh_rank (filter (requested_hit organizationId runId chunkIds) (retrieval_hits w))))))"

definition include_hit :: "retrieval_hit_row \<Rightarrow> retrieval_hit_row" where
  "include_hit h = h\<lparr>rh_included_in_context := True\<rparr>"

definition markChunksIncludedInContext ::
    "id \<Rightarrow> id \<Rightarrow> id list \<Rightarrow> (err, 'w knowledge_world_scheme, unit) op" where
  "markChunksIncludedInContext organizationId runId chunkIds =
     whenE (chunkIds \<noteq> [])
       (modifyE (\<lambda>w. w\<lparr>retrieval_hits :=
          update_where (\<lambda>h. requested_hit organizationId runId chunkIds h \<and> rh_returned_to_caller h)
            include_hit (retrieval_hits w)\<rparr>))"

subsection \<open>Blob files\<close>

text \<open>The identifiers are UUIDs, in which \<open>join\<close> has nothing to normalize.\<close>

definition blobPath :: "'a knowledge_env_scheme \<Rightarrow> id \<Rightarrow> id \<Rightarrow> string" where
  "blobPath E organizationId versionId =
     data_root E @ ''/blobs/'' @ organizationId @ ''/'' @ versionId"

definition FILE_SCHEME :: string where "FILE_SCHEME = ''file://''"

definition writeBlob ::
    "'a knowledge_env_scheme \<Rightarrow> id \<Rightarrow> id \<Rightarrow> byte list \<Rightarrow> (err, 'w knowledge_world_scheme, string) op" where
  "writeBlob E organizationId versionId bytes =
     (let path = blobPath E organizationId versionId in
      case disk_error E path of
        Some code \<Rightarrow> throw (PlainError code)
      | None \<Rightarrow> bindE (modifyE (\<lambda>w. w\<lparr>blobs := map_set path bytes (blobs w)\<rparr>)) (\<lambda>_.
          ret (FILE_SCHEME @ path)))"

definition readBlob :: "string \<Rightarrow> (err, 'w knowledge_world_scheme, byte list) op" where
  "readBlob uri =
     (if \<not> starts_with uri FILE_SCHEME then throw (knowledge_error ''UNSUPPORTED_BLOB'')
      else bindE (getsE (\<lambda>w. map_of (blobs w) (drop (length FILE_SCHEME) uri))) (\<lambda>bytes.
        expectE bytes (PlainError ''ENOENT'')))"

subsection \<open>Collections and versions\<close>

definition grant_collection ::
    "'a knowledge_env_scheme \<Rightarrow> id \<Rightarrow> id \<Rightarrow> id \<Rightarrow> id \<Rightarrow> (err, 'w knowledge_world_scheme, unit) op" where
  "grant_collection E organizationId c adminRoleId memberRoleId =
     bindE (drawE (randomUUID E)) (\<lambda>p1.
     bindE (drawE (randomUUID E)) (\<lambda>p2.
     txnE restore_knowledge
       (bindE (insert_collection_permission
          \<lparr>cp_id = p1, cp_collection_id = c, cp_organization_id = organizationId, cp_role_id = adminRoleId,
           cp_can_read = True, cp_can_manage = True, cp_can_approve = True\<rparr>) (\<lambda>_.
        insert_collection_permission
          \<lparr>cp_id = p2, cp_collection_id = c, cp_organization_id = organizationId, cp_role_id = memberRoleId,
           cp_can_read = True, cp_can_manage = False, cp_can_approve = False\<rparr>))))"

definition createCollection ::
    "'a knowledge_env_scheme \<Rightarrow> id \<Rightarrow> string \<Rightarrow> data_classification \<Rightarrow> id \<Rightarrow> id \<Rightarrow> id \<Rightarrow>
     (err, 'w knowledge_world_scheme, id) op" where
  "createCollection E organizationId name classification createdBy adminRoleId memberRoleId =
     bindE (drawE (randomUUID E)) (\<lambda>c.
     bindE (nowE E) (\<lambda>t.
     bindE (insert_collection \<lparr>co_id = c, co_organization_id = organizationId, co_name = name,
         co_classification = classification, co_created_by = createdBy, co_created_at = t\<rparr>) (\<lambda>_.
     bindE (grant_collection E organizationId c adminRoleId memberRoleId) (\<lambda>_.
     ret c))))"

record upload_input =
  up_organizationId :: id
  up_collectionId :: id
  up_actorId :: id
  up_title :: string
  up_filename :: string
  up_bytes :: "byte list"
  up_sourceId :: "id option"

record uploaded_version =
  uv_sourceId :: id
  uv_versionId :: id
  uv_contentHash :: string
  uv_versionNumber :: nat

definition find_or_insert_source :: "upload_input \<Rightarrow> id \<Rightarrow> (err, 'w knowledge_world_scheme, unit) op" where
  "find_or_insert_source input sourceId =
     (if up_sourceId input = None \<or> up_sourceId input = Some '''' then
        bindE (requireE (sourceId \<noteq> '''') invalid_text_representation) (\<lambda>_.
        insert_source \<lparr>so_id = sourceId, so_organization_id = up_organizationId input,
          so_collection_id = up_collectionId input, so_title = up_title input, so_created_by = up_actorId input\<rparr>)
      else bindE (getsE (\<lambda>w. find (\<lambda>s. so_id s = sourceId) (sources w))) (\<lambda>existing.
        requireE (case existing of None \<Rightarrow> False | Some s \<Rightarrow> so_organization_id s = up_organizationId input)
          knowledge_not_found))"

text \<open>\<open>ORDER BY version_number DESC LIMIT 1\<close>.\<close>

definition last_version :: "id \<Rightarrow> 'w knowledge_world_scheme \<Rightarrow> nat" where
  "last_version sourceId w =
     foldr max (map sv_version_number (filter (\<lambda>v. sv_source_id v = sourceId) (source_versions w))) 0"

definition insert_version ::
    "'a knowledge_env_scheme \<Rightarrow> upload_input \<Rightarrow> string \<Rightarrow> id \<Rightarrow> id \<Rightarrow> (err, 'w knowledge_world_scheme, nat) op" where
  "insert_version E input mime sourceId versionId =
     bindE (find_or_insert_source input sourceId) (\<lambda>_.
     bindE (getsE (last_version sourceId)) (\<lambda>n.
     bindE (writeBlob E (up_organizationId input) versionId (up_bytes input)) (\<lambda>blobUri.
     bindE (nowE E) (\<lambda>t.
     bindE (insert_source_version
       \<lparr>sv_id = versionId, sv_organization_id = up_organizationId input, sv_source_id = sourceId,
        sv_version_number = n + 1, sv_content_hash = sha256Bytes E (up_bytes input), sv_mime_type = mime,
        sv_blob_uri = blobUri, sv_original_filename = up_filename input, sv_parser_version = PARSER_VERSION,
        sv_effective_at = t, sv_uploaded_by = up_actorId input, sv_approved_by = None,
        sv_approved_at = None\<rparr>) (\<lambda>_.
     ret (n + 1))))))"

definition uploadSourceVersion ::
    "'a knowledge_env_scheme \<Rightarrow> upload_input \<Rightarrow> (err, 'w knowledge_world_scheme, uploaded_version) op" where
  "uploadSourceVersion E input =
     bindE (liftE (sniffMime (up_filename input) (up_bytes input))) (\<lambda>mime.
     bindE (liftE (assertUpload (up_bytes input) mime)) (\<lambda>_.
     bindE (getsE (\<lambda>w. find (\<lambda>c. co_id c = up_collectionId input) (collections w))) (\<lambda>collection.
     bindE (requireE (case collection of None \<Rightarrow> False
         | Some c \<Rightarrow> co_organization_id c = up_organizationId input) knowledge_not_found) (\<lambda>_.
     bindE (case up_sourceId input of None \<Rightarrow> drawE (randomUUID E) | Some s \<Rightarrow> ret s) (\<lambda>sourceId.
     bindE (drawE (randomUUID E)) (\<lambda>versionId.
     bindE (txnE restore_knowledge (insert_version E input mime sourceId versionId)) (\<lambda>versionNumber.
     ret \<lparr>uv_sourceId = sourceId, uv_versionId = versionId,
          uv_contentHash = sha256Bytes E (up_bytes input), uv_versionNumber = versionNumber\<rparr>)))))))"

definition approve_row :: "id \<Rightarrow> int \<Rightarrow> source_version_row \<Rightarrow> source_version_row" where
  "approve_row actor t v = v\<lparr>sv_approved_by := Some actor, sv_approved_at := Some t\<rparr>"

definition approvable :: "id \<Rightarrow> id \<Rightarrow> source_version_row \<Rightarrow> bool" where
  "approvable organizationId versionId v \<longleftrightarrow>
     sv_id v = versionId \<and> sv_organization_id v = organizationId \<and> sv_approved_at v = None"

definition approveSourceVersion ::
    "'a knowledge_env_scheme \<Rightarrow> id \<Rightarrow> id \<Rightarrow> id \<Rightarrow> (err, 'w knowledge_world_scheme, unit) op" where
  "approveSourceVersion E organizationId versionId actorId =
     bindE (nowE E) (\<lambda>t.
     bindE (constraintE (\<lambda>w. (\<exists>v\<in>set (source_versions w). approvable organizationId versionId v) \<longrightarrow>
         user_exists actorId w) foreign_key_violation) (\<lambda>_.
     bindE (getsE (\<lambda>w. count_where (approvable organizationId versionId) (source_versions w))) (\<lambda>n.
     bindE (modifyE (\<lambda>w. w\<lparr>source_versions :=
         update_where (approvable organizationId versionId) (approve_row actorId t) (source_versions w)\<rparr>)) (\<lambda>_.
     requireE (n = 1) knowledge_not_found))))"

subsection \<open>Indexing\<close>

definition loadVersion :: "id \<Rightarrow> id \<Rightarrow> (err, 'w knowledge_world_scheme, source_version_row) op" where
  "loadVersion organizationId versionId =
     bindE (getsE (\<lambda>w. find (\<lambda>v. sv_id v = versionId) (source_versions w))) (\<lambda>row.
     case row of
       None \<Rightarrow> throw knowledge_not_found
     | Some v \<Rightarrow> if sv_organization_id v = organizationId then ret v else throw knowledge_not_found)"

text \<open>\<open>chunkText(text)\<close> with its default bound, for which it returns on every text.\<close>

definition chunks_of_text :: "'a knowledge_env_scheme \<Rightarrow> string \<Rightarrow> chunk list" where
  "chunks_of_text E body = the (chunkText E body default_max_chars)"

text \<open>\<open>vectorLiteral\<close>, and the cast to \<open>vector\<close>, of a vector with a component that is no finite number throw.\<close>

definition literal_of :: "double option list \<Rightarrow> err + string" where
  "literal_of v = (if None \<in> set v then Inl type_error else Inr (vectorLiteral (map the v)))"

definition chunk_metadata :: "source_version_row \<Rightarrow> embedding_provider \<Rightarrow> json" where
  "chunk_metadata v provider =
     JObj [(''parser_version'', JStr PARSER_VERSION), (''content_hash'', JStr (sv_content_hash v)),
           (''embedding_provider_key'', JStr (provider_key provider))]"

definition write_chunk ::
    "'a knowledge_env_scheme \<Rightarrow> source_version_row \<Rightarrow> embedding_provider \<Rightarrow> chunk \<times> double option list \<Rightarrow>
     (err, 'w knowledge_world_scheme, unit) op" where
  "write_chunk E v provider = (\<lambda>(chunk, embedding).
     bindE (drawE (randomUUID E)) (\<lambda>i.
     bindE (liftE (literal_of embedding)) (\<lambda>literal.
     insert_chunk
       \<lparr>ck_id = i, ck_organization_id = sv_organization_id v, ck_source_version_id = sv_id v,
        ck_chunk_index = chunkIndex chunk, ck_page_number = pageNumber chunk, ck_section = chunk_section chunk,
        ck_text = chunk_text chunk, ck_text_hash = textHash chunk, ck_token_count = tokenCount chunk,
        ck_embedding = literal, ck_metadata = chunk_metadata v provider,
        ck_embedding_provider_key = provider_key provider,
        ck_embedding_dimensions = provider_dimensions provider\<rparr>)))"

definition blob_hash_mismatch :: err where
  "blob_hash_mismatch = KnowledgeError ''BLOB_HASH_MISMATCH'' 500"

definition writeChunks ::
    "'a knowledge_env_scheme \<Rightarrow> source_version_row \<Rightarrow> embedding_provider \<Rightarrow> (err, 'w knowledge_world_scheme, nat) op" where
  "writeChunks E v provider =
     bindE (readBlob (sv_blob_uri v)) (\<lambda>bytes.
     bindE (requireE (sha256Bytes E bytes = sv_content_hash v) blob_hash_mismatch) (\<lambda>_.
     bindE (liftE (extractText E (sv_mime_type v) bytes)) (\<lambda>body.
     let chunks = chunks_of_text E body in
     bindE (embed E provider (map chunk_text chunks)) (\<lambda>embeddings.
     bindE (txnE restore_knowledge (forE (write_chunk E v provider) (zip chunks embeddings))) (\<lambda>_.
     ret (length chunks))))))"

definition chunks_of_version :: "id \<Rightarrow> 'w knowledge_world_scheme \<Rightarrow> chunk_row list" where
  "chunks_of_version versionId w = filter (\<lambda>c. ck_source_version_id c = versionId) (chunks w)"

definition indexSourceVersion ::
    "'a knowledge_env_scheme \<Rightarrow> id \<Rightarrow> id \<Rightarrow> embedding_provider \<Rightarrow> (err, 'w knowledge_world_scheme, nat) op" where
  "indexSourceVersion E organizationId versionId provider =
     bindE (loadVersion organizationId versionId) (\<lambda>v.
     bindE (getsE (chunks_of_version versionId)) (\<lambda>existing.
     case existing of
       c # _ \<Rightarrow>
         if ck_embedding_provider_key c \<noteq> provider_key provider
         then throw (KnowledgeError ''REINDEX_REQUIRED'' 409)
         else getsE (\<lambda>w. length (chunks_of_version versionId w))
     | [] \<Rightarrow> writeChunks E v provider))"

definition version_chunk :: "id \<Rightarrow> id \<Rightarrow> chunk_row \<Rightarrow> bool" where
  "version_chunk organizationId versionId c \<longleftrightarrow>
     ck_source_version_id c = versionId \<and> ck_organization_id c = organizationId"

definition drop_chunks :: "id \<Rightarrow> id \<Rightarrow> (err, 'w knowledge_world_scheme, unit) op" where
  "drop_chunks organizationId versionId =
     bindE (getsE (\<lambda>w. map ck_id (filter (version_chunk organizationId versionId) (chunks w)))) (\<lambda>ids.
     bindE (delete_hits (\<lambda>h. rh_chunk_id h \<in> set ids)) (\<lambda>_.
     delete_chunks (version_chunk organizationId versionId)))"

definition reindexSourceVersion ::
    "'a knowledge_env_scheme \<Rightarrow> id \<Rightarrow> id \<Rightarrow> embedding_provider \<Rightarrow> (err, 'w knowledge_world_scheme, nat) op" where
  "reindexSourceVersion E organizationId versionId provider =
     bindE (loadVersion organizationId versionId) (\<lambda>v.
     bindE (txnE restore_knowledge (drop_chunks organizationId versionId)) (\<lambda>_.
     writeChunks E v provider))"

subsection \<open>The invariant\<close>

lemma knowledge_inv_eqI:
  "knowledge_inv w \<Longrightarrow> same_knowledge w w' \<Longrightarrow> knowledge_inv w'"
  by (simp add: knowledge_inv_same)

lemma pres_writeBlob [pres]: "preserves knowledge_inv (writeBlob E org i bytes)"
  by (auto simp: preserves_def writeBlob_def Let_def run same_knowledge_def intro: knowledge_inv_eqI
      split: option.splits)

lemma pres_readBlob [pres]: "preserves knowledge_inv (readBlob uri)"
  unfolding readBlob_def by (intro pres)

lemma pres_txn_knowledge [pres]: "preserves knowledge_inv m \<Longrightarrow> preserves knowledge_inv (txnE restore_knowledge m)"
  by (intro preserves_txnE preserves_commits restore_knowledge_inv)

lemma pres_embed [pres]: "preserves knowledge_inv (embed E p texts)"
  by (cases p) (auto intro!: pres)

lemma pres_mark [pres]: "preserves knowledge_inv (markChunksIncludedInContext org i ids)"
proof -
  have "list_all P (update_where q include_hit hs) \<longleftrightarrow> list_all P hs"
    if "\<And>h. P (include_hit h) \<longleftrightarrow> P h" for P q hs
    using that by (induction hs) (auto simp: update_where_def)
  from this [where P = "\<lambda>h. R (rh_organization_id h) (rh_retrieval_run_id h) (rh_chunk_id h) (rh_source_id h)
      (rh_source_version_id h) (rh_collection_id h)" for R]
  show ?thesis
    by (auto simp: preserves_def markChunksIncludedInContext_def run knowledge_inv_def in_org_defs update_where_def
        include_hit_def)
qed

lemma pres_grant_collection [pres]: "preserves knowledge_inv (grant_collection E org c r r')"
  unfolding grant_collection_def by (intro pres)

lemma pres_createCollection [pres]: "preserves knowledge_inv (createCollection E org name c u r r')"
  unfolding createCollection_def by (intro pres)

lemma pres_find_source [pres]: "preserves knowledge_inv (find_or_insert_source input i)"
  unfolding find_or_insert_source_def by (intro pres)

lemma pres_upload [pres]: "preserves knowledge_inv (uploadSourceVersion E input)"
  unfolding uploadSourceVersion_def insert_version_def by (intro pres)

lemma pres_approve [pres]: "preserves knowledge_inv (approveSourceVersion E org i u)"
proof -
  have "knowledge_inv (w\<lparr>source_versions := update_where p (approve_row u t) (source_versions w)\<rparr>)"
    if "knowledge_inv w" for p t w
  proof -
    have k: "sv_id (approve_row u t v) = sv_id v" "sv_organization_id (approve_row u t v) = sv_organization_id v"
      "sv_source_id (approve_row u t v) = sv_source_id v"
      "sv_version_number (approve_row u t v) = sv_version_number v" for v
      by (simp_all add: approve_row_def)
    have m: "map sv_id (update_where p (approve_row u t) vs) = map sv_id vs"
      "map (\<lambda>v. (sv_source_id v, sv_version_number v)) (update_where p (approve_row u t) vs) =
       map (\<lambda>v. (sv_source_id v, sv_version_number v)) vs" for vs
      by (simp_all add: update_where_def k)
    have e: "(\<exists>x\<in>set (update_where p (approve_row u t) vs). sv_id x = a \<and> sv_organization_id x = b) \<longleftrightarrow>
        (\<exists>x\<in>set vs. sv_id x = a \<and> sv_organization_id x = b)" for vs a b
      by (induction vs) (auto simp: update_where_def k)
    have a: "(\<forall>v\<in>set (update_where p (approve_row u t) vs).
          \<exists>x\<in>S. so_id x = sv_source_id v \<and> so_organization_id x = sv_organization_id v) \<longleftrightarrow>
        (\<forall>v\<in>set vs. \<exists>x\<in>S. so_id x = sv_source_id v \<and> so_organization_id x = sv_organization_id v)" for vs S
      by (induction vs) (auto simp: update_where_def k)
    show ?thesis using that unfolding knowledge_inv_def in_org_defs by (simp add: m e a)
  qed
  then show ?thesis
    unfolding approveSourceVersion_def by (intro pres pres_modify)
qed

lemma drop_chunks_run:
  "drop_chunks org i w =
     (Inr (), w\<lparr>retrieval_hits := filter (\<lambda>h. rh_chunk_id h \<notin> ck_id ` set (filter (version_chunk org i) (chunks w)))
          (retrieval_hits w),
        chunks := filter (\<lambda>c. \<not> version_chunk org i c) (chunks w)\<rparr>)"
  by (auto simp: drop_chunks_def delete_hits_def delete_chunks_def run)

lemma pres_drop_chunks [pres]: "preserves knowledge_inv (drop_chunks org i)"
proof -
  have d: "distinct (map f xs) \<Longrightarrow> distinct (map f (filter p xs))" for f :: "chunk_row \<Rightarrow> 'b" and p xs
    by (induction xs) auto
  have t: "\<exists>x\<in>set (filter (\<lambda>c. \<not> q c) cs). ck_id x = i \<and> ck_organization_id x = org'"
    if "\<exists>x\<in>set cs. ck_id x = i \<and> ck_organization_id x = org'" "i \<notin> ck_id ` set (filter q cs)" for q cs i org'
    using that by force
  have "knowledge_inv (snd (drop_chunks org i w))" if inv: "knowledge_inv w" for w
  proof -
    let ?hs = "filter (\<lambda>h. rh_chunk_id h \<notin> ck_id ` set (filter (version_chunk org i) (chunks w))) (retrieval_hits w)"
    have "\<forall>h\<in>set ?hs. \<exists>x\<in>set (filter (\<lambda>c. \<not> version_chunk org i c) (chunks w)).
        ck_id x = rh_chunk_id h \<and> ck_organization_id x = rh_organization_id h"
    proof
      fix h assume "h \<in> set ?hs"
      then have h: "h \<in> set (retrieval_hits w)"
          "rh_chunk_id h \<notin> ck_id ` set (filter (version_chunk org i) (chunks w))" by simp_all
      from h(1) inv have "\<exists>x\<in>set (chunks w). ck_id x = rh_chunk_id h \<and> ck_organization_id x = rh_organization_id h"
        by (simp add: knowledge_inv_def chunk_in_org_def)
      from t [OF this h(2)] show "\<exists>x\<in>set (filter (\<lambda>c. \<not> version_chunk org i c) (chunks w)).
        ck_id x = rh_chunk_id h \<and> ck_organization_id x = rh_organization_id h" .
    qed
    with inv show ?thesis
      unfolding knowledge_inv_def in_org_defs drop_chunks_run by (simp add: d del: set_filter) auto
  qed
  then show ?thesis by (auto simp: preserves_def)
qed

lemma pres_write_chunk [pres]: "preserves knowledge_inv (write_chunk E v p x)"
  unfolding write_chunk_def by (cases x) (auto intro!: pres)

lemma pres_loadVersion [pres]: "preserves knowledge_inv (loadVersion org i)"
  unfolding loadVersion_def by (intro pres)

lemma pres_writeChunks [pres]: "preserves knowledge_inv (writeChunks E v p)"
  unfolding writeChunks_def Let_def by (intro pres)

lemma pres_reindex [pres]: "preserves knowledge_inv (reindexSourceVersion E org i p)"
  unfolding reindexSourceVersion_def by (intro pres)

lemma pres_index [pres]: "preserves knowledge_inv (indexSourceVersion E org i p)"
  unfolding indexSourceVersion_def by (intro pres) (auto intro!: pres split: list.split)

subsection \<open>Upload and read back\<close>

lemma insert_source_version_Inr:
  "insert_source_version row w = (Inr u, w') \<Longrightarrow> w' = w\<lparr>source_versions := source_versions w @ [row]\<rparr>"
  by (auto simp: insert_source_version_def bindE_Inr basic_Inr constraintE_Inr)

lemma find_or_insert_keeps:
  "find_or_insert_source input i w = (Inr u, w') \<Longrightarrow>
   source_versions w' = source_versions w \<and> chunks w' = chunks w \<and> blobs w' = blobs w"
  by (auto simp: find_or_insert_source_def insert_source_def bindE_Inr basic_Inr constraintE_Inr split: if_splits)

lemma writeBlob_Inr:
  assumes "writeBlob E org i bytes w = (Inr uri, w')"
  shows "uri = FILE_SCHEME @ blobPath E org i"
    and "w' = w\<lparr>blobs := map_set (blobPath E org i) bytes (blobs w)\<rparr>"
  using assms by (auto simp: writeBlob_def Let_def bindE_Inr basic_Inr split: option.splits)

lemma starts_with_append [simp]: "starts_with (p @ s) p"
  by (simp add: starts_with_def)

lemma readBlob_at:
  "map_of (blobs w) path = Some bytes \<Longrightarrow> readBlob (FILE_SCHEME @ path) w = (Inr bytes, w)"
  by (simp add: readBlob_def run)

lemma readBlob_state: "readBlob uri w = (r, w') \<Longrightarrow> w' = w"
  by (auto simp: readBlob_def run split: if_splits option.splits dest: arg_cong [of _ _ snd])
    (cases "map_of (blobs w) (drop (length FILE_SCHEME) uri)"; simp add: run)+

lemma insert_version_Inr:
  assumes "insert_version E input mime sourceId versionId w = (Inr n, w')"
  shows "n = last_version sourceId w + 1" and "chunks w' = chunks w"
    and "readBlob (FILE_SCHEME @ blobPath E (up_organizationId input) versionId) w' = (Inr (up_bytes input), w')"
    and "\<exists>v. source_versions w' = source_versions w @ [v] \<and> sv_id v = versionId \<and> sv_source_id v = sourceId \<and>
      sv_organization_id v = up_organizationId input \<and> sv_version_number v = n \<and>
      sv_content_hash v = sha256Bytes E (up_bytes input) \<and> sv_mime_type v = mime \<and> sv_approved_at v = None \<and>
      sv_blob_uri v = FILE_SCHEME @ blobPath E (up_organizationId input) versionId"
proof -
  from assms obtain w1 w2 uri t where
    f: "find_or_insert_source input sourceId w = (Inr (), w1)" and
    b: "writeBlob E (up_organizationId input) versionId (up_bytes input) w1 = (Inr uri, w2)" and
    n: "n = last_version sourceId w1 + 1" and
    i: "insert_source_version
       \<lparr>sv_id = versionId, sv_organization_id = up_organizationId input, sv_source_id = sourceId,
        sv_version_number = n, sv_content_hash = sha256Bytes E (up_bytes input), sv_mime_type = mime,
        sv_blob_uri = uri, sv_original_filename = up_filename input, sv_parser_version = PARSER_VERSION,
        sv_effective_at = t, sv_uploaded_by = up_actorId input, sv_approved_by = None,
        sv_approved_at = None\<rparr> (w2\<lparr>draws := Suc (draws w2)\<rparr>) = (Inr (), w')"
    by (auto simp: insert_version_def bindE_Inr basic_Inr nowE_def drawE_Inr)
  note k = find_or_insert_keeps [OF f] writeBlob_Inr [OF b] insert_source_version_Inr [OF i]
  show "n = last_version sourceId w + 1" using n k by (simp add: last_version_def)
  show "chunks w' = chunks w" using k by simp
  show "readBlob (FILE_SCHEME @ blobPath E (up_organizationId input) versionId) w' = (Inr (up_bytes input), w')"
    using k by (intro readBlob_at) simp
  show "\<exists>v. source_versions w' = source_versions w @ [v] \<and> sv_id v = versionId \<and> sv_source_id v = sourceId \<and>
      sv_organization_id v = up_organizationId input \<and> sv_version_number v = n \<and>
      sv_content_hash v = sha256Bytes E (up_bytes input) \<and> sv_mime_type v = mime \<and> sv_approved_at v = None \<and>
      sv_blob_uri v = FILE_SCHEME @ blobPath E (up_organizationId input) versionId"
    using k by simp
qed

lemma upload_Inr:
  assumes "uploadSourceVersion E input w = (Inr u, w')"
  obtains mime k where "sniffMime (up_filename input) (up_bytes input) = Inr mime"
    "assertUpload (up_bytes input) mime = Inr ()"
    "insert_version E input mime (uv_sourceId u) (uv_versionId u) (w\<lparr>draws := k\<rparr>) = (Inr (uv_versionNumber u), w')"
    "uv_contentHash u = sha256Bytes E (up_bytes input)"
  using assms
  by (auto simp: uploadSourceVersion_def bindE_Inr basic_Inr drawE_Inr txnE_Inr split: option.splits)

text \<open>An accepted upload adds one version to the source, not approved, with the next version number; the
  file its URI points to holds the uploaded bytes, whose digest is the content hash of the version, and
  nothing is indexed yet.\<close>

theorem upload_reads_back:
  assumes "uploadSourceVersion E input w = (Inr u, w')"
  shows "\<exists>v. source_versions w' = source_versions w @ [v] \<and> sv_id v = uv_versionId u \<and>
      sv_source_id v = uv_sourceId u \<and> sv_version_number v = last_version (uv_sourceId u) w + 1 \<and>
      sv_approved_at v = None \<and> readBlob (sv_blob_uri v) w' = (Inr (up_bytes input), w') \<and>
      sv_content_hash v = sha256Bytes E (up_bytes input) \<and> chunks w' = chunks w"
proof -
  from assms obtain mime k where
    "insert_version E input mime (uv_sourceId u) (uv_versionId u) (w\<lparr>draws := k\<rparr>) = (Inr (uv_versionNumber u), w')"
    by (rule upload_Inr)
  from insert_version_Inr [OF this] show ?thesis by (auto simp: last_version_def)
qed

subsection \<open>Chunks of a version\<close>

lemma insert_chunk_Inr: "insert_chunk row w = (Inr u, w') \<Longrightarrow> w' = w\<lparr>chunks := chunks w @ [row]\<rparr>"
  by (auto simp: insert_chunk_def bindE_Inr basic_Inr constraintE_Inr)

definition chunk_row_of :: "source_version_row \<Rightarrow> embedding_provider \<Rightarrow> chunk_row \<Rightarrow> bool" where
  "chunk_row_of v p r \<longleftrightarrow> ck_source_version_id r = sv_id v \<and> ck_organization_id r = sv_organization_id v \<and>
     ck_embedding_provider_key r = provider_key p"

lemma write_chunk_Inr:
  assumes "write_chunk E v p x w = (Inr u, w')"
  shows "\<exists>row. w' = w\<lparr>draws := Suc (draws w), chunks := chunks w @ [row]\<rparr> \<and>
    ck_text row = chunk_text (fst x) \<and> chunk_row_of v p row"
  using assms
  by (cases x) (auto simp: write_chunk_def bindE_Inr basic_Inr drawE_Inr chunk_row_of_def dest!: insert_chunk_Inr)

lemma write_all_chunks_Inr:
  "forE (write_chunk E v p) xs w = (Inr u, w') \<Longrightarrow>
   \<exists>rows n. w' = w\<lparr>draws := n, chunks := chunks w @ rows\<rparr> \<and>
     map ck_text rows = map (chunk_text \<circ> fst) xs \<and> list_all (chunk_row_of v p) rows"
proof (induction xs arbitrary: w)
  case Nil
  then show ?case by (auto simp: basic_Inr intro!: exI [of _ "[]"] exI [of _ "draws w"])
next
  case (Cons x xs)
  then obtain w1 where s: "write_chunk E v p x w = (Inr (), w1)" "forE (write_chunk E v p) xs w1 = (Inr u, w')"
    by (auto simp: bindE_Inr)
  from write_chunk_Inr [OF s(1)] obtain row where row: "w1 = w\<lparr>draws := Suc (draws w), chunks := chunks w @ [row]\<rparr>"
      "ck_text row = chunk_text (fst x)" "chunk_row_of v p row" by blast
  from Cons.IH [OF s(2)] obtain rows n where "w' = w1\<lparr>draws := n, chunks := chunks w1 @ rows\<rparr>"
      "map ck_text rows = map (chunk_text \<circ> fst) xs" "list_all (chunk_row_of v p) rows" by blast
  with row show ?case by (intro exI [of _ "row # rows"] exI [of _ n]) simp
qed

lemma embed_tables: "embed E p texts w = (r, w') \<Longrightarrow> \<exists>q. w' = w\<lparr>sent := q\<rparr>"
  by (cases p) (auto simp: run fetchE_def intro: exI [of _ "sent w"])

lemma writeChunks_Inr:
  assumes "writeChunks E v p w = (Inr n, w')"
  shows "\<exists>bytes body rows. readBlob (sv_blob_uri v) w = (Inr bytes, w) \<and> sha256Bytes E bytes = sv_content_hash v \<and>
    extractText E (sv_mime_type v) bytes = Inr body \<and> chunks w' = chunks w @ rows \<and>
    map ck_text rows = map chunk_text (chunks_of_text E body) \<and> list_all (chunk_row_of v p) rows \<and>
    n = length rows"
proof -
  from assms obtain bytes body embeddings w0 w1 where
    r0: "readBlob (sv_blob_uri v) w = (Inr bytes, w0)" and
    r1: "sha256Bytes E bytes = sv_content_hash v" "extractText E (sv_mime_type v) bytes = Inr body" and
    e0: "embed E p (map chunk_text (chunks_of_text E body)) w0 = (Inr embeddings, w1)" and
    f: "forE (write_chunk E v p) (zip (chunks_of_text E body) embeddings) w1 = (Inr (), w')" and
    n: "n = length (chunks_of_text E body)"
    by (auto simp: writeChunks_def Let_def bindE_Inr basic_Inr txnE_Inr simp del: embed.simps)
  from readBlob_state [OF r0] have "w0 = w" .
  with r0 r1 e0 have r: "readBlob (sv_blob_uri v) w = (Inr bytes, w)" "sha256Bytes E bytes = sv_content_hash v"
      "extractText E (sv_mime_type v) bytes = Inr body" and
    e: "embed E p (map chunk_text (chunks_of_text E body)) w = (Inr embeddings, w1)" by simp_all
  from embed_tables [OF e] obtain q where q: "w1 = w\<lparr>sent := q\<rparr>" by blast
  from embed_dimensions [OF e] have l: "length embeddings = length (chunks_of_text E body)" by simp
  have z: "map (chunk_text \<circ> fst) (zip (chunks_of_text E body) embeddings) = map chunk_text (chunks_of_text E body)"
    using l by (simp flip: map_map)
  from write_all_chunks_Inr [OF f] obtain rows k where w': "w' = w1\<lparr>draws := k, chunks := chunks w1 @ rows\<rparr>"
      "map ck_text rows = map chunk_text (chunks_of_text E body)" "list_all (chunk_row_of v p) rows"
    unfolding z by blast
  from w'(2) have "length rows = length (chunks_of_text E body)" by (metis length_map)
  with r w' n q show ?thesis by auto
qed

lemma restore_knowledge_chunks [simp]:
  "chunks (restore_knowledge w u) = chunks w" "retrieval_hits (restore_knowledge w u) = retrieval_hits w"
  by (simp_all add: restore_knowledge_def)

lemma writeChunks_Inl:
  assumes "writeChunks E v p w = (Inl e, w')"
  shows "chunks w' = chunks w \<and> retrieval_hits w' = retrieval_hits w"
  using assms
  by (auto simp: writeChunks_def Let_def bindE_Inl basic_Inl basic_Inr txnE_Inl simp del: embed.simps
      dest!: readBlob_state embed_tables)

lemma chunks_of_version_append:
  "chunks w' = chunks w @ rows \<Longrightarrow> list_all (chunk_row_of v p) rows \<Longrightarrow> chunks_of_version (sv_id v) w = [] \<Longrightarrow>
   chunks_of_version (sv_id v) w' = rows"
  by (auto simp: chunks_of_version_def chunk_row_of_def list_all_iff)

lemma version_chunk_all:
  assumes "knowledge_inv w" and "v \<in> set (source_versions w)" and "c \<in> set (chunks w)"
    and "ck_source_version_id c = sv_id v"
  shows "version_chunk (sv_organization_id v) (sv_id v) c"
proof -
  from assms(1,3) obtain x where x: "x \<in> set (source_versions w)" "sv_id x = ck_source_version_id c"
      "sv_organization_id x = ck_organization_id c"
    by (auto simp: knowledge_inv_def version_in_org_def)
  have "x = v"
    using assms(1,2,4) x by (auto simp: knowledge_inv_def distinct_map dest: inj_onD)
  with x assms(4) show ?thesis by (simp add: version_chunk_def)
qed

lemma loadVersion_Inr:
  "loadVersion org i w = (Inr v, w') \<longleftrightarrow>
     w' = w \<and> find (\<lambda>v. sv_id v = i) (source_versions w) = Some v \<and> sv_organization_id v = org"
  by (auto simp: loadVersion_def bindE_Inr basic_Inr split: option.splits if_splits)

definition dropped :: "id \<Rightarrow> id \<Rightarrow> 'w knowledge_world_scheme \<Rightarrow> 'w knowledge_world_scheme" where
  "dropped org i w = snd (drop_chunks org i w)"

lemma dropped_simps:
  "chunks (dropped org i w) = filter (\<lambda>c. \<not> version_chunk org i c) (chunks w)"
  "retrieval_hits (dropped org i w) =
     filter (\<lambda>h. rh_chunk_id h \<notin> ck_id ` set (filter (version_chunk org i) (chunks w))) (retrieval_hits w)"
  "blobs (dropped org i w) = blobs w"
  by (simp_all add: dropped_def drop_chunks_run)

lemma reindex_run:
  assumes "find (\<lambda>v. sv_id v = i) (source_versions w) = Some v" "sv_organization_id v = org"
  shows "reindexSourceVersion E org i p w = writeChunks E v p (dropped org i w)"
proof -
  have "loadVersion org i w = (Inr v, w)" using assms by (simp add: loadVersion_Inr)
  moreover have "txnE restore_knowledge (drop_chunks org i) w = (Inr (), dropped org i w)"
    by (simp add: txnE_def dropped_def drop_chunks_run)
  ultimately show ?thesis by (simp add: reindexSourceVersion_def bindE_def)
qed

lemma dropped_version:
  assumes "knowledge_inv w" and "find (\<lambda>v. sv_id v = i) (source_versions w) = Some v"
  shows "chunks_of_version i (dropped (sv_organization_id v) i w) = []"
proof -
  from find_SomeD [OF assms(2)] have v: "v \<in> set (source_versions w)" "sv_id v = i" by auto
  show ?thesis
    using version_chunk_all [OF assms(1) v(1)] v(2)
    by (auto simp: chunks_of_version_def dropped_simps filter_empty_conv)
qed

text \<open>C30: After a first or a repeated indexing of a version, its chunks are the chunks of the text extracted from
  the file its URI points to, in order, made with the given provider; and the bytes of that file have the
  digest recorded when the version was uploaded.\<close>

theorem indexed_chunks_of_recorded_bytes:
  assumes "knowledge_inv w"
    and "reindexSourceVersion E org i p w = (Inr n, w') \<or>
      chunks_of_version i w = [] \<and> indexSourceVersion E org i p w = (Inr n, w')"
  shows "\<exists>v bytes body. v \<in> set (source_versions w) \<and> sv_id v = i \<and> sv_organization_id v = org \<and>
    fst (readBlob (sv_blob_uri v) w) = Inr bytes \<and> sha256Bytes E bytes = sv_content_hash v \<and>
    extractText E (sv_mime_type v) bytes = Inr body \<and>
    map ck_text (chunks_of_version i w') = map chunk_text (chunks_of_text E body) \<and>
    list_all (\<lambda>c. ck_embedding_provider_key c = provider_key p) (chunks_of_version i w') \<and>
    n = length (chunks_of_version i w')"
proof -
  obtain v w0 where v: "find (\<lambda>v. sv_id v = i) (source_versions w) = Some v" "sv_organization_id v = org" and
    wc: "writeChunks E v p w0 = (Inr n, w')" and e: "chunks_of_version i w0 = []" and b: "blobs w0 = blobs w"
    using assms(2)
  proof
    assume r: "reindexSourceVersion E org i p w = (Inr n, w')"
    then obtain v where v: "find (\<lambda>v. sv_id v = i) (source_versions w) = Some v" "sv_organization_id v = org"
      by (auto simp: reindexSourceVersion_def bindE_Inr loadVersion_Inr)
    from r reindex_run [OF v, of E p] dropped_version [OF assms(1) v(1)] v(2) show thesis
      by (intro that [OF v, of "dropped org i w"]) (simp_all add: dropped_simps)
  next
    assume r: "chunks_of_version i w = [] \<and> indexSourceVersion E org i p w = (Inr n, w')"
    then show thesis
      by (auto simp: indexSourceVersion_def bindE_Inr basic_Inr loadVersion_Inr intro: that)
  qed
  from find_SomeD [OF v(1)] have m: "v \<in> set (source_versions w)" "sv_id v = i" by auto
  from writeChunks_Inr [OF wc] obtain bytes body rows where
    w: "readBlob (sv_blob_uri v) w0 = (Inr bytes, w0)" "sha256Bytes E bytes = sv_content_hash v"
      "extractText E (sv_mime_type v) bytes = Inr body" "chunks w' = chunks w0 @ rows"
      "map ck_text rows = map chunk_text (chunks_of_text E body)" "list_all (chunk_row_of v p) rows" "n = length rows"
    by blast
  from chunks_of_version_append [OF w(4,6)] e m(2) have c: "chunks_of_version i w' = rows" by simp
  have "fst (readBlob (sv_blob_uri v) w) = Inr bytes"
    using w(1) by (simp add: readBlob_def bindE_def getsE_def expectE_def throw_def b split: if_splits option.splits)
  with v m w c show ?thesis
    by (intro exI [of _ v] exI [of _ bytes] exI [of _ body]) (auto simp: list_all_iff chunk_row_of_def)
qed

text \<open>A repeated indexing that fails has already thrown away what it was to replace: whatever makes the new
  chunks fail (a missing or changed file, the parser, the provider), the version is left without any chunk,
  and the recorded hits of earlier retrievals on its chunks are gone.\<close>

theorem failed_reindex_loses_chunks:
  assumes "knowledge_inv w" and "reindexSourceVersion E org i p w = (Inl e, w')"
    and "find (\<lambda>v. sv_id v = i) (source_versions w) = Some v" and "sv_organization_id v = org"
  shows "chunks_of_version i w' = [] \<and>
    (\<forall>c\<in>set (chunks_of_version i w). \<forall>h\<in>set (retrieval_hits w'). rh_chunk_id h \<noteq> ck_id c)"
proof -
  from find_SomeD [OF assms(3)] have v: "v \<in> set (source_versions w)" "sv_id v = i" by auto
  from assms(2) reindex_run [OF assms(3,4), of E p] have "writeChunks E v p (dropped org i w) = (Inl e, w')" by simp
  from writeChunks_Inl [OF this]
  have w': "chunks w' = chunks (dropped org i w)" "retrieval_hits w' = retrieval_hits (dropped org i w)" by simp_all
  from dropped_version [OF assms(1,3)] assms(4) have "chunks_of_version i w' = []"
    by (simp add: chunks_of_version_def w')
  moreover have "rh_chunk_id h \<noteq> ck_id c" if "c \<in> set (chunks_of_version i w)" "h \<in> set (retrieval_hits w')" for c h
    using that version_chunk_all [OF assms(1) v(1), of c] v(2) assms(4)
    by (auto simp: w' dropped_simps chunks_of_version_def)
  ultimately show ?thesis by blast
qed

subsection \<open>A small library\<close>

definition sample_knowledge_env :: knowledge_env where
  "sample_knowledge_env = net_env.extend sample_net_env
     \<lparr>data_root = ''/data'', disk_error = (\<lambda>p. None), decode_utf8 = map (\<lambda>b. char_of (unat b)),
      parser_slow = (\<lambda>b. False), pdf_pages = (\<lambda>b. Inr 0), pdf_page_items = (\<lambda>b n. Inr []),
      zip_load = (\<lambda>b. Inr []), number_value = (\<lambda>t. None),
      vector_search = (\<lambda>q rows n. take n (map (\<lambda>r. (fst r, Dbl 1 0)) rows)),
      ts_match = (\<lambda>q t. includes_text t q), ts_rank = (\<lambda>q t. Dbl 1 0), db_collation = (\<le>)\<rparr>"

definition empty_knowledge :: knowledge_world where
  "empty_knowledge = social_world.extend (net_world.extend empty_net \<lparr>content_items = []\<rparr>)
     \<lparr>collections = [], collection_permissions = [], sources = [], source_versions = [], chunks = [],
      retrieval_runs = [], retrieval_hits = [], blobs = []\<rparr>"

definition sample_bytes :: "byte list" where "sample_bytes = utf8 ''leave is 20 days''"

definition sample_version :: source_version_row where
  "sample_version = \<lparr>sv_id = ''v1'', sv_organization_id = ''o1'', sv_source_id = ''s1'', sv_version_number = 1,
     sv_content_hash = sha256Bytes sample_knowledge_env sample_bytes, sv_mime_type = PLAIN_MIME,
     sv_blob_uri = FILE_SCHEME @ ''/data/blobs/o1/v1'', sv_original_filename = ''leave.txt'',
     sv_parser_version = PARSER_VERSION, sv_effective_at = 0, sv_uploaded_by = ''u1'', sv_approved_by = Some ''u2'',
     sv_approved_at = Some 1\<rparr>"

definition sample_chunk :: chunk_row where
  "sample_chunk = \<lparr>ck_id = ''c1'', ck_organization_id = ''o1'', ck_source_version_id = ''v1'', ck_chunk_index = 0,
     ck_page_number = None, ck_section = None, ck_text = ''leave is 20 days'', ck_text_hash = '''',
     ck_token_count = 4, ck_embedding = ''[]'', ck_metadata = JObj [], ck_embedding_provider_key = ''mock'',
     ck_embedding_dimensions = 768\<rparr>"

definition sample_library :: knowledge_world where
  "sample_library = empty_knowledge
     \<lparr>organizations := [\<lparr>or_id = ''o1'', or_name = ''O'', or_slug = ''o''\<rparr>],
      users := [\<lparr>us_id = ''u1'', us_email = ''u1'', us_password_hash = '''', us_display_name = '''', us_disabled_at = None\<rparr>],
      collections := [\<lparr>co_id = ''k1'', co_organization_id = ''o1'', co_name = ''HR'', co_classification = Internal,
        co_created_by = ''u1'', co_created_at = 0\<rparr>],
      collection_permissions := [\<lparr>cp_id = ''p1'', cp_collection_id = ''k1'', cp_organization_id = ''o1'',
        cp_role_id = ''r1'', cp_can_read = True, cp_can_manage = False, cp_can_approve = False\<rparr>],
      sources := [\<lparr>so_id = ''s1'', so_organization_id = ''o1'', so_collection_id = ''k1'', so_title = ''Leave'',
        so_created_by = ''u1''\<rparr>],
      source_versions := [sample_version], chunks := [sample_chunk],
      blobs := [(''/data/blobs/o1/v1'', sample_bytes)]\<rparr>"

lemma empty_knowledge_tables:
  "collections empty_knowledge = []" "collection_permissions empty_knowledge = []" "sources empty_knowledge = []"
  "source_versions empty_knowledge = []" "chunks empty_knowledge = []" "retrieval_runs empty_knowledge = []"
  "retrieval_hits empty_knowledge = []" "blobs empty_knowledge = []"
  by (simp_all add: empty_knowledge_def social_world.defs knowledge_world.defs)

lemma knowledge_inv_empty: "knowledge_inv empty_knowledge"
  by (simp add: knowledge_inv_def empty_knowledge_tables)

lemma sample_library_inv: "knowledge_inv sample_library"
  by (simp add: knowledge_inv_def in_org_defs sample_library_def sample_version_def sample_chunk_def
      empty_knowledge_tables)

lemma sample_knowledge_simps [simp]:
  "vector_search sample_knowledge_env q rows n = take n (map (\<lambda>r. (fst r, Dbl 1 0)) rows)"
  "ts_match sample_knowledge_env q t = includes_text t q" "ts_rank sample_knowledge_env q t = Dbl 1 0"
  "decode_utf8 sample_knowledge_env bs = map (\<lambda>b. char_of (unat b)) bs"
  "disk_error sample_knowledge_env p = None" "data_root sample_knowledge_env = ''/data''"
  by (simp_all add: sample_knowledge_env_def net_env.defs)

lemma sample_version_simps:
  "find (\<lambda>v. sv_id v = ''v1'') (source_versions sample_library) = Some sample_version"
  "sv_organization_id sample_version = ''o1''"
  by (simp_all add: sample_library_def sample_version_def)

lemma decode_ascii: "list_all (\<lambda>c. of_char c < (128 :: nat)) s \<Longrightarrow> map (\<lambda>b. char_of (unat b)) (utf8 s) = s"
  by (induction s) (auto simp: utf8_def utf8_char_def Let_def unat_of_nat)

lemma sample_text: "extractText sample_knowledge_env PLAIN_MIME sample_bytes = Inr ''leave is 20 days''"
  by (simp add: extractText_def sample_bytes_def decode_ascii)

lemma sample_chunks:
  "map chunk_text (chunks_of_text sample_knowledge_env ''leave is 20 days'') = [''leave is 20 days'']"
  by (simp add: chunks_of_text_def chunkText_def default_max_chars_def paragraph_pieces_def trim_def trim_start_def
      trim_end_def is_js_space_def blank_line_def LF_def chunk_of_def)

lemma sample_reindex:
  "\<exists>w'. reindexSourceVersion sample_knowledge_env ''o1'' ''v1'' MockEmbeddingProvider sample_library = (Inr 1, w')"
proof -
  obtain c where c: "chunks_of_text sample_knowledge_env ''leave is 20 days'' = [c]" "chunkIndex c = 0"
    by (simp add: chunks_of_text_def chunkText_def default_max_chars_def paragraph_pieces_def trim_def trim_start_def
      trim_end_def is_js_space_def blank_line_def LF_def chunk_of_def)
  show ?thesis
    unfolding reindex_run [OF sample_version_simps]
    by (simp add: writeChunks_def run readBlob_at sample_text c embed.simps(1) write_chunk_def literal_of_def
        insert_chunk_def PRODUCTION_EMBEDDING_DIMENSIONS_def EMBEDDING_DIM_def dropped_def drop_chunks_run
        sample_version_def version_chunk_def sample_library_def sample_chunk_def version_in_org_def)
qed

theorem indexed_chunks_of_recorded_bytes_witness:
  "\<exists>w' :: knowledge_world. map ck_text (chunks_of_version ''v1'' w') = [''leave is 20 days'']"
proof -
  obtain w' where w': "reindexSourceVersion sample_knowledge_env ''o1'' ''v1'' MockEmbeddingProvider sample_library =
      (Inr 1, w')" using sample_reindex by blast
  from indexed_chunks_of_recorded_bytes [OF sample_library_inv disjI1 [OF w']] obtain v bytes body where
    v: "v \<in> set (source_versions sample_library)" "fst (readBlob (sv_blob_uri v) sample_library) = Inr bytes"
      "extractText sample_knowledge_env (sv_mime_type v) bytes = Inr body"
      "map ck_text (chunks_of_version ''v1'' w') = map chunk_text (chunks_of_text sample_knowledge_env body)"
    by blast
  have v': "bytes = sample_bytes" "v = sample_version"
    using v(1,2) by (simp_all add: sample_library_def sample_version_def readBlob_at)
  from v(3) [unfolded v'] sample_text have body: "body = ''leave is 20 days''" by (simp add: sample_version_def)
  show ?thesis using v(4) unfolding body sample_chunks by - (rule exI [of _ w'])
qed

text \<open>The provider answers with a body that has no vectors.\<close>

theorem failed_reindex_loses_chunks_witness:
  "chunks_of_version ''v1'' sample_library = [sample_chunk] \<and>
   (\<exists>w'. chunks_of_version ''v1'' w' = [] \<and>
     snd (reindexSourceVersion sample_knowledge_env ''o1'' ''v1''
       (OpenAICompatibleEmbeddingProvider ''u'' ''m'' None) sample_library) = w')"
proof -
  let ?p = "OpenAICompatibleEmbeddingProvider ''u'' ''m'' None"
  obtain c where c: "chunks_of_text sample_knowledge_env ''leave is 20 days'' = [c]"
    using sample_chunks by (auto simp: map_eq_Cons_conv)
  have f: "fetch sample_knowledge_env n q = Reply 200 (JsonBody (JObj [(''id'', JStr ''page_1'')]))" for n q
    by (simp add: sample_knowledge_env_def sample_net_env_def net_env.defs auth_env.defs)
  have "embed_reply sample_knowledge_env 1 (Reply 200 (JsonBody (JObj [(''id'', JStr ''page_1'')]))) =
      Inl (PlainError ''embedding provider returned unexpected count'')"
    by (simp add: embed_reply_def reply_ok_def reply_vectors_def or_else_def nullish_def)
  then have "\<exists>e w'. reindexSourceVersion sample_knowledge_env ''o1'' ''v1'' ?p sample_library = (Inl e, w')"
    unfolding reindex_run [OF sample_version_simps]
    by (simp add: writeChunks_def run fetchE_def f sample_text c embed.simps dropped_def drop_chunks_run
        sample_version_def sample_library_def readBlob_at)
  then obtain e w' where w': "reindexSourceVersion sample_knowledge_env ''o1'' ''v1'' ?p sample_library = (Inl e, w')"
    by blast
  from failed_reindex_loses_chunks [OF sample_library_inv w' sample_version_simps] w'
  show ?thesis by (simp add: chunks_of_version_def sample_library_def sample_chunk_def)
qed

theorem upload_reads_back_witness:
  "\<exists>w' :: knowledge_world. \<exists>v\<in>set (source_versions w'). readBlob (sv_blob_uri v) w' = (Inr [0x68, 0x69], w') \<and> sv_version_number v = 2"
proof -
  define input where "input = \<lparr>up_organizationId = ''o1'', up_collectionId = ''k1'', up_actorId = ''u1'', up_title = ''Leave'',
    up_filename = ''a.md'', up_bytes = [0x68, 0x69], up_sourceId = Some ''s1''\<rparr>"
  have s: "sniffMime (up_filename input) (up_bytes input) = Inr MARKDOWN_MIME"
    by (simp add: input_def sniffMime_def assertSafeFilename_def starts_with_def toLowerCase_def lower_char_def
        ends_with_def subarray_def PDF_MAGIC_def ZIP_MAGIC_def)
  have a: "assertUpload (up_bytes input) MARKDOWN_MIME = Inr ()"
    by (simp add: input_def assertUpload_def MAX_UPLOAD_BYTES_def ALLOWED_MIME_def assertSafeText_def)
  have uuid: "randomUUID sample_knowledge_env n = ''uuid-'' @ show_nat n" for n
    by (simp add: sample_knowledge_env_def sample_net_env_def sample_auth_env_def sample_clock_env_def
        sample_env_def net_env.defs auth_env.defs env.defs crypto.defs)
  have h: "sha256Bytes sample_knowledge_env [0x68, 0x69] \<noteq> sha256Bytes sample_knowledge_env sample_bytes"
    by (simp add: sha256Bytes_def sample_knowledge_env_def sample_net_env_def sample_auth_env_def sample_clock_env_def
        sample_env_def sample_crypto_def net_env.defs auth_env.defs env.defs crypto.defs sample_sha256_def
        sample_bytes_def utf8_def utf8_char_def lower_hex_inj)
  have "\<exists>u w'. uploadSourceVersion sample_knowledge_env input sample_library = (Inr u, w') \<and> uv_sourceId u = ''s1''"
    unfolding uploadSourceVersion_def s
    by (simp add: run a insert_version_def find_or_insert_source_def last_version_def writeBlob_def nowE_def
        insert_source_version_def source_in_org_def user_exists_def)
      (simp add: input_def run Let_def last_version_def sample_library_def sample_version_def h h [symmetric] uuid)
  then obtain u w' where w': "uploadSourceVersion sample_knowledge_env input sample_library = (Inr u, w')"
      "uv_sourceId u = ''s1''" by blast
  from upload_reads_back [OF w'(1)] w'(2) show ?thesis
    by (intro exI [of _ w']) (auto simp: last_version_def sample_library_def sample_version_def input_def)
qed

end
