(* ===== verification/Retrieve.thy ===== *)
theory Retrieve
  imports Ingest
begin

text \<open>
  Retrieval: \<open>packages/knowledge/src/retrieve.ts\<close>.  The collections a role may read within a
  classification ceiling, the vector search and the keyword search over their approved versions, the
  fusion of both rankings, and the record of the run with one row per candidate.  The vector search is
  answered by an approximate index: which of the rows it was asked about it returns, and in which order, is
  left open.
\<close>

record candidate_row =
  cr_chunk_id :: id
  cr_source_id :: id
  cr_source_version_id :: id
  cr_collection_id :: id
  cr_title :: string
  cr_page_number :: "int option"
  cr_section :: "string option"
  cr_text :: string
  cr_content_hash :: string

record candidate =
  cd_row :: candidate_row
  cd_vector_score :: double
  cd_keyword_score :: double
  cd_retrieved :: bool
  cd_ranked :: bool

record knowledge_hit =
  kh_chunk_id :: id
  kh_source_id :: id
  kh_source_version_id :: id
  kh_title :: string
  kh_page :: "int option"
  kh_section :: "string option"
  kh_text :: string
  kh_content_hash :: string
  kh_vector_score :: double
  kh_keyword_score :: double
  kh_rerank_score :: double
  kh_rank :: nat

record retrieve_input =
  re_organizationId :: id
  re_actorId :: id
  re_roleId :: id
  re_executionId :: "id option"
  re_query :: string
  re_collectionIds :: "id list"
  re_mode :: knowledge_mode
  re_topK :: int
  re_classificationCeiling :: data_classification

record retrieve_response =
  rs_retrieval_run_id :: id
  rs_mode :: knowledge_mode
  rs_insufficient_evidence :: bool
  rs_hits :: "knowledge_hit list"

subsection \<open>The queries\<close>

definition clamp_top :: "int \<Rightarrow> nat" where
  "clamp_top k = nat (min (max k 1) 20)"

definition allowed_collections :: "retrieve_input \<Rightarrow> 'w knowledge_world_scheme \<Rightarrow> id list" where
  "allowed_collections input w =
     map co_id (filter (\<lambda>c. CLASSIFICATION_RANK (co_classification c) \<le>
         CLASSIFICATION_RANK (re_classificationCeiling input))
       (filter (\<lambda>c. readable (re_organizationId input) (re_roleId input) c w \<and>
           co_id c \<in> set (re_collectionIds input)) (collections w)))"

definition version_of_chunk :: "chunk_row \<Rightarrow> 'w knowledge_world_scheme \<Rightarrow> source_version_row option" where
  "version_of_chunk c w =
     find (\<lambda>v. sv_id v = ck_source_version_id c \<and> sv_organization_id v = ck_organization_id c)
       (source_versions w)"

definition joined :: "chunk_row \<Rightarrow> 'w knowledge_world_scheme \<Rightarrow> (source_version_row \<times> source_row) option" where
  "joined c w =
     (case version_of_chunk c w of None \<Rightarrow> None
      | Some v \<Rightarrow> map_option (\<lambda>s. (v, s)) (source_of_version v w))"

definition candidate_row_of :: "chunk_row \<Rightarrow> source_version_row \<times> source_row \<Rightarrow> candidate_row" where
  "candidate_row_of c vs =
     \<lparr>cr_chunk_id = ck_id c, cr_source_id = so_id (snd vs), cr_source_version_id = sv_id (fst vs),
      cr_collection_id = so_collection_id (snd vs), cr_title = so_title (snd vs),
      cr_page_number = ck_page_number c, cr_section = ck_section c, cr_text = ck_text c,
      cr_content_hash = sv_content_hash (fst vs)\<rparr>"

text \<open>The \<open>WHERE\<close> clause both searches share.\<close>

definition eligible :: "id \<Rightarrow> id list \<Rightarrow> embedding_provider \<Rightarrow> 'w knowledge_world_scheme \<Rightarrow> chunk_row \<Rightarrow> bool" where
  "eligible org allowed provider w c \<longleftrightarrow>
     (case joined c w of None \<Rightarrow> False
      | Some (v, s) \<Rightarrow> ck_organization_id c = org \<and> so_collection_id s \<in> set allowed \<and>
          sv_approved_at v \<noteq> None \<and> ck_embedding_provider_key c = provider_key provider \<and>
          ck_embedding_dimensions c = provider_dimensions provider)"

definition eligible_chunks ::
    "id \<Rightarrow> id list \<Rightarrow> embedding_provider \<Rightarrow> 'w knowledge_world_scheme \<Rightarrow> chunk_row list" where
  "eligible_chunks org allowed provider w = filter (eligible org allowed provider w) (chunks w)"

definition row_of_chunk :: "'w knowledge_world_scheme \<Rightarrow> chunk_row \<Rightarrow> candidate_row" where
  "row_of_chunk w c = candidate_row_of c (the (joined c w))"

definition vector_rows ::
    "'a knowledge_env_scheme \<Rightarrow> string \<Rightarrow> chunk_row list \<Rightarrow> nat \<Rightarrow> (chunk_row \<times> double) list" where
  "vector_rows E q cs n =
     concat (map (\<lambda>(i, score). map (\<lambda>c. (c, score)) (filter (\<lambda>c. ck_id c = i) cs))
       (vector_search E q (map (\<lambda>c. (ck_id c, ck_embedding c)) cs) n))"

definition keyword_rows ::
    "'a knowledge_env_scheme \<Rightarrow> string \<Rightarrow> chunk_row list \<Rightarrow> nat \<Rightarrow> (chunk_row \<times> double) list" where
  "keyword_rows E q cs n =
     take n (sort_before (\<lambda>x y. d_le (snd y) (snd x))
       (map (\<lambda>c. (c, ts_rank E q (ck_text c))) (filter (\<lambda>c. ts_match E q (ck_text c)) cs)))"

subsection \<open>Candidates, ranking and hits\<close>

definition add_vector :: "candidate_row \<times> double \<Rightarrow> (id \<times> candidate) list \<Rightarrow> (id \<times> candidate) list" where
  "add_vector = (\<lambda>(row, score) byId.
     let current = (case map_of byId (cr_chunk_id row) of Some c \<Rightarrow> c
         | None \<Rightarrow> \<lparr>cd_row = row, cd_vector_score = d_zero, cd_keyword_score = d_zero, cd_retrieved = True,
             cd_ranked = False\<rparr>) in
     map_set (cr_chunk_id row) (current\<lparr>cd_retrieved := True, cd_vector_score := score\<rparr>) byId)"

definition add_keyword :: "candidate_row \<times> double \<Rightarrow> (id \<times> candidate) list \<Rightarrow> (id \<times> candidate) list" where
  "add_keyword = (\<lambda>(row, score) byId.
     let current = (case map_of byId (cr_chunk_id row) of Some c \<Rightarrow> c
         | None \<Rightarrow> \<lparr>cd_row = row, cd_vector_score = d_zero, cd_keyword_score = d_zero, cd_retrieved = True,
             cd_ranked = False\<rparr>) in
     map_set (cr_chunk_id row) (current\<lparr>cd_retrieved := True, cd_keyword_score := score\<rparr>) byId)"

definition ranking :: "(candidate_row \<times> double) list \<Rightarrow> ranked_item list" where
  "ranking rows =
     map (\<lambda>(index, row, score). \<lparr>rk_id = cr_chunk_id row, rk_rank = index + 1, rk_weight = None\<rparr>) (enumerate 0 rows)"

definition ranked_ids ::
    "(candidate_row \<times> double) list \<Rightarrow> (candidate_row \<times> double) list \<Rightarrow> nat \<Rightarrow> (id \<times> double) list" where
  "ranked_ids vector keyword topK =
     take topK (sort_before (\<lambda>a b. d_le (snd b) (snd a))
       (reciprocalRankFusion [ranking vector, ranking keyword] 60))"

definition mark_ranked :: "id list \<Rightarrow> id \<times> candidate \<Rightarrow> id \<times> candidate" where
  "mark_ranked ids = (\<lambda>(i, c). (i, if i \<in> set ids then c\<lparr>cd_ranked := True\<rparr> else c))"

definition hit_of :: "(id \<times> candidate) list \<Rightarrow> nat \<times> id \<times> double \<Rightarrow> knowledge_hit" where
  "hit_of byId = (\<lambda>(index, i, score).
     let c = the (map_of byId i); row = cd_row c in
     \<lparr>kh_chunk_id = cr_chunk_id row, kh_source_id = cr_source_id row,
      kh_source_version_id = cr_source_version_id row, kh_title = cr_title row, kh_page = cr_page_number row,
      kh_section = cr_section row, kh_text = cr_text row, kh_content_hash = cr_content_hash row,
      kh_vector_score = cd_vector_score c, kh_keyword_score = cd_keyword_score c, kh_rerank_score = score,
      kh_rank = index + 1\<rparr>)"

subsection \<open>Recording the run\<close>

definition index_of :: "id \<Rightarrow> id list \<Rightarrow> nat option" where
  "index_of i ids = map_of (zip ids [0..<length ids]) i"

definition hit_row ::
    "retrieve_input \<Rightarrow> id \<Rightarrow> (id \<times> double) list \<Rightarrow> id list \<Rightarrow> nat \<Rightarrow> id \<Rightarrow> candidate \<Rightarrow> retrieval_hit_row" where
  "hit_row input runId placed returnedIds retrievedOnly hitId c =
     (let row = cd_row c; i = cr_chunk_id row in
      \<lparr>rh_id = hitId, rh_retrieval_run_id = runId, rh_organization_id = re_organizationId input,
       rh_chunk_id = i, rh_source_id = cr_source_id row, rh_source_version_id = cr_source_version_id row,
       rh_collection_id = cr_collection_id row, rh_content_hash = cr_content_hash row,
       rh_rank = (case index_of i (map fst placed) of Some n \<Rightarrow> n + 1 | None \<Rightarrow> 10000 + retrievedOnly),
       rh_vector_score = cd_vector_score c, rh_keyword_score = cd_keyword_score c,
       rh_rerank_score = map_of placed i, rh_included_in_context = False, rh_retrieved = cd_retrieved c,
       rh_ranked = cd_ranked c, rh_returned_to_caller = i \<in> set returnedIds\<rparr>)"

primrec record_hits ::
    "'a knowledge_env_scheme \<Rightarrow> retrieve_input \<Rightarrow> id \<Rightarrow> (id \<times> double) list \<Rightarrow> id list \<Rightarrow> nat \<Rightarrow> candidate list \<Rightarrow>
     (err, 'w knowledge_world_scheme, unit) op" where
  "record_hits E input runId placed returnedIds retrievedOnly [] = ret ()"
| "record_hits E input runId placed returnedIds retrievedOnly (c # cs) =
     bindE (drawE (randomUUID E)) (\<lambda>hitId.
     bindE (insert_retrieval_hit (hit_row input runId placed returnedIds retrievedOnly hitId c)) (\<lambda>_.
     record_hits E input runId placed returnedIds
       (if cr_chunk_id (cd_row c) \<in> set (map fst placed) then retrievedOnly else retrievedOnly + 1) cs))"

definition run_row ::
    "'a knowledge_env_scheme \<Rightarrow> retrieve_input \<Rightarrow> bool \<Rightarrow> embedding_provider \<Rightarrow> id \<Rightarrow> retrieval_run_row" where
  "run_row E input insufficient provider runId =
     \<lparr>rr_id = runId, rr_organization_id = re_organizationId input, rr_execution_id = re_executionId input,
      rr_actor_id = re_actorId input, rr_query = re_query input, rr_query_hash = sha256Text E (re_query input),
      rr_mode = re_mode input, rr_collection_ids = re_collectionIds input,
      rr_classification_ceiling = re_classificationCeiling input, rr_insufficient_evidence = insufficient,
      rr_embedding_provider_key = provider_key provider,
      rr_embedding_dimensions = provider_dimensions provider\<rparr>"

definition persistRun ::
    "'a knowledge_env_scheme \<Rightarrow> retrieve_input \<Rightarrow> bool \<Rightarrow> knowledge_hit list \<Rightarrow> (id \<times> candidate) list \<Rightarrow>
     (id \<times> double) list \<Rightarrow> id list \<Rightarrow> embedding_provider \<Rightarrow> (err, 'w knowledge_world_scheme, retrieve_response) op" where
  "persistRun E input insufficient hits candidates placed returnedIds provider =
     bindE (drawE (randomUUID E)) (\<lambda>runId.
     bindE (insert_retrieval_run (run_row E input insufficient provider runId)) (\<lambda>_.
     bindE (record_hits E input runId placed returnedIds 0 (map snd candidates)) (\<lambda>_.
     ret \<lparr>rs_retrieval_run_id = runId, rs_mode = re_mode input, rs_insufficient_evidence = insufficient,
          rs_hits = (if insufficient then [] else hits)\<rparr>)))"

record ranking_result =
  rg_candidates :: "(id \<times> candidate) list"
  rg_ranked :: "(id \<times> double) list"
  rg_hits :: "knowledge_hit list"
  rg_insufficient :: bool

definition rank_rows ::
    "retrieve_input \<Rightarrow> (candidate_row \<times> double) list \<Rightarrow> (candidate_row \<times> double) list \<Rightarrow> ranking_result" where
  "rank_rows input vector keyword =
     (let byId = fold add_keyword keyword (fold add_vector vector []);
          placed = ranked_ids vector keyword (clamp_top (re_topK input));
          byId' = map (mark_ranked (map fst placed)) byId in
      \<lparr>rg_candidates = byId', rg_ranked = placed, rg_hits = map (hit_of byId') (enumerate 0 placed),
       rg_insufficient = (re_mode input = Strict \<and> keyword = [])\<rparr>)"

definition search_rows ::
    "'a knowledge_env_scheme \<Rightarrow> retrieve_input \<Rightarrow> embedding_provider \<Rightarrow> id list \<Rightarrow> string \<Rightarrow>
     'w knowledge_world_scheme \<Rightarrow> (candidate_row \<times> double) list \<times> (candidate_row \<times> double) list" where
  "search_rows E input provider allowedIds queryVector w =
     (let cs = eligible_chunks (re_organizationId input) allowedIds provider w;
          limit = clamp_top (re_topK input) * 4;
          rows = map (\<lambda>(c, score). (row_of_chunk w c, score)) in
      (rows (vector_rows E queryVector cs limit), rows (keyword_rows E (re_query input) cs limit)))"

definition persist_ranking ::
    "'a knowledge_env_scheme \<Rightarrow> retrieve_input \<Rightarrow> ranking_result \<Rightarrow> embedding_provider \<Rightarrow>
     (err, 'w knowledge_world_scheme, retrieve_response) op" where
  "persist_ranking E input r provider =
     persistRun E input (rg_insufficient r) (rg_hits r) (rg_candidates r) (rg_ranked r)
       (if rg_insufficient r then [] else map kh_chunk_id (rg_hits r)) provider"

definition retrieve ::
    "'a knowledge_env_scheme \<Rightarrow> retrieve_input \<Rightarrow> embedding_provider \<Rightarrow>
     (err, 'w knowledge_world_scheme, retrieve_response) op" where
  "retrieve E input provider =
     bindE (getsE (allowed_collections input)) (\<lambda>allowedIds.
     bindE (requireE (allowedIds \<noteq> []) collection_forbidden) (\<lambda>_.
     bindE (embed E provider [re_query input]) (\<lambda>embeddings.
     bindE (liftE (literal_of (hd embeddings))) (\<lambda>queryVector.
     bindE (getsE (search_rows E input provider allowedIds queryVector)) (\<lambda>rows.
     persist_ranking E input (rank_rows input (fst rows) (snd rows)) provider)))))"

subsection \<open>Facts on candidates\<close>

definition candidates_from :: "candidate_row set \<Rightarrow> (id \<times> candidate) list \<Rightarrow> bool" where
  "candidates_from R byId \<longleftrightarrow>
     distinct (map fst byId) \<and> (\<forall>(i, c)\<in>set byId. cr_chunk_id (cd_row c) = i \<and> cd_row c \<in> R)"

lemma map_set_mem: "x \<in> set (map_set k v m) \<Longrightarrow> x = (k, v) \<or> x \<in> set m"
  by (induction k v m rule: map_set.induct) (auto split: if_splits)

lemma candidates_set:
  assumes "candidates_from R byId" and "cr_chunk_id (cd_row c) = i" and "cd_row c \<in> R"
  shows "candidates_from R (map_set i c byId)"
  using assms by (auto simp: candidates_from_def map_set_distinct dest: map_set_mem)

lemma candidates_lookup:
  "candidates_from R byId \<Longrightarrow> map_of byId i = Some c \<Longrightarrow> cr_chunk_id (cd_row c) = i \<and> cd_row c \<in> R"
  by (auto simp: candidates_from_def dest: map_of_SomeD)

lemma add_vector_from:
  "candidates_from R byId \<Longrightarrow> fst x \<in> R \<Longrightarrow> candidates_from R (add_vector x byId)"
  by (cases x) (auto simp: add_vector_def Let_def intro!: candidates_set split: option.splits dest: candidates_lookup)

lemma add_keyword_from:
  "candidates_from R byId \<Longrightarrow> fst x \<in> R \<Longrightarrow> candidates_from R (add_keyword x byId)"
  by (cases x) (auto simp: add_keyword_def Let_def intro!: candidates_set split: option.splits dest: candidates_lookup)

lemma fold_vector_from:
  "candidates_from R byId \<Longrightarrow> fst ` set rows \<subseteq> R \<Longrightarrow> candidates_from R (fold add_vector rows byId)"
  by (induction rows arbitrary: byId) (simp_all add: add_vector_from)

lemma fold_keyword_from:
  "candidates_from R byId \<Longrightarrow> fst ` set rows \<subseteq> R \<Longrightarrow> candidates_from R (fold add_keyword rows byId)"
  by (induction rows arbitrary: byId) (simp_all add: add_keyword_from)

lemma add_keys:
  "fst ` set (add_vector x byId) = insert (cr_chunk_id (fst x)) (fst ` set byId)"
  "fst ` set (add_keyword x byId) = insert (cr_chunk_id (fst x)) (fst ` set byId)"
  by (cases x; simp add: add_vector_def add_keyword_def Let_def map_set_keys)+

lemma fold_add_keys:
  "fst ` set (fold add_vector rows byId) = (cr_chunk_id \<circ> fst) ` set rows \<union> fst ` set byId"
  "fst ` set (fold add_keyword rows byId) = (cr_chunk_id \<circ> fst) ` set rows \<union> fst ` set byId"
  by (induction rows arbitrary: byId) (simp_all add: add_keys)

lemma mark_ranked_from: "candidates_from R byId \<Longrightarrow> candidates_from R (map (mark_ranked ids) byId)"
  by (fastforce simp: candidates_from_def mark_ranked_def comp_def case_prod_unfold)

lemma mark_ranked_keys [simp]: "fst ` set (map (mark_ranked ids) byId) = fst ` set byId"
  by (simp add: mark_ranked_def case_prod_unfold image_image)

lemma ranking_ids: "rk_id ` set (ranking rows) = (cr_chunk_id \<circ> fst) ` set rows"
proof -
  have "map rk_id (ranking rows) = map (cr_chunk_id \<circ> fst) rows"
    by (intro nth_equalityI) (auto simp: ranking_def nth_enumerate_eq case_prod_unfold)
  then show ?thesis by (metis image_set)
qed

lemma mset_insert_before [simp]: "mset (insert_before le x ys) = add_mset x (mset ys)"
  by (induction ys) auto

lemma mset_sort_before [simp]: "mset (sort_before le xs) = mset xs"
  unfolding sort_before_def by (induction xs) auto

lemma length_sort_before [simp]: "length (sort_before le xs) = length xs"
  by (metis mset_sort_before size_mset)

lemma ranked_ids_props:
  "fst ` set (ranked_ids vector keyword k) \<subseteq> (cr_chunk_id \<circ> fst) ` (set vector \<union> set keyword)"
  "distinct (map fst (ranked_ids vector keyword k))"
  "length (ranked_ids vector keyword k) \<le> k"
proof -
  let ?f = "reciprocalRankFusion [ranking vector, ranking keyword] 60"
  have "set (ranked_ids vector keyword k) \<subseteq> set ?f"
    unfolding ranked_ids_def using set_take_subset by fastforce
  moreover have "fst ` set ?f = (cr_chunk_id \<circ> fst) ` (set vector \<union> set keyword)"
    by (simp add: fusion_ids image_Un ranking_ids)
  ultimately show "fst ` set (ranked_ids vector keyword k) \<subseteq> (cr_chunk_id \<circ> fst) ` (set vector \<union> set keyword)"
    by blast
  have "mset (map fst (sort_before (\<lambda>a b. d_le (snd b) (snd a)) ?f)) = mset (map fst ?f)" by simp
  with fusion_ids(2) [of "[ranking vector, ranking keyword]" 60]
  have "distinct (map fst (sort_before (\<lambda>a b. d_le (snd b) (snd a)) ?f))" by (metis mset_eq_imp_distinct_iff)
  then show "distinct (map fst (ranked_ids vector keyword k))"
    by (simp add: ranked_ids_def flip: take_map)
  show "length (ranked_ids vector keyword k) \<le> k" by (simp add: ranked_ids_def)
qed

text \<open>The outcome of the ranking step.\<close>

lemma rank_rows_props:
  assumes "fst ` set vector \<subseteq> R" "fst ` set keyword \<subseteq> R" and "r = rank_rows input vector keyword"
  shows "candidates_from R (rg_candidates r)"
    and "fst ` set (rg_ranked r) \<subseteq> fst ` set (rg_candidates r)"
    and "distinct (map fst (rg_ranked r))" and "length (rg_ranked r) \<le> clamp_top (re_topK input)"
    and "rg_hits r = map (hit_of (rg_candidates r)) (enumerate 0 (rg_ranked r))"
proof -
  have e: "candidates_from R []" by (simp add: candidates_from_def)
  show "candidates_from R (rg_candidates r)"
    using assms fold_vector_from [OF e assms(1)]
    by (auto simp: rank_rows_def Let_def intro!: mark_ranked_from fold_keyword_from)
  show "fst ` set (rg_ranked r) \<subseteq> fst ` set (rg_candidates r)"
    using ranked_ids_props(1) [of vector keyword "clamp_top (re_topK input)"] assms(3)
    by (simp add: rank_rows_def Let_def fold_add_keys image_Un Un_commute del: set_map)
  show "distinct (map fst (rg_ranked r))" "length (rg_ranked r) \<le> clamp_top (re_topK input)"
    using ranked_ids_props(2,3) assms(3) by (simp_all add: rank_rows_def Let_def)
  show "rg_hits r = map (hit_of (rg_candidates r)) (enumerate 0 (rg_ranked r))"
    using assms(3) by (simp add: rank_rows_def Let_def)
qed

lemma hits_props:
  assumes "candidates_from R byId" and "fst ` set placed \<subseteq> fst ` set byId"
    and "hits = map (hit_of byId) (enumerate 0 placed)"
  shows "map kh_chunk_id hits = map fst placed"
    and "map kh_rank hits = [1..<length hits + 1]"
    and "\<And>h. h \<in> set hits \<Longrightarrow> \<exists>row\<in>R. kh_chunk_id h = cr_chunk_id row \<and> kh_source_id h = cr_source_id row \<and>
      kh_source_version_id h = cr_source_version_id row \<and> kh_text h = cr_text row \<and>
      kh_content_hash h = cr_content_hash row"
proof -
  have l: "\<exists>c. map_of byId i = Some c \<and> cr_chunk_id (cd_row c) = i \<and> cd_row c \<in> R"
    if "(i, s) \<in> set placed" for i s
  proof -
    from that assms(2) have "i \<in> fst ` set byId" by force
    then obtain c where "map_of byId i = Some c" by (metis map_of_eq_None_iff not_None_eq)
    with candidates_lookup [OF assms(1) this] show ?thesis by blast
  qed
  have k: "kh_chunk_id (hit_of byId (n, i, s)) = i" if "(i, s) \<in> set placed" for n i s
    using l [OF that] by (auto simp: hit_of_def Let_def)
  show "map kh_chunk_id hits = map fst placed"
  proof (rule nth_equalityI)
    fix n assume "n < length (map kh_chunk_id hits)"
    then have n: "n < length placed" by (simp add: assms(3))
    then show "map kh_chunk_id hits ! n = map fst placed ! n"
      using k [of "fst (placed ! n)" "snd (placed ! n)" n] by (simp add: assms(3) nth_enumerate_eq)
  qed (simp add: assms(3))
  show "map kh_rank hits = [1..<length hits + 1]"
    by (intro nth_equalityI) (simp_all add: assms(3) nth_enumerate_eq hit_of_def case_prod_unfold Let_def
        del: upt_Suc)
  fix h assume "h \<in> set hits"
  then obtain n i s where h: "h = hit_of byId (n, i, s)" "(i, s) \<in> set placed"
    by (auto simp: assms(3) in_set_enumerate_eq) (metis nth_mem prod.collapse)
  from l [OF h(2)] obtain c where "map_of byId i = Some c" "cd_row c \<in> R" by blast
  then show "\<exists>row\<in>R. kh_chunk_id h = cr_chunk_id row \<and> kh_source_id h = cr_source_id row \<and>
      kh_source_version_id h = cr_source_version_id row \<and> kh_text h = cr_text row \<and>
      kh_content_hash h = cr_content_hash row"
    by (auto simp: h hit_of_def Let_def)
qed

subsection \<open>What the searches return\<close>

text \<open>A row of a chunk that may be shown: of the organization, of an approved version, of a source whose
  collection was asked for, may be read by the role and is not above the ceiling.\<close>

definition permitted ::
    "retrieve_input \<Rightarrow> embedding_provider \<Rightarrow> 'w knowledge_world_scheme \<Rightarrow> chunk_row \<Rightarrow> source_version_row \<Rightarrow>
     source_row \<Rightarrow> collection_row \<Rightarrow> bool" where
  "permitted input provider w c v s col \<longleftrightarrow>
     c \<in> set (chunks w) \<and> v \<in> set (source_versions w) \<and> s \<in> set (sources w) \<and> col \<in> set (collections w) \<and>
     ck_organization_id c = re_organizationId input \<and>
     sv_id v = ck_source_version_id c \<and> so_id s = sv_source_id v \<and> co_id col = so_collection_id s \<and>
     sv_approved_at v \<noteq> None \<and> readable (re_organizationId input) (re_roleId input) col w \<and>
     co_id col \<in> set (re_collectionIds input) \<and> co_classification col \<le> re_classificationCeiling input \<and>
     ck_embedding_provider_key c = provider_key provider"

definition permitted_rows ::
    "retrieve_input \<Rightarrow> embedding_provider \<Rightarrow> 'w knowledge_world_scheme \<Rightarrow> candidate_row set" where
  "permitted_rows input provider w =
     {candidate_row_of c (v, s) | c v s. \<exists>col. permitted input provider w c v s col}"

lemma joined_sent [simp]: "joined c (w\<lparr>sent := q\<rparr>) = joined c w"
  by (simp add: joined_def version_of_chunk_def source_of_version_def cong: option.case_cong)

lemma search_rows_sent [simp]: "search_rows E input p ids v (w\<lparr>sent := q\<rparr>) = search_rows E input p ids v w"
proof -
  have "eligible org allowed p (w\<lparr>sent := q\<rparr>) = eligible org allowed p w"
    "row_of_chunk (w\<lparr>sent := q\<rparr>) = row_of_chunk w" for org allowed
    by (simp_all add: eligible_def row_of_chunk_def fun_eq_iff)
  then show ?thesis by (simp add: search_rows_def eligible_chunks_def)
qed

lemma allowed_collections_mem:
  "i \<in> set (allowed_collections input w) \<longleftrightarrow>
     (\<exists>col\<in>set (collections w). co_id col = i \<and> readable (re_organizationId input) (re_roleId input) col w \<and>
        i \<in> set (re_collectionIds input) \<and> co_classification col \<le> re_classificationCeiling input)"
  by (auto simp: allowed_collections_def)

lemma eligible_row:
  assumes "c \<in> set (eligible_chunks (re_organizationId input) (allowed_collections input w) provider w)"
  shows "row_of_chunk w c \<in> permitted_rows input provider w"
proof -
  from assms obtain v s where j: "joined c w = Some (v, s)" and c: "c \<in> set (chunks w)"
      "ck_organization_id c = re_organizationId input" "so_collection_id s \<in> set (allowed_collections input w)"
      "sv_approved_at v \<noteq> None" "ck_embedding_provider_key c = provider_key provider"
    by (auto simp: eligible_chunks_def eligible_def split: option.splits)
  from j have "v \<in> set (source_versions w)" "sv_id v = ck_source_version_id c" "s \<in> set (sources w)" "so_id s = sv_source_id v"
    by (auto simp: joined_def version_of_chunk_def source_of_version_def split: option.splits dest!: find_SomeD)
  moreover from c(3) obtain col where "col \<in> set (collections w)" "co_id col = so_collection_id s"
      "readable (re_organizationId input) (re_roleId input) col w" "co_id col \<in> set (re_collectionIds input)"
      "co_classification col \<le> re_classificationCeiling input"
    by (auto simp: allowed_collections_mem)
  ultimately have "permitted input provider w c v s col" using c by (simp add: permitted_def)
  then show ?thesis by (auto simp: permitted_rows_def row_of_chunk_def j)
qed

lemma vector_rows_mem: "(c, score) \<in> set (vector_rows E q cs n) \<Longrightarrow> c \<in> set cs"
  by (auto simp: vector_rows_def)

lemma set_sort_keyword [simp]: "set (sort_before le xs) = set xs"
  by (metis mset_sort_before set_mset_mset)

lemma keyword_rows_mem: "(c, score) \<in> set (keyword_rows E q cs n) \<Longrightarrow> c \<in> set cs \<and> ts_match E q (ck_text c)"
  by (auto simp: keyword_rows_def dest!: in_set_takeD)

lemma search_rows_permitted:
  assumes "search_rows E input provider (allowed_collections input w) q w = (vector, keyword)"
  shows "fst ` set vector \<subseteq> permitted_rows input provider w"
    and "fst ` set keyword \<subseteq> permitted_rows input provider w"
  using assms
  by (auto simp: search_rows_def Let_def intro!: eligible_row dest!: vector_rows_mem keyword_rows_mem)

subsection \<open>The record of a run\<close>

definition recorded ::
    "retrieve_input \<Rightarrow> id \<Rightarrow> (id \<times> double) list \<Rightarrow> id list \<Rightarrow> candidate \<Rightarrow> retrieval_hit_row \<Rightarrow> bool" where
  "recorded input runId placed returnedIds c row \<longleftrightarrow>
     (\<exists>hitId k. row = hit_row input runId placed returnedIds k hitId c)"

lemma insert_retrieval_hit_Inr:
  "insert_retrieval_hit row w = (Inr u, w') \<Longrightarrow> w' = w\<lparr>retrieval_hits := retrieval_hits w @ [row]\<rparr>"
  by (auto simp: insert_retrieval_hit_def bindE_Inr basic_Inr constraintE_Inr)

lemma record_hits_Inr:
  "record_hits E input runId placed returnedIds k cs w = (Inr u, w') \<Longrightarrow>
   \<exists>rows n. w' = w\<lparr>draws := n, retrieval_hits := retrieval_hits w @ rows\<rparr> \<and>
     list_all2 (recorded input runId placed returnedIds) cs rows"
proof (induction cs arbitrary: k w)
  case Nil
  then show ?case by (auto simp: basic_Inr intro!: exI [of _ "[]"] exI [of _ "draws w"])
next
  case (Cons c cs)
  from Cons.prems obtain k' hitId where rest: "record_hits E input runId placed returnedIds k' cs
      (w\<lparr>draws := Suc (draws w),
        retrieval_hits := retrieval_hits w @ [hit_row input runId placed returnedIds k hitId c]\<rparr>) = (Inr u, w')"
    by (auto simp: bindE_Inr drawE_Inr split: if_splits dest!: insert_retrieval_hit_Inr)
  from Cons.IH [OF rest] obtain rows n where
    "w' = w\<lparr>draws := n, retrieval_hits := retrieval_hits w @ [hit_row input runId placed returnedIds k hitId c] @ rows\<rparr>"
    "list_all2 (recorded input runId placed returnedIds) cs rows" by auto
  then show ?case
    by (intro exI [of _ "hit_row input runId placed returnedIds k hitId c # rows"] exI [of _ n])
      (auto simp: recorded_def [of input runId placed returnedIds c])
qed

lemma embed_state: "embed E p texts w = (r, w') \<Longrightarrow> \<exists>q. w' = w\<lparr>sent := q\<rparr>"
  by (cases p) (auto simp: run fetchE_def intro: exI [of _ "sent w"])

lemma persistRun_Inr:
  assumes "persistRun E input insufficient hits candidates placed returnedIds provider w = (Inr r, w')"
  shows "rs_hits r = (if insufficient then [] else hits)" "rs_insufficient_evidence r = insufficient"
    "rs_mode r = re_mode input"
    "\<exists>rows n. w' = w\<lparr>draws := n,
        retrieval_runs := retrieval_runs w @ [run_row E input insufficient provider (rs_retrieval_run_id r)],
        retrieval_hits := retrieval_hits w @ rows\<rparr> \<and>
       list_all2 (recorded input (rs_retrieval_run_id r) placed returnedIds) (map snd candidates) rows"
proof -
  define runId where "runId = randomUUID E (draws w)"
  define w1 where "w1 = w\<lparr>draws := Suc (draws w),
    retrieval_runs := retrieval_runs w @ [run_row E input insufficient provider runId]\<rparr>"
  from assms obtain u where h: "record_hits E input runId placed returnedIds 0 (map snd candidates) w1 = (Inr u, w')"
      and r: "r = \<lparr>rs_retrieval_run_id = runId, rs_mode = re_mode input, rs_insufficient_evidence = insufficient,
          rs_hits = (if insufficient then [] else hits)\<rparr>"
    by (auto simp: persistRun_def insert_retrieval_run_def bindE_Inr basic_Inr drawE_Inr constraintE_Inr runId_def w1_def)
  from r show "rs_hits r = (if insufficient then [] else hits)" "rs_insufficient_evidence r = insufficient"
    "rs_mode r = re_mode input" by simp_all
  from record_hits_Inr [OF h] obtain rows n where
    "w' = w1\<lparr>draws := n, retrieval_hits := retrieval_hits w1 @ rows\<rparr>"
    "list_all2 (recorded input runId placed returnedIds) (map snd candidates) rows" by blast
  then show "\<exists>rows n. w' = w\<lparr>draws := n,
        retrieval_runs := retrieval_runs w @ [run_row E input insufficient provider (rs_retrieval_run_id r)],
        retrieval_hits := retrieval_hits w @ rows\<rparr> \<and>
       list_all2 (recorded input (rs_retrieval_run_id r) placed returnedIds) (map snd candidates) rows"
    by (intro exI [of _ rows] exI [of _ n]) (simp add: r w1_def)
qed

lemma retrieve_Inr:
  assumes "retrieve E input provider w = (Inr r, w')"
  obtains q vec vector keyword rg rows n where
    "search_rows E input provider (allowed_collections input w) vec w = (vector, keyword)"
    "rg = rank_rows input vector keyword"
    "rs_hits r = (if rg_insufficient rg then [] else rg_hits rg)"
    "rs_insufficient_evidence r = rg_insufficient rg" "rs_mode r = re_mode input"
    "w' = w\<lparr>sent := q, draws := n,
        retrieval_runs := retrieval_runs w @ [run_row E input (rg_insufficient rg) provider (rs_retrieval_run_id r)],
        retrieval_hits := retrieval_hits w @ rows\<rparr>"
    "list_all2 (recorded input (rs_retrieval_run_id r) (rg_ranked rg)
       (if rg_insufficient rg then [] else map kh_chunk_id (rg_hits rg))) (map snd (rg_candidates rg)) rows"
proof -
  from assms obtain vec w1 embeddings where
    e: "embed E provider [re_query input] w = (Inr embeddings, w1)" and
    p: "persist_ranking E input (rank_rows input (fst (search_rows E input provider (allowed_collections input w) vec w1))
       (snd (search_rows E input provider (allowed_collections input w) vec w1))) provider w1 = (Inr r, w')"
    by (auto simp: retrieve_def bindE_Inr basic_Inr simp del: embed.simps)
  from embed_state [OF e] obtain q where q: "w1 = w\<lparr>sent := q\<rparr>" by blast
  obtain vector keyword where s: "search_rows E input provider (allowed_collections input w) vec w = (vector, keyword)"
    by (cases "search_rows E input provider (allowed_collections input w) vec w")
  define rg where "rg = rank_rows input vector keyword"
  from p have p: "persistRun E input (rg_insufficient rg) (rg_hits rg) (rg_candidates rg) (rg_ranked rg)
       (if rg_insufficient rg then [] else map kh_chunk_id (rg_hits rg)) provider w1 = (Inr r, w')"
    by (simp only: q s rg_def persist_ranking_def search_rows_sent fst_conv snd_conv)
  from persistRun_Inr(4) [OF p] obtain rows n where w': "w' = w1\<lparr>draws := n,
        retrieval_runs := retrieval_runs w1 @ [run_row E input (rg_insufficient rg) provider (rs_retrieval_run_id r)],
        retrieval_hits := retrieval_hits w1 @ rows\<rparr>"
      "list_all2 (recorded input (rs_retrieval_run_id r) (rg_ranked rg)
        (if rg_insufficient rg then [] else map kh_chunk_id (rg_hits rg))) (map snd (rg_candidates rg)) rows" by blast
  show thesis
    by (rule that [OF s rg_def persistRun_Inr(1-3) [OF p] _ w'(2)]) (simp add: w'(1) q)
qed
subsection \<open>What a retrieval returns and records\<close>

text \<open>C27: A hit a retrieval returns is a chunk of the organization, of an approved version of a source in a
  collection that was asked for, that the role may read and whose classification is not above the ceiling;
  the hit carries the text of that chunk and the digest of that version.\<close>

theorem retrieve_only_permitted:
  assumes "retrieve E input provider w = (Inr r, w')" and "h \<in> set (rs_hits r)"
  shows "\<exists>c v s col. permitted input provider w c v s col \<and>
     kh_chunk_id h = ck_id c \<and> kh_text h = ck_text c \<and> kh_source_version_id h = sv_id v \<and>
     kh_content_hash h = sv_content_hash v \<and> kh_source_id h = so_id s"
proof -
  from assms(1) obtain vec vector keyword rg where
    s: "search_rows E input provider (allowed_collections input w) vec w = (vector, keyword)" and
    rg: "rg = rank_rows input vector keyword" and
    hits: "rs_hits r = (if rg_insufficient rg then [] else rg_hits rg)"
    by (rule retrieve_Inr)
  note p = rank_rows_props [OF search_rows_permitted [OF s] rg]
  from assms(2) hits have "h \<in> set (rg_hits rg)" by (simp split: if_splits)
  from hits_props(3) [OF p(1,2,5) this] show ?thesis
    by (fastforce simp: permitted_rows_def candidate_row_of_def)
qed

lemma list_all2_find:
  "list_all2 P xs ys \<Longrightarrow> x \<in> set xs \<Longrightarrow> \<exists>y\<in>set ys. P x y"
  by (induction rule: list_all2_induct) auto

lemma recorded_fields:
  assumes "recorded input runId placed returnedIds c row"
  shows "rh_retrieval_run_id row = runId" "rh_organization_id row = re_organizationId input"
    "rh_chunk_id row = cr_chunk_id (cd_row c)" "rh_content_hash row = cr_content_hash (cd_row c)"
    "rh_returned_to_caller row \<longleftrightarrow> cr_chunk_id (cd_row c) \<in> set returnedIds"
    "\<not> rh_included_in_context row"
    "index_of (cr_chunk_id (cd_row c)) (map fst placed) = Some n \<Longrightarrow> rh_rank row = n + 1"
  using assms by (auto simp: recorded_def hit_row_def Let_def)

lemma index_of_nth: "distinct ids \<Longrightarrow> n < length ids \<Longrightarrow> index_of (ids ! n) ids = Some n"
  unfolding index_of_def by (subst map_of_eq_Some_iff) (auto simp: in_set_zip)

lemma retrieve_recorded:
  assumes "retrieve E input provider w = (Inr r, w')"
  shows "length (rs_hits r) \<le> 20 \<and> distinct (map kh_chunk_id (rs_hits r)) \<and>
      map kh_rank (rs_hits r) = [1..<length (rs_hits r) + 1] \<and>
      (rs_insufficient_evidence r \<longrightarrow> rs_hits r = [])"
    and "retrieval_runs w' = retrieval_runs w @
      [run_row E input (rs_insufficient_evidence r) provider (rs_retrieval_run_id r)]"
    and "\<exists>rows. retrieval_hits w' = retrieval_hits w @ rows \<and>
      (\<forall>h\<in>set (rs_hits r). \<exists>row\<in>set rows. rh_chunk_id row = kh_chunk_id h \<and> rh_rank row = kh_rank h \<and>
         rh_content_hash row = kh_content_hash h \<and> rh_returned_to_caller row) \<and>
      (\<forall>row\<in>set rows. rh_retrieval_run_id row = rs_retrieval_run_id r \<and>
         (rh_returned_to_caller row \<longrightarrow> rh_chunk_id row \<in> kh_chunk_id ` set (rs_hits r)))"
proof -
  from assms obtain vec q n vector keyword rg rows where
    s: "search_rows E input provider (allowed_collections input w) vec w = (vector, keyword)" and
    rg: "rg = rank_rows input vector keyword" and
    hits: "rs_hits r = (if rg_insufficient rg then [] else rg_hits rg)" and
    i: "rs_insufficient_evidence r = rg_insufficient rg" and
    w': "w' = w\<lparr>sent := q, draws := n,
        retrieval_runs := retrieval_runs w @ [run_row E input (rg_insufficient rg) provider (rs_retrieval_run_id r)],
        retrieval_hits := retrieval_hits w @ rows\<rparr>" and
    rows: "list_all2 (recorded input (rs_retrieval_run_id r) (rg_ranked rg)
       (if rg_insufficient rg then [] else map kh_chunk_id (rg_hits rg))) (map snd (rg_candidates rg)) rows"
    by (rule retrieve_Inr)
  note p = rank_rows_props [OF search_rows_permitted [OF s] rg]
  note h = hits_props [OF p(1,2,5)]
  have l: "length (rg_hits rg) = length (rg_ranked rg)" using h(1) by (metis length_map)
  have "clamp_top (re_topK input) \<le> 20" by (simp add: clamp_top_def)
  with p(4) l have "length (rg_hits rg) \<le> 20" by simp
  then show "length (rs_hits r) \<le> 20 \<and> distinct (map kh_chunk_id (rs_hits r)) \<and>
      map kh_rank (rs_hits r) = [1..<length (rs_hits r) + 1] \<and>
      (rs_insufficient_evidence r \<longrightarrow> rs_hits r = [])"
    using h(1,2) p(3) by (simp add: hits i del: upt_Suc)
  show "retrieval_runs w' = retrieval_runs w @
      [run_row E input (rs_insufficient_evidence r) provider (rs_retrieval_run_id r)]"
    by (simp add: w' i)
  have ret: "(if rg_insufficient rg then [] else map kh_chunk_id (rg_hits rg)) = map kh_chunk_id (rs_hits r)"
    by (simp add: hits)
  have "\<exists>row\<in>set rows. rh_chunk_id row = kh_chunk_id x \<and> rh_rank row = kh_rank x \<and>
      rh_content_hash row = kh_content_hash x \<and> rh_returned_to_caller row" if x: "x \<in> set (rs_hits r)" for x
  proof -
    from x hits have x': "x \<in> set (rg_hits rg)" by (simp split: if_splits)
    then obtain k where k: "k < length (rg_ranked rg)" "x = hit_of (rg_candidates rg) (k, rg_ranked rg ! k)"
      by (auto simp: p(5) in_set_enumerate_eq)
    define i where "i = fst (rg_ranked rg ! k)"
    have "i \<in> fst ` set (rg_candidates rg)" using p(2) k(1) by (auto simp: i_def)
    then obtain c where c: "map_of (rg_candidates rg) i = Some c" by (metis map_of_eq_None_iff not_None_eq)
    from candidates_lookup [OF p(1) c] have ci: "cr_chunk_id (cd_row c) = i" by simp
    from c have "c \<in> set (map snd (rg_candidates rg))" by (force dest: map_of_SomeD)
    from list_all2_find [OF rows this] obtain row where row: "row \<in> set rows"
      "recorded input (rs_retrieval_run_id r) (rg_ranked rg) (map kh_chunk_id (rs_hits r)) c row"
      unfolding ret by blast
    have idx: "index_of i (map fst (rg_ranked rg)) = Some k"
      using index_of_nth [OF p(3), of k] k(1) by (simp add: i_def)
    have "kh_chunk_id x = i" "kh_rank x = k + 1" "kh_content_hash x = cr_content_hash (cd_row c)"
      using c ci by (simp_all add: k(2) hit_of_def case_prod_unfold Let_def flip: i_def)
    then show ?thesis
      using row recorded_fields [OF row(2)] recorded_fields(7) [OF row(2), of k] idx ci x by force
  qed
  moreover have "rh_retrieval_run_id row = rs_retrieval_run_id r \<and>
      (rh_returned_to_caller row \<longrightarrow> rh_chunk_id row \<in> kh_chunk_id ` set (rs_hits r))" if "row \<in> set rows" for row
  proof -
    from that rows obtain c where
      "recorded input (rs_retrieval_run_id r) (rg_ranked rg) (map kh_chunk_id (rs_hits r)) c row"
      unfolding ret by (metis in_set_conv_nth list_all2_conv_all_nth)
    from recorded_fields [OF this] show ?thesis by auto
  qed
  ultimately show "\<exists>rows. retrieval_hits w' = retrieval_hits w @ rows \<and>
      (\<forall>h\<in>set (rs_hits r). \<exists>row\<in>set rows. rh_chunk_id row = kh_chunk_id h \<and> rh_rank row = kh_rank h \<and>
         rh_content_hash row = kh_content_hash h \<and> rh_returned_to_caller row) \<and>
      (\<forall>row\<in>set rows. rh_retrieval_run_id row = rs_retrieval_run_id r \<and>
         (rh_returned_to_caller row \<longrightarrow> rh_chunk_id row \<in> kh_chunk_id ` set (rs_hits r)))"
    by (intro exI [of _ rows]) (simp add: w')
qed

subsection \<open>All calls that change the tables\<close>

lemma pres_record_hits [pres]:
  "preserves knowledge_inv (record_hits E input runId placed returnedIds k cs)"
  by (induction cs arbitrary: k) (auto intro!: pres simp del: split_paired_All)

lemma pres_retrieve [pres]: "preserves knowledge_inv (retrieve E input provider)"
  unfolding retrieve_def persist_ranking_def persistRun_def by (intro pres)

datatype knowledge_call =
    CreateCollection id string data_classification id id id
  | Upload upload_input
  | Approve id id id
  | Index id id embedding_provider
  | Reindex id id embedding_provider
  | Retrieve retrieve_input embedding_provider
  | MarkIncluded id id "id list"

fun knowledge_step :: "'a knowledge_env_scheme \<Rightarrow> knowledge_call \<Rightarrow> 'w knowledge_world_scheme \<Rightarrow> 'w knowledge_world_scheme" where
  "knowledge_step E (CreateCollection org name c u r r') = as_unit (createCollection E org name c u r r')"
| "knowledge_step E (Upload i) = as_unit (uploadSourceVersion E i)"
| "knowledge_step E (Approve org v u) = as_unit (approveSourceVersion E org v u)"
| "knowledge_step E (Index org v p) = as_unit (indexSourceVersion E org v p)"
| "knowledge_step E (Reindex org v p) = as_unit (reindexSourceVersion E org v p)"
| "knowledge_step E (Retrieve i p) = as_unit (retrieve E i p)"
| "knowledge_step E (MarkIncluded org r ids) = as_unit (markChunksIncludedInContext org r ids)"

lemma knowledge_step_inv: "knowledge_inv w \<Longrightarrow> knowledge_inv (knowledge_step E c w)"
  by (cases c) (auto intro!: as_unit_inv pres)


subsection \<open>A retrieval in the small library\<close>

definition sample_query :: retrieve_input where
  "sample_query = \<lparr>re_organizationId = ''o1'', re_actorId = ''u1'', re_roleId = ''r1'', re_executionId = None,
     re_query = ''leave'', re_collectionIds = [''k1''], re_mode = Strict, re_topK = 8,
     re_classificationCeiling = Internal\<rparr>"

lemma sample_eligible:
  "allowed_collections sample_query sample_library = [''k1'']"
  "eligible_chunks ''o1'' [''k1''] MockEmbeddingProvider sample_library = [sample_chunk]"
  "map kh_chunk_id (rg_hits (rank_rows sample_query [(row_of_chunk sample_library sample_chunk, Dbl 1 0)]
     [(row_of_chunk sample_library sample_chunk, Dbl 1 0)])) = [''c1'']"
  "\<exists>c. rg_candidates (rank_rows sample_query [(row_of_chunk sample_library sample_chunk, Dbl 1 0)]
     [(row_of_chunk sample_library sample_chunk, Dbl 1 0)]) = [(''c1'', c)] \<and>
     cd_row c = row_of_chunk sample_library sample_chunk"
  "row_of_chunk sample_library sample_chunk = candidate_row_of sample_chunk (sample_version, hd (sources sample_library))"
proof -
  show "allowed_collections sample_query sample_library = [''k1'']"
    by (simp add: allowed_collections_def sample_query_def sample_library_def readable_def)
  have j: "joined sample_chunk sample_library = Some (sample_version, hd (sources sample_library))"
    by (simp add: joined_def version_of_chunk_def source_of_version_def sample_library_def sample_version_def
        sample_chunk_def)
  then show "eligible_chunks ''o1'' [''k1''] MockEmbeddingProvider sample_library = [sample_chunk]"
    by (simp add: eligible_chunks_def eligible_def sample_library_def sample_chunk_def sample_version_def
        PRODUCTION_EMBEDDING_DIMENSIONS_def EMBEDDING_DIM_def)
  have i: "cr_chunk_id (row_of_chunk sample_library sample_chunk) = ''c1''"
    by (simp add: row_of_chunk_def candidate_row_of_def sample_chunk_def)
  show "map kh_chunk_id (rg_hits (rank_rows sample_query [(row_of_chunk sample_library sample_chunk, Dbl 1 0)]
     [(row_of_chunk sample_library sample_chunk, Dbl 1 0)])) = [''c1'']"
    by (simp add: rank_rows_def ranked_ids_def reciprocalRankFusion_def fuse_item_def ranking_def Let_def i
        sort_before_def sample_query_def clamp_top_def add_vector_def add_keyword_def mark_ranked_def hit_of_def)
  show "\<exists>c. rg_candidates (rank_rows sample_query [(row_of_chunk sample_library sample_chunk, Dbl 1 0)]
     [(row_of_chunk sample_library sample_chunk, Dbl 1 0)]) = [(''c1'', c)] \<and>
     cd_row c = row_of_chunk sample_library sample_chunk"
    by (simp add: rank_rows_def Let_def i add_vector_def add_keyword_def mark_ranked_def)
  show "row_of_chunk sample_library sample_chunk = candidate_row_of sample_chunk (sample_version, hd (sources sample_library))"
    by (simp add: row_of_chunk_def j)
qed

lemma sample_query_simps:
  "re_organizationId sample_query = ''o1''" "re_actorId sample_query = ''u1''"
  by (simp_all add: sample_query_def)

lemma sample_persist:
  assumes "\<not> rg_insufficient rg" and "rg_candidates rg = [(''c1'', c)]"
    and "cd_row c = row_of_chunk sample_library sample_chunk"
  shows "\<exists>r w'. persist_ranking sample_knowledge_env sample_query rg MockEmbeddingProvider sample_library = (Inr r, w') \<and>
    rs_hits r = rg_hits rg"
  using assms
  by (simp add: persist_ranking_def persistRun_def run insert_retrieval_run_def insert_retrieval_hit_def hit_row_def
      Let_def sample_eligible(5) candidate_row_of_def in_org_defs org_exists_def user_exists_def run_row_def
      sample_query_simps)
    (simp add: run sample_library_def sample_version_def sample_chunk_def empty_knowledge_tables)

lemma sample_retrieval:
  "\<exists>r w'. retrieve sample_knowledge_env sample_query MockEmbeddingProvider sample_library = (Inr r, w') \<and>
     map kh_chunk_id (rs_hits r) = [''c1'']"
proof -
  let ?rows = "[(row_of_chunk sample_library sample_chunk, Dbl 1 0)]"
  let ?rg = "rank_rows sample_query ?rows ?rows"
  have s: "search_rows sample_knowledge_env sample_query MockEmbeddingProvider [''k1''] q sample_library =
      (?rows, ?rows)" for q
    by (simp add: search_rows_def sample_query_def [THEN arg_cong [of _ _ re_organizationId]] sample_eligible
        vector_rows_def keyword_rows_def sort_before_def clamp_top_def)
      (simp add: sample_query_def sample_chunk_def starts_with_def)
  obtain c where c: "rg_candidates ?rg = [(''c1'', c)]" "cd_row c = row_of_chunk sample_library sample_chunk"
    using sample_eligible(4) by blast
  have f: "\<not> rg_insufficient ?rg" by (simp add: rank_rows_def Let_def)
  from sample_persist [OF f c] obtain r w' where
    p: "persist_ranking sample_knowledge_env sample_query ?rg MockEmbeddingProvider sample_library = (Inr r, w')"
      "rs_hits r = rg_hits ?rg" by blast
  have "retrieve sample_knowledge_env sample_query MockEmbeddingProvider sample_library =
      persist_ranking sample_knowledge_env sample_query ?rg MockEmbeddingProvider sample_library"
  proof -
    obtain q where q: "literal_of (map Some (embedText sample_knowledge_env (re_query sample_query))) = Inr q"
      by (simp add: literal_of_def)
    show ?thesis by (simp add: retrieve_def run sample_eligible(1) q s)
  qed
  with p sample_eligible(3) show ?thesis by simp
qed

theorem retrieve_only_permitted_witness:
  "\<exists>c v s col. permitted sample_query MockEmbeddingProvider sample_library c v s col \<and> ck_id c = ''c1''"
proof -
  obtain r w' where r: "retrieve sample_knowledge_env sample_query MockEmbeddingProvider sample_library = (Inr r, w')"
      "map kh_chunk_id (rs_hits r) = [''c1'']" using sample_retrieval by (elim exE conjE) (rule that)
  then obtain h where "h \<in> set (rs_hits r)" "kh_chunk_id h = ''c1''" by auto
  with retrieve_only_permitted [OF r(1) this(1)] obtain c v s col where
    "permitted sample_query MockEmbeddingProvider sample_library c v s col" "ck_id c = ''c1''" by auto
  then show ?thesis by (intro exI conjI)
qed


end
