(* ===== verification/ModelCalls.thy ===== *)
theory ModelCalls
  imports Governed Retrieve RuntimeConfig
begin

text \<open>
  \<open>apps/core-api/src/execution/service.ts\<close>, the two governed steps of an execution, and \<open>prompt.ts\<close>: the
  retrieval of knowledge for an execution and the call of a model with a prompt built from retrieved
  chunks.  The theorems state what has been checked before anything is sent to a model.
\<close>

subsection \<open>The prompt (\<open>prompt.ts\<close>)\<close>

record built_prompt =
  bp_prompt :: string
  bp_promptHash :: string
  bp_includedChunkIds :: "id list"

definition LF :: string where "LF = [CHR 0x0A]"

definition knowledge_part :: "nat \<Rightarrow> context_chunk \<Rightarrow> string" where
  "knowledge_part index chunk =
     ''['' @ show_nat (index + 1) @ '' chunk_id='' @ cc_chunk_id chunk @ '']'' @ LF @ cc_text chunk"

definition knowledge_text :: "context_chunk list \<Rightarrow> string" where
  "knowledge_text knowledgeChunks =
     join (LF @ LF) (map (\<lambda>(i, c). knowledge_part i c) (zip [0..<length knowledgeChunks] knowledgeChunks))"

definition SYSTEM_LINE :: string where
  "SYSTEM_LINE = ''SYSTEM: You are VerityOS. Follow observable skill instructions only. Do not emit hidden chain-of-thought or private reasoning tokens.''"

definition buildGovernedPrompt :: "'a crypto_scheme \<Rightarrow> string \<Rightarrow> string \<Rightarrow> context_chunk list \<Rightarrow> built_prompt" where
  "buildGovernedPrompt E skillId userContent knowledgeChunks =
     (let knowledge = knowledge_text knowledgeChunks;
          prompt = join (LF @ LF)
            [SYSTEM_LINE, ''SKILL: '' @ skillId,
             if knowledge \<noteq> '''' then ''KNOWLEDGE:'' @ LF @ knowledge else ''KNOWLEDGE: none'',
             ''USER:'' @ LF @ userContent] in
      \<lparr>bp_prompt = prompt, bp_promptHash = sha256Hex E prompt,
       bp_includedChunkIds = map cc_chunk_id knowledgeChunks\<rparr>)"

subsection \<open>The authorization both steps begin with\<close>

definition member_role :: "execution_row \<Rightarrow> (err, 'w auth_world_scheme, id \<times> id) op" where
  "member_role execution =
     bindE (requireE (truthy (ex_actor_id execution)) (ExecutionError ''NO_ACTOR'' 400)) (\<lambda>_.
     let actorId = the (ex_actor_id execution) in
     bindE (role_of_member actorId (ex_organization_id execution)) (\<lambda>membership.
     bindE (expectE membership (AuthError ''NOT_A_MEMBER'' 403)) (\<lambda>roleId.
     ret (actorId, roleId))))"

definition decision_metadata :: "policy_decision \<Rightarrow> (string \<times> json) list" where
  "decision_metadata policy =
     [(''reason_code'', JStr (pd_reason_code policy)), (''policy_id'', json_opt (pd_policy_id policy))]"

text \<open>The result is the identifier of \<open>authorization.allowed\<close>.\<close>

definition authorize_step ::
    "'a env_scheme \<Rightarrow> execution_row \<Rightarrow> string \<Rightarrow> evaluate_input \<Rightarrow> (err, 'w command_world_scheme, id) op" where
  "authorize_step E execution name action =
     bindE (lastEventId (ex_organization_id execution) (ex_id execution)) (\<lambda>parent.
     bindE (appendExecutionEvent E Pool (step_event execution ''authorization.started'' ''started''
       (case parent of None \<Rightarrow> [] | Some p \<Rightarrow> if p = '''' then [] else [p]) [(''action'', JStr name)])) (\<lambda>authStarted.
     bindE (evaluatePolicy E action) (\<lambda>policy.
     if pd_decision policy \<noteq> Allow then
       bindE (appendExecutionEvent E Pool (step_event execution ''authorization.denied'' ''denied'' [ev_id authStarted]
         (decision_metadata policy))) (\<lambda>_.
       throw (ApiError 403 (pd_reason_code policy)))
     else
       bindE (appendExecutionEvent E Pool (step_event execution ''authorization.allowed'' ''ok'' [ev_id authStarted]
         (decision_metadata policy))) (\<lambda>authAllowed.
       ret (ev_id authAllowed)))))"

subsection \<open>Retrieval\<close>

record execution_retrieval =
  er_executionId :: id
  er_query :: string
  er_collectionIds :: "id list"
  er_mode :: knowledge_mode
  er_topK :: "int option"
  er_classificationCeiling :: data_classification

definition retrieval_of :: "execution_retrieval \<Rightarrow> execution_row \<Rightarrow> id \<Rightarrow> id \<Rightarrow> retrieve_input" where
  "retrieval_of input execution actorId roleId =
     \<lparr>re_organizationId = ex_organization_id execution, re_actorId = actorId, re_roleId = roleId,
      re_executionId = Some (ex_id execution), re_query = er_query input,
      re_collectionIds = er_collectionIds input, re_mode = er_mode input,
      re_topK = (case er_topK input of None \<Rightarrow> 8 | Some k \<Rightarrow> k),
      re_classificationCeiling = er_classificationCeiling input\<rparr>"

definition retrieval_done_event ::
    "'a crypto_scheme \<Rightarrow> execution_retrieval \<Rightarrow> execution_row \<Rightarrow> id \<Rightarrow> retrieve_response \<Rightarrow> append_event_input" where
  "retrieval_done_event E input execution started result =
     (step_event execution
       (if rs_insufficient_evidence result then ''knowledge.retrieval.insufficient'' else ''knowledge.retrieval.completed'')
       (if rs_insufficient_evidence result then ''insufficient'' else ''ok'') [started]
       [(''retrieval_run_id'', JStr (rs_retrieval_run_id result)),
        (''collection_ids'', JArr (map JStr (er_collectionIds input))),
        (''source_version_ids'', JArr (map JStr (js_set (map kh_source_version_id (rs_hits result))))),
        (''chunk_ids'', JArr (map (JStr \<circ> kh_chunk_id) (rs_hits result))),
        (''classification'', JStr (classification_str (er_classificationCeiling input))),
        (''mode'', JStr (mode_str (rs_mode result))),
        (''insufficient_evidence'', JBool (rs_insufficient_evidence result))])
     \<lparr>ae_outputHash := Some (sha256Hex E (rs_retrieval_run_id result))\<rparr>"

definition retrieval_body ::
    "'a knowledge_env_scheme \<Rightarrow> execution_retrieval \<Rightarrow> execution_row \<Rightarrow> id \<Rightarrow> id \<Rightarrow>
     (err, 'w knowledge_world_scheme, retrieve_response) op" where
  "retrieval_body E input execution actorId roleId =
     bindE (authorize_step E execution ''knowledge.read''
       \<lparr>ei_organizationId = ex_organization_id execution, ei_actorId = actorId, ei_roleId = roleId,
        ei_action = KnowledgeRead (er_classificationCeiling input)\<rparr>) (\<lambda>authAllowed.
     bindE (appendExecutionEvent E Pool (step_event execution ''risk.classified'' ''recorded'' [authAllowed]
       [(''risk_tier'', JStr (risk_str (ex_risk_tier execution))),
        (''classification'', JStr (classification_str (er_classificationCeiling input)))])) (\<lambda>classified.
     bindE (appendExecutionEvent E Pool
       ((step_event execution ''knowledge.retrieval.started'' ''started'' [ev_id classified]
         [(''mode'', JStr (mode_str (er_mode input))), (''collection_ids'', JArr (map JStr (er_collectionIds input)))])
        \<lparr>ae_inputHash := Some (sha256Hex E (er_query input))\<rparr>)) (\<lambda>started.
     bindE (liftE (embeddingProviderFromEnv E)) (\<lambda>provider.
     bindE (retrieve E (retrieval_of input execution actorId roleId) provider) (\<lambda>result.
     bindE (appendExecutionEvent E Pool (retrieval_done_event E input execution (ev_id started) result)) (\<lambda>_.
     ret result))))))"

definition retrieveForExecution ::
    "'a knowledge_env_scheme \<Rightarrow> execution_retrieval \<Rightarrow> (err, 'w knowledge_world_scheme, retrieve_response) op" where
  "retrieveForExecution E input =
     bindE (requireOpenExecution (er_executionId input)) (\<lambda>execution.
     bindE (member_role execution) (\<lambda>(actorId, roleId).
     retrieval_body E input execution actorId roleId))"

subsection \<open>The knowledge of a model call\<close>

record model_call =
  ml_executionId :: id
  ml_task :: string
  ml_riskTier :: risk_tier
  ml_dataClassification :: data_classification
  ml_requiredCapabilities :: "string list option"
  ml_preferLocal :: "bool option"
  ml_content :: string
  ml_retrievalRunId :: "id option"
  ml_contextChunkIds :: "id list option"

definition context_ids :: "model_call \<Rightarrow> id list" where
  "context_ids input = (case ml_contextChunkIds input of None \<Rightarrow> [] | Some ids \<Rightarrow> ids)"

definition invalid_chunk :: err where
  "invalid_chunk = ExecutionError ''INVALID_CONTEXT_CHUNK'' 400"

text \<open>A strict retrieval without evidence blocks the call.\<close>

definition check_evidence ::
    "'a env_scheme \<Rightarrow> execution_row \<Rightarrow> id \<Rightarrow> retrieval_run_row \<Rightarrow> (err, 'w audit_world_scheme, unit) op" where
  "check_evidence E execution authAllowed run =
     whenE (rr_mode run = Strict \<and> rr_insufficient_evidence run)
       (bindE (appendExecutionEvent E Pool (step_event execution ''release.blocked'' ''blocked'' [authAllowed]
          [(''reason_code'', JStr ''INSUFFICIENT_EVIDENCE''), (''retrieval_run_id'', JStr (rr_id run))])) (\<lambda>_.
        throw (ExecutionError ''INSUFFICIENT_EVIDENCE'' 409)))"

definition context_of_run ::
    "'a env_scheme \<Rightarrow> model_call \<Rightarrow> execution_row \<Rightarrow> id \<Rightarrow> id \<Rightarrow> (err, 'w knowledge_world_scheme, context_chunk list) op" where
  "context_of_run E input execution authAllowed runId =
     bindE (loadRetrievalRun (ex_organization_id execution) runId) (\<lambda>run.
     bindE (requireE (rr_execution_id run = Some (ex_id execution)) (ExecutionError ''RETRIEVAL_MISMATCH'' 403)) (\<lambda>_.
     bindE (check_evidence E execution authAllowed run) (\<lambda>_.
     if context_ids input = [] then ret []
     else
       bindE (loadReturnedChunks (ex_organization_id execution) runId (context_ids input)) (\<lambda>returned.
       bindE (requireE (length returned = length (context_ids input)) invalid_chunk) (\<lambda>_.
       bindE (requireE (list_all cc_returned_to_caller returned) invalid_chunk) (\<lambda>_.
       ret returned))))))"

definition knowledge_context ::
    "'a env_scheme \<Rightarrow> model_call \<Rightarrow> execution_row \<Rightarrow> id \<Rightarrow> (err, 'w knowledge_world_scheme, context_chunk list) op" where
  "knowledge_context E input execution authAllowed =
     (if truthy (ml_retrievalRunId input)
      then context_of_run E input execution authAllowed (the (ml_retrievalRunId input))
      else bindE (requireE (context_ids input = []) invalid_chunk) (\<lambda>_. ret []))"

subsection \<open>Routing\<close>

definition route_of_call :: "model_call \<Rightarrow> execution_row \<Rightarrow> id \<Rightarrow> id \<Rightarrow> route_input" where
  "route_of_call input execution actorId roleId =
     \<lparr>ri_organizationId = ex_organization_id execution, ri_actorId = actorId, ri_roleId = roleId,
      ri_request = \<lparr>mq_execution_id = ex_id execution, mq_task = ml_task input,
        mq_risk_tier = ml_riskTier input, mq_data_classification = ml_dataClassification input,
        mq_required_capabilities = (case ml_requiredCapabilities input of None \<Rightarrow> [''chat''] | Some c \<Rightarrow> c),
        mq_prefer_local = (ml_preferLocal input = Some True)\<rparr>\<rparr>"

text \<open>\<open>!routed.model_id || !routed.provider || !routed.deployment_type\<close>.\<close>

definition routed_to :: "model_route_result \<Rightarrow> (id \<times> model_provider \<times> deployment_type) option" where
  "routed_to r =
     (case (mo_model_id r, mo_provider r, mo_deployment_type r) of
        (Some m, Some p, Some d) \<Rightarrow> if m = '''' then None else Some (m, p, d)
      | _ \<Rightarrow> None)"

definition selected_metadata :: "model_route_result \<Rightarrow> id \<times> model_provider \<times> deployment_type \<Rightarrow> (string \<times> json) list" where
  "selected_metadata r chosen = (case chosen of (m, p, d) \<Rightarrow>
     [(''model_id'', JStr m), (''provider'', JStr (provider_str p)), (''deployment_type'', JStr (deployment_str d)),
      (''selection_reason_code'', JStr (mo_selection_reason_code r))])"

text \<open>The result is the model and the identifier of \<open>model.selected\<close>.\<close>

definition select_model ::
    "'a net_env_scheme \<Rightarrow> model_call \<Rightarrow> execution_row \<Rightarrow> id \<Rightarrow> id \<Rightarrow> id \<Rightarrow>
     (err, 'w command_world_scheme, model_row \<times> id) op" where
  "select_model E input execution actorId roleId authAllowed =
     bindE (appendExecutionEvent E Pool (step_event execution ''model.routing.started'' ''started'' [authAllowed]
       [(''task'', JStr (ml_task input))])) (\<lambda>routingStarted.
     bindE (routeModel E (route_of_call input execution actorId roleId)) (\<lambda>routed.
     case routed_to routed of
       None \<Rightarrow>
         bindE (appendExecutionEvent E Pool (step_event execution ''model.routing.failed'' ''failed'' [ev_id routingStarted]
           [(''selection_reason_code'', JStr (mo_selection_reason_code routed))])) (\<lambda>_.
         throw (ExecutionError ''NO_ALLOWED_MODEL'' 409))
     | Some chosen \<Rightarrow>
         bindE (appendExecutionEvent E Pool (step_event execution ''model.selected'' ''ok'' [ev_id routingStarted]
           (selected_metadata routed chosen))) (\<lambda>selected.
         bindE (getModel (ex_organization_id execution) (fst chosen)) (\<lambda>model.
         bindE (expectE model (ExecutionError ''NO_ALLOWED_MODEL'' 409)) (\<lambda>model.
         ret (model, ev_id selected))))))"

subsection \<open>The call\<close>

record model_result =
  mr_text :: string
  mr_prompt_hash :: string
  mr_output_hash :: string
  mr_model_id :: id
  mr_provider :: model_provider
  mr_deployment_type :: deployment_type
  mr_latency_ms :: int
  mr_input_tokens :: nat
  mr_output_tokens :: nat
  mr_included_chunk_ids :: "id list"

definition started_event ::
    "model_call \<Rightarrow> execution_row \<Rightarrow> id \<Rightarrow> built_prompt \<Rightarrow> context_chunk list \<Rightarrow> append_event_input" where
  "started_event input execution selected built knowledgeChunks =
     (step_event execution ''model.execution.started'' ''started'' [selected]
       [(''retrieval_run_id'', json_opt (ml_retrievalRunId input)),
        (''included_chunk_ids'', JArr (map JStr (bp_includedChunkIds built))),
        (''source_version_ids'', JArr (map JStr (js_set (map cc_source_version_id knowledgeChunks)))),
        (''prompt_hash'', JStr (bp_promptHash built))])
     \<lparr>ae_inputHash := Some (bp_promptHash built)\<rparr>"

definition completed_event ::
    "execution_row \<Rightarrow> id \<Rightarrow> built_prompt \<Rightarrow> model_row \<Rightarrow> completion_result \<Rightarrow> int \<Rightarrow> string \<Rightarrow> append_event_input" where
  "completed_event execution started built model c latencyMs outputHash =
     (step_event execution ''model.execution.completed'' ''ok'' [started]
       [(''provider'', JStr (provider_str (cr_provider c))), (''model_id'', JStr (md_id model)),
        (''deployment_type'', JStr (deployment_str (md_deployment_type model))), (''latency_ms'', JNum latencyMs),
        (''input_tokens'', JNum (int (cr_input_tokens c))), (''output_tokens'', JNum (int (cr_output_tokens c))),
        (''prompt_hash'', JStr (bp_promptHash built)), (''output_hash'', JStr outputHash)])
     \<lparr>ae_inputHash := Some (bp_promptHash built), ae_outputHash := Some outputHash\<rparr>"

text \<open>The hash function takes only text.\<close>

definition completion_text :: "completion_result \<Rightarrow> err + string" where
  "completion_text c = (case completion_result.cr_text c of JStr t \<Rightarrow> Inr t | _ \<Rightarrow> Inl (PlainError ''TypeError''))"

definition run_model ::
    "'a app_env_scheme \<Rightarrow> execution_row \<Rightarrow> id \<Rightarrow> built_prompt \<Rightarrow> model_row \<Rightarrow> config \<Rightarrow> int \<Rightarrow>
     (err, 'w net_world_scheme, model_result) op" where
  "run_model E execution started built model cfg startedAt =
     bindE (liftE (adapterFor (md_provider model)
       \<lparr>ms_openai = cf_openaiKey cfg, ms_anthropic = cf_anthropicKey cfg, ms_compatible = cf_compatibleKey cfg\<rparr>)) (\<lambda>adapter.
     bindE (complete E adapter
       \<lparr>cq_model = model, cq_prompt = bp_prompt built, cq_executionId = ex_id execution\<rparr>) (\<lambda>c.
     bindE (nowE E) (\<lambda>now.
     let latencyMs = max 0 (now - startedAt) in
     bindE (liftE (completion_text c)) (\<lambda>t.
     let outputHash = sha256Hex E t in
     bindE (appendExecutionEvent E Pool (completed_event execution started built model c latencyMs outputHash)) (\<lambda>_.
     ret \<lparr>mr_text = t, mr_prompt_hash = bp_promptHash built, mr_output_hash = outputHash, mr_model_id = md_id model,
       mr_provider = md_provider model, mr_deployment_type = md_deployment_type model, mr_latency_ms = latencyMs,
       mr_input_tokens = cr_input_tokens c, mr_output_tokens = cr_output_tokens c,
       mr_included_chunk_ids = bp_includedChunkIds built\<rparr>)))))"

definition provider_failed ::
    "'a env_scheme \<Rightarrow> execution_row \<Rightarrow> id \<Rightarrow> (err, 'w audit_world_scheme, 'r) op" where
  "provider_failed E execution started =
     bindE (appendExecutionEvent E Pool (step_event execution ''model.execution.failed'' ''failed'' [started]
       [(''reason_code'', JStr ''PROVIDER_FAILURE'')])) (\<lambda>_.
     throw (ExecutionError ''PROVIDER_FAILURE'' 502))"

definition call_model ::
    "'a app_env_scheme \<Rightarrow> model_call \<Rightarrow> execution_row \<Rightarrow> context_chunk list \<Rightarrow> model_row \<Rightarrow> id \<Rightarrow>
     (err, 'w knowledge_world_scheme, model_result) op" where
  "call_model E input execution knowledgeChunks model selected =
     (let built = buildGovernedPrompt E
            (case ex_skill_id execution of None \<Rightarrow> ''models.route'' | Some s \<Rightarrow> s) (ml_content input) knowledgeChunks in
      bindE (whenE (truthy (ml_retrievalRunId input) \<and> bp_includedChunkIds built \<noteq> [])
        (markChunksIncludedInContext (ex_organization_id execution) (the (ml_retrievalRunId input))
          (bp_includedChunkIds built))) (\<lambda>_.
      bindE (appendExecutionEvent E Pool (started_event input execution selected built knowledgeChunks)) (\<lambda>execStarted.
      bindE (liftE (loadConfig E)) (\<lambda>cfg.
      bindE (nowE E) (\<lambda>startedAt.
      catchE (run_model E execution (ev_id execStarted) built model cfg startedAt)
        (\<lambda>_. provider_failed E execution (ev_id execStarted)))))))"

definition model_call_body ::
    "'a app_env_scheme \<Rightarrow> model_call \<Rightarrow> execution_row \<Rightarrow> id \<Rightarrow> id \<Rightarrow>
     (err, 'w knowledge_world_scheme, model_result) op" where
  "model_call_body E input execution actorId roleId =
     bindE (authorize_step E execution ''model.execute''
       \<lparr>ei_organizationId = ex_organization_id execution, ei_actorId = actorId, ei_roleId = roleId,
        ei_action = SkillUse ''models.route'' (ml_dataClassification input) (ml_riskTier input)\<rparr>) (\<lambda>authAllowed.
     bindE (knowledge_context E input execution authAllowed) (\<lambda>knowledgeChunks.
     bindE (select_model E input execution actorId roleId authAllowed) (\<lambda>(model, selected).
     call_model E input execution knowledgeChunks model selected)))"

definition executeModelForExecution ::
    "'a app_env_scheme \<Rightarrow> model_call \<Rightarrow> (err, 'w knowledge_world_scheme, model_result) op" where
  "executeModelForExecution E input =
     bindE (requireOpenExecution (ml_executionId input)) (\<lambda>execution.
     bindE (member_role execution) (\<lambda>(actorId, roleId).
     model_call_body E input execution actorId roleId))"

subsection \<open>What the steps before the call leave alone\<close>

text \<open>\<open>logged w u\<close>: from \<open>w\<close> to \<open>u\<close> only events have been recorded.\<close>

definition logged :: "'w audit_world_scheme \<Rightarrow> 'w audit_world_scheme \<Rightarrow> bool" where
  "logged w u \<longleftrightarrow> (\<exists>es n. u = w\<lparr>execution_events := es, draws := n\<rparr>)"

lemma loggedI [intro]: "u = w\<lparr>execution_events := es, draws := n\<rparr> \<Longrightarrow> logged w u"
  unfolding logged_def by blast

lemma logged_refl [simp]: "logged w w"
  by (rule loggedI [where es = "execution_events w" and n = "draws w"]) simp

lemma logged_draws: "logged w u \<Longrightarrow> logged w (u\<lparr>draws := n\<rparr>)"
  unfolding logged_def by (elim exE) (hypsubst, rule exI, rule exI, simp)

lemma restore_same_rest:
  assumes "rest_is (audit_world.more w) u"
  shows "restore_audit w u = w\<lparr>draws := draws u\<rparr>"
  using assms by (cases w; cases u) (simp add: rest_is_def restore_audit_def)

lemma logged_event [pres]: "preserves (logged w) (appendExecutionEvent E db input)"
proof (rule preservesI)
  fix s assume s: "logged w s"
  obtain r u where b: "appendExecutionEventInTransaction E input s = (r, u)" by fastforce
  have m: "rest_is (audit_world.more s) u"
    using preservesD [OF rest_append_event b] by (simp add: rest_is_def)
  show "logged w (snd (appendExecutionEvent E db input s))"
  proof (cases "assertEventsPool db")
    case (Inl e)
    with s show ?thesis by (simp add: appendExecutionEvent_def run)
  next
    case (Inr y)
    show ?thesis
    proof (cases r)
      case (Inl e)
      with Inr b logged_draws [OF s] restore_same_rest [OF m] show ?thesis
        by (simp add: appendExecutionEvent_def run run_txnE)
    next
      case r: (Inr row)
      with b have "event_appended input s row u" by (simp add: append_event_Inr)
      then obtain n where "u = s\<lparr>execution_events := execution_events s @ [row], draws := n\<rparr>"
        by (auto simp: event_appended_def)
      then have "logged w u" using s unfolding logged_def by (elim exE) (hypsubst, rule exI, rule exI, simp)
      with Inr b r show ?thesis by (simp add: appendExecutionEvent_def run run_txnE)
    qed
  qed
qed

lemma logged_policy [pres]: "preserves (logged w) (evaluatePolicy E input)"
proof (rule preservesI)
  fix s assume "logged w s"
  moreover obtain d where "evaluatePolicy E input s = (Inr d, s\<lparr>draws := Suc (draws s)\<rparr>)"
    using evaluatePolicy_value [of E input s] by blast
  ultimately show "logged w (snd (evaluatePolicy E input s))" by (simp add: logged_draws)
qed

lemma logged_route [pres]: "preserves (logged w) (routeModel E input)"
proof (rule preservesI)
  fix s assume "logged w s"
  moreover obtain r k where "routeModel E input s = (Inr r, s\<lparr>draws := k\<rparr>)"
    by (cases rule: routeModel_outcome [of input s E]) blast+
  ultimately show "logged w (snd (routeModel E input s))" by (simp add: logged_draws)
qed

lemma logged_verdicts:
  "active_bindings org applies (w\<lparr>execution_events := es\<rparr>) = active_bindings org applies w"
  "skill_grants org skill role (w\<lparr>execution_events := es\<rparr>) = skill_grants org skill role w"
  "connector_verdict ref org key c (w\<lparr>execution_events := es\<rparr>) = connector_verdict ref org key c w"
  "approval_verdict ref org actor role a (w\<lparr>execution_events := es\<rparr>) = approval_verdict ref org actor role a w"
  by (simp_all add: active_bindings_def skill_grants_def connector_verdict_def approval_verdict_def cong: if_cong)

lemma logged_policy_verdict [simp]: "policy_verdict i (w\<lparr>execution_events := es\<rparr>) = policy_verdict i w"
proof -
  have "skill_verdict ref org role skill c r (w\<lparr>execution_events := es\<rparr>) = skill_verdict ref org role skill c r w"
    for ref org role skill c r
    by (simp add: skill_verdict_def logged_verdicts cong: if_cong)
  then show ?thesis
    by (cases "ei_action i")
      (auto simp: policy_verdict_def loadActivePolicy_def logged_verdicts Let_def intro!: option.case_cong)
qed

lemma logged_simps:
  assumes "logged w u"
  shows "policy_verdict i u = policy_verdict i w" "routable q u m \<longleftrightarrow> routable q w m" "executions u = executions w"
    "memberships u = memberships w" "models u = models w"
  using assms by (auto simp: logged_def routable_def decided_value_def local_required_def)

lemma logged_knowledge:
  assumes "logged w u"
  shows "sent u = sent w" "chunks u = chunks w" "retrieval_runs u = retrieval_runs w"
    "retrieval_hits u = retrieval_hits w"
  using assms by (auto simp: logged_def)

lemma preserves_state: "(\<And>u. snd (m u) = u) \<Longrightarrow> preserves P m"
  by (simp add: preserves_def)

lemma logged_lastEventId [pres]: "preserves (logged w) (lastEventId org i)"
  by (rule preserves_state) (simp add: lastEventId_def listExecutionEvents_def run)

lemma logged_getModel [pres]: "preserves (logged w) (getModel org m)"
  by (rule preserves_state) (simp add: getModel_def listModels_def run)

lemma logged_loadRun [pres]: "preserves (logged w) (loadRetrievalRun org i)"
  by (rule preserves_state) (simp add: loadRetrievalRun_def run expectE_def split: option.split)

lemma logged_loadChunks [pres]: "preserves (logged w) (loadReturnedChunks org i ids)"
  by (rule preserves_state) (simp add: loadReturnedChunks_def run)

lemma logged_authorize [pres]: "preserves (logged w) (authorize_step E x name action)"
  unfolding authorize_step_def by (intro pres)

lemma logged_context [pres]: "preserves (logged w) (knowledge_context E input x i)"
  unfolding knowledge_context_def context_of_run_def check_evidence_def by (intro pres)

lemma logged_select [pres]: "preserves (logged w) (select_model E input x a r i)"
  unfolding select_model_def by (intro pres)

lemma lastEventId_state: "lastEventId org i w = (r, u) \<Longrightarrow> u = w \<and> (\<exists>p. r = Inr p)"
  by (auto simp: lastEventId_def listExecutionEvents_def run)

lemma authorize_step_Inr:
  assumes "authorize_step E x name action w = (Inr i, w')"
  shows "verdict_value (policy_verdict action w) = Allow"
proof -
  from assms obtain e u d v where
    e: "appendExecutionEvent E Pool e w = (Inr d, u)" and p: "fst (evaluatePolicy E action u) = Inr v" "pd_decision v = Allow"
    unfolding authorize_step_def
    by (auto simp: inr_iffs dest!: lastEventId_state split: if_splits)
  have "logged w u" using preservesD [OF logged_event e] by simp
  then have "policy_verdict action u = policy_verdict action w" by (rule logged_simps)
  with p evaluatePolicy_value [of E action u] show ?thesis by auto
qed

lemma member_role_Inr:
  assumes "member_role x w = (Inr (actor, role), w')"
  shows "w' = w" "ex_actor_id x = Some actor" "actor \<noteq> ''''"
    "\<exists>m\<in>set (memberships w). mb_user_id m = actor \<and> mb_organization_id m = ex_organization_id x \<and> mb_role_id m = role"
  using assms by (auto simp: member_role_def Let_def inr_iffs role_of_member_def truthy_def dest!: find_SomeD)

lemma requireOpenExecution_Inr:
  assumes "requireOpenExecution i w = (Inr x, w')"
  shows "w' = w" "x \<in> set (executions w)" "ex_id x = i" "\<not> terminal (ex_status x)"
  using assms by (auto simp: requireOpenExecution_def requireExecutionById_def getExecutionById_def inr_iffs terminal_def
      dest!: find_SomeD)

subsection \<open>The context of a call\<close>

text \<open>The retrieval run is one of this execution, with evidence when it was strict, and every chunk is one that the run
  returned to its caller.\<close>

definition context_ok :: "model_call \<Rightarrow> execution_row \<Rightarrow> 'w knowledge_world_scheme \<Rightarrow> context_chunk list \<Rightarrow> bool" where
  "context_ok input x w ks \<longleftrightarrow>
     (truthy (ml_retrievalRunId input) \<longrightarrow> (\<exists>r\<in>set (retrieval_runs w).
        ml_retrievalRunId input = Some (rr_id r) \<and> rr_organization_id r = ex_organization_id x \<and>
        rr_execution_id r = Some (ex_id x) \<and> \<not> (rr_mode r = Strict \<and> rr_insufficient_evidence r))) \<and>
     (\<forall>c\<in>set ks. truthy (ml_retrievalRunId input) \<and> (\<exists>h\<in>set (retrieval_hits w). \<exists>k\<in>set (chunks w).
        ml_retrievalRunId input = Some (rh_retrieval_run_id h) \<and> rh_organization_id h = ex_organization_id x \<and>
        rh_returned_to_caller h \<and> rh_chunk_id h = cc_chunk_id c \<and> ck_id k = cc_chunk_id c \<and>
        ck_organization_id k = ex_organization_id x \<and> cc_text c = ck_text k))"

lemma context_of_run_Inr:
  assumes "context_of_run E input x i runId w = (Inr ks, w')" "ml_retrievalRunId input = Some runId" "runId \<noteq> ''''"
  shows "context_ok input x w ks"
proof -
  from assms(1) obtain r where
    r: "find (\<lambda>r. rr_id r = runId \<and> rr_organization_id r = ex_organization_id x) (retrieval_runs w) = Some r"
      "rr_execution_id r = Some (ex_id x)" and
    c: "check_evidence E x i r w = (Inr (), w)" "\<not> (rr_mode r = Strict \<and> rr_insufficient_evidence r)" and
    ks: "ks = [] \<or> list_all cc_returned_to_caller ks \<and>
      fst (loadReturnedChunks (ex_organization_id x) runId (context_ids input) w) = Inr ks"
    unfolding context_of_run_def loadRetrievalRun_def check_evidence_def
    by (auto simp: inr_iffs run_whenE split: if_splits option.splits)
  have "\<exists>h\<in>set (retrieval_hits w). \<exists>k\<in>set (chunks w). runId = rh_retrieval_run_id h \<and>
      rh_organization_id h = ex_organization_id x \<and> rh_returned_to_caller h \<and> rh_chunk_id h = cc_chunk_id c \<and>
      ck_id k = cc_chunk_id c \<and> ck_organization_id k = ex_organization_id x \<and> cc_text c = ck_text k"
    if "c \<in> set ks" for c
    using ks that by (fastforce simp: loadReturnedChunks_def run context_chunk_of_def requested_hit_def list_all_iff
        split: if_splits)
  with r assms(2,3) c(2) show ?thesis
    by (fastforce simp: context_ok_def truthy_def dest: find_SomeD)
qed

lemma knowledge_context_Inr:
  assumes "knowledge_context E input x i w = (Inr ks, w')"
  shows "context_ok input x w ks"
proof (cases "truthy (ml_retrievalRunId input)")
  case True
  then obtain runId where "ml_retrievalRunId input = Some runId" "runId \<noteq> ''''" by (auto simp: truthy_def)
  with assms True context_of_run_Inr [of E input x i runId w] show ?thesis by (simp add: knowledge_context_def)
next
  case False
  with assms show ?thesis by (auto simp: knowledge_context_def inr_iffs context_ok_def)
qed

subsection \<open>What is sent\<close>

text \<open>A request whose body gives the prompt as the message of the user.\<close>

definition carries :: "completion_request \<Rightarrow> http_request \<Rightarrow> bool" where
  "carries q rq \<longleftrightarrow> (\<exists>kvs. rq_body rq = Some (stringify (JObj kvs)) \<and> (''messages'', user_message q) \<in> set kvs)"

definition sends :: "completion_request \<Rightarrow> http_request list \<Rightarrow> http_request list \<Rightarrow> bool" where
  "sends q s s' \<longleftrightarrow> s' = s \<or> (\<exists>rq. s' = s @ [rq] \<and> carries q rq)"

lemma postJson_sent:
  assumes "postJson E url hs (JObj kvs) w = (r, w')" "(''messages'', user_message q) \<in> set kvs"
  shows "sends q (sent w) (sent w')"
proof -
  have "sent w' = sent w @ [\<lparr>rq_method = ''POST'', rq_url = url,
      rq_headers = (''content-type'', ''application/json'') # hs, rq_body = Some (stringify (JObj kvs))\<rparr>]"
    using assms(1) by (auto simp: postJson_def run split: reply.splits reply_body.splits if_splits)
  with assms(2) show ?thesis by (auto simp: sends_def carries_def)
qed

lemma complete_sent:
  assumes "complete E a q w = (r, w')"
  shows "sends q (sent w) (sent w')"
proof (cases a)
  case MockAdapter
  with assms show ?thesis by (simp add: run sends_def)
next
  case (OpenAIAdapter k)
  with assms show ?thesis
    by (auto simp: bindE_def run intro!: postJson_sent split: prod.splits sum.splits)
next
  case (AnthropicAdapter k)
  with assms show ?thesis
    by (auto simp: bindE_def run intro!: postJson_sent split: prod.splits sum.splits)
next
  case (OpenAICompatibleAdapter k)
  show ?thesis
  proof (cases "truthy (md_endpoint (cq_model q))")
    case True
    with assms OpenAICompatibleAdapter show ?thesis
      by (auto simp: bindE_def run truthy_def intro!: postJson_sent split: prod.splits sum.splits option.splits)
  next
    case False
    with assms OpenAICompatibleAdapter show ?thesis
      by (auto simp: run truthy_def sends_def split: option.splits)
  qed
qed

lemma logged_sent: "logged w u \<Longrightarrow> sent u = sent w"
  by (auto simp: logged_def)

lemma sent_event [pres]: "preserves (\<lambda>v. sent v = s) (appendExecutionEvent E db input)"
proof (rule preservesI)
  fix v assume v: "sent v = s"
  have "logged v (snd (appendExecutionEvent E db input v))"
    using logged_event [of v E db input] by (simp add: preserves_def)
  with v show "sent (snd (appendExecutionEvent E db input v)) = s" by (simp add: logged_sent)
qed

lemma sent_clock [pres]: "preserves (\<lambda>v. sent v = s) (nowE E)"
  by (simp add: preserves_def nowE_def run drawE_def)

lemma sends_then:
  assumes "bindE m f w = (r, w')" "\<And>a u. m w = (a, u) \<Longrightarrow> sends q (sent w) (sent u)"
    and "\<And>x s. preserves (\<lambda>v. sent v = s) (f x)"
  shows "sends q (sent w) (sent w')"
proof (cases "m w")
  case (Pair a u)
  have "sent w' = sent u"
  proof (cases a)
    case (Inl e)
    with Pair assms(1) show ?thesis by (simp add: bindE_def)
  next
    case (Inr x)
    with Pair assms(1) have "f x u = (r, w')" by (simp add: bindE_def)
    from preservesD [OF assms(3) this] show ?thesis by blast
  qed
  with assms(2) [OF Pair] show ?thesis by simp
qed

lemma bind_lift_Inr: "bindE (liftE (Inr b)) f = f b"
  by (rule ext) (simp add: bindE_def run)

lemma run_model_sent:
  assumes "run_model E x st built model cfg t w = (r, w')"
  shows "sends \<lparr>cq_model = model, cq_prompt = bp_prompt built, cq_executionId = ex_id x\<rparr> (sent w) (sent w')"
proof -
  obtain a where a: "a = adapterFor (md_provider model)
     \<lparr>ms_openai = cf_openaiKey cfg, ms_anthropic = cf_anthropicKey cfg, ms_compatible = cf_compatibleKey cfg\<rparr>" by blast
  show ?thesis
  proof (cases a)
    case (Inl e)
    with assms show ?thesis by (simp add: run_model_def a [symmetric, unfolded Inl] bindE_def run sends_def)
  next
    case (Inr b)
    note r = assms [unfolded run_model_def Let_def a [symmetric] Inr bind_lift_Inr]
    show ?thesis by (rule sends_then [OF r complete_sent]) (assumption, intro pres)
  qed
qed

lemma failed_sent: "preserves (\<lambda>y. sent y = s) (provider_failed E x i)"
  unfolding provider_failed_def by (intro pres)

lemma call_model_sent:
  assumes "call_model E input x ks model i w = (r, w')"
  shows "sends \<lparr>cq_model = model, cq_prompt = bp_prompt (buildGovernedPrompt E
      (case ex_skill_id x of None \<Rightarrow> ''models.route'' | Some s \<Rightarrow> s) (ml_content input) ks), cq_executionId = ex_id x\<rparr>
    (sent w) (sent w')"
proof -
  let ?b = "buildGovernedPrompt E (case ex_skill_id x of None \<Rightarrow> ''models.route'' | Some s \<Rightarrow> s) (ml_content input) ks"
  obtain m u where m: "whenE (truthy (ml_retrievalRunId input) \<and> bp_includedChunkIds ?b \<noteq> [])
        (markChunksIncludedInContext (ex_organization_id x) (the (ml_retrievalRunId input)) (bp_includedChunkIds ?b)) w = (Inr m, u)"
      "sent u = sent w"
    by (cases "truthy (ml_retrievalRunId input) \<and> bp_includedChunkIds ?b \<noteq> []")
      (auto simp: whenE_def markChunksIncludedInContext_def run)
  obtain e v where e: "appendExecutionEvent E Pool (started_event input x i ?b ks) u = (e, v)" by fastforce
  have sv: "sent v = sent w" using preservesD [OF sent_event e] m(2) by blast
  show ?thesis
  proof (cases "\<exists>ev cfg. e = Inr ev \<and> loadConfig E = Inr cfg")
    case False
    then have "w' = v"
      using assms m(1) e by (cases e; cases "loadConfig E") (auto simp: call_model_def Let_def bindE_def run)
    with sv show ?thesis by (simp add: sends_def)
  next
    case True
    then obtain ev cfg where c: "e = Inr ev" "loadConfig E = Inr cfg" by blast
    then have "catchE (run_model E x (ev_id ev) ?b model cfg (clock E (draws v))) (\<lambda>_. provider_failed E x (ev_id ev))
        (v\<lparr>draws := Suc (draws v)\<rparr>) = (r, w')"
      using assms m(1) e by (simp add: call_model_def Let_def bindE_def run nowE_def run_drawE)
    moreover obtain q z where q: "run_model E x (ev_id ev) ?b model cfg (clock E (draws v)) (v\<lparr>draws := Suc (draws v)\<rparr>) = (q, z)"
      by fastforce
    moreover have "sent b = sent z" if f: "provider_failed E x (ev_id ev) z = (r, b)" for b
      by (rule preservesD [where P = "\<lambda>y. sent y = sent z" and s = z], rule failed_sent, rule f, rule refl)
    ultimately have "sent w' = sent z" by (auto simp: catchE_def split: sum.splits)
    with run_model_sent [OF q] sv show ?thesis by simp
  qed
qed

lemma getModel_unique:
  assumes "distinct (map md_id (models w))" "m \<in> set (models w)" "md_organization_id m = org"
    and "getModel org (md_id m) w = (Inr (Some m'), w')"
  shows "m' = m"
proof -
  have "find (\<lambda>x. md_id x = md_id m) (sort_key md_model_key (filter (\<lambda>x. md_organization_id x = org) (models w))) = Some m'"
    using assms(4) by (auto simp: getModel_def listModels_def run)
  then have "m' \<in> set (models w)" "md_id m' = md_id m" by (auto dest: find_SomeD)
  with assms(1,2) show ?thesis by (auto simp: distinct_map inj_on_def)
qed

lemma select_model_Inr:
  assumes "select_model E input x actor role i w = (Inr (model, sel), w')" "distinct (map md_id (models w))"
  shows "routable (route_of_call input x actor role) w model"
proof -
  let ?q = "route_of_call input x actor role"
  from assms(1) obtain e u where
    e: "appendExecutionEvent E Pool (step_event x ''model.routing.started'' ''started'' [i]
       [(''task'', JStr (ml_task input))]) w = (Inr e, u)"
    unfolding select_model_def by (auto simp: inr_iffs)
  have u: "logged w u" using preservesD [OF logged_event e] by simp
  show ?thesis
  proof (cases rule: routeModel_outcome [of ?q u E])
    case (denied policy k)
    with assms(1) e show ?thesis by (auto simp: select_model_def inr_iffs routed_to_def no_model_def)
  next
    case (none v reason k)
    with assms(1) e show ?thesis by (auto simp: select_model_def inr_iffs routed_to_def no_model_def)
  next
    case (chosen r k m)
    have m: "routable ?q w m" using chosen(2) logged_simps(2) [OF u] by blast
    then have mw: "m \<in> set (models w)" "md_organization_id m = ex_organization_id x"
      by (auto simp: routable_def Let_def route_of_call_def)
    from assms(1) e chosen obtain c d v where
      d: "appendExecutionEvent E Pool (step_event x ''model.selected'' ''ok'' [ev_id e] c) (u\<lparr>draws := k\<rparr>) = (Inr d, v)"
      and g: "getModel (ex_organization_id x) (md_id m) v = (Inr (Some model), w')"
      unfolding select_model_def
      by (auto simp: inr_iffs routed_to_def basic_Inr getModel_def listModels_def split: if_splits option.splits)
    have "logged w v" using preservesD [OF logged_event d] logged_draws [OF u] by blast
    then have "models v = models w" by (rule logged_simps)
    with getModel_unique [of v m "ex_organization_id x"] mw assms(2) g m show ?thesis by simp
  qed
qed

subsection \<open>No model is called outside the rules\<close>

text \<open>What has been checked before a model is called, all from the tables at the start.\<close>

definition call_allowed ::
    "model_call \<Rightarrow> 'w knowledge_world_scheme \<Rightarrow> execution_row \<Rightarrow> id \<Rightarrow> id \<Rightarrow> context_chunk list \<Rightarrow> model_row \<Rightarrow> bool" where
  "call_allowed input w x actor role ks model \<longleftrightarrow>
     x \<in> set (executions w) \<and> ex_id x = ml_executionId input \<and> \<not> terminal (ex_status x) \<and>
     ex_actor_id x = Some actor \<and>
     (\<exists>m\<in>set (memberships w). mb_user_id m = actor \<and> mb_organization_id m = ex_organization_id x \<and> mb_role_id m = role) \<and>
     verdict_value (policy_verdict \<lparr>ei_organizationId = ex_organization_id x, ei_actorId = actor, ei_roleId = role,
        ei_action = SkillUse ''models.route'' (ml_dataClassification input) (ml_riskTier input)\<rparr> w) = Allow \<and>
     context_ok input x w ks \<and> routable (route_of_call input x actor role) w model \<and>
     (Confidential \<le> ml_dataClassification input \<longrightarrow> md_deployment_type model = Local)"

definition governed_request ::
    "'a crypto_scheme \<Rightarrow> model_call \<Rightarrow> execution_row \<Rightarrow> context_chunk list \<Rightarrow> model_row \<Rightarrow> completion_request" where
  "governed_request E input x ks model = \<lparr>cq_model = model,
     cq_prompt = bp_prompt (buildGovernedPrompt E (case ex_skill_id x of None \<Rightarrow> ''models.route'' | Some s \<Rightarrow> s)
       (ml_content input) ks), cq_executionId = ex_id x\<rparr>"

lemma model_call_body_sends:
  assumes body: "model_call_body E input x actor role w = (res, w')" and ids: "distinct (map md_id (models w))"
    and x: "x \<in> set (executions w)" "ex_id x = ml_executionId input" "\<not> terminal (ex_status x)"
    and m: "ex_actor_id x = Some actor"
      "\<exists>m\<in>set (memberships w). mb_user_id m = actor \<and> mb_organization_id m = ex_organization_id x \<and> mb_role_id m = role"
  shows "sent w' = sent w \<or> (\<exists>ks model rq. call_allowed input w x actor role ks model \<and>
    sent w' = sent w @ [rq] \<and> carries (governed_request E input x ks model) rq)"
proof -
  let ?act = "\<lparr>ei_organizationId = ex_organization_id x, ei_actorId = actor, ei_roleId = role,
     ei_action = SkillUse ''models.route'' (ml_dataClassification input) (ml_riskTier input)\<rparr>"
  obtain r2 w2 where a: "authorize_step E x ''model.execute'' ?act w = (r2, w2)" by fastforce
  have l2: "logged w w2" using preservesD [OF logged_authorize a] by simp
  show ?thesis
  proof (cases r2)
    case (Inl e)
    with body a logged_sent [OF l2] show ?thesis by (simp add: model_call_body_def bindE_def)
  next
    case (Inr auth)
    obtain r3 w3 where c: "knowledge_context E input x auth w2 = (r3, w3)" by fastforce
    have l3: "logged w w3" using preservesD [OF logged_context c] l2 by blast
    show ?thesis
    proof (cases r3)
      case (Inl e)
      with body a Inr c logged_sent [OF l3] show ?thesis by (simp add: model_call_body_def bindE_def)
    next
      case r3: (Inr ks)
      obtain r4 w4 where s: "select_model E input x actor role auth w3 = (r4, w4)" by fastforce
      have l4: "logged w w4" using preservesD [OF logged_select s] l3 by blast
      show ?thesis
      proof (cases r4)
        case (Inl e)
        with body a Inr c r3 s logged_sent [OF l4] show ?thesis by (simp add: model_call_body_def bindE_def)
      next
        case r4: (Inr ms)
        obtain model sel where ms: "ms = (model, sel)" by fastforce
        have call: "call_model E input x ks model sel w4 = (res, w')"
          using body a Inr c r3 s r4 ms by (simp add: model_call_body_def bindE_def)
        have "context_ok input x w2 ks" by (rule knowledge_context_Inr [OF c [unfolded r3]])
        then have k: "context_ok input x w ks" by (simp add: context_ok_def logged_knowledge [OF l2])
        have rt: "routable (route_of_call input x actor role) w model"
          using select_model_Inr [OF s [unfolded r4 ms]] ids logged_simps(2,5) [OF l3] by simp
        have "call_allowed input w x actor role ks model"
          using x m authorize_step_Inr [OF a [unfolded Inr]] k rt
          by (auto simp: call_allowed_def routable_def Let_def local_required_def route_of_call_def)
        moreover have "sends (governed_request E input x ks model) (sent w) (sent w')"
          using call_model_sent [OF call] by (simp add: governed_request_def logged_sent [OF l4])
        ultimately show ?thesis unfolding sends_def by blast
      qed
    qed
  qed
qed

lemma requireOpenExecution_state: "snd (requireOpenExecution i w) = w"
  by (simp add: requireOpenExecution_def requireExecutionById_def getExecutionById_def bindE_def run expectE_def
      split: option.splits)

lemma member_role_state: "snd (member_role x w) = w"
  by (simp add: member_role_def Let_def bindE_def run role_of_member_def expectE_def split: option.splits)

end
