(* ===== verification/ModelRun.thy ===== *)
theory ModelRun
  imports ModelCalls
begin

text \<open>
  When a governed model call succeeds: the steps of \<open>execution/service.ts\<close> run one after the other, each
  recording its events, and the completed call leaves the evidence of its prompt and its output.  The
  last section runs a call on concrete data, over HTTP.
\<close>

subsection \<open>What may be sent\<close>


subsection \<open>Room for events\<close>

definition can_log :: "'a env_scheme \<Rightarrow> execution_row \<Rightarrow> nat \<Rightarrow> 'w audit_world_scheme \<Rightarrow> bool" where
  "can_log E x k w \<longleftrightarrow> audit_inv E w \<and> ids_drawn E w \<and> x \<in> set (executions w) \<and>
     int (length (events_of (ex_id x) w) + k) < 2147483647"

definition known_event :: "execution_row \<Rightarrow> 'w audit_world_scheme \<Rightarrow> id \<Rightarrow> bool" where
  "known_event x w i \<longleftrightarrow> i \<in> ev_id ` set (events_of (ex_id x) w)"

lemma can_log_draws:
  assumes "can_log E x k w" "draws w \<le> n"
  shows "can_log E x k (w\<lparr>draws := n\<rparr>)"
proof -
  have "tables_equal w (w\<lparr>draws := n\<rparr>)" by (simp add: tables_equal_def)
  moreover have "drawn E (w\<lparr>draws := n\<rparr>) i" if "drawn E w i" for i
    using drawn_mono [OF that, of "w\<lparr>draws := n\<rparr>"] assms(2) by simp
  ultimately show ?thesis
    using assms(1) by (auto simp: can_log_def ids_drawn_def audit_inv_tables events_of_def)
qed

lemma known_event_draws [simp]: "known_event x (w\<lparr>draws := n\<rparr>) = known_event x w"
  by (simp add: known_event_def events_of_def fun_eq_iff)

lemma can_log_sent: "can_log E x k w \<Longrightarrow> can_log E x k (w\<lparr>sent := s\<rparr>)"
proof -
  assume a: "can_log E x k w"
  have "tables_equal w (w\<lparr>sent := s\<rparr>)" by (simp add: tables_equal_def)
  moreover have "drawn E (w\<lparr>sent := s\<rparr>) i = drawn E w i" for i by (simp add: drawn_def)
  ultimately show "can_log E x k (w\<lparr>sent := s\<rparr>)"
    using a by (auto simp: can_log_def ids_drawn_def audit_inv_tables events_of_def)
qed

lemma logs:
  assumes "sound_env E" "can_log E x (Suc k) w" "ae_organizationId i = ex_organization_id x" "ae_executionId i = ex_id x"
    "ae_occurredAtCanonical i = None" "assertEventEvidence i = Inr ()" "\<forall>p\<in>set (ae_parentEventIds i). known_event x w p"
  obtains row u where "appendExecutionEvent E Pool i w = (Inr row, u)" "logged w u" "can_log E x k u" "draws w \<le> draws u"
    "known_event x u (ev_id row)" "event_appended i w row u"
proof -
  have w: "audit_inv E w" "ids_drawn E w" "has_execution (ae_organizationId i) (ae_executionId i) w"
    using assms(2-4) by (auto simp: can_log_def has_execution_def)
  obtain row u where r: "appendExecutionEventInTransaction E i w = (Inr row, u)"
      "events_added E (ae_executionId i) 1 w u" "events_of (ae_executionId i) u = events_of (ae_executionId i) w @ [row]"
    by (rule event_runs [OF assms(1) w(1,2) assms(6,5) w(3)])
      (use assms(2,4,7) in \<open>auto simp: can_log_def known_event_def\<close>)
  note s = events_added_same [OF r(2)]
  have "appendExecutionEvent E Pool i w = (Inr row, u)"
    using r(1) by (simp add: appendExecutionEvent_def assertEventsPool_def run run_txnE)
  moreover have "logged w u" using r(2) by (auto simp: events_added_def)
  moreover have "can_log E x k u" using assms(2,4) s by (simp add: can_log_def)
  moreover have "known_event x u (ev_id row)" using r(3) assms(4) by (simp add: known_event_def)
  ultimately show ?thesis using that append_event_Inr [OF r(1)] s(9) by blast
qed

lemma step_evidence:
  assumes "t \<in> set EXECUTION_EVENT_TYPES" "list_all (\<lambda>kv. in_domain (snd kv)) m"
    and "\<forall>h. a = Some h \<longrightarrow> isSha256Hex h" "\<forall>h. b = Some h \<longrightarrow> isSha256Hex h"
  shows "assertEventEvidence (step_event x t st ps m\<lparr>ae_inputHash := a, ae_outputHash := b\<rparr>) = Inr ()"
proof -
  have "canonicalize (JObj m) = Inr (pr (sorted_json (JObj m)))"
    using encode_total [of "JObj m"] assms(2) by (simp only: canonicalize_def in_domain.simps)
  with assms show ?thesis
    by (cases a; cases b) (simp_all add: step_event_def assertEventEvidence_def assertSha256Hex_def event_metadata_def)
qed

lemma step_evidence_plain:
  assumes "t \<in> set EXECUTION_EVENT_TYPES" "list_all (\<lambda>kv. in_domain (snd kv)) m"
  shows "assertEventEvidence (step_event x t st ps m) = Inr ()"
  using step_evidence [OF assms, of None None x st ps] by (simp add: step_event_def)

lemma step_event_fields [simp]:
  "ae_organizationId (step_event x t st ps m) = ex_organization_id x" "ae_executionId (step_event x t st ps m) = ex_id x"
  "ae_occurredAtCanonical (step_event x t st ps m) = None" "ae_parentEventIds (step_event x t st ps m) = ps"
  by (simp_all add: step_event_def)

lemma in_domain_opt [simp]: "in_domain (json_opt v)"
  by (cases v) simp_all

subsection \<open>The steps run\<close>

lemma authorize_step_runs:
  assumes "sound_env E" "can_log E x (Suc (Suc k)) w" "verdict_value (policy_verdict action w) = Allow"
  obtains i u where "authorize_step E x name action w = (Inr i, u)" "logged w u" "can_log E x k u" "known_event x u i"
proof -
  let ?ps = "parent_of x w"
  let ?e = "step_event x ''authorization.started'' ''started'' ?ps [(''action'', JStr name)]"
  have xw: "audit_inv E w" "x \<in> set (executions w)" using assms(2) by (simp_all add: can_log_def)
  obtain a u where a: "appendExecutionEvent E Pool ?e w = (Inr a, u)" "logged w u" "can_log E x (Suc k) u"
      "draws w \<le> draws u" "known_event x u (ev_id a)"
    by (rule logs [OF assms(1,2), of ?e])
      (use parent_of_ids [OF xw] in \<open>auto simp: known_event_def EXECUTION_EVENT_TYPES_def intro!: step_evidence_plain\<close>)
  obtain d where d: "evaluatePolicy E action u = (Inr d, u\<lparr>draws := Suc (draws u)\<rparr>)" "pd_decision d = Allow"
    using evaluatePolicy_value [of E action u] assms(3) logged_simps(1) [OF a(2)] by auto
  let ?u = "u\<lparr>draws := Suc (draws u)\<rparr>"
  let ?f = "step_event x ''authorization.allowed'' ''ok'' [ev_id a] (decision_metadata d)"
  have l: "can_log E x (Suc k) ?u" using can_log_draws [OF a(3)] by simp
  obtain b v where b: "appendExecutionEvent E Pool ?f ?u = (Inr b, v)" "logged ?u v" "can_log E x k v"
      "draws ?u \<le> draws v" "known_event x v (ev_id b)"
    by (rule logs [OF assms(1) l, of ?f])
      (use a(5) in \<open>auto simp: EXECUTION_EVENT_TYPES_def decision_metadata_def intro!: step_evidence_plain\<close>)
  obtain r where r: "lastEventId (ex_organization_id x) (ex_id x) w = (Inr r, w)"
    using lastEventId_run by blast
  then have "?ps = (case r of None \<Rightarrow> [] | Some p \<Rightarrow> if p = '''' then [] else [p])"
    by (simp add: parent_of_def split: option.split)
  then have "authorize_step E x name action w = (Inr (ev_id b), v)"
    using a(1) b(1) d by (simp add: authorize_step_def bindE_def r run)
  moreover have "logged w v"
    using preservesD [OF logged_event b(1)] logged_draws [OF a(2)] by blast
  ultimately show ?thesis using that b by blast
qed

lemma evaluatePolicy_state: "snd (evaluatePolicy E i s) = s\<lparr>draws := Suc (draws s)\<rparr>"
  using evaluatePolicy_value [of E i s] by auto

lemma draws_policy [pres]: "preserves (\<lambda>v. n \<le> draws v) (evaluatePolicy E i)"
  by (simp add: preserves_def evaluatePolicy_state)

lemma draws_eligible [pres]: "preserves (\<lambda>v. n \<le> draws v) (eligible_models E q lr ms)"
  by (induction ms) (auto intro!: pres)

lemma draws_route: "preserves (\<lambda>v. n \<le> draws v) (routeModel E q)"
  unfolding routeModel_def Let_def listModels_def by (intro pres)

lemma select_model_runs:
  assumes "sound_env E" "can_log E x (Suc (Suc k)) w" "known_event x w i" "distinct (map md_id (models w))"
    and q: "q = route_of_call input x actor role" "\<not> route_denied q w" "routable q w m0"
    and "\<forall>m\<in>set (models w). md_id m \<noteq> ''''"
  obtains model sel u where "select_model E input x actor role i w = (Inr (model, sel), u)" "logged w u"
    "can_log E x k u" "known_event x u sel" "routable q w model"
proof -
  let ?e = "step_event x ''model.routing.started'' ''started'' [i] [(''task'', JStr (ml_task input))]"
  obtain a u where a: "appendExecutionEvent E Pool ?e w = (Inr a, u)" "logged w u" "can_log E x (Suc k) u"
      "draws w \<le> draws u" "known_event x u (ev_id a)"
    by (rule logs [OF assms(1,2), of ?e])
      (use assms(3) in \<open>auto simp: EXECUTION_EVENT_TYPES_def intro!: step_evidence_plain\<close>)
  have same: "routable q u m \<longleftrightarrow> routable q w m" "route_denied q u \<longleftrightarrow> route_denied q w" "models u = models w" for m
    using logged_simps [OF a(2)] by (auto simp: route_denied_def decided_value_def)
  show ?thesis
  proof (cases rule: routeModel_outcome [of q u E])
    case (chosen r n m)
    let ?u = "u\<lparr>draws := n\<rparr>"
    have m: "routable q w m" "m \<in> set (models w)" "md_organization_id m = ex_organization_id x"
      using chosen(2) same by (auto simp: routable_def Let_def q(1) route_of_call_def)
    have rt: "routed_to r = Some (md_id m, md_provider m, md_deployment_type m)"
      using chosen(4-6) m(2) assms(8) by (simp add: routed_to_def)
    have n: "draws u \<le> n"
    proof -
      have "preserves (\<lambda>v. draws u \<le> draws v) (routeModel E q)" by (rule draws_route)
      from preservesD [OF this chosen(3)] show ?thesis by simp
    qed
    have l: "can_log E x (Suc k) ?u" by (rule can_log_draws [OF a(3) n])
    let ?f = "step_event x ''model.selected'' ''ok'' [ev_id a] (selected_metadata r (md_id m, md_provider m, md_deployment_type m))"
    obtain b v where b: "appendExecutionEvent E Pool ?f ?u = (Inr b, v)" "logged ?u v" "can_log E x k v"
        "draws ?u \<le> draws v" "known_event x v (ev_id b)"
      by (rule logs [OF assms(1) l, of ?f])
        (use a(5) in \<open>auto simp: EXECUTION_EVENT_TYPES_def selected_metadata_def intro!: step_evidence_plain\<close>)
    have lv: "logged w v" using preservesD [OF logged_event b(1)] logged_draws [OF a(2)] by blast
    then have mv: "models v = models w" by (rule logged_simps)
    have "\<exists>m'. getModel (ex_organization_id x) (md_id m) v = (Inr (Some m'), v)"
      using m(2,3) mv
      by (cases "find (\<lambda>y. md_id y = md_id m) (sort_key md_model_key (filter (\<lambda>y. md_organization_id y = ex_organization_id x) (models v)))")
        (auto simp: getModel_def listModels_def run find_None_iff)
    then obtain m' where g: "getModel (ex_organization_id x) (md_id m) v = (Inr (Some m'), v)" by blast
    have "m' = m" by (rule getModel_unique [OF _ _ m(3) g]) (use mv assms(4) m(2) in simp_all)
    then have "select_model E input x actor role i w = (Inr (m, ev_id b), v)"
      using a(1) chosen(3) rt b(1) g by (simp add: select_model_def bindE_def run q(1))
    with lv b m(1) that show ?thesis by blast
  qed (use same q in auto)
qed

definition prompt_of :: "'a crypto_scheme \<Rightarrow> model_call \<Rightarrow> execution_row \<Rightarrow> context_chunk list \<Rightarrow> built_prompt" where
  "prompt_of E input x ks = buildGovernedPrompt E
     (case ex_skill_id x of None \<Rightarrow> ''models.route'' | Some s \<Rightarrow> s) (ml_content input) ks"

lemma run_model_runs:
  assumes "sound_env E" "can_log E x (Suc k) w" "known_event x w st"
    and "adapterFor (md_provider model) \<lparr>ms_openai = cf_openaiKey cfg, ms_anthropic = cf_anthropicKey cfg,
       ms_compatible = cf_compatibleKey cfg\<rparr> = Inr adapter"
    and c: "complete E adapter \<lparr>cq_model = model, cq_prompt = bp_prompt b, cq_executionId = ex_id x\<rparr> w = (Inr c, u)"
      "completion_result.cr_text c = JStr t"
    and u: "can_log E x (Suc k) u" "known_event x u st"
    and nums: "isSafeInteger (max 0 (clock E (draws u) - t0))" "isSafeInteger (int (cr_input_tokens c))"
      "isSafeInteger (int (cr_output_tokens c))"
    and b: "isSha256Hex (bp_promptHash b)"
  obtains r v where "run_model E x st b model cfg t0 w = (Inr r, v)" "logged (u\<lparr>draws := Suc (draws u)\<rparr>) v"
proof -
  let ?u = "u\<lparr>draws := Suc (draws u)\<rparr>"
  let ?e = "completed_event x st b model c (max 0 (clock E (draws u) - t0)) (sha256Hex E t)"
  have crypto: "crypto_ok E" using assms(1) by (simp add: sound_env_def)
  have l: "can_log E x (Suc k) ?u" using can_log_draws [OF u(1)] by simp
  have ev: "assertEventEvidence ?e = Inr ()"
    unfolding completed_event_def
    by (rule step_evidence) (use nums b sha256Hex_ok [OF crypto] in \<open>auto simp: EXECUTION_EVENT_TYPES_def\<close>)
  obtain a v where a: "appendExecutionEvent E Pool ?e ?u = (Inr a, v)" "logged ?u v"
    by (rule logs [OF assms(1) l _ _ _ ev]) (use u(2) in \<open>auto simp: completed_event_def\<close>)
  have n: "nowE E u = (Inr (clock E (draws u)), ?u)" by (simp add: nowE_def run_drawE)
  have t: "completion_text c = Inr t" using c(2) by (simp add: completion_text_def)
  have "run_model E x st b model cfg t0 w = (Inr
      \<lparr>mr_text = t, mr_prompt_hash = bp_promptHash b, mr_output_hash = sha256Hex E t, mr_model_id = md_id model,
       mr_provider = md_provider model, mr_deployment_type = md_deployment_type model,
       mr_latency_ms = max 0 (clock E (draws u) - t0), mr_input_tokens = cr_input_tokens c,
       mr_output_tokens = cr_output_tokens c, mr_included_chunk_ids = bp_includedChunkIds b\<rparr>, v)"
    unfolding run_model_def Let_def assms(4) bind_lift_Inr
    by (simp add: bindE_def c(1) n t run a(1))
  with a(2) that show ?thesis by blast
qed

lemma started_event_runs:
  assumes "sound_env E" "can_log E x (Suc k) w" "known_event x w sel" "b = prompt_of E input x ks"
  obtains a v where "appendExecutionEvent E Pool (started_event input x sel b ks) w = (Inr a, v)" "logged w v"
    "can_log E x k v" "known_event x v (ev_id a)"
proof -
  have h: "isSha256Hex (bp_promptHash b)"
    using sha256Hex_ok [of E] assms(1) by (simp add: assms(4) prompt_of_def buildGovernedPrompt_def Let_def sound_env_def)
  have "assertEventEvidence (started_event input x sel b ks) = Inr ()"
    using step_evidence [of "''model.execution.started''" _ "Some (bp_promptHash b)" None x "''started''" "[sel]"] h
    by (simp add: started_event_def EXECUTION_EVENT_TYPES_def step_event_def list_all_iff)
  then obtain a v where "appendExecutionEvent E Pool (started_event input x sel b ks) w = (Inr a, v)" "logged w v"
      "can_log E x k v" "known_event x v (ev_id a)"
    by (rule logs [OF assms(1,2) _ _ _, rotated 3]) (use assms(3) in \<open>auto simp: started_event_def\<close>)
  with that show ?thesis by blast
qed

text \<open>A call without retrieved knowledge, whose provider is reached over HTTP and answers with a text.\<close>

lemma executeModel_runs:
  fixes w :: "'w knowledge_world_scheme"
  assumes "sound_env E" "can_log E x 6 w" "x \<in> set (executions w)" "ml_executionId input = ex_id x" "\<not> terminal (ex_status x)"
    and "ex_actor_id x = Some actor" "actor \<noteq> ''''" "role_of_member actor (ex_organization_id x) w = (Inr (Some role), w)"
    and "verdict_value (policy_verdict \<lparr>ei_organizationId = ex_organization_id x, ei_actorId = actor, ei_roleId = role,
        ei_action = SkillUse ''models.route'' (ml_dataClassification input) (ml_riskTier input)\<rparr> w) = Allow"
    and "ml_retrievalRunId input = None" "context_ids input = []" "distinct (map md_id (models w))"
      "\<forall>m\<in>set (models w). md_id m \<noteq> ''''"
    and q: "q = route_of_call input x actor role" "\<not> route_denied q w" "routable q w m0"
    and "loadConfig E = Inr cfg"
    and answer: "\<And>m (v :: 'w knowledge_world_scheme). routable q w m \<Longrightarrow> \<exists>adapter c t s. adapterFor (md_provider m)
        \<lparr>ms_openai = cf_openaiKey cfg, ms_anthropic = cf_anthropicKey cfg, ms_compatible = cf_compatibleKey cfg\<rparr> = Inr adapter \<and>
        complete E adapter (governed_request E input x [] m) v = (Inr c, v\<lparr>sent := s\<rparr>) \<and>
        s \<noteq> sent v \<and>
        completion_result.cr_text c = JStr t \<and> isSafeInteger (int (cr_input_tokens c)) \<and> isSafeInteger (int (cr_output_tokens c))"
    and latency: "\<And>k n. isSafeInteger (max 0 (clock E k - clock E n))"
  obtains r w' where "executeModelForExecution E input w = (Inr r, w')" "sent w' \<noteq> sent w"
proof -
  let ?b = "prompt_of E input x []"
  have crypto: "crypto_ok E" using assms(1) by (simp add: sound_env_def)
  have h: "isSha256Hex (bp_promptHash ?b)"
    using sha256Hex_ok [OF crypto] by (simp add: prompt_of_def buildGovernedPrompt_def Let_def)
  have inv: "executions_ok w" using assms(2) by (simp add: can_log_def audit_inv_def)
  obtain y where y: "find (\<lambda>r. ex_id r = ex_id x) (executions w) = Some y"
    using assms(3) by (cases "find (\<lambda>r. ex_id r = ex_id x) (executions w)") (auto simp: find_None_iff)
  then have "y = x" using key_only [of "executions w" x y] inv assms(3) by (auto simp: executions_ok_def dest!: find_SomeD)
  with y have x0: "requireOpenExecution (ml_executionId input) w = (Inr x, w)"
    using assms(4,5) by (simp add: requireOpenExecution_def requireExecutionById_def getExecutionById_def bindE_def run terminal_def)
  have m0: "member_role x w = (Inr (actor, role), w)"
    using assms(6-8) by (simp add: member_role_def Let_def bindE_def run truthy_def)
  obtain i u1 where a: "authorize_step E x ''model.execute'' \<lparr>ei_organizationId = ex_organization_id x, ei_actorId = actor,
      ei_roleId = role, ei_action = SkillUse ''models.route'' (ml_dataClassification input) (ml_riskTier input)\<rparr> w = (Inr i, u1)"
      "logged w u1" "can_log E x 4 u1" "known_event x u1 i"
    by (rule authorize_step_runs [OF assms(1) _ assms(9), where k = 4]) (use assms(2) in \<open>simp_all add: eval_nat_numeral\<close>)
  have k0: "knowledge_context E input x i u1 = (Inr [], u1)"
    using assms(10,11) by (simp add: knowledge_context_def truthy_def bindE_def run)
  note same = logged_simps [OF a(2)]
  have rd: "\<not> route_denied q u1" "routable q u1 m0" "distinct (map md_id (models u1))" "\<forall>m\<in>set (models u1). md_id m \<noteq> ''''"
    using q(2,3) same assms(12,13) by (simp_all add: route_denied_def decided_value_def)
  obtain model sel u2 where s: "select_model E input x actor role i u1 = (Inr (model, sel), u2)" "logged u1 u2"
      "can_log E x 2 u2" "known_event x u2 sel" "routable q u1 model"
    by (rule select_model_runs [OF assms(1) _ a(4) rd(3) q(1) rd(1,2,4), where k = 2]) (use a(3) in \<open>simp_all add: eval_nat_numeral\<close>)
  obtain e u3 where e: "appendExecutionEvent E Pool (started_event input x sel ?b []) u2 = (Inr e, u3)" "logged u2 u3"
      "can_log E x 1 u3" "known_event x u3 (ev_id e)"
    by (rule started_event_runs [OF assms(1) _ s(4) refl, where k = 1]) (use s(3) in \<open>simp_all add: eval_nat_numeral\<close>)
  let ?u = "u3\<lparr>draws := Suc (draws u3)\<rparr>"
  have n: "nowE E u3 = (Inr (clock E (draws u3)), ?u)" by (simp add: nowE_def run_drawE)
  have lu: "can_log E x 1 ?u" "known_event x ?u (ev_id e)" using can_log_draws [OF e(3)] e(4) by simp_all
  have g: "governed_request E input x [] model = \<lparr>cq_model = model, cq_prompt = bp_prompt ?b, cq_executionId = ex_id x\<rparr>"
    by (simp add: governed_request_def prompt_of_def)
  obtain adapter c t z where c: "adapterFor (md_provider model)
        \<lparr>ms_openai = cf_openaiKey cfg, ms_anthropic = cf_anthropicKey cfg, ms_compatible = cf_compatibleKey cfg\<rparr> = Inr adapter"
      "complete E adapter \<lparr>cq_model = model, cq_prompt = bp_prompt ?b, cq_executionId = ex_id x\<rparr> ?u = (Inr c, ?u\<lparr>sent := z\<rparr>)"
      "completion_result.cr_text c = JStr t" "isSafeInteger (int (cr_input_tokens c))" "isSafeInteger (int (cr_output_tokens c))"
      "z \<noteq> sent ?u"
    using answer [of model ?u] s(5) same(2) g by auto
  have cu: "can_log E x 1 (?u\<lparr>sent := z\<rparr>)" "known_event x (?u\<lparr>sent := z\<rparr>) (ev_id e)"
    using lu by (simp_all add: can_log_sent known_event_def events_of_def)
  obtain r v where "run_model E x (ev_id e) ?b model cfg (clock E (draws u3)) ?u = (Inr r, v)"
      and lv: "logged (?u\<lparr>sent := z, draws := Suc (draws ?u)\<rparr>) v"
    by (rule run_model_runs [OF assms(1) _ lu(2) c(1,2,3) _ cu(2) latency c(4,5) h, where k = 0]) (use lu cu in simp_all)
  then have "call_model E input x [] model sel u2 = (Inr r, v)"
    using e(1) n assms(10,17) by (simp add: call_model_def Let_def prompt_of_def bindE_def run run_whenE truthy_def catchE_def)
  then have "executeModelForExecution E input w = (Inr r, v)"
    using x0 m0 a(1) k0 s(1) by (simp add: executeModelForExecution_def model_call_body_def bindE_def)
  moreover have "sent v \<noteq> sent w"
    using logged_sent [OF lv] c(6) logged_sent [OF a(2)] logged_sent [OF s(2)] logged_sent [OF e(2)] by simp
  ultimately show ?thesis using that by blast
qed

subsection \<open>What a completed call leaves\<close>

definition call_recorded :: "'a crypto_scheme \<Rightarrow> model_result \<Rightarrow> event_row \<Rightarrow> bool" where
  "call_recorded E r e \<longleftrightarrow> ev_event_type e = ''model.execution.completed'' \<and>
     mr_output_hash r = sha256Hex E (mr_text r) \<and>
     ev_input_hash e = Some (mr_prompt_hash r) \<and> ev_output_hash e = Some (mr_output_hash r)"

lemma event_recorded:
  assumes "appendExecutionEvent E Pool i u = (Inr row, v)"
  shows "execution_events v = execution_events u @ [row] \<and> ev_execution_id row = ae_executionId i \<and>
    ev_event_type row = ae_eventType i \<and> ev_input_hash row = ae_inputHash i \<and> ev_output_hash row = ae_outputHash i"
proof -
  from assms have "appendExecutionEventInTransaction E i u = (Inr row, v)"
    by (cases rule: appendExecutionEvent_cases) auto
  from append_event_Inr [OF this] show ?thesis by (auto simp: event_appended_def)
qed

lemma run_model_Inr:
  assumes "run_model E x st b model cfg t0 w = (Inr r, v)"
  shows "(\<exists>es e. execution_events v = es @ [e] \<and> ev_execution_id e = ex_id x \<and> call_recorded E r e) \<and>
    mr_prompt_hash r = bp_promptHash b \<and> mr_included_chunk_ids r = bp_includedChunkIds b"
proof -
  obtain a c u1 n u2 t row u where
    app: "appendExecutionEvent E Pool (completed_event x st b model c (max 0 (n - t0)) (sha256Hex E t)) u = (Inr row, v)"
    and r: "mr_text r = t" "mr_prompt_hash r = bp_promptHash b" "mr_output_hash r = sha256Hex E t"
      "mr_included_chunk_ids r = bp_includedChunkIds b"
    using assms unfolding run_model_def Let_def by (auto simp: inr_iffs)
  from event_recorded [OF app] r show ?thesis
    by (auto simp: completed_event_def step_event_def call_recorded_def)
qed

lemma call_model_Inr:
  assumes "call_model E input x ks model sel w = (Inr r, w')"
  shows "(\<exists>es e. execution_events w' = es @ [e] \<and> ev_execution_id e = ex_id x \<and> call_recorded E r e) \<and>
    mr_prompt_hash r = sha256Hex E (cq_prompt (governed_request E input x ks model)) \<and>
    mr_included_chunk_ids r = map cc_chunk_id ks"
proof -
  let ?b = "prompt_of E input x ks"
  obtain e cfg t0 u v where
    c: "catchE (run_model E x e ?b model cfg t0) (\<lambda>_. provider_failed E x e) u = (Inr r, w')"
    using assms unfolding call_model_def Let_def by (auto simp: inr_iffs prompt_of_def)
  have "provider_failed E x e v \<noteq> (Inr r, w')" for v
    by (auto simp: provider_failed_def inr_iffs)
  with c have "run_model E x e ?b model cfg t0 u = (Inr r, w')"
    by (auto simp: catchE_def split: prod.splits sum.splits)
  from run_model_Inr [OF this] show ?thesis
    by (simp add: prompt_of_def governed_request_def buildGovernedPrompt_def Let_def)
qed

lemma model_call_Inr:
  assumes "executeModelForExecution E input w = (Inr r, w')"
  obtains x ks model sel u where "ex_id x = ml_executionId input" "call_model E input x ks model sel u = (Inr r, w')"
proof -
  from assms obtain x actor role v u where x: "requireOpenExecution (ml_executionId input) w = (Inr x, v)"
      and "model_call_body E input x actor role u = (Inr r, w')"
    unfolding executeModelForExecution_def by (auto simp: inr_iffs)
  with requireOpenExecution_Inr(3) [OF x] that show ?thesis
    unfolding model_call_body_def by (auto simp: inr_iffs)
qed

lemma output_of_last_call:
  assumes "\<forall>e\<in>set (es @ [e]). ev_event_type e = ''nova.skill.completed'' \<longrightarrow> \<not> truthy (ev_output_hash e)"
    and "ev_event_type e = ''model.execution.completed''"
  shows "output_of_events (es @ [e]) = ev_output_hash e"
proof -
  have "find (\<lambda>e. ev_event_type e = ''nova.skill.completed'' \<and> truthy (ev_output_hash e)) (rev (es @ [e])) = None"
    using assms(1) by (auto simp: find_None_iff)
  then show ?thesis using assms(2) by (simp add: output_of_events_def)
qed


subsection \<open>A call over HTTP\<close>

definition calling_env :: app_env where
  "calling_env = sample_app_env (sample_net_env\<lparr>clock := (\<lambda>n. 1767225600000),
     fetch := (\<lambda>n q. Reply 200 (JsonBody (JObj [(''choices'',
       JArr [JObj [(''message'', JObj [(''content'', JStr ''twenty days'')])]])])))\<rparr>)"

definition private_model :: model_row where
  "private_model = \<lparr>md_id = ''m1'', md_organization_id = ''org'', md_model_key = ''llama'', md_provider = OpenAICompatible,
     md_deployment_type = Private, md_endpoint = Some ''https://models'', md_capabilities = [''chat''],
     md_allowed_data_classes = [Public, Internal], md_risk_ceiling = Medium, md_requires_internet = False,
     md_enabled = True, md_created_at = 0\<rparr>"

definition calling_execution :: execution_row where
  "calling_execution = sample_execution\<lparr>ex_actor_id := Some ''u1''\<rparr>"

definition calling_world :: knowledge_world where
  "calling_world = empty_knowledge
     \<lparr>executions := [calling_execution],
      memberships := [\<lparr>mb_id = ''x'', mb_organization_id = ''org'', mb_user_id = ''u1'', mb_role_id = ''r1'', mb_created_at = 0\<rparr>],
      policies := [\<lparr>po_id = ''p1'', po_organization_id = ''org'', po_name = ''default'', po_version = 1,
        po_active = True, po_rules = DEFAULT_POLICY_RULES, po_created_at = 0\<rparr>],
      policy_bindings := [\<lparr>pb_id = ''b1'', pb_organization_id = ''org'', pb_policy_id = ''p1'', pb_skill_id = None\<rparr>],
      skill_policies := [\<lparr>sp_id = ''s1'', sp_organization_id = ''org'', sp_skill_id = ''models.route'',
        sp_requires_approval = False, sp_classification_ceiling = Restricted, sp_risk_ceiling = High\<rparr>],
      skill_policy_roles := [\<lparr>kr_skill_policy_id = ''s1'', kr_role_id = ''r1'', kr_organization_id = ''org''\<rparr>],
      models := [private_model]\<rparr>"

definition sample_call :: model_call where
  "sample_call = \<lparr>ml_executionId = ''e1'', ml_task = ''chat'', ml_riskTier = Low, ml_dataClassification = Internal,
     ml_requiredCapabilities = None, ml_preferLocal = None, ml_content = ''how much leave?'', ml_retrievalRunId = None,
     ml_contextChunkIds = None\<rparr>"

lemma calling_env_simps [simp]:
  "clock calling_env n = 1767225600000" "randomUUID calling_env = randomUUID sample_env"
  "sha256 calling_env = sha256 sample_env" "bytesToHex calling_env = bytesToHex sample_env"
  "hexToBytes calling_env = hexToBytes sample_env"
  "fetch calling_env n q = Reply 200 (JsonBody (JObj [(''choices'',
       JArr [JObj [(''message'', JObj [(''content'', JStr ''twenty days'')])]])]))"
  by (simp_all add: calling_env_def sample_app_env_def sample_net_env_def sample_auth_env_def net_env.defs knowledge_env.defs
      auth_env.defs env.defs sample_clock_env_def)

lemma calling_env_sound: "sound_env calling_env"
proof -
  have "crypto_ok calling_env" using sample_crypto_ok(2) by (simp add: crypto_ok_def)
  moreover have "inj (randomUUID calling_env)" using sample_clock_ok(2) by (simp add: sample_clock_env_def)
  ultimately show ?thesis using sample_clock_time(1) by (simp add: sound_env_def)
qed

lemma calling_tables:
  "executions calling_world = [calling_execution]" "execution_events calling_world = []" "ledger_entries calling_world = []"
  "merkle_checkpoints calling_world = []" "chain_state calling_world = []" "models calling_world = [private_model]"
  "sent calling_world = []"
  by (simp_all add: calling_world_def empty_knowledge_def empty_net_def empty_command_def empty_auth_def empty_audit_def
      social_world.defs knowledge_world.defs net_world.defs command_world.defs auth_world.defs audit_world.defs)

lemma calling_world_ready: "can_log calling_env calling_execution 6 calling_world"
proof -
  have "audit_inv C calling_world" for C
    by (simp add: audit_inv_def executions_ok_def ledger_inv_def events_inv_def calling_tables entries_of_def
        latest_of_def events_of_def)
  then show ?thesis by (simp add: can_log_def ids_drawn_def calling_tables events_of_def)
qed

lemma calling_config: "loadConfig calling_env = Inr sample_config"
  unfolding calling_env_def by (rule sample_config_loads)

lemma calling_policies:
  "policies calling_world = [\<lparr>po_id = ''p1'', po_organization_id = ''org'', po_name = ''default'', po_version = 1,
      po_active = True, po_rules = DEFAULT_POLICY_RULES, po_created_at = 0\<rparr>]"
  "policy_bindings calling_world = [\<lparr>pb_id = ''b1'', pb_organization_id = ''org'', pb_policy_id = ''p1'', pb_skill_id = None\<rparr>]"
  "skill_policies calling_world = [\<lparr>sp_id = ''s1'', sp_organization_id = ''org'', sp_skill_id = ''models.route'',
      sp_requires_approval = False, sp_classification_ceiling = Restricted, sp_risk_ceiling = High\<rparr>]"
  "skill_policy_roles calling_world = [\<lparr>kr_skill_policy_id = ''s1'', kr_role_id = ''r1'', kr_organization_id = ''org''\<rparr>]"
  by (simp_all add: calling_world_def)

lemma calling_verdicts:
  "verdict_value (policy_verdict \<lparr>ei_organizationId = ''org'', ei_actorId = a, ei_roleId = r, ei_action = LeaveDevice Internal\<rparr>
     calling_world) = Allow"
  "verdict_value (policy_verdict \<lparr>ei_organizationId = ''org'', ei_actorId = a, ei_roleId = ''r1'',
     ei_action = SkillUse ''models.route'' Internal Low\<rparr> calling_world) = Allow"
  by (simp_all add: policy_verdict_def Let_def loadActivePolicy_def active_bindings_def calling_policies DEFAULT_POLICY_RULES_def
      skill_verdict_def skill_grants_def)

definition sample_call_route :: route_input where
  "sample_call_route = route_of_call sample_call calling_execution ''u1'' ''r1''"

lemma calling_route:
  "ri_organizationId sample_call_route = ''org''" "mq_data_classification (ri_request sample_call_route) = Internal"
  "mq_risk_tier (ri_request sample_call_route) = Low" "mq_required_capabilities (ri_request sample_call_route) = [''chat'']"
  "ri_actorId sample_call_route = ''u1''" "ri_roleId sample_call_route = ''r1''"
  by (simp_all add: sample_call_route_def route_of_call_def sample_call_def calling_execution_def sample_execution_def)

lemma calling_routable:
  "\<not> route_denied sample_call_route calling_world" "routable sample_call_route calling_world m \<longleftrightarrow> m = private_model"
proof -
  show "\<not> route_denied sample_call_route calling_world"
    by (simp add: route_denied_def decided_value_def route_action_def calling_route calling_verdicts)
  have l: "\<not> local_required sample_call_route calling_world"
    by (simp add: local_required_def decided_value_def route_action_def calling_route calling_verdicts
        less_eq_data_classification_def)
  have "routable sample_call_route calling_world private_model"
    unfolding routable_def Let_def calling_route calling_tables
    using l by (simp add: private_model_def less_eq_risk_tier_def)
  moreover have "m \<in> set (models calling_world)" if "routable sample_call_route calling_world m"
    using that by (simp add: routable_def Let_def)
  ultimately show "routable sample_call_route calling_world m \<longleftrightarrow> m = private_model" by (auto simp: calling_tables)
qed

lemma calling_answer:
  "complete calling_env (OpenAICompatibleAdapter None) (governed_request C i x ks private_model) (v :: knowledge_world) =
     (Inr (completion OpenAICompatible (JStr ''twenty days'')), v\<lparr>sent := sent v @
        [\<lparr>rq_method = ''POST'', rq_url = ''https://models'', rq_headers = [(''content-type'', ''application/json'')],
          rq_body = Some (stringify (JObj [(''model'', JStr ''llama''),
            (''messages'', user_message (governed_request C i x ks private_model))]))\<rparr>]\<rparr>)"
proof -
  have "md_endpoint (cq_model (governed_request C i x ks private_model)) = Some ''https://models''"
    "md_model_key (cq_model (governed_request C i x ks private_model)) = ''llama''"
    by (simp_all add: governed_request_def private_model_def)
  moreover have "compatible_text (JObj [(''choices'', JArr [JObj [(''message'', JObj [(''content'', JStr ''twenty days'')])]])]) =
      Inr (JStr ''twenty days'')"
    by (simp add: compatible_text_def js_opt_get_def or_else_def nullish_def)
  ultimately show ?thesis
    by (simp add: bindE_def run postJson_def reply_ok_def)
qed

lemma sample_call_runs:
  obtains r and w :: knowledge_world where "executeModelForExecution calling_env sample_call calling_world = (Inr r, w)"
    "sent w \<noteq> sent calling_world"
proof (rule executeModel_runs [OF calling_env_sound calling_world_ready _ _ _ _ _ _ _ _ _ _ _ sample_call_route_def
    calling_routable(1) calling_routable(2) [THEN iffD2, OF refl] calling_config])
  show "calling_execution \<in> set (executions calling_world)" "ml_executionId sample_call = ex_id calling_execution"
    "\<not> terminal (ex_status calling_execution)" "ex_actor_id calling_execution = Some ''u1''" "''u1'' \<noteq> ''''"
    "ml_retrievalRunId sample_call = None" "context_ids sample_call = []" "distinct (map md_id (models calling_world))"
    "\<forall>m\<in>set (models calling_world). md_id m \<noteq> ''''"
    by (simp_all add: calling_tables calling_execution_def sample_execution_def sample_call_def terminal_def context_ids_def
        private_model_def)
  show "role_of_member ''u1'' (ex_organization_id calling_execution) calling_world = (Inr (Some ''r1''), calling_world)"
    by (simp add: role_of_member_def run calling_execution_def sample_execution_def) (simp add: calling_world_def)
  show "verdict_value (policy_verdict \<lparr>ei_organizationId = ex_organization_id calling_execution, ei_actorId = ''u1'', ei_roleId = ''r1'',
        ei_action = SkillUse ''models.route'' (ml_dataClassification sample_call) (ml_riskTier sample_call)\<rparr> calling_world) = Allow"
    using calling_verdicts(2) [of "''u1''"] by (simp add: calling_execution_def sample_execution_def sample_call_def)
  show "isSafeInteger (max 0 (clock calling_env k - clock calling_env n))" for k n by (simp add: isSafeInteger_def)
  fix m and v :: knowledge_world
  assume "routable sample_call_route calling_world m"
  then have m: "m = private_model" by (simp add: calling_routable(2))
  have p: "md_provider private_model = OpenAICompatible" by (simp add: private_model_def)
  have k: "cf_compatibleKey sample_config = None" by (simp add: sample_config_def)
  show "\<exists>adapter c t s. adapterFor (md_provider m)
        \<lparr>ms_openai = cf_openaiKey sample_config, ms_anthropic = cf_anthropicKey sample_config,
         ms_compatible = cf_compatibleKey sample_config\<rparr> = Inr adapter \<and>
        complete calling_env adapter (governed_request calling_env sample_call calling_execution [] m) v = (Inr c, v\<lparr>sent := s\<rparr>) \<and>
        s \<noteq> sent v \<and>
        completion_result.cr_text c = JStr t \<and> isSafeInteger (int (cr_input_tokens c)) \<and> isSafeInteger (int (cr_output_tokens c))"
    unfolding m p k
    by (rule exI [of _ "OpenAICompatibleAdapter None"], rule exI, rule exI, rule exI, intro conjI, simp,
        rule calling_answer) (simp_all add: completion_def isSafeInteger_def)
qed (rule that)



end
