(* ===== verification/AuditSpec.thy ===== *)
theory AuditSpec
  imports Progress
begin

text \<open>
  What the audit kernel promises, as an abstract machine without identifiers, hashes, sequence numbers
  or tables: every execution has an owner and a status that follows the status machine, every execution
  has a trail of event types, and every organization has a log of what its ledger entries record.  The
  operations of the packages \<open>execution\<close> and \<open>ledger\<close> refine it: from any sound store, every
  sequence of calls, failed ones included, is a run of the machine.
\<close>

subsection \<open>The abstract machine\<close>

record log_record =
  lr_type :: ledger_entry_type
  lr_execution :: id
  lr_request :: "string option"
  lr_response :: "string option"
  lr_graph :: "string option"

record audit_view =
  a_status :: "id \<Rightarrow> (id \<times> execution_status) option"
  a_trail :: "id \<Rightarrow> string list"
  a_log :: "id \<Rightarrow> log_record list"

inductive audit_spec :: "audit_view \<Rightarrow> audit_view \<Rightarrow> bool" where
  spec_open: "a_status a i = None \<Longrightarrow>
    audit_spec a (a\<lparr>a_status := (a_status a)(i \<mapsto> (org, Created))\<rparr>)"
| spec_event: "a_status a i = Some (org, s) \<Longrightarrow> t \<in> set EXECUTION_EVENT_TYPES \<Longrightarrow>
    audit_spec a (a\<lparr>a_trail := (a_trail a)(i := a_trail a i @ [t])\<rparr>)"
| spec_move: "a_status a i = Some (org, s) \<Longrightarrow> s = t \<or> transition s t \<Longrightarrow>
    audit_spec a (a\<lparr>a_status := (a_status a)(i \<mapsto> (org, t))\<rparr>)"
| spec_note: "a_status a (lr_execution r) = Some (owner, s) \<Longrightarrow> lr_type r = ActionCompleted \<Longrightarrow>
    audit_spec a (a\<lparr>a_log := (a_log a)(org := a_log a org @ [r])\<rparr>)"
| spec_entry: "a_status a (lr_execution r) = Some (org, s) \<Longrightarrow> s = t \<or> transition s t \<Longrightarrow> lr_type r \<noteq> ActionCompleted \<Longrightarrow>
    audit_spec a (a\<lparr>a_status := (a_status a)(lr_execution r \<mapsto> (org, t)),
      a_log := (a_log a)(org := a_log a org @ [r])\<rparr>)"

inductive_cases audit_specE: "audit_spec a b"

text \<open>What every run of the machine respects.\<close>

definition view_grows :: "audit_view \<Rightarrow> audit_view \<Rightarrow> bool" where
  "view_grows a b \<longleftrightarrow>
     (\<forall>org. \<exists>new. a_log b org = a_log a org @ new) \<and> (\<forall>i. \<exists>new. a_trail b i = a_trail a i @ new) \<and>
     (\<forall>i org s. a_status a i = Some (org, s) \<longrightarrow>
        (\<exists>t. a_status b i = Some (org, t) \<and> transition\<^sup>*\<^sup>* s t))"

lemma view_grows_refl: "view_grows a a"
  by (auto simp: view_grows_def)

lemma view_grows_trans:
  assumes "view_grows a b" "view_grows b c"
  shows "view_grows a c"
  unfolding view_grows_def
proof (intro conjI allI impI)
  show "\<exists>new. a_log c org = a_log a org @ new" for org
    using assms by (metis append.assoc view_grows_def)
  show "\<exists>new. a_trail c i = a_trail a i @ new" for i
    using assms by (metis append.assoc view_grows_def)
  show "\<exists>t. a_status c i = Some (org, t) \<and> transition\<^sup>*\<^sup>* s t" if "a_status a i = Some (org, s)" for i org s
    using assms that unfolding view_grows_def by (meson rtranclp_trans)
qed

lemma spec_grows: "audit_spec a b \<Longrightarrow> view_grows a b"
  by (erule audit_specE) (auto simp: view_grows_def)

lemma spec_run_grows: "audit_spec\<^sup>*\<^sup>* a b \<Longrightarrow> view_grows a b"
  by (induction rule: rtranclp_induct) (auto intro: view_grows_refl view_grows_trans spec_grows)

subsection \<open>Refinement\<close>

text \<open>An implementation with an invariant refines a specification through an abstraction function.\<close>

locale refinement =
  fixes inv :: "'c \<Rightarrow> bool" and abs :: "'c \<Rightarrow> 'a" and step :: "'i \<Rightarrow> 'c \<Rightarrow> 'c" and spec :: "'a \<Rightarrow> 'a \<Rightarrow> bool"
  assumes step_inv: "inv w \<Longrightarrow> inv (step i w)"
    and step_spec: "inv w \<Longrightarrow> spec\<^sup>*\<^sup>* (abs w) (abs (step i w))"
begin

lemma run_inv: "inv w \<Longrightarrow> inv (fold step calls w)"
  by (induction calls arbitrary: w) (simp_all add: step_inv)

lemma run_spec: "inv w \<Longrightarrow> spec\<^sup>*\<^sup>* (abs w) (abs (fold step calls w))"
proof (induction calls arbitrary: w)
  case (Cons c calls)
  show ?case using step_spec [OF Cons.prems, of c] Cons.IH [OF step_inv [OF Cons.prems, of c]] by simp
qed simp

end

subsection \<open>The view of a store\<close>

definition status_view :: "execution_row list \<Rightarrow> id \<Rightarrow> (id \<times> execution_status) option" where
  "status_view rows i = map_option (\<lambda>x. (ex_organization_id x, ex_status x)) (find (\<lambda>x. ex_id x = i) rows)"

definition record_of :: "ledger_entry_row \<Rightarrow> log_record" where
  "record_of e = \<lparr>lr_type = le_entry_type e, lr_execution = le_execution_id e, lr_request = le_request_hash e,
     lr_response = le_response_hash e, lr_graph = le_execution_graph_hash e\<rparr>"

definition view :: "'w audit_world_scheme \<Rightarrow> audit_view" where
  "view w = \<lparr>a_status = status_view (executions w), a_trail = (\<lambda>i. map ev_event_type (events_of i w)),
     a_log = (\<lambda>org. map record_of (entries_of org w))\<rparr>"

lemma view_simps [simp]:
  "a_status (view w) = status_view (executions w)" "a_trail (view w) i = map ev_event_type (events_of i w)"
  "a_log (view w) org = map record_of (entries_of org w)"
  by (simp_all add: view_def)

lemma view_cong:
  "executions w' = executions w \<Longrightarrow> execution_events w' = execution_events w \<Longrightarrow> ledger_entries w' = ledger_entries w \<Longrightarrow>
   view w' = view w"
  by (simp add: view_def events_of_def entries_of_def)

lemma view_tables: "tables_equal w w' \<Longrightarrow> view w' = view w"
  by (auto simp: tables_equal_def intro: view_cong)

lemma status_view_in:
  assumes "distinct (map ex_id rows)" "x \<in> set rows"
  shows "status_view rows (ex_id x) = Some (ex_organization_id x, ex_status x)"
  using find_key_unique [OF assms(1)] assms(2) by (simp add: status_view_def)

lemma status_view_new:
  assumes "\<forall>x\<in>set rows. ex_id x \<noteq> ex_id r"
  shows "status_view rows (ex_id r) = None"
    "status_view (rows @ [r]) = (status_view rows)(ex_id r \<mapsto> (ex_organization_id r, ex_status r))"
proof -
  have "find (\<lambda>x. ex_id x = ex_id r) rows = None" using assms by (auto simp: find_None_iff)
  then show "status_view rows (ex_id r) = None"
    "status_view (rows @ [r]) = (status_view rows)(ex_id r \<mapsto> (ex_organization_id r, ex_status r))"
    by (auto simp: status_view_def find_append fun_eq_iff split: option.splits)
qed

lemma status_view_update:
  assumes "status_view rows i = Some (org, s)"
  shows "status_view (update_where (\<lambda>x. ex_id x = i) (status_update (st, fin, c)) rows) = (status_view rows)(i \<mapsto> (org, st))"
  using assms by (auto simp: status_view_def fun_eq_iff executions_table.find_update executions_table.find_update_other)

subsection \<open>Every operation is a run of the machine\<close>

lemma set_status_spec:
  assumes "setExecutionStatus i st org fin c w = (res, w')" "executions_ok w"
  shows "audit_spec\<^sup>*\<^sup>* (view w) (view w')"
  using assms
proof (cases rule: setExecutionStatus_cases)
  case (2 r)
  have s: "status_view (executions w) i = Some (ex_organization_id r, ex_status r)"
    using status_view_in [of "executions w" r] 2(2,3) assms(2) by (auto simp: executions_ok_def)
  have "view w' = (view w)\<lparr>a_status := (status_view (executions w))(i \<mapsto> (ex_organization_id r, st))\<rparr>"
    by (simp add: 2(6) view_def status_view_update [OF s] events_of_def entries_of_def)
  moreover have "audit_spec (view w) ((view w)\<lparr>a_status := (a_status (view w))(i \<mapsto> (ex_organization_id r, st))\<rparr>)"
    by (rule spec_move) (use s 2(5) in auto)
  ultimately show ?thesis by auto
qed simp

lemma open_spec:
  assumes "openExecution E input w = (res, w')"
  shows "audit_spec\<^sup>*\<^sup>* (view w) (view w')"
proof (cases res)
  case (Inl e)
  then have "view w' = view w" using assms openExecution_Inl by (intro view_cong) force+
  then show ?thesis by simp
next
  case (Inr r)
  note o = openExecution_Inr [OF assms [unfolded Inr]]
  have "\<forall>x\<in>set (executions w). ex_id x \<noteq> ex_id r" using o(5) by blast
  note v = status_view_new [OF this]
  have "view w' = (view w)\<lparr>a_status := (a_status (view w))(ex_id r \<mapsto> (ex_organization_id r, Created))\<rparr>"
    using o v(2) by (simp add: view_def events_of_def entries_of_def)
  moreover have "audit_spec (view w) ((view w)\<lparr>a_status := (a_status (view w))(ex_id r \<mapsto> (ex_organization_id r, Created))\<rparr>)"
    by (rule spec_open) (simp add: v(1))
  ultimately show ?thesis by auto
qed

lemma event_spec:
  assumes "appendExecutionEventInTransaction E input w = (Inr row, w')" "executions_ok w"
  shows "audit_spec (view w) (view w')"
proof -
  note e = append_event_Inr [OF assms(1)]
  obtain x where x: "x \<in> set (executions w)" "ex_id x = ae_executionId input"
    using e by (auto simp: event_appended_def)
  have s: "status_view (executions w) (ae_executionId input) = Some (ex_organization_id x, ex_status x)"
    using status_view_in [OF _ x(1)] x(2) assms(2) by (simp add: executions_ok_def)
  have "view w' = (view w)\<lparr>a_trail := (a_trail (view w))(ae_executionId input :=
      a_trail (view w) (ae_executionId input) @ [ev_event_type row])\<rparr>"
    using e by (auto simp: event_appended_def view_def events_of_def entries_of_def fun_eq_iff)
  moreover have "audit_spec (view w) ((view w)\<lparr>a_trail := (a_trail (view w))(ae_executionId input :=
      a_trail (view w) (ae_executionId input) @ [ev_event_type row])\<rparr>)"
    by (rule spec_event) (use s e in \<open>auto simp: event_appended_def event_ok_def\<close>)
  ultimately show ?thesis by simp
qed

lemma entry_spec:
  assumes "appendLedgerEntryInTransaction E input w = (Inr row, w')" "executions_ok w"
  shows "audit_spec (view w) (view w')"
proof -
  note a = append_Inr [OF assms]
  let ?r = "record_of row"
  have ids: "distinct (map ex_id (executions w))" using assms(2) by (simp add: executions_ok_def)
  have row: "lr_execution ?r = al_executionId input" "lr_type ?r = al_entryType input"
    using a(1) by (simp_all add: record_of_def appended_def)
  have log: "(\<lambda>org. map record_of (entries_of org w')) = (a_log (view w))(al_organizationId input :=
      a_log (view w) (al_organizationId input) @ [?r])"
    using a(1) by (auto simp: appended_def entries_of_def fun_eq_iff)
  have trail: "events_of i w' = events_of i w" for i using a(1) by (simp add: appended_def events_of_def)
  obtain v t where v: "executions v = executions w" "update_execution_for_entry input (le_id row) t v = (Inr (), w')"
    using a(7) by blast
  obtain x where x: "x \<in> set (executions w)" "ex_id x = al_executionId input"
    using a(1) by (auto simp: appended_def)
  note sx = status_view_in [OF ids x(1), unfolded x(2)]
  show ?thesis
  proof (cases "al_entryType input = ActionCompleted")
    case True
    then have "executions w' = executions w" using v by (auto simp: update_execution_for_entry_def Let_def run)
    then have "view w' = (view w)\<lparr>a_log := (a_log (view w))(al_organizationId input := a_log (view w) (al_organizationId input) @ [?r])\<rparr>"
      using log trail by (simp add: view_def)
    moreover have "audit_spec (view w) ((view w)\<lparr>a_log := (a_log (view w))(al_organizationId input :=
        a_log (view w) (al_organizationId input) @ [?r])\<rparr>)"
      by (rule spec_note) (use sx row True in auto)
    ultimately show ?thesis by simp
  next
    case False
    then obtain st fin c where u: "setExecutionStatus (al_executionId input) st (Some (al_organizationId input)) fin c v = (Inr (), w')"
      using v(2) by (cases "al_entryType input") (auto simp: update_execution_for_entry_def Let_def)
    have okv: "executions_ok v" using assms(2) v(1) by (simp add: executions_ok_def)
    from u okv show ?thesis
    proof (cases rule: setExecutionStatus_cases)
      case (2 r)
      have sr: "status_view (executions w) (al_executionId input) = Some (al_organizationId input, ex_status r)"
        using status_view_in [OF ids, of r] 2 v(1) by auto
      have "view w' = (view w)\<lparr>a_status := (a_status (view w))(lr_execution ?r \<mapsto> (al_organizationId input, st)),
          a_log := (a_log (view w))(al_organizationId input := a_log (view w) (al_organizationId input) @ [?r])\<rparr>"
        using log trail by (simp add: view_def row) (simp add: 2(6) v(1) status_view_update [OF sr])
      moreover have "audit_spec (view w) ((view w)\<lparr>a_status := (a_status (view w))(lr_execution ?r \<mapsto> (al_organizationId input, st)),
          a_log := (a_log (view w))(al_organizationId input := a_log (view w) (al_organizationId input) @ [?r])\<rparr>)"
        by (rule spec_entry) (use sr row False 2(5) in auto)
      ultimately show ?thesis by simp
    qed simp
  qed
qed

lemma preludes_spec:
  "record_preludes E org exec parents ps w = (Inr parents', w') \<Longrightarrow> executions_ok w \<Longrightarrow>
   audit_spec\<^sup>*\<^sup>* (view w) (view w') \<and> executions w' = executions w"
proof (induction ps arbitrary: parents w)
  case (Cons p ps)
  then obtain r u where u: "appendExecutionEventInTransaction E (prelude_input org exec parents p) w = (Inr r, u)"
      "record_preludes E org exec [ev_id r] ps u = (Inr parents', w')"
    by (auto simp: inr_iffs)
  have ex: "executions u = executions w" using append_event_Inr [OF u(1)] by (auto simp: event_appended_def)
  with Cons.prems(2) have "executions_ok u" by (simp add: executions_ok_def)
  from Cons.IH [OF u(2) this] event_spec [OF u(1) Cons.prems(2)] ex show ?case
    by (auto intro: converse_rtranclp_into_rtranclp)
qed (simp add: run)

lemma seal_spec:
  assumes "sealExecutionInTransaction E s w = (Inr r, w')" "executions_ok w"
  shows "audit_spec\<^sup>*\<^sup>* (view w) (view w')"
proof -
  from assms(1) obtain parents u sealed v h g entry where
    u: "record_preludes E (se_organizationId s) (se_executionId s) (se_parentEventIds s) (se_preludeEvents s) w = (Inr parents, u)"
    and v: "appendExecutionEventInTransaction E (sealed_event s parents h) u = (Inr sealed, v)"
    and app: "appendLedgerEntryInTransaction E g v = (Inr entry, w')"
    by (auto simp: sealExecutionInTransaction_def Let_def inr_iffs getExecution_def listExecutionEvents_def
        loadRequestOpenedHash_def)
  note p = preludes_spec [OF u assms(2)]
  have ok: "executions_ok u" using p assms(2) by (simp add: executions_ok_def)
  have "executions v = executions u" using append_event_Inr [OF v] by (auto simp: event_appended_def)
  with ok have okv: "executions_ok v" by (simp add: executions_ok_def)
  from entry_spec [OF app okv] have "audit_spec (view v) (view w')" .
  with p event_spec [OF v ok] show ?thesis by (meson rtranclp.rtrancl_into_rtrancl)
qed

subsection \<open>The audit kernel refines its specification\<close>

datatype audit_call =
    CallOpen open_execution_input
  | CallStatus id execution_status "id option" "id option" "int option"
  | CallEvent append_event_input
  | CallEntry append_ledger_input
  | CallSeal seal_input

text \<open>A seal with a final or failure entry is what the program asks for.\<close>

fun audit_step :: "'a env_scheme \<Rightarrow> audit_call \<Rightarrow> 'w audit_world_scheme \<Rightarrow> 'w audit_world_scheme" where
  "audit_step E (CallOpen input) w = snd (openExecution E input w)"
| "audit_step E (CallStatus i st org fin c) w = snd (setExecutionStatus i st org fin c w)"
| "audit_step E (CallEvent input) w = snd (appendExecutionEvent E Pool input w)"
| "audit_step E (CallEntry input) w = snd (appendLedgerEntry E Pool input w)"
| "audit_step E (CallSeal input) w =
     (if se_entryType input = FinalEntry \<or> se_entryType input = FailureEntry
      then snd (sealExecution E restore_audit input None w) else w)"

lemma audit_step_sound:
  assumes "audit_inv E w"
  shows "audit_inv E (audit_step E c w) \<and> audit_spec\<^sup>*\<^sup>* (view w) (view (audit_step E c w))"
proof (cases c)
  case (CallOpen input)
  obtain r w' where run: "openExecution E input w = (r, w')" by fastforce
  with CallOpen audit_inv_open(1) [OF run assms] open_spec [OF run] show ?thesis by simp
next
  case (CallStatus i st org fin d)
  obtain r w' where run: "setExecutionStatus i st org fin d w = (r, w')" by fastforce
  with CallStatus audit_inv_setStatus(1) [OF run assms] set_status_spec [OF run] assms show ?thesis
    by (simp add: audit_inv_def)
next
  case (CallEvent input)
  obtain r w' where run: "appendExecutionEvent E Pool input w = (r, w')" by fastforce
  then have "audit_inv E w' \<and> audit_spec\<^sup>*\<^sup>* (view w) (view w')"
    by (cases rule: appendExecutionEvent_cases)
      (use assms audit_inv_tables view_tables audit_inv_append_event(1) event_spec in \<open>fastforce simp: audit_inv_def\<close>)+
  with run CallEvent show ?thesis by simp
next
  case (CallEntry input)
  obtain r w' where run: "appendLedgerEntry E Pool input w = (r, w')" by fastforce
  then have "audit_inv E w' \<and> audit_spec\<^sup>*\<^sup>* (view w) (view w')"
    by (cases rule: appendLedgerEntry_cases)
      (use assms audit_inv_tables view_tables audit_inv_append(1) entry_spec in \<open>fastforce simp: audit_inv_def\<close>)+
  with run CallEntry show ?thesis by simp
next
  case (CallSeal input)
  obtain r w' where run: "sealExecution E restore_audit input None w = (r, w')" by fastforce
  show ?thesis
  proof (cases "se_entryType input = FinalEntry \<or> se_entryType input = FailureEntry")
    case True
    have "audit_inv E w' \<and> audit_spec\<^sup>*\<^sup>* (view w) (view w')"
    proof (cases r)
      case (Inl e)
      then have "tables_equal w w'" using run by (auto simp: sealExecution_def txnE_Inl)
      with assms view_tables audit_inv_tables show ?thesis by fastforce
    next
      case (Inr x)
      note s = sealExecution_Inr [OF run [unfolded Inr]]
      from seal_Inr(2) [OF s assms True] seal_spec [OF s] assms show ?thesis by (simp add: audit_inv_def)
    qed
    with run True CallSeal show ?thesis by simp
  qed (use CallSeal assms in simp)
qed

interpretation audit_kernel: refinement "audit_inv E" view "audit_step E" audit_spec for E :: "'a env_scheme"
  by unfold_locales (use audit_step_sound in blast)+

text \<open>C39: The audit kernel implements its specification.  From any sound store, every sequence of calls (openings,
  status changes, events, ledger entries and seals, in any order, the failing ones included) is a run of the abstract
  machine, and it leaves a sound store; so every log and every trail only grows at its end, no
  execution disappears or changes its owner, and every status moves along the status machine.\<close>

theorem audit_kernel_refines_spec:
  assumes "audit_inv E w"
  shows "audit_spec\<^sup>*\<^sup>* (view w) (view (fold (audit_step E) calls w)) \<and> audit_inv E (fold (audit_step E) calls w) \<and>
    view_grows (view w) (view (fold (audit_step E) calls w))"
  using audit_kernel.run_spec [OF assms, of calls] audit_kernel.run_inv [OF assms, of calls] spec_run_grows by blast

text \<open>The sample execution is sealed.\<close>

theorem audit_kernel_refines_spec_witness:
  "\<exists>new. a_log (view (fold (audit_step sample_clock_env) [CallSeal sample_seal] (sample_world :: audit_world))) ''org'' = new \<and>
     length new = 1 \<and> audit_spec\<^sup>*\<^sup>* (view sample_world)
       (view (fold (audit_step sample_clock_env) [CallSeal sample_seal] sample_world))"
proof -
  obtain r and w' :: audit_world where run: "sealExecution sample_clock_env restore_audit sample_seal None sample_world = (Inr r, w')"
    using sample_seal_succeeds by blast
  have t: "se_entryType sample_seal = FinalEntry \<or> se_entryType sample_seal = FailureEntry" by (simp add: sample_seal_def)
  have step: "fold (audit_step sample_clock_env) [CallSeal sample_seal] sample_world = w'"
    using run t by simp
  have "entries_of ''org'' sample_world = []" by (simp add: entries_of_def sample_world_def empty_audit_def)
  with seal_Inr(1) [OF sealExecution_Inr [OF run] sample_world_audit_inv t] have "length (entries_of ''org'' w') = 1"
    by (simp add: sealed_by_def sample_seal_def)
  with audit_kernel_refines_spec [OF sample_world_audit_inv [of sample_clock_env], of "[CallSeal sample_seal]"] show ?thesis
    unfolding step by simp
qed

subsection \<open>The types of what is stored\<close>

text \<open>The rows of the audit tables with the types their columns and the hash functions need: hashes of 64
  hexadecimal digits, timestamps the Date parser reads back, sequence numbers of 32 bits, known event
  types, and metadata that are JSON objects in the domain of the canonical form.\<close>

definition audit_typed :: "'a crypto_scheme \<Rightarrow> 'w audit_world_scheme \<Rightarrow> bool" where
  "audit_typed C w \<longleftrightarrow>
     (\<forall>e\<in>set (ledger_entries w). entry_ok C e \<and> 0 < le_organization_sequence e) \<and>
     (\<forall>e\<in>set (execution_events w). event_ok e \<and> 0 < ev_event_sequence e)"

lemma audit_inv_typed:
  assumes "audit_inv C w"
  shows "audit_typed C w"
proof -
  have "entry_ok C e \<and> 0 < le_organization_sequence e" if "e \<in> set (ledger_entries w)" for e
  proof -
    have "chain_from C (le_organization_id e) 1 None (entries_of (le_organization_id e) w)"
      using assms by (simp add: audit_inv_def ledger_inv_def)
    moreover have "e \<in> set (entries_of (le_organization_id e) w)" using that by (simp add: entries_of_def)
    ultimately show ?thesis using chain_from_mem [of C "le_organization_id e" 1 None "entries_of (le_organization_id e) w" e] by simp
  qed
  moreover have "event_ok e \<and> 0 < ev_event_sequence e" if e: "e \<in> set (execution_events w)" for e
  proof -
    obtain x where x: "x \<in> set (executions w)" "ex_id x = ev_execution_id e"
      using assms e by (auto simp: audit_inv_def events_inv_def)
    have "events_from (ex_organization_id x) 1 {} (events_of (ex_id x) w)"
      using assms x(1) by (auto simp: audit_inv_def events_inv_def)
    moreover have "e \<in> set (events_of (ex_id x) w)" using e x by (simp add: events_of_def)
    ultimately show ?thesis using events_from_mem [of "ex_organization_id x" 1 "{}" "events_of (ex_id x) w" e] by simp
  qed
  ultimately show ?thesis by (simp add: audit_typed_def)
qed

text \<open>C40: Everything the audit kernel stores is well typed, and well typed evidence is never stuck.  After any
  sequence of calls from a sound store, failed calls included, every stored ledger entry and event has the
  types of its columns (64-digit hashes, readable timestamps, known event types, canonicalizable metadata),
  and for every execution the graph of its stored events can be built and hashed to 64 hexadecimal digits.\<close>

theorem audit_kernel_keeps_types:
  assumes "crypto_ok E" and "audit_inv E w" and "w' = fold (audit_step E) calls w"
  shows "audit_typed E w' \<and>
    (\<forall>x\<in>set (executions w'). \<exists>g h. buildExecutionGraphV2 (graph_execution_of x (ex_status x)) (events_of (ex_id x) w') = Inr g \<and>
       computeExecutionGraphHash E (graph_json g) = Inr h \<and> isSha256Hex h)"
proof -
  have inv: "audit_inv E w'" unfolding assms(3) by (rule audit_kernel.run_inv [OF assms(2)])
  have "\<exists>g h. buildExecutionGraphV2 (graph_execution_of x (ex_status x)) (events_of (ex_id x) w') = Inr g \<and>
      computeExecutionGraphHash E (graph_json g) = Inr h \<and> isSha256Hex h" if "x \<in> set (executions w')" for x
    by (rule graph_after [OF assms(1) inv that refl]) blast
  with audit_inv_typed [OF inv] show ?thesis by blast
qed

text \<open>The sample execution is sealed and a status change to its own status follows.\<close>

theorem audit_kernel_keeps_types_witness:
  "audit_typed sample_clock_env
     (fold (audit_step sample_clock_env) [CallSeal sample_seal, CallStatus ''e1'' Completed None None None]
       (sample_world :: audit_world))"
  using audit_kernel_keeps_types [OF sample_clock_ok(1) sample_world_audit_inv refl] by blast

end
