(* ===== verification/Records.thy ===== *)
theory Records
  imports Evidence Governed AuditSpec
begin

text \<open>
  \<open>apps/core-api/src/execution/records.ts\<close>, \<open>summarizeEvents\<close> of \<open>execution/service.ts\<close> and the
  verification of a record in \<open>server.ts\<close>: what the program shows of an execution, whether its stored
  graph is the one its final ledger entry commits to, and the answer of the verification endpoint.
\<close>

subsection \<open>Summaries of events\<close>

record event_summary =
  sm_knowledge :: json
  sm_model :: json
  sm_approval :: json
  sm_tool :: json

text \<open>\<open>events.filter((e) => e.event_type.startsWith(p)).at(-1)?.metadata ?? null\<close>.\<close>

definition last_metadata :: "string \<Rightarrow> event_row list \<Rightarrow> json" where
  "last_metadata p events =
     (case last_row (filter (\<lambda>e. starts_with (ev_event_type e) p) events) of
        None \<Rightarrow> JNull | Some e \<Rightarrow> ev_metadata e)"

definition summarizeEvents :: "event_row list \<Rightarrow> event_summary" where
  "summarizeEvents events =
     \<lparr>sm_knowledge = last_metadata ''knowledge.retrieval'' events, sm_model = last_metadata ''model.'' events,
      sm_approval = last_metadata ''approval.'' events, sm_tool = last_metadata ''tool.'' events\<rparr>"

subsection \<open>The list of records\<close>

record record_item =
  rl_verity_record_id :: string
  rl_execution_id :: id
  rl_actor_id :: "id option"
  rl_actor_name :: "string option"
  rl_actor_email :: "string option"
  rl_skill_id :: "string option"
  rl_risk_tier :: risk_tier
  rl_status :: execution_status
  rl_policy_version :: "string option"
  rl_started_at :: int
  rl_completed_at :: "int option"

text \<open>\<open>new Map(rows.map((row) => [row.id, row]))\<close>: the last row of an id wins.\<close>

definition by_id :: "('r \<Rightarrow> id) \<Rightarrow> 'r list \<Rightarrow> id \<Rightarrow> 'r option" where
  "by_id key rows i = find (\<lambda>r. key r = i) (rev rows)"

definition record_item_of :: "user_row list \<Rightarrow> execution_row \<Rightarrow> record_item" where
  "record_item_of actors row =
     (let actor = (if truthy (ex_actor_id row) then by_id us_id actors (the (ex_actor_id row)) else None) in
      \<lparr>rl_verity_record_id = ex_verity_record_id row, rl_execution_id = ex_id row,
       rl_actor_id = ex_actor_id row, rl_actor_name = map_option us_display_name actor,
       rl_actor_email = map_option us_email actor, rl_skill_id = ex_skill_id row,
       rl_risk_tier = ex_risk_tier row, rl_status = ex_status row,
       rl_policy_version = ex_policy_version row, rl_started_at = ex_started_at row,
       rl_completed_at = ex_completed_at row\<rparr>)"

definition listVerityRecords :: "id \<Rightarrow> (err, 'w auth_world_scheme, record_item list) op" where
  "listVerityRecords organizationId =
     bindE (listExecutions organizationId) (\<lambda>rows.
     let actorIds = map the (filter truthy (map ex_actor_id rows)) in
     bindE (getsE (\<lambda>w. filter (\<lambda>u. us_id u \<in> set actorIds) (users w))) (\<lambda>actors.
     ret (map (record_item_of actors) rows)))"

subsection \<open>One record\<close>

datatype provenance_status = Linked | Unlinked | Absent

record verity_record =
  vy_verity_record_id :: string
  vy_execution_id :: id
  vy_actor :: "id option"
  vy_actor_name :: "string option"
  vy_actor_email :: "string option"
  vy_skill :: "string option"
  vy_risk :: risk_tier
  vy_status :: execution_status
  vy_policy_version :: "string option"
  vy_summary :: event_summary
  vy_final_ledger_entry :: "ledger_entry_row option"
  vy_integrity_status :: string
  vy_provenance_status :: provenance_status
  vy_execution_graph_hash :: "string option"

definition record_not_found :: err where
  "record_not_found = ExecutionError ''NOT_FOUND'' 404"

definition find_record :: "id \<Rightarrow> string \<Rightarrow> (err, 'w audit_world_scheme, execution_row) op" where
  "find_record organizationId verityRecordId =
     bindE (getExecutionByRecord organizationId verityRecordId) (\<lambda>row. expectE row record_not_found)"

text \<open>\<open>linked\<close>: both hashes are present, not empty, and equal.\<close>

definition linked :: "string option \<Rightarrow> ledger_entry_row option \<Rightarrow> bool" where
  "linked graphHash finalEntry \<longleftrightarrow>
     truthy graphHash \<and>
     (case finalEntry of None \<Rightarrow> False
      | Some e \<Rightarrow> truthy (le_execution_graph_hash e) \<and> graphHash = le_execution_graph_hash e)"

definition graph_hash_of :: "'a crypto_scheme \<Rightarrow> execution_row \<Rightarrow> event_row list \<Rightarrow> err + string option" where
  "graph_hash_of C execution events =
     (if events = [] then Inr None
      else bindS (buildExecutionGraphV2 (graph_execution_of execution (ex_status execution)) events) (\<lambda>graph.
           bindS (computeExecutionGraphHash C (graph_json graph)) (\<lambda>h. Inr (Some h))))"

definition getVerityRecord ::
    "'a crypto_scheme \<Rightarrow> id \<Rightarrow> string \<Rightarrow> (err, 'w auth_world_scheme, verity_record) op" where
  "getVerityRecord C organizationId verityRecordId =
     bindE (find_record organizationId verityRecordId) (\<lambda>execution.
     bindE (listExecutionEvents organizationId (ex_id execution)) (\<lambda>events.
     bindE (liftE (graph_hash_of C execution events)) (\<lambda>graphHash.
     bindE (getsE (\<lambda>w. sort_key le_organization_sequence
       (filter (\<lambda>e. le_organization_id e = organizationId \<and> le_execution_id e = ex_id execution)
         (ledger_entries w)))) (\<lambda>ledger.
     let finalEntry = find (\<lambda>row. Some (le_id row) = ex_final_entry_id execution) ledger in
     bindE (getsE (\<lambda>w. if truthy (ex_actor_id execution)
       then find (\<lambda>u. us_id u = the (ex_actor_id execution)) (users w) else None)) (\<lambda>actor.
     ret \<lparr>vy_verity_record_id = ex_verity_record_id execution, vy_execution_id = ex_id execution,
       vy_actor = ex_actor_id execution, vy_actor_name = map_option us_display_name actor,
       vy_actor_email = map_option us_email actor, vy_skill = ex_skill_id execution,
       vy_risk = ex_risk_tier execution, vy_status = ex_status execution,
       vy_policy_version = ex_policy_version execution, vy_summary = summarizeEvents events,
       vy_final_ledger_entry = finalEntry, vy_integrity_status = ''not_verified'',
       vy_provenance_status = (if linked graphHash finalEntry then Linked
         else if events \<noteq> [] then Unlinked else Absent),
       vy_execution_graph_hash = graphHash\<rparr>)))))"

definition getVerityGraph ::
    "'a crypto_scheme \<Rightarrow> id \<Rightarrow> string \<Rightarrow> (err, 'w audit_world_scheme, execution_graph \<times> string) op" where
  "getVerityGraph C organizationId verityRecordId =
     bindE (find_record organizationId verityRecordId) (\<lambda>execution.
     bindE (listExecutionEvents organizationId (ex_id execution)) (\<lambda>events.
     bindE (liftE (buildExecutionGraphV2 (graph_execution_of execution (ex_status execution)) events)) (\<lambda>graph.
     bindE (liftE (computeExecutionGraphHash C (graph_json graph))) (\<lambda>h.
     ret (graph, h)))))"

subsection \<open>The verification endpoint\<close>

record record_verification =
  rv_verity_record_id :: string
  rv_integrity_verified :: bool
  rv_provenance_verified :: bool
  rv_integrity_status :: string
  rv_provenance_status :: string
  rv_integrity_label :: string
  rv_provenance_label :: string
  rv_issues :: "verify_issue list"

fun provenance_text :: "provenance_status \<Rightarrow> string" where
  "provenance_text Linked = ''linked''"
| "provenance_text Unlinked = ''unlinked''"
| "provenance_text Absent = ''absent''"

definition verification_of :: "verity_record \<Rightarrow> string \<Rightarrow> verify_result \<Rightarrow> record_verification" where
  "verification_of record verityRecordId verification =
     (let status = vy_provenance_status record;
          provenanceVerified = (vr_valid verification \<and> status = Linked) in
      \<lparr>rv_verity_record_id = verityRecordId, rv_integrity_verified = vr_valid verification,
       rv_provenance_verified = provenanceVerified,
       rv_integrity_status = (if vr_valid verification then ''verified'' else ''failed''),
       rv_provenance_status = (if provenanceVerified then ''verified'' else provenance_text status),
       rv_integrity_label = (if vr_valid verification then ''Integrity Verified'' else ''Not Verified''),
       rv_provenance_label = (if provenanceVerified then ''Provenance Verified''
         else if status = Linked then ''Linked'' else if status = Unlinked then ''Unlinked''
         else ''Not Verified''),
       rv_issues = vr_issues verification\<rparr>)"

definition verifyVerityRecord ::
    "'a env_scheme \<Rightarrow> id \<Rightarrow> string \<Rightarrow> (err, 'w auth_world_scheme, record_verification) op" where
  "verifyVerityRecord E organizationId verityRecordId =
     bindE (getVerityRecord E organizationId verityRecordId) (\<lambda>record.
     bindE (exportOrganizationEvidence E organizationId) (\<lambda>bundle.
     bindE (liftE (verifyEvidenceBundle E bundle)) (\<lambda>verification.
     ret (verification_of record verityRecordId verification))))"

subsection \<open>Reading a sound database\<close>

lemma find_unique:
  assumes "x \<in> set xs" "p x" "\<And>y. y \<in> set xs \<Longrightarrow> p y \<Longrightarrow> y = x"
  shows "find p xs = Some x"
proof (cases "find p xs")
  case None
  with assms(1,2) show ?thesis by (auto simp: find_None_iff)
next
  case (Some y)
  with assms(3) find_SomeD [OF Some] show ?thesis by simp
qed

lemma find_record_run:
  assumes "executions_ok w" "x \<in> set (executions w)" "ex_organization_id x = org"
  shows "find_record org (ex_verity_record_id x) w = (Inr x, w)"
proof -
  have "find (\<lambda>r. ex_verity_record_id r = ex_verity_record_id x \<and> ex_organization_id r = org) (executions w) = Some x"
    using assms by (intro find_unique) (auto simp: executions_ok_def distinct_map inj_on_def)
  then show ?thesis by (simp add: find_record_def getExecutionByRecord_def run)
qed

text \<open>What a record shows, given the stored execution, its events and its graph.\<close>

lemma getVerityRecord_Inr:
  assumes "audit_inv C w" "x \<in> set (executions w)" "ex_organization_id x = org"
    "graph_hash_of C x (events_of (ex_id x) w) = Inr gh"
  obtains v where "getVerityRecord C org (ex_verity_record_id x) w = (Inr v, w)"
    "vy_execution_graph_hash v = gh" "vy_execution_id v = ex_id x"
    "vy_final_ledger_entry v = find (\<lambda>e. Some (le_id e) = ex_final_entry_id x)
       (sort_key le_organization_sequence (filter (\<lambda>e. le_organization_id e = org \<and> le_execution_id e = ex_id x)
         (ledger_entries w)))"
    "vy_provenance_status v = (if linked gh (vy_final_ledger_entry v) then Linked
       else if events_of (ex_id x) w \<noteq> [] then Unlinked else Absent)"
proof -
  have ok: "executions_ok w" "events_inv w" using assms(1) by (simp_all add: audit_inv_def)
  note l = listExecutionEvents_run [OF ok(2) assms(2), of org]
  show ?thesis
    by (rule that, simp add: getVerityRecord_def find_record_run [OF ok(1) assms(2,3)] l assms(3,4) run Let_def)
      simp_all
qed

lemma final_entry_found:
  assumes "distinct (map le_id (ledger_entries w))" "e \<in> set (entries_of org w)" "le_execution_id e = i"
    "final = Some (le_id e)"
  shows "find (\<lambda>r. Some (le_id r) = final) (sort_key le_organization_sequence
     (filter (\<lambda>e. le_organization_id e = org \<and> le_execution_id e = i) (ledger_entries w))) = Some e"
  using assms by (intro find_unique) (auto simp: entries_of_def distinct_map inj_on_def)

subsection \<open>Properties of records\<close>

lemma sealed_record_holds:
  assumes "crypto_ok E" and "audit_inv E w" and "checkpoints_disjoint org w" and "seals_current E org w"
    and "x \<in> set (executions w)" and "ex_organization_id x = org" and "ex_final_entry_id x = Some (le_id e)"
    and "e \<in> set (entries_of org w)" and "le_execution_id e = ex_id x"
    and "le_entry_type e = FinalEntry \<or> le_entry_type e = FailureEntry" and "le_execution_graph_hash e = Some h"
  shows "\<exists>v. verifyVerityRecord E org (ex_verity_record_id x) w = (Inr v, w\<lparr>draws := Suc (draws w)\<rparr>) \<and>
    rv_integrity_verified v \<and> rv_provenance_verified v \<and> rv_integrity_label v = ''Integrity Verified'' \<and>
    rv_provenance_label v = ''Provenance Verified'' \<and> rv_issues v = []"
proof -
  obtain y where y: "y \<in> set (executions w)" "ex_id y = ex_id x" "events_of (ex_id y) w \<noteq> []"
      "current_graph_hash E w y = Inr h"
    using assms(4) [unfolded seals_current_def, rule_format, OF assms(8), of h] assms(9-11) by auto
  have "y = x" using key_only [OF _ assms(5) y(1,2)] assms(2) by (simp add: audit_inv_def executions_ok_def)
  obtain g k where gk: "buildExecutionGraphV2 (graph_execution_of x (ex_status x)) (events_of (ex_id x) w) = Inr g"
      "computeExecutionGraphHash E (graph_json g) = Inr k" "isSha256Hex k"
    by (rule graph_after [OF assms(1,2,5) refl])
  then have hash: "graph_hash_of E x (events_of (ex_id x) w) = Inr (Some h)" and "isSha256Hex h"
    using y(3,4) \<open>y = x\<close> by (auto simp: graph_hash_of_def current_graph_hash_def)
  then have ne: "h \<noteq> ''''" by (auto simp: isSha256Hex_def)
  obtain v where v: "getVerityRecord E org (ex_verity_record_id x) w = (Inr v, w)" "vy_provenance_status v = Linked"
  proof (rule getVerityRecord_Inr [OF assms(2,5,6) hash])
    fix v
    assume a: "getVerityRecord E org (ex_verity_record_id x) w = (Inr v, w)"
      "vy_final_ledger_entry v = find (\<lambda>e. Some (le_id e) = ex_final_entry_id x)
         (sort_key le_organization_sequence (filter (\<lambda>e. le_organization_id e = org \<and> le_execution_id e = ex_id x)
           (ledger_entries w)))"
      "vy_provenance_status v = (if linked (Some h) (vy_final_ledger_entry v) then Linked
         else if events_of (ex_id x) w \<noteq> [] then Unlinked else Absent)"
    have "vy_final_ledger_entry v = Some e"
      unfolding a(2) by (rule final_entry_found) (use assms(2,7-9) in \<open>auto simp: audit_inv_def ledger_inv_def\<close>)
    with a(1,3) ne assms(11) show ?thesis by (intro that [of v]) (simp_all add: linked_def truthy_def)
  qed
  obtain b where b: "exportOrganizationEvidence E org w = (Inr b, w\<lparr>draws := Suc (draws w)\<rparr>)"
      "verifyEvidenceBundle E b = Inr \<lparr>vr_valid = True, vr_issues = []\<rparr>"
    using export_verified [OF assms(1-4)] by blast
  show ?thesis
    by (simp add: verifyVerityRecord_def v b run verification_of_def Let_def)
qed

text \<open>C17: A sealed execution verifies.  In a sound database whose seals still match the stored events and whose
  checkpoints do not overlap, the verification of the record of an execution whose final ledger entry carries
  a graph hash returns without an exception, changes no table, and answers that both the integrity of the
  organization's evidence and the provenance of the record are verified, with no issues.\<close>

theorem sealed_record_verifies:
  assumes "crypto_ok E" and "audit_inv E w" and "checkpoints_disjoint org w" and "seals_current E org w"
    and "x \<in> set (executions w)" and "ex_organization_id x = org" and "ex_final_entry_id x = Some (le_id e)"
    and "e \<in> set (entries_of org w)" and "le_execution_id e = ex_id x"
    and "le_entry_type e = FinalEntry \<or> le_entry_type e = FailureEntry" and "le_execution_graph_hash e = Some h"
  shows "\<exists>v. verifyVerityRecord E org (ex_verity_record_id x) w = (Inr v, w\<lparr>draws := Suc (draws w)\<rparr>) \<and>
    rv_integrity_verified v \<and> rv_provenance_verified v \<and> rv_integrity_label v = ''Integrity Verified'' \<and>
    rv_provenance_label v = ''Provenance Verified'' \<and> rv_issues v = []"
  by (rule sealed_record_holds [OF assms])

lemma listed_events_ok:
  assumes "listExecutionEvents org i w = (Inr es, w)" "\<forall>e\<in>set (execution_events w). event_ok e"
  shows "\<forall>e\<in>set es. event_ok e"
  using assms by (auto simp: listExecutionEvents_def run event_ok_def)

lemma getVerityRecord_linked:
  assumes "getVerityRecord C org vrid w = (Inr r, u)" "vy_provenance_status r = Linked"
  obtains x es g h e where "find_record org vrid w = (Inr x, w)" "listExecutionEvents org (ex_id x) w = (Inr es, w)"
    "buildExecutionGraphV2 (graph_execution_of x (ex_status x)) es = Inr g"
    "computeExecutionGraphHash C (graph_json g) = Inr h"
    "vy_final_ledger_entry r = Some e" "le_execution_graph_hash e = Some h" "u = w"
  using assms
  by (auto simp: getVerityRecord_def find_record_def getExecutionByRecord_def listExecutionEvents_def Let_def
      inr_iffs graph_hash_of_def linked_def truthy_def split: if_splits option.splits intro: that)

lemma getVerityRecord_state: "getVerityRecord C org vrid w = (Inr r, u) \<Longrightarrow> u = w"
  by (auto simp: getVerityRecord_def find_record_def getExecutionByRecord_def listExecutionEvents_def Let_def inr_iffs)

lemma verifyVerityRecord_Inr:
  assumes "verifyVerityRecord E org vrid w = (Inr v, u)"
  obtains r b c w1 where "getVerityRecord E org vrid w = (Inr r, w1)" "exportOrganizationEvidence E org w1 = (Inr b, u)"
    "verifyEvidenceBundle E b = Inr c" "v = verification_of r vrid c"
  using assms by (auto simp: verifyVerityRecord_def inr_iffs)

lemma verified_provenance:
  assumes "verifyVerityRecord E org vrid w = (Inr v, u)" "rv_provenance_verified v"
    and "getVerityRecord E org vrid w = (Inr r, w1)"
  shows "vy_provenance_status r = Linked"
  using assms(2,3) by (rule_tac verifyVerityRecord_Inr [OF assms(1)]) (simp add: verification_of_def Let_def)


subsection \<open>A concrete sealed execution\<close>

definition with_auth :: "audit_world \<Rightarrow> auth_world" where
  "with_auth w = audit_world.extend w (auth_world.fields [] [] [] [] [] [] [])"

lemma with_auth_tables [simp]:
  "executions (with_auth w) = executions w" "ledger_entries (with_auth w) = ledger_entries w"
  "execution_events (with_auth w) = execution_events w" "merkle_checkpoints (with_auth w) = merkle_checkpoints w"
  "chain_state (with_auth w) = chain_state w" "draws (with_auth w) = draws w"
  by (cases w; simp add: with_auth_def audit_world.extend_def)+

lemma with_auth_simps [simp]:
  "entries_of org (with_auth w) = entries_of org w" "events_of i (with_auth w) = events_of i w"
  "latest_of org (with_auth w) = latest_of org w" "executions_ok (with_auth w) = executions_ok w"
  by (simp_all add: entries_of_def events_of_def latest_of_def executions_ok_def)

lemma with_auth_inv [simp]:
  "audit_inv C (with_auth w) = audit_inv C w" "checkpoints_disjoint org (with_auth w) = checkpoints_disjoint org w"
  "seals_current C org (with_auth w) = seals_current C org w"
  by (simp_all add: audit_inv_def ledger_inv_def events_inv_def checkpoint_ok_def checkpoints_disjoint_def
      seals_current_def current_graph_hash_def)

lemma sample_record:
  obtains w x e h where "audit_inv sample_clock_env (w :: auth_world)" "checkpoints_disjoint ''org'' w"
    "seals_current sample_clock_env ''org'' w" "x \<in> set (executions w)" "ex_organization_id x = ''org''"
    "ex_final_entry_id x = Some (le_id e)" "e \<in> set (entries_of ''org'' w)" "le_execution_id e = ex_id x"
    "le_entry_type e = FinalEntry \<or> le_entry_type e = FailureEntry" "le_execution_graph_hash e = Some h"
proof -
  obtain r w where s: "sealed_by sample_clock_env sample_seal sample_world r w" "audit_inv sample_clock_env w"
      "checkpoints_disjoint ''org'' w" "seals_current sample_clock_env ''org'' w" "entries_of ''org'' w = [sr_entry r]"
    by (rule sample_sealed_database)
  obtain x where "x \<in> set (executions w)" "ex_organization_id x = ''org''" "ex_final_entry_id x = Some (le_id (sr_entry r))"
      "le_execution_id (sr_entry r) = ex_id x" "le_entry_type (sr_entry r) = FinalEntry"
      "le_execution_graph_hash (sr_entry r) = Some (sr_graphHash r)"
    using s(1) by (auto simp: sealed_by_def sample_seal_def)
  with s show ?thesis by (intro that [of "with_auth w" x "sr_entry r"]) simp_all
qed

theorem sealed_record_verifies_witness:
  "\<exists>(w :: auth_world) vrid v u. verifyVerityRecord sample_clock_env ''org'' vrid w = (Inr v, u) \<and> rv_provenance_verified v"
  by (rule sample_record) (drule (9) sealed_record_verifies [OF sample_clock_ok(1)], blast)


end
