(* ===== verification/Shell.thy ===== *)
theory Shell
  imports ModelCalls Gateway Records
begin

text \<open>
  \<open>apps/core-api/src/shell.ts\<close>: what the web shell reads (its lists, summaries and detail pages), and the
  decisions and connector actions of a session.  The joins and counts of the queries are written out over
  the tables.  The results state that a page shows rows of the session's organization only, and what the
  counters of a collection count.
\<close>

subsection \<open>Profile and summary\<close>

record session_profile =
  pf_user_id :: id
  pf_display_name :: string
  pf_email :: string
  pf_organization_id :: id
  pf_organization :: string
  pf_role :: string
  pf_permissions :: "string list"

definition sessionProfile :: "auth_context \<Rightarrow> (err, 'w auth_world_scheme, session_profile) op" where
  "sessionProfile auth =
     bindE (getsE (\<lambda>w. case find (\<lambda>o'. or_id o' = ac_organizationId auth) (organizations w) of
         None \<Rightarrow> None
       | Some o' \<Rightarrow> map_option (\<lambda>u. (us_email u, us_display_name u, or_name o'))
           (find (\<lambda>u. us_id u = ac_userId auth) (users w)))) (\<lambda>row.
     let (email, name, org) = (case row of None \<Rightarrow> ('''', '''', '''') | Some r \<Rightarrow> r) in
     ret \<lparr>pf_user_id = ac_userId auth, pf_display_name = name, pf_email = email,
       pf_organization_id = ac_organizationId auth, pf_organization = org, pf_role = ac_roleName auth,
       pf_permissions = ac_permissions auth\<rparr>)"

record home_summary =
  hs_enabled_skills :: nat
  hs_collections :: nat
  hs_approved_sources :: nat
  hs_pending_approvals :: nat
  hs_available_models :: nat
  hs_total_models :: nat
  hs_configured_connectors :: nat
  hs_enabled_connectors :: nat
  hs_latest_chain_sequence :: "int option"
  hs_recent_records :: "record_item list"

text \<open>The four-way join that counts approved versions in readable collections.\<close>

definition approved_join :: "id \<Rightarrow> id \<Rightarrow> 'w knowledge_world_scheme \<Rightarrow> source_version_row list" where
  "approved_join org role w =
     [v. v \<leftarrow> source_versions w, sv_organization_id v = org \<and> sv_approved_at v \<noteq> None,
         s \<leftarrow> sources w, so_id s = sv_source_id v,
         c \<leftarrow> collections w, co_id c = so_collection_id s,
         p \<leftarrow> collection_permissions w, cp_collection_id p = co_id c \<and> cp_role_id p = role \<and> cp_can_read p]"

definition max_of :: "int list \<Rightarrow> int option" where
  "max_of xs = (if xs = [] then None else Some (fold max xs (hd xs)))"

definition homeSummary ::
    "'a knowledge_env_scheme \<Rightarrow> auth_context \<Rightarrow> (err, 'w knowledge_world_scheme, home_summary) op" where
  "homeSummary E auth =
     (let org = ac_organizationId auth; role = ac_roleId auth in
      bindE (listReadableCollections E org role) (\<lambda>readables.
      bindE (listModels org) (\<lambda>ms.
      bindE (listVerityRecords org) (\<lambda>records.
      getsE (\<lambda>w.
        \<lparr>hs_enabled_skills = count_where (\<lambda>p. sp_organization_id p = org \<and> starts_with (sp_skill_id p) ''nova.'') (skill_policies w),
         hs_collections = length readables, hs_approved_sources = length (approved_join org role w),
         hs_pending_approvals = count_where (\<lambda>a. ap_organization_id a = org \<and> ap_status a = Pending) (approvals w),
         hs_available_models = length (filter md_enabled ms), hs_total_models = length ms,
         hs_configured_connectors = count_where (\<lambda>c. cn_organization_id c = org) (connectors w),
         hs_enabled_connectors = count_where (\<lambda>c. cn_organization_id c = org \<and> cn_enabled c) (connectors w),
         hs_latest_chain_sequence = max_of (map le_organization_sequence
           (filter (\<lambda>e. le_organization_id e = org) (ledger_entries w))),
         hs_recent_records = take 8 records\<rparr>)))))"

subsection \<open>Skills, users, roles and policies\<close>

record skill_catalog_entry =
  kg_id :: string
  kg_name :: string
  kg_version :: string
  kg_knowledge_mode :: string
  kg_required_permissions :: "string list"

definition NOVA_SKILL_CATALOG :: "skill_catalog_entry list" where
  "NOVA_SKILL_CATALOG =
     [\<lparr>kg_id = ''nova.research'', kg_name = ''Research'', kg_version = ''1.0.0'', kg_knowledge_mode = ''strict'',
       kg_required_permissions = [''nova.use'', ''knowledge.read'']\<rparr>,
      \<lparr>kg_id = ''nova.drafting'', kg_name = ''Drafting'', kg_version = ''1.0.0'', kg_knowledge_mode = ''grounded'',
       kg_required_permissions = [''nova.use'']\<rparr>,
      \<lparr>kg_id = ''nova.social.draft'', kg_name = ''Social Draft'', kg_version = ''1.0.0'', kg_knowledge_mode = ''grounded'',
       kg_required_permissions = [''nova.use'', ''social.draft'']\<rparr>]"

record command_skill =
  cl_id :: string
  cl_name :: string
  cl_version :: string
  cl_risk_tier :: risk_tier
  cl_knowledge_mode :: "string option"
  cl_required_permissions :: "string list"
  cl_approval_policy :: string
  cl_classification_ceiling :: data_classification
  cl_requires_approval :: bool

definition command_skill_of :: "skill_policy_row \<Rightarrow> command_skill" where
  "command_skill_of row =
     (let meta = find (\<lambda>k. kg_id k = sp_skill_id row) NOVA_SKILL_CATALOG in
      \<lparr>cl_id = sp_skill_id row, cl_name = (case meta of None \<Rightarrow> sp_skill_id row | Some k \<Rightarrow> kg_name k),
       cl_version = (case meta of None \<Rightarrow> ''1.0.0'' | Some k \<Rightarrow> kg_version k), cl_risk_tier = sp_risk_ceiling row,
       cl_knowledge_mode = map_option kg_knowledge_mode meta,
       cl_required_permissions = (case meta of None \<Rightarrow> [] | Some k \<Rightarrow> kg_required_permissions k),
       cl_approval_policy = (if sp_requires_approval row then ''required_for_external_action'' else ''none''),
       cl_classification_ceiling = sp_classification_ceiling row,
       cl_requires_approval = sp_requires_approval row\<rparr>)"

definition listCommandSkills ::
    "'a knowledge_env_scheme \<Rightarrow> id \<Rightarrow> (err, 'w command_world_scheme, command_skill list) op" where
  "listCommandSkills E organizationId = getsE (\<lambda>w.
     map command_skill_of (sort_before (\<lambda>a b. db_collation E (sp_skill_id a) (sp_skill_id b))
       (filter (\<lambda>p. sp_organization_id p = organizationId) (skill_policies w))))"

record shell_user =
  su_id :: id
  su_email :: string
  su_display_name :: string
  su_role :: string
  su_active :: bool

definition listUsersForShell ::
    "'a knowledge_env_scheme \<Rightarrow> id \<Rightarrow> (err, 'w auth_world_scheme, shell_user list) op" where
  "listUsersForShell E organizationId = getsE (\<lambda>w.
     sort_before (\<lambda>a b. db_collation E (su_email a) (su_email b))
       [\<lparr>su_id = us_id u, su_email = us_email u, su_display_name = us_display_name u, su_role = ro_name r,
         su_active = (us_disabled_at u = None)\<rparr>.
        m \<leftarrow> memberships w, mb_organization_id m = organizationId,
        u \<leftarrow> users w, us_id u = mb_user_id m, r \<leftarrow> roles w, ro_id r = mb_role_id m])"

record shell_role =
  sz_id :: id
  sz_name :: string
  sz_permissions :: "string list"

definition listRolesForShell ::
    "'a knowledge_env_scheme \<Rightarrow> id \<Rightarrow> (err, 'w auth_world_scheme, shell_role list) op" where
  "listRolesForShell E organizationId =
     bindE (getsE (\<lambda>w. sort_before (\<lambda>a b. db_collation E (ro_name a) (ro_name b))
       (filter (\<lambda>r. ro_organization_id r = organizationId) (roles w)))) (\<lambda>rows.
     mapE (\<lambda>role. bindE (loadPermissions (ro_id role)) (\<lambda>perms.
       ret \<lparr>sz_id = ro_id role, sz_name = ro_name role, sz_permissions = perms\<rparr>)) rows)"

text \<open>Policies with their bindings; newest version of a name first.\<close>

definition listPoliciesForShell ::
    "'a knowledge_env_scheme \<Rightarrow> id \<Rightarrow> (err, 'w command_world_scheme, (policy_row \<times> (id \<times> string option) list) list) op" where
  "listPoliciesForShell E organizationId = getsE (\<lambda>w.
     map (\<lambda>p. (p, map (\<lambda>b. (pb_id b, pb_skill_id b))
         (filter (\<lambda>b. pb_policy_id b = po_id p \<and> pb_organization_id b = po_organization_id p) (policy_bindings w))))
       (sort_before (\<lambda>a b. if po_name a = po_name b then po_version b \<le> po_version a
           else db_collation E (po_name a) (po_name b))
         (filter (\<lambda>p. po_organization_id p = organizationId) (policies w))))"

text \<open>The rules in the key order of a \<open>jsonb\<close> column: shorter keys first.\<close>

definition summarizePolicyRules :: "policy_rules \<Rightarrow> string list" where
  "summarizePolicyRules rules =
     (let classes = [Public, Internal, Restricted, Confidential] in
      map (\<lambda>c. classification_str c @
          (if leave_device rules c then '' may leave device'' else '' must remain on device'')) classes @
      map (\<lambda>c. classification_str c @
          (if cloud_models rules c then '' may use cloud models'' else '' cannot use cloud models'')) classes)"

subsection \<open>Collections, connectors and approvals\<close>

record shell_collection =
  sh_collection :: collection_row
  sh_can_read :: bool
  sh_can_manage :: bool
  sh_can_approve :: bool
  sh_source_count :: nat

definition listCollectionsForShell ::
    "'a knowledge_env_scheme \<Rightarrow> id \<Rightarrow> id \<Rightarrow> (err, 'w knowledge_world_scheme, shell_collection list) op" where
  "listCollectionsForShell E organizationId roleId = getsE (\<lambda>w.
     sort_before (\<lambda>a b. db_collation E (co_name (sh_collection a)) (co_name (sh_collection b)))
       [\<lparr>sh_collection = c, sh_can_read = cp_can_read p, sh_can_manage = cp_can_manage p,
         sh_can_approve = cp_can_approve p,
         sh_source_count = count_where (\<lambda>s. so_collection_id s = co_id c \<and>
           so_organization_id s = co_organization_id c) (sources w)\<rparr>.
        c \<leftarrow> collections w, co_organization_id c = organizationId,
        p \<leftarrow> collection_permissions w, cp_collection_id p = co_id c \<and>
          cp_organization_id p = co_organization_id c \<and> cp_role_id p = roleId \<and> cp_can_read p])"

record safe_connector =
  sf_id :: id
  sf_name :: string
  sf_type :: string
  sf_enabled :: bool
  sf_capabilities :: "string list"
  sf_requires_approval :: bool
  sf_version :: string
  sf_secret_ref :: "string option"
  sf_page_id :: json

definition safe_connector_of :: "connector_row \<Rightarrow> safe_connector" where
  "safe_connector_of row =
     \<lparr>sf_id = cn_id row, sf_name = cn_connector_key row, sf_type = cn_connector_type row,
      sf_enabled = cn_enabled row, sf_capabilities = cn_capabilities row,
      sf_requires_approval = cn_requires_approval row, sf_version = cn_version row,
      sf_secret_ref = cn_secret_ref row,
      sf_page_id = or_else (js_opt_get ''page_id'' (cn_page_config row)) JNull\<rparr>"

definition listConnectorsSafe ::
    "'a knowledge_env_scheme \<Rightarrow> id \<Rightarrow> (err, 'w command_world_scheme, safe_connector list) op" where
  "listConnectorsSafe E organizationId = getsE (\<lambda>w.
     map safe_connector_of (sort_before (\<lambda>a b. db_collation E (cn_connector_key a) (cn_connector_key b))
       (filter (\<lambda>c. cn_organization_id c = organizationId) (connectors w))))"

record approval_item =
  ai_approval :: approval_row
  ai_risk_tier :: risk_tier
  ai_verity_record_id :: string
  ai_execution_status :: execution_status
  ai_requested_by :: "(string \<times> string) option"
  ai_decided_by :: "(string \<times> string) option"

definition name_of_user :: "id option \<Rightarrow> 'w auth_world_scheme \<Rightarrow> (string \<times> string) option" where
  "name_of_user i w = (case i of None \<Rightarrow> None
     | Some u \<Rightarrow> map_option (\<lambda>r. (us_display_name r, us_email r)) (find (\<lambda>r. us_id r = u) (users w)))"

text \<open>The shell's \<open>rejected\<close> is the column's \<open>denied\<close>.\<close>

definition db_status :: "string option \<Rightarrow> string option" where
  "db_status status = (if status = Some ''rejected'' then Some ''denied'' else status)"

definition listApprovals :: "id \<Rightarrow> string option \<Rightarrow> (err, 'w command_world_scheme, approval_item list) op" where
  "listApprovals organizationId status = getsE (\<lambda>w.
     sort_key (\<lambda>i. - ap_created_at (ai_approval i))
       [\<lparr>ai_approval = a, ai_risk_tier = ex_risk_tier e, ai_verity_record_id = ex_verity_record_id e,
         ai_execution_status = ex_status e, ai_requested_by = name_of_user (Some (ap_requested_by a)) w,
         ai_decided_by = name_of_user (ap_decided_by a) w\<rparr>.
        a \<leftarrow> approvals w, ap_organization_id a = organizationId \<and>
          (case db_status status of None \<Rightarrow> True | Some s \<Rightarrow> approval_str (ap_status a) = s),
        e \<leftarrow> executions w, ex_id e = ap_execution_id a \<and> ex_organization_id e = ap_organization_id a])"

subsection \<open>Detail pages\<close>

record source_counts =
  sq_source :: source_row
  sq_version_count :: nat
  sq_approved_versions :: nat
  sq_indexed_chunks :: nat

text \<open>
  The rows of \<open>sources LEFT JOIN versions LEFT JOIN chunks\<close> for one source: a version without chunks gives
  one row, a version with chunks gives one row for each of them.
\<close>

definition version_rows :: "'w knowledge_world_scheme \<Rightarrow> source_version_row \<Rightarrow> (source_version_row \<times> chunk_row option) list" where
  "version_rows w v =
     (let cs = filter (\<lambda>c. ck_source_version_id c = sv_id v) (chunks w) in
      if cs = [] then [(v, None)] else map (\<lambda>c. (v, Some c)) cs)"

definition source_join :: "'w knowledge_world_scheme \<Rightarrow> source_row \<Rightarrow> (source_version_row \<times> chunk_row option) list" where
  "source_join w s = concat (map (version_rows w) (filter (\<lambda>v. sv_source_id v = so_id s) (source_versions w)))"

definition source_counts_of :: "'w knowledge_world_scheme \<Rightarrow> source_row \<Rightarrow> source_counts" where
  "source_counts_of w s =
     (let rows = source_join w s in
      \<lparr>sq_source = s, sq_version_count = length rows,
       sq_approved_versions = count_where (\<lambda>(v, c). sv_approved_at v \<noteq> None) rows,
       sq_indexed_chunks = count_where (\<lambda>(v, c). c \<noteq> None) rows\<rparr>)"

record collection_detail =
  cd_collection :: collection_row
  cd_can_read :: bool
  cd_can_manage :: bool
  cd_can_approve :: bool
  cd_sources :: "source_counts list"

text \<open>\<open>ORDER BY created_at DESC\<close> of a table whose rows are in the order of their insertion.\<close>

definition collectionDetail :: "auth_context \<Rightarrow> id \<Rightarrow> (err, 'w knowledge_world_scheme, collection_detail) op" where
  "collectionDetail auth collectionId =
     bindE (requireCollectionPermission (ac_organizationId auth) collectionId (ac_roleId auth) CanRead) (\<lambda>_.
     bindE (getsE (\<lambda>w. first_row [(c, p). c \<leftarrow> collections w, co_id c = collectionId \<and>
           co_organization_id c = ac_organizationId auth,
         p \<leftarrow> collection_permissions w, cp_collection_id p = co_id c \<and> cp_role_id p = ac_roleId auth])) (\<lambda>row.
     bindE (expectE row (ApiError 404 ''NOT_FOUND'')) (\<lambda>(c, p).
     bindE (getsE (\<lambda>w. map (source_counts_of w) (rev (filter (\<lambda>s. so_collection_id s = collectionId \<and>
         so_organization_id s = ac_organizationId auth) (sources w))))) (\<lambda>rows.
     ret \<lparr>cd_collection = c, cd_can_read = cp_can_read p, cd_can_manage = cp_can_manage p,
       cd_can_approve = cp_can_approve p, cd_sources = rows\<rparr>))))"

record source_detail =
  sl_source :: source_row
  sl_versions :: "(source_version_row \<times> bool) list"
  sl_collection_id :: id

definition sourceDetail :: "auth_context \<Rightarrow> id \<Rightarrow> (err, 'w knowledge_world_scheme, source_detail) op" where
  "sourceDetail auth sourceId =
     bindE (collectionIdForSource (ac_organizationId auth) sourceId) (\<lambda>collectionId.
     bindE (requireCollectionPermission (ac_organizationId auth) collectionId (ac_roleId auth) CanRead) (\<lambda>_.
     bindE (getsE (\<lambda>w. find (\<lambda>s. so_id s = sourceId \<and> so_organization_id s = ac_organizationId auth) (sources w))) (\<lambda>row.
     bindE (expectE row (ApiError 404 ''NOT_FOUND'')) (\<lambda>source.
     bindE (getsE (\<lambda>w. map (\<lambda>v. (v, \<exists>c\<in>set (chunks w). ck_source_version_id c = sv_id v))
       (sort_key (\<lambda>v. - int (sv_version_number v))
         (filter (\<lambda>v. sv_source_id v = sourceId \<and> sv_organization_id v = ac_organizationId auth)
           (source_versions w))))) (\<lambda>versions.
     ret \<lparr>sl_source = source, sl_versions = versions, sl_collection_id = collectionId\<rparr>)))))"

subsection \<open>Runs of Nova skills\<close>

definition novaRuns :: "id \<Rightarrow> id option \<Rightarrow> (err, 'w audit_world_scheme, execution_row list) op" where
  "novaRuns organizationId actorId =
     bindE (listExecutions organizationId) (\<lambda>rows.
     ret (take 50 (filter (\<lambda>r. \<not> truthy actorId \<or> ex_actor_id r = actorId)
       (filter (\<lambda>r. starts_with (case ex_skill_id r of None \<Rightarrow> '''' | Some s \<Rightarrow> s) ''nova.'') rows))))"

record citation =
  ct_source_id :: id
  ct_source_version_id :: id
  ct_title :: string
  ct_chunk_count :: nat

text \<open>\<open>Array.isArray(m.chunk_ids) ? m.chunk_ids.filter((id) => typeof id === "string") : []\<close>.\<close>

definition cited_chunk_ids :: "event_row list \<Rightarrow> id list" where
  "cited_chunk_ids events =
     (case find (\<lambda>e. ev_event_type e = ''knowledge.retrieval.completed'' \<or>
         ev_event_type e = ''knowledge.retrieval.insufficient'') (rev events) of
        None \<Rightarrow> []
      | Some e \<Rightarrow> (case js_opt_get ''chunk_ids'' (ev_metadata e) of
          JArr vs \<Rightarrow> concat (map (\<lambda>v. case v of JStr s \<Rightarrow> [s] | _ \<Rightarrow> []) vs)
        | _ \<Rightarrow> []))"

definition cited_versions :: "id \<Rightarrow> id list \<Rightarrow> 'w knowledge_world_scheme \<Rightarrow> (source_row \<times> source_version_row) list" where
  "cited_versions org ids w =
     [(s, v). c \<leftarrow> chunks w, ck_organization_id c = org \<and> ck_id c \<in> set ids,
        v \<leftarrow> source_versions w, sv_id v = ck_source_version_id c \<and> sv_organization_id v = ck_organization_id c,
        s \<leftarrow> sources w, so_id s = sv_source_id v \<and> so_organization_id s = sv_organization_id v]"

text \<open>\<open>GROUP BY\<close> the source and the version, in the order of the titles.\<close>

definition citationsFromRetrievalEvents ::
    "'a knowledge_env_scheme \<Rightarrow> id \<Rightarrow> event_row list \<Rightarrow> (err, 'w knowledge_world_scheme, citation list) op" where
  "citationsFromRetrievalEvents E org events =
     (let ids = cited_chunk_ids events in
      if ids = [] then ret []
      else getsE (\<lambda>w. let rows = cited_versions org ids w in
        sort_before (\<lambda>a b. db_collation E (ct_title a) (ct_title b))
          (map (\<lambda>(s, v). \<lparr>ct_source_id = so_id s, ct_source_version_id = sv_id v, ct_title = so_title s,
              ct_chunk_count = count_where (\<lambda>(s', v'). so_id s' = so_id s \<and> sv_id v' = sv_id v) rows\<rparr>)
            (remdups rows))))"

record run_detail =
  rd_execution :: execution_row
  rd_events :: "event_row list"
  rd_record :: "verity_record option"
  rd_social_item :: "content_item_row option"
  rd_approval :: "approval_row option"
  rd_approval_users :: "(string \<times> string) option \<times> (string \<times> string) option"
  rd_citations :: "citation list"

definition latest_approval :: "id \<Rightarrow> id \<Rightarrow> (err, 'w command_world_scheme, approval_row option) op" where
  "latest_approval org exec = getsE (\<lambda>w. first_row (sort_key (\<lambda>a. - ap_created_at a)
     (filter (\<lambda>a. ap_organization_id a = org \<and> ap_execution_id a = exec) (approvals w))))"

definition novaRunDetail ::
    "'a knowledge_env_scheme \<Rightarrow> id \<Rightarrow> id \<Rightarrow> (err, 'w knowledge_world_scheme, run_detail) op" where
  "novaRunDetail E org executionId =
     bindE (getExecution org executionId) (\<lambda>row.
     bindE (expectE row (ApiError 404 ''NOT_FOUND'')) (\<lambda>execution.
     bindE (listExecutionEvents org executionId) (\<lambda>events.
     bindE (if ex_verity_record_id execution \<noteq> ''''
       then bindE (getVerityRecord E org (ex_verity_record_id execution)) (\<lambda>r. ret (Some r))
       else ret None) (\<lambda>record.
     bindE (latest_item org executionId) (\<lambda>item.
     bindE (latest_approval org executionId) (\<lambda>approval.
     bindE (getsE (\<lambda>w. case approval of None \<Rightarrow> (None, None)
       | Some a \<Rightarrow> (name_of_user (Some (ap_requested_by a)) w, name_of_user (ap_decided_by a) w))) (\<lambda>names.
     bindE (citationsFromRetrievalEvents E org events) (\<lambda>citations.
     ret \<lparr>rd_execution = execution, rd_events = events, rd_record = record, rd_social_item = item,
       rd_approval = approval, rd_approval_users = names, rd_citations = citations\<rparr>))))))))"

subsection \<open>What a session does\<close>

record session_action =
  sa_connector_id :: "id option"
  sa_connector_type :: "string option"
  sa_action :: string
  sa_artifact_hash :: string
  sa_payload :: "json option"

definition session_request :: "auth_context \<Rightarrow> id \<Rightarrow> session_action \<Rightarrow> action_request" where
  "session_request auth executionId body =
     \<lparr>rc_organizationId = ac_organizationId auth, rc_executionId = executionId, rc_actorId = ac_userId auth,
      rc_connectorId = sa_connector_id body, rc_connectorType = sa_connector_type body,
      rc_action = sa_action body, rc_artifactHash = sa_artifact_hash body,
      rc_payload = (case sa_payload body of None \<Rightarrow> JObj [] | Some p \<Rightarrow> p), rc_classification = None\<rparr>"

text \<open>The code property of a thrown error (the classes of the program that have one).\<close>

fun error_code :: "err \<Rightarrow> string option" where
  "error_code (TransitionError _ _) = Some ''INVALID_EXECUTION_TRANSITION''"
| "error_code (EventError c) = Some c"
| "error_code (UnresolvedParents _) = Some ''GRAPH_PARENT_UNRESOLVED''"
| "error_code (AuthError c _) = Some c"
| "error_code (KnowledgeError c _) = Some c"
| "error_code (ExecutionError c _) = Some c"
| "error_code (ApiError _ c) = Some c"
| "error_code (ConnectorError c _ _) = Some c"
| "error_code (SqlError c) = Some c"
| "error_code (ConfigError _) = Some ''INVALID_CONFIG''"
| "error_code _ = None"

definition finish_published :: "'a env_scheme \<Rightarrow> auth_context \<Rightarrow> id \<Rightarrow> (err, 'w audit_world_scheme, unit) op" where
  "finish_published E auth executionId =
     bindE (getExecution (ac_organizationId auth) executionId) (\<lambda>execution.
     if (case execution of None \<Rightarrow> False | Some x \<Rightarrow> ex_status x \<notin> {Completed, Failed, Blocked, Cancelled})
     then catchE
       (bindE (finalizeGovernedExecution E
         \<lparr>fz_executionId = executionId, fz_organizationId = Some (ac_organizationId auth),
          fz_outcome = OutcomeCompleted, fz_response = JObj [(''connector_action'', JStr ''succeeded'')],
          fz_injectFailure = False\<rparr>) (\<lambda>_. ret ()))
       (\<lambda>e. if error_code e = Some ''INVALID_EXECUTION_TRANSITION'' then ret () else throw e)
     else ret ())"

definition sessionConnectorAction ::
    "'a net_env_scheme \<Rightarrow> gateway_deps \<Rightarrow> auth_context \<Rightarrow> id \<Rightarrow> session_action \<Rightarrow> (err, 'w social_world_scheme, json) op" where
  "sessionConnectorAction E deps auth executionId body =
     bindE (requestConnectorAction E deps (session_request auth executionId body)) (\<lambda>result.
     bindE (whenE (js_opt_get ''status'' result = JStr ''succeeded'') (finish_published E auth executionId)) (\<lambda>_.
     ret result))"

definition sessionConnectorHealth ::
    "'a net_env_scheme \<Rightarrow> gateway_deps \<Rightarrow> auth_context \<Rightarrow> id \<Rightarrow> (err, 'w net_world_scheme, connector_health) op" where
  "sessionConnectorHealth E deps auth connectorId = healthCheckConnector E deps (ac_organizationId auth) connectorId"

definition item_decided :: "auth_context \<Rightarrow> id \<Rightarrow> string \<Rightarrow> content_item_row \<Rightarrow> bool" where
  "item_decided auth executionId artifactHash i \<longleftrightarrow>
     it_organization_id i = ac_organizationId auth \<and> it_execution_id i = Some executionId \<and>
     it_artifact_hash i = artifactHash \<and> it_status i \<in> {ItemPendingApproval, ItemApproved}"

definition sessionDecideApproval ::
    "'a env_scheme \<Rightarrow> auth_context \<Rightarrow> id \<Rightarrow> id \<Rightarrow> bool \<Rightarrow> string \<Rightarrow> (err, 'w social_world_scheme, approval_result) op" where
  "sessionDecideApproval E auth executionId approvalId ok artifactHash =
     bindE (decideExecutionApproval E
       \<lparr>di_organizationId = ac_organizationId auth, di_executionId = executionId, di_approvalId = approvalId,
        di_actorId = ac_userId auth, di_allow = ok, di_artifactHash = artifactHash\<rparr>) (\<lambda>decision.
     bindE (modifyE (\<lambda>w. w\<lparr>content_items := update_where (item_decided auth executionId artifactHash)
       (\<lambda>i. i\<lparr>it_status := (if ok then ItemApproved else ItemRejected)\<rparr>) (content_items w)\<rparr>)) (\<lambda>_.
     ret decision))"

subsection \<open>Calls of the Nova runtime\<close>

record nova_call =
  nv_path :: string
  nv_method :: string
  nv_body :: "json option"
  nv_requestId :: "string option"

text \<open>\<open>(process.env.NOVA_INTERNAL_URL ?? "").replace(/\/$/, "")\<close> and the token; both must be there.\<close>

definition createNovaInvoker :: "'a net_env_scheme \<Rightarrow> (string \<times> string) option" where
  "createNovaInvoker E =
     (let text = (\<lambda>v. case process_env E v of None \<Rightarrow> '''' | Some s \<Rightarrow> s);
          raw = text ''NOVA_INTERNAL_URL''; secret = text ''NOVA_INTERNAL_TOKEN'';
          url = (if raw \<noteq> [] \<and> last raw = CHR ''/'' then butlast raw else raw) in
      if url = '''' \<or> secret = '''' then None else Some (url, secret))"

definition nova_request :: "string \<Rightarrow> string \<Rightarrow> nova_call \<Rightarrow> http_request" where
  "nova_request url secret c =
     \<lparr>rq_method = nv_method c, rq_url = url @ nv_path c,
      rq_headers = [(''authorization'', ''Bearer '' @ secret), (''content-type'', ''application/json'')] @
        (if truthy (nv_requestId c) then [(''x-request-id'', the (nv_requestId c))] else []),
      rq_body = map_option stringify (nv_body c)\<rparr>"

definition nova_unavailable :: err where
  "nova_unavailable = ApiError 503 ''NOVA_UNAVAILABLE''"

text \<open>The code of a refused call: of \<open>error\<close>, else of \<open>detail\<close>, else the general one.\<close>

definition nova_error_code :: "json \<Rightarrow> err + string" where
  "nova_error_code payload =
     bindS (js_get ''error'' payload) (\<lambda>e.
     bindS (js_get ''detail'' payload) (\<lambda>d.
     Inr (js_string (or_else (js_opt_get ''code'' e) (or_else (js_opt_get ''code'' d) (JStr ''NOVA_UNAVAILABLE''))))))"

definition nova_payload :: "reply_body \<Rightarrow> json" where
  "nova_payload b =
     (case b of EmptyBody \<Rightarrow> JObj []
      | NotJson \<Rightarrow> JObj [(''error'', JObj [(''code'', JStr ''NOVA_UNAVAILABLE'')])]
      | JsonBody v \<Rightarrow> v)"

definition nova_answer :: "reply \<Rightarrow> err + json" where
  "nova_answer r =
     (case r of
        Reply status b \<Rightarrow>
          (let payload = nova_payload b in
           if reply_ok status then Inr payload
           else bindS (nova_error_code payload) (\<lambda>code.
             Inl (ApiError (if status \<ge> 400 then nat status else 502) code)))
      | _ \<Rightarrow> Inl type_error)"

definition invoke_nova ::
    "'a net_env_scheme \<Rightarrow> string \<times> string \<Rightarrow> nova_call \<Rightarrow> (err, 'w net_world_scheme, json) op" where
  "invoke_nova E target c =
     bindE (fetchE E (nova_request (fst target) (snd target) c)) (\<lambda>r. liftE (nova_answer r))"

end
