(* ===== verification/Server.thy ===== *)
theory Server
  imports Shell RateLimit
begin

text \<open>
  \<open>apps/core-api/src/server.ts\<close>: the HTTP interface.  A request is its head (the cookie, the two headers and
  the method the guards read) and a \<open>call\<close>: the route with its parameters and the fields of its body, which
  have the types the handlers declare for them.  Every handler is a definition over the operations of the
  other theories, with its guards in the order of the code; \<open>serve\<close> puts the origin check before and the
  error handler after them.  Serialization of the answers, logging and metrics are left out.
\<close>

subsection \<open>The state of the process\<close>

text \<open>Beside the database, the hits of each limiter are in memory.\<close>

record server_world = knowledge_world +
  limits :: "string \<Rightarrow> hit_map"

record server_env = app_env +
  number_text :: "double \<Rightarrow> json"

definition limitE ::
    "'a net_env_scheme \<Rightarrow> string \<Rightarrow> rate_limiter \<Rightarrow> string \<Rightarrow> (err, 'w server_world_scheme, unit) op" where
  "limitE E name L key =
     bindE (drawE (clock E)) (\<lambda>now w.
       (case enforceLimit (process_env E) L key now (limits w name) of
          (r, h) \<Rightarrow> (r, w\<lparr>limits := (limits w)(name := h)\<rparr>)))"

subsection \<open>Heads and guards\<close>

text \<open>\<open>hd_requestId\<close> is what the first hook sets: the header of the request, or a random UUID.\<close>

record request_head =
  hd_method :: string
  hd_cookie :: "string option"
  hd_authorization :: "string option"
  hd_origin :: "string option"
  hd_requestId :: string
  hd_userAgent :: "string option"
  hd_ip :: string

definition cookieToken :: "request_head \<Rightarrow> string option" where
  "cookieToken h = (if truthy (hd_cookie h) then hd_cookie h else None)"

definition bearerToken :: "request_head \<Rightarrow> string option" where
  "bearerToken h = (case hd_authorization h of None \<Rightarrow> None
     | Some v \<Rightarrow> if starts_with v ''Bearer '' then Some (trim (drop 7 v)) else None)"

definition requireSession :: "'a env_scheme \<Rightarrow> request_head \<Rightarrow> (err, 'w auth_world_scheme, auth_context) op" where
  "requireSession E h = resolveSession E (cookieToken h)"

definition requireService :: "'a env_scheme \<Rightarrow> request_head \<Rightarrow> (err, 'w auth_world_scheme, service_context) op" where
  "requireService E h = resolveServiceToken E (bearerToken h)"

text \<open>A session with a permission: the first two lines of most handlers.\<close>

definition permitted ::
    "'a env_scheme \<Rightarrow> request_head \<Rightarrow> string \<Rightarrow> (err, 'w auth_world_scheme, auth_context) op" where
  "permitted E h permission =
     bindE (requireSession E h) (\<lambda>auth.
     bindE (liftE (requirePermission auth permission)) (\<lambda>_. ret auth))"

definition allowedOrigins :: "config \<Rightarrow> string list" where
  "allowedOrigins cfg = filter (\<lambda>s. s \<noteq> []) (map trim (split_on (CHR '','') (cf_corsOrigin cfg)))"

definition unsafe_method :: "request_head \<Rightarrow> bool" where
  "unsafe_method h \<longleftrightarrow> hd_method h \<in> {''POST'', ''PUT'', ''PATCH'', ''DELETE''}"

definition checkOrigin :: "config \<Rightarrow> request_head \<Rightarrow> err + unit" where
  "checkOrigin cfg h =
     assertS (\<not> unsafe_method h \<or> truthy (bearerToken h) \<or>
         (case hd_origin h of None \<Rightarrow> False | Some origin \<Rightarrow> origin \<in> set (allowedOrigins cfg)))
       (ApiError 403 ''ORIGIN_DENIED'')"

definition invalid_input :: err where
  "invalid_input = ApiError 400 ''INVALID_INPUT''"

definition forbidden :: err where
  "forbidden = ApiError 403 ''FORBIDDEN''"

definition api_not_found :: err where
  "api_not_found = ApiError 404 ''NOT_FOUND''"

definition not_a_member :: err where
  "not_a_member = ApiError 403 ''NOT_A_MEMBER''"

subsection \<open>The error handler\<close>

record error_reply =
  xr_status :: nat
  xr_code :: string

text \<open>\<open>publicMessage\<close>: a known class keeps its status and code; of other errors nothing is shown.\<close>

fun known_error :: "err \<Rightarrow> (nat \<times> string) option" where
  "known_error (AuthError c n) = Some (n, c)"
| "known_error (KnowledgeError c n) = Some (n, c)"
| "known_error (ExecutionError c n) = Some (n, c)"
| "known_error (ApiError n c) = Some (n, c)"
| "known_error _ = None"

definition publicMessage :: "err \<Rightarrow> nat \<times> string" where
  "publicMessage e = (case e of ApiError n c \<Rightarrow> (n, c) | _ \<Rightarrow> (500, ''INTERNAL_ERROR''))"

definition error_reply_of :: "err \<Rightarrow> error_reply" where
  "error_reply_of e =
     (let mapped = (case known_error e of Some m \<Rightarrow> m | None \<Rightarrow> publicMessage e);
          status = (if fst mapped \<ge> 400 then fst mapped else 500) in
      \<lparr>xr_status = status,
       xr_code = (if status \<ge> 500 \<and> known_error e = None then ''INTERNAL_ERROR'' else snd mapped)\<rparr>)"

subsection \<open>Sessions, organizations and users\<close>

text \<open>\<open>config.cookieSecure\<close> and the twelve hours are in the cookie; the token is what matters here.\<close>

definition handle_login ::
    "'a net_env_scheme \<Rightarrow> request_head \<Rightarrow> string option \<Rightarrow> string option \<Rightarrow> id option \<Rightarrow>
     (err, 'w server_world_scheme, string \<times> auth_context) op" where
  "handle_login E h email password org =
     bindE (requireE (truthy email \<and> truthy password) invalid_input) (\<lambda>_.
     let ip = (if hd_ip h = '''' then ''unknown'' else hd_ip h) in
     bindE (limitE E ''login'' login_limiter (''login:'' @ ip)) (\<lambda>_.
     catchE
       (createSession E \<lparr>cs_email = the email, cs_password = the password, cs_organizationId = org,
          cs_ip = Some (hd_ip h), cs_userAgent = hd_userAgent h\<rparr>)
       (\<lambda>e. if (case e of AuthError c _ \<Rightarrow> c = ''INVALID_CREDENTIALS'' | _ \<Rightarrow> False)
            then bindE (limitE E ''loginFail'' loginFail_limiter (''loginfail:'' @ ip @ '':'' @ toLowerCase (the email)))
              (\<lambda>_. throw (ApiError 401 ''INVALID_CREDENTIALS''))
            else throw e)))"

definition handle_logout :: "'a crypto_scheme \<Rightarrow> request_head \<Rightarrow> (err, 'w auth_world_scheme, unit) op" where
  "handle_logout C h = destroySession C (case cookieToken h of None \<Rightarrow> '''' | Some t \<Rightarrow> t)"

definition handle_me :: "'a env_scheme \<Rightarrow> request_head \<Rightarrow> (err, 'w auth_world_scheme, session_profile) op" where
  "handle_me E h = bindE (requireSession E h) sessionProfile"

definition handle_select_organization ::
    "'a env_scheme \<Rightarrow> request_head \<Rightarrow> id option \<Rightarrow> (err, 'w auth_world_scheme, id) op" where
  "handle_select_organization E h org =
     bindE (requireSession E h) (\<lambda>auth.
     bindE (requireE (truthy org) invalid_input) (\<lambda>_.
     bindE (selectOrganization (ac_userId auth) (ac_sessionId auth) (the org)) (\<lambda>_.
     ret (the org))))"

record new_organization =
  no_name :: "string option"
  no_admin_email :: "string option"
  no_admin_password :: "string option"
  no_admin_name :: "string option"

definition handle_new_organization ::
    "'a auth_env_scheme \<Rightarrow> request_head \<Rightarrow> new_organization \<Rightarrow> (err, 'w command_world_scheme, organization_created) op" where
  "handle_new_organization E h b =
     bindE (requireService E h) (\<lambda>service.
     bindE (requireE (\<not> truthy (vc_organizationId service)) forbidden) (\<lambda>_.
     bindE (requireE (''organization.manage'' \<in> set (vc_scopes service)) forbidden) (\<lambda>_.
     bindE (requireE (truthy (no_name b) \<and> truthy (no_admin_email b) \<and> truthy (no_admin_password b)) invalid_input) (\<lambda>_.
     bindE (createOrganization E \<lparr>create_organization_input.co_name = the (no_name b), co_adminEmail = the (no_admin_email b),
       co_adminPassword = the (no_admin_password b), co_adminName = no_admin_name b\<rparr>) (\<lambda>created.
     bindE (seedDefaultCommand E (oc_organizationId created) (oc_adminRoleId created) (oc_memberRoleId created)) (\<lambda>_.
     ret created))))))"

record new_credential =
  nc_name :: "string option"
  nc_organization_id :: "id option"
  nc_scopes :: "string list option"
  nc_secret :: "string option"

definition handle_new_credential ::
    "'a env_scheme \<Rightarrow> request_head \<Rightarrow> new_credential \<Rightarrow> (err, 'w auth_world_scheme, id \<times> string) op" where
  "handle_new_credential E h b =
     bindE (requireService E h) (\<lambda>service.
     bindE (requireE (\<not> (truthy (vc_organizationId service) \<or> ''organization.manage'' \<notin> set (vc_scopes service))) forbidden) (\<lambda>_.
     bindE (requireE (\<not> truthy (nc_secret b)) (ApiError 400 ''SECRET_NOT_ACCEPTED'')) (\<lambda>_.
     bindE (requireE (truthy (nc_name b) \<and> nc_scopes b \<noteq> None) invalid_input) (\<lambda>_.
     bindE (requireE (\<not> (truthy (nc_organization_id b) \<and> PLATFORM_CROSS_ORG_SCOPE \<in> set (the (nc_scopes b))))
       (ApiError 400 ''INVALID_SCOPE'')) (\<lambda>_.
     createServiceCredential E (the (nc_name b)) (nc_organization_id b) (the (nc_scopes b)))))))"

definition handle_users ::
    "'a knowledge_env_scheme \<Rightarrow> request_head \<Rightarrow> (err, 'w auth_world_scheme, shell_user list) op" where
  "handle_users E h = bindE (permitted E h ''users.manage'') (\<lambda>auth. listUsersForShell E (ac_organizationId auth))"

record new_user =
  nu_email :: "string option"
  nu_password :: "string option"
  nu_display_name :: "string option"
  nu_role_id :: "id option"
  nu_organization_id :: "id option"

definition handle_new_user ::
    "'a auth_env_scheme \<Rightarrow> request_head \<Rightarrow> new_user \<Rightarrow> (err, 'w auth_world_scheme, id) op" where
  "handle_new_user E h b =
     bindE (permitted E h ''users.manage'') (\<lambda>auth.
     bindE (liftE (assertOrganizationScope (ac_organizationId auth) (nu_organization_id b))) (\<lambda>_.
     bindE (requireE (truthy (nu_email b) \<and> truthy (nu_password b) \<and> truthy (nu_display_name b) \<and>
       truthy (nu_role_id b)) invalid_input) (\<lambda>_.
     createUser E \<lparr>cu_organizationId = ac_organizationId auth, cu_roleId = the (nu_role_id b),
       cu_email = the (nu_email b), cu_password = the (nu_password b),
       cu_displayName = the (nu_display_name b)\<rparr>)))"

subsection \<open>Policies, approvals and models\<close>

definition handle_roles ::
    "'a knowledge_env_scheme \<Rightarrow> request_head \<Rightarrow> (err, 'w auth_world_scheme, shell_role list) op" where
  "handle_roles E h = bindE (permitted E h ''roles.manage'') (\<lambda>auth. listRolesForShell E (ac_organizationId auth))"

definition handle_policies ::
    "'a knowledge_env_scheme \<Rightarrow> request_head \<Rightarrow> (err, 'w command_world_scheme, (policy_row \<times> (id \<times> string option) list) list) op" where
  "handle_policies E h = bindE (permitted E h ''policies.read'') (\<lambda>auth. listPoliciesForShell E (ac_organizationId auth))"

definition handle_policy :: "'a env_scheme \<Rightarrow> request_head \<Rightarrow> id \<Rightarrow> (err, 'w command_world_scheme, policy_row) op" where
  "handle_policy E h policyId =
     bindE (permitted E h ''policies.read'') (\<lambda>auth.
     bindE (getPolicy (ac_organizationId auth) policyId) (\<lambda>policy. expectE policy api_not_found))"

definition handle_evaluate ::
    "'a env_scheme \<Rightarrow> request_head \<Rightarrow> id option \<Rightarrow> policy_action \<Rightarrow> (err, 'w command_world_scheme, policy_decision) op" where
  "handle_evaluate E h org action =
     bindE (permitted E h ''policies.read'') (\<lambda>auth.
     bindE (liftE (assertOrganizationScope (ac_organizationId auth) org)) (\<lambda>_.
     evaluatePolicy E \<lparr>ei_organizationId = ac_organizationId auth, ei_actorId = ac_userId auth,
       ei_roleId = ac_roleId auth, ei_action = action\<rparr>))"

text \<open>Deciding an approval by its id alone: no artifact hash, no event (\<open>allow\<close> defaults to true).\<close>

definition handle_decide ::
    "'a env_scheme \<Rightarrow> request_head \<Rightarrow> id \<Rightarrow> bool option \<Rightarrow> id option \<Rightarrow> (err, 'w command_world_scheme, policy_decision) op" where
  "handle_decide E h approvalId ok org =
     bindE (permitted E h ''approvals.decide'') (\<lambda>auth.
     bindE (liftE (assertOrganizationScope (ac_organizationId auth) org)) (\<lambda>_.
     bindE (evaluatePolicy E \<lparr>ei_organizationId = ac_organizationId auth, ei_actorId = ac_userId auth,
       ei_roleId = ac_roleId auth, ei_action = ApprovalDecide approvalId\<rparr>) (\<lambda>decision.
     bindE (requireE (pd_decision decision = Allow) (ApiError 403 (pd_reason_code decision))) (\<lambda>_.
     bindE (decideApproval E (ac_organizationId auth) approvalId (ac_userId auth) (ok \<noteq> Some False)) (\<lambda>_.
     ret decision)))))"

definition handle_models :: "'a env_scheme \<Rightarrow> request_head \<Rightarrow> (err, 'w command_world_scheme, model_row list) op" where
  "handle_models E h = bindE (permitted E h ''models.read'') (\<lambda>auth. listModels (ac_organizationId auth))"

record new_model =
  nm_organization_id :: "id option"
  nm_model_key :: string
  nm_provider :: model_provider
  nm_deployment_type :: deployment_type
  nm_endpoint :: "string option"
  nm_capabilities :: "string list"
  nm_allowed_data_classes :: "data_classification list"
  nm_risk_ceiling :: risk_tier
  nm_requires_internet :: "bool option"
  nm_enabled :: "bool option"

definition model_of :: "id \<Rightarrow> new_model \<Rightarrow> model_row" where
  "model_of org b =
     \<lparr>md_id = '''', md_organization_id = org, md_model_key = nm_model_key b, md_provider = nm_provider b,
      md_deployment_type = nm_deployment_type b, md_endpoint = nm_endpoint b, md_capabilities = nm_capabilities b,
      md_allowed_data_classes = nm_allowed_data_classes b, md_risk_ceiling = nm_risk_ceiling b,
      md_requires_internet = (nm_requires_internet b = Some True), md_enabled = (nm_enabled b \<noteq> Some False),
      md_created_at = 0\<rparr>"

definition handle_new_model ::
    "'a env_scheme \<Rightarrow> request_head \<Rightarrow> new_model \<Rightarrow> (err, 'w command_world_scheme, id) op" where
  "handle_new_model E h b =
     bindE (permitted E h ''models.manage'') (\<lambda>auth.
     bindE (liftE (assertOrganizationScope (ac_organizationId auth) (nm_organization_id b))) (\<lambda>_.
     registerModel E None (model_of (ac_organizationId auth) b)))"

text \<open>The result of a routing as the object the execution's response hash covers.\<close>

definition route_object :: "model_route_result \<Rightarrow> (string \<times> json) list" where
  "route_object r =
     [(''model_id'', json_opt (mo_model_id r)), (''provider'', json_opt (map_option provider_str (mo_provider r))),
      (''deployment_type'', json_opt (map_option deployment_str (mo_deployment_type r))),
      (''policy_version'', json_opt (mo_policy_version r)),
      (''selection_reason_code'', JStr (mo_selection_reason_code r))]"

record route_body =
  rb_organization_id :: "id option"
  rb_execution_id :: "id option"
  rb_task :: string
  rb_risk_tier :: risk_tier
  rb_data_classification :: data_classification
  rb_required_capabilities :: "string list option"
  rb_prefer_local :: "bool option"

record actor =
  ar_organizationId :: id
  ar_actorId :: id
  ar_roleId :: id
  ar_sessionId :: "id option"

definition session_actor :: "auth_context \<Rightarrow> actor" where
  "session_actor auth = \<lparr>ar_organizationId = ac_organizationId auth, ar_actorId = ac_userId auth,
     ar_roleId = ac_roleId auth, ar_sessionId = Some (ac_sessionId auth)\<rparr>"

definition standalone_of :: "actor \<Rightarrow> string \<Rightarrow> json \<Rightarrow> id option \<Rightarrow> standalone_input" where
  "standalone_of a skill q executionId =
     \<lparr>sd_organizationId = ar_organizationId a, sd_actorId = ar_actorId a, sd_sessionId = ar_sessionId a,
      sd_skillId = skill, sd_roleId = ar_roleId a, sd_request = q, sd_executionId = executionId\<rparr>"

definition routed :: "actor \<Rightarrow> route_body \<Rightarrow> id \<Rightarrow> route_input" where
  "routed a b executionId =
     \<lparr>ri_organizationId = ar_organizationId a, ri_actorId = ar_actorId a, ri_roleId = ar_roleId a,
      ri_request = \<lparr>mq_execution_id = executionId, mq_task = rb_task b, mq_risk_tier = rb_risk_tier b,
        mq_data_classification = rb_data_classification b,
        mq_required_capabilities = (case rb_required_capabilities b of None \<Rightarrow> [''chat''] | Some c \<Rightarrow> c),
        mq_prefer_local = (rb_prefer_local b = Some True)\<rparr>\<rparr>"

definition routeAndAudit ::
    "'a net_env_scheme \<Rightarrow> actor \<Rightarrow> route_body \<Rightarrow> (err, 'w command_world_scheme, (string \<times> json) list) op" where
  "routeAndAudit E a b =
     withStandaloneExecution E
       (standalone_of a ''models.route''
         (JObj [(''task'', JStr (rb_task b)), (''classification'', JStr (classification_str (rb_data_classification b)))])
         (rb_execution_id b))
       (\<lambda>executionId. bindE (routeModel E (routed a b executionId)) (\<lambda>r. ret (route_object r)))"

definition handle_route ::
    "'a net_env_scheme \<Rightarrow> request_head \<Rightarrow> route_body \<Rightarrow> (err, 'w command_world_scheme, (string \<times> json) list) op" where
  "handle_route E h b =
     bindE (permitted E h ''models.read'') (\<lambda>auth.
     bindE (liftE (assertOrganizationScope (ac_organizationId auth) (rb_organization_id b))) (\<lambda>_.
     routeAndAudit E (session_actor auth) b))"

subsection \<open>Actors named by a service\<close>

text \<open>
  The organization a service acts for (its own one, or the one in the body), and the membership of the
  actor the body names.
\<close>

definition service_organization ::
    "service_context \<Rightarrow> id option \<Rightarrow> err + id option" where
  "service_organization service requested =
     (if truthy (vc_organizationId service)
      then bindS (assertOrganizationScope (the (vc_organizationId service)) requested) (\<lambda>org. Inr (Some org))
      else Inr requested)"

definition service_member ::
    "id \<Rightarrow> id \<Rightarrow> (err, 'w auth_world_scheme, actor) op" where
  "service_member org actorId =
     bindE (role_of_member actorId org) (\<lambda>role.
     bindE (expectE role not_a_member) (\<lambda>roleId.
     ret \<lparr>ar_organizationId = org, ar_actorId = actorId, ar_roleId = roleId, ar_sessionId = None\<rparr>))"

definition handle_service_route ::
    "'a net_env_scheme \<Rightarrow> request_head \<Rightarrow> id option \<Rightarrow> route_body \<Rightarrow> (err, 'w command_world_scheme, (string \<times> json) list) op" where
  "handle_service_route E h actorId b =
     bindE (requireService E h) (\<lambda>service.
     bindE (requireE (''models.read'' \<in> set (vc_scopes service)) forbidden) (\<lambda>_.
     bindE (liftE (service_organization service (rb_organization_id b))) (\<lambda>org.
     bindE (requireE (truthy org \<and> truthy actorId) invalid_input) (\<lambda>_.
     bindE (service_member (the org) (the actorId)) (\<lambda>a.
     routeAndAudit E a b)))))"

subsection \<open>Knowledge\<close>

definition handle_collections ::
    "'a knowledge_env_scheme \<Rightarrow> request_head \<Rightarrow> (err, 'w knowledge_world_scheme, shell_collection list) op" where
  "handle_collections E h = bindE (permitted E h ''knowledge.read'') (\<lambda>auth.
     listCollectionsForShell E (ac_organizationId auth) (ac_roleId auth))"

definition handle_new_collection ::
    "'a knowledge_env_scheme \<Rightarrow> request_head \<Rightarrow> string option \<Rightarrow> data_classification option \<Rightarrow> id option \<Rightarrow>
     (err, 'w knowledge_world_scheme, id) op" where
  "handle_new_collection E h name classification org =
     bindE (permitted E h ''knowledge.manage'') (\<lambda>auth.
     bindE (liftE (assertOrganizationScope (ac_organizationId auth) org)) (\<lambda>_.
     bindE (requireE (truthy name \<and> classification \<noteq> None) invalid_input) (\<lambda>_.
     bindE (listOrganizationRoles (ac_organizationId auth)) (\<lambda>rs.
     bindE (expectE (find (\<lambda>r. snd r = ''admin'') rs) (ApiError 500 ''INTERNAL_ERROR'')) (\<lambda>admin.
     bindE (expectE (find (\<lambda>r. snd r = ''member'') rs) (ApiError 500 ''INTERNAL_ERROR'')) (\<lambda>member.
     createCollection E (ac_organizationId auth) (the name) (the classification) (ac_userId auth)
       (fst admin) (fst member)))))))"

record upload_file =
  uf_filename :: string
  uf_bytes :: "byte list"
  uf_title :: "string option"

definition upload_of :: "auth_context \<Rightarrow> id \<Rightarrow> upload_file \<Rightarrow> upload_input" where
  "upload_of auth collectionId f =
     \<lparr>up_organizationId = ac_organizationId auth, up_collectionId = collectionId, up_actorId = ac_userId auth,
      up_title = (case uf_title f of None \<Rightarrow> uf_filename f | Some t \<Rightarrow> t), up_filename = uf_filename f,
      up_bytes = uf_bytes f, up_sourceId = None\<rparr>"

definition handle_upload ::
    "'a knowledge_env_scheme \<Rightarrow> request_head \<Rightarrow> id \<Rightarrow> upload_file option \<Rightarrow>
     (err, 'w server_world_scheme, uploaded_version) op" where
  "handle_upload E h collectionId file =
     bindE (permitted E h ''knowledge.manage'') (\<lambda>auth.
     bindE (limitE E ''upload'' upload_limiter (''upload:'' @ ac_userId auth)) (\<lambda>_.
     bindE (requireCollectionPermission (ac_organizationId auth) collectionId (ac_roleId auth) CanManage) (\<lambda>_.
     bindE (expectE file invalid_input) (\<lambda>f.
     bindE (uploadSourceVersion E (upload_of auth collectionId f)) (\<lambda>uploaded.
     bindE (recordKernelCheckpoint E
       (standalone_of (session_actor auth) ''knowledge.manage''
         (JObj [(''collection_id'', JStr collectionId), (''filename'', JStr (uf_filename f))]) None)
       ActionCompleted
       (JObj [(''source_id'', JStr (uv_sourceId uploaded)), (''version_id'', JStr (uv_versionId uploaded)),
         (''content_hash'', JStr (uv_contentHash uploaded))])) (\<lambda>_.
     ret uploaded))))))"

text \<open>The version's collection must grant the capability to the session's role.\<close>

definition version_permitted ::
    "'a env_scheme \<Rightarrow> request_head \<Rightarrow> string \<Rightarrow> collection_capability \<Rightarrow> id \<Rightarrow>
     (err, 'w knowledge_world_scheme, auth_context) op" where
  "version_permitted E h permission capability versionId =
     bindE (permitted E h permission) (\<lambda>auth.
     bindE (collectionIdForVersion (ac_organizationId auth) versionId) (\<lambda>collectionId.
     bindE (requireCollectionPermission (ac_organizationId auth) collectionId (ac_roleId auth) capability) (\<lambda>_.
     ret auth)))"

definition handle_approve ::
    "'a knowledge_env_scheme \<Rightarrow> request_head \<Rightarrow> id \<Rightarrow> (err, 'w knowledge_world_scheme, unit) op" where
  "handle_approve E h versionId =
     bindE (version_permitted E h ''knowledge.approve'' CanApprove versionId) (\<lambda>auth.
     approveSourceVersion E (ac_organizationId auth) versionId (ac_userId auth))"

definition handle_index ::
    "'a knowledge_env_scheme \<Rightarrow> request_head \<Rightarrow> id \<Rightarrow> (err, 'w knowledge_world_scheme, nat) op" where
  "handle_index E h versionId =
     bindE (version_permitted E h ''knowledge.manage'' CanManage versionId) (\<lambda>auth.
     bindE (liftE (embeddingProviderFromEnv E)) (\<lambda>provider.
     indexSourceVersion E (ac_organizationId auth) versionId provider))"

definition handle_reindex ::
    "'a knowledge_env_scheme \<Rightarrow> request_head \<Rightarrow> id \<Rightarrow> (err, 'w knowledge_world_scheme, nat) op" where
  "handle_reindex E h versionId =
     bindE (version_permitted E h ''knowledge.manage'' CanManage versionId) (\<lambda>auth.
     bindE (liftE (embeddingProviderFromEnv E)) (\<lambda>provider.
     reindexSourceVersion E (ac_organizationId auth) versionId provider))"

subsection \<open>Retrieval\<close>

record retrieve_body =
  tb_execution_id :: "id option"
  tb_organization_id :: "id option"
  tb_actor_id :: "id option"
  tb_query :: "string option"
  tb_collection_ids :: "id list option"
  tb_mode :: "knowledge_mode option"
  tb_top_k :: "int option"
  tb_classification_ceiling :: "data_classification option"

definition or_default :: "'x \<Rightarrow> 'x option \<Rightarrow> 'x" where
  "or_default d x = (case x of None \<Rightarrow> d | Some v \<Rightarrow> v)"

definition has_query :: "retrieve_body \<Rightarrow> bool" where
  "has_query b \<longleftrightarrow> truthy (tb_query b) \<and> tb_collection_ids b \<noteq> None \<and> tb_collection_ids b \<noteq> Some []"

definition retrieval_in :: "retrieve_body \<Rightarrow> int option \<Rightarrow> id \<Rightarrow> execution_retrieval" where
  "retrieval_in b topK executionId =
     \<lparr>er_executionId = executionId, er_query = the (tb_query b), er_collectionIds = the (tb_collection_ids b),
      er_mode = or_default Strict (tb_mode b), er_topK = topK,
      er_classificationCeiling = or_default Internal (tb_classification_ceiling b)\<rparr>"

text \<open>The answer as the object a standalone execution hashes; numbers print as JavaScript prints them.\<close>

definition json_opt_int :: "int option \<Rightarrow> json" where
  "json_opt_int x = (case x of None \<Rightarrow> JNull | Some i \<Rightarrow> JNum i)"

definition hit_object :: "'a server_env_scheme \<Rightarrow> knowledge_hit \<Rightarrow> json" where
  "hit_object E k =
     JObj [(''chunk_id'', JStr (kh_chunk_id k)), (''source_id'', JStr (kh_source_id k)),
       (''source_version_id'', JStr (kh_source_version_id k)), (''title'', JStr (kh_title k)),
       (''page'', json_opt_int (kh_page k)), (''section'', json_opt (kh_section k)), (''text'', JStr (kh_text k)),
       (''content_hash'', JStr (kh_content_hash k)), (''vector_score'', number_text E (kh_vector_score k)),
       (''keyword_score'', number_text E (kh_keyword_score k)), (''rerank_score'', number_text E (kh_rerank_score k)),
       (''rank'', JNum (int (kh_rank k)))]"

definition retrieve_object :: "'a server_env_scheme \<Rightarrow> retrieve_response \<Rightarrow> (string \<times> json) list" where
  "retrieve_object E r =
     [(''retrieval_run_id'', JStr (rs_retrieval_run_id r)), (''mode'', JStr (mode_str (rs_mode r))),
      (''insufficient_evidence'', JBool (rs_insufficient_evidence r)), (''hits'', JArr (map (hit_object E) (rs_hits r)))]"

text \<open>
  With an execution id the retrieval runs as the actor of that execution, which only has to be of the same
  organization; without one, in an execution of its own.
\<close>

definition handleRetrieve ::
    "'a server_env_scheme \<Rightarrow> actor \<Rightarrow> retrieve_body \<Rightarrow> (err, 'w knowledge_world_scheme, (string \<times> json) list) op" where
  "handleRetrieve E a b =
     bindE (liftE (assertOrganizationScope (ar_organizationId a) (tb_organization_id b))) (\<lambda>_.
     bindE (requireE (\<not> (truthy (tb_actor_id b) \<and> tb_actor_id b \<noteq> Some (ar_actorId a)))
       (ApiError 403 ''ACTOR_MISMATCH'')) (\<lambda>_.
     bindE (requireE (has_query b) invalid_input) (\<lambda>_.
     let payload = retrieval_in b (Some (or_default 8 (tb_top_k b))) in
     if truthy (tb_execution_id b)
     then bindE (getExecution (ar_organizationId a) (the (tb_execution_id b))) (\<lambda>execution.
          bindE (expectE execution api_not_found) (\<lambda>_.
          bindE (retrieveForExecution E (payload (the (tb_execution_id b)))) (\<lambda>r.
          ret (retrieve_object E r))))
     else withStandaloneExecution E
       (standalone_of a ''knowledge.retrieve''
         (JObj [(''query'', JStr (the (tb_query b))), (''mode'', JStr (mode_str (or_default Strict (tb_mode b)))),
           (''collection_ids'', JArr (map JStr (the (tb_collection_ids b))))]) None)
       (\<lambda>executionId. bindE (retrieveForExecution E (payload executionId)) (\<lambda>r. ret (retrieve_object E r))))))"

definition handle_retrieve ::
    "'a server_env_scheme \<Rightarrow> request_head \<Rightarrow> retrieve_body \<Rightarrow> (err, 'w knowledge_world_scheme, (string \<times> json) list) op" where
  "handle_retrieve E h b =
     bindE (permitted E h ''knowledge.read'') (\<lambda>auth. handleRetrieve E (session_actor auth) b)"

definition handle_service_retrieve ::
    "'a server_env_scheme \<Rightarrow> request_head \<Rightarrow> retrieve_body \<Rightarrow> (err, 'w knowledge_world_scheme, (string \<times> json) list) op" where
  "handle_service_retrieve E h b =
     bindE (requireService E h) (\<lambda>service.
     bindE (liftE (service_organization service (tb_organization_id b))) (\<lambda>org.
     bindE (requireE (truthy org \<and> truthy (tb_actor_id b)) invalid_input) (\<lambda>_.
     bindE (requireE (''knowledge.read'' \<in> set (vc_scopes service)) forbidden) (\<lambda>_.
     bindE (service_member (the org) (the (tb_actor_id b))) (\<lambda>a.
     handleRetrieve E a b)))))"

definition handle_run ::
    "'a env_scheme \<Rightarrow> request_head \<Rightarrow> id \<Rightarrow> (err, 'w knowledge_world_scheme, retrieval_run_row) op" where
  "handle_run E h runId =
     bindE (permitted E h ''knowledge.read'') (\<lambda>auth.
     bindE (collectionIdsForRetrievalRun (ac_organizationId auth) runId) (\<lambda>ids.
     bindE (forE (\<lambda>c. bindE (requireCollectionPermission (ac_organizationId auth) c (ac_roleId auth) CanRead) (\<lambda>_. ret ())) ids) (\<lambda>_.
     bindE (getsE (\<lambda>w. find (\<lambda>r. rr_id r = runId \<and> rr_organization_id r = ac_organizationId auth) (retrieval_runs w))) (\<lambda>run.
     expectE run api_not_found))))"

definition handle_source :: "'a env_scheme \<Rightarrow> request_head \<Rightarrow> id \<Rightarrow> (err, 'w knowledge_world_scheme, source_detail) op" where
  "handle_source E h sourceId = bindE (permitted E h ''knowledge.read'') (\<lambda>auth. sourceDetail auth sourceId)"

definition handle_collection :: "'a env_scheme \<Rightarrow> request_head \<Rightarrow> id \<Rightarrow> (err, 'w knowledge_world_scheme, collection_detail) op" where
  "handle_collection E h c = bindE (permitted E h ''knowledge.read'') (\<lambda>auth. collectionDetail auth c)"

subsection \<open>Audit\<close>

definition handle_entries :: "'a env_scheme \<Rightarrow> request_head \<Rightarrow> (err, 'w auth_world_scheme, ledger_entry_row list) op" where
  "handle_entries E h = bindE (permitted E h ''audit.read'') (\<lambda>auth. getLedgerEntries (ac_organizationId auth))"

definition handle_export ::
    "'a net_env_scheme \<Rightarrow> request_head \<Rightarrow> (err, 'w server_world_scheme, evidence_bundle) op" where
  "handle_export E h =
     bindE (permitted E h ''audit.export'') (\<lambda>auth.
     bindE (limitE E ''audit'' audit_limiter (''export:'' @ ac_userId auth)) (\<lambda>_.
     bindE (evaluatePolicy E \<lparr>ei_organizationId = ac_organizationId auth, ei_actorId = ac_userId auth,
       ei_roleId = ac_roleId auth, ei_action = SkillUse ''audit.export'' Restricted High\<rparr>) (\<lambda>policy.
     bindE (requireE (pd_decision policy \<noteq> Deny) (ApiError 403 (pd_reason_code policy))) (\<lambda>_.
     bindE (requireE (pd_decision policy \<noteq> NeedsApproval) (ApiError 403 ''APPROVAL_REQUIRED'')) (\<lambda>_.
     exportOrganizationEvidence E (ac_organizationId auth))))))"

definition handle_records :: "'a env_scheme \<Rightarrow> request_head \<Rightarrow> (err, 'w auth_world_scheme, record_item list) op" where
  "handle_records E h = bindE (permitted E h ''audit.read'') (\<lambda>auth. listVerityRecords (ac_organizationId auth))"

definition handle_record :: "'a env_scheme \<Rightarrow> request_head \<Rightarrow> string \<Rightarrow> (err, 'w auth_world_scheme, verity_record) op" where
  "handle_record E h i = bindE (permitted E h ''audit.read'') (\<lambda>auth. getVerityRecord E (ac_organizationId auth) i)"

definition handle_graph ::
    "'a env_scheme \<Rightarrow> request_head \<Rightarrow> string \<Rightarrow> (err, 'w auth_world_scheme, execution_graph \<times> string) op" where
  "handle_graph E h i = bindE (permitted E h ''audit.read'') (\<lambda>auth. getVerityGraph E (ac_organizationId auth) i)"

definition handle_verify ::
    "'a net_env_scheme \<Rightarrow> request_head \<Rightarrow> string \<Rightarrow> (err, 'w server_world_scheme, record_verification) op" where
  "handle_verify E h i =
     bindE (permitted E h ''audit.read'') (\<lambda>auth.
     bindE (limitE E ''audit'' audit_limiter (''verify:'' @ ac_userId auth)) (\<lambda>_.
     verifyVerityRecord E (ac_organizationId auth) i))"

subsection \<open>Executions of a service\<close>

definition requireScopedExecution ::
    "service_context \<Rightarrow> id \<Rightarrow> (err, 'w audit_world_scheme, execution_row) op" where
  "requireScopedExecution service executionId =
     bindE (requireE (truthy (vc_organizationId service) \<or> PLATFORM_CROSS_ORG_SCOPE \<in> set (vc_scopes service)) forbidden) (\<lambda>_.
     bindE (if truthy (vc_organizationId service)
       then getExecution (the (vc_organizationId service)) executionId
       else getExecutionById executionId) (\<lambda>execution.
     expectE execution api_not_found))"

definition scoped_execution ::
    "'a env_scheme \<Rightarrow> request_head \<Rightarrow> string option \<Rightarrow> id \<Rightarrow> (err, 'w auth_world_scheme, service_context \<times> execution_row) op" where
  "scoped_execution E h needed executionId =
     bindE (requireService E h) (\<lambda>service.
     bindE (requireE (case needed of None \<Rightarrow> True | Some s \<Rightarrow> s \<in> set (vc_scopes service)) forbidden) (\<lambda>_.
     bindE (requireScopedExecution service executionId) (\<lambda>execution.
     ret (service, execution))))"

record open_body =
  ob_organization_id :: "id option"
  ob_actor_id :: "id option"
  ob_skill_id :: "string option"
  ob_risk_tier :: "risk_tier option"
  ob_retention_mode :: "string option"
  ob_request :: "json option"

definition handle_open_execution ::
    "'a env_scheme \<Rightarrow> request_head \<Rightarrow> open_body \<Rightarrow> (err, 'w auth_world_scheme, id \<times> string \<times> execution_status) op" where
  "handle_open_execution E h b =
     bindE (requireService E h) (\<lambda>service.
     bindE (liftE (service_organization service (ob_organization_id b))) (\<lambda>org.
     bindE (requireE (truthy org \<and> truthy (ob_actor_id b) \<and> truthy (ob_skill_id b)) invalid_input) (\<lambda>_.
     bindE (service_member (the org) (the (ob_actor_id b))) (\<lambda>a.
     bindE (openGovernedExecution E
       \<lparr>og_organizationId = the org, og_actorId = the (ob_actor_id b), og_sessionId = None,
        og_skillId = the (ob_skill_id b), og_riskTier = or_default Low (ob_risk_tier b),
        og_retentionMode = Some (or_default ''standard'' (ob_retention_mode b)),
        og_request = or_default (JObj []) (ob_request b), og_roleId = ar_roleId a\<rparr>) (\<lambda>x.
     ret (ex_id x, ex_verity_record_id x, ex_status x))))))"

definition handle_execution_retrieve ::
    "'a knowledge_env_scheme \<Rightarrow> request_head \<Rightarrow> id \<Rightarrow> retrieve_body \<Rightarrow> (err, 'w knowledge_world_scheme, retrieve_response) op" where
  "handle_execution_retrieve E h executionId b =
     bindE (scoped_execution E h None executionId) (\<lambda>(service, execution).
     bindE (requireE (''knowledge.read'' \<in> set (vc_scopes service)) forbidden) (\<lambda>_.
     bindE (requireE (has_query b) invalid_input) (\<lambda>_.
     retrieveForExecution E (retrieval_in b (tb_top_k b) executionId))))"

record model_body =
  mx_task :: "string option"
  mx_risk_tier :: "risk_tier option"
  mx_data_classification :: "data_classification option"
  mx_required_capabilities :: "string list option"
  mx_prefer_local :: "bool option"
  mx_content :: "string option"
  mx_retrieval_run_id :: "id option"
  mx_context_chunk_ids :: "id list option"

definition handle_model_execute ::
    "'a app_env_scheme \<Rightarrow> request_head \<Rightarrow> id \<Rightarrow> model_body \<Rightarrow> (err, 'w knowledge_world_scheme, model_result) op" where
  "handle_model_execute E h executionId b =
     bindE (scoped_execution E h None executionId) (\<lambda>(service, execution).
     bindE (requireE (''models.read'' \<in> set (vc_scopes service)) forbidden) (\<lambda>_.
     bindE (requireE (truthy (mx_task b) \<and> truthy (mx_content b) \<and> mx_risk_tier b \<noteq> None \<and>
       mx_data_classification b \<noteq> None) invalid_input) (\<lambda>_.
     executeModelForExecution E
       \<lparr>ml_executionId = executionId, ml_task = the (mx_task b), ml_riskTier = the (mx_risk_tier b),
        ml_dataClassification = the (mx_data_classification b),
        ml_requiredCapabilities = mx_required_capabilities b, ml_preferLocal = mx_prefer_local b,
        ml_content = the (mx_content b), ml_retrievalRunId = mx_retrieval_run_id b,
        ml_contextChunkIds = mx_context_chunk_ids b\<rparr>)))"

definition handle_finalize ::
    "'a net_env_scheme \<Rightarrow> request_head \<Rightarrow> id \<Rightarrow> outcome option \<Rightarrow> bool option \<Rightarrow> (err, 'w auth_world_scheme, finalize_result) op" where
  "handle_finalize E h executionId oc inject =
     bindE (scoped_execution E h None executionId) (\<lambda>(service, execution).
     finalizeGovernedExecution E
       \<lparr>fz_executionId = executionId, fz_organizationId = Some (ex_organization_id execution),
        fz_outcome = or_default OutcomeCompleted oc, fz_response = JUndef,
        fz_injectFailure = (inject = Some True \<and>
          process_env E ''VERITY_ALLOW_FAILURE_INJECTION'' = Some ''true'')\<rparr>)"

record skill_body =
  kb_skill_id :: "string option"
  kb_skill_version :: "string option"
  kb_brand_id :: "string option"
  kb_config_hash :: "string option"
  kb_result_artifact_hash :: "string option"
  kb_reason_code :: "string option"

text \<open>The three skill routes pass different fields on.\<close>

definition skill_input :: "execution_row \<Rightarrow> skill_phase \<Rightarrow> skill_body \<Rightarrow> skill_event_input" where
  "skill_input execution phase b =
     \<lparr>ki_organizationId = ex_organization_id execution, ki_executionId = ex_id execution, ki_phase = phase,
      ki_skillId = the (kb_skill_id b), ki_skillVersion = the (kb_skill_version b),
      ki_brandId = (if phase = SkillFail then None else kb_brand_id b),
      ki_configHash = (if phase = SkillFail then None else kb_config_hash b),
      ki_resultArtifactHash = (if phase = SkillComplete then kb_result_artifact_hash b else None),
      ki_reasonCode = (if phase = SkillFail then kb_reason_code b else None)\<rparr>"

definition handle_skill ::
    "'a env_scheme \<Rightarrow> request_head \<Rightarrow> id \<Rightarrow> skill_phase \<Rightarrow> skill_body \<Rightarrow> (err, 'w auth_world_scheme, skill_event_result) op" where
  "handle_skill E h executionId phase b =
     bindE (scoped_execution E h (Some EXECUTIONS_WRITE_SCOPE) executionId) (\<lambda>(service, execution).
     bindE (requireE (truthy (kb_skill_id b) \<and> truthy (kb_skill_version b)) invalid_input) (\<lambda>_.
     recordSkillLifecycleEvent E (skill_input execution phase b)))"

definition handle_approval_request ::
    "'a env_scheme \<Rightarrow> request_head \<Rightarrow> id \<Rightarrow> string option \<Rightarrow> id option \<Rightarrow> string option \<Rightarrow>
     (err, 'w command_world_scheme, approval_result) op" where
  "handle_approval_request E h executionId skill requestedBy artifactHash =
     bindE (scoped_execution E h (Some EXECUTIONS_WRITE_SCOPE) executionId) (\<lambda>(service, execution).
     bindE (requireE (truthy skill \<and> truthy requestedBy \<and> truthy artifactHash) invalid_input) (\<lambda>_.
     requestExecutionApproval E
       \<lparr>qi_organizationId = ex_organization_id execution, qi_executionId = ex_id execution,
        qi_skillId = the skill, qi_requestedBy = the requestedBy, qi_artifactHash = the artifactHash\<rparr>))"

definition handle_service_decide ::
    "'a env_scheme \<Rightarrow> request_head \<Rightarrow> id \<Rightarrow> id option \<Rightarrow> id option \<Rightarrow> bool option \<Rightarrow> string option \<Rightarrow>
     (err, 'w command_world_scheme, approval_result) op" where
  "handle_service_decide E h executionId approvalId actorId ok artifactHash =
     bindE (scoped_execution E h (Some EXECUTIONS_WRITE_SCOPE) executionId) (\<lambda>(service, execution).
     bindE (requireE (truthy approvalId \<and> truthy actorId \<and> truthy artifactHash \<and> ok \<noteq> None) invalid_input) (\<lambda>_.
     decideExecutionApproval E
       \<lparr>di_organizationId = ex_organization_id execution, di_executionId = ex_id execution,
        di_approvalId = the approvalId, di_actorId = the actorId, di_allow = the ok,
        di_artifactHash = the artifactHash\<rparr>))"

definition handle_service_record ::
    "'a env_scheme \<Rightarrow> request_head \<Rightarrow> id \<Rightarrow> (err, 'w auth_world_scheme, verity_record) op" where
  "handle_service_record E h executionId =
     bindE (scoped_execution E h None executionId) (\<lambda>(service, execution).
     getVerityRecord E (ex_organization_id execution) (ex_verity_record_id execution))"

record action_body =
  ab_connector_id :: "id option"
  ab_connector_type :: "string option"
  ab_action :: "string option"
  ab_artifact_hash :: "string option"
  ab_actor_id :: "id option"
  ab_payload :: "json option"

definition handle_service_action ::
    "'a net_env_scheme \<Rightarrow> gateway_deps \<Rightarrow> request_head \<Rightarrow> id \<Rightarrow> action_body \<Rightarrow> (err, 'w social_world_scheme, json) op" where
  "handle_service_action E deps h executionId b =
     bindE (scoped_execution E h (Some EXECUTIONS_WRITE_SCOPE) executionId) (\<lambda>(service, execution).
     bindE (requireE (truthy (ab_action b) \<and> truthy (ab_artifact_hash b) \<and> truthy (ab_actor_id b)) invalid_input) (\<lambda>_.
     requestConnectorAction E deps
       \<lparr>rc_organizationId = ex_organization_id execution, rc_executionId = ex_id execution,
        rc_actorId = the (ab_actor_id b), rc_connectorId = ab_connector_id b,
        rc_connectorType = Some (or_default META_TYPE (ab_connector_type b)), rc_action = the (ab_action b),
        rc_artifactHash = the (ab_artifact_hash b), rc_payload = or_default (JObj []) (ab_payload b),
        rc_classification = None\<rparr>))"

definition handle_get_action ::
    "'a env_scheme \<Rightarrow> request_head \<Rightarrow> id \<Rightarrow> id \<Rightarrow> (err, 'w command_world_scheme, json) op" where
  "handle_get_action E h executionId actionId =
     bindE (scoped_execution E h None executionId) (\<lambda>(service, execution).
     getConnectorAction (ex_organization_id execution) (ex_id execution) actionId)"

definition handle_service_health ::
    "'a net_env_scheme \<Rightarrow> gateway_deps \<Rightarrow> request_head \<Rightarrow> id \<Rightarrow> (err, 'w net_world_scheme, connector_health) op" where
  "handle_service_health E deps h connectorId =
     bindE (requireService E h) (\<lambda>service.
     bindE (requireE (EXECUTIONS_WRITE_SCOPE \<in> set (vc_scopes service)) forbidden) (\<lambda>_.
     bindE (requireE (truthy (vc_organizationId service)) forbidden) (\<lambda>_.
     healthCheckConnector E deps (the (vc_organizationId service)) connectorId)))"

subsection \<open>The shell's routes\<close>

definition handle_home ::
    "'a knowledge_env_scheme \<Rightarrow> request_head \<Rightarrow> (err, 'w knowledge_world_scheme, home_summary) op" where
  "handle_home E h = bindE (requireSession E h) (homeSummary E)"

definition handle_skills ::
    "'a knowledge_env_scheme \<Rightarrow> request_head \<Rightarrow> (err, 'w command_world_scheme, command_skill list) op" where
  "handle_skills E h = bindE (permitted E h ''policies.read'') (\<lambda>auth. listCommandSkills E (ac_organizationId auth))"

definition handle_connectors ::
    "'a knowledge_env_scheme \<Rightarrow> request_head \<Rightarrow> (err, 'w command_world_scheme, safe_connector list) op" where
  "handle_connectors E h = bindE (permitted E h ''connectors.manage'') (\<lambda>auth. listConnectorsSafe E (ac_organizationId auth))"

definition handle_health ::
    "'a net_env_scheme \<Rightarrow> gateway_deps \<Rightarrow> request_head \<Rightarrow> id \<Rightarrow> (err, 'w net_world_scheme, connector_health) op" where
  "handle_health E deps h connectorId =
     bindE (permitted E h ''connectors.manage'') (\<lambda>auth. sessionConnectorHealth E deps auth connectorId)"

definition handle_approvals ::
    "'a env_scheme \<Rightarrow> request_head \<Rightarrow> string option \<Rightarrow> (err, 'w command_world_scheme, approval_item list) op" where
  "handle_approvals E h status =
     bindE (permitted E h ''approvals.read'') (\<lambda>auth. listApprovals (ac_organizationId auth) status)"

definition handle_execute_skill ::
    "'a net_env_scheme \<Rightarrow> request_head \<Rightarrow> string \<Rightarrow> (string \<times> json) list \<Rightarrow> (err, 'w server_world_scheme, json) op" where
  "handle_execute_skill E h skillId body =
     bindE (permitted E h ''nova.use'') (\<lambda>auth.
     bindE (limitE E ''nova'' nova_limiter (''nova:'' @ ac_userId auth)) (\<lambda>_.
     bindE (expectE (createNovaInvoker E) nova_unavailable) (\<lambda>target.
     bindE (whenE (skillId = ''nova.social.draft'') (liftE (requirePermission auth ''social.draft''))) (\<lambda>_.
     bindE (evaluatePolicy E \<lparr>ei_organizationId = ac_organizationId auth, ei_actorId = ac_userId auth,
       ei_roleId = ac_roleId auth, ei_action = SkillUse skillId Internal Medium\<rparr>) (\<lambda>policy.
     bindE (requireE (pd_decision policy \<noteq> Deny) (ApiError 403 (pd_reason_code policy))) (\<lambda>_.
     bindE (requireE (''actor_id'' \<notin> fst ` set body \<and> ''organization_id'' \<notin> fst ` set body)
       (ApiError 400 ''UNTRUSTED_ACTOR'')) (\<lambda>_.
     catchE
       (invoke_nova E target
         \<lparr>nv_path = ''/internal/v1/skills/'' @ encodeURIComponent skillId @ ''/execute'', nv_method = ''POST'',
          nv_body = Some (JObj (body @ [(''actor_id'', JStr (ac_userId auth)),
            (''organization_id'', JStr (ac_organizationId auth))])),
          nv_requestId = Some (hd_requestId h)\<rparr>)
       (\<lambda>e. throw (case e of ApiError _ _ \<Rightarrow> e | _ \<Rightarrow> nova_unavailable)))))))))"

definition handle_nova_runs ::
    "'a env_scheme \<Rightarrow> request_head \<Rightarrow> (err, 'w auth_world_scheme, execution_row list) op" where
  "handle_nova_runs E h = bindE (permitted E h ''nova.use'') (\<lambda>auth. novaRuns (ac_organizationId auth) None)"

definition handle_nova_run ::
    "'a knowledge_env_scheme \<Rightarrow> request_head \<Rightarrow> id \<Rightarrow> (err, 'w knowledge_world_scheme, run_detail) op" where
  "handle_nova_run E h executionId =
     bindE (permitted E h ''nova.use'') (\<lambda>auth. novaRunDetail E (ac_organizationId auth) executionId)"

definition handle_run_decision ::
    "'a net_env_scheme \<Rightarrow> request_head \<Rightarrow> id \<Rightarrow> id \<Rightarrow> bool option \<Rightarrow> string option \<Rightarrow>
     (err, 'w server_world_scheme, approval_result) op" where
  "handle_run_decision E h executionId approvalId ok artifactHash =
     bindE (permitted E h ''approvals.decide'') (\<lambda>auth.
     bindE (limitE E ''approval'' approval_limiter (''approval:'' @ ac_userId auth)) (\<lambda>_.
     bindE (requireE (ok \<noteq> None \<and> truthy artifactHash) invalid_input) (\<lambda>_.
     sessionDecideApproval E auth executionId approvalId (the ok) (the artifactHash))))"

definition handle_publish ::
    "'a net_env_scheme \<Rightarrow> request_head \<Rightarrow> id \<Rightarrow> (string \<times> json) list \<Rightarrow> (err, 'w net_world_scheme, json) op" where
  "handle_publish E h executionId body =
     bindE (permitted E h ''nova.use'') (\<lambda>auth.
     bindE (expectE (createNovaInvoker E) nova_unavailable) (\<lambda>target.
     invoke_nova E target
       \<lparr>nv_path = ''/publish'', nv_method = ''POST'',
        nv_body = Some (JObj [(''execution_id'', JStr executionId), (''actor_id'', JStr (ac_userId auth)),
          (''organization_id'', JStr (ac_organizationId auth)),
          (''action'', or_else (js_opt_get ''action'' (JObj body)) (JStr ''publish_post'')),
          (''scheduled_for'', js_opt_get ''scheduled_for'' (JObj body))]),
        nv_requestId = None\<rparr>))"

definition handle_session_action ::
    "'a net_env_scheme \<Rightarrow> gateway_deps \<Rightarrow> request_head \<Rightarrow> id \<Rightarrow> action_body \<Rightarrow> (err, 'w server_world_scheme, json) op" where
  "handle_session_action E deps h executionId b =
     bindE (permitted E h ''nova.use'') (\<lambda>auth.
     bindE (limitE E ''connector'' connector_limiter (''connector:'' @ ac_userId auth)) (\<lambda>_.
     bindE (liftE (requirePermission auth ''social.draft'')) (\<lambda>_.
     bindE (requireE (truthy (ab_action b) \<and> truthy (ab_artifact_hash b)) invalid_input) (\<lambda>_.
     sessionConnectorAction E deps auth executionId
       \<lparr>sa_connector_id = ab_connector_id b, sa_connector_type = ab_connector_type b,
        sa_action = the (ab_action b), sa_artifact_hash = the (ab_artifact_hash b),
        sa_payload = ab_payload b\<rparr>))))"

subsection \<open>The routes\<close>

text \<open>One constructor for each route, with its parameters and the fields of its body.\<close>

datatype call =
    CallLogin "string option" "string option" "id option" | CallLogout | CallMe | CallSelectOrganization "id option"
  | CallNewOrganization new_organization | CallNewCredential new_credential | CallUsers | CallNewUser new_user
  | CallRoles | CallPolicies | CallPolicy id | CallEvaluate "id option" policy_action
  | CallDecide id "bool option" "id option" | CallModels | CallNewModel new_model | CallRoute route_body
  | CallServiceRoute "id option" route_body | CallCollections
  | CallNewCollection "string option" "data_classification option" "id option"
  | CallUploadSource id "upload_file option" | CallApproveVersion id | CallIndexVersion id | CallReindexVersion id
  | CallRetrieveKnowledge retrieve_body | CallServiceRetrieve retrieve_body | CallRetrievalRun id
  | CallSourcePage id | CallCollectionPage id | CallEntries | CallExportEvidence | CallRecords | CallRecord string
  | CallRecordGraph string | CallVerifyRecord string | CallOpenExecution open_body
  | CallExecutionRetrieve id retrieve_body | CallModelExecute id model_body
  | CallFinalize id "outcome option" "bool option" | CallSkillEvent id skill_phase skill_body
  | CallRequestApproval id "string option" "id option" "string option"
  | CallServiceDecide id "id option" "id option" "bool option" "string option" | CallServiceRecord id
  | CallServiceAction id action_body | CallGetAction id id | CallServiceHealth id | CallHome | CallSkills
  | CallConnectors | CallHealth id | CallApprovals "string option"
  | CallExecuteSkill string "(string \<times> json) list" | CallNovaRuns | CallNovaRun id
  | CallRunDecision id id "bool option" "string option" | CallPublish id "(string \<times> json) list"
  | CallSessionAction id action_body

datatype answer =
    AnsLogin "string \<times> auth_context" | AnsUnit unit | AnsProfile session_profile | AnsId id
  | AnsOrganization organization_created | AnsCredential "id \<times> string" | AnsUsers "shell_user list"
  | AnsRoles "shell_role list" | AnsPolicies "(policy_row \<times> (id \<times> string option) list) list"
  | AnsPolicy policy_row | AnsDecision policy_decision | AnsModels "model_row list"
  | AnsObject "(string \<times> json) list" | AnsCollections "shell_collection list" | AnsUpload uploaded_version
  | AnsCount nat | AnsRun retrieval_run_row | AnsSource source_detail | AnsCollection collection_detail
  | AnsEntries "ledger_entry_row list" | AnsBundle evidence_bundle | AnsRecords "record_item list"
  | AnsRecord verity_record | AnsGraph "execution_graph \<times> string" | AnsVerification record_verification
  | AnsOpened "id \<times> string \<times> execution_status" | AnsRetrieved retrieve_response
  | AnsModel model_result | AnsFinalized finalize_result | AnsSkill skill_event_result | AnsApproval approval_result
  | AnsJson json | AnsHealth connector_health | AnsHome home_summary | AnsSkills "command_skill list"
  | AnsConnectors "safe_connector list" | AnsApprovals "approval_item list" | AnsRuns "execution_row list"
  | AnsRunDetail run_detail

definition answered :: "('x \<Rightarrow> answer) \<Rightarrow> (err, 'w, 'x) op \<Rightarrow> (err, 'w, answer) op" where
  "answered f m = bindE m (\<lambda>x. ret (f x))"

primrec handle ::
    "'a server_env_scheme \<Rightarrow> gateway_deps \<Rightarrow> request_head \<Rightarrow> call \<Rightarrow> (err, 'w server_world_scheme, answer) op" where
  "handle E deps h (CallLogin e p g) = answered AnsLogin (handle_login E h e p g)"
| "handle E deps h CallLogout = answered AnsUnit (handle_logout E h)"
| "handle E deps h CallMe = answered AnsProfile (handle_me E h)"
| "handle E deps h (CallSelectOrganization g) = answered AnsId (handle_select_organization E h g)"
| "handle E deps h (CallNewOrganization b) = answered AnsOrganization (handle_new_organization E h b)"
| "handle E deps h (CallNewCredential b) = answered AnsCredential (handle_new_credential E h b)"
| "handle E deps h CallUsers = answered AnsUsers (handle_users E h)"
| "handle E deps h (CallNewUser b) = answered AnsId (handle_new_user E h b)"
| "handle E deps h CallRoles = answered AnsRoles (handle_roles E h)"
| "handle E deps h CallPolicies = answered AnsPolicies (handle_policies E h)"
| "handle E deps h (CallPolicy i) = answered AnsPolicy (handle_policy E h i)"
| "handle E deps h (CallEvaluate g a) = answered AnsDecision (handle_evaluate E h g a)"
| "handle E deps h (CallDecide i k g) = answered AnsDecision (handle_decide E h i k g)"
| "handle E deps h CallModels = answered AnsModels (handle_models E h)"
| "handle E deps h (CallNewModel b) = answered AnsId (handle_new_model E h b)"
| "handle E deps h (CallRoute b) = answered AnsObject (handle_route E h b)"
| "handle E deps h (CallServiceRoute a b) = answered AnsObject (handle_service_route E h a b)"
| "handle E deps h CallCollections = answered AnsCollections (handle_collections E h)"
| "handle E deps h (CallNewCollection n c g) = answered AnsId (handle_new_collection E h n c g)"
| "handle E deps h (CallUploadSource c f) = answered AnsUpload (handle_upload E h c f)"
| "handle E deps h (CallApproveVersion v) = answered AnsUnit (handle_approve E h v)"
| "handle E deps h (CallIndexVersion v) = answered AnsCount (handle_index E h v)"
| "handle E deps h (CallReindexVersion v) = answered AnsCount (handle_reindex E h v)"
| "handle E deps h (CallRetrieveKnowledge b) = answered AnsObject (handle_retrieve E h b)"
| "handle E deps h (CallServiceRetrieve b) = answered AnsObject (handle_service_retrieve E h b)"
| "handle E deps h (CallRetrievalRun i) = answered AnsRun (handle_run E h i)"
| "handle E deps h (CallSourcePage i) = answered AnsSource (handle_source E h i)"
| "handle E deps h (CallCollectionPage i) = answered AnsCollection (handle_collection E h i)"
| "handle E deps h CallEntries = answered AnsEntries (handle_entries E h)"
| "handle E deps h CallExportEvidence = answered AnsBundle (handle_export E h)"
| "handle E deps h CallRecords = answered AnsRecords (handle_records E h)"
| "handle E deps h (CallRecord i) = answered AnsRecord (handle_record E h i)"
| "handle E deps h (CallRecordGraph i) = answered AnsGraph (handle_graph E h i)"
| "handle E deps h (CallVerifyRecord i) = answered AnsVerification (handle_verify E h i)"
| "handle E deps h (CallOpenExecution b) = answered AnsOpened (handle_open_execution E h b)"
| "handle E deps h (CallExecutionRetrieve x b) = answered AnsRetrieved (handle_execution_retrieve E h x b)"
| "handle E deps h (CallModelExecute x b) = answered AnsModel (handle_model_execute E h x b)"
| "handle E deps h (CallFinalize x c j) = answered AnsFinalized (handle_finalize E h x c j)"
| "handle E deps h (CallSkillEvent x p b) = answered AnsSkill (handle_skill E h x p b)"
| "handle E deps h (CallRequestApproval x s u a) = answered AnsApproval (handle_approval_request E h x s u a)"
| "handle E deps h (CallServiceDecide x i u k a) = answered AnsApproval (handle_service_decide E h x i u k a)"
| "handle E deps h (CallServiceRecord x) = answered AnsRecord (handle_service_record E h x)"
| "handle E deps h (CallServiceAction x b) = answered AnsJson (handle_service_action E deps h x b)"
| "handle E deps h (CallGetAction x i) = answered AnsJson (handle_get_action E h x i)"
| "handle E deps h (CallServiceHealth i) = answered AnsHealth (handle_service_health E deps h i)"
| "handle E deps h CallHome = answered AnsHome (handle_home E h)"
| "handle E deps h CallSkills = answered AnsSkills (handle_skills E h)"
| "handle E deps h CallConnectors = answered AnsConnectors (handle_connectors E h)"
| "handle E deps h (CallHealth i) = answered AnsHealth (handle_health E deps h i)"
| "handle E deps h (CallApprovals s) = answered AnsApprovals (handle_approvals E h s)"
| "handle E deps h (CallExecuteSkill s b) = answered AnsJson (handle_execute_skill E h s b)"
| "handle E deps h CallNovaRuns = answered AnsRuns (handle_nova_runs E h)"
| "handle E deps h (CallNovaRun x) = answered AnsRunDetail (handle_nova_run E h x)"
| "handle E deps h (CallRunDecision x i k a) = answered AnsApproval (handle_run_decision E h x i k a)"
| "handle E deps h (CallPublish x b) = answered AnsJson (handle_publish E h x b)"
| "handle E deps h (CallSessionAction x b) = answered AnsJson (handle_session_action E deps h x b)"

text \<open>The guard of each route: nothing, a session (with a permission) or a service credential (with a scope).\<close>

datatype guard = NoGuard | NeedsSession "string option" | NeedsService "string option"

primrec guard_of :: "call \<Rightarrow> guard" where
  "guard_of (CallLogin x0 x1 x2) = NoGuard"
| "guard_of CallLogout = NoGuard"
| "guard_of CallMe = NeedsSession None"
| "guard_of (CallSelectOrganization x0) = NeedsSession None"
| "guard_of (CallNewOrganization x0) = NeedsService (Some ''organization.manage'')"
| "guard_of (CallNewCredential x0) = NeedsService (Some ''organization.manage'')"
| "guard_of CallUsers = NeedsSession (Some ''users.manage'')"
| "guard_of (CallNewUser x0) = NeedsSession (Some ''users.manage'')"
| "guard_of CallRoles = NeedsSession (Some ''roles.manage'')"
| "guard_of CallPolicies = NeedsSession (Some ''policies.read'')"
| "guard_of (CallPolicy x0) = NeedsSession (Some ''policies.read'')"
| "guard_of (CallEvaluate x0 x1) = NeedsSession (Some ''policies.read'')"
| "guard_of (CallDecide x0 x1 x2) = NeedsSession (Some ''approvals.decide'')"
| "guard_of CallModels = NeedsSession (Some ''models.read'')"
| "guard_of (CallNewModel x0) = NeedsSession (Some ''models.manage'')"
| "guard_of (CallRoute x0) = NeedsSession (Some ''models.read'')"
| "guard_of (CallServiceRoute x0 x1) = NeedsService (Some ''models.read'')"
| "guard_of CallCollections = NeedsSession (Some ''knowledge.read'')"
| "guard_of (CallNewCollection x0 x1 x2) = NeedsSession (Some ''knowledge.manage'')"
| "guard_of (CallUploadSource x0 x1) = NeedsSession (Some ''knowledge.manage'')"
| "guard_of (CallApproveVersion x0) = NeedsSession (Some ''knowledge.approve'')"
| "guard_of (CallIndexVersion x0) = NeedsSession (Some ''knowledge.manage'')"
| "guard_of (CallReindexVersion x0) = NeedsSession (Some ''knowledge.manage'')"
| "guard_of (CallRetrieveKnowledge x0) = NeedsSession (Some ''knowledge.read'')"
| "guard_of (CallServiceRetrieve x0) = NeedsService (Some ''knowledge.read'')"
| "guard_of (CallRetrievalRun x0) = NeedsSession (Some ''knowledge.read'')"
| "guard_of (CallSourcePage x0) = NeedsSession (Some ''knowledge.read'')"
| "guard_of (CallCollectionPage x0) = NeedsSession (Some ''knowledge.read'')"
| "guard_of CallEntries = NeedsSession (Some ''audit.read'')"
| "guard_of CallExportEvidence = NeedsSession (Some ''audit.export'')"
| "guard_of CallRecords = NeedsSession (Some ''audit.read'')"
| "guard_of (CallRecord x0) = NeedsSession (Some ''audit.read'')"
| "guard_of (CallRecordGraph x0) = NeedsSession (Some ''audit.read'')"
| "guard_of (CallVerifyRecord x0) = NeedsSession (Some ''audit.read'')"
| "guard_of (CallOpenExecution x0) = NeedsService None"
| "guard_of (CallExecutionRetrieve x0 x1) = NeedsService (Some ''knowledge.read'')"
| "guard_of (CallModelExecute x0 x1) = NeedsService (Some ''models.read'')"
| "guard_of (CallFinalize x0 x1 x2) = NeedsService None"
| "guard_of (CallSkillEvent x0 x1 x2) = NeedsService (Some ''executions.write'')"
| "guard_of (CallRequestApproval x0 x1 x2 x3) = NeedsService (Some ''executions.write'')"
| "guard_of (CallServiceDecide x0 x1 x2 x3 x4) = NeedsService (Some ''executions.write'')"
| "guard_of (CallServiceRecord x0) = NeedsService None"
| "guard_of (CallServiceAction x0 x1) = NeedsService (Some ''executions.write'')"
| "guard_of (CallGetAction x0 x1) = NeedsService None"
| "guard_of (CallServiceHealth x0) = NeedsService (Some ''executions.write'')"
| "guard_of CallHome = NeedsSession None"
| "guard_of CallSkills = NeedsSession (Some ''policies.read'')"
| "guard_of CallConnectors = NeedsSession (Some ''connectors.manage'')"
| "guard_of (CallHealth x0) = NeedsSession (Some ''connectors.manage'')"
| "guard_of (CallApprovals x0) = NeedsSession (Some ''approvals.read'')"
| "guard_of (CallExecuteSkill x0 x1) = NeedsSession (Some ''nova.use'')"
| "guard_of CallNovaRuns = NeedsSession (Some ''nova.use'')"
| "guard_of (CallNovaRun x0) = NeedsSession (Some ''nova.use'')"
| "guard_of (CallRunDecision x0 x1 x2 x3) = NeedsSession (Some ''approvals.decide'')"
| "guard_of (CallPublish x0 x1) = NeedsSession (Some ''nova.use'')"
| "guard_of (CallSessionAction x0 x1) = NeedsSession (Some ''nova.use'')"

datatype response = Answered answer | Refused error_reply

text \<open>The hooks around a handler: the origin check before it, the error handler after it.\<close>

definition serve ::
    "'a server_env_scheme \<Rightarrow> config \<Rightarrow> gateway_deps \<Rightarrow> request_head \<Rightarrow> call \<Rightarrow> 'w server_world_scheme \<Rightarrow>
     response \<times> 'w server_world_scheme" where
  "serve E cfg deps h c w =
     (case bindE (liftE (checkOrigin cfg h)) (\<lambda>_. handle E deps h c) w of
        (Inl e, w') \<Rightarrow> (Refused (error_reply_of e), w')
      | (Inr a, w') \<Rightarrow> (Answered a, w'))"

end
