(* ===== verification/Frames.thy ===== *)
theory Frames
  imports Server
begin

text \<open>
  What each operation leaves alone.  The tables fall into four groups (audit, identity, command,
  knowledge), each with an invariant of its own; \<open>kept a u c k v w\<close> says that the groups selected by the
  four flags are the same in \<open>w\<close> as in \<open>v\<close>.  An operation of one group keeps the other three, and an
  invariant that only reads kept groups survives (\<open>frame_preserves\<close>).
\<close>

subsection \<open>Frames\<close>

definition same_command :: "'w command_world_scheme \<Rightarrow> 'w command_world_scheme \<Rightarrow> bool" where
  "same_command w w' \<longleftrightarrow> policies w' = policies w \<and> policy_bindings w' = policy_bindings w \<and>
     models w' = models w \<and> skill_policies w' = skill_policies w \<and>
     skill_policy_roles w' = skill_policy_roles w \<and> connectors w' = connectors w \<and>
     skill_connectors w' = skill_connectors w \<and> approvals w' = approvals w"

lemma command_inv_same: "same_command w w' \<Longrightarrow> command_inv w' \<longleftrightarrow> command_inv w"
  by (simp add: same_command_def command_inv_def)

definition kept ::
    "bool \<Rightarrow> bool \<Rightarrow> bool \<Rightarrow> bool \<Rightarrow> 'w knowledge_world_scheme \<Rightarrow> 'w knowledge_world_scheme \<Rightarrow> bool" where
  "kept a u c k v w \<longleftrightarrow>
     (a \<longrightarrow> tables_equal v w) \<and> (u \<longrightarrow> same_auth v w) \<and> (c \<longrightarrow> same_command v w) \<and> (k \<longrightarrow> same_knowledge v w)"

abbreviation quiet :: "'w knowledge_world_scheme \<Rightarrow> 'w knowledge_world_scheme \<Rightarrow> bool" where
  "quiet \<equiv> kept True True True True"

abbreviation only_audit :: "'w knowledge_world_scheme \<Rightarrow> 'w knowledge_world_scheme \<Rightarrow> bool" where
  "only_audit \<equiv> kept False True True True"

abbreviation only_auth :: "'w knowledge_world_scheme \<Rightarrow> 'w knowledge_world_scheme \<Rightarrow> bool" where
  "only_auth \<equiv> kept True False True True"

abbreviation only_command :: "'w knowledge_world_scheme \<Rightarrow> 'w knowledge_world_scheme \<Rightarrow> bool" where
  "only_command \<equiv> kept True True False True"

abbreviation only_knowledge :: "'w knowledge_world_scheme \<Rightarrow> 'w knowledge_world_scheme \<Rightarrow> bool" where
  "only_knowledge \<equiv> kept True True True False"

lemmas groups = tables_equal_def same_auth_def same_command_def same_knowledge_def
lemmas restores = restore_audit_def restore_auth_def restore_command_def restore_knowledge_def

lemma kept_refl: "kept a u c k w w"
  by (simp add: kept_def groups)

lemma frame_preserves:
  assumes "\<And>v. preserves (kept a u c k v) m" and "\<And>v w. kept a u c k v w \<Longrightarrow> P v \<Longrightarrow> P w"
  shows "preserves P m"
proof (rule preservesI)
  fix w assume "P w"
  moreover have "kept a u c k w (snd (m w))"
    by (rule preservesD [OF assms(1) surjective_pairing kept_refl])
  ultimately show "P (snd (m w))" using assms(2) by blast
qed

text \<open>An update of a table of a group that need not be kept, or of no group.\<close>

lemma kept_tables [simp]:
  "kept a u c k v (w\<lparr>draws := x1\<rparr>) = kept a u c k v w"
  "kept a u c k v (w\<lparr>sent := x2\<rparr>) = kept a u c k v w"
  "kept a u c k v (w\<lparr>connector_actions := x3\<rparr>) = kept a u c k v w"
  "kept a u c k v (w\<lparr>content_items := x4\<rparr>) = kept a u c k v w"
  "kept a u c k v (w\<lparr>blobs := x5\<rparr>) = kept a u c k v w"
  by (simp_all add: kept_def groups)

lemma kept_auth [simp]:
  "kept a False c k v (w\<lparr>organizations := x1\<rparr>) = kept a False c k v w"
  "kept a False c k v (w\<lparr>users := x2\<rparr>) = kept a False c k v w"
  "kept a False c k v (w\<lparr>roles := x3\<rparr>) = kept a False c k v w"
  "kept a False c k v (w\<lparr>role_permissions := x4\<rparr>) = kept a False c k v w"
  "kept a False c k v (w\<lparr>memberships := x5\<rparr>) = kept a False c k v w"
  "kept a False c k v (w\<lparr>sessions := x6\<rparr>) = kept a False c k v w"
  "kept a False c k v (w\<lparr>service_credentials := x7\<rparr>) = kept a False c k v w"
  by (simp_all add: kept_def groups)

lemma kept_command [simp]:
  "kept a u False k v (w\<lparr>policies := x1\<rparr>) = kept a u False k v w"
  "kept a u False k v (w\<lparr>policy_bindings := x2\<rparr>) = kept a u False k v w"
  "kept a u False k v (w\<lparr>models := x3\<rparr>) = kept a u False k v w"
  "kept a u False k v (w\<lparr>skill_policies := x4\<rparr>) = kept a u False k v w"
  "kept a u False k v (w\<lparr>skill_policy_roles := x5\<rparr>) = kept a u False k v w"
  "kept a u False k v (w\<lparr>connectors := x6\<rparr>) = kept a u False k v w"
  "kept a u False k v (w\<lparr>skill_connectors := x7\<rparr>) = kept a u False k v w"
  "kept a u False k v (w\<lparr>approvals := x8\<rparr>) = kept a u False k v w"
  by (simp_all add: kept_def groups)

lemma kept_knowledge [simp]:
  "kept a u c False v (w\<lparr>collections := x1\<rparr>) = kept a u c False v w"
  "kept a u c False v (w\<lparr>collection_permissions := x2\<rparr>) = kept a u c False v w"
  "kept a u c False v (w\<lparr>sources := x3\<rparr>) = kept a u c False v w"
  "kept a u c False v (w\<lparr>source_versions := x4\<rparr>) = kept a u c False v w"
  "kept a u c False v (w\<lparr>chunks := x5\<rparr>) = kept a u c False v w"
  "kept a u c False v (w\<lparr>retrieval_runs := x6\<rparr>) = kept a u c False v w"
  "kept a u c False v (w\<lparr>retrieval_hits := x7\<rparr>) = kept a u c False v w"
  by (simp_all add: kept_def groups)

lemma kept_audit [simp]:
  "kept False u c k v (w\<lparr>chain_state := x1\<rparr>) = kept False u c k v w"
  "kept False u c k v (w\<lparr>executions := x2\<rparr>) = kept False u c k v w"
  "kept False u c k v (w\<lparr>ledger_entries := x3\<rparr>) = kept False u c k v w"
  "kept False u c k v (w\<lparr>merkle_checkpoints := x4\<rparr>) = kept False u c k v w"
  "kept False u c k v (w\<lparr>execution_events := x5\<rparr>) = kept False u c k v w"
  by (simp_all add: kept_def groups)

lemma kept_limits [simp]: "kept a u c k v (w\<lparr>limits := x\<rparr>) = kept a u c k v w"
  by (simp add: kept_def groups)

text \<open>A rollback puts the tables of the old state back.\<close>

lemma kept_restore:
  assumes "kept a u c k v s" "kept a u c k v t"
  shows "kept a u c k v (restore_auth s t)" "kept a u c k v (restore_command s t)"
    "kept a u c k v (restore_knowledge s t)" "kept a u c k v (restore_audit s t)"
  using assms by (auto simp: kept_def groups restores)

lemma frame_txn [pres]:
  assumes "preserves (kept a u c k v) m"
  shows "preserves (kept a u c k v) (txnE restore_auth m)" "preserves (kept a u c k v) (txnE restore_command m)"
    "preserves (kept a u c k v) (txnE restore_knowledge m)" "preserves (kept a u c k v) (txnE restore_audit m)"
  by (intro preserves_txn_both assms kept_restore; assumption)+

lemma frame_draw [pres]: "preserves (kept a u c k v) (nowE E)" "preserves (kept a u c k v) (drawE f)"
  unfolding nowE_def by (intro pres; simp)+

lemma frame_limitE [pres]: "preserves (kept a u c k v) (limitE E n L key)"
  by (auto simp: limitE_def bindE_def drawE_def split: prod.split intro!: preservesI)

subsection \<open>Operations of identity\<close>

lemma frame_auth_inserts [pres]:
  "preserves (kept a False c k v) (insert_organization o')"
  "preserves (kept a False c k v) (insert_user us)"
  "preserves (kept a False c k v) (insert_role r)"
  "preserves (kept a False c k v) (insert_role_permission p)"
  "preserves (kept a False c k v) (insert_membership m)"
  "preserves (kept a False c k v) (insert_session ss)"
  "preserves (kept a False c k v) (insert_credential cr)"
  unfolding insert_organization_def insert_user_def insert_role_def insert_role_permission_def
    insert_membership_def insert_session_def insert_credential_def
  by (intro pres; simp)+

lemma frame_hashPassword [pres]: "preserves (kept a u c k v) (hashPassword E p)"
  unfolding hashPassword_def by (intro pres) simp

lemma frame_createOrganization [pres]: "preserves (kept a False c k v) (createOrganization E input)"
  unfolding createOrganization_def slugify_def grant_def Let_def by (intro pres; simp)

lemma frame_createUser [pres]: "preserves (kept a False c k v) (createUser E input)"
  unfolding createUser_def by (intro pres; simp)

lemma frame_createSession [pres]: "preserves (kept a False c k v) (createSession E input)"
  unfolding createSession_def issueSession_def Let_def by (intro pres; simp)

lemma frame_destroySession [pres]: "preserves (kept a False c k v) (destroySession C token)"
  unfolding destroySession_def by (intro pres) simp

lemma frame_selectOrganization [pres]: "preserves (kept a False c k v) (selectOrganization i s org)"
  unfolding selectOrganization_def by (intro pres) simp

lemma frame_createServiceCredential [pres]:
  "preserves (kept a False c k v) (createServiceCredential E name org scopes)"
  unfolding createServiceCredential_def generateServiceToken_def by (intro pres; simp)

lemma frame_resolve [pres]:
  "preserves (kept a u c k v) (resolveSession E t)" "preserves (kept a u c k v) (resolveServiceToken C t)"
  unfolding resolveSession_def resolveServiceToken_def by (intro pres; simp)+

subsection \<open>Operations of command and the model router\<close>

lemma frame_command_inserts [pres]:
  "preserves (kept a u False k v) (insert_policy p)"
  "preserves (kept a u False k v) (insert_binding b)"
  "preserves (kept a u False k v) (insert_model m)"
  "preserves (kept a u False k v) (insert_skill_policy s)"
  "preserves (kept a u False k v) (insert_skill_role r)"
  "preserves (kept a u False k v) (insert_connector c')"
  "preserves (kept a u False k v) (insert_skill_connector kc)"
  "preserves (kept a u False k v) (insert_approval ap)"
  unfolding insert_policy_def insert_binding_def insert_model_def insert_skill_policy_def insert_skill_role_def
    insert_connector_def insert_skill_connector_def insert_approval_def
  by (intro pres; simp)+

lemma frame_decision [pres]: "preserves (kept a u c k v) (decision E x)"
  unfolding decision_def by (cases x) (simp, intro pres)

lemma frame_evaluate [pres]:
  "preserves (kept a u c k v) (evaluatePolicy E i)" "preserves (kept a u c k v) (evaluateConnectorAction E i')"
  unfolding evaluatePolicy_def evaluateConnectorAction_def by (intro pres)+

lemma frame_decideApproval [pres]: "preserves (kept a u False k v) (decideApproval E org i d ok)"
  unfolding decideApproval_def Let_def by (intro pres) simp

lemma frame_seed [pres]: "preserves (kept a u False k v) (seedDefaultCommand E org admin member)"
  unfolding seedDefaultCommand_def seed_skill_def by (intro pres; simp)

lemma frame_registerModel [pres]: "preserves (kept a u False k v) (registerModel E i m)"
  unfolding registerModel_def by (intro pres; simp)

subsection \<open>Operations of knowledge\<close>

lemma frame_fetchE [pres]: "preserves (kept a u c k v) (fetchE E q)"
  by (auto simp: preserves_def fetchE_def)

lemma frame_knowledge_inserts [pres]:
  "preserves (kept a u c False v) (insert_collection cl)"
  "preserves (kept a u c False v) (insert_collection_permission cp)"
  "preserves (kept a u c False v) (insert_source so)"
  "preserves (kept a u c False v) (insert_source_version sv)"
  "preserves (kept a u c False v) (insert_chunk ck)"
  "preserves (kept a u c False v) (insert_retrieval_run rr)"
  "preserves (kept a u c False v) (insert_retrieval_hit rh)"
  unfolding insert_collection_def insert_collection_permission_def insert_source_def insert_source_version_def
    insert_chunk_def insert_retrieval_run_def insert_retrieval_hit_def
  by (intro pres; simp)+

lemma frame_drop_chunks [pres]: "preserves (kept a u c False v) (drop_chunks org i)"
  unfolding drop_chunks_def delete_hits_def delete_chunks_def by (intro pres; simp)

lemma frame_createCollection [pres]:
  "preserves (kept a u c False v) (createCollection E org name cl u' r r')"
  unfolding createCollection_def grant_collection_def by (intro pres; simp)

lemma frame_writeBlob [pres]: "preserves (kept a u c k v) (writeBlob E org i bytes)"
  unfolding writeBlob_def Let_def by (intro pres; simp)

lemma frame_upload [pres]: "preserves (kept a u c False v) (uploadSourceVersion E input)"
  unfolding uploadSourceVersion_def insert_version_def find_or_insert_source_def by (intro pres; simp)

lemma frame_approve [pres]: "preserves (kept a u c False v) (approveSourceVersion E org i u')"
  unfolding approveSourceVersion_def by (intro pres) simp

lemma frame_embed [pres]: "preserves (kept a u c k v) (embed E p texts)"
  by (cases p) (simp, intro pres)+

lemma frame_write_chunk [pres]: "preserves (kept a u c False v) (write_chunk E sv p x)"
  unfolding write_chunk_def by (cases x) (simp, intro pres, simp)

lemma frame_writeChunks [pres]: "preserves (kept a u c False v) (writeChunks E sv p)"
  unfolding writeChunks_def Let_def readBlob_def by (intro pres)

lemma frame_reindex [pres]: "preserves (kept a u c False v) (reindexSourceVersion E org i p)"
  unfolding reindexSourceVersion_def loadVersion_def by (intro pres)

lemma frame_index [pres]: "preserves (kept a u c False v) (indexSourceVersion E org i p)"
  unfolding indexSourceVersion_def loadVersion_def by (intro pres) (auto intro!: pres split: list.split)

lemma frame_record_hits [pres]:
  "preserves (kept a u c False v) (record_hits E input runId placed returnedIds n cs)"
  by (induction cs arbitrary: n) (auto intro!: pres simp del: split_paired_All)

lemma frame_retrieve [pres]: "preserves (kept a u c False v) (retrieve E input provider)"
  unfolding retrieve_def persist_ranking_def persistRun_def by (intro pres; simp)

lemma frame_mark [pres]: "preserves (kept a u c False v) (markChunksIncludedInContext org i ids)"
  unfolding markChunksIncludedInContext_def by (intro pres) simp

subsection \<open>Operations of the audit kernel\<close>

text \<open>What leaves the record below the audit tables alone keeps the other groups.\<close>

lemma frame_rest:
  fixes f :: "(err, 'w knowledge_world_scheme, 'x) op"
  assumes "\<And>m. preserves (rest_is m) f"
  shows "preserves (kept False u c k v) f"
proof (rule preservesI)
  fix w :: "'w knowledge_world_scheme" assume "kept False u c k v w"
  moreover have "rest_is (audit_world.more w) (snd (f w))"
    by (rule preservesD [OF assms surjective_pairing]) (simp add: rest_is_def)
  ultimately show "kept False u c k v (snd (f w))"
    by (cases w; cases "snd (f w)") (simp add: kept_def groups rest_is_def)
qed

lemma rest_open [pres]: "preserves (rest_is m) (openExecution E input)"
  unfolding openExecution_def allocateVerityRecordId_def insert_execution_def by (intro pres; simp)

lemma rest_entry [pres]: "preserves (rest_is m) (appendLedgerEntry E db input)"
  unfolding appendLedgerEntry_def by (intro pres preserves_txn_both) (simp_all add: rest_is_def restore_audit_def)

lemma rest_preludes [pres]: "preserves (rest_is m) (record_preludes E org exec parents ps)"
  by (induction ps arbitrary: parents) (auto intro!: pres)

lemma rest_openGoverned [pres]: "preserves (rest_is m) (openGovernedExecution E input)"
  unfolding openGovernedExecution_def getExecution_def by (intro pres)

lemma rest_seal [pres]:
  assumes "\<And>hook. h = Some hook \<Longrightarrow> preserves (rest_is m) hook"
  shows "preserves (rest_is m) (sealExecution E restore_audit input h)"
  unfolding sealExecution_def sealExecutionInTransaction_def getExecution_def listExecutionEvents_def
    loadRequestOpenedHash_def Let_def
  by (intro pres preserves_txn_both assms) (simp_all add: rest_is_def restore_audit_def)

lemma rest_finalize [pres]: "preserves (rest_is m) (finalizeGovernedExecution E input)"
  unfolding finalizeGovernedExecution_def Let_def execution_to_finalize_def requireExecutionById_def
    getExecution_def getExecutionById_def listExecutionEvents_def lastEventId_def
  by (intro pres) (auto intro!: pres split: if_splits)

lemma frame_audit [pres]:
  "preserves (kept False u c k v) (appendExecutionEvent E db ev)"
  "preserves (kept False u c k v) (appendLedgerEntry E db en)"
  "preserves (kept False u c k v) (setExecutionStatus i st org fin cmpl)"
  "preserves (kept False u c k v) (openGovernedExecution E og)"
  "preserves (kept False u c k v) (finalizeGovernedExecution E fz)"
  "preserves (kept False u c k v) (appendExecutionEventInTransaction E ev)"
  "preserves (kept False u c k v) (appendLedgerEntryInTransaction E en)"
  by (intro frame_rest pres)+

subsection \<open>Operations that record in two groups, or in none\<close>

lemma frame_requestApproval [pres]: "preserves (kept False u False k v) (requestExecutionApproval E input)"
  unfolding requestExecutionApproval_def request_approval_body_def requireScopedOpen_def getExecution_def
    lastEventId_def listExecutionEvents_def loadRequestOpenedHash_def
  by (intro pres; simp)

lemma frame_actions [pres]:
  "preserves (kept a u c k v) (insert_action row)" "preserves (kept a u c k v) (update_action org i f)"
  "preserves (kept a u c k v) (update_items sel j g)"
  unfolding insert_action_def update_action_def update_items_def by (intro pres; simp)+

lemma frame_tool_event [pres]: "preserves (kept False u c k v) (appendToolEvent E db input)"
  by (cases db) (simp_all add: lastEventId_def listExecutionEvents_def latest_event_id_def, (intro pres)+)

lemma frame_authorize [pres]:
  "preserves (kept False u c k v) (txnE restore_command (authorize_body E input x policy approval i key h))"
  unfolding authorize_body_def approver_of_def record_action_def by (intro pres)

end
