(* ===== verification/Requests.thy ===== *)
theory Requests
  imports Server
begin

text \<open>
  What the HTTP interface guarantees of every request: a request that is not authorised changes nothing in
  the database and sends nothing, and what goes wrong inside is not shown outside.
\<close>

subsection \<open>Guards\<close>

text \<open>Only the counters of the clock and of the limiters may move.\<close>

definition same_db :: "'w server_world_scheme \<Rightarrow> 'w server_world_scheme \<Rightarrow> bool" where
  "same_db w w' \<longleftrightarrow> (\<exists>n l. w' = w\<lparr>draws := n, limits := l\<rparr>)"

definition session_ok :: "'a env_scheme \<Rightarrow> request_head \<Rightarrow> string option \<Rightarrow> 'w auth_world_scheme \<Rightarrow> bool" where
  "session_ok E h p w \<longleftrightarrow>
     (\<exists>auth u. requireSession E h w = (Inr auth, u) \<and> (\<forall>k. p = Some k \<longrightarrow> k \<in> set (ac_permissions auth)))"

definition service_ok :: "'a env_scheme \<Rightarrow> request_head \<Rightarrow> string option \<Rightarrow> 'w auth_world_scheme \<Rightarrow> bool" where
  "service_ok E h s w \<longleftrightarrow>
     (\<exists>service u. requireService E h w = (Inr service, u) \<and> (\<forall>k. s = Some k \<longrightarrow> k \<in> set (vc_scopes service)))"

primrec guard_ok :: "'a env_scheme \<Rightarrow> request_head \<Rightarrow> guard \<Rightarrow> 'w auth_world_scheme \<Rightarrow> bool" where
  "guard_ok E h NoGuard w = True"
| "guard_ok E h (NeedsSession p) w = session_ok E h p w"
| "guard_ok E h (NeedsService s) w = service_ok E h s w"

definition origin_ok :: "config \<Rightarrow> request_head \<Rightarrow> bool" where
  "origin_ok cfg h \<longleftrightarrow> \<not> unsafe_method h \<or> truthy (bearerToken h) \<or>
     (\<exists>origin. hd_origin h = Some origin \<and> origin \<in> set (allowedOrigins cfg))"

lemma resolveSession_state:
  "resolveSession E t w = (r, w') \<Longrightarrow> \<exists>n. w' = w\<lparr>draws := n\<rparr>"
  by (auto simp: resolveSession_def expectE_def run drawE_def loadPermissions_def split: option.splits if_splits prod.splits)
    (metis world.surjective world.update_convs(1))+

lemma requireService_state: "requireService E h w = (r, w') \<Longrightarrow> w' = w"
  by (auto simp: requireService_def resolveServiceToken_def expectE_def run split: option.splits if_splits)

text \<open>An operation that is stopped by a guard, and the rules that follow a handler to its guard.\<close>

definition stopped :: "'w server_world_scheme \<Rightarrow> (err + 'x) \<times> 'w server_world_scheme \<Rightarrow> bool" where
  "stopped w r \<longleftrightarrow> (\<exists>e w'. r = (Inl e, w') \<and> same_db w w')"

named_theorems stops \<open>introduction rules: a guard stops the operation\<close>

lemma same_db_refl: "same_db w w"
  unfolding same_db_def by (rule exI [of _ "draws w"], rule exI [of _ "limits w"]) simp

lemma same_db_draws: "same_db w (w\<lparr>draws := n\<rparr>)"
  unfolding same_db_def by (rule exI [of _ n], rule exI [of _ "limits w"]) simp

lemma stops_assoc [stops]: "stopped w (bindE m (\<lambda>x. bindE (f x) g) w) \<Longrightarrow> stopped w (bindE (bindE m f) g w)"
  by (simp add: bindE_def split: prod.splits sum.splits)

lemma stops_require [stops]: "(c \<Longrightarrow> stopped w (f () w)) \<Longrightarrow> stopped w (bindE (requireE c e) f w)"
  using same_db_refl by (auto simp: run stopped_def)

lemma stops_lift [stops]: "(\<And>x. stopped w (f x w)) \<Longrightarrow> stopped w (bindE (liftE r) f w)"
  using same_db_refl by (auto simp: run stopped_def split: sum.splits)

lemma stops_expect [stops]: "(\<And>x. stopped w (f x w)) \<Longrightarrow> stopped w (bindE (expectE q e) f w)"
  using same_db_refl by (cases q) (auto simp: run stopped_def)

lemma stops_gets [stops]: "(\<And>x. stopped w (f x w)) \<Longrightarrow> stopped w (bindE (getsE g) f w)"
  by (simp add: run)

lemma stops_ret [stops]: "stopped w (f x w) \<Longrightarrow> stopped w (bindE (ret x) f w)"
  by (simp add: run)

lemma stops_prod [stops]: "(\<And>a b. stopped w (f a b w)) \<Longrightarrow> stopped w ((case p of (a, b) \<Rightarrow> f a b) w)"
  by (cases p) simp

lemma stops_scoped:
  "(\<And>x. stopped w (f x w)) \<Longrightarrow> stopped w (bindE (requireScopedExecution service i) f w)"
  using same_db_refl
  by (auto simp: requireScopedExecution_def getExecution_def getExecutionById_def run expectE_def stopped_def
      split: option.splits)

lemma session_gate:
  assumes "\<not> session_ok E h (Some p) w"
  shows "stopped w (bindE (permitted E h p) f w)"
proof -
  obtain r u where r: "requireSession E h w = (r, u)" by fastforce
  then obtain n where "u = w\<lparr>draws := n\<rparr>" unfolding requireSession_def using resolveSession_state by blast
  with r assms same_db_draws show ?thesis
    by (cases r) (auto simp: permitted_def session_ok_def requirePermission_def run stopped_def assertS_def)
qed

lemma any_session_gate:
  assumes "\<not> session_ok E h None w"
  shows "stopped w (bindE (requireSession E h) f w)"
proof -
  obtain r u where r: "requireSession E h w = (r, u)" by fastforce
  then obtain n where "u = w\<lparr>draws := n\<rparr>" unfolding requireSession_def using resolveSession_state by blast
  with r assms same_db_draws show ?thesis by (cases r) (auto simp: session_ok_def run stopped_def)
qed

lemma service_gate:
  assumes "\<not> service_ok E h s w" "\<And>service k. s = Some k \<Longrightarrow> k \<notin> set (vc_scopes service) \<Longrightarrow> stopped w (f service w)"
  shows "stopped w (bindE (requireService E h) f w)"
proof -
  obtain r u where r: "requireService E h w = (r, u)" by fastforce
  with requireService_state [OF r] assms same_db_refl show ?thesis
    by (cases r) (auto simp: service_ok_def run stopped_def)
qed

lemmas handlers =
  handle_login_def handle_logout_def handle_me_def handle_select_organization_def handle_new_organization_def
  handle_new_credential_def handle_users_def handle_new_user_def handle_roles_def handle_policies_def handle_policy_def
  handle_evaluate_def handle_decide_def handle_models_def handle_new_model_def handle_route_def
  handle_service_route_def handle_collections_def handle_new_collection_def handle_upload_def handle_approve_def
  handle_index_def handle_reindex_def handle_retrieve_def handle_service_retrieve_def handle_run_def
  handle_source_def handle_collection_def handle_entries_def handle_export_def handle_records_def handle_record_def
  handle_graph_def handle_verify_def handle_open_execution_def handle_execution_retrieve_def
  handle_model_execute_def handle_finalize_def handle_skill_def handle_approval_request_def
  handle_service_decide_def handle_service_record_def handle_service_action_def handle_get_action_def
  handle_service_health_def handle_home_def handle_skills_def handle_connectors_def handle_health_def
  handle_approvals_def handle_execute_skill_def handle_nova_runs_def handle_nova_run_def handle_run_decision_def
  handle_publish_def handle_session_action_def

lemma handle_stopped:
  assumes "\<not> guard_ok E h (guard_of c) w"
  shows "stopped w (handle E deps h c w)"
  using assms
  by (cases c; simp only: handle.simps guard_of.simps guard_ok.simps not_True_eq_False answered_def handlers
      scoped_execution_def version_permitted_def)
    (auto intro!: stops session_gate any_session_gate stops_scoped elim!: service_gate simp: EXECUTIONS_WRITE_SCOPE_def)

subsection \<open>Unauthorised requests\<close>

lemma error_status: "400 \<le> xr_status (error_reply_of e)"
  by (simp add: error_reply_of_def Let_def)

text \<open>C11: A request that is not authorised changes nothing.  When an unsafe request without a bearer token comes
  from an origin that is not allowed, or the request lacks what its route needs (a valid session with the
  route's permission, or a valid service credential with the route's scope), the answer is an error and no
  table, no file and no message to a provider has changed; only the clock and the limiters have been used.\<close>

theorem unauthorised_requests_change_nothing:
  assumes "serve E cfg deps h c w = (r, w')" and "\<not> (origin_ok cfg h \<and> guard_ok E h (guard_of c) w)"
  shows "same_db w w' \<and> (\<exists>x. r = Refused x \<and> 400 \<le> xr_status x)"
proof (cases "origin_ok cfg h")
  case False
  then have "checkOrigin cfg h = Inl (ApiError 403 ''ORIGIN_DENIED'')"
    by (auto simp: checkOrigin_def origin_ok_def assertS_def split: option.splits)
  with assms(1) error_status same_db_refl show ?thesis by (auto simp: serve_def run)
next
  case True
  then have "checkOrigin cfg h = Inr ()"
    by (auto simp: checkOrigin_def origin_ok_def assertS_def split: option.splits)
  moreover have "stopped w (handle E deps h c w)" using handle_stopped assms(2) True by blast
  ultimately show ?thesis using assms(1) error_status by (auto simp: serve_def run stopped_def)
qed

definition sample_server_env :: server_env where
  "sample_server_env = app_env.extend (sample_app_env sample_net_env) (server_env.fields (\<lambda>_. JNull))"

definition sample_server_world :: server_world where
  "sample_server_world = knowledge_world.extend empty_knowledge (server_world.fields (\<lambda>_. []))"

text \<open>A request without cookie and token.\<close>

definition anonymous :: request_head where
  "anonymous = \<lparr>hd_method = ''GET'', hd_cookie = None, hd_authorization = None, hd_origin = None,
     hd_requestId = ''r1'', hd_userAgent = None, hd_ip = ''127.0.0.1''\<rparr>"

definition sample_deps :: gateway_deps where
  "sample_deps = \<lparr>gd_registry = [], gd_secrets = (\<lambda>_. None)\<rparr>"

theorem unauthorised_requests_change_nothing_witness:
  "\<exists>x w'. serve sample_server_env sample_config sample_deps anonymous CallExportEvidence sample_server_world = (Refused x, w') \<and>
     400 \<le> xr_status x \<and> same_db sample_server_world w'"
proof -
  obtain r w' where served: "serve sample_server_env sample_config sample_deps anonymous CallExportEvidence sample_server_world = (r, w')"
    by fastforce
  have "\<not> guard_ok sample_server_env anonymous (guard_of CallExportEvidence) sample_server_world"
    by (simp add: session_ok_def requireSession_def resolveSession_def cookieToken_def anonymous_def truthy_def run
        expectE_def)
  with unauthorised_requests_change_nothing [OF served] served show ?thesis by auto
qed

subsection \<open>Retrieval under another execution\<close>

text \<open>A retrieval that names an execution does not depend on who asks.  \<open>POST /v1/knowledge/retrieve\<close> with an
  execution id (and no actor id) checks only that the execution belongs to the caller's organization; the
  retrieval then runs with the role of the execution's actor.  Callers of one organization with different
  identities and roles therefore get the same answer and leave the same database, whatever collections
  their own role may read.\<close>

theorem retrieval_ignores_the_caller:
  assumes "truthy (tb_execution_id b)" and "\<not> truthy (tb_actor_id b)"
  shows "handleRetrieve E \<lparr>ar_organizationId = org, ar_actorId = u, ar_roleId = r, ar_sessionId = s\<rparr> b =
    handleRetrieve E \<lparr>ar_organizationId = org, ar_actorId = u', ar_roleId = r', ar_sessionId = s'\<rparr> b"
  using assms by (simp add: handleRetrieve_def Let_def)

theorem retrieval_ignores_the_caller_witness:
  "\<exists>b. truthy (tb_execution_id b) \<and>
     handleRetrieve sample_server_env \<lparr>ar_organizationId = ''org'', ar_actorId = ''u1'', ar_roleId = ''admin'', ar_sessionId = None\<rparr> b
       sample_server_world =
     handleRetrieve sample_server_env \<lparr>ar_organizationId = ''org'', ar_actorId = ''u2'', ar_roleId = ''guest'', ar_sessionId = None\<rparr> b
       sample_server_world"
proof -
  let ?b = "\<lparr>tb_execution_id = Some ''e1'', tb_organization_id = None, tb_actor_id = None, tb_query = Some ''budget'',
    tb_collection_ids = Some [''c1''], tb_mode = None, tb_top_k = None, tb_classification_ceiling = None\<rparr>"
  have "truthy (tb_execution_id ?b)" "\<not> truthy (tb_actor_id ?b)" by (simp_all add: truthy_def)
  from retrieval_ignores_the_caller [OF this] this(1) show ?thesis by metis
qed

text \<open>What is not one of the four public error classes is answered as an internal error without detail.\<close>

lemma internal_errors_stay_inside:
  assumes "known_error e = None"
  shows "error_reply_of e = \<lparr>xr_status = 500, xr_code = ''INTERNAL_ERROR''\<rparr>"
  using assms by (cases e) (simp_all add: error_reply_of_def publicMessage_def)

end
