(* ===== verification/Invariants.thy ===== *)
theory Invariants
  imports Frames Requests
begin

text \<open>
  What holds of the store whatever is requested.  The locale \<open>store_invariant\<close> is the contract between a
  property of the store and the operations the handlers of \<open>server.ts\<close> are made of: it must not depend on what
  no operation of the four groups of tables changes, and every operation that writes must keep it.  Inside it
  every handler is followed once; the invariants of the four groups are its interpretations.
\<close>

subsection \<open>The contract\<close>

lemmas reads =
  getExecution_def getExecutionById_def getExecutionByRecord_def requireExecutionById_def requireOpenExecution_def
  requireScopedOpen_def listExecutionEvents_def lastEventId_def role_of_member_def member_role_def getModel_def
  listModels_def getConnector_def getConnectorByType_def getApproval_def getPendingApprovalForExecution_def
  loadRetrievalRun_def loadReturnedChunks_def loadAction_def loadActionByKey_def getLedgerEntries_def
  getMerkleCheckpoints_def find_record_def

locale store_invariant =
  fixes P :: "'w server_world_scheme \<Rightarrow> bool" and E :: "'a server_env_scheme"
  assumes quiet: "quiet v w \<Longrightarrow> P v \<Longrightarrow> P w"
    and sessions: "preserves P (createSession E cs)" "preserves P (destroySession E token)"
      "preserves P (selectOrganization u ss org)"
    and accounts: "preserves P (createOrganization E co)" "preserves P (createUser E cu)"
      "preserves P (createServiceCredential E name org' scopes)"
    and commands: "preserves P (seedDefaultCommand E org admin member)" "preserves P (decideApproval E org ap u ok)"
      "preserves P (registerModel E mi md)"
    and records: "preserves P (appendExecutionEvent E Pool ev)" "preserves P (openGovernedExecution E og)"
      "preserves P (finalizeGovernedExecution E fz)" "preserves P (setExecutionStatus x st org' fin cmpl)"
    and transactions: "preserves P (requestExecutionApproval E qi)"
      "preserves P (txnE restore_command (authorize_body E rc gx pd approval act key h))"
    and library: "preserves P (createCollection E org name cl u admin member)" "preserves P (uploadSourceVersion E up)"
      "preserves P (approveSourceVersion E org vs u)" "preserves P (indexSourceVersion E org vs pv)"
      "preserves P (reindexSourceVersion E org vs pv)" "preserves P (retrieve E re pv)"
      "preserves P (markChunksIncludedInContext org run ids)"
begin

lemmas steps = sessions accounts commands records transactions library

lemma silent: "(\<And>v. preserves (quiet v) m) \<Longrightarrow> preserves P m"
  by (rule frame_preserves [where a = True and u = True and c = True and k = True]) (auto intro: quiet)

lemma silent_steps:
  "preserves P (drawE g)" "preserves P (nowE E')" "preserves P (fetchE E'' q)" "preserves P (limitE E'' nm L ky)"
  "preserves P (resolveSession E' t)" "preserves P (resolveServiceToken C t')" "preserves P (evaluatePolicy E' ev')"
  "preserves P (evaluateConnectorAction E' ci)" "preserves P (insert_action row)"
  "preserves P (update_action o' a f)" "preserves P (update_items sel j f')"
  by (rule silent, rule pres)+

lemmas flow = steps silent_steps

text \<open>Executions around an operation.\<close>

lemma standalone:
  "(\<And>i. preserves P (fn i)) \<Longrightarrow> preserves P (withStandaloneExecution E sd fn)"
  unfolding withStandaloneExecution_def reads by (intro pres flow)

lemma checkpoint: "preserves P (recordKernelCheckpoint E sd et response)"
  unfolding recordKernelCheckpoint_def by (intro pres standalone)

text \<open>Routing and retrieval.\<close>

lemma eligible_step: "preserves P (eligible_models E' ri lr ms)"
  by (induction ms) (auto intro!: pres flow)

lemma routing: "preserves P (routeModel E' ri)"
  unfolding routeModel_def Let_def reads by (intro pres flow eligible_step)

lemma authorization: "preserves P (authorize_step E x name ei)"
  unfolding authorize_step_def reads by (intro pres flow)

lemma retrieval: "preserves P (retrieveForExecution E er)"
  unfolding retrieveForExecution_def retrieval_body_def reads Let_def by (intro pres flow authorization)

text \<open>Model calls.\<close>

lemma context_step: "preserves P (knowledge_context E ml x i)"
  unfolding knowledge_context_def context_of_run_def check_evidence_def reads by (intro pres flow)

lemma selection: "preserves P (select_model E ml x i j k)"
  unfolding select_model_def reads by (intro pres flow routing)

lemma provider: "preserves P (complete E' ad cq)"
  by (cases ad) (auto simp: postJson_def intro!: pres flow split: reply.split reply_body.split)

lemma model_run: "preserves P (run_model E x i built md' cfg t)"
  unfolding run_model_def Let_def by (intro pres flow provider)

lemma model_call: "preserves P (executeModelForExecution E ml)"
  unfolding executeModelForExecution_def model_call_body_def call_model_def provider_failed_def reads Let_def
  by (intro pres flow authorization context_step selection model_run)

text \<open>The lifecycle and the gateway.\<close>

lemma skill_event: "preserves P (recordSkillLifecycleEvent E ki)"
  unfolding recordSkillLifecycleEvent_def reads by (intro pres flow)

lemma approval: "preserves P (decideExecutionApproval E di)"
  unfolding decideExecutionApproval_def load_bound_approval_def record_decision_def reads Let_def
  by (intro pres flow)

lemma tool_event: "preserves P (appendToolEvent E Pool te)"
  unfolding appendToolEvent.simps reads by (intro pres flow)

lemma meta_request: "preserves P (meta_call E' q)"
  unfolding meta_call_def by (auto intro!: pres flow split: reply.split reply_body.split err.split)

lemma feed: "preserves P (post_feed E' m ai t hashed params extra)"
  unfolding post_feed_def by (intro pres flow meta_request)

lemma meta_action: "preserves P (meta_execute E' m ai)"
  unfolding meta_execute_def parseScheduleUnix_def Let_def by (intro pres flow feed)

lemma health: "preserves P (healthCheckConnector E' deps org i)"
  unfolding healthCheckConnector_def meta_health_def reads Let_def by (intro pres flow meta_request)

lemma finish: "preserves P (finishAction E fi)"
  unfolding finishAction_def updateSocialItem_def by (intro pres flow tool_event)

lemma outcome: "preserves P (execute_action E deps rc' x pd' act')"
proof -
  have "preserves P (record_failure E rc' x pd' act' e)" for e
    unfolding record_failure_def reload_action_def reads Let_def by (cases e) (auto intro!: pres flow finish)
  moreover have "preserves P (record_success E rc' x pd' act' r)" for r
    unfolding record_success_def reload_action_def reads by (intro pres flow finish)
  ultimately show ?thesis
    unfolding execute_action_def try_execute_def by (auto intro!: pres flow meta_action split: sum.split)
qed

lemma gateway: "preserves P (requestConnectorAction E deps rc')"
  unfolding requestConnectorAction_def check_request_def check_actor_def check_connector_def find_connector_def
    check_artifact_def latest_item_def deny_action_def authorize_action_def call_provider_def claim_item_def reads
  by (intro pres flow tool_event finish outcome)

text \<open>Exports and records.\<close>

lemma export: "preserves P (exportOrganizationEvidence E' org)"
  unfolding exportOrganizationEvidence_def export_execution_events_def canonicalTimestampNow_def reads Let_def
  by (intro pres flow)

lemma record_read: "preserves P (getVerityRecord C org i)" "preserves P (verifyVerityRecord E' org i)"
  unfolding verifyVerityRecord_def getVerityRecord_def reads Let_def by (intro pres flow export)+

lemma nova_call: "preserves P (invoke_nova E' target nv)"
  unfolding invoke_nova_def by (intro pres flow)

lemma published: "preserves P (sessionConnectorAction E deps auth x sa)"
  unfolding sessionConnectorAction_def finish_published_def reads by (intro pres flow gateway)

lemma items_update: "preserves P (modifyE (\<lambda>w. w\<lparr>content_items := f w\<rparr>))"
  by (rule silent) (intro pres, simp)

lemma session_decision: "preserves P (sessionDecideApproval E auth x i ok a)"
  unfolding sessionDecideApproval_def by (intro pres flow approval items_update)

text \<open>Guards.\<close>

lemma guards:
  "preserves P (requireSession E' hd')" "preserves P (requireService E' hd')" "preserves P (permitted E' hd' p)"
  "preserves P (scoped_execution E' hd' n x)" "preserves P (version_permitted E' hd' p cap v)"
  "preserves P (service_member org u)" "preserves P (requireCollectionPermission org cid r cap')"
  unfolding requireSession_def requireService_def permitted_def scoped_execution_def version_permitted_def
    requireScopedExecution_def service_member_def requireCollectionPermission_def getCollectionPermission_def collectionIdForVersion_def reads
  by (intro pres flow)+

lemmas all_steps = flow standalone checkpoint routing retrieval model_call skill_event approval health gateway
  export record_read nova_call published session_decision guards

lemma retrieve_request: "preserves P (handleRetrieve E a b)"
  unfolding handleRetrieve_def Let_def reads by (intro pres all_steps)

lemma pages:
  "preserves P (sessionProfile auth)" "preserves P (homeSummary E' auth)" "preserves P (listCommandSkills E' org)"
  "preserves P (listUsersForShell E' org)" "preserves P (listRolesForShell E' org)"
  "preserves P (listPoliciesForShell E' org)" "preserves P (listCollectionsForShell E' org r)"
  "preserves P (listConnectorsSafe E' org)" "preserves P (listApprovals org st')"
  "preserves P (collectionDetail auth i)" "preserves P (sourceDetail auth i)" "preserves P (novaRuns org lim)"
  "preserves P (novaRunDetail E' org i)" "preserves P (listVerityRecords org)" "preserves P (getVerityGraph C org i')"
  unfolding sessionProfile_def homeSummary_def listReadableCollections_def listCommandSkills_def
    listUsersForShell_def listRolesForShell_def listPoliciesForShell_def listCollectionsForShell_def
    listConnectorsSafe_def listApprovals_def collectionDetail_def sourceDetail_def novaRuns_def novaRunDetail_def
    citationsFromRetrievalEvents_def latest_item_def latest_approval_def collectionIdForSource_def
    listVerityRecords_def getVerityGraph_def listExecutions_def reads Let_def
  by (intro pres all_steps)+

subsection \<open>Handlers\<close>

lemma handled: "preserves P (handle E deps hd' call')"
  by (cases call'; simp only: handle.simps answered_def handlers Let_def routeAndAudit_def getPolicy_def
      listOrganizationRoles_def collectionIdsForRetrievalRun_def getConnectorAction_def sessionConnectorHealth_def reads)
    (intro pres all_steps retrieve_request pages)+

lemma served: "P w \<Longrightarrow> P (snd (serve E cfg deps hd' call' w))"
  using preservesD [OF pres_bind [OF pres_lift handled]]
  by (auto simp: serve_def split: prod.split sum.split)

end

subsection \<open>The invariants of the four groups\<close>

text \<open>Each of them reads the tables of its own group only.\<close>

lemma kept_invariants:
  "kept True u c k v w \<Longrightarrow> audit_inv E v \<Longrightarrow> audit_inv E w" "kept a True c k v w \<Longrightarrow> auth_inv v \<Longrightarrow> auth_inv w"
  "kept a u True k v w \<Longrightarrow> command_inv v \<Longrightarrow> command_inv w" "kept a u c True v w \<Longrightarrow> knowledge_inv v \<Longrightarrow> knowledge_inv w"
  by (auto simp: kept_def audit_inv_tables auth_inv_same command_inv_same knowledge_inv_same)

text \<open>So an operation that keeps the group keeps the invariant.\<close>

lemma audit_frame: "(\<And>v. preserves (kept True False False False v) m) \<Longrightarrow> preserves (audit_inv E) m"
  by (rule frame_preserves [OF _ kept_invariants(1)])

lemma auth_frame: "(\<And>v. preserves (kept False True False False v) m) \<Longrightarrow> preserves auth_inv m"
  by (rule frame_preserves [OF _ kept_invariants(2)])

lemma command_frame: "(\<And>v. preserves (kept False False True False v) m) \<Longrightarrow> preserves command_inv m"
  by (rule frame_preserves [OF _ kept_invariants(3)])

lemma knowledge_frame: "(\<And>v. preserves (kept False False False True v) m) \<Longrightarrow> preserves knowledge_inv m"
  by (rule frame_preserves [OF _ kept_invariants(4)])

lemma audit_status: "preserves (audit_inv E) (setExecutionStatus i st org fin cmpl)"
  by (rule preservesI) (metis audit_inv_setStatus(1) surjective_pairing)

lemma audit_request: "preserves (audit_inv E) (requestExecutionApproval E input)"
proof (rule preservesI)
  fix w :: "'w command_world_scheme" assume inv: "audit_inv E w"
  obtain r w' where run: "requestExecutionApproval E input w = (r, w')" by fastforce
  from requestExecutionApproval_holds [OF run inv] inv have "audit_inv E w'"
    by (cases r) (auto simp: audit_inv_tables)
  with run show "audit_inv E (snd (requestExecutionApproval E input w))" by simp
qed

lemma audit_authorize:
  "preserves (audit_inv E) (txnE restore_command (authorize_body E input x policy approval i key h) ::
     (err, 'w knowledge_world_scheme, unit) op)"
proof (rule preserves_txnE)
  have ev: "commits (audit_inv E) (appendExecutionEventInTransaction E ev)" for ev
    unfolding commits_def using audit_inv_append_event(1) by blast
  then have tool: "commits (audit_inv E) (appendToolEvent E PoolClient t)" for t
    unfolding appendToolEvent.simps latest_event_id_def
    by (intro commits_bind ev preserves_commits [OF pres_gets] preserves_commits [OF pres_ret])
  have row: "preserves (audit_inv E) (insert_action r :: (err, 'w knowledge_world_scheme, unit) op)" for r
    by (rule audit_frame) (rule pres)
  have now: "preserves (audit_inv E) (nowE E :: (err, 'w knowledge_world_scheme, int) op)"
    by (rule audit_frame) (rule pres)
  show "commits (audit_inv E) (authorize_body E input x policy approval i key h :: (err, 'w knowledge_world_scheme, unit) op)"
    unfolding authorize_body_def approver_of_def record_action_def
    by (intro commits_bind tool preserves_commits [OF row] preserves_commits [OF now] preserves_commits [OF pres_gets]
        preserves_commits [OF pres_lift])
  fix s t :: "'w knowledge_world_scheme" assume "audit_inv E s"
  moreover have "tables_equal s (restore_command s t)" by (simp add: tables_equal_def restores)
  ultimately show "audit_inv E (restore_command s t)" using audit_inv_tables by blast
qed

lemma command_register: "preserves command_inv (registerModel E i m)"
  unfolding registerModel_def by (intro pres)

lemma command_request:
  "preserves command_inv (requestExecutionApproval E input :: (err, 'w knowledge_world_scheme, approval_result) op)"
proof -
  have audit: "preserves command_inv (appendExecutionEventInTransaction E ev :: (err, 'w knowledge_world_scheme, event_row) op)"
      "preserves command_inv (appendLedgerEntryInTransaction E en :: (err, 'w knowledge_world_scheme, ledger_entry_row) op)"
    for ev en
    by (rule command_frame, rule pres)+
  show ?thesis
    unfolding requestExecutionApproval_def request_approval_body_def requireScopedOpen_def getExecution_def
      lastEventId_def listExecutionEvents_def loadRequestOpenedHash_def
    by (intro pres audit preserves_txn_both) (simp_all add: restores command_inv_def)
qed

interpretation audit_store: store_invariant "audit_inv E" E for E :: "'a server_env_scheme"
  by unfold_locales
    ((erule (1) kept_invariants | rule audit_event audit_openGoverned audit_finalize audit_status audit_request
      audit_authorize | rule audit_frame, rule pres)+)

interpretation identity_store: store_invariant auth_inv E for E :: "'a server_env_scheme"
  by unfold_locales
    ((erule (1) kept_invariants | rule pres_createSession pres_destroySession pres_selectOrganization
      pres_createOrganization pres_createUser pres_createServiceCredential | rule auth_frame, rule pres)+)

interpretation command_store: store_invariant command_inv E for E :: "'a server_env_scheme"
  by unfold_locales
    ((erule (1) kept_invariants | rule pres_seed pres_decideApproval command_request command_register
      | rule command_frame, rule pres)+)

interpretation knowledge_store: store_invariant knowledge_inv E for E :: "'a server_env_scheme"
  by unfold_locales
    ((erule (1) kept_invariants | rule pres_createCollection pres_upload pres_approve pres_index pres_reindex
      pres_retrieve pres_mark | rule knowledge_frame, rule pres)+)

subsection \<open>Whatever is requested\<close>

definition store_sound :: "'a server_env_scheme \<Rightarrow> 'w server_world_scheme \<Rightarrow> bool" where
  "store_sound E w \<longleftrightarrow> audit_inv E w \<and> auth_inv w \<and> command_inv w \<and> knowledge_inv w"

text \<open>The state after the requests, one after the other, answered or refused.\<close>

primrec serve_all ::
    "'a server_env_scheme \<Rightarrow> config \<Rightarrow> gateway_deps \<Rightarrow> (request_head \<times> call) list \<Rightarrow> 'w server_world_scheme \<Rightarrow>
     'w server_world_scheme" where
  "serve_all E cfg deps [] w = w"
| "serve_all E cfg deps (q # qs) w = serve_all E cfg deps qs (snd (serve E cfg deps (fst q) (snd q) w))"

lemma serve_store_sound: "store_sound E w \<Longrightarrow> store_sound E (snd (serve E cfg deps h c w))"
  by (simp add: store_sound_def audit_store.served identity_store.served command_store.served knowledge_store.served)


definition sample_store :: server_world where
  "sample_store = knowledge_world.extend (knowledge_world.truncate sample_library) (server_world.fields (\<lambda>_. []))"

lemmas sample_store_defs =
  sample_store_def sample_library_def empty_knowledge_def empty_net_def empty_command_def empty_auth_def
  empty_audit_def audit_world.defs auth_world.defs command_world.defs net_world.defs social_world.defs
  knowledge_world.defs server_world.defs

lemma sample_store_sound: "store_sound sample_server_env sample_store"
proof -
  have "knowledge_inv sample_store"
    using sample_library_inv by (simp add: sample_store_def knowledge_inv_def in_org_defs knowledge_world.defs)
  moreover have "auth_inv sample_store" "command_inv sample_store"
    by (simp_all add: auth_inv_def command_inv_def sample_store_defs)
  moreover have "ledger_inv sample_server_env sample_store"
    using ledger_inv_cong [of sample_store empty_audit sample_server_env] ledger_inv_empty [of sample_server_env]
    by (simp add: sample_store_defs)
  then have "audit_inv sample_server_env sample_store"
    by (simp add: audit_inv_def events_inv_def executions_ok_def events_of_def sample_store_defs)
  ultimately show ?thesis by (simp add: store_sound_def)
qed


end
