(* ===== verification/V1.thy ===== *)
theory V1
  imports Merkle
begin

text \<open>
  The first version of the kernel, \<open>packages/audit-kernel/src/v1\<close>, which the repository keeps so that its
  known defects stay pinned: hashes over concatenated fields (\<open>ledger/hash.ts\<close>), an append that reads
  the latest entry and inserts outside a transaction (\<open>ledger/append.ts\<close>), Merkle paths without
  directions (\<open>ledger/merkle.ts\<close>), the verification of a single exported entry (\<open>verify-export.ts\<close>) and
  the first execution graph (\<open>execution-graph/builder.ts\<close>).

  The append is cut at its \<open>await\<close> points into \<open>beginAppend\<close> (up to the read of the latest hash) and
  \<open>finishAppend\<close> (from there on), so that interleavings are sequences of these steps.  The results say
  what still holds (one append after the other gives a chain that verifies entry by entry; the trees are
  those of V2) and what does not (appends that overlap fork the chain, and the entry of the later one is
  reported as invalid).
\<close>

subsection \<open>Hashes\<close>

record chain_input =
  ci_verityAuditId :: string
  ci_requestHash :: string
  ci_responseHash :: string
  ci_executionGraphHash :: string
  ci_modelId :: string
  ci_modelProvider :: string
  ci_riskTier :: string
  ci_kernelVersion :: string
  ci_previousEntryHash :: "string option"
  ci_createdAt :: string

definition chain_text :: "chain_input \<Rightarrow> string" where
  "chain_text i =
     ci_verityAuditId i @ ci_requestHash i @ ci_responseHash i @ ci_executionGraphHash i @ ci_modelId i @
     ci_modelProvider i @ ci_riskTier i @ ci_kernelVersion i @
     (case ci_previousEntryHash i of None \<Rightarrow> '''' | Some p \<Rightarrow> p) @ ci_createdAt i"

definition computeEntryHashV1 :: "'a crypto_scheme \<Rightarrow> chain_input \<Rightarrow> string" where
  "computeEntryHashV1 C i = sha256Hex C (chain_text i)"

subsection \<open>Merkle trees\<close>

definition hashPairV1 :: "'a crypto_scheme \<Rightarrow> string \<Rightarrow> string \<Rightarrow> err + string" where
  "hashPairV1 C left right = bindS (hexToBytesS C (left @ right)) (\<lambda>bs. Inr (bytesToHex C (sha256 C bs)))"

definition buildMerkleTreeV1 :: "'a crypto_scheme \<Rightarrow> string list \<Rightarrow> err + string \<times> string list list" where
  "buildMerkleTreeV1 C leafHashes = merkle_tree (emptyHash C) (hashPairV1 C) leafHashes"

definition computeMerkleRootV1 :: "'a crypto_scheme \<Rightarrow> string list \<Rightarrow> err + string" where
  "computeMerkleRootV1 C leafHashes = bindS (buildMerkleTreeV1 C leafHashes) (\<lambda>(root, layers). Inr root)"

text \<open>The side of a sibling is guessed from the order of the two hex strings.\<close>

primrec climbV1 :: "'a crypto_scheme \<Rightarrow> string \<Rightarrow> string list \<Rightarrow> err + string" where
  "climbV1 C current [] = Inr current"
| "climbV1 C current (sibling # path) =
     bindS (if current < sibling then hashPairV1 C current sibling else hashPairV1 C sibling current)
       (\<lambda>c. climbV1 C c path)"

definition verifyMerklePath :: "'a crypto_scheme \<Rightarrow> string \<Rightarrow> string list \<Rightarrow> string \<Rightarrow> err + bool" where
  "verifyMerklePath C leafHash path expectedRoot = bindS (climbV1 C leafHash path) (\<lambda>r. Inr (r = expectedRoot))"

text \<open>The siblings of a leaf; a missing sibling (an odd last node) leaves no step.\<close>

fun path_siblings :: "string list list \<Rightarrow> int \<Rightarrow> string list" where
  "path_siblings (layer # next # layers) idx =
     (let s = (if idx mod 2 = 0 then idx + 1 else idx - 1) in
      (if 0 \<le> s \<and> s < int (length layer) then [layer ! nat s] else []) @
      path_siblings (next # layers) (idx div 2))"
| "path_siblings _ idx = []"

definition getMerklePath :: "'a crypto_scheme \<Rightarrow> string list \<Rightarrow> int \<Rightarrow> err + string list \<times> string" where
  "getMerklePath C leafHashes leafIndex =
     bindS (buildMerkleTreeV1 C leafHashes) (\<lambda>(root, layers). Inr (path_siblings layers leafIndex, root))"

subsection \<open>The table and the append\<close>

record v1_row =
  v1_id :: id
  v1_verity_audit_id :: string
  v1_request_hash :: string
  v1_response_hash :: string
  v1_execution_graph_hash :: string
  v1_model_id :: string
  v1_model_provider :: string
  v1_risk_tier :: string
  v1_kernel_version :: string
  v1_previous_entry_hash :: "string option"
  v1_entry_hash :: string
  v1_merkle_root :: "string option"
  v1_created_at :: int

record append_input_v1 =
  a1_requestHash :: string
  a1_responseHash :: string
  a1_executionGraphHash :: string
  a1_modelId :: string
  a1_modelProvider :: string
  a1_riskTier :: string
  a1_kernelVersion :: string
  a1_merkleRoot :: "string option"
  a1_merkleSnapshotInterval :: "int option"

record v1_world = world +
  audit_ledger_v1 :: "v1_row list"

text \<open>\<open>ORDER BY created_at DESC\<close>; rows of one millisecond in the order of their insertion.\<close>

definition newest_first :: "v1_row list \<Rightarrow> v1_row list" where
  "newest_first rows = sort_key (\<lambda>r. - v1_created_at r) rows"

text \<open>What a call knows when it comes back from its read.\<close>

record pending_append =
  pa_verityAuditId :: string
  pa_id :: id
  pa_createdAt :: int
  pa_previous :: "string option"

definition beginAppend :: "'a env_scheme \<Rightarrow> (err, 'w v1_world_scheme, pending_append) op" where
  "beginAppend E =
     bindE (drawE (randomUUID E)) (\<lambda>auditId.
     bindE (drawE (randomUUID E)) (\<lambda>i.
     bindE (drawE (clock E)) (\<lambda>now.
     bindE (getsE (\<lambda>w. map_option v1_entry_hash (first_row (newest_first (audit_ledger_v1 w))))) (\<lambda>previous.
     ret \<lparr>pa_verityAuditId = auditId, pa_id = i, pa_createdAt = now, pa_previous = previous\<rparr>))))"

definition chain_input_of :: "append_input_v1 \<Rightarrow> pending_append \<Rightarrow> chain_input" where
  "chain_input_of input p =
     \<lparr>ci_verityAuditId = pa_verityAuditId p, ci_requestHash = a1_requestHash input,
      ci_responseHash = a1_responseHash input, ci_executionGraphHash = a1_executionGraphHash input,
      ci_modelId = a1_modelId input, ci_modelProvider = a1_modelProvider input,
      ci_riskTier = a1_riskTier input, ci_kernelVersion = a1_kernelVersion input,
      ci_previousEntryHash = pa_previous p, ci_createdAt = iso_string (pa_createdAt p)\<rparr>"

definition snapshot_root ::
    "'a crypto_scheme \<Rightarrow> append_input_v1 \<Rightarrow> string \<Rightarrow> (err, 'w v1_world_scheme, string option) op" where
  "snapshot_root C input entryHash =
     (case a1_merkleSnapshotInterval input of
        Some n \<Rightarrow>
          if n > 0
          then bindE (getsE (\<lambda>w. int (length (audit_ledger_v1 w)))) (\<lambda>count.
               if (count + 1) mod n = 0
               then bindE (getsE (\<lambda>w. rev (map v1_entry_hash
                        (take (nat (n - 1)) (newest_first (audit_ledger_v1 w)))))) (\<lambda>hashes.
                    bindE (liftE (computeMerkleRootV1 C (hashes @ [entryHash]))) (\<lambda>root. ret (Some root)))
               else ret (a1_merkleRoot input))
          else ret (a1_merkleRoot input)
      | None \<Rightarrow> ret (a1_merkleRoot input))"

definition row_of :: "append_input_v1 \<Rightarrow> pending_append \<Rightarrow> string \<Rightarrow> string option \<Rightarrow> v1_row" where
  "row_of input p entryHash root =
     \<lparr>v1_id = pa_id p, v1_verity_audit_id = pa_verityAuditId p, v1_request_hash = a1_requestHash input,
      v1_response_hash = a1_responseHash input, v1_execution_graph_hash = a1_executionGraphHash input,
      v1_model_id = a1_modelId input, v1_model_provider = a1_modelProvider input,
      v1_risk_tier = a1_riskTier input, v1_kernel_version = a1_kernelVersion input,
      v1_previous_entry_hash = pa_previous p, v1_entry_hash = entryHash, v1_merkle_root = root,
      v1_created_at = pa_createdAt p\<rparr>"

definition finishAppend ::
    "'a env_scheme \<Rightarrow> append_input_v1 \<Rightarrow> pending_append \<Rightarrow> (err, 'w v1_world_scheme, string \<times> string \<times> int) op" where
  "finishAppend E input p =
     (let entryHash = computeEntryHashV1 E (chain_input_of input p) in
      bindE (snapshot_root E input entryHash) (\<lambda>root.
      bindE (modifyE (\<lambda>w. w\<lparr>audit_ledger_v1 := audit_ledger_v1 w @ [row_of input p entryHash root]\<rparr>)) (\<lambda>_.
      ret (pa_verityAuditId p, entryHash, pa_createdAt p))))"

definition appendLedgerEntryV1 ::
    "'a env_scheme \<Rightarrow> append_input_v1 \<Rightarrow> (err, 'w v1_world_scheme, string \<times> string \<times> int) op" where
  "appendLedgerEntryV1 E input = bindE (beginAppend E) (finishAppend E input)"

definition getLedgerRows :: "nat \<Rightarrow> (err, 'w v1_world_scheme, v1_row list) op" where
  "getLedgerRows limit = getsE (\<lambda>w. take limit (sort_key v1_created_at (audit_ledger_v1 w)))"

subsection \<open>Verifying an exported entry\<close>

record ledger_row_export =
  x1_verity_audit_id :: string
  x1_request_hash :: string
  x1_response_hash :: string
  x1_execution_graph_hash :: string
  x1_model_id :: string
  x1_model_provider :: string
  x1_risk_tier :: string
  x1_kernel_version :: string
  x1_previous_entry_hash :: "string option"
  x1_entry_hash :: string
  x1_merkle_root :: "string option"
  x1_created_at :: string

text \<open>A row as JSON shows it: the time stamp as its ISO text.\<close>

definition exported_row :: "v1_row \<Rightarrow> ledger_row_export" where
  "exported_row r =
     \<lparr>x1_verity_audit_id = v1_verity_audit_id r, x1_request_hash = v1_request_hash r,
      x1_response_hash = v1_response_hash r, x1_execution_graph_hash = v1_execution_graph_hash r,
      x1_model_id = v1_model_id r, x1_model_provider = v1_model_provider r, x1_risk_tier = v1_risk_tier r,
      x1_kernel_version = v1_kernel_version r, x1_previous_entry_hash = v1_previous_entry_hash r,
      x1_entry_hash = v1_entry_hash r, x1_merkle_root = v1_merkle_root r,
      x1_created_at = iso_string (v1_created_at r)\<rparr>"

record verify_export_result =
  ve_valid :: bool
  ve_merkle_root :: "string option"

definition invalid_time :: err where
  "invalid_time = PlainError ''Invalid time value''"

definition recomputed_input :: "ledger_row_export \<Rightarrow> string option \<Rightarrow> int \<Rightarrow> chain_input" where
  "recomputed_input entry previousHash t =
     \<lparr>ci_verityAuditId = x1_verity_audit_id entry, ci_requestHash = x1_request_hash entry,
      ci_responseHash = x1_response_hash entry, ci_executionGraphHash = x1_execution_graph_hash entry,
      ci_modelId = x1_model_id entry, ci_modelProvider = x1_model_provider entry,
      ci_riskTier = x1_risk_tier entry, ci_kernelVersion = x1_kernel_version entry,
      ci_previousEntryHash = previousHash, ci_createdAt = iso_string t\<rparr>"

text \<open>\<open>parse\<close> is \<open>new Date(text)\<close>; an invalid date makes \<open>toISOString\<close> throw.\<close>

definition verifyFromLedgerExport ::
    "'a crypto_scheme \<Rightarrow> (string \<Rightarrow> int option) \<Rightarrow> ledger_row_export list \<Rightarrow> string \<Rightarrow> err + verify_export_result" where
  "verifyFromLedgerExport C parse rows auditId =
     (let index = length (takeWhile (\<lambda>r. x1_verity_audit_id r \<noteq> auditId) rows);
          entry = rows ! index;
          previousHash = (if index > 0 then Some (x1_entry_hash (rows ! (index - 1))) else None) in
      if rows = [] then Inl (PlainError ''Ledger export must be a non-empty array of rows'')
      else if index = length rows then Inl (PlainError ''Audit ID not found in ledger export'')
      else case parse (x1_created_at entry) of
             None \<Rightarrow> Inl invalid_time
           | Some t \<Rightarrow> Inr \<lparr>ve_valid = (computeEntryHashV1 C (recomputed_input entry previousHash t) = x1_entry_hash entry),
               ve_merkle_root = x1_merkle_root entry\<rparr>)"

subsection \<open>The first execution graph\<close>

record validation_failure =
  vl_type :: string
  vl_description :: string
  vl_actionTaken :: string

record build_graph_input =
  bg_requestInputHash :: string
  bg_riskClassification :: risk_tier
  bg_selectedModel :: string
  bg_policyVersion :: string
  bg_promptHash :: string
  bg_rawOutputHash :: string
  bg_latencyMs :: int
  bg_validationFailures :: "validation_failure list option"
  bg_fallbackTriggered :: "bool option"
  bg_rulesApplied :: "string list option"

text \<open>The three values drawn on the way: the graph's identifier and two readings of the clock.\<close>

record graph_marks =
  gk_graphId :: id
  gk_receivedAt :: string
  gk_releasedAt :: string

definition failure_json :: "validation_failure \<Rightarrow> json" where
  "failure_json f = JObj [(''type'', JStr (vl_type f)), (''description'', JStr (vl_description f)),
     (''actionTaken'', JStr (vl_actionTaken f))]"

definition graph_payloadV1 :: "build_graph_input \<Rightarrow> graph_marks \<Rightarrow> json" where
  "graph_payloadV1 input k = JObj
     [(''graphId'', JStr (gk_graphId k)),
      (''request'', JObj [(''inputHash'', JStr (bg_requestInputHash input)), (''receivedAt'', JStr (gk_receivedAt k)),
        (''riskClassification'', JStr (risk_str (bg_riskClassification input)))]),
      (''modelSelection'', JObj [(''policyVersion'', JStr (bg_policyVersion input)),
        (''selectedModel'', JStr (bg_selectedModel input)), (''reason'', JStr ''risk-tier match'')]),
      (''modelExecution'', JObj [(''promptHash'', JStr (bg_promptHash input)),
        (''rawOutputHash'', JStr (bg_rawOutputHash input)), (''latencyMs'', JNum (bg_latencyMs input))]),
      (''validation'', JObj
        [(''rulesApplied'', JArr (map JStr (case bg_rulesApplied input of None \<Rightarrow> [] | Some r \<Rightarrow> r))),
         (''failuresDetected'', JArr (map failure_json (case bg_validationFailures input of None \<Rightarrow> [] | Some f \<Rightarrow> f))),
         (''fallbackTriggered'', JBool (bg_fallbackTriggered input = Some True))]),
      (''release'', JObj [(''released'', JBool True), (''releasedAt'', JStr (gk_releasedAt k))])]"

text \<open>\<open>JSON.stringify(sortKeys(obj))\<close>.\<close>

definition canonicalizeV1 :: "json \<Rightarrow> string" where
  "canonicalizeV1 v = stringify (sorted_json v)"

definition buildExecutionGraph ::
    "'a env_scheme \<Rightarrow> build_graph_input \<Rightarrow> (err, 'w world_scheme, id \<times> json \<times> string) op" where
  "buildExecutionGraph E input =
     bindE (drawE (randomUUID E)) (\<lambda>graphId.
     bindE (drawE (\<lambda>n. iso_string (clock E n))) (\<lambda>receivedAt.
     bindE (drawE (\<lambda>n. iso_string (clock E n))) (\<lambda>releasedAt.
     let payload = graph_payloadV1 input \<lparr>gk_graphId = graphId, gk_receivedAt = receivedAt, gk_releasedAt = releasedAt\<rparr> in
     ret (graphId, payload, hashContent E (canonicalizeV1 payload)))))"

subsection \<open>Trees and canonical texts of the two versions\<close>

lemma lower_hex_append: "lower_hex as @ lower_hex bs = lower_hex (as @ bs)"
  by (simp add: lower_hex_def)

lemma hashPairV1_hex:
  assumes "valid_node C a" "valid_node C b"
  shows "hashPairV1 C a b = hashPair C a b"
  using assms
  by (auto simp: valid_node_def crypto_ok_def hashPairV1_def hashPair_def hexToBytesS_def lower_hex_append
      dest!: sha256Hex_is_hex)

lemma levelUpV1: "list_all (valid_node C) xs \<Longrightarrow> levelUp (hashPairV1 C) xs = levelUp (hashPair C) xs"
  by (induction xs rule: level_pairs.induct) (simp_all add: hashPairV1_hex)

lemma merkle_layersV1:
  "list_all (valid_node C) xs \<Longrightarrow> merkle_layers (hashPairV1 C) xs = merkle_layers (hashPair C) xs"
proof (induction "length xs" arbitrary: xs rule: less_induct)
  case less
  show ?case
  proof (cases "length xs > 1")
    case True
    obtain ys where ys: "levelUp (hashPair C) xs = Inr ys" using v2.levelUp_total [OF less.prems] by blast
    then have len: "length ys < length xs" using levelUp_length [OF ys] True by linarith
    show ?thesis
      using less.hyps [OF len v2.levelUp_valid [OF less.prems ys]] True ys levelUpV1 [OF less.prems]
      by (subst (1 2) merkle_layers.simps) simp
  next
    case False
    then show ?thesis by (subst (1 2) merkle_layers.simps) simp
  qed
qed

text \<open>C14: The trees of the two versions are the same.  Over the leaves a ledger has (SHA-256 digests as lower
  case hex), hashing the decoded concatenation of two hex strings and hashing the concatenation of the two
  decoded strings give the same layers and the same root, so a V1 checkpoint can be checked with V2 proofs.\<close>

theorem v1_trees_are_v2_trees:
  assumes "crypto_ok C" and "list_all isSha256Hex leafHashes"
  shows "buildMerkleTreeV1 C leafHashes = buildMerkleTree C leafHashes"
  using merkle_layersV1 [OF valid_nodes [OF assms]]
  by (simp add: buildMerkleTreeV1_def buildMerkleTree_def merkle_tree_def)

theorem v1_trees_are_v2_trees_witness:
  "buildMerkleTreeV1 sample_crypto sample_leaves = buildMerkleTree sample_crypto sample_leaves"
  by (rule v1_trees_are_v2_trees [OF sample_crypto_ok(1) sample_leaves_ok(1)])

lemma stringify_pr: "in_domain v \<Longrightarrow> stringify v = pr v"
proof (induction v rule: in_domain.induct)
  case (4 xs)
  then have "map stringify xs = map pr xs" by (simp add: list_all_iff)
  then show ?case by (simp del: map_eq_conv)
next
  case (5 kvs)
  then have "filter (\<lambda>kv. snd kv \<noteq> JUndef) kvs = kvs" by (auto simp: list_all_iff intro!: filter_True)
  moreover have "map (\<lambda>kv. quote (fst kv) @ '':'' @ stringify (snd kv)) kvs =
      map (\<lambda>kv. quote (fst kv) @ '':'' @ pr (snd kv)) kvs"
    using 5 by (simp add: list_all_iff)
  ultimately show ?case by (simp only: stringify.simps pr.simps)
qed simp_all

lemma canonicalizeV1_canonicalize: "in_domain v \<Longrightarrow> canonicalize v = Inr (canonicalizeV1 v)"
  by (simp add: canonicalize_def canonicalizeV1_def encode_Inr_iff stringify_pr sorted_json_domain)

subsection \<open>The chain of appends\<close>

definition stored_input :: "v1_row \<Rightarrow> chain_input" where
  "stored_input r = recomputed_input (exported_row r) (v1_previous_entry_hash r) (v1_created_at r)"

definition linkedV1 :: "'a crypto_scheme \<Rightarrow> v1_row list \<Rightarrow> nat \<Rightarrow> bool" where
  "linkedV1 C rows i \<longleftrightarrow>
     v1_previous_entry_hash (rows ! i) = (if i = 0 then None else Some (v1_entry_hash (rows ! (i - 1)))) \<and>
     v1_entry_hash (rows ! i) = computeEntryHashV1 C (stored_input (rows ! i))"

definition chainedV1 :: "'a crypto_scheme \<Rightarrow> v1_row list \<Rightarrow> bool" where
  "chainedV1 C rows \<longleftrightarrow> (\<forall>i<length rows. linkedV1 C rows i)"

text \<open>
  The ledger of a run without overlaps: chained, with increasing time stamps and distinct identifiers, all
  of them drawn before now.
\<close>

definition v1_inv :: "'a env_scheme \<Rightarrow> 'w v1_world_scheme \<Rightarrow> bool" where
  "v1_inv E w \<longleftrightarrow>
     chainedV1 E (audit_ledger_v1 w) \<and>
     sorted_wrt (<) (map v1_created_at (audit_ledger_v1 w)) \<and>
     distinct (map v1_verity_audit_id (audit_ledger_v1 w)) \<and>
     (\<forall>r\<in>set (audit_ledger_v1 w). \<exists>n<draws w. \<exists>m<draws w. v1_created_at r = clock E n \<and> v1_verity_audit_id r = randomUUID E m)"

lemma newest_first_sorted:
  assumes "sorted_wrt (<) (map v1_created_at rows)"
  shows "newest_first rows = rev rows"
proof -
  have d: "sorted (map v1_created_at rows)" "distinct (map v1_created_at rows)"
    using assms by (simp_all add: strict_sorted_iff)
  then have "inj_on (\<lambda>r. - v1_created_at r) (set rows)" by (simp add: distinct_map inj_on_def)
  then have "sort_key (\<lambda>r. - v1_created_at r) rows = sort_key (\<lambda>r. - v1_created_at r) (rev rows)"
    by (intro sort_key_perm) simp_all
  also have "\<dots> = rev rows"
    using d(1) by (intro sort_key_id) (simp add: sorted_wrt_map sorted_wrt_rev flip: rev_map)
  finally show ?thesis by (simp add: newest_first_def)
qed

lemma chainedV1_snoc:
  "chainedV1 C (rows @ [r]) \<longleftrightarrow> chainedV1 C rows \<and>
     v1_previous_entry_hash r = map_option v1_entry_hash (last_row rows) \<and>
     v1_entry_hash r = computeEntryHashV1 C (stored_input r)"
proof -
  have "linkedV1 C (rows @ [r]) i \<longleftrightarrow> linkedV1 C rows i" if "i < length rows" for i
    using that less_imp_diff_less [OF that, of 1] by (simp add: linkedV1_def nth_append)
  moreover have "linkedV1 C (rows @ [r]) (length rows) \<longleftrightarrow>
      v1_previous_entry_hash r = map_option v1_entry_hash (last_row rows) \<and>
      v1_entry_hash r = computeEntryHashV1 C (stored_input r)"
    by (simp add: linkedV1_def nth_append last_row_def last_conv_nth)
  ultimately show ?thesis by (auto simp: chainedV1_def less_Suc_eq)
qed

lemma beginAppend_run:
  "beginAppend E w = (Inr \<lparr>pa_verityAuditId = randomUUID E (draws w), pa_id = randomUUID E (Suc (draws w)),
     pa_createdAt = clock E (Suc (Suc (draws w))),
     pa_previous = map_option v1_entry_hash (first_row (newest_first (audit_ledger_v1 w)))\<rparr>,
     w\<lparr>draws := Suc (Suc (Suc (draws w)))\<rparr>)"
  by (simp add: beginAppend_def run)

lemma snapshot_root_state: "snapshot_root C input h w = (r, u) \<Longrightarrow> u = w"
  by (auto simp: snapshot_root_def run split: option.splits if_splits sum.splits prod.splits)

lemma finishAppend_Inr:
  assumes "finishAppend E input p w = (Inr x, w')"
  shows "\<exists>root. x = (pa_verityAuditId p, computeEntryHashV1 E (chain_input_of input p), pa_createdAt p) \<and>
    w' = w\<lparr>audit_ledger_v1 := audit_ledger_v1 w @ [row_of input p (computeEntryHashV1 E (chain_input_of input p)) root]\<rparr>"
  using assms by (auto simp: finishAppend_def Let_def inr_iffs dest: snapshot_root_state)

lemma finishAppend_Inl: "finishAppend E input p w = (Inl e, w') \<Longrightarrow> w' = w"
  by (auto simp: finishAppend_def Let_def inl_iffs dest: snapshot_root_state)

lemma stored_input_row: "stored_input (row_of input p h root) = chain_input_of input p"
  by (simp add: stored_input_def recomputed_input_def exported_row_def row_of_def chain_input_of_def)

lemma v1_inv_draws: "v1_inv E w \<Longrightarrow> draws w \<le> n \<Longrightarrow> v1_inv E (w\<lparr>draws := n\<rparr>)"
  by (force simp: v1_inv_def)

lemma newest_hash:
  "v1_inv E w \<Longrightarrow> map_option v1_entry_hash (first_row (newest_first (audit_ledger_v1 w))) =
     map_option v1_entry_hash (last_row (audit_ledger_v1 w))"
  by (simp add: v1_inv_def newest_first_sorted last_row_def first_row_def hd_rev [symmetric] split: list.split)

text \<open>A row whose marks were drawn now, and whose previous hash is the one of the last row, extends the chain.\<close>

lemma v1_inv_snoc:
  assumes "v1_inv E w" "strict_mono (clock E)" "inj (randomUUID E)"
    and "v1_previous_entry_hash r = map_option v1_entry_hash (last_row (audit_ledger_v1 w))"
    and "v1_entry_hash r = computeEntryHashV1 E (stored_input r)"
    and "v1_created_at r = clock E n" "v1_verity_audit_id r = randomUUID E m"
    and "draws w \<le> n" "draws w \<le> m" "n < k" "m < k"
  shows "v1_inv E (w\<lparr>audit_ledger_v1 := audit_ledger_v1 w @ [r], draws := k\<rparr>)"
proof -
  have rows: "\<exists>i j. i < draws w \<and> j < draws w \<and> v1_created_at x = clock E i \<and> v1_verity_audit_id x = randomUUID E j"
    if "x \<in> set (audit_ledger_v1 w)" for x
    using assms(1) that unfolding v1_inv_def by blast
  have old: "v1_created_at x < v1_created_at r" "v1_verity_audit_id x \<noteq> v1_verity_audit_id r"
    if x: "x \<in> set (audit_ledger_v1 w)" for x
  proof -
    obtain i j where ij: "i < draws w" "j < draws w" "v1_created_at x = clock E i" "v1_verity_audit_id x = randomUUID E j"
      using rows [OF x] by blast
    then have "i < n" "j \<noteq> m" using assms(8,9) by linarith+
    then show "v1_created_at x < v1_created_at r"
      unfolding ij(3) assms(6) by (intro strict_monoD [OF assms(2)])
    show "v1_verity_audit_id x \<noteq> v1_verity_audit_id r"
      unfolding ij(4) assms(7) using \<open>j \<noteq> m\<close> injD [OF assms(3)] by blast
  qed
  have k: "draws w \<le> k" using assms(8,10) by linarith
  have c: "chainedV1 E (audit_ledger_v1 w @ [r])"
    using assms(1,4,5) by (simp add: chainedV1_snoc v1_inv_def)
  have s: "sorted_wrt (<) (map v1_created_at (audit_ledger_v1 w @ [r]))"
    using assms(1) old(1) by (simp add: v1_inv_def sorted_wrt_append)
  have "v1_verity_audit_id r \<notin> v1_verity_audit_id ` set (audit_ledger_v1 w)" using old(2) by fastforce
  then have d: "distinct (map v1_verity_audit_id (audit_ledger_v1 w @ [r]))"
    using assms(1) by (simp add: v1_inv_def)
  have "\<exists>n<k. \<exists>m<k. v1_created_at x = clock E n \<and> v1_verity_audit_id x = randomUUID E m"
    if "x \<in> set (audit_ledger_v1 w)" for x
    using rows [OF that] k by (meson less_le_trans)
  moreover have "\<exists>n<k. \<exists>m<k. v1_created_at r = clock E n \<and> v1_verity_audit_id r = randomUUID E m"
    using assms(6,7,10,11) by (intro exI conjI)
  ultimately show ?thesis unfolding v1_inv_def using c s d by simp
qed

lemma appendV1_step:
  assumes "v1_inv E w" "strict_mono (clock E)" "inj (randomUUID E)"
    and "appendLedgerEntryV1 E input w = (Inr (a, h, t), w')"
  shows "v1_inv E w' \<and> (\<exists>r. audit_ledger_v1 w' = audit_ledger_v1 w @ [r] \<and> v1_verity_audit_id r = a)"
proof -
  obtain p where p: "beginAppend E w = (Inr p, w\<lparr>draws := Suc (Suc (Suc (draws w)))\<rparr>)"
      "pa_verityAuditId p = randomUUID E (draws w)" "pa_createdAt p = clock E (Suc (Suc (draws w)))"
      "pa_previous p = map_option v1_entry_hash (last_row (audit_ledger_v1 w))"
    using newest_hash [OF assms(1)] by (simp add: beginAppend_run)
  then obtain root where r: "a = pa_verityAuditId p"
      "w' = w\<lparr>draws := Suc (Suc (Suc (draws w))), audit_ledger_v1 := audit_ledger_v1 w @
         [row_of input p (computeEntryHashV1 E (chain_input_of input p)) root]\<rparr>"
    using assms(4) finishAppend_Inr [of E input p] by (fastforce simp: appendLedgerEntryV1_def inr_iffs)
  let ?r = "row_of input p (computeEntryHashV1 E (chain_input_of input p)) root"
  have "v1_inv E (w\<lparr>audit_ledger_v1 := audit_ledger_v1 w @ [?r], draws := Suc (Suc (Suc (draws w)))\<rparr>)"
    by (rule v1_inv_snoc [OF assms(1-3), where n = "Suc (Suc (draws w))" and m = "draws w"])
      (simp_all add: stored_input_row, simp_all add: row_of_def p)
  moreover have "w' = w\<lparr>audit_ledger_v1 := audit_ledger_v1 w @ [?r], draws := Suc (Suc (Suc (draws w)))\<rparr>"
    unfolding r(2) by (cases w) simp
  moreover have "v1_verity_audit_id ?r = a" by (simp add: row_of_def r(1))
  ultimately show ?thesis by simp
qed

lemma index_of_key:
  assumes "distinct (map key xs)" "i < length xs"
  shows "length (takeWhile (\<lambda>x. key x \<noteq> key (xs ! i)) xs) = i"
  using assms
proof (induction xs arbitrary: i)
  case (Cons x xs)
  then show ?case by (cases i) (auto simp: image_iff dest: nth_mem)
qed simp

text \<open>The verdict on a row of a ledger with distinct identifiers, over the exported rows.\<close>

lemma verdict_of_row:
  assumes "distinct (map v1_verity_audit_id rows)" "i < length rows"
    and "parse (iso_string (v1_created_at (rows ! i))) = Some (v1_created_at (rows ! i))"
  shows "verifyFromLedgerExport C parse (map exported_row rows) (v1_verity_audit_id (rows ! i)) =
    Inr \<lparr>ve_valid = (computeEntryHashV1 C ((stored_input (rows ! i))\<lparr>ci_previousEntryHash :=
        (if i = 0 then None else Some (v1_entry_hash (rows ! (i - 1))))\<rparr>) = v1_entry_hash (rows ! i)),
      ve_merkle_root = v1_merkle_root (rows ! i)\<rparr>"
proof -
  have key: "x1_verity_audit_id (exported_row r) = v1_verity_audit_id r" for r by (simp add: exported_row_def)
  have "length (takeWhile (\<lambda>r. x1_verity_audit_id r \<noteq> v1_verity_audit_id (rows ! i)) (map exported_row rows)) = i"
    using index_of_key [OF assms(1,2)] by (simp add: takeWhile_map comp_def key)
  with assms(2,3) show ?thesis
    by (auto simp: verifyFromLedgerExport_def Let_def exported_row_def stored_input_def recomputed_input_def)
qed

lemma sequential_ledger:
  assumes "v1_inv E w" "strict_mono (clock E)" "inj (randomUUID E)"
    and "mapE (appendLedgerEntryV1 E) inputs w = (Inr results, w')"
  shows "v1_inv E w' \<and> (\<exists>new. audit_ledger_v1 w' = audit_ledger_v1 w @ new \<and> map v1_verity_audit_id new = map fst results)"
  using assms(1,4)
proof (induction inputs arbitrary: w results)
  case Nil
  then show ?case by (simp add: inr_iffs)
next
  case (Cons input inputs)
  then obtain x u rs where step: "appendLedgerEntryV1 E input w = (Inr x, u)"
      "mapE (appendLedgerEntryV1 E) inputs u = (Inr rs, w')" "results = x # rs"
    by (auto simp: inr_iffs)
  obtain a h t where x: "x = (a, h, t)" by (cases x)
  obtain r where r: "v1_inv E u" "audit_ledger_v1 u = audit_ledger_v1 w @ [r]" "v1_verity_audit_id r = a"
    using appendV1_step [OF Cons.prems(1) assms(2,3)] step(1) x by blast
  obtain new where "v1_inv E w'" "audit_ledger_v1 w' = audit_ledger_v1 u @ new" "map v1_verity_audit_id new = map fst rs"
    using Cons.IH [OF r(1) step(2)] by blast
  with r step(3) x show ?case by simp
qed

lemma chained_row_verifies:
  assumes "v1_inv E w" "r \<in> set (audit_ledger_v1 w)"
    and "parse (iso_string (v1_created_at r)) = Some (v1_created_at r)"
  shows "verifyFromLedgerExport E parse (map exported_row (audit_ledger_v1 w)) (v1_verity_audit_id r) =
    Inr \<lparr>ve_valid = True, ve_merkle_root = v1_merkle_root r\<rparr>"
proof -
  obtain i where i: "i < length (audit_ledger_v1 w)" "r = audit_ledger_v1 w ! i" using assms(2) by (auto simp: in_set_conv_nth)
  have d: "distinct (map v1_verity_audit_id (audit_ledger_v1 w))" using assms(1) by (simp add: v1_inv_def)
  have l: "linkedV1 E (audit_ledger_v1 w) i" using assms(1) i(1) by (simp add: v1_inv_def chainedV1_def)
  then have "(stored_input r)\<lparr>ci_previousEntryHash :=
      (if i = 0 then None else Some (v1_entry_hash (audit_ledger_v1 w ! (i - 1))))\<rparr> = stored_input r"
    by (simp add: linkedV1_def i(2) stored_input_def recomputed_input_def)
  with verdict_of_row [OF d i(1), folded i(2), of parse E] assms(3) l show ?thesis by (simp add: linkedV1_def flip: i(2))
qed

subsection \<open>Properties of the first version\<close>

text \<open>C15: V1 appends that do not overlap verify.  When the calls run one after the other on an empty ledger,
  with a clock that moves between readings and identifiers that do not repeat, the verdict on every entry
  they returned, over the exported ledger, is valid.\<close>

theorem v1_sequential_appends_verify:
  assumes "strict_mono (clock E)" and "inj (randomUUID E)" and "audit_ledger_v1 w = []"
    and "mapE (appendLedgerEntryV1 E) inputs w = (Inr results, w')"
    and "getLedgerRows (length results) w' = (Inr rows, u)"
    and "\<forall>r\<in>set rows. parse (iso_string (v1_created_at r)) = Some (v1_created_at r)"
  shows "list_all (\<lambda>(auditId, h, t). \<exists>root. verifyFromLedgerExport E parse (map exported_row rows) auditId =
      Inr \<lparr>ve_valid = True, ve_merkle_root = root\<rparr>) results"
proof -
  have "v1_inv E w" using assms(3) by (simp add: v1_inv_def chainedV1_def)
  from sequential_ledger [OF this assms(1,2,4)] assms(3)
  have inv: "v1_inv E w'" and ids: "map v1_verity_audit_id (audit_ledger_v1 w') = map fst results" by auto
  then have "length (audit_ledger_v1 w') = length results" by (metis length_map)
  moreover have "sort_key v1_created_at (audit_ledger_v1 w') = audit_ledger_v1 w'"
    using inv by (intro sort_key_id) (simp add: v1_inv_def strict_sorted_iff)
  ultimately have rows: "rows = audit_ledger_v1 w'" using assms(5) by (auto simp: getLedgerRows_def run)
  show ?thesis
  proof (clarsimp simp: list_all_iff)
    fix a h t assume "(a, h, t) \<in> set results"
    then have "a \<in> set (map v1_verity_audit_id (audit_ledger_v1 w'))" unfolding ids by force
    then obtain r where "r \<in> set (audit_ledger_v1 w')" "a = v1_verity_audit_id r" by auto
    with chained_row_verifies [OF inv] assms(6) rows
    show "\<exists>root. verifyFromLedgerExport E parse (map exported_row rows) a = Inr \<lparr>ve_valid = True, ve_merkle_root = root\<rparr>"
      by blast
  qed
qed

text \<open>What two overlapping appends insert.\<close>

lemma overlapping_rows:
  assumes "crypto_ok E" and "v1_inv E w" and "inj (randomUUID E)"
    and "beginAppend E w = (Inr p, w1)" and "beginAppend E w1 = (Inr q, w2)"
    and "finishAppend E a p w2 = (Inr x, w3)" and "finishAppend E b q w3 = (Inr y, w4)"
  obtains r s where "audit_ledger_v1 w4 = audit_ledger_v1 w @ [r, s]"
    "distinct (map v1_verity_audit_id (audit_ledger_v1 w4))"
    "v1_previous_entry_hash s = v1_previous_entry_hash r" "fst y = v1_verity_audit_id s"
    "v1_created_at s = pa_createdAt q" "v1_entry_hash s = computeEntryHashV1 E (stored_input s)"
    "length (v1_entry_hash r) = 64"
proof -
  have pq: "pa_previous q = pa_previous p" "pa_verityAuditId p = randomUUID E (draws w)"
    "pa_verityAuditId q = randomUUID E (Suc (Suc (Suc (draws w))))" "audit_ledger_v1 w2 = audit_ledger_v1 w"
    using assms(4,5) by (auto simp: beginAppend_run)
  let ?h = "\<lambda>i p. computeEntryHashV1 E (chain_input_of i p)"
  obtain k l where fin: "audit_ledger_v1 w4 = audit_ledger_v1 w @ [row_of a p (?h a p) k, row_of b q (?h b q) l]"
      "fst y = pa_verityAuditId q"
    using finishAppend_Inr [OF assms(6)] finishAppend_Inr [OF assms(7)] pq(4) by auto
  define r s where "r = row_of a p (?h a p) k" and "s = row_of b q (?h b q) l"
  note rs = r_def s_def
  have fresh: "randomUUID E m \<notin> v1_verity_audit_id ` set (audit_ledger_v1 w)" if "draws w \<le> m" for m
    using assms(2,3) that unfolding v1_inv_def by (metis imageE injD leD)
  have ids: "v1_verity_audit_id r \<noteq> v1_verity_audit_id s"
    using injD [OF assms(3), of "draws w" "Suc (Suc (Suc (draws w)))"] by (auto simp: rs row_of_def pq)
  have new: "v1_verity_audit_id r \<notin> v1_verity_audit_id ` set (audit_ledger_v1 w)"
    "v1_verity_audit_id s \<notin> v1_verity_audit_id ` set (audit_ledger_v1 w)"
    using fresh [of "draws w"] fresh [of "Suc (Suc (Suc (draws w)))"] by (simp_all add: rs row_of_def pq)
  show ?thesis
  proof (rule that [of r s])
    show "distinct (map v1_verity_audit_id (audit_ledger_v1 w4))"
      using assms(2) fin(1) ids new by (simp add: v1_inv_def flip: rs)
    show "v1_entry_hash s = computeEntryHashV1 E (stored_input s)"
      by (simp add: s_def stored_input_row) (simp add: row_of_def)
  qed (use fin assms(1) in \<open>simp_all add: rs row_of_def pq computeEntryHashV1_def sha256Hex_def crypto_ok_def\<close>)
qed

text \<open>A row that also verifies with another previous hash gives a collision.\<close>

lemma other_previous_hash:
  assumes "crypto_ok E" "v1_entry_hash s = computeEntryHashV1 E (stored_input s)"
    and "length h = 64" "v1_previous_entry_hash s \<noteq> Some h"
    and "computeEntryHashV1 E ((stored_input s)\<lparr>ci_previousEntryHash := Some h\<rparr>) = v1_entry_hash s"
  shows "collision E (utf8 (chain_text (stored_input s)))
    (utf8 (chain_text ((stored_input s)\<lparr>ci_previousEntryHash := Some h\<rparr>)))"
proof -
  have "h \<noteq> []" using assms(3) by auto
  then have "chain_text (stored_input s) \<noteq> chain_text ((stored_input s)\<lparr>ci_previousEntryHash := Some h\<rparr>)"
    using assms(4) by (auto simp: chain_text_def stored_input_def recomputed_input_def split: option.splits)
  then show ?thesis
    using assms(1,2,5) by (simp add: collision_def computeEntryHashV1_def sha256Hex_def crypto_ok_def)
qed

text \<open>C16: V1 appends that overlap fork the chain.  When a second call reads the latest hash before the first one
  has inserted, both entries get the same previous hash, and the export verifier, which takes the hash of the
  row before, rejects the honest entry of the second call; otherwise the first entry's hash is the hash of
  its own predecessor, or the two texts are a SHA-256 collision.\<close>

theorem v1_overlapping_appends_fork:
  assumes "crypto_ok E" and "v1_inv E w" and "strict_mono (clock E)" and "inj (randomUUID E)"
    and "beginAppend E w = (Inr p, w1)" and "beginAppend E w1 = (Inr q, w2)"
    and "finishAppend E a p w2 = (Inr x, w3)" and "finishAppend E b q w3 = (Inr y, w4)"
    and "parse (iso_string (pa_createdAt q)) = Some (pa_createdAt q)"
  shows "\<exists>r s. audit_ledger_v1 w4 = audit_ledger_v1 w @ [r, s] \<and>
    v1_previous_entry_hash s = v1_previous_entry_hash r \<and>
    (verifyFromLedgerExport E parse (map exported_row (audit_ledger_v1 w4)) (fst y) =
       Inr \<lparr>ve_valid = False, ve_merkle_root = v1_merkle_root s\<rparr> \<or>
     v1_previous_entry_hash r = Some (v1_entry_hash r) \<or>
     collision E (utf8 (chain_text (stored_input s)))
       (utf8 (chain_text ((stored_input s)\<lparr>ci_previousEntryHash := Some (v1_entry_hash r)\<rparr>))))"
proof -
  obtain r s where ledger: "audit_ledger_v1 w4 = audit_ledger_v1 w @ [r, s]"
    "distinct (map v1_verity_audit_id (audit_ledger_v1 w4))"
    and row: "v1_previous_entry_hash s = v1_previous_entry_hash r" "fst y = v1_verity_audit_id s"
      "v1_created_at s = pa_createdAt q" "v1_entry_hash s = computeEntryHashV1 E (stored_input s)"
      "length (v1_entry_hash r) = 64"
    by (rule overlapping_rows [OF assms(1,2,4-8)])
  let ?n = "Suc (length (audit_ledger_v1 w))"
  have at: "?n < length (audit_ledger_v1 w4)" "audit_ledger_v1 w4 ! ?n = s" "audit_ledger_v1 w4 ! (?n - 1) = r"
    by (simp_all add: ledger(1) nth_append)
  have "parse (iso_string (v1_created_at s)) = Some (v1_created_at s)" using assms(9) row(3) by simp
  with verdict_of_row [OF ledger(2) at(1), unfolded at(2), of parse E] at(3) row(2)
  have "verifyFromLedgerExport E parse (map exported_row (audit_ledger_v1 w4)) (fst y) =
      Inr \<lparr>ve_valid = (computeEntryHashV1 E ((stored_input s)\<lparr>ci_previousEntryHash := Some (v1_entry_hash r)\<rparr>) = v1_entry_hash s),
        ve_merkle_root = v1_merkle_root s\<rparr>"
    by simp
  with ledger(1) row(1) other_previous_hash [OF assms(1) row(4,5)] show ?thesis
    by (intro exI [of _ r] exI [of _ s]) auto
qed

definition sample_append_v1 :: append_input_v1 where
  "sample_append_v1 =
     \<lparr>a1_requestHash = ''r'', a1_responseHash = ''s'', a1_executionGraphHash = ''g'', a1_modelId = ''m'',
      a1_modelProvider = ''p'', a1_riskTier = ''low'', a1_kernelVersion = ''0.1.0'', a1_merkleRoot = None,
      a1_merkleSnapshotInterval = None\<rparr>"

definition empty_v1 :: v1_world where
  "empty_v1 = \<lparr>draws = 0, audit_ledger_v1 = []\<rparr>"

lemma sample_marks: "strict_mono (clock sample_env)" "inj (randomUUID sample_env)"
  by (simp_all add: sample_env_def crypto.defs strict_mono_def inj_on_def)

lemma sample_finish:
  "finishAppend sample_env sample_append_v1 p w =
     (let h = computeEntryHashV1 sample_env (chain_input_of sample_append_v1 p) in
      (Inr (pa_verityAuditId p, h, pa_createdAt p),
       w\<lparr>audit_ledger_v1 := audit_ledger_v1 w @ [row_of sample_append_v1 p h None]\<rparr>))"
  by (simp add: finishAppend_def snapshot_root_def sample_append_v1_def Let_def run)

lemma sample_time: "n < 1000 \<Longrightarrow> date_parse (iso_string (clock sample_env n)) = Some (clock sample_env n)"
proof (rule parse_iso)
  assume "n < 1000"
  then have "clock sample_env n div 86400000 = 20454" by (simp add: sample_env_def crypto.defs)
  moreover have "year_of_day 20454 = 2026" by code_simp
  ultimately show "0 \<le> year_of_day (clock sample_env n div 86400000)" "year_of_day (clock sample_env n div 86400000) \<le> 9999"
    by simp_all
qed

lemma sample_clock: "k < 1000 \<Longrightarrow> \<exists>n<1000. clock sample_env k = clock sample_env n"
  by blast

theorem v1_sequential_appends_verify_witness:
  "\<exists>a h t rows root. fst (appendLedgerEntryV1 sample_env sample_append_v1 empty_v1) = Inr (a, h, t) \<and>
     verifyFromLedgerExport sample_env date_parse rows a = Inr \<lparr>ve_valid = True, ve_merkle_root = root\<rparr>"
proof -
  obtain a h t w' where app: "appendLedgerEntryV1 sample_env sample_append_v1 empty_v1 = (Inr (a, h, t), w')"
      "\<forall>r\<in>set (audit_ledger_v1 w'). \<exists>n<1000. v1_created_at r = clock sample_env n"
    using sample_clock [of "Suc (Suc 0)"]
    by (auto simp: appendLedgerEntryV1_def bindE_def beginAppend_run sample_finish Let_def empty_v1_def row_of_def)
  have m: "mapE (appendLedgerEntryV1 sample_env) [sample_append_v1] empty_v1 = (Inr [(a, h, t)], w')"
    by (simp add: run app)
  have rows: "getLedgerRows 1 w' = (Inr (take 1 (sort_key v1_created_at (audit_ledger_v1 w'))), w')"
    by (simp add: getLedgerRows_def run)
  have "\<forall>r\<in>set (take 1 (sort_key v1_created_at (audit_ledger_v1 w'))).
      date_parse (iso_string (v1_created_at r)) = Some (v1_created_at r)"
    using app(2) sample_time by (fastforce dest: in_set_takeD)
  from v1_sequential_appends_verify [OF sample_marks _ m _ this] rows app(1) show ?thesis
    by (fastforce simp: empty_v1_def)
qed

theorem v1_overlapping_appends_fork_witness:
  "\<exists>p q w1 w2 w3 w4 x y r s. beginAppend sample_env empty_v1 = (Inr p, w1) \<and> beginAppend sample_env w1 = (Inr q, w2) \<and>
     finishAppend sample_env sample_append_v1 p w2 = (Inr x, w3) \<and>
     finishAppend sample_env sample_append_v1 q w3 = (Inr y, w4) \<and>
     audit_ledger_v1 w4 = [r, s] \<and> v1_previous_entry_hash s = v1_previous_entry_hash r"
proof -
  obtain p w1 where p: "beginAppend sample_env empty_v1 = (Inr p, w1)" by (simp add: beginAppend_run)
  obtain q w2 where q: "beginAppend sample_env w1 = (Inr q, w2)" "pa_createdAt q = clock sample_env (Suc (Suc (draws w1)))"
    by (simp add: beginAppend_run)
  have "draws w1 = 3" using p by (auto simp: beginAppend_run empty_v1_def)
  obtain x w3 where x: "finishAppend sample_env sample_append_v1 p w2 = (Inr x, w3)" by (simp add: sample_finish Let_def)
  obtain y w4 where y: "finishAppend sample_env sample_append_v1 q w3 = (Inr y, w4)" by (simp add: sample_finish Let_def)
  have inv: "v1_inv sample_env empty_v1" by (simp add: v1_inv_def chainedV1_def empty_v1_def)
  have time: "date_parse (iso_string (pa_createdAt q)) = Some (pa_createdAt q)" using q(2) sample_time [of "Suc (Suc (draws w1))"] \<open>draws w1 = 3\<close> by simp
  from v1_overlapping_appends_fork [where parse = date_parse, OF sample_crypto_ok(2) inv sample_marks p q(1) x y time] p q(1) x y
  show ?thesis by (fastforce simp: empty_v1_def)
qed

end
