(* ===== verification/Console.thy ===== *)
theory Console
  imports Requests
begin

text \<open>
  The functions of the web shell that decide something: \<open>apps/shell/lib/permissions.ts\<close> (which pages the
  navigation shows), \<open>format.ts\<close> and \<open>operator-display.ts\<close> (what an operator reads of statuses, events,
  citations and actors), and the error of a call (\<open>api/client.ts\<close>).  The em dash and the ellipsis lie outside the
  code units of the model's strings; they are the fields of \<open>signs\<close>.
\<close>

subsection \<open>Navigation\<close>

record nav_item =
  ni_href :: string
  ni_label :: string
  ni_permission :: "string option"
  ni_anyOf :: "string list option"

abbreviation page :: "string \<Rightarrow> string \<Rightarrow> string option \<Rightarrow> nav_item" where
  "page href label permission \<equiv>
     \<lparr>ni_href = href, ni_label = label, ni_permission = permission, ni_anyOf = None\<rparr>"

definition PRIMARY_NAV :: "nav_item list" where
  "PRIMARY_NAV =
     [page ''/'' ''Home'' None, page ''/nova'' ''Nova'' (Some ''nova.use''),
      page ''/knowledge'' ''Knowledge'' (Some ''knowledge.read''),
      \<lparr>ni_href = ''/command'', ni_label = ''Command'', ni_permission = None,
       ni_anyOf = Some [''users.manage'', ''roles.manage'', ''policies.read'', ''models.read'', ''approvals.read'',
         ''connectors.manage'']\<rparr>,
      page ''/audit'' ''Audit'' (Some ''audit.read''), page ''/system'' ''System'' None]"

definition COMMAND_NAV :: "nav_item list" where
  "COMMAND_NAV =
     [page ''/command/users'' ''Users'' (Some ''users.manage''),
      page ''/command/roles'' ''Roles'' (Some ''roles.manage''),
      page ''/command/policies'' ''Policies'' (Some ''policies.read''),
      page ''/command/models'' ''Models'' (Some ''models.read''),
      page ''/command/skills'' ''Skills'' (Some ''policies.read''),
      page ''/command/connectors'' ''Connectors'' (Some ''connectors.manage''),
      page ''/command/approvals'' ''Approvals'' (Some ''approvals.read'')]"

definition holds_key :: "string list option \<Rightarrow> string \<Rightarrow> bool" where
  "holds_key permissions key = (case permissions of None \<Rightarrow> False | Some ps \<Rightarrow> key \<in> set ps)"

definition can :: "string list option \<Rightarrow> string option \<Rightarrow> bool" where
  "can permissions key = (\<not> truthy key \<or> holds_key permissions (the key))"

definition canAny :: "string list option \<Rightarrow> string list option \<Rightarrow> bool" where
  "canAny permissions keys =
     (case keys of None \<Rightarrow> True | Some ks \<Rightarrow> ks = [] \<or> list_ex (holds_key permissions) ks)"

definition visibleNav :: "nav_item list \<Rightarrow> string list option \<Rightarrow> nav_item list" where
  "visibleNav items permissions =
     filter (\<lambda>item. can permissions (ni_permission item) \<and> canAny permissions (ni_anyOf item)) items"

text \<open>The request that fills a page of the command section.\<close>

definition list_call :: "string \<Rightarrow> call option" where
  "list_call href =
     map_of [(''/command/users'', CallUsers), (''/command/roles'', CallRoles), (''/command/policies'', CallPolicies),
       (''/command/models'', CallModels), (''/command/skills'', CallSkills), (''/command/connectors'', CallConnectors),
       (''/command/approvals'', CallApprovals None)] href"

subsection \<open>Labels\<close>

record signs =
  dash :: string
  ellipsis :: string

definition shortHash :: "signs \<Rightarrow> string option \<Rightarrow> nat \<Rightarrow> string" where
  "shortHash S value n =
     (if \<not> truthy value then dash S
      else let v = the value in
        if length v \<le> n * 2 + 1 then v else take n v @ ellipsis S @ drop (length v - 4) v)"

definition humanLabel :: "signs \<Rightarrow> string option \<Rightarrow> string" where
  "humanLabel S value =
     (if \<not> truthy value then dash S
      else map (\<lambda>c. if c \<in> {CHR ''.'', CHR ''_''} then CHR '' '' else c) (the value))"

definition EVENT_LABELS :: "(string \<times> string) list" where
  "EVENT_LABELS =
     [(''execution.created'', ''Execution opened''), (''identity.authenticated'', ''Identity authenticated''),
      (''authorization.allowed'', ''Authorization allowed''), (''knowledge.retrieval.started'', ''Knowledge retrieved''),
      (''knowledge.retrieve'', ''Knowledge retrieved''), (''model.selected'', ''Model selected''),
      (''model.execute'', ''Model executed''), (''nova.skill.started'', ''Nova skill started''),
      (''nova.skill.completed'', ''Nova skill completed''), (''nova.skill.failed'', ''Nova skill failed''),
      (''approval.requested'', ''Approval requested''), (''approval.approved'', ''Approval approved''),
      (''approval.rejected'', ''Approval rejected''), (''tool.requested'', ''Tool authorized''),
      (''tool.completed'', ''Meta publish completed''), (''tool.failed'', ''Tool failed''),
      (''tool.denied'', ''Tool denied''), (''finalize.completed'', ''Audit sealed''),
      (''finalize.blocked'', ''Audit sealed (blocked)'')]"

text \<open>A lookup in an object of labels; the names are none of the properties every object inherits.\<close>

definition label_or :: "(string \<times> string) list \<Rightarrow> string \<Rightarrow> string \<Rightarrow> string" where
  "label_or labels name other = (case map_of labels name of Some l \<Rightarrow> l | None \<Rightarrow> other)"

definition eventLabel :: "signs \<Rightarrow> string \<Rightarrow> string" where
  "eventLabel S eventType = label_or EVENT_LABELS eventType (humanLabel S (Some eventType))"

definition CONNECTOR_STATE_LABELS :: "(string \<times> string) list" where
  "CONNECTOR_STATE_LABELS =
     [(''authorized'', ''Authorized''), (''approved'', ''Authorized''), (''executing'', ''Publishing''),
      (''publishing'', ''Publishing''), (''scheduling'', ''Publishing''), (''scheduled'', ''Scheduled''),
      (''succeeded'', ''Published''), (''posted'', ''Published''), (''needs_review'', ''Needs review''),
      (''failed'', ''Failed''), (''error'', ''Failed''), (''denied'', ''Failed''),
      (''pending_approval'', ''Awaiting approval''), (''rejected'', ''Rejected'')]"

definition connectorStateLabel :: "signs \<Rightarrow> string option \<Rightarrow> string" where
  "connectorStateLabel S status =
     (if \<not> truthy status then dash S
      else label_or CONNECTOR_STATE_LABELS (the status) (humanLabel S status))"

datatype trust_state = TrustApproved | TrustIndexed | TrustUploaded

definition sourceTrustState :: "string option \<Rightarrow> bool \<Rightarrow> trust_state" where
  "sourceTrustState approved_at indexed =
     (if truthy approved_at then TrustApproved else if indexed then TrustIndexed else TrustUploaded)"

definition skillLabel :: "signs \<Rightarrow> string option \<Rightarrow> string" where
  "skillLabel S skillId =
     (if \<not> truthy skillId then dash S
      else label_or [(''nova.research'', ''Research''), (''nova.drafting'', ''Drafting''),
        (''nova.social.draft'', ''Social Draft'')] (the skillId) (humanLabel S skillId))"

definition executionStatusLabel :: "signs \<Rightarrow> string option \<Rightarrow> string" where
  "executionStatusLabel S status =
     (if \<not> truthy status then dash S
      else label_or [(''created'', ''Opened''), (''running'', ''In progress''),
          (''waiting_approval'', ''Awaiting approval''), (''completed'', ''Completed''), (''failed'', ''Failed''),
          (''blocked'', ''Blocked''), (''cancelled'', ''Cancelled'')] (the status)
        (map (\<lambda>c. if c = CHR ''_'' then CHR '' '' else c) (the status)))"

definition approvalFilterLabel :: "string \<Rightarrow> string" where
  "approvalFilterLabel status =
     label_or [(''pending'', ''Pending''), (''approved'', ''Approved''), (''rejected'', ''Rejected''),
       (''expired'', ''Expired''), (''denied'', ''Rejected'')] status status"

definition actorDisplay :: "signs \<Rightarrow> string option \<Rightarrow> string option \<Rightarrow> id option \<Rightarrow> string" where
  "actorDisplay S name email i =
     (if truthy name \<and> truthy email then the name @ '' ('' @ the email @ '')''
      else if truthy name then the name
      else if truthy email then the email
      else (case i of None \<Rightarrow> dash S | Some a \<Rightarrow> a))"

text \<open>\<open>/^mock:[^:\n]+:/\<close>.\<close>

definition mock_prefix :: "string \<Rightarrow> bool" where
  "mock_prefix t \<longleftrightarrow> starts_with t ''mock:'' \<and>
     (let rest = drop 5 t; name = takeWhile (\<lambda>c. c \<noteq> CHR '':'' \<and> c \<noteq> CHR 0x0A) rest in
      name \<noteq> [] \<and> starts_with (drop (length name) rest) '':'')"

definition presentMockArtifact :: "string option \<Rightarrow> bool \<times> string" where
  "presentMockArtifact text = (let recorded = (case text of None \<Rightarrow> '''' | Some t \<Rightarrow> t) in (mock_prefix recorded, recorded))"

subsection \<open>Citations\<close>

text \<open>\<open>chunk_count\<close> is a count: an integer.\<close>

record shown_citation =
  zc_source_id :: "id option"
  zc_source_version_id :: "id option"
  zc_title :: "string option"
  zc_page :: json
  zc_chunk_count :: "int option"

record display_citation =
  dc_key :: string
  dc_title :: string
  dc_chunkCount :: int
  dc_source_id :: "id option"
  dc_source_version_id :: "id option"
  dc_page :: json

definition citationsForDisplay :: "shown_citation list option \<Rightarrow> shown_citation list option \<Rightarrow> shown_citation list" where
  "citationsForDisplay executed detail =
     (case detail of
        Some (c # cs) \<Rightarrow> c # cs
      | _ \<Rightarrow> (case executed of None \<Rightarrow> [] | Some cs \<Rightarrow> cs))"

definition citation_title :: "shown_citation \<Rightarrow> string" where
  "citation_title c =
     (let t = map_option trim (zc_title c) in if truthy t then the t else ''Untitled source'')"

definition citation_key :: "shown_citation \<Rightarrow> string" where
  "citation_key c =
     (if truthy (zc_source_version_id c) then the (zc_source_version_id c)
      else if truthy (zc_source_id c) then the (zc_source_id c) else citation_title c)"

definition citation_weight :: "shown_citation \<Rightarrow> int" where
  "citation_weight c = (case zc_chunk_count c of Some n \<Rightarrow> if n > 0 then n else 1 | None \<Rightarrow> 1)"

definition display_of :: "shown_citation \<Rightarrow> display_citation" where
  "display_of c =
     \<lparr>dc_key = citation_key c, dc_title = citation_title c, dc_chunkCount = citation_weight c,
      dc_source_id = zc_source_id c, dc_source_version_id = zc_source_version_id c, dc_page = zc_page c\<rparr>"

text \<open>One turn of the loop; the groups are the values of the \<open>Map\<close> in the order of insertion.\<close>

definition add_citation :: "shown_citation \<Rightarrow> display_citation list \<Rightarrow> display_citation list" where
  "add_citation c groups =
     (if citation_key c \<in> dc_key ` set groups
      then map (\<lambda>g. if dc_key g = citation_key c then g\<lparr>dc_chunkCount := dc_chunkCount g + citation_weight c\<rparr> else g) groups
      else groups @ [display_of c])"

definition dedupeCitations :: "shown_citation list option \<Rightarrow> display_citation list" where
  "dedupeCitations citations = fold add_citation (case citations of None \<Rightarrow> [] | Some cs \<Rightarrow> cs) []"

subsection \<open>The error of a call\<close>

record core_api_error =
  ce_code :: string
  ce_message :: string
  ce_status :: int
  ce_requestId :: "string option"

text \<open>\<open>body?.error\<close>, and its fields, which a server of this repository sends as strings.\<close>

definition text_field :: "string \<Rightarrow> json \<Rightarrow> string option" where
  "text_field k v = (case js_opt_get k v of JStr s \<Rightarrow> Some s | _ \<Rightarrow> None)"

definition parseApiError :: "json \<Rightarrow> int \<Rightarrow> string option \<Rightarrow> core_api_error" where
  "parseApiError payload status requestId =
     (let e = js_opt_get ''error'' payload in
      \<lparr>ce_code = (case text_field ''code'' e of None \<Rightarrow> ''REQUEST_FAILED'' | Some c \<Rightarrow> c),
       ce_message = (case text_field ''message'' e of None \<Rightarrow> ''request failed'' | Some m \<Rightarrow> m),
       ce_status = status,
       ce_requestId = (case text_field ''request_id'' e of None \<Rightarrow> requestId | Some r \<Rightarrow> Some r)\<rparr>)"

definition isUnauthorized :: "core_api_error \<Rightarrow> bool" where
  "isUnauthorized e \<longleftrightarrow> ce_status e = 401"

subsection \<open>What the navigation shows\<close>

text \<open>A page is shown exactly when its permission, and one of its alternatives, are held.\<close>

lemma visibleNav_iff:
  "item \<in> set (visibleNav items (Some ps)) \<longleftrightarrow> item \<in> set items \<and>
     (truthy (ni_permission item) \<longrightarrow> the (ni_permission item) \<in> set ps) \<and>
     (\<forall>ks. ni_anyOf item = Some ks \<longrightarrow> ks = [] \<or> set ks \<inter> set ps \<noteq> {})"
  by (auto simp: visibleNav_def can_def canAny_def holds_key_def list_ex_iff split: option.splits)

text \<open>
  The permission of a command page is the one the interface asks for: whoever sees the page may load it, and
  whoever may load it sees it.
\<close>

lemma command_pages_match_guards:
  "item \<in> set COMMAND_NAV \<Longrightarrow>
     \<exists>c. list_call (ni_href item) = Some c \<and> guard_of c = NeedsSession (ni_permission item)"
  by (auto simp: COMMAND_NAV_def list_call_def)

text \<open>A shown page of the section implies that the section itself is shown.\<close>

lemma command_section_shown:
  assumes "visibleNav COMMAND_NAV (Some ps) \<noteq> []"
  shows "''Command'' \<in> ni_label ` set (visibleNav PRIMARY_NAV (Some ps))"
proof -
  from assms have "list_ex (\<lambda>k. k \<in> set ps) [''users.manage'', ''roles.manage'', ''policies.read'', ''models.read'',
      ''approvals.read'', ''connectors.manage'']"
    by (auto simp: visibleNav_def COMMAND_NAV_def can_def canAny_def holds_key_def truthy_def split: if_splits)
  then show ?thesis
    by (auto simp: visibleNav_def PRIMARY_NAV_def can_def canAny_def holds_key_def truthy_def)
qed

text \<open>Four labels are for names no execution event has.\<close>

lemma labels_without_event:
  "filter (\<lambda>k. k \<notin> set EXECUTION_EVENT_TYPES) (map fst EVENT_LABELS) =
     [''knowledge.retrieve'', ''model.execute'', ''finalize.completed'', ''finalize.blocked'']"
  by code_simp

subsection \<open>What deduplication keeps\<close>

definition total :: "display_citation list \<Rightarrow> string \<Rightarrow> int" where
  "total groups k = sum_list (map dc_chunkCount (filter (\<lambda>g. dc_key g = k) groups))"

lemma add_citation_keys:
  "distinct (map dc_key gs) \<Longrightarrow> distinct (map dc_key (add_citation c gs))"
proof -
  have "map dc_key (map (\<lambda>g. if dc_key g = j then g\<lparr>dc_chunkCount := dc_chunkCount g + n\<rparr> else g) gs) = map dc_key gs" for j n
    by (induction gs) auto
  then show "distinct (map dc_key gs) \<Longrightarrow> distinct (map dc_key (add_citation c gs))"
    by (auto simp: add_citation_def display_of_def simp del: map_map)
qed

lemma total_unchanged: "k \<noteq> citation_key c \<Longrightarrow> total (add_citation c gs) k = total gs k"
proof -
  assume k: "k \<noteq> citation_key c"
  have "total (map (\<lambda>g. if dc_key g = j then g\<lparr>dc_chunkCount := dc_chunkCount g + n\<rparr> else g) gs) k = total gs k"
    if "k \<noteq> j" for j n
    using that by (induction gs) (auto simp: total_def)
  with k show ?thesis by (auto simp: add_citation_def total_def display_of_def)
qed

lemma total_grows:
  "distinct (map dc_key gs) \<Longrightarrow> total (add_citation c gs) (citation_key c) = total gs (citation_key c) + citation_weight c"
proof -
  have old: "total (map (\<lambda>g. if dc_key g = j then g\<lparr>dc_chunkCount := dc_chunkCount g + n\<rparr> else g) hs) j = total hs j + n"
    if "distinct (map dc_key hs)" "j \<in> dc_key ` set hs" for hs j n
    using that
  proof (induction hs)
    case (Cons h hs)
    have "filter (\<lambda>g. dc_key g = j) (map (\<lambda>g. if dc_key g = j then g\<lparr>dc_chunkCount := dc_chunkCount g + n\<rparr> else g) hs) = []"
        "filter (\<lambda>g. dc_key g = j) hs = []" if "dc_key h = j"
      using Cons.prems(1) that by (auto simp: filter_empty_conv image_iff)
    with Cons show ?case by (auto simp: total_def)
  qed simp
  assume d: "distinct (map dc_key gs)"
  have new: "filter (\<lambda>g. dc_key g = k) gs = []" if "k \<notin> dc_key ` set gs" for k
    using that by (auto simp: filter_empty_conv)
  show ?thesis
    using old [OF d, of "citation_key c" "citation_weight c"] new [of "citation_key c"]
    by (auto simp: add_citation_def total_def display_of_def)
qed

text \<open>
  The shown groups have different keys, and the count of each is the sum of the counts of the citations with
  its key: no chunk is lost and none is counted under another source.
\<close>

lemma dedupe_counts:
  "distinct (map dc_key (dedupeCitations (Some cs))) \<and>
   total (dedupeCitations (Some cs)) k = sum_list (map citation_weight (filter (\<lambda>c. citation_key c = k) cs))"
proof -
  have "distinct (map dc_key gs) \<Longrightarrow> distinct (map dc_key (fold add_citation cs gs)) \<and>
     total (fold add_citation cs gs) k = total gs k + sum_list (map citation_weight (filter (\<lambda>c. citation_key c = k) cs))" for gs
  proof (induction cs arbitrary: gs)
    case (Cons c cs)
    from Cons.IH [OF add_citation_keys [OF Cons.prems]] Cons.prems show ?case
      by (cases "citation_key c = k") (auto simp: total_unchanged total_grows)
  qed simp
  from this [of "[]"] show ?thesis by (simp add: dedupeCitations_def total_def)
qed

end
