(* ===== verification/Spec2Isabelle.thy ===== *)
theory Spec2Isabelle
  imports Evidence Gateway RateLimit ModelRun AuditSpec Invariants V1 Console
begin

text \<open>
  VerityOS: a model of its TypeScript services, and what makes them correct.

  \<^bold>\<open>The program.\<close>  VerityOS runs AI work of organizations under audit.  Everything a user or a service does
  happens in an \<^emph>\<open>execution\<close>, which has a status, a graph of events and entries in a hash-chained ledger
  of its organization.  \<open>packages/audit-kernel\<close> keeps them, seals an execution at its end, exports the
  evidence of an organization and verifies such a bundle without the database.  \<open>packages/identity\<close> (users,
  roles, sessions, service credentials), \<open>packages/command\<close> (policies, skill grants, approvals, connectors),
  \<open>packages/model-router\<close>, \<open>packages/connectors\<close> and \<open>packages/knowledge\<close> (collections, uploads, chunks,
  retrieval) stand beside it.  \<open>apps/core-api\<close> composes them: governed executions, retrieval and model calls
  under policy, the connector gateway, and the HTTP interface.

  \<^bold>\<open>Theories and sources\<close> (below \<open>src/packages\<close> or \<open>src/apps/core-api/src\<close>; each later group imports the earlier
  ones).

  \<^item> \<open>Prelude\<close>: the operations \<open>op\<close> (state to outcome and state), transactions \<open>txnE\<close>, the judgements
    \<open>preserves\<close> and \<open>commits\<close>, the collections \<open>run\<close>, \<open>pres\<close>, lists and maps, the locale \<open>keyed_table\<close>.
  \<^item> \<open>Contracts\<close>: \<open>contracts/index.ts\<close>, with the locale \<open>ranked\<close>.  \<open>JsText\<close>, \<open>JsDate\<close>, \<open>Doubles\<close>: what the
    code uses of JavaScript's strings, dates and numbers.
  \<^item> \<open>Json\<close>, \<open>Hashing\<close>, \<open>Merkle\<close>: \<open>hashing/*.ts\<close> and \<open>merkle/merkle.ts\<close> of the kernel, with the locale
    \<open>merkle_hash\<close>.
  \<^item> \<open>AuditStore\<close>, \<open>Executions\<close>, \<open>Ledger\<close>, \<open>Events\<close>, \<open>Graph\<close>, \<open>Seal\<close>: the tables of the schema \<open>audit\<close>,
    \<open>execution/*.ts\<close> and \<open>ledger/append.ts\<close>.  \<open>Export\<close>, \<open>Verify\<close>, \<open>Evidence\<close>: \<open>export/bundle.ts\<close> and
    \<open>verify/verify.ts\<close>.  \<open>Progress\<close>: when these operations succeed.  \<open>AuditSpec\<close>: the abstract machine they
    refine, by the locale \<open>refinement\<close>.  \<open>V1\<close>: the first version of the kernel, \<open>v1/\<close>.
  \<^item> \<open>AuthStore\<close>, \<open>Identity\<close>; \<open>CommandStore\<close>, \<open>Command\<close>; \<open>Http\<close>, \<open>ModelRouter\<close>; \<open>Connectors\<close>: the packages of
    the same names with their tables.
  \<^item> \<open>Chunks\<close>, \<open>Uploads\<close>, \<open>Extract\<close>, \<open>KnowledgeStore\<close>, \<open>Ingest\<close>, \<open>Retrieve\<close>: \<open>packages/knowledge\<close>.
  \<^item> \<open>Lifecycle\<close>, \<open>Governed\<close>, \<open>ModelCalls\<close>, \<open>ModelRun\<close>, \<open>Records\<close>: \<open>execution/*.ts\<close> and \<open>audit.ts\<close> of core-api;
    \<open>SocialStore\<close>, \<open>Gateway\<close>: \<open>connectors/gateway.ts\<close>; \<open>RuntimeConfig\<close>, \<open>RateLimit\<close>: the files of these names;
    \<open>Shell\<close>: \<open>shell.ts\<close>; \<open>Server\<close>, \<open>Requests\<close>: \<open>server.ts\<close> and \<open>errors.ts\<close>.
  \<^item> \<open>Frames\<close>, \<open>Invariants\<close>: what every operation leaves alone, and what no request breaks, by the locale
    \<open>store_invariant\<close>.  \<open>Console\<close>: the functions of \<open>apps/shell/lib\<close> that decide what an operator sees.

  \<^bold>\<open>State.\<close>  A table is the list of its rows in the order of insertion, a row a record with the columns as
  fields.  The states of the layers extend each other: \<open>world\<close> (how many identifiers, tokens and clock
  readings were drawn), \<open>audit_world\<close>, \<open>auth_world\<close>, \<open>command_world\<close>, \<open>net_world\<close> (the requests sent so far),
  \<open>social_world\<close>, \<open>knowledge_world\<close> (with the blob files), \<open>server_world\<close> (with the limiters).  An
  operation is polymorphic in the rest of the state, so a lower layer cannot touch the tables of a higher one.
  Constraints of the migrations are checks of the inserts that throw \<open>SqlError\<close>; a rollback puts the tables
  back, but not the clock, the files or what was sent.  Errors are values of the type \<open>err\<close>, with the classes and
  codes of the source.

  \<^bold>\<open>What is outside.\<close>  SHA-256 and the hex decoder (\<open>crypto\<close>), random identifiers, the clock (\<open>env\<close>), scrypt
  (\<open>auth_env\<close>), \<open>fetch\<close>, \<open>localeCompare\<close>, the process environment and the date parsers (\<open>net_env\<close>), the disk,
  the PDF and ZIP libraries, the UTF-8 decoder, and the vector index, text match, text rank and collation of
  PostgreSQL (\<open>knowledge_env\<close>), the URL parser (\<open>app_env\<close>) and the text of numbers (\<open>server_env\<close>) are
  arguments of the model.  What is assumed of them is named where it is used: \<open>crypto_ok\<close> (digests of 32 bytes,
  hex as documented), \<open>scrypt_ok\<close>, \<open>sound_env\<close> (four-digit years, fresh random identifiers).  SHA-256 is never
  assumed to be injective: a theorem on commitment says that two contents are equal or a \<open>collision\<close> exists.
  Strings are lists of code units below 256.

  \<^bold>\<open>What the lemmas show.\<close>
  \<^item> Content: the canonical form determines a value; hashes of entries and graphs commit to their fields; a
    Merkle proof that verifies proves membership.
  \<^item> Audit kernel: \<open>audit_inv\<close> holds after every operation (chains linked and hashed, sequence numbers without
    gaps, events closed under their parents); statuses follow the status machine; a seal commits the final
    entry to the graph of the events; every history of calls, failed ones included, is a run of the abstract
    machine of \<open>AuditSpec\<close>.
  \<^item> Evidence: the chain verifier decides exactly the reference definition of a chain; a bundle that verifies
    commits its events; the export of a sound database verifies.  An open execution can always be finalized.
  \<^item> Policy: tenancy of the tables of identity and knowledge, approvals decided at most once and only by an
    authorized member for the approved artifact, the routing decision as a specification.
  \<^item> Gateway: the provider is called at most once for an action, only with the approved artifact, and every
    outcome is recorded.
  \<^item> Knowledge: chunking ends, accepted uploads are bounded and of an allowed type, chunks come from the recorded
    bytes, retrieval returns only what the role may read and records what it returned.
  \<^item> Governed calls: nothing is sent to a model before authorization, context check and routing; a completed
    call is recorded with the hash of its answer.
  \<^item> Interface: a request that lacks its origin, session, permission or scope changes nothing; no sequence of
    requests breaks the invariants of the four groups of tables.
  \<^item> Web shell: a page of the command section is shown exactly to those the interface answers; shown citations
    have different keys and keep every count.
  \<^item> First version: trees as in the second; appends one after the other verify; overlapping appends fork the chain.

  \<^bold>\<open>Recursion.\<close>  Every loop of the model is a total function, by structural recursion or a measure on the rest of
  the input; only the cutting loop of \<open>chunkText\<close> is a partial function, because with a bound of 0 it does not end; it is proved
  to return for every positive bound.  There is no fuel.

  \<^bold>\<open>Concurrency.\<close>  Operations run one after the other: transactions are serialized (the row lock on the chain state
  of the organization), and a handler is not interleaved with another one.  The exception is \<open>V1\<close>, whose append
  runs outside a transaction and is cut at its \<open>await\<close>.

  \<^bold>\<open>Not modelled.\<close>  The health, metrics, brand, system status and live skill list routes; the Fastify plugins, the
  attributes of cookies, logging, metrics and response headers (\<open>start.ts\<close>, \<open>log.ts\<close>, \<open>metrics.ts\<close>,
  \<open>security-headers.ts\<close>); \<open>systemStatus\<close> and \<open>listBrands\<close> of \<open>shell.ts\<close>; the JSON text of a bundle
  (\<open>serializeEvidenceBundle\<close>) and the printing of the command line: input and output without a decision of
  the program.  Seeds, demonstration wipe and operating scripts only call what is modelled; \<open>down()\<close> migrations
  drop the tables.  The pages and hooks of \<open>apps/shell\<close> are React components over the HTTP interface; \<open>apps/nova\<close> and
  \<open>apps/knowledge\<close> are Python; \<open>packages/sdk-ts\<close> is empty.
\<close>

end
